(* ===== verification/Prelude.thy ===== *)
theory Prelude
  imports Main "HOL-Library.Word" "HOL-Library.AList" "HOL-Library.Product_Lexorder"
begin

text \<open>
  Shared vocabulary of the development: the Python exceptions the sources raise, the result
  type of fallible code and its sequencing, Python's \<open>bytes\<close>, slices, dictionaries and
  integer/byte conversions, and the generic lemmas on them.

  A Python exception is a constructor of \<open>py_error\<close> that carries the constant part of its
  message; the attributes of an exception that other code reads are kept as arguments.
\<close>

unbundle bit_operations_syntax

section \<open>Exceptions and results\<close>

datatype py_error =
    ValueError string
  | TypeError string
  | KeyError string
  | AttributeError string
  | IndexError
  | RuntimeError string
  | OverflowError
  | StructError string           \<comment> \<open>\<open>struct.error\<close>, an \<open>Exception\<close>\<close>
  | FileNotFoundError string
  | NotImplementedError
  | AssertionError string
  | UnicodeDecodeError
  | MemoryAccessError string int int string
      \<comment> \<open>kind, address, size, reason; a \<open>RuntimeError\<close>\<close>
  | ParallelMemoryConflict "int option" "int option" "int list"
      \<comment> \<open>writer PE, reader PE, addresses; a \<open>RuntimeError\<close>\<close>
  | TransactionError string      \<comment> \<open>a \<open>RuntimeErrorBase\<close>\<close>
  | RuntimeErrorBase string      \<comment> \<open>a \<open>RuntimeError\<close>\<close>
  | RuntimeClosedError string    \<comment> \<open>a \<open>RuntimeErrorBase\<close>\<close>
  | SessionError string          \<comment> \<open>a \<open>RuntimeError\<close>\<close>
  | SessionClosedError string    \<comment> \<open>a \<open>SessionError\<close>\<close>
  | EmbeddedWorkerError string   \<comment> \<open>a \<open>RuntimeError\<close>\<close>
  | EmbeddedWorkerTimeout string \<comment> \<open>an \<open>EmbeddedWorkerError\<close>\<close>
  | UnsupportedPeStateScope string \<comment> \<open>a \<open>RuntimeError\<close>\<close>
  | ElfFormatError string        \<comment> \<open>a \<open>ValueError\<close>\<close>
  | ElfError string              \<comment> \<open>a \<open>ValueError\<close>\<close>
  | PTOISANoteError string       \<comment> \<open>a \<open>ValueError\<close>\<close>
  | ProfileError string          \<comment> \<open>a \<open>ValueError\<close>\<close>

type_synonym 'a res = "py_error + 'a"

definition rbind :: "'a res \<Rightarrow> ('a \<Rightarrow> 'b res) \<Rightarrow> 'b res" where
  "rbind m f = (case m of Inl e \<Rightarrow> Inl e | Inr x \<Rightarrow> f x)"

text \<open>Run a fallible function over a list, stopping at the first exception.\<close>

fun rmap :: "('a \<Rightarrow> 'b res) \<Rightarrow> 'a list \<Rightarrow> 'b list res" where
  "rmap f [] = Inr []"
| "rmap f (x # xs) = rbind (f x) (\<lambda>y. rbind (rmap f xs) (\<lambda>ys. Inr (y # ys)))"

text \<open>Thread a state through a list, stopping at the first exception.\<close>

fun rfold :: "('a \<Rightarrow> 's \<Rightarrow> 's res) \<Rightarrow> 'a list \<Rightarrow> 's \<Rightarrow> 's res" where
  "rfold f [] s = Inr s"
| "rfold f (x # xs) s = rbind (f x s) (rfold f xs)"

text \<open>
  A stateful operation that may change the state and still raise: the exception or the value,
  together with the state it leaves behind.
\<close>

type_synonym ('s, 'a) act = "'s \<Rightarrow> 'a res \<times> 's"

definition abind :: "('s, 'a) act \<Rightarrow> ('a \<Rightarrow> ('s, 'b) act) \<Rightarrow> ('s, 'b) act" where
  "abind m f s = (case m s of (Inl e, s') \<Rightarrow> (Inl e, s') | (Inr x, s') \<Rightarrow> f x s')"

text \<open>Run a stateful operation over a list, collecting the values; stop at the first exception.\<close>

fun amap :: "('a \<Rightarrow> ('s, 'b) act) \<Rightarrow> 'a list \<Rightarrow> ('s, 'b list) act" where
  "amap f [] s = (Inr [], s)"
| "amap f (x # xs) s = (case f x s of
     (Inl e, t) \<Rightarrow> (Inl e, t)
   | (Inr y, t) \<Rightarrow> (case amap f xs t of (Inl e, u) \<Rightarrow> (Inl e, u) | (Inr ys, u) \<Rightarrow> (Inr (y # ys), u)))"

named_theorems res_simps \<open>sequencing of results\<close>

lemma rbind_simps [simp, res_simps]:
  "rbind (Inl e) f = Inl e" "rbind (Inr x) f = f x"
  by (simp_all add: rbind_def)

text \<open>Evaluate the first computation before looking into the continuation.\<close>

lemma rbind_weak_cong: "m = m' \<Longrightarrow> rbind m f = rbind m' f"
  by simp

lemma rbind_eq_Inr [res_simps]: "rbind m f = Inr y \<longleftrightarrow> (\<exists>x. m = Inr x \<and> f x = Inr y)"
  by (cases m) auto

lemma rbind_eq_Inl [res_simps]:
  "rbind m f = Inl e \<longleftrightarrow> m = Inl e \<or> (\<exists>x. m = Inr x \<and> f x = Inl e)"
  by (cases m) auto

text \<open>A guard that raises, read as a condition: keeps long chains of guards from splitting.\<close>

lemma guard_eq_Inr [res_simps]: "(if c then Inl e else y) = Inr x \<longleftrightarrow> \<not> c \<and> y = Inr x"
  by simp

lemma rmap_Inr_iff: "rmap f xs = Inr ys \<longleftrightarrow> list_all2 (\<lambda>x y. f x = Inr y) xs ys"
  by (induction xs arbitrary: ys) (auto simp: res_simps list_all2_Cons1)

lemma rmap_total: "(\<And>x. x \<in> set xs \<Longrightarrow> f x = Inr (g x)) \<Longrightarrow> rmap f xs = Inr (map g xs)"
  by (induction xs) auto

lemma rfold_append: "rfold f (xs @ ys) s = rbind (rfold f xs s) (rfold f ys)"
  by (induction xs arbitrary: s) (auto simp: rbind_def split: sum.splits)

lemma rfold_invariant:
  assumes "rfold f xs s = Inr s'" and "P s"
    and "\<And>x s s'. x \<in> set xs \<Longrightarrow> P s \<Longrightarrow> f x s = Inr s' \<Longrightarrow> P s'"
  shows "P s'"
  using assms
proof (induction xs arbitrary: s)
  case (Cons x xs)
  from Cons.prems(1) obtain t where t: "f x s = Inr t" "rfold f xs t = Inr s'"
    by (auto simp: res_simps)
  with Cons.prems have "P t" by (meson list.set_intros(1))
  with t Cons.IH Cons.prems(3) show ?case by (meson list.set_intros(2))
qed simp

section \<open>Bytes\<close>

type_synonym byte = "8 word"

text \<open>\<open>bytes(iterable_of_ints)\<close> raises when an element is not a byte.\<close>

definition py_bytes :: "int list \<Rightarrow> byte list res" where
  "py_bytes xs = (if list_all (\<lambda>x. 0 \<le> x \<and> x < 256) xs then Inr (map word_of_int xs)
                  else Inl (ValueError ''bytes must be in range(0, 256)''))"

lemma py_bytes_uint [simp]: "py_bytes (map uint (bs :: byte list)) = Inr bs"
proof -
  have "uint (w :: byte) < 256" for w using uint_bounded [of w] by simp
  then show ?thesis by (simp add: py_bytes_def list_all_iff comp_def)
qed

lemma py_bytes_length: "py_bytes xs = Inr bs \<Longrightarrow> length bs = length xs"
  by (auto simp: py_bytes_def split: if_splits)

lemma byte_uint_range: "0 \<le> uint (w :: byte)" "uint (w :: byte) < 256"
  using uint_bounded [of w] by simp_all

lemma uint_word_of_int_byte: "0 \<le> x \<Longrightarrow> x < 256 \<Longrightarrow> uint (word_of_int x :: byte) = x"
  by (simp add: uint_word_of_int)

text \<open>\<open>int.from_bytes(bs, "little")\<close> and \<open>value.to_bytes(n, "little")\<close>.\<close>

fun le_int :: "byte list \<Rightarrow> int" where
  "le_int [] = 0"
| "le_int (b # bs) = uint b + 256 * le_int bs"

fun le_bytes :: "nat \<Rightarrow> int \<Rightarrow> byte list" where
  "le_bytes 0 v = []"
| "le_bytes (Suc n) v = word_of_int v # le_bytes n (v div 256)"

lemma length_le_bytes [simp]: "length (le_bytes n v) = n"
  by (induction n arbitrary: v) auto

lemma le_int_nonneg [simp]: "0 \<le> le_int bs"
  by (induction bs) auto

lemma le_int_less: "le_int bs < 256 ^ length bs"
proof (induction bs)
  case (Cons b bs)
  have "uint b + 256 * le_int bs < 256 * (le_int bs + 1)"
    using byte_uint_range [of b] by simp
  also have "\<dots> \<le> 256 * 256 ^ length bs" using Cons.IH by simp
  finally show ?case by simp
qed simp

lemma le_int_le_bytes: "le_int (le_bytes n v) = v mod 256 ^ n"
proof (induction n arbitrary: v)
  case (Suc n)
  have "v mod (256 * 256 ^ n) = 256 * (v div 256 mod 256 ^ n) + v mod 256"
    by (rule zmod_zmult2_eq) simp
  then show ?case by (simp add: Suc.IH uint_word_of_int)
qed simp

lemma le_bytes_le_int [simp]: "le_bytes (length bs) (le_int bs) = bs"
proof (induction bs)
  case (Cons b bs)
  have "(uint b + 256 * le_int bs) div 256 = le_int bs"
    using byte_uint_range [of b] by simp
  moreover have "(word_of_int (uint b + 256 * le_int bs) :: byte) = b"
  proof -
    have "uint b mod 256 = uint b" using byte_uint_range [of b] by simp
    then have "uint (word_of_int (uint b + 256 * le_int bs) :: byte) = uint b"
      by (simp add: uint_word_of_int del: of_int_add of_int_mult)
    then show ?thesis by (rule word_uint_eqI)
  qed
  ultimately show ?case using Cons.IH by simp
qed simp

lemma le_int_of_fitting: "0 \<le> v \<Longrightarrow> v < 256 ^ n \<Longrightarrow> le_int (le_bytes n v) = v"
  by (simp add: le_int_le_bytes)

section \<open>Python sequences and dictionaries\<close>

text \<open>
  \<open>xs[i:j]\<close>: a negative index counts from the end, and both ends are clamped to the
  sequence.
\<close>

definition py_index :: "'a list \<Rightarrow> int \<Rightarrow> nat" where
  "py_index xs i = (if i < 0 then nat (int (length xs) + i) else min (length xs) (nat i))"

definition py_slice :: "'a list \<Rightarrow> int \<Rightarrow> int \<Rightarrow> 'a list" where
  "py_slice xs i j = take (py_index xs j - py_index xs i) (drop (py_index xs i) xs)"

lemma py_slice_nonneg:
  "0 \<le> i \<Longrightarrow> i \<le> j \<Longrightarrow> py_slice xs i j = take (nat (j - i)) (drop (nat i) xs)"
  by (cases "nat i \<le> length xs") (auto simp: py_slice_def py_index_def min_def nat_diff_distrib)

lemma length_py_slice_le: "0 \<le> i \<Longrightarrow> i \<le> j \<Longrightarrow> int (length (py_slice xs i j)) \<le> j - i"
  by (simp add: py_slice_nonneg)

lemma length_py_slice:
  "0 \<le> i \<Longrightarrow> i \<le> j \<Longrightarrow> j \<le> int (length xs) \<Longrightarrow> int (length (py_slice xs i j)) = j - i"
  by (simp add: py_slice_nonneg)

text \<open>
  A dictionary is an association list in insertion order with distinct keys;
  \<^const>\<open>AList.update\<close> replaces a key in place or appends it, as Python does.
\<close>

type_synonym ('k, 'v) dict = "('k \<times> 'v) list"

definition dict_get :: "('k, 'v) dict \<Rightarrow> 'k \<Rightarrow> 'v \<Rightarrow> 'v" where
  "dict_get d k dflt = (case map_of d k of None \<Rightarrow> dflt | Some v \<Rightarrow> v)"

definition dict_of :: "('k \<times> 'v) list \<Rightarrow> ('k, 'v) dict" where
  "dict_of ps = foldl (\<lambda>d (k, v). AList.update k v d) [] ps"

lemma dict_get_update:
  "dict_get (AList.update k v d) k' dflt = (if k' = k then v else dict_get d k' dflt)"
  by (simp add: dict_get_def update_conv')

lemma dict_get_update_same [simp]: "dict_get (AList.update k v d) k dflt = v"
  by (simp add: dict_get_update)

lemma dict_get_Nil [simp]: "dict_get [] k dflt = dflt"
  by (simp add: dict_get_def)

lemma map_of_foldl_update:
  "map_of (foldl (\<lambda>d (k, v). AList.update k v d) d ps) = map_of d ++ map_of (rev ps)"
proof (induction ps arbitrary: d)
  case (Cons p ps)
  obtain k v where [simp]: "p = (k, v)" by (cases p)
  have "map_of (AList.update k v d) = map_of d ++ [k \<mapsto> v]"
    by (simp add: update_conv')
  then show ?case by (simp add: Cons.IH del: map_add_upd)
qed simp

lemma map_of_dict_of: "map_of (dict_of ps) = map_of (rev ps)"
  by (simp add: dict_of_def map_of_foldl_update)

lemma distinct_foldl_update:
  "distinct (map fst d) \<Longrightarrow>
   distinct (map fst (foldl (\<lambda>d (k, v). AList.update k v d) d ps))"
  by (induction ps arbitrary: d) (auto simp: distinct_update)

lemma distinct_dict_of [simp]: "distinct (map fst (dict_of ps))"
  by (simp add: dict_of_def distinct_foldl_update)

lemma map_of_rev: "distinct (map fst ps) \<Longrightarrow> map_of (rev ps) = map_of ps"
  by (rule map_of_inject_set [THEN iffD2]) (auto simp: rev_map [symmetric])

lemma map_of_dict_of_distinct: "distinct (map fst ps) \<Longrightarrow> map_of (dict_of ps) = map_of ps"
  by (simp add: map_of_dict_of map_of_rev)

text \<open>The values held by the untyped mappings (\<open>metadata\<close>, observations, results).\<close>

datatype pyval =
    PNone
  | PBool bool
  | PInt int
  | PStr string
  | PBytes "byte list"
  | PList "pyval list"
  | PTuple "pyval list"
  | PDict "(string \<times> pyval) list"

text \<open>What may be looked up in a set: lists and dictionaries may not, nor tuples that hold one.\<close>

fun py_hashable :: "pyval \<Rightarrow> bool" and py_hashables :: "pyval list \<Rightarrow> bool" where
  "py_hashable (PList _) = False"
| "py_hashable (PDict _) = False"
| "py_hashable (PTuple xs) = py_hashables xs"
| "py_hashable _ = True"
| "py_hashables [] = True"
| "py_hashables (x # xs) = (py_hashable x \<and> py_hashables xs)"

section \<open>Alignment to a power of two\<close>

lemma pow2_and_pred:
  assumes "0 < p" and "p AND (p - 1) = (0 :: int)"
  shows "\<exists>k. p = 2 ^ k"
  using assms
proof (induction "nat p" arbitrary: p rule: less_induct)
  case less
  show ?case
  proof (cases "even p")
    case True
    then obtain q where q: "p = 2 * q" by blast
    have "(2 * q) AND (2 * q - 1) = 2 * (q AND (q - 1))"
    proof -
      have "(2 * q - 1) div 2 = q - 1" by simp
      then show ?thesis using and_int_rec [of "2 * q" "2 * q - 1"] by simp
    qed
    with less.prems q have "0 < q" "q AND (q - 1) = 0" by auto
    with less.hyps [of q] q obtain k where "q = 2 ^ k" by auto
    with q show ?thesis by (intro exI [of _ "Suc k"]) simp
  next
    case False
    then obtain q where q: "p = 2 * q + 1" by (auto elim: oddE)
    have "p AND (p - 1) = 2 * (q AND q)"
      using and_int_rec [of p "p - 1"] q by simp
    with less.prems q have "q = 0" by simp
    with q show ?thesis by (intro exI [of _ 0]) simp
  qed
qed

lemma int_div_eq_iff:
  assumes "0 < (p :: int)"
  shows "a div p = q \<longleftrightarrow> q * p \<le> a \<and> a < q * p + p"
proof
  assume "a div p = q"
  then have "a = q * p + a mod p" by (metis div_mult_mod_eq)
  with pos_mod_sign [OF assms, of a] pos_mod_bound [OF assms, of a]
  show "q * p \<le> a \<and> a < q * p + p" by linarith
next
  assume "q * p \<le> a \<and> a < q * p + p"
  then show "a div p = q" by (intro int_div_pos_eq [of a p q "a - q * p"]) auto
qed

lemma and_not_pred_pow2: "(a :: int) AND NOT (2 ^ k - 1) = a - a mod 2 ^ k"
proof -
  have "(a AND NOT (mask k)) + (a AND mask k) = a"
    by (subst disjunctive_add) (auto simp: bit_simps bit_eq_iff)
  then have "a AND NOT (mask k) = a - take_bit k a"
    by (simp add: take_bit_eq_mask)
  then show ?thesis by (simp add: mask_eq_exp_minus_1 take_bit_eq_mod)
qed

end
