(* ===== verification/Guest_Memory.thy ===== *)
theory Guest_Memory
  imports Prelude
begin

text \<open>
  The checked, sparse guest address space of \<open>asl_model/runtime/memory.py\<close>: regions with
  permissions, the byte dictionary, the access check, snapshots, and the write transaction of
  one instruction. An operation that raises leaves the Python object as it was, so it returns
  either the exception or its value with the new state.
\<close>

section \<open>Regions\<close>

record guest_region =
  gr_base :: int
  gr_size :: int
  gr_permissions :: string
  gr_name :: string

definition gr_end :: "guest_region \<Rightarrow> int" where
  "gr_end r = gr_base r + gr_size r"

definition GuestRegion :: "int \<Rightarrow> int \<Rightarrow> string \<Rightarrow> string \<Rightarrow> guest_region res" where
  "GuestRegion b sz perms nm =
     (if b < 0 \<or> sz \<le> 0 then
        Inl (ValueError ''guest region requires base >= 0 and size > 0'')
      else if list_ex (\<lambda>flag. flag \<notin> set ''rwx'') perms then
        Inl (ValueError ''invalid guest permissions'')
      else if length (remdups perms) \<noteq> length perms then
        Inl (ValueError ''guest permissions must not contain duplicate flags'')
      else Inr \<lparr>gr_base = b, gr_size = sz, gr_permissions = perms, gr_name = nm\<rparr>)"

text \<open>\<open>a.base < b.end and b.base < a.end\<close>: the two half-open ranges share an address.\<close>

definition overlaps :: "guest_region \<Rightarrow> guest_region \<Rightarrow> bool" where
  "overlaps a b \<longleftrightarrow> gr_base a < gr_end b \<and> gr_base b < gr_end a"

section \<open>The address space\<close>

record guest_memory =
  gm_regions :: "guest_region list"
  gm_bytes :: "(int, int) dict"

definition GuestMemory :: guest_memory where
  "GuestMemory = \<lparr>gm_regions = [], gm_bytes = []\<rparr>"

fun write_unchecked :: "int \<Rightarrow> byte list \<Rightarrow> (int, int) dict \<Rightarrow> (int, int) dict" where
  "write_unchecked a [] d = d"
| "write_unchecked a (v # vs) d = write_unchecked (a + 1) vs (AList.update a (uint v) d)"

definition guest_map_region ::
  "guest_memory \<Rightarrow> int \<Rightarrow> int \<Rightarrow> string \<Rightarrow> string \<Rightarrow> byte list \<Rightarrow> (guest_region \<times> guest_memory) res"
where
  "guest_map_region m b sz perms nm payload =
     rbind (GuestRegion b sz perms nm) (\<lambda>region.
       if int (length payload) > sz then
         Inl (ValueError ''initial region data is larger than mapped region'')
       else if list_ex (\<lambda>other. overlaps region other) (gm_regions m) then
         Inl (ValueError ''overlapping guest region'')
       else Inr (region,
         m\<lparr>gm_regions := sort_key gr_base (gm_regions m @ [region]),
           gm_bytes := write_unchecked (gr_base region) payload (gm_bytes m)\<rparr>))"

definition guest_check :: "guest_memory \<Rightarrow> int \<Rightarrow> int \<Rightarrow> char \<Rightarrow> guest_region res" where
  "guest_check m address sz permission =
     (if address < 0 \<or> sz < 0 \<or> address + sz < address then
        Inl (MemoryAccessError [permission] address sz ''invalid address range'')
      else if sz = 0 then
        (case find (\<lambda>r. gr_base r \<le> address \<and> address \<le> gr_end r
                      \<and> permission \<in> set (gr_permissions r)) (gm_regions m) of
           Some r \<Rightarrow> Inr r
         | None \<Rightarrow> Inl (MemoryAccessError [permission] address sz ''unmapped address''))
      else
        (case find (\<lambda>r. gr_base r \<le> address \<and> address + sz \<le> gr_end r) (gm_regions m) of
           Some r \<Rightarrow> if permission \<notin> set (gr_permissions r)
                     then Inl (MemoryAccessError [permission] address sz ''permission denied'')
                     else Inr r
         | None \<Rightarrow> Inl (MemoryAccessError [permission] address sz
                         ''unmapped or cross-region range'')))"

definition guest_read :: "guest_memory \<Rightarrow> int \<Rightarrow> int \<Rightarrow> byte list res" where
  "guest_read m address sz =
     rbind (guest_check m address sz CHR ''r'')
       (\<lambda>_. py_bytes (map (\<lambda>i. dict_get (gm_bytes m) (address + int i) 0) [0..<nat sz]))"

definition guest_write :: "guest_memory \<Rightarrow> int \<Rightarrow> byte list \<Rightarrow> guest_memory res" where
  "guest_write m address payload =
     rbind (guest_check m address (int (length payload)) CHR ''w'')
       (\<lambda>_. Inr (m\<lparr>gm_bytes := write_unchecked address payload (gm_bytes m)\<rparr>))"

datatype byteorder = Little | Big

definition int_from_bytes :: "byteorder \<Rightarrow> byte list \<Rightarrow> int" where
  "int_from_bytes ord bs = le_int (case ord of Little \<Rightarrow> bs | Big \<Rightarrow> rev bs)"

definition int_to_bytes :: "byteorder \<Rightarrow> nat \<Rightarrow> int \<Rightarrow> byte list" where
  "int_to_bytes ord n v = (case ord of Little \<Rightarrow> le_bytes n v | Big \<Rightarrow> rev (le_bytes n v))"

definition guest_read_u :: "guest_memory \<Rightarrow> int \<Rightarrow> int \<Rightarrow> byteorder \<Rightarrow> int res" where
  "guest_read_u m address sz ord =
     (if sz \<le> 0 then Inl (ValueError ''integer read size must be positive'')
      else rbind (guest_read m address sz) (\<lambda>bs. Inr (int_from_bytes ord bs)))"

definition guest_write_u ::
  "guest_memory \<Rightarrow> int \<Rightarrow> int \<Rightarrow> int \<Rightarrow> byteorder \<Rightarrow> guest_memory res" where
  "guest_write_u m address v sz ord =
     (if sz \<le> 0 \<or> v < 0 \<or> v \<ge> 2 ^ nat (sz * 8)
      then Inl (ValueError ''integer write value does not fit requested size'')
      else guest_write m address (int_to_bytes ord (nat sz) v))"

section \<open>Snapshots\<close>

record memory_snapshot =
  ms_regions :: "guest_region list"
  ms_bytes_by_address :: "(int \<times> int) list"

definition guest_snapshot :: "guest_memory \<Rightarrow> memory_snapshot" where
  "guest_snapshot m = \<lparr>ms_regions = gm_regions m, ms_bytes_by_address = sort (gm_bytes m)\<rparr>"

definition guest_restore :: "guest_memory \<Rightarrow> memory_snapshot \<Rightarrow> guest_memory" where
  "guest_restore m s =
     m\<lparr>gm_regions := ms_regions s, gm_bytes := dict_of (ms_bytes_by_address s)\<rparr>"

section \<open>Transactions\<close>

text \<open>
  The transaction refers to the memory it was opened on; here the memory is an argument of
  the operations, and a transaction holds only what it staged.
\<close>

record memory_transaction =
  tx_writes :: "(int \<times> byte list) list"
  tx_closed :: bool

definition guest_begin :: memory_transaction where
  "guest_begin = \<lparr>tx_writes = [], tx_closed = False\<rparr>"

definition tx_check_open :: "memory_transaction \<Rightarrow> unit res" where
  "tx_check_open tx =
     (if tx_closed tx then Inl (RuntimeError ''memory transaction is closed'') else Inr ())"

text \<open>
  One step of the overlay loop: the bytes of one staged write that fall in the window
  \<open>[address, address + size)\<close> replace the bytes read so far.
\<close>

definition overlay_write :: "int \<Rightarrow> int \<Rightarrow> byte list \<Rightarrow> int \<times> byte list \<Rightarrow> byte list" where
  "overlay_write address sz bs w =
     (let write_address = fst w; payload = snd w;
          overlap_start = max address write_address;
          overlap_end = min (address + sz) (write_address + int (length payload))
      in if overlap_start < overlap_end then
           let src_start = overlap_start - write_address in
           take (nat (overlap_start - address)) bs
           @ py_slice payload src_start (src_start + overlap_end - overlap_start)
           @ drop (nat (overlap_end - address)) bs
         else bs)"

definition tx_read ::
  "guest_memory \<Rightarrow> memory_transaction \<Rightarrow> int \<Rightarrow> int \<Rightarrow> byte list res" where
  "tx_read m tx address sz =
     rbind (tx_check_open tx) (\<lambda>_.
       rbind (guest_read m address sz) (\<lambda>bs.
         Inr (foldl (overlay_write address sz) bs (tx_writes tx))))"

definition tx_write ::
  "guest_memory \<Rightarrow> memory_transaction \<Rightarrow> int \<Rightarrow> byte list \<Rightarrow> memory_transaction res" where
  "tx_write m tx address payload =
     rbind (tx_check_open tx) (\<lambda>_.
       rbind (guest_check m address (int (length payload)) CHR ''w'') (\<lambda>_.
         Inr (tx\<lparr>tx_writes := tx_writes tx @ [(address, payload)]\<rparr>)))"

definition tx_read_u ::
  "guest_memory \<Rightarrow> memory_transaction \<Rightarrow> int \<Rightarrow> int \<Rightarrow> byteorder \<Rightarrow> int res" where
  "tx_read_u m tx address sz ord =
     (if sz \<le> 0 then Inl (ValueError ''integer read size must be positive'')
      else rbind (tx_read m tx address sz) (\<lambda>bs. Inr (int_from_bytes ord bs)))"

definition tx_write_u ::
  "guest_memory \<Rightarrow> memory_transaction \<Rightarrow> int \<Rightarrow> int \<Rightarrow> int \<Rightarrow> byteorder \<Rightarrow>
   memory_transaction res" where
  "tx_write_u m tx address v sz ord =
     (if sz \<le> 0 \<or> v < 0 \<or> v \<ge> 2 ^ nat (sz * 8)
      then Inl (ValueError ''integer write value does not fit requested size'')
      else tx_write m tx address (int_to_bytes ord (nat sz) v))"

definition apply_write :: "guest_memory \<Rightarrow> int \<times> byte list \<Rightarrow> guest_memory" where
  "apply_write m w = m\<lparr>gm_bytes := write_unchecked (fst w) (snd w) (gm_bytes m)\<rparr>"

definition tx_commit ::
  "guest_memory \<Rightarrow> memory_transaction \<Rightarrow>
   ((int \<times> byte list) list \<times> memory_transaction \<times> guest_memory) res" where
  "tx_commit m tx =
     rbind (tx_check_open tx) (\<lambda>_.
       Inr (tx_writes tx, tx\<lparr>tx_closed := True\<rparr>, foldl apply_write m (tx_writes tx)))"

definition tx_abort :: "memory_transaction \<Rightarrow> memory_transaction res" where
  "tx_abort tx =
     rbind (tx_check_open tx) (\<lambda>_. Inr (tx\<lparr>tx_writes := [], tx_closed := True\<rparr>))"


section \<open>Lemmas: the byte dictionary\<close>

text \<open>The byte a mapped address reads as: unwritten bytes are zero.\<close>

definition mem_val :: "guest_memory \<Rightarrow> int \<Rightarrow> int" where
  "mem_val m a = dict_get (gm_bytes m) a 0"

lemma dict_get_write_unchecked:
  "dict_get (write_unchecked a bs d) k 0 =
     (if a \<le> k \<and> k < a + int (length bs) then uint (bs ! nat (k - a)) else dict_get d k 0)"
proof (induction bs arbitrary: a d)
  case (Cons b bs)
  have "nat (k - a) = Suc (nat (k - (a + 1)))" if "a < k" using that by simp
  then show ?case by (auto simp: Cons.IH dict_get_update)
qed simp

lemma fst_set_write_unchecked:
  "fst ` set (write_unchecked a bs d) = fst ` set d \<union> {a ..< a + int (length bs)}"
proof (induction bs arbitrary: a d)
  case (Cons b bs)
  have "fst ` set (AList.update a (uint b) d) = insert a (fst ` set d)"
    using dom_update [of a "uint b" d] by (simp add: dom_map_of_conv_image_fst)
  then show ?case by (auto simp: Cons.IH)
qed simp

lemma distinct_write_unchecked:
  "distinct (map fst d) \<Longrightarrow> distinct (map fst (write_unchecked a bs d))"
  by (induction bs arbitrary: a d) (auto simp: distinct_update)

lemma in_set_update: "p \<in> set (AList.update k v d) \<Longrightarrow> p = (k, v) \<or> p \<in> set d"
  by (induction d) (auto split: if_splits)

definition is_byte :: "int \<Rightarrow> bool" where
  "is_byte v \<longleftrightarrow> 0 \<le> v \<and> v < 256"

lemma is_byte_uint [simp]: "is_byte (uint (b :: byte))"
  by (simp add: is_byte_def byte_uint_range)

lemma snd_set_write_unchecked:
  assumes "\<forall>p \<in> set d. is_byte (snd p)"
  shows "\<forall>p \<in> set (write_unchecked a bs d). is_byte (snd p)"
  using assms
proof (induction bs arbitrary: a d)
  case (Cons b bs)
  have "\<forall>p \<in> set (AList.update a (uint b) d). is_byte (snd p)"
    using in_set_update Cons.prems by fastforce
  then show ?case unfolding write_unchecked.simps by (rule Cons.IH)
qed simp

section \<open>Lemmas: regions\<close>

definition region_ok :: "guest_region \<Rightarrow> bool" where
  "region_ok r \<longleftrightarrow> 0 \<le> gr_base r \<and> 0 < gr_size r
     \<and> set (gr_permissions r) \<subseteq> set ''rwx'' \<and> distinct (gr_permissions r)"

definition in_region :: "guest_region \<Rightarrow> int \<Rightarrow> bool" where
  "in_region r a \<longleftrightarrow> gr_base r \<le> a \<and> a < gr_end r"

definition regions_wf :: "guest_region list \<Rightarrow> bool" where
  "regions_wf rs \<longleftrightarrow> (\<forall>r \<in> set rs. region_ok r) \<and> sorted_wrt (\<lambda>r s. gr_end r \<le> gr_base s) rs"

lemma GuestRegion_eq_Inr:
  "GuestRegion b sz perms nm = Inr r \<longleftrightarrow>
     r = \<lparr>gr_base = b, gr_size = sz, gr_permissions = perms, gr_name = nm\<rparr> \<and> region_ok r"
proof -
  have ex: "list_ex (\<lambda>flag. flag \<notin> A) perms \<longleftrightarrow> \<not> set perms \<subseteq> A" for A
    by (auto simp: list_ex_iff)
  define A where "A = set ''rwx''"
  show ?thesis
    unfolding GuestRegion_def region_ok_def ex A_def [symmetric]
    by (cases "b < 0 \<or> sz \<le> 0"; cases "set perms \<subseteq> A"; cases "distinct perms") auto
qed

lemma overlaps_iff_shared:
  assumes "region_ok r" and "region_ok s"
  shows "overlaps r s \<longleftrightarrow> (\<exists>a. in_region r a \<and> in_region s a)"
proof
  assume "overlaps r s"
  with assms have "in_region r (max (gr_base r) (gr_base s))"
    and "in_region s (max (gr_base r) (gr_base s))"
    by (auto simp: overlaps_def in_region_def gr_end_def region_ok_def)
  then show "\<exists>a. in_region r a \<and> in_region s a" by blast
qed (auto simp: overlaps_def in_region_def)

lemma region_ok_base_lt_end: "region_ok r \<Longrightarrow> gr_base r < gr_end r"
  by (simp add: region_ok_def gr_end_def)

lemma regions_wf_disjoint:
  assumes "regions_wf rs" "r \<in> set rs" "s \<in> set rs" "in_region r a" "in_region s a"
  shows "r = s"
proof (rule ccontr)
  assume "r \<noteq> s"
  with assms(2,3) obtain i j where ij: "i < length rs" "j < length rs" "rs ! i = r" "rs ! j = s"
    "i \<noteq> j" by (metis in_set_conv_nth)
  from assms(1) have srt: "sorted_wrt (\<lambda>r s. gr_end r \<le> gr_base s) rs"
    by (simp add: regions_wf_def)
  show False
  proof (cases "i < j")
    case True
    with srt ij have "gr_end r \<le> gr_base s" by (auto simp: sorted_wrt_iff_nth_less)
    with assms(4,5) show False by (simp add: in_region_def)
  next
    case False
    with srt ij have "gr_end s \<le> gr_base r" by (auto simp: sorted_wrt_iff_nth_less)
    with assms(4,5) show False by (simp add: in_region_def)
  qed
qed

lemma regions_wf_distinct: "regions_wf rs \<Longrightarrow> distinct rs"
proof (induction rs)
  case (Cons r rs)
  then have "regions_wf rs" "region_ok r" "\<forall>s \<in> set rs. gr_end r \<le> gr_base s"
    by (auto simp: regions_wf_def)
  with Cons.IH show ?case using region_ok_base_lt_end [of r] by fastforce
qed simp

lemma regions_wf_sorted: "regions_wf rs \<Longrightarrow> sorted (map gr_base rs)"
proof (induction rs)
  case (Cons r rs)
  then have "regions_wf rs" "region_ok r" "\<forall>s \<in> set rs. gr_end r \<le> gr_base s"
    by (auto simp: regions_wf_def)
  with Cons.IH show ?case by (fastforce dest: region_ok_base_lt_end)
qed simp

text \<open>A sorted list of pairwise non-overlapping regions is a well-formed region list.\<close>

lemma regions_wfI:
  assumes "\<forall>r \<in> set rs. region_ok r" and "sorted (map gr_base rs)" and "distinct rs"
    and "\<And>r s. r \<in> set rs \<Longrightarrow> s \<in> set rs \<Longrightarrow> r \<noteq> s \<Longrightarrow> \<not> overlaps r s"
  shows "regions_wf rs"
  using assms
proof (induction rs)
  case (Cons r rs)
  have "gr_end r \<le> gr_base s" if "s \<in> set rs" for s
  proof -
    from that Cons.prems have "\<not> overlaps r s" "gr_base r \<le> gr_base s" "region_ok s" by auto
    then show ?thesis using region_ok_base_lt_end [of s] by (auto simp: overlaps_def)
  qed
  with Cons show ?case by (auto simp: regions_wf_def)
qed (simp add: regions_wf_def)

lemma regions_wf_not_overlaps:
  assumes "regions_wf rs" "r \<in> set rs" "s \<in> set rs" "r \<noteq> s"
  shows "\<not> overlaps r s"
  using assms regions_wf_disjoint [OF assms(1)] overlaps_iff_shared
  by (metis regions_wf_def)

lemma regions_wf_insert:
  assumes wf: "regions_wf rs" and ok: "region_ok r" and no: "\<not> list_ex (overlaps r) rs"
  shows "regions_wf (sort_key gr_base (rs @ [r]))"
proof (rule regions_wfI)
  have self: "overlaps r r" using ok by (simp add: overlaps_def region_ok_base_lt_end)
  with no have notin: "r \<notin> set rs" by (auto simp: list_ex_iff)
  show "\<forall>s \<in> set (sort_key gr_base (rs @ [r])). region_ok s"
    using wf ok by (auto simp: regions_wf_def)
  show "sorted (map gr_base (sort_key gr_base (rs @ [r])))" by (rule sorted_sort_key)
  show "distinct (sort_key gr_base (rs @ [r]))"
    using notin regions_wf_distinct [OF wf] by simp
  show "\<not> overlaps s t"
    if "s \<in> set (sort_key gr_base (rs @ [r]))" "t \<in> set (sort_key gr_base (rs @ [r]))" "s \<noteq> t"
    for s t
    using that no regions_wf_not_overlaps [OF wf] by (auto simp: list_ex_iff overlaps_def)
qed


section \<open>Lemmas: the invariant of the address space\<close>

text \<open>
  Regions are valid, sorted and disjoint; dictionary keys are distinct, mapped, and hold
  bytes. Every operation keeps this.
\<close>

definition mapped :: "guest_memory \<Rightarrow> int \<Rightarrow> bool" where
  "mapped m a \<longleftrightarrow> (\<exists>r \<in> set (gm_regions m). in_region r a)"

definition mem_wf :: "guest_memory \<Rightarrow> bool" where
  "mem_wf m \<longleftrightarrow> regions_wf (gm_regions m) \<and> distinct (map fst (gm_bytes m))
     \<and> (\<forall>p \<in> set (gm_bytes m). is_byte (snd p) \<and> mapped m (fst p))"

lemma mem_wf_empty [simp]: "mem_wf GuestMemory"
  by (simp add: mem_wf_def GuestMemory_def regions_wf_def)

lemma mem_val_range:
  assumes "mem_wf m"
  shows "0 \<le> mem_val m a" and "mem_val m a < 256"
proof -
  have "0 \<le> mem_val m a \<and> mem_val m a < 256"
  proof (cases "map_of (gm_bytes m) a")
    case (Some v)
    then have "(a, v) \<in> set (gm_bytes m)" by (rule map_of_SomeD)
    with assms Some show ?thesis by (auto simp: mem_wf_def mem_val_def dict_get_def is_byte_def)
  qed (simp add: mem_val_def dict_get_def)
  then show "0 \<le> mem_val m a" and "mem_val m a < 256" by simp_all
qed

lemma mem_val_unmapped: "mem_wf m \<Longrightarrow> \<not> mapped m a \<Longrightarrow> mem_val m a = 0"
  by (auto simp: mem_wf_def mem_val_def dict_get_def split: option.splits dest!: map_of_SomeD)

lemma mem_wf_write_unchecked:
  assumes wf: "mem_wf m" and mp: "\<And>k. a \<le> k \<Longrightarrow> k < a + int (length bs) \<Longrightarrow> mapped m k"
  shows "mem_wf (m\<lparr>gm_bytes := write_unchecked a bs (gm_bytes m)\<rparr>)"
proof -
  let ?m = "m\<lparr>gm_bytes := write_unchecked a bs (gm_bytes m)\<rparr>"
  have vals: "\<forall>p \<in> set (gm_bytes ?m). is_byte (snd p)"
    using wf snd_set_write_unchecked [of "gm_bytes m" a bs] by (simp add: mem_wf_def)
  have mpd: "mapped ?m k" if "k \<in> fst ` set (gm_bytes ?m)" for k
  proof -
    from that have "k \<in> fst ` set (gm_bytes m) \<or> a \<le> k \<and> k < a + int (length bs)"
      by (simp add: fst_set_write_unchecked)
    then have "mapped m k" using wf mp by (auto simp: mem_wf_def)
    then show ?thesis by (simp add: mapped_def)
  qed
  have "regions_wf (gm_regions ?m)" "distinct (map fst (gm_bytes ?m))"
    using wf distinct_write_unchecked [of "gm_bytes m" a bs] by (simp_all add: mem_wf_def)
  then show ?thesis unfolding mem_wf_def using vals mpd by blast
qed

text \<open>Mapping a region: exactly what changes.\<close>

lemma guest_map_region_Inr:
  assumes "guest_map_region m b sz perms nm payload = Inr (r, m')"
  shows "r = \<lparr>gr_base = b, gr_size = sz, gr_permissions = perms, gr_name = nm\<rparr>"
    and "region_ok r" and "\<not> list_ex (overlaps r) (gm_regions m)"
    and "int (length payload) \<le> sz"
    and "set (gm_regions m') = insert r (set (gm_regions m))"
    and "gm_regions m' = sort_key gr_base (gm_regions m @ [r])"
    and "gm_bytes m' = write_unchecked b payload (gm_bytes m)"
  using assms
  by (auto simp: guest_map_region_def res_simps GuestRegion_eq_Inr split: if_splits)

lemma guest_map_region_ok:
  assumes "region_ok \<lparr>gr_base = b, gr_size = sz, gr_permissions = perms, gr_name = nm\<rparr>"
    and "int (length payload) \<le> sz"
    and "\<not> list_ex (overlaps \<lparr>gr_base = b, gr_size = sz, gr_permissions = perms, gr_name = nm\<rparr>)
            (gm_regions m)"
  shows "\<exists>r m'. guest_map_region m b sz perms nm payload = Inr (r, m')"
proof -
  from assms(1) have "GuestRegion b sz perms nm =
      Inr \<lparr>gr_base = b, gr_size = sz, gr_permissions = perms, gr_name = nm\<rparr>"
    by (simp add: GuestRegion_eq_Inr)
  with assms(2,3) show ?thesis by (simp add: guest_map_region_def)
qed

lemma mapped_map_region:
  assumes "guest_map_region m b sz perms nm payload = Inr (r, m')"
  shows "mapped m' a \<longleftrightarrow> mapped m a \<or> b \<le> a \<and> a < b + sz"
  using guest_map_region_Inr(1,5) [OF assms] by (auto simp: mapped_def in_region_def gr_end_def)

lemma mem_val_map_region:
  assumes "guest_map_region m b sz perms nm payload = Inr (r, m')"
  shows "mem_val m' a =
     (if b \<le> a \<and> a < b + int (length payload) then uint (payload ! nat (a - b)) else mem_val m a)"
  using guest_map_region_Inr(7) [OF assms] by (simp add: mem_val_def dict_get_write_unchecked)

lemma mem_wf_map_region:
  assumes wf: "mem_wf m" and eq: "guest_map_region m b sz perms nm payload = Inr (r, m')"
  shows "mem_wf m'"
proof -
  note inv = guest_map_region_Inr [OF eq]
  let ?m = "m\<lparr>gm_regions := gm_regions m'\<rparr>"
  have "regions_wf (gm_regions m')"
    using wf inv(2,3) regions_wf_insert [of "gm_regions m" r] by (simp add: inv(6) mem_wf_def)
  then have "mem_wf ?m"
    using wf inv(5) by (auto simp: mem_wf_def mapped_def)
  moreover have "mapped ?m k" if "b \<le> k" "k < b + int (length payload)" for k
    using that inv(1,4,5) by (auto simp: mapped_def in_region_def gr_end_def)
  ultimately have "mem_wf (?m\<lparr>gm_bytes := write_unchecked b payload (gm_bytes ?m)\<rparr>)"
    by (rule mem_wf_write_unchecked)
  moreover have "?m\<lparr>gm_bytes := write_unchecked b payload (gm_bytes ?m)\<rparr> = m'"
    using inv(7) by simp
  ultimately show ?thesis by simp
qed


section \<open>Lemmas: checked reads and writes\<close>

lemma find_SomeD: "find P xs = Some x \<Longrightarrow> x \<in> set xs \<and> P x"
  by (auto simp: find_Some_iff)

lemma find_unique:
  assumes "x \<in> set xs" and "P x" and "\<And>y. y \<in> set xs \<Longrightarrow> P y \<Longrightarrow> y = x"
  shows "find P xs = Some x"
proof (cases "find P xs")
  case None
  with assms(1,2) show ?thesis unfolding find_None_iff by blast
next
  case (Some y)
  with assms(3) show ?thesis by (auto dest: find_SomeD)
qed

lemma guest_check_Inr:
  assumes "guest_check m a n p = Inr r"
  shows "r \<in> set (gm_regions m)" and "gr_base r \<le> a" and "a + n \<le> gr_end r"
    and "p \<in> set (gr_permissions r)" and "0 \<le> a" and "0 \<le> n"
proof -
  have "r \<in> set (gm_regions m) \<and> gr_base r \<le> a \<and> a + n \<le> gr_end r
      \<and> p \<in> set (gr_permissions r) \<and> 0 \<le> a \<and> 0 \<le> n"
  proof (cases "n = 0")
    case True
    with assms show ?thesis
      unfolding guest_check_def by (simp split: if_splits option.splits) (use find_SomeD in fastforce)
  next
    case False
    with assms show ?thesis
      unfolding guest_check_def by (simp split: if_splits option.splits) (use find_SomeD in fastforce)
  qed
  then show "r \<in> set (gm_regions m)" and "gr_base r \<le> a" and "a + n \<le> gr_end r"
    and "p \<in> set (gr_permissions r)" and "0 \<le> a" and "0 \<le> n" by simp_all
qed

lemma covering_region_unique:
  assumes "regions_wf rs" and "0 < n" and "r \<in> set rs" and "gr_base r \<le> a" and "a + n \<le> gr_end r"
    and "s \<in> set rs" and "gr_base s \<le> a" and "a + n \<le> gr_end s"
  shows "s = r"
  by (rule regions_wf_disjoint [of rs _ _ a]) (use assms in \<open>auto simp: in_region_def\<close>)

lemma guest_check_covering:
  assumes wf: "regions_wf (gm_regions m)" and "0 < n" and "0 \<le> a"
    and "r \<in> set (gm_regions m)" and "gr_base r \<le> a" and "a + n \<le> gr_end r"
  shows "guest_check m a n p =
     (if p \<in> set (gr_permissions r) then Inr r
      else Inl (MemoryAccessError [p] a n ''permission denied''))"
proof -
  have "find (\<lambda>r. gr_base r \<le> a \<and> a + n \<le> gr_end r) (gm_regions m) = Some r"
    by (rule find_unique) (use assms covering_region_unique [OF wf] in blast)+
  with assms(2,3) show ?thesis by (simp add: guest_check_def)
qed

lemma guest_check_uncovered:
  assumes "0 < n" and "0 \<le> a" and "\<not> (\<exists>r \<in> set (gm_regions m). gr_base r \<le> a \<and> a + n \<le> gr_end r)"
  shows "guest_check m a n p = Inl (MemoryAccessError [p] a n ''unmapped or cross-region range'')"
proof -
  have "find (\<lambda>r. gr_base r \<le> a \<and> a + n \<le> gr_end r) (gm_regions m) = None"
    using assms(3) by (auto simp: find_None_iff)
  with assms(1,2) show ?thesis by (simp add: guest_check_def)
qed

text \<open>The check looks only at the regions, which writes do not change.\<close>

lemma guest_check_regions:
  "gm_regions m = gm_regions m' \<Longrightarrow> guest_check m a n p = guest_check m' a n p"
  by (simp add: guest_check_def)

lemma guest_check_bytes [simp]: "guest_check (m\<lparr>gm_bytes := d\<rparr>) a n p = guest_check m a n p"
  by (rule guest_check_regions) simp

lemma guest_check_mapped:
  "guest_check m a n p = Inr r \<Longrightarrow> a \<le> k \<Longrightarrow> k < a + n \<Longrightarrow> mapped m k"
  using guest_check_Inr [of m a n p r] by (force simp: mapped_def in_region_def)

text \<open>The bytes a read returns.\<close>

definition mem_bytes :: "guest_memory \<Rightarrow> int \<Rightarrow> int \<Rightarrow> byte list" where
  "mem_bytes m a n = map (\<lambda>i. word_of_int (mem_val m (a + int i))) [0..<nat n]"

lemma length_mem_bytes [simp]: "length (mem_bytes m a n) = nat n"
  by (simp add: mem_bytes_def)

lemma guest_read_eq:
  assumes "mem_wf m"
  shows "guest_read m a n = rbind (guest_check m a n CHR ''r'') (\<lambda>_. Inr (mem_bytes m a n))"
  using mem_val_range [OF assms]
  by (simp add: guest_read_def mem_bytes_def py_bytes_def list_all_iff mem_val_def comp_def)

lemma guest_write_Inr:
  assumes "guest_write m a bs = Inr m'"
  shows "m' = m\<lparr>gm_bytes := write_unchecked a bs (gm_bytes m)\<rparr>"
    and "\<exists>r. guest_check m a (int (length bs)) CHR ''w'' = Inr r"
  using assms by (auto simp: guest_write_def res_simps)

lemma mem_val_guest_write:
  "guest_write m a bs = Inr m' \<Longrightarrow>
   mem_val m' k = (if a \<le> k \<and> k < a + int (length bs) then uint (bs ! nat (k - a)) else mem_val m k)"
  using guest_write_Inr(1) [of m a bs m'] by (simp add: mem_val_def dict_get_write_unchecked)

lemma guest_write_regions: "guest_write m a bs = Inr m' \<Longrightarrow> gm_regions m' = gm_regions m"
  using guest_write_Inr(1) [of m a bs m'] by simp

lemma mem_wf_guest_write: "mem_wf m \<Longrightarrow> guest_write m a bs = Inr m' \<Longrightarrow> mem_wf m'"
  using guest_write_Inr [of m a bs m'] mem_wf_write_unchecked guest_check_mapped by metis

lemma mem_bytes_guest_write_same:
  "guest_write m a bs = Inr m' \<Longrightarrow> mem_bytes m' a (int (length bs)) = bs"
  by (rule nth_equalityI) (simp_all add: mem_bytes_def mem_val_guest_write)

lemma mem_bytes_guest_write_disjoint:
  assumes "guest_write m a bs = Inr m'" and "b + n \<le> a \<or> a + int (length bs) \<le> b"
  shows "mem_bytes m' b n = mem_bytes m b n"
  using assms by (auto simp: mem_bytes_def mem_val_guest_write)

lemma int_roundtrip:
  "0 \<le> v \<Longrightarrow> v < 2 ^ (n * 8) \<Longrightarrow> int_from_bytes ord (int_to_bytes ord n v) = v"
proof -
  have "(256 :: int) ^ n = 2 ^ (n * 8)" by (simp add: power_mult mult.commute [of n 8])
  then show "0 \<le> v \<Longrightarrow> v < 2 ^ (n * 8) \<Longrightarrow> int_from_bytes ord (int_to_bytes ord n v) = v"
    by (cases ord) (simp_all add: int_from_bytes_def int_to_bytes_def le_int_le_bytes)
qed

lemma length_int_to_bytes [simp]: "length (int_to_bytes ord n v) = n"
  by (cases ord) (simp_all add: int_to_bytes_def)

section \<open>Lemmas: transactions\<close>

lemma gm_regions_apply_write [simp]: "gm_regions (apply_write m w) = gm_regions m"
  by (simp add: apply_write_def)

lemma gm_regions_apply_writes [simp]: "gm_regions (foldl apply_write m ws) = gm_regions m"
  by (induction ws arbitrary: m) simp_all

lemma mem_val_apply_write:
  "mem_val (apply_write m w) k =
     (if fst w \<le> k \<and> k < fst w + int (length (snd w)) then uint (snd w ! nat (k - fst w))
      else mem_val m k)"
  by (simp add: apply_write_def mem_val_def dict_get_write_unchecked)

text \<open>One overlay step on the bytes read is one applied write on the memory read.\<close>

lemma nth_splice:
  assumes "s \<le> e" and "e \<le> length bs" and "length mid = e - s"
  shows "(take s bs @ mid @ drop e bs) ! i = (if s \<le> i \<and> i < e then mid ! (i - s) else bs ! i)"
  using assms by (auto simp: nth_append)

lemma length_splice:
  assumes "s \<le> e" and "e \<le> length bs" and "length mid = e - s"
  shows "length (take s bs @ mid @ drop e bs) = length bs"
  using assms by auto

lemma overlay_write_pointwise:
  assumes len: "length bs = nat sz" and sz: "0 \<le> sz"
  shows "length (overlay_write address sz bs (wa, payload)) = nat sz"
    and "i < nat sz \<Longrightarrow> overlay_write address sz bs (wa, payload) ! i =
       (if wa \<le> address + int i \<and> address + int i < wa + int (length payload)
        then payload ! nat (address + int i - wa) else bs ! i)"
proof -
  define s where "s = max address wa"
  define e where "e = min (address + sz) (wa + int (length payload))"
  have ov: "overlay_write address sz bs (wa, payload) = (if s < e then
      take (nat (s - address)) bs @ py_slice payload (s - wa) (s - wa + e - s)
        @ drop (nat (e - address)) bs else bs)"
    by (simp only: overlay_write_def Let_def fst_conv snd_conv s_def e_def)
  have "length (overlay_write address sz bs (wa, payload)) = nat sz \<and>
    (i < nat sz \<longrightarrow> overlay_write address sz bs (wa, payload) ! i =
       (if wa \<le> address + int i \<and> address + int i < wa + int (length payload)
        then payload ! nat (address + int i - wa) else bs ! i))"
  proof (cases "s < e")
    case False
    then have "\<not> (wa \<le> address + int i \<and> address + int i < wa + int (length payload))" if "i < nat sz"
      using that by (auto simp: s_def e_def)
    with False ov len show ?thesis by auto
  next
    case True
    let ?mid = "take (nat (e - s)) (drop (nat (s - wa)) payload)"
    have b: "wa \<le> s" "address \<le> s" "e \<le> address + sz" "e \<le> wa + int (length payload)"
      by (auto simp: s_def e_def)
    have slice: "py_slice payload (s - wa) (s - wa + e - s) = ?mid"
      using True b by (subst py_slice_nonneg) auto
    have lmid: "length ?mid = nat (e - address) - nat (s - address)" using True b by auto
    have spl: "overlay_write address sz bs (wa, payload) =
        take (nat (s - address)) bs @ ?mid @ drop (nat (e - address)) bs"
      using True ov slice by simp
    have len': "length (overlay_write address sz bs (wa, payload)) = nat sz"
      unfolding spl len [symmetric] by (rule length_splice [OF _ _ lmid]) (use True b len in auto)
    moreover have "overlay_write address sz bs (wa, payload) ! i =
       (if wa \<le> address + int i \<and> address + int i < wa + int (length payload)
        then payload ! nat (address + int i - wa) else bs ! i)" if i: "i < nat sz"
    proof -
      have "overlay_write address sz bs (wa, payload) ! i =
          (if nat (s - address) \<le> i \<and> i < nat (e - address) then ?mid ! (i - nat (s - address)) else bs ! i)"
        unfolding spl by (rule nth_splice [OF _ _ lmid]) (use True b len in auto)
      moreover have "nat (s - address) \<le> i \<and> i < nat (e - address) \<longleftrightarrow>
          wa \<le> address + int i \<and> address + int i < wa + int (length payload)"
        using i sz True b by (auto simp: s_def e_def)
      moreover have "?mid ! (i - nat (s - address)) = payload ! nat (address + int i - wa)"
        if "nat (s - address) \<le> i" "i < nat (e - address)"
      proof -
        have "i - nat (s - address) < nat (e - s)" using that b by simp
        then have "?mid ! (i - nat (s - address)) = drop (nat (s - wa)) payload ! (i - nat (s - address))"
          by simp
        also have "\<dots> = payload ! (nat (s - wa) + (i - nat (s - address)))"
          by (rule nth_drop) (use b True in simp)
        also have "nat (s - wa) + (i - nat (s - address)) = nat (address + int i - wa)"
          using that b by simp
        finally show ?thesis .
      qed
      ultimately show ?thesis by metis
    qed
    ultimately show ?thesis by simp
  qed
  then show "length (overlay_write address sz bs (wa, payload)) = nat sz"
    and "i < nat sz \<Longrightarrow> overlay_write address sz bs (wa, payload) ! i =
       (if wa \<le> address + int i \<and> address + int i < wa + int (length payload)
        then payload ! nat (address + int i - wa) else bs ! i)" by blast+
qed

lemma overlay_write_mem_bytes:
  assumes "0 \<le> sz"
  shows "overlay_write address sz (mem_bytes m address sz) w = mem_bytes (apply_write m w) address sz"
proof -
  obtain wa payload where w: "w = (wa, payload)" by (cases w)
  note pw = overlay_write_pointwise [where bs = "mem_bytes m address sz" and address = address and wa = wa
      and payload = payload, OF _ assms]
  show ?thesis
    unfolding w by (rule nth_equalityI)
      (simp_all add: pw, simp add: mem_bytes_def mem_val_apply_write)
qed

lemma overlay_writes_mem_bytes:
  "0 \<le> sz \<Longrightarrow> foldl (overlay_write address sz) (mem_bytes m address sz) ws =
     mem_bytes (foldl apply_write m ws) address sz"
  by (induction ws arbitrary: m) (simp_all add: overlay_write_mem_bytes)


text \<open>Staging checks exactly what a direct write checks, whatever has been staged before.\<close>

lemma tx_write_open:
  "\<not> tx_closed tx \<Longrightarrow> tx_write m tx a bs = rbind (guest_check m a (int (length bs)) CHR ''w'')
     (\<lambda>_. Inr (tx\<lparr>tx_writes := tx_writes tx @ [(a, bs)]\<rparr>))"
  by (simp add: tx_write_def tx_check_open_def)

lemma guest_write_apply:
  "guest_write m a bs = rbind (guest_check m a (int (length bs)) CHR ''w'') (\<lambda>_. Inr (apply_write m (a, bs)))"
  by (simp add: guest_write_def apply_write_def)

definition stage_all :: "guest_memory \<Rightarrow> (int \<times> byte list) list \<Rightarrow> memory_transaction \<Rightarrow>
    memory_transaction res" where
  "stage_all m ws tx = rfold (\<lambda>(a, bs) tx. tx_write m tx a bs) ws tx"

definition write_all :: "(int \<times> byte list) list \<Rightarrow> guest_memory \<Rightarrow> guest_memory res" where
  "write_all ws m = rfold (\<lambda>(a, bs) m. guest_write m a bs) ws m"

definition check_writes :: "guest_memory \<Rightarrow> (int \<times> byte list) list \<Rightarrow> guest_region list res" where
  "check_writes m ws = rmap (\<lambda>(a, bs). guest_check m a (int (length bs)) CHR ''w'') ws"

lemma check_writes_Cons:
  "check_writes m ((a, bs) # ws) = rbind (guest_check m a (int (length bs)) CHR ''w'')
     (\<lambda>r. rbind (check_writes m ws) (\<lambda>rs. Inr (r # rs)))"
  by (simp add: check_writes_def)

lemma stage_all_eq:
  "\<not> tx_closed tx \<Longrightarrow> stage_all m ws tx =
     rbind (check_writes m ws) (\<lambda>_. Inr (tx\<lparr>tx_writes := tx_writes tx @ ws\<rparr>))"
proof (induction ws arbitrary: tx)
  case (Cons w ws)
  obtain a bs where w: "w = (a, bs)" by (cases w)
  show ?case
  proof (cases "guest_check m a (int (length bs)) CHR ''w''")
    case (Inr r)
    with Cons.IH [of "tx\<lparr>tx_writes := tx_writes tx @ [(a, bs)]\<rparr>"] Cons.prems show ?thesis
      by (cases "check_writes m ws")
        (simp_all add: stage_all_def w tx_write_open check_writes_def)
  qed (use Cons.prems in \<open>simp add: stage_all_def w tx_write_open check_writes_def\<close>)
qed (simp add: stage_all_def check_writes_def)

lemma check_writes_apply_write [simp]: "check_writes (apply_write m w) ws = check_writes m ws"
  unfolding check_writes_def using guest_check_regions [OF gm_regions_apply_write, of m w] by simp

lemma write_all_eq: "write_all ws m = rbind (check_writes m ws) (\<lambda>_. Inr (foldl apply_write m ws))"
proof (induction ws arbitrary: m)
  case (Cons w ws)
  obtain a bs where w: "w = (a, bs)" by (cases w)
  have "write_all (w # ws) m = rbind (guest_check m a (int (length bs)) CHR ''w'')
      (\<lambda>_. write_all ws (apply_write m w))"
    by (cases "guest_check m a (int (length bs)) CHR ''w''")
      (simp_all add: write_all_def w guest_write_apply)
  then show ?case
    by (cases "guest_check m a (int (length bs)) CHR ''w''"; cases "check_writes m ws")
      (simp_all add: Cons.IH w check_writes_Cons)
qed (simp add: write_all_def check_writes_def)

lemma mem_wf_foldl_apply_write:
  assumes "mem_wf m"
    and "\<forall>w \<in> set ws. \<forall>k. fst w \<le> k \<longrightarrow> k < fst w + int (length (snd w)) \<longrightarrow> mapped m k"
  shows "mem_wf (foldl apply_write m ws)"
  using assms
proof (induction ws arbitrary: m)
  case (Cons w ws)
  have "mem_wf (apply_write m w)"
    unfolding apply_write_def by (rule mem_wf_write_unchecked) (use Cons.prems in auto)
  moreover have "mapped (apply_write m w) = mapped m" by (simp add: mapped_def fun_eq_iff)
  ultimately show ?case using Cons by simp
qed simp


text \<open>
  A transaction is consistent with the memory it was opened on when all it staged passed the
  write check; staging keeps this, and committing such a transaction keeps the invariant.
\<close>

definition tx_ok :: "guest_memory \<Rightarrow> memory_transaction \<Rightarrow> bool" where
  "tx_ok m tx \<longleftrightarrow> list_all (\<lambda>w. \<not> isl (guest_check m (fst w) (int (length (snd w))) CHR ''w'')) (tx_writes tx)"

lemma tx_ok_begin [simp]: "tx_ok m guest_begin"
  by (simp add: tx_ok_def guest_begin_def)

lemma tx_ok_write: "tx_ok m tx \<Longrightarrow> tx_write m tx a bs = Inr tx' \<Longrightarrow> tx_ok m tx'"
  by (auto simp: tx_write_def tx_ok_def res_simps)

lemma tx_ok_mapped:
  "tx_ok m tx \<Longrightarrow> w \<in> set (tx_writes tx) \<Longrightarrow> fst w \<le> k \<Longrightarrow> k < fst w + int (length (snd w)) \<Longrightarrow> mapped m k"
  unfolding tx_ok_def list_all_iff isl_def by (metis guest_check_mapped old.sum.exhaust)

lemma mem_wf_tx_commit:
  assumes "mem_wf m" and "tx_ok m tx" and "tx_commit m tx = Inr (ws, tx', m')"
  shows "mem_wf m'"
proof -
  from assms(3) have "m' = foldl apply_write m (tx_writes tx)"
    by (auto simp: tx_commit_def res_simps)
  with assms(1) show ?thesis
    using tx_ok_mapped [OF assms(2)] by (simp add: mem_wf_foldl_apply_write)
qed

lemma map_of_restore_snapshot:
  assumes "mem_wf m"
  shows "map_of (gm_bytes (guest_restore m0 (guest_snapshot m))) = map_of (gm_bytes m)"
proof -
  have d: "distinct (map fst (gm_bytes m))" using assms by (simp add: mem_wf_def)
  have "distinct (map fst (sort (gm_bytes m)))"
    using d by (metis distinct_map distinct_sort set_sort)
  then have "map_of (dict_of (sort (gm_bytes m))) = map_of (sort (gm_bytes m))"
    by (rule map_of_dict_of_distinct)
  also have "\<dots> = map_of (gm_bytes m)"
    by (rule map_of_inject_set [THEN iffD2]) (use d in \<open>simp_all add: distinct_map\<close>)
  finally show ?thesis by (simp add: guest_restore_def guest_snapshot_def)
qed

lemma set_dict_of_distinct: "distinct (map fst ps) \<Longrightarrow> set (dict_of ps) = set ps"
  using map_of_inject_set [of "dict_of ps" ps] map_of_dict_of_distinct [of ps] by simp

lemma mem_wf_restore_snapshot:
  assumes "mem_wf m"
  shows "mem_wf (guest_restore m0 (guest_snapshot m))"
proof -
  have d: "distinct (map fst (sort (gm_bytes m)))"
    using assms by (metis distinct_map distinct_sort set_sort mem_wf_def)
  show ?thesis
    using assms set_dict_of_distinct [OF d]
    by (simp add: mem_wf_def guest_restore_def guest_snapshot_def mapped_def)
qed


section \<open>Reachable address spaces\<close>

text \<open>
  A memory together with the snapshots taken of it and the transactions opened on it. Every
  operation is available at any time, several transactions may be open at once, and regions are
  mapped, bytes written and snapshots restored while they are: nothing in \<open>memory.py\<close>
  forbids it. An operation that raises leaves the world as it was.
\<close>

record guest_world =
  gw_memory :: guest_memory
  gw_snapshots :: "memory_snapshot list"
  gw_txs :: "memory_transaction list"

datatype guest_op =
    DoMap int int string string "byte list"
  | DoWrite int "byte list"
  | DoWriteU int int int byteorder
  | DoSnapshot
  | DoRestore nat
  | DoBegin
  | DoStage nat int "byte list"
  | DoStageU nat int int int byteorder
  | DoCommit nat
  | DoAbort nat

definition set_memory :: "guest_world \<Rightarrow> guest_memory res \<Rightarrow> guest_world" where
  "set_memory w res = (case res of Inl e \<Rightarrow> w | Inr m \<Rightarrow> w\<lparr>gw_memory := m\<rparr>)"

definition set_tx :: "guest_world \<Rightarrow> nat \<Rightarrow> (memory_transaction \<Rightarrow> memory_transaction res) \<Rightarrow> guest_world" where
  "set_tx w i f =
     (if i < length (gw_txs w) then
        (case f (gw_txs w ! i) of Inl e \<Rightarrow> w | Inr tx \<Rightarrow> w\<lparr>gw_txs := (gw_txs w)[i := tx]\<rparr>)
      else w)"

definition commit_tx :: "guest_world \<Rightarrow> nat \<Rightarrow> guest_world" where
  "commit_tx w i =
     (if i < length (gw_txs w) then
        (case tx_commit (gw_memory w) (gw_txs w ! i) of
           Inl e \<Rightarrow> w
         | Inr (ws, tx, m) \<Rightarrow> w\<lparr>gw_memory := m, gw_txs := (gw_txs w)[i := tx]\<rparr>)
      else w)"

fun guest_step :: "guest_op \<Rightarrow> guest_world \<Rightarrow> guest_world" where
  "guest_step (DoMap b sz perms nm payload) w =
     set_memory w (rbind (guest_map_region (gw_memory w) b sz perms nm payload) (\<lambda>(_, m). Inr m))"
| "guest_step (DoWrite a bs) w = set_memory w (guest_write (gw_memory w) a bs)"
| "guest_step (DoWriteU a v sz ord) w = set_memory w (guest_write_u (gw_memory w) a v sz ord)"
| "guest_step DoSnapshot w = w\<lparr>gw_snapshots := gw_snapshots w @ [guest_snapshot (gw_memory w)]\<rparr>"
| "guest_step (DoRestore j) w =
     (if j < length (gw_snapshots w)
      then w\<lparr>gw_memory := guest_restore (gw_memory w) (gw_snapshots w ! j)\<rparr> else w)"
| "guest_step DoBegin w = w\<lparr>gw_txs := gw_txs w @ [guest_begin]\<rparr>"
| "guest_step (DoStage i a bs) w = set_tx w i (\<lambda>tx. tx_write (gw_memory w) tx a bs)"
| "guest_step (DoStageU i a v sz ord) w = set_tx w i (\<lambda>tx. tx_write_u (gw_memory w) tx a v sz ord)"
| "guest_step (DoCommit i) w = commit_tx w i"
| "guest_step (DoAbort i) w = set_tx w i tx_abort"

definition guest_start :: guest_world where
  "guest_start = \<lparr>gw_memory = GuestMemory, gw_snapshots = [], gw_txs = []\<rparr>"

text \<open>
  What the address space keeps whatever is done, and the condition under which it keeps more:
  no restore takes away the mapping of an address that an open transaction has staged.
\<close>

definition space_wf :: "guest_memory \<Rightarrow> bool" where
  "space_wf m \<longleftrightarrow> regions_wf (gm_regions m) \<and> distinct (map fst (gm_bytes m))
     \<and> (\<forall>p \<in> set (gm_bytes m). is_byte (snd p))"

definition write_mapped :: "guest_memory \<Rightarrow> int \<times> byte list \<Rightarrow> bool" where
  "write_mapped m w \<longleftrightarrow> (\<forall>k. fst w \<le> k \<longrightarrow> k < fst w + int (length (snd w)) \<longrightarrow> mapped m k)"

definition staged_mapped :: "guest_memory \<Rightarrow> memory_transaction \<Rightarrow> bool" where
  "staged_mapped m tx \<longleftrightarrow> tx_closed tx \<or> (\<forall>w \<in> set (tx_writes tx). write_mapped m w)"

fun restores_safely :: "guest_op list \<Rightarrow> guest_world \<Rightarrow> bool" where
  "restores_safely [] w \<longleftrightarrow> True"
| "restores_safely (op # ops) w \<longleftrightarrow>
     (case op of DoRestore j \<Rightarrow> (\<forall>tx \<in> set (gw_txs w). staged_mapped (gw_memory (guest_step op w)) tx)
      | _ \<Rightarrow> True)
     \<and> restores_safely ops (guest_step op w)"

lemma mem_wf_space_wf: "mem_wf m \<longleftrightarrow> space_wf m \<and> (\<forall>p \<in> set (gm_bytes m). mapped m (fst p))"
  by (auto simp: mem_wf_def space_wf_def)

lemma write_mapped_code [code]:
  "write_mapped m w \<longleftrightarrow> list_all (\<lambda>i. mapped m (fst w + int i)) [0..<length (snd w)]"
proof -
  have "(\<forall>k. fst w \<le> k \<longrightarrow> k < fst w + int (length (snd w)) \<longrightarrow> mapped m k)"
    if "\<forall>i < length (snd w). mapped m (fst w + int i)"
  proof (intro allI impI)
    fix k assume k: "fst w \<le> k" "k < fst w + int (length (snd w))"
    with that [rule_format, of "nat (k - fst w)"] show "mapped m k" by simp
  qed
  then show ?thesis by (auto simp: write_mapped_def list_all_iff)
qed

lemma space_wf_write_unchecked:
  "space_wf m \<Longrightarrow> space_wf (m\<lparr>gm_bytes := write_unchecked a bs (gm_bytes m)\<rparr>)"
  using snd_set_write_unchecked [of "gm_bytes m" a bs] distinct_write_unchecked [of "gm_bytes m" a bs]
  by (simp add: space_wf_def)

lemma space_wf_apply_writes: "space_wf m \<Longrightarrow> space_wf (foldl apply_write m ws)"
  by (induction ws arbitrary: m) (simp_all add: apply_write_def space_wf_write_unchecked)

lemma space_wf_map_region:
  assumes wf: "space_wf m" and eq: "guest_map_region m b sz perms nm payload = Inr (r, m')"
  shows "space_wf m'"
proof -
  note inv = guest_map_region_Inr [OF eq]
  have "space_wf (m\<lparr>gm_regions := gm_regions m'\<rparr>)"
    using wf inv(2,3) regions_wf_insert [of "gm_regions m" r] by (simp add: inv(6) space_wf_def)
  from space_wf_write_unchecked [OF this, of b payload] show ?thesis
    using inv(7) by (simp add: space_wf_def)
qed

lemma space_wf_restore:
  assumes "space_wf m"
  shows "space_wf (guest_restore m0 (guest_snapshot m))"
proof -
  have d: "distinct (map fst (sort (gm_bytes m)))"
    using assms by (metis distinct_map distinct_sort set_sort space_wf_def)
  show ?thesis
    using assms set_dict_of_distinct [OF d] by (simp add: space_wf_def guest_restore_def guest_snapshot_def)
qed

lemma guest_write_u_Inr:
  "guest_write_u m a v sz ord = Inr m' \<Longrightarrow> \<exists>bs. guest_write m a bs = Inr m'"
  by (auto simp: guest_write_u_def split: if_splits)

lemma tx_write_u_Inr:
  "tx_write_u m tx a v sz ord = Inr tx' \<Longrightarrow> \<exists>bs. tx_write m tx a bs = Inr tx'"
  by (auto simp: tx_write_u_def split: if_splits)

text \<open>The operations that change the memory, as one case distinction.\<close>

lemma guest_step_memory_cases:
  obtains (same) "gw_memory (guest_step op w) = gw_memory w"
  | (mapping) b sz perms nm payload r where
      "guest_map_region (gw_memory w) b sz perms nm payload = Inr (r, gw_memory (guest_step op w))"
      "gw_txs (guest_step op w) = gw_txs w"
  | (written) a bs where "guest_write (gw_memory w) a bs = Inr (gw_memory (guest_step op w))"
      "gw_txs (guest_step op w) = gw_txs w"
  | (restored) j where "op = DoRestore j" "j < length (gw_snapshots w)"
      "gw_memory (guest_step op w) = guest_restore (gw_memory w) (gw_snapshots w ! j)"
      "gw_txs (guest_step op w) = gw_txs w"
  | (committed) i where "i < length (gw_txs w)" "\<not> tx_closed (gw_txs w ! i)"
      "gw_memory (guest_step op w) = foldl apply_write (gw_memory w) (tx_writes (gw_txs w ! i))"
      "gw_txs (guest_step op w) = (gw_txs w)[i := (gw_txs w ! i)\<lparr>tx_closed := True\<rparr>]"
proof (cases op)
  case (DoMap b sz perms nm payload)
  then show ?thesis
    using same mapping by (cases "guest_map_region (gw_memory w) b sz perms nm payload") (auto simp: set_memory_def)
next
  case (DoWrite a bs)
  then show ?thesis using same written by (cases "guest_write (gw_memory w) a bs") (auto simp: set_memory_def)
next
  case (DoWriteU a v sz ord)
  then show ?thesis
    using same written guest_write_u_Inr
    by (cases "guest_write_u (gw_memory w) a v sz ord") (force simp: set_memory_def)+
next
  case (DoCommit i)
  show ?thesis
  proof (cases "i < length (gw_txs w) \<and> \<not> tx_closed (gw_txs w ! i)")
    case True
    then show ?thesis
      by (intro committed [of i]) (simp_all add: DoCommit commit_tx_def tx_commit_def tx_check_open_def)
  next
    case False
    then show ?thesis
      using DoCommit same by (auto simp: commit_tx_def tx_commit_def tx_check_open_def)
  qed
next
  case (DoRestore j)
  then show ?thesis using same restored [of j] by (cases "j < length (gw_snapshots w)") simp_all
qed (use same in \<open>auto simp: set_tx_def split: sum.splits\<close>)

text \<open>The transactions of the world after a step on one of them.\<close>

lemma staged_mapped_step:
  assumes "\<forall>tx \<in> set (gw_txs w). staged_mapped (gw_memory w) tx"
    and "gw_memory (guest_step op w) = gw_memory w"
  shows "\<forall>tx \<in> set (gw_txs (guest_step op w)). staged_mapped (gw_memory w) tx"
proof -
  let ?m = "gw_memory w"
  have upd: "\<forall>tx \<in> set (gw_txs (set_tx w i f)). staged_mapped ?m tx"
    if "\<And>tx tx'. staged_mapped ?m tx \<Longrightarrow> f tx = Inr tx' \<Longrightarrow> staged_mapped ?m tx'" for i f
  proof (cases "i < length (gw_txs w) \<and> \<not> isl (f (gw_txs w ! i))")
    case True
    then have i: "i < length (gw_txs w)" and eq: "f (gw_txs w ! i) = Inr (projr (f (gw_txs w ! i)))"
      by (auto simp: isl_def)
    have "staged_mapped ?m (projr (f (gw_txs w ! i)))"
      using that [OF _ eq] assms(1) i nth_mem by blast
    then show ?thesis
      using assms(1) i eq set_update_subset_insert [of "gw_txs w" i "projr (f (gw_txs w ! i))"]
      by (cases "f (gw_txs w ! i)") (auto simp: set_tx_def)
  qed (use assms(1) in \<open>auto simp: set_tx_def split: sum.splits\<close>)
  have wr: "staged_mapped ?m tx'" if "staged_mapped ?m tx" "tx_write ?m tx a bs = Inr tx'" for tx tx' a bs
    using that guest_check_mapped [of ?m a "int (length bs)"]
    by (auto simp: tx_write_def tx_check_open_def res_simps staged_mapped_def write_mapped_def split: if_splits)
  show ?thesis
  proof (cases op)
    case (DoStage i a bs)
    show ?thesis unfolding DoStage guest_step.simps by (rule upd) (rule wr)
  next
    case (DoStageU i a v sz ord)
    show ?thesis unfolding DoStageU guest_step.simps
      by (rule upd) (use wr tx_write_u_Inr in blast)
  next
    case (DoAbort i)
    show ?thesis unfolding DoAbort guest_step.simps
      by (rule upd) (auto simp: tx_abort_def res_simps staged_mapped_def)
  next
    case (DoCommit i)
    have "staged_mapped ?m tx" if "tx \<in> set ((gw_txs w)[i := (gw_txs w ! i)\<lparr>tx_closed := True\<rparr>])" for tx
    proof -
      from that have "tx = (gw_txs w ! i)\<lparr>tx_closed := True\<rparr> \<or> tx \<in> set (gw_txs w)"
        using set_update_subset_insert by fastforce
      then show ?thesis using assms(1) by (auto simp: staged_mapped_def)
    qed
    then show ?thesis
      using assms(1) unfolding DoCommit
      by (simp add: commit_tx_def tx_commit_def tx_check_open_def)
  qed (use assms(1) in \<open>auto simp: set_memory_def guest_begin_def staged_mapped_def split: sum.splits\<close>)
qed

lemma write_mapped_mono: "(\<And>k. mapped m k \<Longrightarrow> mapped m' k) \<Longrightarrow> staged_mapped m tx \<Longrightarrow> staged_mapped m' tx"
  by (auto simp: staged_mapped_def write_mapped_def)

lemma mapped_apply_writes [simp]: "mapped (foldl apply_write m ws) = mapped m"
  by (simp add: mapped_def fun_eq_iff)

definition world_wf :: "guest_world \<Rightarrow> bool" where
  "world_wf w \<longleftrightarrow> space_wf (gw_memory w)
     \<and> (\<forall>s \<in> set (gw_snapshots w). \<exists>m. space_wf m \<and> s = guest_snapshot m)"

definition world_mapped :: "guest_world \<Rightarrow> bool" where
  "world_mapped w \<longleftrightarrow> mem_wf (gw_memory w)
     \<and> (\<forall>s \<in> set (gw_snapshots w). \<exists>m. mem_wf m \<and> s = guest_snapshot m)
     \<and> (\<forall>tx \<in> set (gw_txs w). staged_mapped (gw_memory w) tx)"

lemma gw_snapshots_step:
  "set (gw_snapshots (guest_step op w)) \<subseteq> insert (guest_snapshot (gw_memory w)) (set (gw_snapshots w))"
  by (cases op) (auto simp: set_memory_def set_tx_def commit_tx_def split: sum.splits prod.splits)

lemma world_wf_step: "world_wf w \<Longrightarrow> world_wf (guest_step op w)"
proof -
  assume wf: "world_wf w"
  have "space_wf (gw_memory (guest_step op w))"
  proof (cases rule: guest_step_memory_cases [of op w])
    case (restored j)
    then obtain m where "space_wf m" "gw_snapshots w ! j = guest_snapshot m"
      using wf by (metis nth_mem world_wf_def)
    then show ?thesis using restored by (simp add: space_wf_restore)
  next
    case (mapping b sz perms nm payload r)
    then show ?thesis using wf space_wf_map_region by (metis world_wf_def)
  next
    case (written a bs)
    then show ?thesis using wf guest_write_Inr(1) space_wf_write_unchecked by (metis world_wf_def)
  qed (use wf in \<open>simp_all add: world_wf_def space_wf_apply_writes\<close>)
  with wf gw_snapshots_step [of op w] show ?thesis unfolding world_wf_def by blast
qed

lemma world_mapped_step:
  assumes wf: "world_mapped w"
    and safe: "\<And>j. op = DoRestore j \<Longrightarrow> \<forall>tx \<in> set (gw_txs w). staged_mapped (gw_memory (guest_step op w)) tx"
  shows "world_mapped (guest_step op w)"
proof -
  let ?m = "gw_memory (guest_step op w)"
  have "mem_wf ?m \<and> (\<forall>tx \<in> set (gw_txs (guest_step op w)). staged_mapped ?m tx)"
  proof (cases rule: guest_step_memory_cases [of op w])
    case same
    then show ?thesis using wf staged_mapped_step [of w op] by (simp add: world_mapped_def)
  next
    case (mapping b sz perms nm payload r)
    then show ?thesis
      using wf mem_wf_map_region mapped_map_region [OF mapping(1)]
        write_mapped_mono [of "gw_memory w" ?m] by (metis world_mapped_def)
  next
    case (written a bs)
    then show ?thesis
      using wf mem_wf_guest_write guest_write_regions [OF written(1)]
        write_mapped_mono [of "gw_memory w" ?m] unfolding mapped_def by (metis world_mapped_def)
  next
    case (restored j)
    then obtain m where "mem_wf m" "gw_snapshots w ! j = guest_snapshot m"
      using wf by (metis nth_mem world_mapped_def)
    then show ?thesis using restored safe [OF restored(1)] by (simp add: mem_wf_restore_snapshot)
  next
    case (committed i)
    let ?tx = "gw_txs w ! i"
    have st: "\<forall>tx \<in> set (gw_txs w). staged_mapped (gw_memory w) tx" using wf by (simp add: world_mapped_def)
    with committed(1,2) have "\<forall>p \<in> set (tx_writes ?tx). write_mapped (gw_memory w) p"
      by (metis nth_mem staged_mapped_def)
    then have "mem_wf ?m"
      unfolding committed(3) by (intro mem_wf_foldl_apply_write)
        (use wf in \<open>simp_all add: world_mapped_def write_mapped_def\<close>)
    moreover have "staged_mapped ?m tx" if "tx \<in> set (gw_txs (guest_step op w))" for tx
    proof -
      from that have "tx = ?tx\<lparr>tx_closed := True\<rparr> \<or> tx \<in> set (gw_txs w)"
        unfolding committed(4) using set_update_subset_insert by fastforce
      then show ?thesis
        using st by (auto simp: committed(3) staged_mapped_def write_mapped_def)
    qed
    ultimately show ?thesis by blast
  qed
  with wf gw_snapshots_step [of op w] show ?thesis unfolding world_mapped_def by blast
qed

lemma world_mapped_run:
  "world_mapped w \<Longrightarrow> restores_safely ops w \<Longrightarrow> world_mapped (fold guest_step ops w)"
proof (induction ops arbitrary: w)
  case (Cons op ops)
  then have "world_mapped (guest_step op w)" by (intro world_mapped_step) (auto split: guest_op.splits)
  with Cons show ?case by simp
qed simp


definition demo_interleaving :: "guest_op list" where
  "demo_interleaving = [DoMap 16 8 ''rw'' ''d'' [1, 2], DoBegin, DoStage 0 18 [7], DoSnapshot, DoBegin,
     DoMap 64 4 ''r'' ''c'' [9], DoWrite 17 [5], DoStage 1 19 [8], DoRestore 0, DoCommit 1, DoCommit 0]"


text \<open>
  The condition on restores is needed: stage a write, restore a snapshot that does not have the
  region, commit. The byte is stored at an address that no region covers.
\<close>

lemma commit_after_restore_stores_unmapped:
  "let m = gw_memory (fold guest_step
       [DoSnapshot, DoMap 16 8 ''rw'' ''d'' [], DoBegin, DoStage 0 18 [7], DoRestore 0, DoCommit 0] guest_start)
   in gm_regions m = [] \<and> gm_bytes m = [(18, 7)] \<and> \<not> mem_wf m"
  by (simp add: guest_start_def GuestMemory_def guest_map_region_def GuestRegion_def set_memory_def
      guest_begin_def set_tx_def tx_write_def tx_check_open_def guest_check_def gr_end_def
      guest_restore_def guest_snapshot_def dict_of_def commit_tx_def tx_commit_def apply_write_def
      mem_wf_def mapped_def Let_def)

text \<open>
  An access of positive size is granted exactly when it lies inside one mapped region that
  carries the permission, and otherwise fails with the reason that applies.
\<close>

theorem guest_check_decides:
  assumes "mem_wf m" and "0 < n"
  shows "guest_check m a n p =
    (if a < 0 then Inl (MemoryAccessError [p] a n ''invalid address range'')
     else case filter (\<lambda>r. gr_base r \<le> a \<and> a + n \<le> gr_end r) (gm_regions m) of
       [r] \<Rightarrow> if p \<in> set (gr_permissions r) then Inr r
              else Inl (MemoryAccessError [p] a n ''permission denied'')
     | _ \<Rightarrow> Inl (MemoryAccessError [p] a n ''unmapped or cross-region range''))"
proof (cases "a < 0")
  case False
  let ?P = "\<lambda>r. gr_base r \<le> a \<and> a + n \<le> gr_end r"
  have wf: "regions_wf (gm_regions m)" using assms(1) by (simp add: mem_wf_def)
  show ?thesis
  proof (cases "filter ?P (gm_regions m)")
    case Nil
    then have "\<not> (\<exists>r \<in> set (gm_regions m). ?P r)" by (auto simp: filter_empty_conv)
    with Nil False assms(2) show ?thesis by (simp add: guest_check_uncovered)
  next
    case (Cons r rs)
    have r: "r \<in> set (gm_regions m)" "?P r"
      using arg_cong [OF Cons, of set] by auto
    have "set rs \<subseteq> {r}"
      using arg_cong [OF Cons, of set] covering_region_unique [OF wf assms(2) r(1)] r(2) by auto
    moreover have "distinct (r # rs)"
      using regions_wf_distinct [OF wf] Cons by (metis distinct_filter)
    ultimately have "rs = []" by (cases rs) auto
    with Cons r False assms(2) wf show ?thesis by (simp add: guest_check_covering)
  qed
qed (use assms in \<open>simp add: guest_check_def\<close>)

theorem guest_check_decides_witness:
  "guest_check \<lparr>gm_regions = [\<lparr>gr_base = 16, gr_size = 8, gr_permissions = ''r'', gr_name = ''c''\<rparr>],
     gm_bytes = []\<rparr> 20 4 CHR ''w'' = Inl (MemoryAccessError ''w'' 20 4 ''permission denied'')"
proof -
  let ?m = "\<lparr>gm_regions = [\<lparr>gr_base = 16, gr_size = 8, gr_permissions = ''r'', gr_name = ''c''\<rparr>],
     gm_bytes = []\<rparr>"
  have "mem_wf ?m" by (simp add: mem_wf_def regions_wf_def region_ok_def)
  then show ?thesis
    using guest_check_decides [of ?m 4 20 "CHR ''w''"] by (simp add: gr_end_def)
qed

text \<open>
  C13: a transaction that stages a list of writes and commits has the outcome of performing
  the checked writes one after the other, exceptions included: staged writes are all or
  nothing and take effect in order.
\<close>

theorem transaction_equals_direct_writes:
  "rbind (stage_all m ws guest_begin) (\<lambda>tx. rbind (tx_commit m tx) (\<lambda>(_, _, m'). Inr m')) = write_all ws m"
  unfolding write_all_eq
  by (cases "check_writes m ws")
    (simp_all add: stage_all_eq tx_commit_def tx_check_open_def guest_begin_def)

text \<open>
  C14: inside a transaction a read returns what the memory returns once the transaction has
  committed: the overlay of the staged writes refines the committed state.
\<close>

theorem transaction_read_refines_commit:
  assumes "mem_wf m" and "tx_ok m tx" and "tx_commit m tx = Inr (ws, tx', m')"
  shows "tx_read m tx a n = guest_read m' a n"
proof -
  from assms(3) have op: "tx_check_open tx = Inr ()" and m': "m' = foldl apply_write m (tx_writes tx)"
    by (auto simp: tx_commit_def res_simps)
  have chk: "guest_check m' a n p = guest_check m a n p" for p
    by (rule guest_check_regions) (simp add: m')
  have wf': "mem_wf m'" using assms by (rule mem_wf_tx_commit)
  show ?thesis
  proof (cases "guest_check m a n CHR ''r''")
    case (Inr r)
    then have "0 \<le> n" by (rule guest_check_Inr)
    with Inr assms(1) wf' op chk show ?thesis
      by (simp add: tx_read_def guest_read_eq overlay_writes_mem_bytes m')
  qed (use assms(1) wf' op chk in \<open>simp add: tx_read_def guest_read_eq\<close>)
qed

theorem transaction_read_refines_commit_witness:
  "\<exists>m tx ws tx' m'. mem_wf m \<and> tx_commit m tx = Inr (ws, tx', m')
     \<and> tx_read m tx 16 4 = guest_read m' 16 4 \<and> guest_read m' 16 4 = Inr [0, 7, 9, 8]"
proof -
  let ?m = "\<lparr>gm_regions = [\<lparr>gr_base = 16, gr_size = 8, gr_permissions = ''rw'', gr_name = ''c''\<rparr>],
     gm_bytes = []\<rparr>"
  let ?tx = "\<lparr>tx_writes = [(17, [7, 7, 8]), (18, [9])], tx_closed = False\<rparr>"
  obtain ws tx' m' where c: "tx_commit ?m ?tx = Inr (ws, tx', m')"
    and m': "m' = foldl apply_write ?m (tx_writes ?tx)"
    by (auto simp: tx_commit_def tx_check_open_def)
  have wf: "mem_wf ?m" by (simp add: mem_wf_def regions_wf_def region_ok_def)
  have "tx_ok ?m ?tx" by code_simp
  moreover have "guest_read m' 16 4 = Inr [0, 7, 9, 8]" unfolding m' by code_simp
  ultimately show ?thesis using transaction_read_refines_commit [OF wf _ c, of 16 4] wf c by blast
qed

lemma restore_snapshot_same:
  assumes "mem_wf m"
  shows "guest_read (guest_restore m0 (guest_snapshot m)) a n = guest_read m a n
    \<and> guest_check (guest_restore m0 (guest_snapshot m)) a n p = guest_check m a n p
    \<and> guest_snapshot (guest_restore m0 (guest_snapshot m)) = guest_snapshot m"
proof -
  let ?m = "guest_restore m0 (guest_snapshot m)"
  have reg: "gm_regions ?m = gm_regions m" by (simp add: guest_restore_def guest_snapshot_def)
  have mo: "map_of (gm_bytes ?m) = map_of (gm_bytes m)" using assms by (rule map_of_restore_snapshot)
  have d: "distinct (map fst (gm_bytes ?m))" "distinct (map fst (gm_bytes m))"
    using mem_wf_restore_snapshot [OF assms, of m0] assms by (simp_all add: mem_wf_def)
  have "sort (gm_bytes ?m) = sort (gm_bytes m)"
    using mo d map_of_inject_set [OF d] sorted_distinct_set_unique [of "sort (gm_bytes ?m)" "sort (gm_bytes m)"]
    by (simp add: distinct_map)
  moreover have "guest_check ?m b k q = guest_check m b k q" for b k q
    using reg by (rule guest_check_regions)
  moreover have "dict_get (gm_bytes ?m) k v = dict_get (gm_bytes m) k v" for k v
    by (simp add: dict_get_def mo)
  ultimately show ?thesis using reg by (simp add: guest_read_def guest_snapshot_def)
qed

text \<open>
  Restoring a snapshot brings back the snapshotted memory: same regions, the same result
  of every read, and the snapshot taken again is the same value.
\<close>

theorem snapshot_restore_roundtrip:
  assumes "mem_wf m"
  shows "guest_read (guest_restore m0 (guest_snapshot m)) a n = guest_read m a n
    \<and> guest_check (guest_restore m0 (guest_snapshot m)) a n p = guest_check m a n p
    \<and> guest_snapshot (guest_restore m0 (guest_snapshot m)) = guest_snapshot m"
  using restore_snapshot_same [OF assms] by blast

theorem snapshot_restore_roundtrip_witness:
  "guest_read (guest_restore GuestMemory (guest_snapshot
     \<lparr>gm_regions = [\<lparr>gr_base = 16, gr_size = 8, gr_permissions = ''r'', gr_name = ''c''\<rparr>],
      gm_bytes = [(18, 3), (17, 2)]\<rparr>)) 16 3 = Inr [0, 2, 3]"
proof -
  let ?m = "\<lparr>gm_regions = [\<lparr>gr_base = 16, gr_size = 8, gr_permissions = ''r'', gr_name = ''c''\<rparr>],
     gm_bytes = [(18, 3), (17, 2)]\<rparr>"
  have "mem_wf ?m"
    by (simp add: mem_wf_def regions_wf_def region_ok_def is_byte_def mapped_def in_region_def gr_end_def)
  moreover have "guest_read ?m 16 3 = Inr [0, 2, 3]" by code_simp
  ultimately show ?thesis using snapshot_restore_roundtrip [of ?m GuestMemory 16 3] by metis
qed

text \<open>
  A fitting integer written at an address reads back as itself in either byte order, and
  accesses that do not touch the written range are unaffected.
\<close>

theorem write_u_read_u_roundtrip:
  assumes "mem_wf m" and "guest_write_u m a v sz ord = Inr m'"
    and "guest_check m a sz CHR ''r'' = Inr r"
  shows "guest_read_u m' a sz ord = Inr v
    \<and> (b + n \<le> a \<or> a + sz \<le> b \<longrightarrow> guest_read m' b n = guest_read m b n)"
proof -
  from assms(2) have sz: "0 < sz" "0 \<le> v" "v < 2 ^ nat (sz * 8)"
    and w: "guest_write m a (int_to_bytes ord (nat sz) v) = Inr m'"
    by (auto simp: guest_write_u_def split: if_splits)
  have wf': "mem_wf m'" using assms(1) w by (rule mem_wf_guest_write)
  have chk: "guest_check m' c k p = guest_check m c k p" for c k p
    using guest_write_regions [OF w] by (rule guest_check_regions)
  have "mem_bytes m' a sz = int_to_bytes ord (nat sz) v"
    using mem_bytes_guest_write_same [OF w] sz by simp
  moreover have "nat (sz * 8) = nat sz * 8" using sz by (simp add: nat_mult_distrib)
  ultimately have "guest_read_u m' a sz ord = Inr v"
    using sz assms(3) wf' by (simp add: guest_read_u_def guest_read_eq chk int_roundtrip)
  moreover have "guest_read m' b n = guest_read m b n" if "b + n \<le> a \<or> a + sz \<le> b"
    using mem_bytes_guest_write_disjoint [OF w, of b n] that sz assms(1) wf'
    by (simp add: guest_read_eq chk)
  ultimately show ?thesis by blast
qed

theorem write_u_read_u_roundtrip_witness:
  "\<exists>m m'. guest_write_u m 18 4660 2 Big = Inr m' \<and> guest_read_u m' 18 2 Big = Inr 4660
     \<and> guest_read m' 20 2 = guest_read m 20 2"
proof -
  let ?m = "\<lparr>gm_regions = [\<lparr>gr_base = 16, gr_size = 8, gr_permissions = ''rw'', gr_name = ''c''\<rparr>],
     gm_bytes = []\<rparr>"
  have wf: "mem_wf ?m" by (simp add: mem_wf_def regions_wf_def region_ok_def)
  have "guest_check ?m 18 2 CHR ''r'' = Inr (hd (gm_regions ?m))"
    and w: "guest_write_u ?m 18 4660 2 Big = Inr (projr (guest_write_u ?m 18 4660 2 Big))"
    by code_simp+
  from write_u_read_u_roundtrip [OF wf w this(1), of 20 2] w show ?thesis by fastforce
qed

end
