(* ===== verification/Program_Image.thy ===== *)
theory Program_Image
  imports Prelude
begin

text \<open>
  The backend-neutral contracts of \<open>asl_model/runtime/protocol.py\<close>: loadable segments, program
  images, ELF load requests and instruction requests, each a frozen dataclass whose
  \<open>__post_init__\<close> validates it. A constructor of the model is the Python constructor call:
  it returns the validated value or the exception.
\<close>

section \<open>Segments and images\<close>

record program_segment =
  ps_address :: int
  ps_data :: "byte list"
  ps_memory_size :: int
  ps_permissions :: string
  ps_alignment :: int
  ps_name :: string

definition ps_end :: "program_segment \<Rightarrow> int" where
  "ps_end s = ps_address s + ps_memory_size s"

definition ProgramSegment ::
  "int \<Rightarrow> byte list \<Rightarrow> int \<Rightarrow> string \<Rightarrow> int \<Rightarrow> string \<Rightarrow> program_segment res" where
  "ProgramSegment address payload memory_size permissions alignment nm =
     (if address < 0 \<or> memory_size < int (length payload) \<or> memory_size \<le> 0 then
        Inl (ValueError ''invalid program segment address/size'')
      else if list_ex (\<lambda>flag. flag \<notin> set ''rwx'') permissions then
        Inl (ValueError ''invalid program segment permissions'')
      else if alignment \<le> 0 \<or> alignment AND (alignment - 1) \<noteq> 0 then
        Inl (ValueError ''segment alignment must be a positive power of two'')
      else Inr \<lparr>ps_address = address, ps_data = payload, ps_memory_size = memory_size,
                 ps_permissions = permissions, ps_alignment = alignment, ps_name = nm\<rparr>)"

record program_image =
  pi_entry_point :: int
  pi_segments :: "program_segment list"
  pi_stack_pointer :: "int option"
  pi_symbols :: "(string, int) dict"
  pi_metadata :: "(string, pyval) dict"
  pi_format :: string

text \<open>\<open>any(left.end > right.address for left, right in zip(ordered, ordered[1:]))\<close>\<close>

definition adjacent_overlap :: "program_segment list \<Rightarrow> bool" where
  "adjacent_overlap ordered =
     list_ex (\<lambda>(left, right). ps_end left > ps_address right) (zip ordered (tl ordered))"

definition ProgramImage ::
  "int \<Rightarrow> program_segment list \<Rightarrow> int option \<Rightarrow> (string, int) dict \<Rightarrow> (string, pyval) dict \<Rightarrow>
   string \<Rightarrow> program_image res" where
  "ProgramImage entry segments sp symbols metadata fmt =
     (if entry < 0 \<or> segments = [] then
        Inl (ValueError ''program image requires an entry point and segments'')
      else if adjacent_overlap (sort_key ps_address segments) then
        Inl (ValueError ''program image segments overlap'')
      else Inr \<lparr>pi_entry_point = entry, pi_segments = segments, pi_stack_pointer = sp,
                 pi_symbols = symbols, pi_metadata = metadata, pi_format = fmt\<rparr>)"

definition segment_count :: "program_image \<Rightarrow> nat" where
  "segment_count i = length (pi_segments i)"

section \<open>Requests\<close>

record elf_load_request =
  el_path :: "string option"
  el_image :: "byte list option"
  el_requested_base :: "int option"
  el_expected_machine :: "int option"
  el_metadata :: "(string, pyval) dict"

definition ElfLoadRequest ::
  "string option \<Rightarrow> byte list option \<Rightarrow> int option \<Rightarrow> int option \<Rightarrow> (string, pyval) dict \<Rightarrow>
   elf_load_request res" where
  "ElfLoadRequest pth img requested_base expected_machine metadata =
     (if (pth = None) = (img = None) then
        Inl (ValueError ''ELF load request requires exactly one of path or image'')
      else if (case requested_base of None \<Rightarrow> False | Some b \<Rightarrow> b < 0) then
        Inl (ValueError ''requested ELF base cannot be negative'')
      else if (case expected_machine of None \<Rightarrow> False | Some v \<Rightarrow> \<not> (0 \<le> v \<and> v \<le> 65535)) then
        Inl (ValueError ''expected ELF machine must fit the ELF e_machine field'')
      else Inr \<lparr>el_path = pth, el_image = img, el_requested_base = requested_base,
                 el_expected_machine = expected_machine, el_metadata = metadata\<rparr>)"

record instruction_request =
  ir_pc :: int
  ir_encoding :: "byte list"
  ir_mnemonic :: "string option"
  ir_pe_id :: int
  ir_thread_id :: int
  ir_block_id :: "int option"
  ir_metadata :: "(string, pyval) dict"

definition InstructionRequest ::
  "int \<Rightarrow> byte list \<Rightarrow> string option \<Rightarrow> int \<Rightarrow> int \<Rightarrow> int option \<Rightarrow> (string, pyval) dict \<Rightarrow>
   instruction_request res" where
  "InstructionRequest pc encoding mnemonic pe_id thread_id block_id metadata =
     (if pc < 0 \<or> encoding = [] then
        Inl (ValueError ''instruction request requires pc and non-empty encoding'')
      else if pe_id < 0 \<or> thread_id < 0 then
        Inl (ValueError ''instruction PE/thread ids cannot be negative'')
      else Inr \<lparr>ir_pc = pc, ir_encoding = encoding, ir_mnemonic = mnemonic, ir_pe_id = pe_id,
                 ir_thread_id = thread_id, ir_block_id = block_id, ir_metadata = metadata\<rparr>)"

section \<open>Lemmas\<close>

definition segment_ok :: "program_segment \<Rightarrow> bool" where
  "segment_ok s \<longleftrightarrow> 0 \<le> ps_address s \<and> int (length (ps_data s)) \<le> ps_memory_size s
     \<and> 0 < ps_memory_size s \<and> set (ps_permissions s) \<subseteq> set ''rwx''
     \<and> (\<exists>k. ps_alignment s = 2 ^ k)"

lemma ProgramSegment_segment_ok:
  assumes "ProgramSegment a d n p al nm = Inr s"
  shows "segment_ok s"
    and "s = \<lparr>ps_address = a, ps_data = d, ps_memory_size = n, ps_permissions = p,
               ps_alignment = al, ps_name = nm\<rparr>"
proof -
  have ex: "list_ex (\<lambda>flag. flag \<notin> A) p \<longleftrightarrow> \<not> set p \<subseteq> A" for A by (auto simp: list_ex_iff)
  have "\<not> (a < 0 \<or> n < int (length d) \<or> n \<le> 0)" "set p \<subseteq> set ''rwx''"
    "\<not> (al \<le> 0 \<or> al AND (al - 1) \<noteq> 0)" and
    s: "s = \<lparr>ps_address = a, ps_data = d, ps_memory_size = n, ps_permissions = p,
               ps_alignment = al, ps_name = nm\<rparr>"
    using assms unfolding ProgramSegment_def ex by (auto simp only: split: if_splits)
  then show "segment_ok s" using pow2_and_pred [of al] by (auto simp: segment_ok_def)
  show "s = \<lparr>ps_address = a, ps_data = d, ps_memory_size = n, ps_permissions = p,
               ps_alignment = al, ps_name = nm\<rparr>" by (rule s)
qed

text \<open>No two segments of the list share an address, whatever their order.\<close>

definition segments_disjoint :: "program_segment list \<Rightarrow> bool" where
  "segments_disjoint ss \<longleftrightarrow> sorted_wrt (\<lambda>l r. ps_end l \<le> ps_address r) (sort_key ps_address ss)"

lemma adjacent_overlap_Cons_Cons:
  "adjacent_overlap (x # y # zs) \<longleftrightarrow> ps_end x > ps_address y \<or> adjacent_overlap (y # zs)"
  by (simp add: adjacent_overlap_def)

lemma not_adjacent_overlap_sorted:
  assumes "\<not> adjacent_overlap ss" and "\<forall>s \<in> set ss. 0 < ps_memory_size s"
  shows "sorted_wrt (\<lambda>l r. ps_end l \<le> ps_address r) ss"
  using assms
proof (induction ss rule: induct_list012)
  case (3 x y zs)
  from 3(2) [OF ] 3(3,4) have srt: "sorted_wrt (\<lambda>l r. ps_end l \<le> ps_address r) (y # zs)"
    by (simp add: adjacent_overlap_Cons_Cons)
  have xy: "ps_end x \<le> ps_address y" using 3(3) by (simp add: adjacent_overlap_Cons_Cons)
  have "ps_end x \<le> ps_address z" if "z \<in> set (y # zs)" for z
    using that xy srt 3(4) by (fastforce simp: ps_end_def)
  with srt show ?case by simp
qed (simp_all add: adjacent_overlap_def)

definition image_ok :: "program_image \<Rightarrow> bool" where
  "image_ok i \<longleftrightarrow> 0 \<le> pi_entry_point i \<and> pi_segments i \<noteq> []
     \<and> (\<forall>s \<in> set (pi_segments i). segment_ok s) \<and> segments_disjoint (pi_segments i)"

lemma ProgramImage_ok:
  assumes "ProgramImage entry segs sp sy md f = Inr i" and "\<forall>s \<in> set segs. segment_ok s"
  shows "image_ok i" and "pi_segments i = segs" and "pi_entry_point i = entry"
  using assms not_adjacent_overlap_sorted [of "sort_key ps_address segs"]
  by (auto simp: ProgramImage_def image_ok_def segments_disjoint_def segment_ok_def split: if_splits)

lemma sorted_wrt_ends_disjoint:
  assumes "sorted_wrt (\<lambda>l r. ps_end l \<le> ps_address r) ss" and "s \<in> set ss" and "t \<in> set ss"
    and "ps_address s \<le> a" and "a < ps_end s" and "ps_address t \<le> a" and "a < ps_end t"
  shows "s = t"
  using assms by (induction ss) (fastforce+)

lemma segments_disjointD:
  "segments_disjoint ss \<Longrightarrow> s \<in> set ss \<Longrightarrow> t \<in> set ss \<Longrightarrow> ps_address s \<le> a \<Longrightarrow> a < ps_end s \<Longrightarrow>
   ps_address t \<le> a \<Longrightarrow> a < ps_end t \<Longrightarrow> s = t"
  using sorted_wrt_ends_disjoint [of "sort_key ps_address ss"] by (simp add: segments_disjoint_def)

end
