(* ===== verification/Runtime_Layout.thy ===== *)
theory Runtime_Layout
  imports Program_Image
begin

text \<open>
  The address-space layout of \<open>asl_model/runtime/config.py\<close>: where the stack bank of each PE
  lives relative to the loaded image.
\<close>

section \<open>Stack banks\<close>

definition align_up :: "int \<Rightarrow> int \<Rightarrow> int" where
  "align_up v alignment = (v + alignment - 1) div alignment * alignment"

record stack_layout =
  sl_pe_id :: int
  sl_base :: int
  sl_size :: int
  sl_top :: int
  sl_red_zone :: int

definition sl_stack_pointer :: "stack_layout \<Rightarrow> int" where
  "sl_stack_pointer s = sl_top s - sl_red_zone s"

definition sl_end :: "stack_layout \<Rightarrow> int" where
  "sl_end s = sl_base s + sl_size s"

record runtime_layout =
  rl_policy :: string
  rl_image_end :: int
  rl_image_start :: int
  rl_pe_count :: int
  rl_stack_size :: int
  rl_stack_gap :: int
  rl_stack_stride :: int
  rl_red_zone :: int
  rl_stacks :: "stack_layout list"

definition rl_stack_top :: "runtime_layout \<Rightarrow> int option" where
  "rl_stack_top l = (case rl_stacks l of [] \<Rightarrow> None | s # _ \<Rightarrow> Some (sl_top s))"

definition rl_stack_pointer_for :: "runtime_layout \<Rightarrow> int \<Rightarrow> int res" where
  "rl_stack_pointer_for l pe_id =
     (if \<not> (0 \<le> pe_id \<and> pe_id < int (length (rl_stacks l)))
      then Inl (ValueError ''stack bank is not mapped'')
      else Inr (sl_stack_pointer (rl_stacks l ! nat pe_id)))"

section \<open>Resolving a layout\<close>

text \<open>The banks: bank \<open>i\<close> ends at \<open>stack_top + i * stride\<close>.\<close>

definition stack_banks :: "int \<Rightarrow> int \<Rightarrow> int \<Rightarrow> int \<Rightarrow> int \<Rightarrow> stack_layout list" where
  "stack_banks tp sz stride red pe_count =
     map (\<lambda>i. \<lparr>sl_pe_id = int i, sl_base = tp - sz + int i * stride, sl_size = sz,
               sl_top = tp + int i * stride, sl_red_zone = red\<rparr>) [0..<nat pe_count]"

definition bank_hits_segment :: "stack_layout \<Rightarrow> program_segment \<Rightarrow> bool" where
  "bank_hits_segment st s \<longleftrightarrow> sl_base st < ps_end s \<and> sl_end st > ps_address s"

fun check_banks :: "program_segment list \<Rightarrow> int \<Rightarrow> stack_layout list \<Rightarrow> unit res" where
  "check_banks segs lim [] = Inr ()"
| "check_banks segs lim (st # sts) =
     (if sl_base st < 0 \<or> sl_end st > lim \<or> sl_top st > lim then
        Inl (ValueError ''stack layout exceeds guest address range'')
      else if list_ex (bank_hits_segment st) segs then
        Inl (ValueError ''stack mapping overlaps PT_LOAD image'')
      else check_banks segs lim sts)"

definition banks_overlap :: "stack_layout list \<Rightarrow> bool" where
  "banks_overlap sts = list_ex (\<lambda>(left, right). sl_end left > sl_base right) (zip sts (tl sts))"

text \<open>\<open>max(...)\<close> and \<open>min(...)\<close> of an empty sequence raise.\<close>

definition py_max :: "int list \<Rightarrow> int res" where
  "py_max xs = (case xs of [] \<Rightarrow> Inl (ValueError ''max() iterable argument is empty'')
                | y # ys \<Rightarrow> Inr (fold max ys y))"

definition py_min :: "int list \<Rightarrow> int res" where
  "py_min xs = (case xs of [] \<Rightarrow> Inl (ValueError ''min() iterable argument is empty'')
                | y # ys \<Rightarrow> Inr (fold min ys y))"

text \<open>The second half of \<open>resolve\<close>, for a policy with stacks: the banks and their checks.\<close>

definition resolve_banks ::
  "program_image \<Rightarrow> string \<Rightarrow> int option \<Rightarrow> int \<Rightarrow> int \<Rightarrow> int \<Rightarrow> int \<Rightarrow> int \<Rightarrow> int \<Rightarrow> nat \<Rightarrow> int \<Rightarrow> int \<Rightarrow>
   runtime_layout res" where
  "resolve_banks img policy stack_top stack_size stack_gap stride red_zone pe_count page_size address_bits
       image_end image_start =
     (if stride < stack_size then Inl (ValueError ''stack_stride must be at least stack_size'')
      else if stack_top = None \<and> policy = ''explicit'' then
        Inl (ValueError ''explicit stack_policy requires stack_top'')
      else
      let tp = (case stack_top of
                  None \<Rightarrow> align_up (image_end + stack_gap + stack_size) page_size
                | Some t \<Rightarrow> t) in
      if tp \<le> 0 then Inl (ValueError ''stack_top must be positive'')
      else
      let stacks = stack_banks tp stack_size stride red_zone pe_count in
      rbind (check_banks (pi_segments img) (2 ^ address_bits) stacks) (\<lambda>_.
      if banks_overlap stacks then Inl (ValueError ''PE stack mappings overlap'')
      else
        Inr \<lparr>rl_policy = policy, rl_image_end = image_end, rl_image_start = image_start,
             rl_pe_count = pe_count, rl_stack_size = stack_size, rl_stack_gap = stack_gap,
             rl_stack_stride = stride, rl_red_zone = red_zone, rl_stacks = stacks\<rparr>))"

definition resolve ::
  "program_image \<Rightarrow> string \<Rightarrow> int option \<Rightarrow> int \<Rightarrow> int \<Rightarrow> int option \<Rightarrow> int \<Rightarrow> int \<Rightarrow> int \<Rightarrow> nat \<Rightarrow>
   runtime_layout res" where
  "resolve img policy stack_top stack_size0 stack_gap stack_stride red_zone pe_count page_size address_bits =
     (if policy \<notin> {''explicit'', ''after-image'', ''disabled''} then
        Inl (ValueError ''stack_policy must be explicit, after-image, or disabled'')
      else if pe_count \<le> 0 then Inl (ValueError ''pe_count must be positive'')
      else if page_size \<le> 0 \<or> page_size AND (page_size - 1) \<noteq> 0 then
        Inl (ValueError ''page_size must be a positive power of two'')
      else
      (let stack_size = (if stack_size0 = 0 \<and> policy = ''after-image'' then 16777216 else stack_size0) in
      if stack_size \<le> 0 \<and> policy \<noteq> ''disabled'' then
        Inl (ValueError ''stack_size must be positive'')
      else if stack_gap < 0 \<or> red_zone < 0 then
        Inl (ValueError ''stack_gap and red_zone cannot be negative'')
      else if red_zone \<ge> stack_size \<and> policy \<noteq> ''disabled'' then
        Inl (ValueError ''red_zone must be smaller than stack_size'')
      else
      rbind (py_max (map ps_end (pi_segments img))) (\<lambda>image_end.
      rbind (py_min (map ps_address (pi_segments img))) (\<lambda>image_start.
      if policy = ''disabled'' then
        Inr \<lparr>rl_policy = policy, rl_image_end = image_end, rl_image_start = image_start,
             rl_pe_count = pe_count, rl_stack_size = 0, rl_stack_gap = stack_gap,
             rl_stack_stride = 0, rl_red_zone = 0, rl_stacks = []\<rparr>
      else
        resolve_banks img policy stack_top stack_size stack_gap
          (case stack_stride of None \<Rightarrow> stack_size | Some s \<Rightarrow> s)
          red_zone pe_count page_size address_bits image_end image_start))))"

section \<open>Lemmas\<close>

lemma fold_max_ge: "y \<le> fold max ys (y :: int)" "x \<in> set ys \<Longrightarrow> x \<le> fold max ys y"
proof (induction ys arbitrary: y)
  case (Cons z zs)
  { case 1 show ?case using Cons(1) [of "max z y"] by simp }
  { case 2 then show ?case using Cons(1) [of "max z y"] Cons(2) [of "max z y"] by auto }
qed simp_all

lemma py_max_ge: "py_max xs = Inr v \<Longrightarrow> x \<in> set xs \<Longrightarrow> x \<le> v"
  using fold_max_ge by (auto simp: py_max_def split: list.splits)

lemma py_max_ok: "xs \<noteq> [] \<Longrightarrow> \<exists>v. py_max xs = Inr v"
  by (simp add: py_max_def split: list.splits)

lemma py_min_ok: "xs \<noteq> [] \<Longrightarrow> \<exists>v. py_min xs = Inr v"
  by (simp add: py_min_def split: list.splits)

lemma align_up_bounds:
  assumes "0 < al"
  shows "v \<le> align_up v al" and "align_up v al < v + al" and "al dvd align_up v al"
proof -
  let ?w = "v + al - 1"
  have "?w = ?w div al * al + ?w mod al" by simp
  moreover have "0 \<le> ?w mod al" "?w mod al < al" using assms by simp_all
  ultimately show "v \<le> align_up v al" and "align_up v al < v + al"
    unfolding align_up_def by linarith+
  show "al dvd align_up v al" by (simp add: align_up_def)
qed

lemma check_banks_Inr:
  "check_banks segs lim sts = Inr () \<longleftrightarrow>
     (\<forall>st \<in> set sts. 0 \<le> sl_base st \<and> sl_end st \<le> lim \<and> sl_top st \<le> lim
        \<and> \<not> list_ex (bank_hits_segment st) segs)"
  by (induction sts) (auto simp: not_less)

lemma stack_banks_nth:
  "i < nat n \<Longrightarrow> stack_banks tp sz stride red n ! i =
     \<lparr>sl_pe_id = int i, sl_base = tp - sz + int i * stride, sl_size = sz,
      sl_top = tp + int i * stride, sl_red_zone = red\<rparr>"
  by (simp add: stack_banks_def)

lemma length_stack_banks [simp]: "length (stack_banks tp sz stride red n) = nat n"
  by (simp add: stack_banks_def)

lemma stack_banks_gap:
  assumes "sz \<le> stride" and "0 \<le> stride" and "i < j" and "j < nat n"
  shows "sl_end (stack_banks tp sz stride red n ! i) \<le> sl_base (stack_banks tp sz stride red n ! j)"
proof -
  have "int i * stride + stride \<le> int j * stride"
    using mult_right_mono [of "int i + 1" "int j" stride] assms(2,3) by (simp add: algebra_simps)
  with assms show ?thesis by (simp add: stack_banks_nth sl_end_def)
qed

text \<open>With a stride of at least the bank size the last check of \<open>resolve\<close> never fires.\<close>

lemma banks_never_overlap:
  assumes "sz \<le> stride" and "0 \<le> stride"
  shows "\<not> banks_overlap (stack_banks tp sz stride red n)"
proof
  let ?sts = "stack_banks tp sz stride red n"
  assume "banks_overlap ?sts"
  then obtain i where i: "i < length (zip ?sts (tl ?sts))"
    and gt: "sl_end (fst (zip ?sts (tl ?sts) ! i)) > sl_base (snd (zip ?sts (tl ?sts) ! i))"
    unfolding banks_overlap_def list_ex_iff case_prod_beta by (metis in_set_conv_nth)
  from i have "Suc i < nat n" by simp
  with gt i stack_banks_gap [OF assms, of i "Suc i" n tp red] show False by (simp add: nth_tl)
qed

text \<open>What a resolved layout with stacks promises.\<close>

definition bank_ok :: "int \<Rightarrow> stack_layout \<Rightarrow> bool" where
  "bank_ok lim st \<longleftrightarrow> 0 \<le> sl_base st \<and> 0 < sl_size st \<and> sl_top st = sl_end st \<and> sl_end st \<le> lim
     \<and> 0 \<le> sl_red_zone st \<and> sl_base st < sl_stack_pointer st \<and> sl_stack_pointer st \<le> sl_end st"

definition layout_ok :: "program_image \<Rightarrow> int \<Rightarrow> runtime_layout \<Rightarrow> bool" where
  "layout_ok img lim l \<longleftrightarrow> list_all (bank_ok lim) (rl_stacks l)
     \<and> list_all (\<lambda>st. \<not> list_ex (bank_hits_segment st) (pi_segments img)) (rl_stacks l)
     \<and> sorted_wrt (\<lambda>a b. sl_end a \<le> sl_base b) (rl_stacks l)
     \<and> map sl_pe_id (rl_stacks l) = map int [0..<length (rl_stacks l)]"

lemma resolve_banks_Inr:
  assumes "resolve_banks img policy stack_top sz gap stride red n page bits ie ist = Inr l"
  shows "sz \<le> stride" and "policy = ''explicit'' \<longrightarrow> stack_top \<noteq> None"
    and "rl_stacks l = stack_banks
      (case stack_top of None \<Rightarrow> align_up (ie + gap + sz) page | Some t \<Rightarrow> t) sz stride red n"
    and "check_banks (pi_segments img) (2 ^ bits) (rl_stacks l) = Inr ()"
    and "l = \<lparr>rl_policy = policy, rl_image_end = ie, rl_image_start = ist, rl_pe_count = n,
             rl_stack_size = sz, rl_stack_gap = gap, rl_stack_stride = stride, rl_red_zone = red,
             rl_stacks = rl_stacks l\<rparr>"
  using assms unfolding resolve_banks_def Let_def guard_eq_Inr rbind_eq_Inr by auto

lemma resolve_enabled:
  assumes "resolve img policy stack_top sz0 gap stride0 red n page bits = Inr l"
    and "policy \<noteq> ''disabled''"
  obtains sz where
    "sz = (if sz0 = 0 \<and> policy = ''after-image'' then 16777216 else sz0)" "0 < sz" "0 \<le> gap"
    "0 \<le> red" "red < sz" "0 < n" "0 < page" "page AND (page - 1) = 0"
    "py_max (map ps_end (pi_segments img)) = Inr (rl_image_end l)"
    "resolve_banks img policy stack_top sz gap (case stride0 of None \<Rightarrow> sz | Some s \<Rightarrow> s) red n page bits
       (rl_image_end l) (rl_image_start l) = Inr l"
proof -
  define sz where "sz = (if sz0 = 0 \<and> policy = ''after-image'' then 16777216 else sz0)"
  note r = assms(1) [unfolded resolve_def Let_def guard_eq_Inr rbind_eq_Inr if_not_P [OF assms(2)],
      folded sz_def]
  then obtain ie ist where mx: "py_max (map ps_end (pi_segments img)) = Inr ie" and
    rb: "resolve_banks img policy stack_top sz gap (case stride0 of None \<Rightarrow> sz | Some s \<Rightarrow> s) red n page bits
       ie ist = Inr l" by blast
  from resolve_banks_Inr(5) [OF rb] have "rl_image_end l = ie" "rl_image_start l = ist"
    by (metis runtime_layout.select_convs(2), metis runtime_layout.select_convs(3))
  with mx rb have
    "py_max (map ps_end (pi_segments img)) = Inr (rl_image_end l)"
    "resolve_banks img policy stack_top sz gap (case stride0 of None \<Rightarrow> sz | Some s \<Rightarrow> s) red n page bits
       (rl_image_end l) (rl_image_start l) = Inr l" by simp_all
  moreover from r assms(2) have "0 < sz" "0 \<le> gap" "0 \<le> red" "red < sz" "0 < n" "0 < page"
    "page AND (page - 1) = 0" by (simp_all add: not_le not_less)
  ultimately show thesis using that sz_def by blast
qed

lemma resolve_layout_ok:
  assumes "resolve img policy stack_top sz0 gap stride0 red n page bits = Inr l"
  shows "layout_ok img (2 ^ bits) l"
proof (cases "policy = ''disabled''")
  case True
  then have "rl_stacks l = []"
    using assms unfolding resolve_def Let_def guard_eq_Inr rbind_eq_Inr by auto
  then show ?thesis by (simp add: layout_ok_def)
next
  case False
  obtain sz where sz: "0 < sz" "0 \<le> red" "red < sz" and
    rb: "resolve_banks img policy stack_top sz gap (case stride0 of None \<Rightarrow> sz | Some s \<Rightarrow> s) red n page bits
       (rl_image_end l) (rl_image_start l) = Inr l"
    by (rule resolve_enabled [OF assms False]) blast
  note rb' = resolve_banks_Inr [OF rb]
  define tp where "tp = (case stack_top of None \<Rightarrow> align_up (rl_image_end l + gap + sz) page | Some t \<Rightarrow> t)"
  define stride where "stride = (case stride0 of None \<Rightarrow> sz | Some s \<Rightarrow> s)"
  have st: "rl_stacks l = stack_banks tp sz stride red n" "sz \<le> stride"
    using rb'(1,3) by (simp_all add: tp_def stride_def)
  have bank: "bank_ok (2 ^ bits) b \<and> \<not> list_ex (bank_hits_segment b) (pi_segments img)"
    if "b \<in> set (rl_stacks l)" for b
  proof -
    from that obtain i where i: "i < nat n" "b = stack_banks tp sz stride red n ! i"
      unfolding st(1) by (metis in_set_conv_nth length_stack_banks)
    moreover from that have "0 \<le> sl_base b" "sl_end b \<le> 2 ^ bits"
      "\<not> list_ex (bank_hits_segment b) (pi_segments img)"
      using rb'(4) unfolding check_banks_Inr by blast+
    ultimately show ?thesis
      using sz by (simp add: bank_ok_def stack_banks_nth sl_end_def sl_stack_pointer_def)
  qed
  have "sorted_wrt (\<lambda>a b. sl_end a \<le> sl_base b) (rl_stacks l)"
    unfolding st(1) sorted_wrt_iff_nth_less length_stack_banks
    using stack_banks_gap [OF st(2)] st(2) sz by auto
  moreover have "map sl_pe_id (rl_stacks l) = map int [0..<length (rl_stacks l)]"
    unfolding st(1) by (simp add: stack_banks_def)
  ultimately show ?thesis using bank by (simp add: layout_ok_def list_all_iff)
qed


lemma resolve_red_zone:
  assumes "resolve img policy stack_top sz0 gap stride0 red n page bits = Inr l" and "b \<in> set (rl_stacks l)"
  shows "sl_red_zone b = rl_red_zone l"
proof (cases "policy = ''disabled''")
  case True
  then have "rl_stacks l = []"
    using assms(1) unfolding resolve_def Let_def guard_eq_Inr rbind_eq_Inr by auto
  with assms(2) show ?thesis by simp
next
  case False
  obtain sz where rb: "resolve_banks img policy stack_top sz gap (case stride0 of None \<Rightarrow> sz | Some s \<Rightarrow> s) red n
      page bits (rl_image_end l) (rl_image_start l) = Inr l"
    by (rule resolve_enabled [OF assms(1) False]) blast
  have "rl_red_zone l = red"
    using resolve_banks_Inr(5) [OF rb] by (metis runtime_layout.select_convs(8))
  then show ?thesis using assms(2) unfolding resolve_banks_Inr(3) [OF rb] by (auto simp: stack_banks_def)
qed

text \<open>
  C10: a resolved layout is safe: every bank lies in the guest address range, is disjoint from
  every image segment and from every other bank, and its initial stack pointer lies inside it
  above the base; banks are numbered by PE.
\<close>

theorem resolve_safe:
  assumes "resolve img policy stack_top sz0 gap stride0 red n page bits = Inr l"
  shows "layout_ok img (2 ^ bits) l"
  using assms by (rule resolve_layout_ok)

definition demo_segment :: program_segment where
  "demo_segment = \<lparr>ps_address = 4096, ps_data = [1, 2, 3, 4], ps_memory_size = 16,
     ps_permissions = ''rx'', ps_alignment = 4, ps_name = ''text''\<rparr>"

definition demo_image :: program_image where
  "demo_image = \<lparr>pi_entry_point = 4096, pi_segments = [demo_segment], pi_stack_pointer = None,
     pi_symbols = [], pi_metadata = [], pi_format = ''elf''\<rparr>"

lemma demo_image_ok: "image_ok demo_image"
proof -
  have "\<exists>k. (4 :: int) = 2 ^ k" by (rule exI [of _ 2]) simp
  then show ?thesis
    by (simp add: image_ok_def demo_image_def demo_segment_def segment_ok_def segments_disjoint_def)
qed

lemmas resolve_eval = resolve_def resolve_banks_def py_max_def py_min_def align_up_def
  stack_banks_def banks_overlap_def bank_hits_segment_def sl_end_def ps_end_def Let_def

lemma demo_resolve:
  assumes "20480 \<le> (2 :: int) ^ bits"
  shows "resolve demo_image ''after-image'' None 4096 4096 None 16 2 4096 bits = Inr
     \<lparr>rl_policy = ''after-image'', rl_image_end = 4112, rl_image_start = 4096, rl_pe_count = 2,
      rl_stack_size = 4096, rl_stack_gap = 4096, rl_stack_stride = 4096, rl_red_zone = 16,
      rl_stacks = stack_banks 16384 4096 4096 16 2\<rparr>"
  using assms
  by (simp add: resolve_eval demo_image_def demo_segment_def upt_rec [of 0] upt_rec [of "Suc 0"]
      cong: rbind_weak_cong)

theorem resolve_safe_witness:
  "\<exists>l. resolve demo_image ''after-image'' None 4096 4096 None 16 2 4096 32 = Inr l
     \<and> layout_ok demo_image (2 ^ 32) l \<and> map sl_stack_pointer (rl_stacks l) = [16368, 20464]"
proof -
  have "map sl_stack_pointer (stack_banks 16384 4096 4096 16 2) = [16368, 20464]" by code_simp
  moreover have "20480 \<le> (2 :: int) ^ 32" by simp
  ultimately show ?thesis
    using demo_resolve [of 32] resolve_safe [OF demo_resolve [of 32]] by fastforce
qed

text \<open>
  C11: the automatic placement succeeds whenever the arguments are valid and the banks fit: with
  no explicit top, the first bank starts at least \<open>stack_gap\<close> bytes above the image and its top
  is page aligned, so no overlap check can fail; only the address range can.
\<close>

theorem resolve_after_image_succeeds:
  assumes "image_ok img" and "0 < sz" and "0 \<le> gap" and "0 \<le> red" and "red < sz" and "0 < n"
    and "sz \<le> stride" and "page = 2 ^ k"
    and "py_max (map ps_end (pi_segments img)) = Inr ie"
    and "align_up (ie + gap + sz) page + (n - 1) * stride \<le> 2 ^ bits"
  shows "\<exists>l. resolve img ''after-image'' None sz gap (Some stride) red n page bits = Inr l
    \<and> length (rl_stacks l) = nat n \<and> page dvd sl_top (hd (rl_stacks l))
    \<and> (\<forall>st \<in> set (rl_stacks l). ie + gap \<le> sl_base st)"
proof -
  define tp where "tp = align_up (ie + gap + sz) page"
  let ?sts = "stack_banks tp sz stride red n"
  have pg: "0 < page" "page AND (page - 1) = 0"
    using assms(8) and_not_pred_pow2 [of page k] by (simp_all add: and_exp_eq_0_iff_not_bit mask_eq_exp_minus_1 [symmetric] take_bit_eq_mask [symmetric])
  have tp: "ie + gap + sz \<le> tp" "page dvd tp" using align_up_bounds [OF pg(1)] by (simp_all add: tp_def)
  have ends: "ps_end s \<le> ie" if "s \<in> set (pi_segments img)" for s
    using py_max_ge [OF assms(9)] that by simp
  have ie: "0 \<le> ie"
  proof -
    from assms(1) obtain s where "s \<in> set (pi_segments img)" "segment_ok s"
      by (metis image_ok_def list.set_sel(1))
    with ends show ?thesis by (fastforce simp: segment_ok_def ps_end_def)
  qed
  have bank: "ie + gap \<le> sl_base b \<and> sl_end b \<le> 2 ^ bits \<and> sl_top b \<le> 2 ^ bits" if "b \<in> set ?sts" for b
  proof -
    from that obtain i where i: "i < nat n" "b = ?sts ! i"
      by (metis in_set_conv_nth length_stack_banks)
    have "0 \<le> int i * stride" using assms(2,7) by simp
    moreover have "int i * stride \<le> (n - 1) * stride"
      by (rule mult_right_mono) (use i assms(2,7) in auto)
    ultimately show ?thesis
      using i tp(1) assms(10) by (simp add: stack_banks_nth sl_end_def tp_def)
  qed
  have "\<not> list_ex (bank_hits_segment b) (pi_segments img)" if "b \<in> set ?sts" for b
    using bank [OF that] ends assms(3) by (fastforce simp: list_ex_iff bank_hits_segment_def)
  with bank ie assms(3) have chk: "check_banks (pi_segments img) (2 ^ bits) ?sts = Inr ()"
    unfolding check_banks_Inr by fastforce
  have no: "\<not> banks_overlap ?sts" by (rule banks_never_overlap) (use assms in auto)
  obtain ist where mn: "py_min (map ps_address (pi_segments img)) = Inr ist"
    using py_min_ok [of "map ps_address (pi_segments img)"] assms(1) by (auto simp: image_ok_def)
  let ?l = "\<lparr>rl_policy = ''after-image'', rl_image_end = ie, rl_image_start = ist, rl_pe_count = n,
    rl_stack_size = sz, rl_stack_gap = gap, rl_stack_stride = stride, rl_red_zone = red, rl_stacks = ?sts\<rparr>"
  have "0 < tp" using tp(1) ie assms(2,3) by linarith
  then have "resolve_banks img ''after-image'' None sz gap stride red n page bits ie ist = Inr ?l"
    using assms(7) chk no by (simp add: resolve_banks_def Let_def tp_def [symmetric])
  then have "resolve img ''after-image'' None sz gap (Some stride) red n page bits = Inr ?l"
    using assms(2-6,9) pg mn by (simp add: resolve_def Let_def)
  moreover have "sl_top (hd ?sts) = tp"
    using assms(6) by (subst hd_conv_nth) (simp_all add: stack_banks_nth flip: length_greater_0_conv)
  ultimately show ?thesis using tp(2) bank by auto
qed

theorem resolve_after_image_succeeds_witness:
  "\<exists>l. resolve demo_image ''after-image'' None 4096 4096 (Some 8192) 16 3 4096 32 = Inr l
     \<and> length (rl_stacks l) = 3 \<and> (\<forall>st \<in> set (rl_stacks l). 8208 \<le> sl_base st)"
proof -
  have mx: "py_max (map ps_end (pi_segments demo_image)) = Inr 4112" by code_simp
  have c: "align_up (4112 + 4096 + 4096) 4096 + (3 - 1) * 8192 \<le> 2 ^ 32" by code_simp
  have "\<exists>l. resolve demo_image ''after-image'' None 4096 4096 (Some 8192) 16 3 4096 32 = Inr l
    \<and> length (rl_stacks l) = nat 3 \<and> 4096 dvd sl_top (hd (rl_stacks l))
    \<and> (\<forall>st \<in> set (rl_stacks l). 4112 + 4096 \<le> sl_base st)"
    by (rule resolve_after_image_succeeds [OF demo_image_ok _ _ _ _ _ _ _ mx, where red = 16 and k = 12])
      (use c in simp_all)
  then obtain l where "resolve demo_image ''after-image'' None 4096 4096 (Some 8192) 16 3 4096 32 = Inr l"
    "length (rl_stacks l) = nat 3" "\<forall>st \<in> set (rl_stacks l). 4112 + 4096 \<le> sl_base st" by blast
  then show ?thesis by (intro exI [of _ l]) simp
qed

end
