(* ===== verification/Py_Text.thy ===== *)
theory Py_Text
  imports Prelude
begin

text \<open>
  The text operations the sources use on protocol lines and formatted numbers: \<open>str(n)\<close> and
  \<open>f"\{n:x\}"\<close>, \<open>int(text, base)\<close> for the bases 10 and 0, \<open>split()\<close>, \<open>partition(" ")\<close>,
  \<open>startswith\<close> and \<open>bytes.hex()\<close>. Text is a list of 8-bit characters.
\<close>

section \<open>Digits\<close>

definition digit_char :: "nat \<Rightarrow> char" where
  "digit_char d = (if d < 10 then char_of (48 + d) else char_of (87 + d))"

text \<open>The value of \<open>0-9\<close>, \<open>a-z\<close> and \<open>A-Z\<close> as a digit.\<close>

definition digit_val :: "char \<Rightarrow> nat option" where
  "digit_val c =
     (let n = of_char c :: nat in
      if 48 \<le> n \<and> n \<le> 57 then Some (n - 48)
      else if 97 \<le> n \<and> n \<le> 122 then Some (n - 87)
      else if 65 \<le> n \<and> n \<le> 90 then Some (n - 55)
      else None)"

function digits_of :: "nat \<Rightarrow> nat \<Rightarrow> string" where
  "digits_of b n = (if b < 2 \<or> n < b then [digit_char n] else digits_of b (n div b) @ [digit_char (n mod b)])"
  by pat_completeness auto
termination
  by (relation "measure (\<lambda>(b, n). n)") (auto intro: div_less_dividend)

declare digits_of.simps [simp del]

definition py_format :: "nat \<Rightarrow> int \<Rightarrow> string" where
  "py_format b i = (if i < 0 then CHR ''-'' # digits_of b (nat (- i)) else digits_of b (nat i))"

text \<open>\<open>str(n)\<close> and \<open>f"\{n:x\}"\<close>.\<close>

definition py_dec :: "int \<Rightarrow> string" where "py_dec = py_format 10"
definition py_hex :: "int \<Rightarrow> string" where "py_hex = py_format 16"

section \<open>Parsing integers\<close>

definition is_space :: "char \<Rightarrow> bool" where
  "is_space c =
     (let n = of_char c :: nat in
      (9 \<le> n \<and> n \<le> 13) \<or> (28 \<le> n \<and> n \<le> 32) \<or> n = 133 \<or> n = 160)"

definition py_strip :: "string \<Rightarrow> string" where
  "py_strip s = rev (dropWhile is_space (rev (dropWhile is_space s)))"

text \<open>
  Digits with single underscores between them; the flag says whether an underscore may come
  next, which is also when the text may end.
\<close>

fun parse_digits :: "nat \<Rightarrow> bool \<Rightarrow> nat \<Rightarrow> string \<Rightarrow> nat option" where
  "parse_digits b after acc [] = (if after then Some acc else None)"
| "parse_digits b after acc (c # cs) =
     (if c = CHR ''_'' then (if after then parse_digits b False acc cs else None)
      else case digit_val c of
             None \<Rightarrow> None
           | Some d \<Rightarrow> if d < b then parse_digits b True (acc * b + d) cs else None)"

text \<open>An unsigned literal; base 0 reads the prefix, and then decimal has no leading zeros.\<close>

definition prefix_base :: "char \<Rightarrow> nat option" where
  "prefix_base c = (if c = CHR ''x'' \<or> c = CHR ''X'' then Some 16
                    else if c = CHR ''o'' \<or> c = CHR ''O'' then Some 8
                    else if c = CHR ''b'' \<or> c = CHR ''B'' then Some 2 else None)"

definition parse_base0 :: "string \<Rightarrow> nat option" where
  "parse_base0 s =
     (case s of
        z # p # rest \<Rightarrow>
          if z = CHR ''0'' then
            (case prefix_base p of
               Some b \<Rightarrow> (case rest of
                           [] \<Rightarrow> None
                         | c # cs \<Rightarrow> if c = CHR ''_'' then parse_digits b False 0 cs
                                     else parse_digits b False 0 rest)
             | None \<Rightarrow> (case parse_digits 10 False 0 s of Some 0 \<Rightarrow> Some 0 | _ \<Rightarrow> None))
          else parse_digits 10 False 0 s
      | _ \<Rightarrow> parse_digits 10 False 0 s)"

definition parse_unsigned :: "nat \<Rightarrow> string \<Rightarrow> nat option" where
  "parse_unsigned b s = (if b = 0 then parse_base0 s else parse_digits b False 0 s)"

definition parse_int :: "nat \<Rightarrow> string \<Rightarrow> int option" where
  "parse_int b s =
     (case py_strip s of
        [] \<Rightarrow> None
      | c # cs \<Rightarrow>
          if c = CHR ''-'' then map_option (\<lambda>n. - int n) (parse_unsigned b cs)
          else if c = CHR ''+'' then map_option int (parse_unsigned b cs)
          else map_option int (parse_unsigned b (c # cs)))"

text \<open>\<open>int(text, base)\<close> raises \<open>ValueError\<close> when the text is no literal.\<close>

definition py_int :: "nat \<Rightarrow> string \<Rightarrow> int res" where
  "py_int b s = (case parse_int b s of None \<Rightarrow> Inl (ValueError ''invalid literal for int()'') | Some i \<Rightarrow> Inr i)"

section \<open>Splitting\<close>

definition py_startswith :: "string \<Rightarrow> string \<Rightarrow> bool" where
  "py_startswith s p = (take (length p) s = p)"

function py_split :: "string \<Rightarrow> string list" where
  "py_split s =
     (let t = dropWhile is_space s in
      if t = [] then [] else takeWhile (\<lambda>c. \<not> is_space c) t # py_split (dropWhile (\<lambda>c. \<not> is_space c) t))"
  by pat_completeness auto
termination
proof (relation "measure length", simp)
  fix s t :: string assume t: "t = dropWhile is_space s" and ne: "t \<noteq> []"
  from ne obtain c cs where c: "t = c # cs" by (cases t) blast+
  have "hd (dropWhile is_space s) = c" unfolding t [symmetric] c by simp
  then have "\<not> is_space c" using hd_dropWhile [of is_space s] t ne by simp
  then have "length (dropWhile (\<lambda>c. \<not> is_space c) t) \<le> length cs"
    using c by (simp add: length_dropWhile_le)
  also have "\<dots> < length t" using c by simp
  also have "\<dots> \<le> length s" using t by (simp add: length_dropWhile_le)
  finally show "(dropWhile (\<lambda>c. \<not> is_space c) t, s) \<in> measure length" by simp
qed

declare py_split.simps [simp del]

text \<open>\<open>s.partition(" ")\<close>: what is before the first space and what is after it.\<close>

definition partition_space :: "string \<Rightarrow> string \<times> string" where
  "partition_space s = (takeWhile (\<lambda>c. c \<noteq> CHR '' '') s, drop 1 (dropWhile (\<lambda>c. c \<noteq> CHR '' '') s))"

section \<open>Bytes as hex\<close>

definition hex_byte :: "byte \<Rightarrow> string" where
  "hex_byte b = [digit_char (unat b div 16), digit_char (unat b mod 16)]"

definition bytes_hex :: "byte list \<Rightarrow> string" where
  "bytes_hex bs = concat (map hex_byte bs)"

fun hex_decode :: "string \<Rightarrow> byte list option" where
  "hex_decode [] = Some []"
| "hex_decode [c] = None"
| "hex_decode (c # d # cs) =
     (case (digit_val c, digit_val d, hex_decode cs) of
        (Some x, Some y, Some bs) \<Rightarrow> if x < 16 \<and> y < 16 then Some (of_nat (16 * x + y) # bs) else None
      | _ \<Rightarrow> None)"

section \<open>Lines\<close>

definition is_line_end :: "char \<Rightarrow> bool" where
  "is_line_end c = (let n = of_char c :: nat in (10 \<le> n \<and> n \<le> 13) \<or> (28 \<le> n \<and> n \<le> 30))"

text \<open>\<open>str.splitlines()\<close> for ASCII text.\<close>

function splitlines :: "string \<Rightarrow> string list" where
  "splitlines s =
     (if s = [] then []
      else
        let l = takeWhile (\<lambda>c. \<not> is_line_end c) s in
        l # (case drop (length l) s of
               [] \<Rightarrow> []
             | c # cs \<Rightarrow> splitlines (if c = CHR 0x0D \<and> take 1 cs = [CHR 0x0A] then drop 1 cs else cs)))"
  by pat_completeness auto
termination
proof (relation "measure length", simp)
  fix s l c cs assume "s \<noteq> []" and l: "l = takeWhile (\<lambda>c. \<not> is_line_end c) s" and d: "drop (length l) s = c # cs"
  have "length cs < length s" using arg_cong [OF d, of length] by simp
  then show "(if c = CHR 0x0D \<and> take 1 cs = [CHR 0x0A] then drop 1 cs else cs, s) \<in> measure length"
    by auto
qed

declare splitlines.simps [simp del]

section \<open>Paths\<close>

text \<open>The components of a path; \<open>pathlib\<close> drops the empty ones and the dots.\<close>

fun split_slash :: "string \<Rightarrow> string \<Rightarrow> string list" where
  "split_slash acc [] = [acc]"
| "split_slash acc (c # cs) = (if c = CHR ''/'' then acc # split_slash [] cs else split_slash (acc @ [c]) cs)"

definition path_parts :: "string \<Rightarrow> string list" where
  "path_parts p = filter (\<lambda>x. x \<noteq> [] \<and> x \<noteq> ''.'') (split_slash [] p)"

section \<open>Lemmas\<close>

lemma digit_val_digit_char [simp]: "d < 36 \<Longrightarrow> digit_val (digit_char d) = Some d"
proof -
  assume d: "d < 36"
  have 1: "(of_char (char_of (48 + d) :: char) :: nat) = 48 + d" if "d < 10" using that by (simp add: of_char_of)
  have 2: "(of_char (char_of (87 + d) :: char) :: nat) = 87 + d" using d by (simp add: of_char_of)
  show ?thesis using d 1 2 by (simp add: digit_val_def digit_char_def Let_def)
qed

lemma digit_val_special: "digit_val CHR ''_'' = None" "digit_val CHR ''-'' = None" "digit_val CHR ''+'' = None"
  by (simp_all add: digit_val_def)

lemma digit_char_plain: "d < 36 \<Longrightarrow> digit_char d \<noteq> CHR ''_'' \<and> digit_char d \<noteq> CHR ''-'' \<and> digit_char d \<noteq> CHR ''+''"
  using digit_val_digit_char [of d] digit_val_special by (metis option.distinct(1))

lemma digit_char_not_space: "d < 36 \<Longrightarrow> \<not> is_space (digit_char d)"
proof -
  assume d: "d < 36"
  have 1: "(of_char (char_of (48 + d) :: char) :: nat) = 48 + d" if "d < 10" using that by (simp add: of_char_of)
  have 2: "(of_char (char_of (87 + d) :: char) :: nat) = 87 + d" using d by (simp add: of_char_of)
  show ?thesis using d 1 2 by (simp add: is_space_def digit_char_def Let_def)
qed

lemma digits_of_chars: "2 \<le> b \<Longrightarrow> c \<in> set (digits_of b n) \<Longrightarrow> \<exists>d < b. c = digit_char d"
proof (induction b n rule: digits_of.induct)
  case (1 b n)
  show ?case
  proof (cases "n < b")
    case True
    with 1 show ?thesis by (auto simp: digits_of.simps [of b n])
  next
    case False
    with 1 have "c \<in> set (digits_of b (n div b)) \<or> c = digit_char (n mod b)"
      by (simp add: digits_of.simps [of b n] split: if_splits) auto
    then show ?thesis
    proof
      assume "c = digit_char (n mod b)"
      moreover have "n mod b < b" using 1(2) by simp
      ultimately show ?thesis by blast
    qed (use 1 False in auto)
  qed
qed

lemma digits_of_nonempty [simp]: "digits_of b n \<noteq> []"
  by (subst digits_of.simps) auto

lemma parse_digits_append:
  "(\<And>c. c \<in> set s \<Longrightarrow> \<exists>d < b. d < 36 \<and> c = digit_char d) \<Longrightarrow> s \<noteq> [] \<Longrightarrow>
   parse_digits b f acc (s @ t) = parse_digits b True (foldl (\<lambda>a c. a * b + the (digit_val c)) acc s) t"
proof (induction s arbitrary: f acc)
  case (Cons c s)
  from Cons.prems(1) [of c] obtain d where d: "d < b" "d < 36" "c = digit_char d" by auto
  with digit_char_plain [of d] have "parse_digits b f acc ((c # s) @ t) = parse_digits b True (acc * b + d) (s @ t)"
    by simp
  with Cons d show ?case by (cases "s = []") auto
qed simp

lemma foldl_digits_of:
  "2 \<le> b \<Longrightarrow> b \<le> 36 \<Longrightarrow> foldl (\<lambda>a c. a * b + the (digit_val c)) 0 (digits_of b n) = n"
proof (induction b n rule: digits_of.induct)
  case (1 b n)
  show ?case
  proof (cases "n < b")
    case True
    with 1 show ?thesis by (simp add: digits_of.simps [of b n])
  next
    case False
    with 1 have IH: "foldl (\<lambda>a c. a * b + the (digit_val c)) 0 (digits_of b (n div b)) = n div b" by simp
    have "n mod b < b" using 1(2) by simp
    then have "n mod b < 36" using 1(3) by linarith
    with False 1 IH show ?thesis by (simp add: digits_of.simps [of b n])
  qed
qed

lemma parse_digits_digits_of:
  assumes "2 \<le> b" and "b \<le> 36"
  shows "parse_digits b False 0 (digits_of b n) = Some n"
proof -
  have "\<exists>d < b. d < 36 \<and> c = digit_char d" if "c \<in> set (digits_of b n)" for c
    using digits_of_chars [OF assms(1) that] assms(2) by (auto intro: less_le_trans)
  from parse_digits_append [OF this, of "digits_of b n" False 0 "[]"] foldl_digits_of [OF assms, of n]
  show ?thesis by simp
qed

lemma py_strip_id: "s \<noteq> [] \<Longrightarrow> \<not> is_space (hd s) \<Longrightarrow> \<not> is_space (last s) \<Longrightarrow> py_strip s = s"
proof -
  assume a: "s \<noteq> []" "\<not> is_space (hd s)" "\<not> is_space (last s)"
  have "dropWhile is_space s = s" using a by (cases s) auto
  moreover have "dropWhile is_space (rev s) = rev s" using a by (cases s rule: rev_cases) auto
  ultimately show ?thesis by (simp add: py_strip_def)
qed

lemma parse_int_format:
  assumes "2 \<le> b" and "b \<le> 36"
  shows "parse_int b (py_format b i) = Some i"
proof -
  have ds: "\<exists>d < 36. c = digit_char d" if "c \<in> set (digits_of b n)" for c n
    using digits_of_chars [OF assms(1) that] assms(2) by (auto intro: less_le_trans)
  have h: "\<exists>d < 36. hd (digits_of b n) = digit_char d" "\<exists>d < 36. last (digits_of b n) = digit_char d" for n
    using ds [of "hd (digits_of b n)" n] ds [of "last (digits_of b n)" n] by simp_all
  have strip: "py_strip (digits_of b n) = digits_of b n" "py_strip (CHR ''-'' # digits_of b n) = CHR ''-'' # digits_of b n" for n
    using h [of n] digit_char_not_space by (auto intro!: py_strip_id simp: is_space_def)
  obtain c cs where c: "digits_of b (nat i) = c # cs" by (cases "digits_of b (nat i)") auto
  then have plain: "c \<noteq> CHR ''-'' \<and> c \<noteq> CHR ''+''" using h(1) [of "nat i"] digit_char_plain by auto
  show ?thesis
  proof (cases "i < 0")
    case True
    then show ?thesis
      using assms by (simp add: parse_int_def py_format_def strip parse_unsigned_def parse_digits_digits_of)
  next
    case False
    then show ?thesis
      using assms plain parse_digits_digits_of [OF assms, of "nat i"] c strip(1) [of "nat i"]
      by (simp add: parse_int_def py_format_def parse_unsigned_def)
  qed
qed

lemma py_int_dec [simp]: "py_int 10 (py_dec i) = Inr i"
  by (simp add: py_int_def py_dec_def parse_int_format)

lemma hex_decode_bytes_hex [simp]: "hex_decode (bytes_hex bs) = Some bs"
proof (induction bs)
  case (Cons b bs)
  have lt: "unat b < 256" using unsigned_less [of b] by simp
  then have "unat b div 16 < 16" "unat b mod 16 < 16" by auto
  then have "digit_val (digit_char (unat b div 16)) = Some (unat b div 16)"
    "digit_val (digit_char (unat b mod 16)) = Some (unat b mod 16)" by simp_all
  with Cons show ?case
    using \<open>unat b div 16 < 16\<close> by (simp add: bytes_hex_def hex_byte_def)
qed (simp add: bytes_hex_def)


text \<open>Decimal numbers have no leading zero, so base 0 reads them as decimal.\<close>

lemma hd_digits_of: "2 \<le> b \<Longrightarrow> b \<le> 36 \<Longrightarrow> 0 < n \<Longrightarrow> hd (digits_of b n) \<noteq> CHR ''0''"
proof (induction b n rule: digits_of.induct)
  case (1 b n)
  show ?case
  proof (cases "n < b")
    case True
    then have "digit_val (digit_char n) = Some n" using 1(3) by simp
    moreover have "digit_val CHR ''0'' = Some 0" by (simp add: digit_val_def)
    ultimately have "digit_char n \<noteq> CHR ''0''" using 1(4) by force
    with True show ?thesis by (simp add: digits_of.simps [of b n])
  next
    case False
    then have "0 < n div b" using 1(2) by (simp add: div_greater_zero_iff)
    with 1 False show ?thesis by (simp add: digits_of.simps [of b n])
  qed
qed

lemma parse_base0_dec: "parse_base0 (digits_of 10 n) = Some n"
proof (cases "n = 0")
  case True
  have "digits_of 10 0 = ''0''" by code_simp
  with True show ?thesis by (simp add: parse_base0_def digit_val_def)
next
  case False
  then have "hd (digits_of 10 n) \<noteq> CHR ''0''" by (intro hd_digits_of) auto
  with parse_digits_digits_of [of 10 n] show ?thesis
    by (auto simp: parse_base0_def split: list.splits)
qed

lemma py_int0_dec:
  assumes "0 \<le> i"
  shows "py_int 0 (py_dec i) = Inr i"
proof -
  have ds: "\<exists>d < 36. c = digit_char d" if "c \<in> set (digits_of 10 (nat i))" for c
  proof -
    from digits_of_chars [OF _ that] obtain d where "d < 10" "c = digit_char d" by auto
    then have "d < 36" by simp
    with \<open>c = digit_char d\<close> show ?thesis by blast
  qed
  obtain c cs where c: "digits_of 10 (nat i) = c # cs" by (cases "digits_of 10 (nat i)") auto
  with ds [of c] digit_char_plain have "c \<noteq> CHR ''-'' \<and> c \<noteq> CHR ''+''" by auto
  moreover have "py_strip (c # cs) = c # cs"
  proof (rule py_strip_id)
    have "last (c # cs) \<in> set (digits_of 10 (nat i))" using c by (metis last_in_set list.distinct(1))
    from ds [OF this] show "\<not> is_space (last (c # cs))" using digit_char_not_space by metis
    show "\<not> is_space (hd (c # cs))" using ds [of c] c digit_char_not_space by auto
  qed simp
  ultimately show ?thesis
    using assms parse_base0_dec [of "nat i"] c
    by (simp add: py_int_def parse_int_def py_dec_def py_format_def parse_unsigned_def)
qed

text \<open>Words joined by single spaces split into the words again.\<close>

fun unwords :: "string list \<Rightarrow> string" where
  "unwords [] = []"
| "unwords [w] = w"
| "unwords (w # ws) = w @ CHR '' '' # unwords ws"

definition word_ok :: "string \<Rightarrow> bool" where
  "word_ok w \<longleftrightarrow> w \<noteq> [] \<and> (\<forall>c \<in> set w. \<not> is_space c)"

lemma is_space_blank [simp]: "is_space CHR '' ''"
  by (simp add: is_space_def)

lemma dropWhile_word: "word_ok w \<Longrightarrow> dropWhile is_space (w @ s) = w @ s"
  by (cases w) (auto simp: word_ok_def)

lemma takeWhile_word:
  assumes "word_ok w" and "s = [] \<or> is_space (hd s)"
  shows "takeWhile (\<lambda>c. \<not> is_space c) (w @ s) = w" and "dropWhile (\<lambda>c. \<not> is_space c) (w @ s) = s"
  using assms by (cases s; auto simp: word_ok_def takeWhile_append2 dropWhile_append2)+

lemma py_split_space [simp]: "py_split (CHR '' '' # s) = py_split s"
  by (subst (1 2) py_split.simps) simp

lemma py_split_Nil [simp]: "py_split [] = []"
  by (subst py_split.simps) simp

lemma py_split_word:
  assumes "word_ok w" and "s = [] \<or> is_space (hd s)"
  shows "py_split (w @ s) = w # py_split s"
proof -
  have ne: "w @ s \<noteq> []" using assms(1) by (simp add: word_ok_def)
  show ?thesis
    by (subst py_split.simps)
      (simp add: Let_def dropWhile_word [OF assms(1)] takeWhile_word [OF assms] ne [simplified])
qed

lemma py_split_unwords: "\<forall>w \<in> set ws. word_ok w \<Longrightarrow> py_split (unwords ws) = ws"
proof (induction ws rule: unwords.induct)
  case (2 w)
  then show ?case using py_split_word [of w "[]"] by simp
next
  case (3 w v vs)
  then show ?case using py_split_word [of w "CHR '' '' # unwords (v # vs)"] by simp
qed simp

lemma word_ok_dec [simp]: "word_ok (py_dec i)"
proof -
  have "\<not> is_space c" if "c \<in> set (digits_of 10 n)" for c n
    using digits_of_chars [of 10 c n] that digit_char_not_space by fastforce
  then show ?thesis by (auto simp: word_ok_def py_dec_def py_format_def is_space_def [of "CHR ''-''"])
qed

lemma word_ok_hex: "bs \<noteq> [] \<Longrightarrow> word_ok (bytes_hex bs)"
proof -
  have "\<not> is_space c" if c: "c \<in> set (hex_byte b)" for c b
  proof -
    have lt: "unat b < 256" using unsigned_less [of b] by simp
    then have "unat b div 16 < 36" "unat b mod 16 < 36" by auto
    with c digit_char_not_space show ?thesis by (auto simp: hex_byte_def)
  qed
  then show "bs \<noteq> [] \<Longrightarrow> word_ok (bytes_hex bs)"
    by (cases bs) (auto simp: word_ok_def bytes_hex_def hex_byte_def)
qed

end
