(* ===== verification/Host_Memory.thy ===== *)
theory Host_Memory
  imports Guest_Memory Runtime_Layout Py_Text
begin

text \<open>
  The host-side memory bridge of \<open>asl_model/runtime/host_memory.py\<close>: it maps the segments of a
  program image and the stack banks of a layout into a guest memory, serves the byte and chunk
  callbacks of the ASL workers, and, under the \<open>zero\<close> policy, maps the holes of a page on first
  access. Operations may change the bridge before they raise, so each returns the exception or
  the value together with the bridge it leaves.
\<close>

section \<open>The bridge\<close>

text \<open>The \<open>MemoryWorker\<close> protocol: an optional mirror of the memory that the bridge cross-checks.\<close>

record 'w memory_worker =
  mw_read_memory_byte :: "int \<Rightarrow> ('w, int) act"
  mw_write_memory_byte :: "int \<Rightarrow> int \<Rightarrow> ('w, unit) act"
  mw_state :: 'w

record stack_image =
  si_base :: int
  si_size :: int
  si_stack_pointer :: int
  si_permissions :: string
  si_name :: string

definition StackImage :: "int \<Rightarrow> int \<Rightarrow> int \<Rightarrow> string \<Rightarrow> string \<Rightarrow> stack_image res" where
  "StackImage b sz sp perms nm =
     (if b < 0 \<or> sz \<le> 0 then Inl (ValueError ''stack base and size must be positive'')
      else if \<not> (b \<le> sp \<and> sp \<le> b + sz) then
        Inl (ValueError ''stack pointer must lie inside the stack mapping'')
      else Inr \<lparr>si_base = b, si_size = sz, si_stack_pointer = sp, si_permissions = perms, si_name = nm\<rparr>)"

record 'w host_bridge =
  hb_memory :: guest_memory
  hb_worker :: "'w memory_worker option"
  hb_unmapped_policy :: string
  hb_page_size :: int
  hb_image :: "program_image option"
  hb_stack :: "stack_image option"
  hb_stacks :: "stack_image list"
  hb_red_zone :: int
  hb_generation :: int

definition HostMemoryBridge ::
  "guest_memory option \<Rightarrow> 'w memory_worker option \<Rightarrow> string \<Rightarrow> int \<Rightarrow> 'w host_bridge res" where
  "HostMemoryBridge memory worker unmapped_policy page_size =
     (if unmapped_policy \<notin> {''deny'', ''zero''} then
        Inl (ValueError ''unmapped_policy must be deny or zero'')
      else if page_size \<le> 0 \<or> page_size AND (page_size - 1) \<noteq> 0 then
        Inl (ValueError ''page_size must be a positive power of two'')
      else Inr \<lparr>hb_memory = (case memory of None \<Rightarrow> GuestMemory | Some m \<Rightarrow> m), hb_worker = worker,
        hb_unmapped_policy = unmapped_policy, hb_page_size = page_size, hb_image = None,
        hb_stack = None, hb_stacks = [], hb_red_zone = 0, hb_generation = 0\<rparr>)"

section \<open>Zero pages\<close>

text \<open>\<open>map_region\<close> as a statement: on success the memory is replaced, on an exception it is kept.\<close>

definition map_region_act ::
  "int \<Rightarrow> int \<Rightarrow> string \<Rightarrow> string \<Rightarrow> byte list \<Rightarrow> (guest_memory, guest_region) act" where
  "map_region_act b sz perms nm payload m =
     (case guest_map_region m b sz perms nm payload of Inl e \<Rightarrow> (Inl e, m) | Inr (r, m') \<Rightarrow> (Inr r, m'))"

text \<open>The loop over the sorted regions; the value is the cursor after the loop.\<close>

fun fill_holes :: "int \<Rightarrow> int \<Rightarrow> guest_region list \<Rightarrow> int \<Rightarrow> (guest_memory, int) act" where
  "fill_holes b e [] cursor m = (Inr cursor, m)"
| "fill_holes b e (r # rs) cursor m =
     (if gr_end r \<le> b then fill_holes b e rs cursor m
      else if gr_base r \<ge> e then (Inr cursor, m)
      else
        let hole_end = min (gr_base r) e;
            cursor' = max cursor (min (gr_end r) e)
        in if cursor < hole_end then
             (case map_region_act cursor (hole_end - cursor) ''rw'' ''runtime-zero-page'' [] m of
                (Inl x, m') \<Rightarrow> (Inl x, m')
              | (Inr _, m') \<Rightarrow> fill_holes b e rs cursor' m')
           else fill_holes b e rs cursor' m)"

text \<open>After the loop: map what is left of the page above the cursor.\<close>

definition finish_page :: "int \<Rightarrow> int res \<times> guest_memory \<Rightarrow> unit res \<times> guest_memory" where
  "finish_page e p =
     (case p of
        (Inl x, m) \<Rightarrow> (Inl x, m)
      | (Inr cursor, m) \<Rightarrow>
          if cursor < e then
            (case map_region_act cursor (e - cursor) ''rw'' ''runtime-zero-page'' [] m of
               (Inl x, m') \<Rightarrow> (Inl x, m')
             | (Inr _, m') \<Rightarrow> (Inr (), m'))
          else (Inr (), m))"

definition map_zero_page :: "int \<Rightarrow> int \<Rightarrow> (guest_memory, unit) act" where
  "map_zero_page page_size address m =
     (let b = address AND NOT (page_size - 1);
          e = b + page_size;
          regions = sort_key gr_base (gm_regions m)
      in if list_ex (\<lambda>r. gr_base r \<le> address \<and> address < gr_end r) regions then
           (Inl (MemoryAccessError ''rw'' address 1 ''address overlaps an existing mapping''), m)
         else
           finish_page e (fill_holes b e regions b m))"

definition host_map_zero_page :: "int \<Rightarrow> ('w host_bridge, unit) act" where
  "host_map_zero_page address h =
     (case map_zero_page (hb_page_size h) address (hb_memory h) of (r, m) \<Rightarrow> (r, h\<lparr>hb_memory := m\<rparr>))"

section \<open>Byte and chunk callbacks\<close>

definition is_access_error :: "py_error \<Rightarrow> bool" where
  "is_access_error e = (case e of MemoryAccessError _ _ _ _ \<Rightarrow> True | _ \<Rightarrow> False)"

text \<open>The cross-check against the worker's mirror at the end of \<open>read_byte\<close>.\<close>

definition host_check_worker :: "int \<Rightarrow> int \<Rightarrow> ('w host_bridge, int) act" where
  "host_check_worker address v h =
     (case hb_worker h of
        None \<Rightarrow> (Inr v, h)
      | Some w \<Rightarrow>
          (case mw_read_memory_byte w address (mw_state w) of
             (Inl e, st) \<Rightarrow> (Inl e, h\<lparr>hb_worker := Some (w\<lparr>mw_state := st\<rparr>)\<rparr>)
           | (Inr worker_value, st) \<Rightarrow>
               (if worker_value \<noteq> v then Inl (ValueError ''ASL worker memory mismatch'') else Inr v,
                h\<lparr>hb_worker := Some (w\<lparr>mw_state := st\<rparr>)\<rparr>)))"

definition host_read_byte :: "int \<Rightarrow> ('w host_bridge, int) act" where
  "host_read_byte address h =
     (case guest_read (hb_memory h) address 1 of
        Inr bs \<Rightarrow> host_check_worker address (uint (bs ! 0)) h
      | Inl e \<Rightarrow>
          if \<not> is_access_error e \<or> hb_unmapped_policy h \<noteq> ''zero'' then (Inl e, h)
          else (case host_map_zero_page address h of
                  (Inl e', h') \<Rightarrow> (Inl e', h')
                | (Inr _, h') \<Rightarrow> host_check_worker address 0 h'))"

text \<open>The region of the chunk, looked up after the first byte has been made readable.\<close>

definition host_region_chunk :: "int \<Rightarrow> int \<Rightarrow> 'w host_bridge \<Rightarrow> byte list res" where
  "host_region_chunk address sz h =
     (case find (\<lambda>r. gr_base r \<le> address \<and> address < gr_end r \<and> CHR ''r'' \<in> set (gr_permissions r))
             (gm_regions (hb_memory h)) of
        None \<Rightarrow> Inl (MemoryAccessError ''r'' address sz ''permission denied'')
      | Some r \<Rightarrow> guest_read (hb_memory h) address (min sz (gr_end r - address)))"

definition host_read_chunk :: "int \<Rightarrow> int \<Rightarrow> ('w host_bridge, byte list) act" where
  "host_read_chunk address sz h =
     (if sz \<le> 0 then (Inl (ValueError ''memory chunk size must be positive''), h)
      else if hb_worker h \<noteq> None then
        (case amap (\<lambda>i. host_read_byte (address + int i)) [0..<nat sz] h of
           (Inl e, h') \<Rightarrow> (Inl e, h')
         | (Inr vs, h') \<Rightarrow> (py_bytes vs, h'))
      else
        (case guest_read (hb_memory h) address 1 of
           Inr _ \<Rightarrow> (host_region_chunk address sz h, h)
         | Inl e \<Rightarrow>
             if \<not> is_access_error e \<or> hb_unmapped_policy h \<noteq> ''zero'' then (Inl e, h)
             else (case host_map_zero_page address h of
                     (Inl e', h') \<Rightarrow> (Inl e', h')
                   | (Inr _, h') \<Rightarrow> (host_region_chunk address sz h', h'))))"

text \<open>After the store: the generation counter, then the worker's mirror.\<close>

definition host_after_write :: "int \<Rightarrow> int \<Rightarrow> ('w host_bridge, unit) act" where
  "host_after_write address v h =
     (let h = h\<lparr>hb_generation := hb_generation h + 1\<rparr> in
      case hb_worker h of
        None \<Rightarrow> (Inr (), h)
      | Some w \<Rightarrow>
          (case mw_write_memory_byte w address v (mw_state w) of
             (r, st) \<Rightarrow> (r, h\<lparr>hb_worker := Some (w\<lparr>mw_state := st\<rparr>)\<rparr>)))"

definition host_write_byte :: "int \<Rightarrow> int \<Rightarrow> ('w host_bridge, unit) act" where
  "host_write_byte address v h =
     (if \<not> (0 \<le> v \<and> v \<le> 255) then (Inl (ValueError ''memory value must fit in one byte''), h)
      else
        (case guest_write (hb_memory h) address [word_of_int v] of
           Inr m \<Rightarrow> host_after_write address v (h\<lparr>hb_memory := m\<rparr>)
         | Inl e \<Rightarrow>
             if \<not> is_access_error e \<or> hb_unmapped_policy h \<noteq> ''zero'' then (Inl e, h)
             else (case host_map_zero_page address h of
                     (Inl e', h') \<Rightarrow> (Inl e', h')
                   | (Inr _, h') \<Rightarrow>
                       (case guest_write (hb_memory h') address [word_of_int v] of
                          Inl e'' \<Rightarrow> (Inl e'', h')
                        | Inr m \<Rightarrow> host_after_write address v (h'\<lparr>hb_memory := m\<rparr>)))))"

definition host_snapshot :: "'w host_bridge \<Rightarrow> memory_snapshot" where
  "host_snapshot h = guest_snapshot (hb_memory h)"

definition host_restore :: "memory_snapshot \<Rightarrow> 'w host_bridge \<Rightarrow> 'w host_bridge" where
  "host_restore s h =
     h\<lparr>hb_memory := guest_restore (hb_memory h) s, hb_generation := hb_generation h + 1\<rparr>"

section \<open>Loading an image\<close>

fun map_segments :: "program_segment list \<Rightarrow> (guest_memory, unit) act" where
  "map_segments [] m = (Inr (), m)"
| "map_segments (s # ss) m =
     (case map_region_act (ps_address s) (ps_memory_size s) (ps_permissions s) (ps_name s) (ps_data s) m of
        (Inl e, m') \<Rightarrow> (Inl e, m')
      | (Inr _, m') \<Rightarrow> map_segments ss m')"

definition bank_name :: "nat \<Rightarrow> stack_layout \<Rightarrow> string" where
  "bank_name n st = (if n = 1 then ''stack'' else ''stack['' @ py_dec (sl_pe_id st) @ '']'')"

fun map_stacks :: "nat \<Rightarrow> string \<Rightarrow> stack_layout list \<Rightarrow> (guest_memory, stack_image list) act" where
  "map_stacks n perms [] m = (Inr [], m)"
| "map_stacks n perms (l # ls) m =
     (case StackImage (sl_base l) (sl_size l) (sl_top l) perms (bank_name n l) of
        Inl e \<Rightarrow> (Inl e, m)
      | Inr st \<Rightarrow>
          (case map_region_act (sl_base l) (sl_size l) perms (si_name st) [] m of
             (Inl e, m') \<Rightarrow> (Inl e, m')
           | (Inr _, m') \<Rightarrow>
               (case map_stacks n perms ls m' of
                  (Inl e, m'') \<Rightarrow> (Inl e, m'')
                | (Inr sts, m'') \<Rightarrow> (Inr (st # sts), m''))))"

text \<open>The keyword arguments of \<open>load_image\<close>.\<close>

record load_options =
  lo_stack_pointer :: "int option"
  lo_stack_size :: int
  lo_stack_permissions :: string
  lo_stack_count :: int
  lo_stack_stride :: "int option"
  lo_stack_policy :: string
  lo_runtime_layout :: "runtime_layout option"
  lo_stack_gap :: int
  lo_red_zone :: int
  lo_pe_count :: "int option"

definition default_load_options :: load_options where
  "default_load_options = \<lparr>lo_stack_pointer = None, lo_stack_size = 0, lo_stack_permissions = ''rw'',
     lo_stack_count = 1, lo_stack_stride = None, lo_stack_policy = ''explicit'',
     lo_runtime_layout = None, lo_stack_gap = 4096, lo_red_zone = 0, lo_pe_count = None\<rparr>"

definition load_layout :: "program_image \<Rightarrow> load_options \<Rightarrow> int \<Rightarrow> runtime_layout res" where
  "load_layout img opts page_size =
     (case lo_runtime_layout opts of
        Some l \<Rightarrow> Inr l
      | None \<Rightarrow>
          let count = (case lo_pe_count opts of None \<Rightarrow> lo_stack_count opts | Some n \<Rightarrow> n);
              sp = (case lo_stack_pointer opts of Some p \<Rightarrow> Some p | None \<Rightarrow> pi_stack_pointer img);
              policy = (if lo_stack_size opts = 0 \<and> lo_stack_policy opts = ''explicit''
                        then ''disabled'' else lo_stack_policy opts)
          in resolve img policy sp (lo_stack_size opts) (lo_stack_gap opts) (lo_stack_stride opts)
               (lo_red_zone opts) count page_size 64)"

definition load_image :: "program_image \<Rightarrow> load_options \<Rightarrow> ('w host_bridge, program_image) act" where
  "load_image img opts h =
     (if lo_stack_size opts < 0 then (Inl (ValueError ''stack_size cannot be negative''), h)
      else if lo_stack_count opts \<le> 0 then (Inl (ValueError ''stack_count must be positive''), h)
      else
        (case map_segments (sort_key ps_address (pi_segments img)) GuestMemory of
           (Inl e, m) \<Rightarrow> (Inl e, h\<lparr>hb_memory := m, hb_generation := 0\<rparr>)
         | (Inr _, m) \<Rightarrow>
             let h = h\<lparr>hb_memory := m, hb_generation := 0, hb_stack := None, hb_stacks := []\<rparr> in
             (case load_layout img opts (hb_page_size h) of
                Inl e \<Rightarrow> (Inl e, h)
              | Inr l \<Rightarrow>
                  let h = h\<lparr>hb_red_zone := rl_red_zone l\<rparr> in
                  (case map_stacks (length (rl_stacks l)) (lo_stack_permissions opts) (rl_stacks l) m of
                     (Inl e, m') \<Rightarrow> (Inl e, h\<lparr>hb_memory := m'\<rparr>)
                   | (Inr sts, m') \<Rightarrow>
                       (Inr img, h\<lparr>hb_memory := m', hb_stacks := sts,
                          hb_stack := (case sts of [] \<Rightarrow> None | st # _ \<Rightarrow> Some st),
                          hb_image := Some img\<rparr>)))))"

definition host_stack_pointer_for :: "'w host_bridge \<Rightarrow> int \<Rightarrow> int option \<Rightarrow> int res" where
  "host_stack_pointer_for h index red_zone0 =
     (if \<not> (0 \<le> index \<and> index < int (length (hb_stacks h))) then
        Inl (ValueError ''stack bank is not mapped'')
      else
        let red_zone = (case red_zone0 of None \<Rightarrow> hb_red_zone h | Some r \<Rightarrow> r);
            st = hb_stacks h ! nat index
        in if red_zone < 0 \<or> red_zone > si_size st then Inl (ValueError ''invalid stack red zone'')
           else Inr (si_stack_pointer st - red_zone))"

text \<open>The injected loader is a parameter.\<close>

definition load_request ::
  "(elf_load_request \<Rightarrow> program_image res) \<Rightarrow> elf_load_request \<Rightarrow> load_options \<Rightarrow>
   ('w host_bridge, program_image) act" where
  "load_request loader request opts h =
     (case loader request of Inl e \<Rightarrow> (Inl e, h) | Inr img \<Rightarrow> load_image img opts h)"


section \<open>Lemmas: zero pages\<close>

text \<open>
  What filling the holes of \<open>[c, e)\<close> does to a memory: it maps exactly those addresses, each
  new region is a readable and writable zero region that ends at the page end or at the base of
  a region that was there before, and no byte changes.
\<close>

definition zero_region :: "int \<Rightarrow> int \<Rightarrow> guest_region list \<Rightarrow> guest_region \<Rightarrow> bool" where
  "zero_region b e rs r \<longleftrightarrow> gr_permissions r = ''rw'' \<and> b \<le> gr_base r \<and> gr_end r \<le> e
     \<and> (gr_end r = e \<or> (\<exists>s \<in> set rs. gr_base s = gr_end r))"

definition zero_filled :: "int \<Rightarrow> int \<Rightarrow> guest_memory \<Rightarrow> guest_memory \<Rightarrow> bool" where
  "zero_filled c e m m' \<longleftrightarrow> mem_wf m' \<and> set (gm_regions m) \<subseteq> set (gm_regions m')
     \<and> (\<forall>r \<in> set (gm_regions m'). r \<in> set (gm_regions m) \<or> zero_region c e (gm_regions m) r)
     \<and> (\<forall>a. mapped m' a \<longleftrightarrow> mapped m a \<or> c \<le> a \<and> a < e) \<and> mem_val m' = mem_val m"

lemma zero_region_ok:
  "0 \<le> c \<Longrightarrow> c < e \<Longrightarrow> region_ok \<lparr>gr_base = c, gr_size = e - c, gr_permissions = ''rw'', gr_name = nm\<rparr>"
  by (simp add: region_ok_def)

lemma map_zero_region:
  assumes "mem_wf m" and "0 \<le> c" and "c < e" and "\<And>a. mapped m a \<Longrightarrow> a < c \<or> e \<le> a"
  obtains r m' where "map_region_act c (e - c) ''rw'' nm [] m = (Inr r, m')" and "mem_wf m'"
    and "r = \<lparr>gr_base = c, gr_size = e - c, gr_permissions = ''rw'', gr_name = nm\<rparr>"
    and "set (gm_regions m') = insert r (set (gm_regions m))"
    and "\<And>a. mapped m' a \<longleftrightarrow> mapped m a \<or> c \<le> a \<and> a < e" and "mem_val m' = mem_val m"
proof -
  let ?r = "\<lparr>gr_base = c, gr_size = e - c, gr_permissions = ''rw'', gr_name = nm\<rparr>"
  have ok: "region_ok ?r" using assms(2,3) by (rule zero_region_ok)
  have "\<not> list_ex (overlaps ?r) (gm_regions m)"
  proof
    assume "list_ex (overlaps ?r) (gm_regions m)"
    then obtain s where s: "s \<in> set (gm_regions m)" "overlaps ?r s" by (auto simp: list_ex_iff)
    with assms(1) have "region_ok s" by (simp add: mem_wf_def regions_wf_def)
    with s ok obtain a where "in_region ?r a" "in_region s a" using overlaps_iff_shared by blast
    with s(1) have "mapped m a" "c \<le> a" "a < e" by (auto simp: mapped_def in_region_def gr_end_def)
    with assms(4) show False by force
  qed
  with ok obtain r m' where eq: "guest_map_region m c (e - c) ''rw'' nm [] = Inr (r, m')"
    using guest_map_region_ok [of c "e - c" "''rw''" nm "[]" m] assms(3) by auto
  show thesis
  proof (rule that [of r m'])
    show "map_region_act c (e - c) ''rw'' nm [] m = (Inr r, m')" by (simp add: map_region_act_def eq)
    show "mem_wf m'" using assms(1) eq by (rule mem_wf_map_region)
    show "r = ?r" "set (gm_regions m') = insert r (set (gm_regions m))"
      using guest_map_region_Inr(1,5) [OF eq] .
    show "mapped m' a \<longleftrightarrow> mapped m a \<or> c \<le> a \<and> a < e" for a
      using mapped_map_region [OF eq, of a] by simp
    show "mem_val m' = mem_val m" using mem_val_map_region [OF eq] by (simp add: fun_eq_iff)
  qed
qed

lemma zero_filled_refl: "mem_wf m \<Longrightarrow> e \<le> c \<Longrightarrow> zero_filled c e m m"
  by (auto simp: zero_filled_def)

lemma zero_filled_single:
  assumes "mem_wf m" and "0 \<le> c" and "c < e" and "\<And>a. mapped m a \<Longrightarrow> a < c \<or> e \<le> a"
  shows "\<exists>r m'. map_region_act c (e - c) ''rw'' nm [] m = (Inr r, m') \<and> zero_filled c e m m'"
proof -
  obtain r m' where "map_region_act c (e - c) ''rw'' nm [] m = (Inr r, m')" and "mem_wf m'"
    and "r = \<lparr>gr_base = c, gr_size = e - c, gr_permissions = ''rw'', gr_name = nm\<rparr>"
    and "set (gm_regions m') = insert r (set (gm_regions m))"
    and "\<And>a. mapped m' a \<longleftrightarrow> mapped m a \<or> c \<le> a \<and> a < e" and "mem_val m' = mem_val m"
    by (rule map_zero_region [OF assms]) blast+
  then show ?thesis by (auto simp: zero_filled_def zero_region_def gr_end_def)
qed

text \<open>Two consecutive fills compose when an old region starts where the first one stops.\<close>

lemma zero_filled_trans:
  assumes "zero_filled c d m m'" and "zero_filled c' e m' m''" and "c \<le> c'" and "d \<le> c'" and "c' \<le> e"
    and cov: "\<And>a. d \<le> a \<Longrightarrow> a < c' \<Longrightarrow> mapped m a"
    and start: "d \<le> c \<or> (\<exists>s \<in> set (gm_regions m). gr_base s = d)"
  shows "zero_filled c e m m''"
  unfolding zero_filled_def
proof (intro conjI ballI allI)
  show "mem_wf m''" "set (gm_regions m) \<subseteq> set (gm_regions m'')" "mem_val m'' = mem_val m"
    using assms(1,2) by (auto simp: zero_filled_def)
  show "mapped m'' a \<longleftrightarrow> mapped m a \<or> c \<le> a \<and> a < e" for a
    using assms(1-5) cov [of a] by (force simp: zero_filled_def)
next
  fix r assume "r \<in> set (gm_regions m'')"
  with assms(2) consider "r \<in> set (gm_regions m')" | "zero_region c' e (gm_regions m') r"
    by (auto simp: zero_filled_def)
  then show "r \<in> set (gm_regions m) \<or> zero_region c e (gm_regions m) r"
  proof cases
    case 1
    with assms(1) consider "r \<in> set (gm_regions m)" | "zero_region c d (gm_regions m) r"
      by (auto simp: zero_filled_def)
    then show ?thesis
    proof cases
      case 2
      have "region_ok r" using 1 assms(1) by (simp add: zero_filled_def mem_wf_def regions_wf_def)
      with 2 start assms(4,5) show ?thesis by (auto simp: zero_region_def region_ok_def gr_end_def)
    qed simp
  next
    case 2
    have ok: "region_ok r"
      using \<open>r \<in> set (gm_regions m'')\<close> assms(2) by (simp add: zero_filled_def mem_wf_def regions_wf_def)
    have "s \<in> set (gm_regions m)" if "s \<in> set (gm_regions m')" "gr_base s = gr_end r" for s
    proof (rule ccontr)
      assume "s \<notin> set (gm_regions m)"
      with that(1) assms(1) have "zero_region c d (gm_regions m) s" "region_ok s"
        by (auto simp: zero_filled_def mem_wf_def regions_wf_def)
      with that(2) ok 2 assms(4) show False by (simp add: zero_region_def region_ok_def gr_end_def)
    qed
    with 2 assms(3) show ?thesis by (auto simp: zero_region_def)
  qed
qed

lemma finish_page_spec:
  assumes "mem_wf m" and "0 \<le> c" and "c \<le> e" and "\<And>a. mapped m a \<Longrightarrow> a < c \<or> e \<le> a"
  shows "\<exists>m'. finish_page e (Inr c, m) = (Inr (), m') \<and> zero_filled c e m m'"
proof (cases "c < e")
  case True
  from zero_filled_single [OF assms(1,2) True assms(4), of "''runtime-zero-page''"]
  obtain r m' where "map_region_act c (e - c) ''rw'' ''runtime-zero-page'' [] m = (Inr r, m')"
    "zero_filled c e m m'" by blast
  with True show ?thesis by (simp add: finish_page_def)
qed (use assms zero_filled_refl in \<open>auto simp: finish_page_def\<close>)

text \<open>The hole below the next region, if there is one, is mapped before the loop goes on.\<close>

lemma hole_step:
  assumes "mem_wf m" and "0 \<le> c" and "\<And>a. mapped m a \<Longrightarrow> a < c \<or> d \<le> a"
  shows "\<exists>m1. zero_filled c (max c d) m m1 \<and>
    (\<forall>F. (if c < d then
            (case map_region_act c (d - c) ''rw'' nm [] m of (Inl x, m') \<Rightarrow> (Inl x, m') | (Inr _, m') \<Rightarrow> F m')
          else F m) = F m1)"
proof (cases "c < d")
  case True
  from zero_filled_single [OF assms(1,2) True assms(3), of nm] obtain r m'
    where "map_region_act c (d - c) ''rw'' nm [] m = (Inr r, m')" "zero_filled c d m m'" by blast
  with True show ?thesis by auto
qed (use assms(1) zero_filled_refl [of m "max c d" c] in auto)

text \<open>Between the cursor and the next region nothing is mapped.\<close>

lemma next_region_first:
  assumes "regions_wf (r # rs)" and "mapped m a"
    and "\<And>s a. s \<in> set (gm_regions m) - set (r # rs) \<Longrightarrow> in_region s a \<Longrightarrow> a < c \<or> e \<le> a"
  shows "a < c \<or> min e (gr_base r) \<le> a"
proof -
  from assms(2) obtain s where s: "s \<in> set (gm_regions m)" "in_region s a" by (auto simp: mapped_def)
  show ?thesis
  proof (cases "s \<in> set (r # rs)")
    case True
    then have "gr_base r \<le> gr_base s"
      using assms(1) region_ok_base_lt_end [of r] by (fastforce simp: regions_wf_def)
    with s(2) show ?thesis by (auto simp: in_region_def)
  qed (use s assms(3) in force)
qed

lemma fill_holes_spec:
  assumes "mem_wf m" and "regions_wf rs" and "set rs \<subseteq> set (gm_regions m)"
    and "0 \<le> b" and "b \<le> c" and "c \<le> e"
    and "\<And>s a. s \<in> set (gm_regions m) - set rs \<Longrightarrow> in_region s a \<Longrightarrow> a < c \<or> e \<le> a"
  shows "\<exists>m'. finish_page e (fill_holes b e rs c m) = (Inr (), m') \<and> zero_filled c e m m'"
  using assms
proof (induction rs arbitrary: c m)
  case Nil
  then show ?case using finish_page_spec [of m c e] by (auto simp: mapped_def)
next
  case (Cons r rs)
  then have lt: "gr_base r < gr_end r" and wf: "regions_wf rs"
    by (auto simp: regions_wf_def region_ok_base_lt_end)
  note first = next_region_first [OF Cons.prems(2) _ Cons.prems(7)]
  consider "gr_end r \<le> b" | "b < gr_end r" "e \<le> gr_base r" | "b < gr_end r" "gr_base r < e" by linarith
  then show ?case
  proof cases
    case 1
    have "a < c \<or> e \<le> a" if "s \<in> set (gm_regions m) - set rs" "in_region s a" for s a
      using that Cons.prems(5) Cons.prems(7) [of s a] 1 by (cases "s = r") (auto simp: in_region_def)
    with Cons.IH [OF Cons.prems(1) wf _ Cons.prems(4-6)] Cons.prems(3) 1 show ?thesis by simp
  next
    case 2
    with first have "a < c \<or> e \<le> a" if "mapped m a" for a using that by fastforce
    with finish_page_spec [of m c e] Cons.prems(1,4-6) 2 show ?thesis by simp
  next
    case 3
    define c' where "c' = max c (min (gr_end r) e)"
    have c': "c \<le> c'" "c' \<le> e" "max c (gr_base r) \<le> c'"
      using Cons.prems(6) 3 lt by (auto simp: c'_def)
    have gap: "a < c \<or> gr_base r \<le> a" if "mapped m a" for a using first [OF that] 3 by auto
    have c0: "0 \<le> c" using Cons.prems(4,5) by simp
    obtain m1 where z: "zero_filled c (max c (gr_base r)) m m1"
      and F: "\<forall>F. (if c < gr_base r then
            (case map_region_act c (gr_base r - c) ''rw'' ''runtime-zero-page'' [] m of
               (Inl x, m') \<Rightarrow> (Inl x, m') | (Inr _, m') \<Rightarrow> F m')
          else F m) = (F m1 :: int res \<times> guest_memory)"
      using hole_step [OF Cons.prems(1) c0 gap] by blast
    have st: "fill_holes b e (r # rs) c m = fill_holes b e rs c' m1"
      using 3 F [rule_format, of "fill_holes b e rs c'"] by (auto simp: Let_def c'_def [symmetric] split: if_split_asm)
    have out: "a < c' \<or> e \<le> a" if "s \<in> set (gm_regions m1) - set rs" "in_region s a" for s a
    proof -
      have "s = r \<or> s \<in> set (gm_regions m) - set (r # rs) \<or> zero_region c (max c (gr_base r)) (gm_regions m) s"
        using that(1) z unfolding zero_filled_def by auto
      with that(2) c' Cons.prems(7) [of s a] show ?thesis
        by (auto simp: in_region_def zero_region_def c'_def)
    qed
    have "\<exists>m'. finish_page e (fill_holes b e rs c' m1) = (Inr (), m') \<and> zero_filled c' e m1 m'"
      by (rule Cons.IH [OF _ wf _ Cons.prems(4) _ c'(2)])
        (use z Cons.prems(3,5) c'(1) out in \<open>auto simp: zero_filled_def\<close>)
    then obtain m' where m': "finish_page e (fill_holes b e rs c' m1) = (Inr (), m')" "zero_filled c' e m1 m'"
      by blast
    have "zero_filled c e m m'"
    proof (rule zero_filled_trans [OF z m'(2) c'(1,3,2)])
      show "mapped m a" if "max c (gr_base r) \<le> a" "a < c'" for a
        using that Cons.prems(3) by (force simp: mapped_def in_region_def c'_def)
      show "max c (gr_base r) \<le> c \<or> (\<exists>s \<in> set (gm_regions m). gr_base s = max c (gr_base r))"
        using Cons.prems(3) by (auto simp: max_def)
    qed
    with m'(1) show ?thesis unfolding st by blast
  qed
qed

lemma map_zero_page_spec:
  assumes wf: "mem_wf m" and "page = 2 ^ k" and "0 \<le> address" and un: "\<not> mapped m address"
  defines "b \<equiv> address - address mod page"
  shows "\<exists>m'. map_zero_page page address m = (Inr (), m') \<and> zero_filled b (b + page) m m'"
    and "0 \<le> b" "b \<le> address" "address < b + page"
proof -
  have pg: "0 < page" using assms(2) by simp
  have b: "address AND NOT (page - 1) = b" by (simp add: b_def assms(2) and_not_pred_pow2)
  show b0: "0 \<le> b" and "b \<le> address" and "address < b + page"
    using pg assms(3) pos_mod_bound [OF pg, of address] pos_mod_sign [OF pg, of address]
      zmod_le_nonneg_dividend [of address page] by (simp_all add: b_def)
  have srt: "sort_key gr_base (gm_regions m) = gm_regions m"
    using wf regions_wf_sorted by (simp add: mem_wf_def sort_key_id_if_sorted)
  have "\<exists>m'. finish_page (b + page) (fill_holes b (b + page) (gm_regions m) b m) = (Inr (), m')
      \<and> zero_filled b (b + page) m m'"
    by (rule fill_holes_spec) (use wf pg b0 in \<open>auto simp: mem_wf_def\<close>)
  moreover have "\<not> list_ex (\<lambda>r. gr_base r \<le> address \<and> address < gr_end r) (gm_regions m)"
    using un by (auto simp: mapped_def in_region_def list_ex_iff)
  ultimately show "\<exists>m'. map_zero_page page address m = (Inr (), m') \<and> zero_filled b (b + page) m m'"
    by (simp add: map_zero_page_def Let_def b srt)
qed


section \<open>Lemmas: the callbacks\<close>

definition bridge_wf :: "'w host_bridge \<Rightarrow> bool" where
  "bridge_wf h \<longleftrightarrow> mem_wf (hb_memory h) \<and> (\<exists>k. hb_page_size h = 2 ^ k)
     \<and> hb_unmapped_policy h \<in> {''deny'', ''zero''}"

text \<open>One byte is accessible: in a region with the permission, or unmapped under the zero policy.\<close>

definition byte_ok :: "guest_region set \<Rightarrow> bool \<Rightarrow> int \<Rightarrow> char \<Rightarrow> bool" where
  "byte_ok R zero a p \<longleftrightarrow>
     (\<exists>r \<in> R. in_region r a \<and> p \<in> set (gr_permissions r))
     \<or> zero \<and> 0 \<le> a \<and> \<not> (\<exists>r \<in> R. in_region r a)"

definition host_ok :: "'w host_bridge \<Rightarrow> int \<Rightarrow> char \<Rightarrow> bool" where
  "host_ok h a p \<longleftrightarrow> byte_ok (set (gm_regions (hb_memory h))) (hb_unmapped_policy h = ''zero'') a p"

text \<open>The memory after an access at \<open>a\<close>: unchanged when mapped, else with the page filled.\<close>

definition touched :: "int \<Rightarrow> int \<Rightarrow> guest_memory \<Rightarrow> guest_memory \<Rightarrow> bool" where
  "touched page a m m' \<longleftrightarrow>
     (if mapped m a then m' = m else zero_filled (a - a mod page) (a - a mod page + page) m m')"

lemma touched_wf: "mem_wf m \<Longrightarrow> touched page a m m' \<Longrightarrow> mem_wf m'"
  by (auto simp: touched_def zero_filled_def split: if_splits)

lemma touched_val: "touched page a m m' \<Longrightarrow> mem_val m' = mem_val m"
  by (auto simp: touched_def zero_filled_def split: if_splits)

lemma regions_nonneg: "mem_wf m \<Longrightarrow> mapped m a \<Longrightarrow> 0 \<le> a"
  by (auto simp: mem_wf_def mapped_def regions_wf_def region_ok_def in_region_def)

lemma guest_check_byte:
  assumes wf: "mem_wf m"
  shows "guest_check m a 1 p =
    (if a < 0 then Inl (MemoryAccessError [p] a 1 ''invalid address range'')
     else if \<exists>r \<in> set (gm_regions m). in_region r a \<and> p \<in> set (gr_permissions r)
     then Inr (THE r. r \<in> set (gm_regions m) \<and> in_region r a)
     else Inl (MemoryAccessError [p] a 1
       (if mapped m a then ''permission denied'' else ''unmapped or cross-region range'')))"
proof (cases "a < 0")
  case False
  have rwf: "regions_wf (gm_regions m)" using wf by (simp add: mem_wf_def)
  show ?thesis
  proof (cases "mapped m a")
    case True
    then obtain r where r: "r \<in> set (gm_regions m)" "in_region r a" by (auto simp: mapped_def)
    have u: "s = r" if "s \<in> set (gm_regions m)" "in_region s a" for s
      using regions_wf_disjoint [OF rwf that(1) r(1) that(2) r(2)] .
    have "(THE r. r \<in> set (gm_regions m) \<and> in_region r a) = r" using r u by blast
    moreover have "(\<exists>r \<in> set (gm_regions m). in_region r a \<and> p \<in> set (gr_permissions r)) \<longleftrightarrow>
        p \<in> set (gr_permissions r)" using r u by blast
    moreover have "guest_check m a 1 p = (if p \<in> set (gr_permissions r) then Inr r
      else Inl (MemoryAccessError [p] a 1 ''permission denied''))"
      by (rule guest_check_covering) (use rwf r False in \<open>auto simp: in_region_def\<close>)
    ultimately show ?thesis using False True by simp
  next
    case un: False
    then have "guest_check m a 1 p = Inl (MemoryAccessError [p] a 1 ''unmapped or cross-region range'')"
      by (intro guest_check_uncovered) (use False in \<open>auto simp: mapped_def in_region_def\<close>)
    with un False show ?thesis by (auto simp: mapped_def)
  qed
qed (simp add: guest_check_def)

lemma guest_read_byte_granted:
  assumes "mem_wf m" and "r \<in> set (gm_regions m)" and "in_region r a" and "CHR ''r'' \<in> set (gr_permissions r)"
  shows "guest_read m a 1 = Inr [word_of_int (mem_val m a)]"
proof -
  have "0 \<le> a" using regions_nonneg assms(1-3) by (auto simp: mapped_def)
  with assms have "\<exists>r. guest_check m a 1 CHR ''r'' = Inr r" by (auto simp: guest_check_byte)
  then show ?thesis using assms(1) by (auto simp: guest_read_eq mem_bytes_def)
qed

lemma guest_byte_denied:
  assumes "mem_wf m" and "\<not> (\<exists>r \<in> set (gm_regions m). in_region r a \<and> p \<in> set (gr_permissions r))"
  shows "\<exists>e. guest_check m a 1 p = Inl e \<and> is_access_error e"
  using assms by (auto simp: guest_check_byte is_access_error_def)

lemma host_map_zero_page_ok:
  assumes "bridge_wf h" and "0 \<le> a" and "\<not> mapped (hb_memory h) a"
  shows "\<exists>m'. host_map_zero_page a h = (Inr (), h\<lparr>hb_memory := m'\<rparr>) \<and> touched (hb_page_size h) a (hb_memory h) m'
    \<and> (\<exists>r \<in> set (gm_regions m'). in_region r a \<and> gr_permissions r = ''rw'')"
proof -
  obtain k where k: "hb_page_size h = 2 ^ k" using assms(1) by (auto simp: bridge_wf_def)
  note sp = map_zero_page_spec [OF _ k assms(2,3)]
  let ?b = "a - a mod hb_page_size h"
  obtain m' where m': "map_zero_page (hb_page_size h) a (hb_memory h) = (Inr (), m')"
    "zero_filled ?b (?b + hb_page_size h) (hb_memory h) m'"
    using sp(1) assms(1) by (auto simp: bridge_wf_def)
  have "mapped m' a" using m'(2) sp(3,4) assms(1) by (auto simp: zero_filled_def bridge_wf_def)
  then obtain r where r: "r \<in> set (gm_regions m')" "in_region r a" by (auto simp: mapped_def)
  with assms(3) have "r \<notin> set (gm_regions (hb_memory h))" by (auto simp: mapped_def)
  with r(1) m'(2) have "gr_permissions r = ''rw''" by (auto simp: zero_filled_def zero_region_def)
  with m' r assms(3) show ?thesis by (auto simp: host_map_zero_page_def touched_def)
qed

lemma host_ok_cases:
  assumes "host_ok h a p"
  obtains (region) r where "r \<in> set (gm_regions (hb_memory h))" "in_region r a" "p \<in> set (gr_permissions r)"
      "mapped (hb_memory h) a"
    | (zero) "hb_unmapped_policy h = ''zero''" "0 \<le> a" "\<not> mapped (hb_memory h) a"
  using assms by (auto simp: host_ok_def byte_ok_def mapped_def)

lemma host_read_byte_ok:
  assumes wf: "bridge_wf h" and "hb_worker h = None" and "host_ok h a CHR ''r''"
  shows "\<exists>m'. host_read_byte a h = (Inr (mem_val (hb_memory h) a), h\<lparr>hb_memory := m'\<rparr>)
    \<and> touched (hb_page_size h) a (hb_memory h) m'"
  using assms(3)
proof (cases rule: host_ok_cases)
  case (region r)
  have "is_byte (mem_val (hb_memory h) a)"
    using mem_val_range wf by (auto simp: bridge_wf_def is_byte_def)
  with guest_read_byte_granted [OF _ region(1-3)] wf assms(2) region(4) show ?thesis
    by (intro exI [of _ "hb_memory h"])
      (simp add: host_read_byte_def host_check_worker_def touched_def bridge_wf_def is_byte_def uint_word_of_int_byte)
next
  case zero
  have "\<exists>e. guest_check (hb_memory h) a 1 CHR ''r'' = Inl e \<and> is_access_error e"
    using guest_byte_denied wf zero(3) by (auto simp: bridge_wf_def mapped_def)
  then obtain e where e: "guest_read (hb_memory h) a 1 = Inl e" "is_access_error e"
    by (auto simp: guest_read_def)
  obtain m' where "host_map_zero_page a h = (Inr (), h\<lparr>hb_memory := m'\<rparr>)" "touched (hb_page_size h) a (hb_memory h) m'"
    using host_map_zero_page_ok [OF wf zero(2,3)] by blast
  moreover have "mem_val (hb_memory h) a = 0" using mem_val_unmapped wf zero(3) by (auto simp: bridge_wf_def)
  ultimately show ?thesis
    using e zero(1) assms(2) by (auto simp: host_read_byte_def host_check_worker_def)
qed

lemma guest_write_byte_granted:
  assumes "mem_wf m" and "r \<in> set (gm_regions m)" and "in_region r a" and "CHR ''w'' \<in> set (gr_permissions r)"
  shows "guest_write m a [w] = Inr (apply_write m (a, [w]))"
proof -
  have "0 \<le> a" using regions_nonneg assms(1-3) by (auto simp: mapped_def)
  with assms have "\<exists>r. guest_check m a 1 CHR ''w'' = Inr r" by (auto simp: guest_check_byte)
  then show ?thesis by (auto simp: guest_write_apply)
qed

lemma host_write_byte_ok:
  assumes wf: "bridge_wf h" and "hb_worker h = None" and "host_ok h a CHR ''w''" and v: "is_byte v"
  shows "\<exists>m'. host_write_byte a v h = (Inr (), h\<lparr>hb_memory := apply_write m' (a, [word_of_int v]),
      hb_generation := hb_generation h + 1\<rparr>) \<and> touched (hb_page_size h) a (hb_memory h) m'
      \<and> mapped m' a"
  using assms(3)
proof (cases rule: host_ok_cases)
  case (region r)
  with guest_write_byte_granted [OF _ region(1-3)] wf assms(2) v show ?thesis
    by (intro exI [of _ "hb_memory h"])
      (simp add: host_write_byte_def host_after_write_def touched_def bridge_wf_def is_byte_def)
next
  case zero
  have "\<exists>e. guest_check (hb_memory h) a 1 CHR ''w'' = Inl e \<and> is_access_error e"
    using guest_byte_denied wf zero(3) by (auto simp: bridge_wf_def mapped_def)
  then obtain e where e: "guest_write (hb_memory h) a [word_of_int v] = Inl e" "is_access_error e"
    by (auto simp: guest_write_def)
  obtain m' r where m': "host_map_zero_page a h = (Inr (), h\<lparr>hb_memory := m'\<rparr>)"
    "touched (hb_page_size h) a (hb_memory h) m'"
    and r: "r \<in> set (gm_regions m')" "in_region r a" "gr_permissions r = ''rw''"
    using host_map_zero_page_ok [OF wf zero(2,3)] by blast
  have "mem_wf m'" using touched_wf m'(2) wf by (auto simp: bridge_wf_def)
  with r have "guest_write m' a [word_of_int v] = Inr (apply_write m' (a, [word_of_int v]))"
    by (intro guest_write_byte_granted) auto
  moreover have "mapped m' a" using r by (auto simp: mapped_def)
  ultimately show ?thesis
    using e m' v zero(1) assms(2) by (auto simp: host_write_byte_def host_after_write_def is_byte_def)
qed

lemma host_region_chunk_ok:
  assumes "mem_wf (hb_memory h)" and "r \<in> set (gm_regions (hb_memory h))" and "in_region r a"
    and "CHR ''r'' \<in> set (gr_permissions r)" and "0 < sz"
  shows "host_region_chunk a sz h = Inr (mem_bytes (hb_memory h) a (min sz (gr_end r - a)))"
proof -
  let ?m = "hb_memory h"
  have rwf: "regions_wf (gm_regions ?m)" using assms(1) by (simp add: mem_wf_def)
  have "find (\<lambda>r. gr_base r \<le> a \<and> a < gr_end r \<and> CHR ''r'' \<in> set (gr_permissions r)) (gm_regions ?m) = Some r"
    by (rule find_unique, rule assms(2))
      (use assms(3,4) regions_wf_disjoint [OF rwf _ assms(2) _ assms(3)] in
        \<open>unfold in_region_def, blast+\<close>)
  moreover have "0 \<le> a" using regions_nonneg [OF assms(1)] assms(2,3) by (auto simp: mapped_def)
  then have "guest_check ?m a (min sz (gr_end r - a)) CHR ''r'' = Inr r"
    using guest_check_covering [OF rwf _ _ assms(2), of "min sz (gr_end r - a)" a "CHR ''r''"] assms(3-5)
    by (simp add: in_region_def min_def split: if_splits)
  ultimately show ?thesis using assms(1) by (simp add: host_region_chunk_def guest_read_eq)
qed

lemma host_read_chunk_ok:
  assumes wf: "bridge_wf h" and "hb_worker h = None" and "host_ok h a CHR ''r''" and sz: "0 < sz"
  shows "\<exists>m' r. host_read_chunk a sz h =
      (Inr (mem_bytes m' a (min sz (gr_end r - a))), h\<lparr>hb_memory := m'\<rparr>)
    \<and> touched (hb_page_size h) a (hb_memory h) m' \<and> r \<in> set (gm_regions m') \<and> in_region r a"
  using assms(3)
proof (cases rule: host_ok_cases)
  case (region r)
  with guest_read_byte_granted [OF _ region(1-3)] host_region_chunk_ok [OF _ region(1-3) sz] wf assms(2) sz
  show ?thesis by (intro exI [of _ "hb_memory h"] exI [of _ r])
      (simp add: host_read_chunk_def touched_def bridge_wf_def)
next
  case zero
  have "\<exists>e. guest_check (hb_memory h) a 1 CHR ''r'' = Inl e \<and> is_access_error e"
    using guest_byte_denied wf zero(3) by (auto simp: bridge_wf_def mapped_def)
  then obtain e where e: "guest_read (hb_memory h) a 1 = Inl e" "is_access_error e"
    by (auto simp: guest_read_def)
  obtain m' r where m': "host_map_zero_page a h = (Inr (), h\<lparr>hb_memory := m'\<rparr>)"
    "touched (hb_page_size h) a (hb_memory h) m'"
    and r: "r \<in> set (gm_regions m')" "in_region r a" "gr_permissions r = ''rw''"
    using host_map_zero_page_ok [OF wf zero(2,3)] by blast
  have "mem_wf m'" using touched_wf m'(2) wf by (auto simp: bridge_wf_def)
  with r sz have "host_region_chunk a sz (h\<lparr>hb_memory := m'\<rparr>) = Inr (mem_bytes m' a (min sz (gr_end r - a)))"
    using host_region_chunk_ok [of "h\<lparr>hb_memory := m'\<rparr>" r a sz] by simp
  with e m' sz zero(1) assms(2) r show ?thesis
    by (intro exI [of _ m'] exI [of _ r]) (simp add: host_read_chunk_def)
qed


section \<open>Lemmas: loading an image\<close>

lemma map_region_act_ok:
  assumes "mem_wf m" and "region_ok r" and "int (length payload) \<le> gr_size r"
    and "\<And>s. s \<in> set (gm_regions m) \<Longrightarrow> \<not> overlaps r s"
  shows "\<exists>m'. map_region_act (gr_base r) (gr_size r) (gr_permissions r) (gr_name r) payload m = (Inr r, m')
    \<and> mem_wf m' \<and> set (gm_regions m') = insert r (set (gm_regions m))
    \<and> (\<forall>a. mem_val m' a = (if gr_base r \<le> a \<and> a < gr_base r + int (length payload)
                            then uint (payload ! nat (a - gr_base r)) else mem_val m a))"
proof -
  have r: "\<lparr>gr_base = gr_base r, gr_size = gr_size r, gr_permissions = gr_permissions r, gr_name = gr_name r\<rparr> = r"
    by simp
  have "\<not> list_ex (overlaps r) (gm_regions m)" using assms(4) by (auto simp: list_ex_iff)
  then obtain q m' where eq: "guest_map_region m (gr_base r) (gr_size r) (gr_permissions r) (gr_name r) payload = Inr (q, m')"
    using guest_map_region_ok [of "gr_base r" "gr_size r" "gr_permissions r" "gr_name r" payload m]
      assms(2,3) by (simp only: r) blast
  have "q = r" using guest_map_region_Inr(1) [OF eq] r by simp
  with eq guest_map_region_Inr(5) [OF eq] mem_wf_map_region [OF assms(1) eq] mem_val_map_region [OF eq]
  show ?thesis by (auto simp: map_region_act_def)
qed

definition segment_region :: "program_segment \<Rightarrow> guest_region" where
  "segment_region s = \<lparr>gr_base = ps_address s, gr_size = ps_memory_size s,
     gr_permissions = ps_permissions s, gr_name = ps_name s\<rparr>"

definition bank_region :: "nat \<Rightarrow> string \<Rightarrow> stack_layout \<Rightarrow> guest_region" where
  "bank_region n perms l = \<lparr>gr_base = sl_base l, gr_size = sl_size l, gr_permissions = perms,
     gr_name = bank_name n l\<rparr>"

text \<open>The byte an image puts at an address: its file contents, and zero in the BSS tail.\<close>

definition segment_byte :: "program_segment \<Rightarrow> int \<Rightarrow> int" where
  "segment_byte s a = (if a < ps_address s + int (length (ps_data s))
     then uint (ps_data s ! nat (a - ps_address s)) else 0)"

lemma gr_end_segment_region [simp]: "gr_end (segment_region s) = ps_end s"
  by (simp add: segment_region_def gr_end_def ps_end_def)

lemma gr_end_bank_region [simp]: "gr_end (bank_region n p l) = sl_end l"
  by (simp add: bank_region_def gr_end_def sl_end_def)

lemma gr_base_regions [simp]:
  "gr_base (segment_region s) = ps_address s" "gr_base (bank_region n p l) = sl_base l"
  by (simp_all add: segment_region_def bank_region_def)

lemma region_ok_segment: "segment_ok s \<Longrightarrow> distinct (ps_permissions s) \<Longrightarrow> region_ok (segment_region s)"
  by (simp add: segment_ok_def region_ok_def segment_region_def)

lemma map_segments_ok:
  assumes "mem_wf m" and "sorted_wrt (\<lambda>l r. ps_end l \<le> ps_address r) ss"
    and "\<forall>s \<in> set ss. segment_ok s \<and> distinct (ps_permissions s)"
    and "\<And>s r. s \<in> set ss \<Longrightarrow> r \<in> set (gm_regions m) \<Longrightarrow> gr_end r \<le> ps_address s"
  shows "\<exists>m'. map_segments ss m = (Inr (), m') \<and> mem_wf m'
    \<and> set (gm_regions m') = set (gm_regions m) \<union> segment_region ` set ss
    \<and> (\<forall>s a. s \<in> set ss \<longrightarrow> in_region (segment_region s) a \<longrightarrow> mem_val m' a = segment_byte s a)
    \<and> (\<forall>a. mapped m a \<longrightarrow> mem_val m' a = mem_val m a)"
  using assms
proof (induction ss arbitrary: m)
  case (Cons s ss)
  from Cons.prems have ok: "segment_ok s" "region_ok (segment_region s)" by (auto intro: region_ok_segment)
  have novl: "\<not> overlaps (segment_region s) r" if "r \<in> set (gm_regions m)" for r
    using Cons.prems(4) [OF _ that, of s] by (auto simp: overlaps_def)
  obtain m1 where m1: "map_region_act (ps_address s) (ps_memory_size s) (ps_permissions s) (ps_name s) (ps_data s) m
      = (Inr (segment_region s), m1)" "mem_wf m1"
    "set (gm_regions m1) = insert (segment_region s) (set (gm_regions m))"
    and v1: "\<And>a. mem_val m1 a = (if ps_address s \<le> a \<and> a < ps_address s + int (length (ps_data s))
                            then uint (ps_data s ! nat (a - ps_address s)) else mem_val m a)"
    using map_region_act_ok [OF Cons.prems(1) ok(2) _ novl, of "ps_data s"] ok(1)
    by (auto simp: segment_region_def segment_ok_def)
  have "\<exists>m'. map_segments ss m1 = (Inr (), m') \<and> mem_wf m'
    \<and> set (gm_regions m') = set (gm_regions m1) \<union> segment_region ` set ss
    \<and> (\<forall>s a. s \<in> set ss \<longrightarrow> in_region (segment_region s) a \<longrightarrow> mem_val m' a = segment_byte s a)
    \<and> (\<forall>a. mapped m1 a \<longrightarrow> mem_val m' a = mem_val m1 a)"
    by (rule Cons.IH) (use Cons.prems m1(2,3) in auto)
  then obtain m' where m': "map_segments ss m1 = (Inr (), m')" "mem_wf m'"
    "set (gm_regions m') = set (gm_regions m1) \<union> segment_region ` set ss"
    and tl: "\<And>s a. s \<in> set ss \<Longrightarrow> in_region (segment_region s) a \<Longrightarrow> mem_val m' a = segment_byte s a"
    and old: "\<And>a. mapped m1 a \<Longrightarrow> mem_val m' a = mem_val m1 a" by blast
  have "mem_val m' a = segment_byte s a" if "in_region (segment_region s) a" for a
  proof -
    have "mapped m1 a" using that m1(3) by (auto simp: mapped_def)
    moreover have "\<not> mapped m a"
      using that Cons.prems(4) [of s] by (force simp: mapped_def in_region_def)
    then have "mem_val m a = 0" using Cons.prems(1) mem_val_unmapped by blast
    ultimately show ?thesis
      using that by (simp add: old v1 segment_byte_def in_region_def)
  qed
  moreover have "mem_val m' a = mem_val m a" if "mapped m a" for a
  proof -
    from that have "mapped m1 a" using m1(3) by (auto simp: mapped_def)
    moreover have "a < ps_address s" using that Cons.prems(4) [of s] by (force simp: mapped_def in_region_def)
    ultimately show ?thesis by (simp add: old v1)
  qed
  ultimately show ?case using m1(1,3) m' tl by auto
qed simp

lemma map_stacks_ok:
  assumes "mem_wf m" and "sorted_wrt (\<lambda>a b. sl_end a \<le> sl_base b) ls"
    and "\<forall>l \<in> set ls. region_ok (bank_region n perms l) \<and> sl_top l = sl_end l"
    and "\<And>l r. l \<in> set ls \<Longrightarrow> r \<in> set (gm_regions m) \<Longrightarrow> \<not> overlaps (bank_region n perms l) r"
  shows "\<exists>m' sts. map_stacks n perms ls m = (Inr sts, m') \<and> mem_wf m'
    \<and> set (gm_regions m') = set (gm_regions m) \<union> bank_region n perms ` set ls
    \<and> mem_val m' = mem_val m
    \<and> sts = map (\<lambda>l. \<lparr>si_base = sl_base l, si_size = sl_size l, si_stack_pointer = sl_top l,
                     si_permissions = perms, si_name = bank_name n l\<rparr>) ls"
  using assms
proof (induction ls arbitrary: m)
  case (Cons l ls)
  from Cons.prems have ok: "region_ok (bank_region n perms l)" "sl_top l = sl_end l" by auto
  obtain m1 where m1: "map_region_act (sl_base l) (sl_size l) perms (bank_name n l) [] m
      = (Inr (bank_region n perms l), m1)" "mem_wf m1"
    "set (gm_regions m1) = insert (bank_region n perms l) (set (gm_regions m))" "mem_val m1 = mem_val m"
    using map_region_act_ok [OF Cons.prems(1) ok(1) _ Cons.prems(4), of "[]"] ok(1)
    by (auto simp: bank_region_def region_ok_def fun_eq_iff)
  have st: "StackImage (sl_base l) (sl_size l) (sl_top l) perms (bank_name n l) =
      Inr \<lparr>si_base = sl_base l, si_size = sl_size l, si_stack_pointer = sl_top l,
           si_permissions = perms, si_name = bank_name n l\<rparr>"
    using ok by (simp add: StackImage_def region_ok_def bank_region_def sl_end_def)
  have "\<exists>m' sts. map_stacks n perms ls m1 = (Inr sts, m') \<and> mem_wf m'
    \<and> set (gm_regions m') = set (gm_regions m1) \<union> bank_region n perms ` set ls \<and> mem_val m' = mem_val m1
    \<and> sts = map (\<lambda>l. \<lparr>si_base = sl_base l, si_size = sl_size l, si_stack_pointer = sl_top l,
                     si_permissions = perms, si_name = bank_name n l\<rparr>) ls"
  proof (rule Cons.IH)
    show "\<not> overlaps (bank_region n perms l') r" if "l' \<in> set ls" "r \<in> set (gm_regions m1)" for l' r
      using that Cons.prems(2,4) m1(3) by (fastforce simp: overlaps_def)
  qed (use Cons.prems m1 in auto)
  then show ?case using m1 st by auto
qed simp


section \<open>Lemmas: access rights under the zero policy\<close>

text \<open>
  Adding readable and writable regions in the holes does not change which bytes the zero policy
  lets a program read or write.
\<close>

lemma byte_ok_extension:
  assumes wf: "mem_wf m" and sub: "R \<subseteq> set (gm_regions m)"
    and rw: "\<forall>r \<in> set (gm_regions m) - R. gr_permissions r = ''rw''"
    and p: "p = CHR ''r'' \<or> p = CHR ''w''" and z: "zero \<or> set (gm_regions m) = R"
  shows "byte_ok (set (gm_regions m)) zero b p \<longleftrightarrow> byte_ok R zero b p"
proof (cases zero)
  case True
  have new: "gr_permissions r = ''rw'' \<and> \<not> (\<exists>s \<in> R. in_region s b)"
    if "r \<in> set (gm_regions m)" "in_region r b" "r \<notin> R" for r
  proof
    show "gr_permissions r = ''rw''" using that rw by blast
    have "s = r" if "s \<in> R" "in_region s b" for s
      by (rule regions_wf_disjoint [of "gm_regions m" _ _ b])
        (use that \<open>r \<in> set (gm_regions m)\<close> \<open>in_region r b\<close> sub wf in \<open>auto simp: mem_wf_def\<close>)
    with that(3) show "\<not> (\<exists>s \<in> R. in_region s b)" by blast
  qed
  have nn: "0 \<le> b" if "r \<in> set (gm_regions m)" "in_region r b" for r
    using regions_nonneg [OF wf, of b] that by (auto simp: mapped_def)
  show ?thesis
  proof
    assume "byte_ok (set (gm_regions m)) zero b p"
    then show "byte_ok R zero b p" using new nn sub True unfolding byte_ok_def by blast
  next
    assume "byte_ok R zero b p"
    then show "byte_ok (set (gm_regions m)) zero b p"
      using new sub True p unfolding byte_ok_def by fastforce
  qed
qed (use z in simp)

lemma byte_ok_touched:
  assumes wf: "mem_wf m" and t: "touched page a m m'" and p: "p = CHR ''r'' \<or> p = CHR ''w''"
    and z: "zero \<or> mapped m a"
  shows "byte_ok (set (gm_regions m')) zero b p \<longleftrightarrow> byte_ok (set (gm_regions m)) zero b p"
proof (rule byte_ok_extension [OF touched_wf [OF wf t] _ _ p])
  show "set (gm_regions m) \<subseteq> set (gm_regions m')"
    and "\<forall>r \<in> set (gm_regions m') - set (gm_regions m). gr_permissions r = ''rw''"
    and "zero \<or> set (gm_regions m') = set (gm_regions m)"
    using t z by (auto simp: touched_def zero_filled_def zero_region_def split: if_splits)
qed

lemma mapped_apply_write [simp]: "mapped (apply_write m w) = mapped m"
  by (simp add: mapped_def fun_eq_iff)

lemma mem_wf_apply_byte: "mem_wf m \<Longrightarrow> mapped m a \<Longrightarrow> mem_wf (apply_write m (a, [w]))"
  unfolding apply_write_def by (rule mem_wf_write_unchecked) (auto dest: le_antisym)

lemma bridge_wf_touched:
  "bridge_wf h \<Longrightarrow> touched (hb_page_size h) a (hb_memory h) m' \<Longrightarrow> bridge_wf (h\<lparr>hb_memory := m'\<rparr>)"
  using touched_wf by (auto simp: bridge_wf_def)

section \<open>Properties\<close>

text \<open>
  C9: under the zero policy the first access to an unmapped address maps exactly the holes of
  its page: existing regions and all bytes are kept, no new region leaves the page, each is
  readable and writable, and every address of the page is mapped afterwards.
\<close>

theorem zero_page_maps_exactly_the_holes:
  assumes "mem_wf m" and "page = 2 ^ k" and "0 \<le> address" and "\<not> mapped m address"
  shows "\<exists>m'. map_zero_page page address m = (Inr (), m') \<and> mem_wf m'
    \<and> set (gm_regions m) \<subseteq> set (gm_regions m') \<and> mem_val m' = mem_val m
    \<and> (\<forall>a. mapped m' a \<longleftrightarrow> mapped m a \<or> a div page = address div page)
    \<and> (\<forall>r \<in> set (gm_regions m') - set (gm_regions m). gr_permissions r = ''rw''
         \<and> gr_base r div page = address div page \<and> (gr_end r - 1) div page = address div page)"
proof -
  let ?b = "address - address mod page"
  have pg: "0 < page" using assms(2) by simp
  have b: "?b = address div page * page" by (simp add: minus_mod_eq_div_mult)
  have in_page: "?b \<le> a \<and> a < ?b + page \<longleftrightarrow> a div page = address div page" for a
    unfolding b by (simp add: int_div_eq_iff [OF pg, of a])
  obtain m' where m': "map_zero_page page address m = (Inr (), m')" "zero_filled ?b (?b + page) m m'"
    using map_zero_page_spec(1) [OF assms] by blast
  have "gr_base r div page = address div page \<and> (gr_end r - 1) div page = address div page"
    if "r \<in> set (gm_regions m') - set (gm_regions m)" for r
  proof -
    have "region_ok r" using that m'(2) by (auto simp: zero_filled_def mem_wf_def regions_wf_def)
    then have "?b \<le> gr_base r" "gr_base r < gr_end r" "gr_end r \<le> ?b + page"
      using that m'(2) region_ok_base_lt_end by (auto simp: zero_filled_def zero_region_def)
    then show ?thesis by (intro conjI in_page [THEN iffD1]) simp_all
  qed
  with m' in_page show ?thesis by (auto simp: zero_filled_def zero_region_def)
qed

theorem zero_page_maps_exactly_the_holes_witness:
  "\<exists>m'. map_zero_page 4096 8200 \<lparr>gm_regions = [\<lparr>gr_base = 8208, gr_size = 16,
       gr_permissions = ''rx'', gr_name = ''text''\<rparr>], gm_bytes = [(8208, 7)]\<rparr> = (Inr (), m')
     \<and> mapped m' 8192 \<and> mapped m' 12287 \<and> \<not> mapped m' 12288 \<and> mem_val m' 8208 = 7"
proof -
  let ?m = "\<lparr>gm_regions = [\<lparr>gr_base = 8208, gr_size = 16,
       gr_permissions = ''rx'', gr_name = ''text''\<rparr>], gm_bytes = [(8208, 7)]\<rparr>"
  have mp: "mapped ?m a \<longleftrightarrow> 8208 \<le> a \<and> a < 8224" for a
    by (auto simp: mapped_def in_region_def gr_end_def)
  have "mem_wf ?m"
    by (simp add: mem_wf_def regions_wf_def region_ok_def is_byte_def mp)
  moreover have "\<not> mapped ?m 8200" by (simp add: mp)
  moreover have "mem_val ?m 8208 = 7" by (simp add: mem_val_def dict_get_def)
  ultimately show ?thesis
    using zero_page_maps_exactly_the_holes [of ?m 4096 12 8200] mp by auto
qed

text \<open>
  A byte stored through the bridge is what the bridge reads back there, every other
  accessible byte reads as before, and a store advances the generation counter by one; under the
  zero policy this includes addresses that were unmapped.
\<close>

theorem bridge_write_then_read:
  assumes wf: "bridge_wf h" and w: "hb_worker h = None" and okw: "host_ok h a CHR ''w''"
    and v: "0 \<le> v" "v \<le> 255" and okr: "host_ok h b CHR ''r''"
  shows "\<exists>h1 h2. host_write_byte a v h = (Inr (), h1) \<and> hb_generation h1 = hb_generation h + 1
    \<and> host_read_byte b h1 = (Inr (if b = a then v else mem_val (hb_memory h) b), h2)"
proof -
  obtain m1 where m1: "host_write_byte a v h = (Inr (), h\<lparr>hb_memory := apply_write m1 (a, [word_of_int v]),
      hb_generation := hb_generation h + 1\<rparr>)" "touched (hb_page_size h) a (hb_memory h) m1" "mapped m1 a"
    using host_write_byte_ok [OF wf w okw, of v] v by (auto simp: is_byte_def)
  let ?h1 = "h\<lparr>hb_memory := apply_write m1 (a, [word_of_int v]), hb_generation := hb_generation h + 1\<rparr>"
  have wf0: "mem_wf (hb_memory h)" using wf by (simp add: bridge_wf_def)
  have "mem_wf m1" using touched_wf [OF wf0 m1(2)] .
  with m1(3) have wf1: "bridge_wf ?h1" using wf by (simp add: bridge_wf_def mem_wf_apply_byte)
  have "hb_unmapped_policy h = ''zero'' \<or> mapped (hb_memory h) a"
    using okw by (auto elim!: host_ok_cases)
  from byte_ok_touched [OF wf0 m1(2) _ this, of "CHR ''r''" b] okr
  have "host_ok ?h1 b CHR ''r''" by (simp add: host_ok_def)
  from host_read_byte_ok [OF wf1 _ this] w obtain m2
    where "host_read_byte b ?h1 = (Inr (mem_val (apply_write m1 (a, [word_of_int v])) b), ?h1\<lparr>hb_memory := m2\<rparr>)"
    by auto
  moreover have "mem_val (apply_write m1 (a, [word_of_int v])) b = (if b = a then v else mem_val (hb_memory h) b)"
    using touched_val [OF m1(2)] v by (auto simp: mem_val_apply_write uint_word_of_int_byte)
  ultimately show ?thesis using m1(1) by fastforce
qed

definition empty_bridge :: "string \<Rightarrow> unit host_bridge" where
  "empty_bridge policy = \<lparr>hb_memory = GuestMemory, hb_worker = None, hb_unmapped_policy = policy,
     hb_page_size = 4096, hb_image = None, hb_stack = None, hb_stacks = [], hb_red_zone = 0,
     hb_generation = 0\<rparr>"

lemma empty_bridge_wf: "policy \<in> {''deny'', ''zero''} \<Longrightarrow> bridge_wf (empty_bridge policy)"
proof -
  have "\<exists>k. (4096 :: int) = 2 ^ k" by (rule exI [of _ 12]) simp
  then show "policy \<in> {''deny'', ''zero''} \<Longrightarrow> bridge_wf (empty_bridge policy)"
    by (auto simp: bridge_wf_def empty_bridge_def)
qed

theorem bridge_write_then_read_witness:
  "\<exists>h1 h2. host_write_byte 5000 77 (empty_bridge ''zero'') = (Inr (), h1) \<and> hb_generation h1 = 1
    \<and> host_read_byte 5000 h1 = (Inr 77, h2)"
proof -
  have "host_ok (empty_bridge ''zero'') 5000 p" for p
    by (simp add: host_ok_def byte_ok_def empty_bridge_def GuestMemory_def)
  from bridge_write_then_read [OF empty_bridge_wf _ this _ _ this, of 77] show ?thesis
    by (simp add: empty_bridge_def)
qed


text \<open>
  The checks of \<open>resolve\<close> are the ones that let the mapping succeed: on a valid image with a
  resolved layout no \<open>map_region\<close> of \<open>load_image\<close> can raise.
\<close>

lemma bank_region_ok:
  assumes "bank_ok lim l" and "set perms \<subseteq> set ''rwx''" and "distinct perms"
  shows "region_ok (bank_region n perms l)"
  using assms by (simp add: bank_ok_def region_ok_def bank_region_def)

lemma load_image_maps:
  assumes img: "image_ok img" and dist: "\<forall>s \<in> set (pi_segments img). distinct (ps_permissions s)"
    and perms: "set (lo_stack_permissions opts) \<subseteq> set ''rwx''" "distinct (lo_stack_permissions opts)"
    and args: "0 \<le> lo_stack_size opts" "0 < lo_stack_count opts"
    and lay: "load_layout img opts (hb_page_size h) = Inr l" and ok: "layout_ok img lim l"
  defines "n \<equiv> length (rl_stacks l)"
  shows "\<exists>m sts. load_image img opts h = (Inr img, h\<lparr>hb_memory := m, hb_generation := 0,
      hb_stacks := sts, hb_stack := (case sts of [] \<Rightarrow> None | st # _ \<Rightarrow> Some st),
      hb_red_zone := rl_red_zone l, hb_image := Some img\<rparr>)
    \<and> mem_wf m \<and> set (gm_regions m) = segment_region ` set (pi_segments img)
         \<union> bank_region n (lo_stack_permissions opts) ` set (rl_stacks l)
    \<and> (\<forall>s a. s \<in> set (pi_segments img) \<longrightarrow> in_region (segment_region s) a \<longrightarrow> mem_val m a = segment_byte s a)
    \<and> (\<forall>b a. b \<in> set (rl_stacks l) \<longrightarrow> sl_base b \<le> a \<longrightarrow> a < sl_end b \<longrightarrow> mem_val m a = 0)
    \<and> sts = map (\<lambda>b. \<lparr>si_base = sl_base b, si_size = sl_size b, si_stack_pointer = sl_top b,
                     si_permissions = lo_stack_permissions opts, si_name = bank_name n b\<rparr>) (rl_stacks l)"
proof -
  let ?p = "lo_stack_permissions opts"
  let ?ss = "sort_key ps_address (pi_segments img)"
  have "\<exists>m1. map_segments ?ss GuestMemory = (Inr (), m1) \<and> mem_wf m1
    \<and> set (gm_regions m1) = set (gm_regions GuestMemory) \<union> segment_region ` set ?ss
    \<and> (\<forall>s a. s \<in> set ?ss \<longrightarrow> in_region (segment_region s) a \<longrightarrow> mem_val m1 a = segment_byte s a)
    \<and> (\<forall>a. mapped GuestMemory a \<longrightarrow> mem_val m1 a = mem_val GuestMemory a)"
    by (rule map_segments_ok)
      (use img dist in \<open>auto simp: image_ok_def segments_disjoint_def GuestMemory_def\<close>, simp flip: GuestMemory_def)
  then obtain m1 where m1: "map_segments ?ss GuestMemory = (Inr (), m1)" "mem_wf m1"
    "set (gm_regions m1) = segment_region ` set (pi_segments img)"
    and v1: "\<And>s a. s \<in> set (pi_segments img) \<Longrightarrow> in_region (segment_region s) a \<Longrightarrow> mem_val m1 a = segment_byte s a"
    by (auto simp: GuestMemory_def)
  have nohit: "\<not> overlaps (bank_region n ?p b) r" if "b \<in> set (rl_stacks l)" "r \<in> set (gm_regions m1)" for b r
    using that ok m1(3)
    by (fastforce simp: layout_ok_def list_all_iff list_ex_iff bank_hits_segment_def overlaps_def)
  have "\<exists>m sts. map_stacks n ?p (rl_stacks l) m1 = (Inr sts, m) \<and> mem_wf m
    \<and> set (gm_regions m) = set (gm_regions m1) \<union> bank_region n ?p ` set (rl_stacks l) \<and> mem_val m = mem_val m1
    \<and> sts = map (\<lambda>l. \<lparr>si_base = sl_base l, si_size = sl_size l, si_stack_pointer = sl_top l,
                     si_permissions = ?p, si_name = bank_name n l\<rparr>) (rl_stacks l)"
  proof (rule map_stacks_ok [OF m1(2) _ _ nohit])
    show "\<forall>b \<in> set (rl_stacks l). region_ok (bank_region n ?p b) \<and> sl_top b = sl_end b"
      using ok perms bank_region_ok by (auto simp: layout_ok_def list_all_iff bank_ok_def)
  qed (use ok in \<open>simp_all add: layout_ok_def\<close>)
  then obtain m sts where m: "map_stacks n ?p (rl_stacks l) m1 = (Inr sts, m)" "mem_wf m"
    "set (gm_regions m) = set (gm_regions m1) \<union> bank_region n ?p ` set (rl_stacks l)" "mem_val m = mem_val m1"
    "sts = map (\<lambda>l. \<lparr>si_base = sl_base l, si_size = sl_size l, si_stack_pointer = sl_top l,
                     si_permissions = ?p, si_name = bank_name n l\<rparr>) (rl_stacks l)" by blast
  have z: "mem_val m a = 0" if "b \<in> set (rl_stacks l)" "sl_base b \<le> a" "a < sl_end b" for b a
  proof -
    have "\<not> in_region r a" if "r \<in> set (gm_regions m1)" for r
      using nohit [OF \<open>b \<in> set (rl_stacks l)\<close> that] \<open>sl_base b \<le> a\<close> \<open>a < sl_end b\<close>
      by (auto simp: overlaps_def in_region_def)
    then have "\<not> mapped m1 a" by (auto simp: mapped_def)
    then show ?thesis using mem_val_unmapped [OF m1(2)] m(4) by simp
  qed
  have "load_image img opts h = (Inr img, h\<lparr>hb_memory := m, hb_generation := 0,
      hb_stacks := sts, hb_stack := (case sts of [] \<Rightarrow> None | st # _ \<Rightarrow> Some st),
      hb_red_zone := rl_red_zone l, hb_image := Some img\<rparr>)"
    using args m1(1) lay m(1) by (simp add: load_image_def Let_def n_def)
  then show ?thesis
    using m m1(3) v1 z by (intro exI [of _ m] exI [of _ sts]) (simp only: simp_thms, blast)
qed

text \<open>
  C8: loading a valid image with a resolvable layout always succeeds and builds exactly the
  described address space: one region per segment and per stack bank, file bytes at their
  addresses, zero in BSS and stacks, and for each PE the initial stack pointer of the layout.
\<close>

theorem load_image_exact:
  assumes "image_ok img" and "\<forall>s \<in> set (pi_segments img). distinct (ps_permissions s)"
    and "set (lo_stack_permissions opts) \<subseteq> set ''rwx''" and "distinct (lo_stack_permissions opts)"
    and "0 \<le> lo_stack_size opts" and "0 < lo_stack_count opts" and "lo_runtime_layout opts = None"
    and "load_layout img opts (hb_page_size h) = Inr l"
  shows "\<exists>h'. load_image img opts h = (Inr img, h') \<and> hb_generation h' = 0 \<and> mem_wf (hb_memory h')
    \<and> set (gm_regions (hb_memory h')) = segment_region ` set (pi_segments img)
         \<union> bank_region (length (rl_stacks l)) (lo_stack_permissions opts) ` set (rl_stacks l)
    \<and> (\<forall>s a. s \<in> set (pi_segments img) \<longrightarrow> in_region (segment_region s) a \<longrightarrow>
         mem_val (hb_memory h') a = segment_byte s a)
    \<and> (\<forall>b a. b \<in> set (rl_stacks l) \<longrightarrow> sl_base b \<le> a \<longrightarrow> a < sl_end b \<longrightarrow> mem_val (hb_memory h') a = 0)
    \<and> (\<forall>i < length (rl_stacks l). host_stack_pointer_for h' (int i) None = rl_stack_pointer_for l (int i))"
proof -
  have ok: "layout_ok img (2 ^ 64) l"
    by (rule resolve_layout_ok, rule assms(8) [unfolded load_layout_def assms(7) option.case Let_def])
  from load_image_maps [OF assms(1-6,8) ok] obtain m sts where
    li: "load_image img opts h = (Inr img, h\<lparr>hb_memory := m, hb_generation := 0,
      hb_stacks := sts, hb_stack := (case sts of [] \<Rightarrow> None | st # _ \<Rightarrow> Some st),
      hb_red_zone := rl_red_zone l, hb_image := Some img\<rparr>)"
    and rest: "mem_wf m" "set (gm_regions m) = segment_region ` set (pi_segments img)
         \<union> bank_region (length (rl_stacks l)) (lo_stack_permissions opts) ` set (rl_stacks l)"
    "\<forall>s a. s \<in> set (pi_segments img) \<longrightarrow> in_region (segment_region s) a \<longrightarrow> mem_val m a = segment_byte s a"
    "\<forall>b a. b \<in> set (rl_stacks l) \<longrightarrow> sl_base b \<le> a \<longrightarrow> a < sl_end b \<longrightarrow> mem_val m a = 0"
    and sts: "sts = map (\<lambda>b. \<lparr>si_base = sl_base b, si_size = sl_size b, si_stack_pointer = sl_top b,
       si_permissions = lo_stack_permissions opts, si_name = bank_name (length (rl_stacks l)) b\<rparr>) (rl_stacks l)"
    by blast
  have red: "sl_red_zone b = rl_red_zone l" if "b \<in> set (rl_stacks l)" for b
    using assms(7,8) that by (auto simp: load_layout_def Let_def dest: resolve_red_zone)
  have "host_stack_pointer_for (snd (load_image img opts h)) (int i) None = rl_stack_pointer_for l (int i)"
    if "i < length (rl_stacks l)" for i
  proof -
    have b: "rl_stacks l ! i \<in> set (rl_stacks l)" using that by simp
    then have "bank_ok (2 ^ 64) (rl_stacks l ! i)" using ok by (simp add: layout_ok_def list_all_iff)
    then show ?thesis
      using red [OF b] that
      by (simp add: li sts host_stack_pointer_for_def rl_stack_pointer_for_def sl_stack_pointer_def
          bank_ok_def sl_end_def Let_def)
  qed
  with li rest show ?thesis
    by (intro exI [of _ "snd (load_image img opts h)"]) simp
qed


theorem load_image_exact_witness:
  "\<exists>h'. load_image demo_image (default_load_options\<lparr>lo_stack_size := 4096, lo_stack_policy := ''after-image'',
      lo_red_zone := 16, lo_stack_count := 2\<rparr>) (empty_bridge ''deny'') = (Inr demo_image, h')
    \<and> mem_val (hb_memory h') 4098 = 3 \<and> mem_val (hb_memory h') 4104 = 0
    \<and> host_stack_pointer_for h' 1 None = Inr 20464"
proof -
  let ?o = "default_load_options\<lparr>lo_stack_size := 4096, lo_stack_policy := ''after-image'',
      lo_red_zone := 16, lo_stack_count := 2\<rparr>"
  let ?l = "\<lparr>rl_policy = ''after-image'', rl_image_end = 4112, rl_image_start = 4096, rl_pe_count = 2,
      rl_stack_size = 4096, rl_stack_gap = 4096, rl_stack_stride = 4096, rl_red_zone = 16,
      rl_stacks = stack_banks 16384 4096 4096 16 2\<rparr>"
  let ?h = "empty_bridge ''deny''"
  have lay: "load_layout demo_image ?o (hb_page_size ?h) = Inr ?l"
    using demo_resolve [of 64]
    by (simp add: load_layout_def default_load_options_def empty_bridge_def demo_image_def)
  have dist: "\<forall>s \<in> set (pi_segments demo_image). distinct (ps_permissions s)"
    by (simp add: demo_image_def demo_segment_def)
  have opts: "set (lo_stack_permissions ?o) \<subseteq> set ''rwx''" "distinct (lo_stack_permissions ?o)"
    "0 \<le> lo_stack_size ?o" "0 < lo_stack_count ?o" "lo_runtime_layout ?o = None"
    by (simp_all add: default_load_options_def)
  obtain h' where h': "load_image demo_image ?o ?h = (Inr demo_image, h')"
    and v: "\<forall>s a. s \<in> set (pi_segments demo_image) \<longrightarrow> in_region (segment_region s) a \<longrightarrow>
         mem_val (hb_memory h') a = segment_byte s a"
    and sp: "\<forall>i < length (rl_stacks ?l). host_stack_pointer_for h' (int i) None = rl_stack_pointer_for ?l (int i)"
    using load_image_exact [OF demo_image_ok dist opts lay] by blast
  have "mem_val (hb_memory h') 4098 = 3" "mem_val (hb_memory h') 4104 = 0"
    using v [rule_format, of demo_segment 4098] v [rule_format, of demo_segment 4104]
    by (simp_all add: demo_image_def in_region_def segment_byte_def demo_segment_def ps_end_def)
  moreover have "host_stack_pointer_for h' 1 None = Inr 20464"
    using sp [rule_format, of 1] by (simp add: rl_stack_pointer_for_def stack_banks_nth sl_stack_pointer_def)
  ultimately show ?thesis using h' by blast
qed

end
