(* ===== verification/Memory_Clients.thy ===== *)
theory Memory_Clients
  imports Prelude
begin

text \<open>
  Clients of a byte-addressed memory. An ASL worker executes one instruction of a PE; while it
  runs, it calls back for memory: one byte, a forward chunk, or a store. Its instruction
  semantics is not Python code of this repository, so it is an arbitrary deterministic client:
  a tree whose inner nodes are callbacks and whose leaves are the worker's answers.

  The locale \<open>callback_simulation\<close> states what one implementation of the callbacks must promise so
  that every client computes the same result on another implementation.
\<close>

datatype 'r mprog =
    is_MDone: MDone 'r
  | MRead int "int \<Rightarrow> 'r mprog"
  | MChunk int int "byte list \<Rightarrow> 'r mprog"
  | MWrite int int "'r mprog"

text \<open>The callbacks a memory offers.\<close>

record 's mem_ops =
  mo_read :: "int \<Rightarrow> ('s, int) act"
  mo_chunk :: "int \<Rightarrow> int \<Rightarrow> ('s, byte list) act"
  mo_write :: "int \<Rightarrow> int \<Rightarrow> ('s, unit) act"

text \<open>One callback; an exception of the callback ends the client.\<close>

definition step_prog :: "'s mem_ops \<Rightarrow> 'r mprog \<Rightarrow> ('s, 'r mprog) act" where
  "step_prog ops p s =
     (case p of
        MDone r \<Rightarrow> (Inr p, s)
      | MRead a k \<Rightarrow> abind (mo_read ops a) (\<lambda>v s. (Inr (k v), s)) s
      | MChunk a n k \<Rightarrow> abind (mo_chunk ops a n) (\<lambda>bs s. (Inr (k bs), s)) s
      | MWrite a v k \<Rightarrow> abind (mo_write ops a v) (\<lambda>_ s. (Inr k, s)) s)"

primrec run_prog :: "'s mem_ops \<Rightarrow> 'r mprog \<Rightarrow> ('s, 'r) act" where
  "run_prog ops (MDone r) = (\<lambda>s. (Inr r, s))"
| "run_prog ops (MRead a k) = abind (mo_read ops a) (\<lambda>v. run_prog ops (k v))"
| "run_prog ops (MChunk a n k) = abind (mo_chunk ops a n) (\<lambda>bs. run_prog ops (k bs))"
| "run_prog ops (MWrite a v k) = abind (mo_write ops a v) (\<lambda>_. run_prog ops k)"

primrec mbind :: "'a mprog \<Rightarrow> ('a \<Rightarrow> 'b mprog) \<Rightarrow> 'b mprog" where
  "mbind (MDone r) f = f r"
| "mbind (MRead a k) f = MRead a (\<lambda>v. mbind (k v) f)"
| "mbind (MChunk a n k) f = MChunk a n (\<lambda>bs. mbind (k bs) f)"
| "mbind (MWrite a v k) f = MWrite a v (mbind k f)"

text \<open>What a client may answer, whatever its memory answers.\<close>

inductive may_answer :: "'r mprog \<Rightarrow> 'r \<Rightarrow> bool" where
  "may_answer (MDone r) r"
| "may_answer (k v) r \<Longrightarrow> may_answer (MRead a k) r"
| "may_answer (k bs) r \<Longrightarrow> may_answer (MChunk a n k) r"
| "may_answer k r \<Longrightarrow> may_answer (MWrite a v k) r"

inductive_simps may_answer_simps [simp]:
  "may_answer (MDone r) x" "may_answer (MRead a k) x" "may_answer (MChunk a n k) x" "may_answer (MWrite a v k) x"

lemma may_answer_mbind: "may_answer (mbind p f) r \<longleftrightarrow> (\<exists>x. may_answer p x \<and> may_answer (f x) r)"
  by (induction p) auto

lemma abind_Inr:
  "abind m f s = (Inr y, u) \<longleftrightarrow> (\<exists>x t. m s = (Inr x, t) \<and> f x t = (Inr y, u))"
  by (auto simp: abind_def split: prod.splits sum.splits)

lemma run_prog_may_answer: "run_prog ops p s = (Inr r, s') \<Longrightarrow> may_answer p r"
  by (induction p arbitrary: s) (auto simp: abind_Inr, (blast intro: rangeI)+)

lemma run_prog_mbind: "run_prog ops (mbind p f) s = abind (run_prog ops p) (\<lambda>x. run_prog ops (f x)) s"
  by (induction p arbitrary: s) (auto simp: abind_def split: prod.splits sum.splits)

lemma abind_eqI: "m s = (Inr x, t) \<Longrightarrow> abind m f s = f x t"
  by (simp add: abind_def)

lemma run_prog_step:
  "run_prog ops p s = (case p of MDone r \<Rightarrow> (Inr r, s) | _ \<Rightarrow> abind (step_prog ops p) (run_prog ops) s)"
  by (cases p) (auto simp: abind_def step_prog_def split: prod.splits sum.splits)

text \<open>
  A memory \<open>A\<close> whose successful callbacks, as long as they leave it \<open>clean\<close>, are matched by
  memory \<open>B\<close> with the same answers. \<open>clean\<close> may be lost on the way but not regained.
\<close>

locale callback_simulation =
  fixes A :: "'s mem_ops" and B :: "'t mem_ops"
    and R :: "'s \<Rightarrow> 't \<Rightarrow> bool" and clean :: "'s \<Rightarrow> bool"
  assumes clean_read: "mo_read A a s = (Inr v, s') \<Longrightarrow> clean s' \<Longrightarrow> clean s"
    and clean_chunk: "mo_chunk A a n s = (Inr bs, s') \<Longrightarrow> clean s' \<Longrightarrow> clean s"
    and clean_write: "mo_write A a w s = (Inr u, s') \<Longrightarrow> clean s' \<Longrightarrow> clean s"
    and sim_read: "mo_read A a s = (Inr v, s') \<Longrightarrow> clean s' \<Longrightarrow> R s t \<Longrightarrow>
      \<exists>t'. mo_read B a t = (Inr v, t') \<and> R s' t'"
    and sim_chunk: "mo_chunk A a n s = (Inr bs, s') \<Longrightarrow> clean s' \<Longrightarrow> R s t \<Longrightarrow>
      \<exists>t'. mo_chunk B a n t = (Inr bs, t') \<and> R s' t'"
    and sim_write: "mo_write A a w s = (Inr u, s') \<Longrightarrow> clean s' \<Longrightarrow> R s t \<Longrightarrow>
      \<exists>t'. mo_write B a w t = (Inr u, t') \<and> R s' t'"
begin

lemma clean_run: "run_prog A p s = (Inr r, s') \<Longrightarrow> clean s' \<Longrightarrow> clean s"
proof (induction p arbitrary: s)
  case (MRead a k)
  then obtain v t where t: "mo_read A a s = (Inr v, t)" "run_prog A (k v) t = (Inr r, s')"
    by (auto simp: abind_Inr)
  with MRead have "clean t" by blast
  with t clean_read show ?case by blast
next
  case (MChunk a n k)
  then obtain v t where t: "mo_chunk A a n s = (Inr v, t)" "run_prog A (k v) t = (Inr r, s')"
    by (auto simp: abind_Inr)
  with MChunk have "clean t" by blast
  with t clean_chunk show ?case by blast
next
  case (MWrite a w k)
  then obtain u t where t: "mo_write A a w s = (Inr u, t)" "run_prog A k t = (Inr r, s')"
    by (auto simp: abind_Inr)
  with MWrite have "clean t" by blast
  with t clean_write show ?case by blast
qed simp

theorem simulation:
  "run_prog A p s = (Inr r, s') \<Longrightarrow> clean s' \<Longrightarrow> R s t \<Longrightarrow>
   \<exists>t'. run_prog B p t = (Inr r, t') \<and> R s' t'"
proof (induction p arbitrary: s t)
  case (MRead a k)
  then obtain v u where u: "mo_read A a s = (Inr v, u)" "run_prog A (k v) u = (Inr r, s')"
    by (auto simp: abind_Inr)
  with sim_read [OF u(1) clean_run [OF u(2)]] MRead.prems obtain t1
    where "mo_read B a t = (Inr v, t1)" "R u t1" by blast
  with MRead.IH [OF rangeI u(2)] MRead.prems show ?case by (auto simp: abind_eqI)
next
  case (MChunk a n k)
  then obtain v u where u: "mo_chunk A a n s = (Inr v, u)" "run_prog A (k v) u = (Inr r, s')"
    by (auto simp: abind_Inr)
  with sim_chunk [OF u(1) clean_run [OF u(2)]] MChunk.prems obtain t1
    where "mo_chunk B a n t = (Inr v, t1)" "R u t1" by blast
  with MChunk.IH [OF rangeI u(2)] MChunk.prems show ?case by (auto simp: abind_eqI)
next
  case (MWrite a w k)
  then obtain v u where u: "mo_write A a w s = (Inr v, u)" "run_prog A k u = (Inr r, s')"
    by (auto simp: abind_Inr)
  with sim_write [OF u(1) clean_run [OF u(2)]] MWrite.prems obtain t1
    where "mo_write B a w t = (Inr v, t1)" "R u t1" by blast
  with MWrite.IH [OF u(2)] MWrite.prems show ?case by (auto simp: abind_eqI)
qed auto

end

text \<open>
  Two memories that agree on every callback, refusals included: either both answer alike, or both
  raise an exception of the kind \<open>plain\<close>.
\<close>

locale callback_agreement =
  fixes A :: "'s mem_ops" and B :: "'t mem_ops" and R :: "'s \<Rightarrow> 't \<Rightarrow> bool" and plain :: "py_error \<Rightarrow> bool"
  assumes agree_read: "R s t \<Longrightarrow>
      (\<exists>v s' t'. mo_read A a s = (Inr v, s') \<and> mo_read B a t = (Inr v, t') \<and> R s' t')
      \<or> (\<exists>e s' e' t'. mo_read A a s = (Inl e, s') \<and> mo_read B a t = (Inl e', t') \<and> plain e \<and> plain e')"
    and agree_chunk: "R s t \<Longrightarrow>
      (\<exists>bs s' t'. mo_chunk A a n s = (Inr bs, s') \<and> mo_chunk B a n t = (Inr bs, t') \<and> R s' t')
      \<or> (\<exists>e s' e' t'. mo_chunk A a n s = (Inl e, s') \<and> mo_chunk B a n t = (Inl e', t') \<and> plain e \<and> plain e')"
    and agree_write: "R s t \<Longrightarrow>
      (\<exists>s' t'. mo_write A a w s = (Inr (), s') \<and> mo_write B a w t = (Inr (), t') \<and> R s' t')
      \<or> (\<exists>e s' e' t'. mo_write A a w s = (Inl e, s') \<and> mo_write B a w t = (Inl e', t') \<and> plain e \<and> plain e')"
begin

theorem agreement:
  "R s t \<Longrightarrow>
     (\<exists>r s' t'. run_prog A p s = (Inr r, s') \<and> run_prog B p t = (Inr r, t') \<and> R s' t')
     \<or> (\<exists>e s' e' t'. run_prog A p s = (Inl e, s') \<and> run_prog B p t = (Inl e', t') \<and> plain e \<and> plain e')"
proof (induction p arbitrary: s t)
  case (MRead a k)
  from agree_read [OF MRead.prems, of a] MRead.IH [OF rangeI] show ?case
    by (elim disjE exE conjE) (auto simp: abind_def)
next
  case (MChunk a n k)
  from agree_chunk [OF MChunk.prems, of a n] MChunk.IH [OF rangeI] show ?case
    by (elim disjE exE conjE) (auto simp: abind_def)
next
  case (MWrite a w k)
  from agree_write [OF MWrite.prems, of a w] MWrite.IH show ?case
    by (elim disjE exE conjE) (auto simp: abind_def)
qed simp

end

end
