(* ===== verification/Flat_Memory.thy ===== *)
theory Flat_Memory
  imports Host_Memory Memory_Clients
begin

text \<open>
  What the memory bridge promises to a worker, as an abstract specification: a flat function
  from addresses to bytes, the access rights given by a fixed set of base regions and the
  unmapped policy, and the end of the chunk an address lies in. The bridge implements it
  whatever zero pages it has mapped so far: zero pages are invisible to the callbacks.
\<close>

section \<open>Zero-page extensions of a set of regions\<close>

definition page_end :: "int \<Rightarrow> int \<Rightarrow> int" where
  "page_end page a = (a div page + 1) * page"

definition hole_end :: "int \<Rightarrow> guest_region set \<Rightarrow> int \<Rightarrow> int" where
  "hole_end page R a = Min (insert (page_end page a) {gr_base s | s. s \<in> R \<and> a < gr_base s})"

text \<open>
  The regions of the memory are the base regions and zero regions in whole pages: each zero
  region ends at its page or at a base region, and a page with a zero region has no hole left.
\<close>

definition zero_ext :: "int \<Rightarrow> guest_region set \<Rightarrow> guest_memory \<Rightarrow> bool" where
  "zero_ext page R m \<longleftrightarrow> mem_wf m \<and> R \<subseteq> set (gm_regions m)
     \<and> (\<forall>r \<in> set (gm_regions m) - R. gr_permissions r = ''rw''
          \<and> gr_end r \<le> page_end page (gr_base r)
          \<and> (gr_end r = page_end page (gr_base r) \<or> (\<exists>s \<in> R. gr_base s = gr_end r))
          \<and> (\<forall>a. a div page = gr_base r div page \<longrightarrow> mapped m a))"

lemma zero_ext_refl: "mem_wf m \<Longrightarrow> zero_ext page (set (gm_regions m)) m"
  by (simp add: zero_ext_def)

lemma page_end_cong: "a div page = b div page \<Longrightarrow> page_end page a = page_end page b"
  by (simp add: page_end_def)

lemma page_end_bounds:
  assumes "0 < page"
  shows "a < page_end page a" and "b < page_end page a \<Longrightarrow> a \<le> b \<Longrightarrow> b div page = a div page"
proof -
  have a: "a div page * page \<le> a" "a < a div page * page + page"
    using int_div_eq_iff [OF assms, of a "a div page"] by simp_all
  then show "a < page_end page a" by (simp add: page_end_def distrib_right)
  show "b < page_end page a \<Longrightarrow> a \<le> b \<Longrightarrow> b div page = a div page"
    using a by (subst int_div_eq_iff [OF assms]) (auto simp: page_end_def distrib_right)
qed

lemma zero_ext_finite: "zero_ext page R m \<Longrightarrow> finite R"
  by (auto simp: zero_ext_def intro: finite_subset)

text \<open>A zero region ends where the hole of the base regions ends.\<close>

lemma zero_region_end:
  assumes pg: "0 < page" and z: "zero_ext page R m" and r: "r \<in> set (gm_regions m) - R" and a: "in_region r a"
  shows "gr_end r = hole_end page R a"
proof -
  have wf: "regions_wf (gm_regions m)" using z by (simp add: zero_ext_def mem_wf_def)
  have le: "gr_end r \<le> page_end page (gr_base r)" and
    at: "gr_end r = page_end page (gr_base r) \<or> (\<exists>s \<in> R. gr_base s = gr_end r)"
    using z r by (auto simp: zero_ext_def)
  have pe: "page_end page a = page_end page (gr_base r)"
    using page_end_bounds(2) [OF pg, of a "gr_base r"] a le by (intro page_end_cong) (auto simp: in_region_def)
  have above: "gr_end r \<le> gr_base s" if "s \<in> R" "a < gr_base s" for s
  proof (rule ccontr)
    assume "\<not> gr_end r \<le> gr_base s"
    then have "in_region r (gr_base s)" using a that(2) by (simp add: in_region_def)
    moreover have "in_region s (gr_base s)" "s \<in> set (gm_regions m)"
      using that(1) z wf region_ok_base_lt_end by (auto simp: zero_ext_def in_region_def regions_wf_def)
    ultimately have "s = r" using regions_wf_disjoint [OF wf] r by blast
    with that(1) r show False by simp
  qed
  have fin: "finite (insert (page_end page a) {gr_base s | s. s \<in> R \<and> a < gr_base s})"
    using zero_ext_finite [OF z] by simp
  show ?thesis unfolding hole_end_def
  proof (rule Min_eqI [symmetric, OF fin])
    show "gr_end r \<le> y" if "y \<in> insert (page_end page a) {gr_base s | s. s \<in> R \<and> a < gr_base s}" for y
      using that above le pe by auto
    show "gr_end r \<in> insert (page_end page a) {gr_base s | s. s \<in> R \<and> a < gr_base s}"
      using at pe a by (force simp: in_region_def)
  qed
qed

lemma zero_ext_touched:
  assumes pg: "0 < page" and z: "zero_ext page R m" and t: "touched page a m m'"
  shows "zero_ext page R m'"
proof (cases "mapped m a")
  case False
  let ?b = "a - a mod page"
  have zf: "zero_filled ?b (?b + page) m m'" using t False by (simp add: touched_def)
  have b: "?b = a div page * page" by (simp add: minus_mod_eq_div_mult)
  have inpage: "?b \<le> x \<and> x < ?b + page \<longleftrightarrow> x div page = a div page" for x
    unfolding b by (simp add: int_div_eq_iff [OF pg, of x])
  have new: "gr_permissions r = ''rw'' \<and> gr_end r \<le> page_end page (gr_base r)
      \<and> (gr_end r = page_end page (gr_base r) \<or> (\<exists>s \<in> R. gr_base s = gr_end r))
      \<and> gr_base r div page = a div page"
    if r: "r \<in> set (gm_regions m')" "r \<notin> set (gm_regions m)" for r
  proof -
    have zr: "zero_region ?b (?b + page) (gm_regions m) r" and "region_ok r"
      using zf r by (auto simp: zero_filled_def mem_wf_def regions_wf_def)
    then have lo: "?b \<le> gr_base r" "gr_base r < gr_end r" "gr_end r \<le> ?b + page"
      by (auto simp: zero_region_def region_ok_base_lt_end)
    then have dv: "gr_base r div page = a div page" using inpage [of "gr_base r"] by simp
    then have pe: "page_end page (gr_base r) = ?b + page" by (simp add: page_end_def b distrib_right)
    have "gr_end r = ?b + page \<or> (\<exists>s \<in> R. gr_base s = gr_end r)"
    proof (rule ccontr)
      assume c: "\<not> ?thesis"
      then obtain s where s: "s \<in> set (gm_regions m) - R" "gr_base s = gr_end r"
        using zr by (auto simp: zero_region_def)
      with c lo have "gr_base s div page = a div page" using inpage [of "gr_base s"] by simp
      with s(1) z have "mapped m a" by (auto simp: zero_ext_def)
      with False show False by simp
    qed
    with zr pe lo dv show ?thesis by (auto simp: zero_region_def)
  qed
  have mp: "mapped m' x \<longleftrightarrow> mapped m x \<or> x div page = a div page" for x
    using zf inpage [of x] by (auto simp: zero_filled_def)
  show ?thesis
    unfolding zero_ext_def
  proof (intro conjI ballI allI impI)
    show "mem_wf m'" "R \<subseteq> set (gm_regions m')" using zf z by (auto simp: zero_filled_def zero_ext_def)
    fix r assume r: "r \<in> set (gm_regions m') - R"
    show "gr_permissions r = ''rw''" "gr_end r \<le> page_end page (gr_base r)"
      "gr_end r = page_end page (gr_base r) \<or> (\<exists>s \<in> R. gr_base s = gr_end r)"
      using r new [of r] z by (auto simp: zero_ext_def)
    show "mapped m' x" if "x div page = gr_base r div page" for x
      using that r new [of r] z mp by (auto simp: zero_ext_def)
  qed
qed (use t z in \<open>simp add: touched_def\<close>)


section \<open>The flat memory\<close>

text \<open>Where the chunk that starts at an accessible address ends.\<close>

definition chunk_end :: "int \<Rightarrow> guest_region set \<Rightarrow> int \<Rightarrow> int" where
  "chunk_end page R a =
     (if \<exists>r \<in> R. in_region r a then gr_end (THE r. r \<in> R \<and> in_region r a) else hole_end page R a)"

definition flat_bytes :: "(int \<Rightarrow> int) \<Rightarrow> int \<Rightarrow> int \<Rightarrow> byte list" where
  "flat_bytes f a n = map (\<lambda>i. word_of_int (f (a + int i))) [0..<nat n]"

definition flat_ops :: "int \<Rightarrow> guest_region set \<Rightarrow> bool \<Rightarrow> (int \<Rightarrow> int) mem_ops" where
  "flat_ops page R zero =
     \<lparr>mo_read = (\<lambda>a f. if byte_ok R zero a CHR ''r'' then (Inr (f a), f)
                       else (Inl (MemoryAccessError ''r'' a 1 ''denied''), f)),
      mo_chunk = (\<lambda>a n f. if n \<le> 0 then (Inl (ValueError ''memory chunk size must be positive''), f)
                          else if byte_ok R zero a CHR ''r''
                          then (Inr (flat_bytes f a (min n (chunk_end page R a - a))), f)
                          else (Inl (MemoryAccessError ''r'' a n ''denied''), f)),
      mo_write = (\<lambda>a v f. if \<not> is_byte v then (Inl (ValueError ''memory value must fit in one byte''), f)
                          else if byte_ok R zero a CHR ''w'' then (Inr (), f(a := v))
                          else (Inl (MemoryAccessError ''w'' a 1 ''denied''), f))\<rparr>"

text \<open>The bridge holds the flat memory \<open>f\<close> over the base regions \<open>R\<close>.\<close>

definition bridge_abs :: "int \<Rightarrow> guest_region set \<Rightarrow> bool \<Rightarrow> (int \<Rightarrow> int) \<Rightarrow> 'w host_bridge \<Rightarrow> bool" where
  "bridge_abs page R zero f h \<longleftrightarrow> bridge_wf h \<and> hb_worker h = None \<and> hb_page_size h = page
     \<and> zero = (hb_unmapped_policy h = ''zero'') \<and> zero_ext page R (hb_memory h)
     \<and> (zero \<or> set (gm_regions (hb_memory h)) = R) \<and> mem_val (hb_memory h) = f"

lemma bridge_abs_init:
  "bridge_wf h \<Longrightarrow> hb_worker h = None \<Longrightarrow>
   bridge_abs (hb_page_size h) (set (gm_regions (hb_memory h))) (hb_unmapped_policy h = ''zero'')
     (mem_val (hb_memory h)) h"
  by (simp add: bridge_abs_def zero_ext_refl bridge_wf_def)

lemma bridge_abs_page: "bridge_abs page R zero f h \<Longrightarrow> 0 < page"
  by (auto simp: bridge_abs_def bridge_wf_def)

lemma bridge_abs_ok:
  assumes "bridge_abs page R zero f h" and "p = CHR ''r'' \<or> p = CHR ''w''"
  shows "host_ok h a p \<longleftrightarrow> byte_ok R zero a p"
proof -
  have "byte_ok (set (gm_regions (hb_memory h))) zero a p \<longleftrightarrow> byte_ok R zero a p"
    by (rule byte_ok_extension) (use assms in \<open>auto simp: bridge_abs_def zero_ext_def\<close>)
  with assms(1) show ?thesis by (simp add: host_ok_def bridge_abs_def)
qed

lemma bridge_abs_touched:
  assumes b: "bridge_abs page R zero f h" and t: "touched page a (hb_memory h) m'"
    and ok: "zero \<or> mapped (hb_memory h) a"
  shows "bridge_abs page R zero f (h\<lparr>hb_memory := m'\<rparr>)"
proof -
  have pg: "0 < page" using b by (rule bridge_abs_page)
  have z: "zero_ext page R m'"
    by (rule zero_ext_touched [OF pg _ t]) (use b in \<open>simp add: bridge_abs_def\<close>)
  have "zero \<or> set (gm_regions m') = R" using b ok t by (auto simp: bridge_abs_def touched_def)
  moreover have "mem_wf m'" using z by (simp add: zero_ext_def)
  ultimately show ?thesis
    using b z touched_val [OF t] by (auto simp: bridge_abs_def bridge_wf_def)
qed

lemma host_ok_mapped: "host_ok h a p \<Longrightarrow> hb_unmapped_policy h = ''zero'' \<or> mapped (hb_memory h) a"
  by (auto elim!: host_ok_cases)

lemma chunk_end_region:
  assumes pg: "0 < page" and z: "zero_ext page R m" and r: "r \<in> set (gm_regions m)" "in_region r a"
  shows "gr_end r = chunk_end page R a"
proof -
  have wf: "regions_wf (gm_regions m)" and sub: "R \<subseteq> set (gm_regions m)"
    using z by (auto simp: zero_ext_def mem_wf_def)
  have u: "s = r" if "s \<in> R" "in_region s a" for s
    using regions_wf_disjoint [OF wf _ r(1) that(2) r(2)] that(1) sub by blast
  show ?thesis
  proof (cases "r \<in> R")
    case True
    then have "(THE r. r \<in> R \<and> in_region r a) = r" using r(2) u by blast
    with True r(2) show ?thesis by (auto simp: chunk_end_def)
  next
    case False
    then have "\<not> (\<exists>s \<in> R. in_region s a)" using u by blast
    with zero_region_end [OF pg z _ r(2)] r(1) False show ?thesis by (simp add: chunk_end_def)
  qed
qed

text \<open>Zero regions elsewhere do not move the end of an unmapped hole.\<close>

lemma hole_end_ext:
  assumes pg: "0 < page" and z: "zero_ext page R m" and un: "\<not> mapped m a"
  shows "hole_end page (set (gm_regions m)) a = hole_end page R a"
proof -
  let ?A = "insert (page_end page a) {gr_base s | s. s \<in> R \<and> a < gr_base s}"
  have finA: "finite ?A" using zero_ext_finite [OF z] by simp
  have "hole_end page R a \<le> gr_base s" if s: "s \<in> set (gm_regions m)" "a < gr_base s" for s
  proof (cases "s \<in> R")
    case True
    with s finA show ?thesis unfolding hole_end_def by (intro Min_le) auto
  next
    case False
    then have "gr_base s div page \<noteq> a div page" using s(1) z un by (auto simp: zero_ext_def)
    then have "page_end page a \<le> gr_base s" using page_end_bounds(2) [OF pg, of "gr_base s" a] s(2) by force
    moreover have "hole_end page R a \<le> page_end page a" unfolding hole_end_def using finA by (intro Min_le) auto
    ultimately show ?thesis by simp
  qed
  moreover have "hole_end page R a \<in> ?A" unfolding hole_end_def using finA by (intro Min_in) auto
  moreover have "R \<subseteq> set (gm_regions m)" using z by (simp add: zero_ext_def)
  moreover have "hole_end page R a \<le> page_end page a" unfolding hole_end_def using finA by (intro Min_le) auto
  ultimately show ?thesis
    unfolding hole_end_def [of page "set (gm_regions m)"] by (intro Min_eqI) auto
qed

lemma hole_end_gt: "0 < page \<Longrightarrow> finite R \<Longrightarrow> a < hole_end page R a"
  unfolding hole_end_def by (subst Min_gr_iff) (auto simp: page_end_bounds(1))

text \<open>Every callback of the flat memory that succeeds, succeeds on the bridge with the same answer.\<close>

lemma bridge_read_refines:
  assumes b: "bridge_abs page R zero f h" and ok: "byte_ok R zero a CHR ''r''"
  shows "\<exists>h'. host_read_byte a h = (Inr (f a), h') \<and> bridge_abs page R zero f h'"
proof -
  have ok': "host_ok h a CHR ''r''" using bridge_abs_ok [OF b] ok by blast
  have c: "bridge_wf h" "hb_worker h = None" "hb_page_size h = page" "mem_val (hb_memory h) = f"
    "zero = (hb_unmapped_policy h = ''zero'')"
    using b by (auto simp: bridge_abs_def)
  from host_read_byte_ok [OF c(1,2) ok'] c(3,4) obtain m'
    where "host_read_byte a h = (Inr (f a), h\<lparr>hb_memory := m'\<rparr>)" "touched page a (hb_memory h) m'" by auto
  with bridge_abs_touched [OF b] host_ok_mapped [OF ok'] c(5) show ?thesis by blast
qed

lemma bridge_chunk_refines:
  assumes b: "bridge_abs page R zero f h" and ok: "byte_ok R zero a CHR ''r''" and n: "0 < n"
  shows "\<exists>h'. host_read_chunk a n h = (Inr (flat_bytes f a (min n (chunk_end page R a - a))), h')
    \<and> bridge_abs page R zero f h'"
proof -
  have ok': "host_ok h a CHR ''r''" using bridge_abs_ok [OF b] ok by blast
  have c: "bridge_wf h" "hb_worker h = None" "hb_page_size h = page" "zero = (hb_unmapped_policy h = ''zero'')"
    using b by (auto simp: bridge_abs_def)
  from host_read_chunk_ok [OF c(1,2) ok' n] c(3) obtain m' r
    where h': "host_read_chunk a n h = (Inr (mem_bytes m' a (min n (gr_end r - a))), h\<lparr>hb_memory := m'\<rparr>)"
    and t: "touched page a (hb_memory h) m'" and r: "r \<in> set (gm_regions m')" "in_region r a" by auto
  have b': "bridge_abs page R zero f (h\<lparr>hb_memory := m'\<rparr>)"
    using bridge_abs_touched [OF b t] host_ok_mapped [OF ok'] c(4) by blast
  have "gr_end r = chunk_end page R a"
    by (rule chunk_end_region [OF bridge_abs_page [OF b] _ r]) (use b' in \<open>simp add: bridge_abs_def\<close>)
  moreover have "mem_bytes m' a k = flat_bytes f a k" for k
    using b' by (simp add: mem_bytes_def flat_bytes_def bridge_abs_def)
  ultimately show ?thesis using h' b' by auto
qed

lemma zero_ext_apply_write:
  assumes "zero_ext page R m" and "mapped m a"
  shows "zero_ext page R (apply_write m (a, [w]))"
  using assms mem_wf_apply_byte by (simp add: zero_ext_def)

lemma bridge_write_refines:
  assumes b: "bridge_abs page R zero f h" and ok: "byte_ok R zero a CHR ''w''" and v: "is_byte v"
  shows "\<exists>h'. host_write_byte a v h = (Inr (), h') \<and> bridge_abs page R zero (f(a := v)) h'"
proof -
  have ok': "host_ok h a CHR ''w''" using bridge_abs_ok [OF b] ok by blast
  have c: "bridge_wf h" "hb_worker h = None" "hb_page_size h = page" "zero = (hb_unmapped_policy h = ''zero'')"
    using b by (auto simp: bridge_abs_def)
  from host_write_byte_ok [OF c(1,2) ok' v] c(3) obtain m'
    where h': "host_write_byte a v h = (Inr (), h\<lparr>hb_memory := apply_write m' (a, [word_of_int v]),
      hb_generation := hb_generation h + 1\<rparr>)"
    and t: "touched page a (hb_memory h) m'" and mp: "mapped m' a" by auto
  have b': "bridge_abs page R zero f (h\<lparr>hb_memory := m'\<rparr>)"
    using bridge_abs_touched [OF b t] host_ok_mapped [OF ok'] c(4) by blast
  have "mem_val (apply_write m' (a, [word_of_int v])) = f(a := v)"
    using b' v by (auto simp: fun_eq_iff mem_val_apply_write bridge_abs_def is_byte_def uint_word_of_int_byte)
  moreover have "zero_ext page R (apply_write m' (a, [word_of_int v]))"
    using b' mp by (intro zero_ext_apply_write) (simp_all add: bridge_abs_def)
  ultimately show ?thesis
    using h' b' by (auto simp: bridge_abs_def bridge_wf_def zero_ext_def)
qed

definition bridge_ops :: "'w host_bridge mem_ops" where
  "bridge_ops = \<lparr>mo_read = host_read_byte, mo_chunk = host_read_chunk, mo_write = host_write_byte\<rparr>"

interpretation bridge_sim:
  callback_simulation "flat_ops page R zero" bridge_ops "bridge_abs page R zero" "\<lambda>_. True"
  for page R zero
proof unfold_locales
  fix a f v f' h
  assume "mo_read (flat_ops page R zero) a f = (Inr v, f')" "bridge_abs page R zero f (h :: 'a host_bridge)"
  then show "\<exists>h'. mo_read bridge_ops a h = (Inr v, h') \<and> bridge_abs page R zero f' h'"
    using bridge_read_refines by (auto simp: flat_ops_def bridge_ops_def split: if_splits)
next
  fix a n f bs f' h
  assume "mo_chunk (flat_ops page R zero) a n f = (Inr bs, f')" "bridge_abs page R zero f (h :: 'a host_bridge)"
  then show "\<exists>h'. mo_chunk bridge_ops a n h = (Inr bs, h') \<and> bridge_abs page R zero f' h'"
    using bridge_chunk_refines [of page R zero f h a n]
    by (auto simp: flat_ops_def bridge_ops_def not_le split: if_splits)
next
  fix a w f u f' h
  assume "mo_write (flat_ops page R zero) a w f = (Inr u, f')" "bridge_abs page R zero f (h :: 'a host_bridge)"
  then show "\<exists>h'. mo_write bridge_ops a w h = (Inr u, h') \<and> bridge_abs page R zero f' h'"
    using bridge_write_refines by (auto simp: flat_ops_def bridge_ops_def split: if_splits)
qed simp_all

end
