(* ===== verification/Parallel_Memory.thy ===== *)
theory Parallel_Memory
  imports Flat_Memory
begin

text \<open>
  The transactional memory views of one parallel multi-PE round,
  \<open>asl_model/runtime/parallel_memory.py\<close>. Every view reads the same snapshot of the bridge and
  overlays its own writes; the coordinator commits the buffered writes in PE order unless a
  later PE read an address an earlier PE wrote.

  A view holds a reference to its coordinator and the coordinator to the bridge; here a view
  operation takes the coordinator, and the commit takes the bridge.
\<close>

section \<open>Views and coordinator\<close>

record parallel_view =
  pv_pe_id :: int
  pv_reads :: "int set"
  pv_writes :: "(int, int) dict"
  pv_closed :: bool

definition ParallelMemoryView :: "int \<Rightarrow> parallel_view" where
  "ParallelMemoryView pe_id = \<lparr>pv_pe_id = pe_id, pv_reads = {}, pv_writes = [], pv_closed = False\<rparr>"

record coordinator =
  pc_snapshot :: memory_snapshot
  pc_snapshot_bytes :: "(int, int) dict"
  pc_regions :: "guest_region list"
  pc_unmapped_policy :: string   \<comment> \<open>\<open>self.bridge.unmapped_policy\<close>, never assigned after construction\<close>
  pc_initial_generation :: int
  pc_views :: "(int, parallel_view) dict"
  pc_closed :: bool

definition ParallelMemoryCoordinator :: "'w host_bridge \<Rightarrow> coordinator" where
  "ParallelMemoryCoordinator h =
     (let s = host_snapshot h in
      \<lparr>pc_snapshot = s, pc_snapshot_bytes = dict_of (ms_bytes_by_address s), pc_regions = ms_regions s,
       pc_unmapped_policy = hb_unmapped_policy h, pc_initial_generation = hb_generation h,
       pc_views = [], pc_closed = False\<rparr>)"

definition write_addresses :: "parallel_view \<Rightarrow> int set" where
  "write_addresses v = set (map fst (pv_writes v))"

definition buffered_writes :: "parallel_view \<Rightarrow> (int \<times> int) list" where
  "buffered_writes v = sort (pv_writes v)"

definition pc_check_open :: "coordinator \<Rightarrow> unit res" where
  "pc_check_open c = (if pc_closed c then Inl (RuntimeError ''parallel memory round is closed'') else Inr ())"

definition view_check_open :: "coordinator \<Rightarrow> parallel_view \<Rightarrow> unit res" where
  "view_check_open c v =
     (if pv_closed v \<or> pc_closed c then Inl (RuntimeError ''parallel memory view is closed'') else Inr ())"

definition coordinator_view :: "int \<Rightarrow> coordinator \<Rightarrow> coordinator res" where
  "coordinator_view pe_id c =
     rbind (pc_check_open c) (\<lambda>_.
       if pe_id < 0 then Inl (ValueError ''PE id must be a non-negative integer'')
       else if map_of (pc_views c) pe_id \<noteq> None then Inl (ValueError ''PE already has a memory view'')
       else Inr (c\<lparr>pc_views := AList.update pe_id (ParallelMemoryView pe_id) (pc_views c)\<rparr>))"

definition check_access :: "coordinator \<Rightarrow> int \<Rightarrow> char \<Rightarrow> guest_region option res" where
  "check_access c address permission =
     (if address < 0 then Inl (MemoryAccessError [permission] address 1 ''invalid address range'')
      else
        (case find (\<lambda>r. gr_base r \<le> address \<and> address < gr_end r) (pc_regions c) of
           Some r \<Rightarrow> if permission \<notin> set (gr_permissions r)
                     then Inl (MemoryAccessError [permission] address 1 ''permission denied'')
                     else Inr (Some r)
         | None \<Rightarrow> if pc_unmapped_policy c = ''zero'' then Inr None
                    else Inl (MemoryAccessError [permission] address 1 ''unmapped address'')))"

definition read_snapshot_byte :: "coordinator \<Rightarrow> int \<Rightarrow> int res" where
  "read_snapshot_byte c address =
     rbind (check_access c address CHR ''r'') (\<lambda>_. Inr (dict_get (pc_snapshot_bytes c) address 0))"

definition py_min_default :: "int list \<Rightarrow> int \<Rightarrow> int" where
  "py_min_default xs d = (case xs of [] \<Rightarrow> d | y # ys \<Rightarrow> fold min ys y)"

definition readable_chunk_size :: "coordinator \<Rightarrow> int \<Rightarrow> int \<Rightarrow> int res" where
  "readable_chunk_size c address sz =
     rbind (check_access c address CHR ''r'') (\<lambda>region.
       case region of
         Some r \<Rightarrow> Inr (min sz (gr_end r - address))
       | None \<Rightarrow>
           let page_end = (address AND NOT 4095) + 4096;
               next_region = py_min_default
                 (map gr_base (filter (\<lambda>r. gr_base r > address) (pc_regions c))) page_end
           in Inr (min sz (max 1 (min page_end next_region - address))))"

section \<open>View operations\<close>

definition view_read_byte :: "coordinator \<Rightarrow> int \<Rightarrow> (parallel_view, int) act" where
  "view_read_byte c address v =
     (case view_check_open c v of
        Inl e \<Rightarrow> (Inl e, v)
      | Inr _ \<Rightarrow>
          (case read_snapshot_byte c address of
             Inl e \<Rightarrow> (Inl e, v)
           | Inr x \<Rightarrow> (Inr (dict_get (pv_writes v) address x), v\<lparr>pv_reads := insert address (pv_reads v)\<rparr>)))"

definition view_read_chunk :: "coordinator \<Rightarrow> int \<Rightarrow> int \<Rightarrow> (parallel_view, byte list) act" where
  "view_read_chunk c address sz v =
     (if sz \<le> 0 then (Inl (ValueError ''memory chunk size must be positive''), v)
      else
        (case readable_chunk_size c address sz of
           Inl e \<Rightarrow> (Inl e, v)
         | Inr n \<Rightarrow>
             (case amap (\<lambda>i. view_read_byte c (address + int i)) [0..<nat n] v of
                (Inl e, v') \<Rightarrow> (Inl e, v')
              | (Inr xs, v') \<Rightarrow> (py_bytes xs, v'))))"

definition view_write_byte :: "coordinator \<Rightarrow> int \<Rightarrow> int \<Rightarrow> (parallel_view, unit) act" where
  "view_write_byte c address x v =
     (case view_check_open c v of
        Inl e \<Rightarrow> (Inl e, v)
      | Inr _ \<Rightarrow>
          if \<not> (0 \<le> x \<and> x \<le> 255) then (Inl (ValueError ''memory value must fit in one byte''), v)
          else
            (case check_access c address CHR ''w'' of
               Inl e \<Rightarrow> (Inl e, v)
             | Inr _ \<Rightarrow> (Inr (), v\<lparr>pv_writes := AList.update address x (pv_writes v)\<rparr>)))"

fun view_write_chunk :: "coordinator \<Rightarrow> int \<Rightarrow> byte list \<Rightarrow> (parallel_view, unit) act" where
  "view_write_chunk c address [] v = (Inr (), v)"
| "view_write_chunk c address (b # bs) v =
     (case view_write_byte c address (uint b) v of
        (Inl e, v') \<Rightarrow> (Inl e, v')
      | (Inr _, v') \<Rightarrow> view_write_chunk c (address + 1) bs v')"

definition view_close :: "bool \<Rightarrow> parallel_view \<Rightarrow> parallel_view" where
  "view_close discard v = v\<lparr>pv_writes := (if discard then [] else pv_writes v), pv_closed := True\<rparr>"

section \<open>Commit and rollback\<close>

definition sorted_views :: "coordinator \<Rightarrow> parallel_view list" where
  "sorted_views c = map (\<lambda>pe. the (map_of (pc_views c) pe)) (sort (map fst (pc_views c)))"

text \<open>\<open>for address in view.write_addresses: prior_writers.setdefault(address, pe_id)\<close>\<close>

definition set_default :: "int \<Rightarrow> int \<Rightarrow> (int, int) dict \<Rightarrow> (int, int) dict" where
  "set_default pe a prior = (if map_of prior a = None then AList.update a pe prior else prior)"

definition note_writers :: "parallel_view \<Rightarrow> (int, int) dict \<Rightarrow> (int, int) dict" where
  "note_writers v prior = fold (set_default (pv_pe_id v)) (map fst (pv_writes v)) prior"

definition conflict_addresses :: "parallel_view \<Rightarrow> (int, int) dict \<Rightarrow> int list" where
  "conflict_addresses v prior = filter (\<lambda>a. a \<in> pv_reads v) (map fst prior)"

text \<open>The conflict that is reported: the lowest writer among the conflicting addresses.\<close>

definition view_conflict :: "parallel_view \<Rightarrow> (int, int) dict \<Rightarrow> py_error" where
  "view_conflict v prior =
     (let conflicts = conflict_addresses v prior;
          writer = py_min_default (map (\<lambda>a. dict_get prior a 0) conflicts) 0
      in ParallelMemoryConflict (Some writer) (Some (pv_pe_id v))
           (sort (remdups (filter (\<lambda>a. map_of prior a = Some writer) conflicts))))"

fun check_conflicts :: "parallel_view list \<Rightarrow> (int, int) dict \<Rightarrow> unit res" where
  "check_conflicts [] prior = Inr ()"
| "check_conflicts (v # vs) prior =
     (if conflict_addresses v prior \<noteq> [] then Inl (view_conflict v prior)
      else check_conflicts vs (note_writers v prior))"

fun commit_bytes :: "int \<Rightarrow> (int \<times> int) list \<Rightarrow> ('w host_bridge, (int \<times> int \<times> int) list) act" where
  "commit_bytes pe [] h = (Inr [], h)"
| "commit_bytes pe ((a, x) # ws) h =
     (case host_write_byte a x h of
        (Inl e, h') \<Rightarrow> (Inl e, h')
      | (Inr _, h') \<Rightarrow>
          (case commit_bytes pe ws h' of
             (Inl e, h'') \<Rightarrow> (Inl e, h'')
           | (Inr cs, h'') \<Rightarrow> (Inr ((pe, a, x) # cs), h'')))"

fun commit_views :: "parallel_view list \<Rightarrow> ('w host_bridge, (int \<times> int \<times> int) list) act" where
  "commit_views [] h = (Inr [], h)"
| "commit_views (v # vs) h =
     (case commit_bytes (pv_pe_id v) (buffered_writes v) h of
        (Inl e, h') \<Rightarrow> (Inl e, h')
      | (Inr cs, h') \<Rightarrow>
          (case commit_views vs h' of
             (Inl e, h'') \<Rightarrow> (Inl e, h'')
           | (Inr ds, h'') \<Rightarrow> (Inr (cs @ ds), h'')))"

definition close_all :: "bool \<Rightarrow> coordinator \<Rightarrow> coordinator" where
  "close_all discard c =
     c\<lparr>pc_views := map (\<lambda>(pe, v). (pe, view_close discard v)) (pc_views c), pc_closed := True\<rparr>"

definition coordinator_commit ::
  "coordinator \<Rightarrow> 'w host_bridge \<Rightarrow> (int \<times> int \<times> int) list res \<times> coordinator \<times> 'w host_bridge" where
  "coordinator_commit c h =
     (case pc_check_open c of
        Inl e \<Rightarrow> (Inl e, c, h)
      | Inr _ \<Rightarrow>
          if hb_generation h \<noteq> pc_initial_generation c then (Inl (ParallelMemoryConflict None None []), c, h)
          else
            (case check_conflicts (sorted_views c) [] of
               Inl e \<Rightarrow> (Inl e, c, h)
             | Inr _ \<Rightarrow>
                 (case commit_views (sorted_views c) h of
                    (Inl e, h') \<Rightarrow> (Inl e, c, h')
                  | (Inr cs, h') \<Rightarrow> (Inr cs, close_all False c, h'))))"

definition coordinator_rollback :: "coordinator \<Rightarrow> coordinator res" where
  "coordinator_rollback c = rbind (pc_check_open c) (\<lambda>_. Inr (close_all True c))"

section \<open>Running a round\<close>

text \<open>The callbacks of a view.\<close>

definition view_ops :: "coordinator \<Rightarrow> parallel_view mem_ops" where
  "view_ops c = \<lparr>mo_read = view_read_byte c, mo_chunk = view_read_chunk c, mo_write = view_write_byte c\<rparr>"


section \<open>Lemmas: a view is a flat memory\<close>

text \<open>The coordinator holds a snapshot of the flat memory \<open>f0\<close> over the base regions \<open>R\<close>.\<close>

definition coord_ok :: "coordinator \<Rightarrow> guest_region set \<Rightarrow> bool \<Rightarrow> (int \<Rightarrow> int) \<Rightarrow> bool" where
  "coord_ok c R zero f0 \<longleftrightarrow> (\<exists>m. zero_ext 4096 R m \<and> (zero \<or> set (gm_regions m) = R)
     \<and> pc_regions c = gm_regions m \<and> zero = (pc_unmapped_policy c = ''zero'')
     \<and> (\<forall>a. dict_get (pc_snapshot_bytes c) a 0 = f0 a))"

lemma coord_ok_init:
  assumes "bridge_abs 4096 R zero f h"
  shows "coord_ok (ParallelMemoryCoordinator h) R zero f"
proof -
  let ?m = "hb_memory h"
  have "mem_wf ?m" using assms by (simp add: bridge_abs_def bridge_wf_def)
  then have "map_of (dict_of (sort (gm_bytes ?m))) = map_of (gm_bytes ?m)"
    using map_of_restore_snapshot [of ?m ?m] by (simp add: guest_restore_def guest_snapshot_def)
  then have "dict_get (dict_of (sort (gm_bytes ?m))) a 0 = f a" for a
    using assms by (auto simp: dict_get_def mem_val_def bridge_abs_def)
  then show ?thesis
    using assms unfolding coord_ok_def
    by (intro exI [of _ ?m])
      (auto simp: bridge_abs_def ParallelMemoryCoordinator_def host_snapshot_def guest_snapshot_def Let_def)
qed

lemma coord_ok_views [simp]: "coord_ok (c\<lparr>pc_views := vs\<rparr>) R zero f0 = coord_ok c R zero f0"
  by (simp add: coord_ok_def)

lemma check_access_cases:
  assumes c: "coord_ok c R zero f0" and ok: "check_access c a p = Inr q" and p: "p = CHR ''r'' \<or> p = CHR ''w''"
  obtains m where "zero_ext 4096 R m" "pc_regions c = gm_regions m" "byte_ok R zero a p"
    "case q of None \<Rightarrow> \<not> mapped m a | Some r \<Rightarrow> r \<in> set (gm_regions m) \<and> in_region r a"
proof -
  from c obtain m where m: "zero_ext 4096 R m" "zero \<or> set (gm_regions m) = R" "pc_regions c = gm_regions m"
    "zero = (pc_unmapped_policy c = ''zero'')" by (auto simp: coord_ok_def)
  have *: "byte_ok (set (gm_regions m)) zero a p \<and>
      (case q of None \<Rightarrow> \<not> mapped m a | Some r \<Rightarrow> r \<in> set (gm_regions m) \<and> in_region r a)"
  proof (cases "find (\<lambda>r. gr_base r \<le> a \<and> a < gr_end r) (gm_regions m)")
    case None
    then have "\<not> (\<exists>r \<in> set (gm_regions m). in_region r a)" by (auto simp: find_None_iff in_region_def)
    with None ok m show ?thesis
      by (auto simp: check_access_def byte_ok_def mapped_def split: if_splits)
  next
    case (Some r)
    then have "r \<in> set (gm_regions m)" "in_region r a" by (auto dest: find_SomeD simp: in_region_def)
    moreover have "q = Some r" "p \<in> set (gr_permissions r)"
      using Some ok m(3) unfolding check_access_def by (auto split: if_splits)
    ultimately show ?thesis by (auto simp: byte_ok_def)
  qed
  then have "byte_ok R zero a p"
    using byte_ok_extension [of m R p zero a] m p by (auto simp: zero_ext_def)
  with m * show thesis using that by blast
qed

lemma py_min_default_Min: "min d (py_min_default xs d) = Min (insert d (set xs))"
proof (cases xs)
  case (Cons y ys)
  then have "py_min_default xs d = Min (set xs)"
    by (simp only: py_min_default_def list.case Min.set_eq_fold)
  with Cons show ?thesis by simp
qed (simp add: py_min_default_def)

lemma readable_chunk_size_flat:
  assumes c: "coord_ok c R zero f0" and sz: "readable_chunk_size c a n = Inr k"
  shows "byte_ok R zero a CHR ''r'' \<and> k = min n (chunk_end 4096 R a - a)"
proof -
  from sz obtain q where q: "check_access c a CHR ''r'' = Inr q" by (auto simp: readable_chunk_size_def res_simps)
  from check_access_cases [OF c q] obtain m where m: "zero_ext 4096 R m" "pc_regions c = gm_regions m"
    "byte_ok R zero a CHR ''r''"
    "case q of None \<Rightarrow> \<not> mapped m a | Some r \<Rightarrow> r \<in> set (gm_regions m) \<and> in_region r a" by blast
  show ?thesis
  proof (cases q)
    case (Some r)
    with m(4) chunk_end_region [OF _ m(1), of r a] have "gr_end r = chunk_end 4096 R a" by simp
    with Some sz q m(3) show ?thesis by (simp add: readable_chunk_size_def)
  next
    case None
    with m(4) have un: "\<not> mapped m a" by simp
    have pe: "(a AND - 4096) + 4096 = page_end 4096 a"
      using and_not_pred_pow2 [of a 12] by (simp add: page_end_def minus_mod_eq_div_mult distrib_right)
    have "min (page_end 4096 a) (py_min_default (map gr_base (filter (\<lambda>r. gr_base r > a) (pc_regions c))) (page_end 4096 a))
        = hole_end 4096 (set (gm_regions m)) a"
      unfolding py_min_default_Min hole_end_def m(2) by (intro arg_cong [where f = Min]) auto
    also have "\<dots> = chunk_end 4096 R a"
    proof -
      have "\<not> (\<exists>r \<in> R. in_region r a)" using un m(1) by (auto simp: mapped_def zero_ext_def)
      then show ?thesis using hole_end_ext [OF _ m(1) un] by (simp add: chunk_end_def)
    qed
    finally have e: "min (page_end 4096 a)
        (py_min_default (map gr_base (filter (\<lambda>r. gr_base r > a) (pc_regions c))) (page_end 4096 a))
        = chunk_end 4096 R a" .
    have "a < chunk_end 4096 R a"
      using un m(1) hole_end_gt [OF _ zero_ext_finite [OF m(1)], of 4096 a]
      by (auto simp: chunk_end_def mapped_def zero_ext_def)
    with None sz q m(3) e show ?thesis by (simp add: readable_chunk_size_def Let_def pe)
  qed
qed

text \<open>
  A view over the snapshot \<open>f0\<close> with its writes overlaid agrees with a memory that started as
  \<open>g\<close>, as long as the view reads no address of \<open>P\<close>, where \<open>g\<close> may differ from the snapshot.
\<close>

definition view_wf :: "guest_region set \<Rightarrow> bool \<Rightarrow> parallel_view \<Rightarrow> bool" where
  "view_wf R zero v \<longleftrightarrow> distinct (map fst (pv_writes v)) \<and>
     (\<forall>w \<in> set (pv_writes v). is_byte (snd w) \<and> byte_ok R zero (fst w) CHR ''w'')"

definition view_overlay :: "parallel_view \<Rightarrow> (int \<Rightarrow> int) \<Rightarrow> int \<Rightarrow> int" where
  "view_overlay v g a = dict_get (pv_writes v) a (g a)"

definition view_abs ::
  "coordinator \<Rightarrow> guest_region set \<Rightarrow> bool \<Rightarrow> (int \<Rightarrow> int) \<Rightarrow> int set \<Rightarrow> (int \<Rightarrow> int) \<Rightarrow>
   parallel_view \<Rightarrow> (int \<Rightarrow> int) \<Rightarrow> bool" where
  "view_abs c R zero f0 P g v f \<longleftrightarrow> coord_ok c R zero f0 \<and> view_wf R zero v
     \<and> (\<forall>a. a \<notin> P \<longrightarrow> g a = f0 a) \<and> f = view_overlay v g"

lemma view_read_Inr:
  assumes "coord_ok c R zero f0" and "view_read_byte c a v = (Inr x, v')"
  shows "byte_ok R zero a CHR ''r''" and "x = dict_get (pv_writes v) a (f0 a)"
    and "v' = v\<lparr>pv_reads := insert a (pv_reads v)\<rparr>"
proof -
  from assms(2) obtain q where q: "check_access c a CHR ''r'' = Inr q"
    "x = dict_get (pv_writes v) a (dict_get (pc_snapshot_bytes c) a 0)" "v' = v\<lparr>pv_reads := insert a (pv_reads v)\<rparr>"
    by (auto simp: view_read_byte_def read_snapshot_byte_def split: sum.splits simp: res_simps)
  from check_access_cases [OF assms(1) q(1)] show "byte_ok R zero a CHR ''r''" by blast
  show "x = dict_get (pv_writes v) a (f0 a)" using q(2) assms(1) by (auto simp: coord_ok_def)
  show "v' = v\<lparr>pv_reads := insert a (pv_reads v)\<rparr>" by (rule q(3))
qed

lemma view_reads_Inr:
  assumes "coord_ok c R zero f0" and "amap (\<lambda>i. view_read_byte c (a + int i)) is v = (Inr xs, v')"
  shows "xs = map (\<lambda>i. dict_get (pv_writes v) (a + int i) (f0 (a + int i))) is
    \<and> v' = v\<lparr>pv_reads := pv_reads v \<union> (\<lambda>i. a + int i) ` set is\<rparr>"
  using assms(2)
proof (induction "is" arbitrary: v xs)
  case (Cons i "is")
  from Cons.prems obtain x u ys where x: "view_read_byte c (a + int i) v = (Inr x, u)"
    and ys: "amap (\<lambda>i. view_read_byte c (a + int i)) is u = (Inr ys, v')" "xs = x # ys"
    by (auto split: prod.splits sum.splits)
  note r = view_read_Inr [OF assms(1) x]
  from Cons.IH [OF ys(1)] r ys(2) show ?case by auto
qed simp


lemma view_reads_mono:
  "amap (\<lambda>i. view_read_byte c (a + int i)) is v = (Inr xs, v') \<Longrightarrow> pv_reads v \<subseteq> pv_reads v'"
proof (induction "is" arbitrary: v xs)
  case (Cons i "is")
  from Cons.prems obtain x u ys where x: "view_read_byte c (a + int i) v = (Inr x, u)"
    and "amap (\<lambda>i. view_read_byte c (a + int i)) is u = (Inr ys, v')"
    by (auto split: prod.splits sum.splits)
  from Cons.IH [OF this(2)] have "pv_reads u \<subseteq> pv_reads v'" .
  moreover from x have "pv_reads v \<subseteq> pv_reads u" by (auto simp: view_read_byte_def split: sum.splits)
  ultimately show ?case by blast
qed simp

lemma view_wf_write:
  assumes "view_wf R zero v" and "byte_ok R zero a CHR ''w''" and "is_byte x"
  shows "view_wf R zero (v\<lparr>pv_writes := AList.update a x (pv_writes v)\<rparr>)"
proof -
  have "is_byte (snd w) \<and> byte_ok R zero (fst w) CHR ''w''" if "w \<in> set (AList.update a x (pv_writes v))" for w
    using in_set_update [OF that] assms by (auto simp: view_wf_def)
  with assms(1) show ?thesis by (simp add: view_wf_def distinct_update)
qed

text \<open>A view simulates the flat memory a serial run would have at that point.\<close>

interpretation view_sim:
  callback_simulation "view_ops c" "flat_ops 4096 R zero" "view_abs c R zero f0 P g" "\<lambda>v. pv_reads v \<inter> P = {}"
  for c R zero f0 P g
proof unfold_locales
  fix a v x v'
  assume "mo_read (view_ops c) a v = (Inr x, v')" and cl: "pv_reads v' \<inter> P = {}"
  then have r: "view_read_byte c a v = (Inr x, v')" by (simp add: view_ops_def)
  then have v': "v' = v\<lparr>pv_reads := insert a (pv_reads v)\<rparr>"
    by (auto simp: view_read_byte_def split: sum.splits)
  with cl show "pv_reads v \<inter> P = {}" by auto
  fix f assume R: "view_abs c R zero f0 P g v f"
  then have "byte_ok R zero a CHR ''r''" "x = dict_get (pv_writes v) a (f0 a)"
    using view_read_Inr(1,2) [OF _ r] by (auto simp: view_abs_def)
  moreover have "g a = f0 a" using R cl v' by (auto simp: view_abs_def)
  ultimately show "\<exists>f'. mo_read (flat_ops 4096 R zero) a f = (Inr x, f') \<and> view_abs c R zero f0 P g v' f'"
    using R v' by (auto simp: flat_ops_def view_abs_def view_overlay_def view_wf_def fun_eq_iff)
next
  fix a n v bs v'
  assume "mo_chunk (view_ops c) a n v = (Inr bs, v')" and cl: "pv_reads v' \<inter> P = {}"
  then obtain k xs where n: "0 < n" and k: "readable_chunk_size c a n = Inr k"
    and xs: "amap (\<lambda>i. view_read_byte c (a + int i)) [0..<nat k] v = (Inr xs, v')" "py_bytes xs = Inr bs"
    by (auto simp: view_ops_def view_read_chunk_def split: if_splits sum.splits prod.splits)
  show "pv_reads v \<inter> P = {}" using view_reads_mono [OF xs(1)] cl by blast
  fix f assume R: "view_abs c R zero f0 P g v f"
  then have c: "coord_ok c R zero f0" by (simp add: view_abs_def)
  note rd = view_reads_Inr [OF c xs(1)] and sz = readable_chunk_size_flat [OF c k]
  have "g (a + int i) = f0 (a + int i)" if "i < nat k" for i
  proof -
    have "a + int i \<in> pv_reads v'" using rd that by auto
    with R cl show ?thesis by (auto simp: view_abs_def)
  qed
  then have "xs = map (\<lambda>i. f (a + int i)) [0..<nat k]" using R rd by (simp add: view_abs_def view_overlay_def)
  with xs(2) have "bs = flat_bytes f a k"
    by (auto simp: py_bytes_def flat_bytes_def split: if_splits)
  with sz n R rd show "\<exists>f'. mo_chunk (flat_ops 4096 R zero) a n f = (Inr bs, f') \<and> view_abs c R zero f0 P g v' f'"
    by (auto simp: flat_ops_def view_abs_def view_overlay_def view_wf_def fun_eq_iff)
next
  fix a x v u v'
  assume "mo_write (view_ops c) a x v = (Inr u, v')" and cl: "pv_reads v' \<inter> P = {}"
  then obtain q where x: "is_byte x" and q: "check_access c a CHR ''w'' = Inr q"
    and v': "v' = v\<lparr>pv_writes := AList.update a x (pv_writes v)\<rparr>"
    by (auto simp: view_ops_def view_write_byte_def is_byte_def split: if_splits sum.splits)
  show "pv_reads v \<inter> P = {}" using cl v' by simp
  fix f assume R: "view_abs c R zero f0 P g v f"
  then have ok: "byte_ok R zero a CHR ''w''" using check_access_cases [OF _ q] by (auto simp: view_abs_def)
  moreover have "view_wf R zero v'" using R ok x v' view_wf_write by (auto simp: view_abs_def)
  moreover have "view_overlay v' g = (view_overlay v g)(a := x)"
    by (simp add: fun_eq_iff v' view_overlay_def dict_get_update)
  ultimately show "\<exists>f'. mo_write (flat_ops 4096 R zero) a x f = (Inr u, f') \<and> view_abs c R zero f0 P g v' f'"
    using R x by (auto simp: flat_ops_def view_abs_def)
qed


section \<open>Lemmas: conflicts and commit\<close>

text \<open>No view reads an address that an earlier view of the list, or \<open>P\<close>, has written.\<close>

fun no_conflict :: "int set \<Rightarrow> parallel_view list \<Rightarrow> bool" where
  "no_conflict P [] \<longleftrightarrow> True"
| "no_conflict P (v # vs) \<longleftrightarrow> pv_reads v \<inter> P = {} \<and> no_conflict (P \<union> write_addresses v) vs"

lemma set_default_keys: "fst ` set (set_default pe a prior) = insert a (fst ` set prior)"
proof (cases "map_of prior a = None")
  case True
  then show ?thesis
    using dom_update [of a pe prior] by (simp add: set_default_def dom_map_of_conv_image_fst)
next
  case False
  then have "a \<in> fst ` set prior" by (simp add: map_of_eq_None_iff)
  with False show ?thesis by (auto simp: set_default_def)
qed

lemma fold_set_default_keys: "fst ` set (fold (set_default pe) as prior) = fst ` set prior \<union> set as"
  by (induction as arbitrary: prior) (auto simp: set_default_keys)

lemma note_writers_keys: "fst ` set (note_writers v prior) = fst ` set prior \<union> write_addresses v"
  by (simp add: note_writers_def fold_set_default_keys write_addresses_def)

lemma conflict_addresses_empty: "conflict_addresses v prior = [] \<longleftrightarrow> pv_reads v \<inter> fst ` set prior = {}"
  by (auto simp: conflict_addresses_def filter_empty_conv)

lemma check_conflicts_iff: "check_conflicts vs prior = Inr () \<longleftrightarrow> no_conflict (fst ` set prior) vs"
  by (induction vs arbitrary: prior) (simp_all add: conflict_addresses_empty note_writers_keys)

lemma check_conflicts_pairwise:
  "no_conflict P vs \<longleftrightarrow> (\<forall>v \<in> set vs. pv_reads v \<inter> P = {}) \<and>
     sorted_wrt (\<lambda>u v. pv_reads v \<inter> write_addresses u = {}) vs"
  by (induction vs arbitrary: P) auto

text \<open>Committing a view applies exactly its overlay.\<close>

definition poke :: "int \<times> int \<Rightarrow> (int \<Rightarrow> int) \<Rightarrow> int \<Rightarrow> int" where
  "poke w f = f(fst w := snd w)"

lemma commit_bytes_ok:
  assumes "bridge_abs page R zero g h"
    and "\<forall>w \<in> set ws. is_byte (snd w) \<and> byte_ok R zero (fst w) CHR ''w''"
  shows "\<exists>h'. commit_bytes pe ws h = (Inr (map (\<lambda>(a, x). (pe, a, x)) ws), h')
    \<and> bridge_abs page R zero (fold poke ws g) h'"
  using assms
proof (induction ws arbitrary: g h)
  case (Cons w ws)
  obtain a x where w: "w = (a, x)" by (cases w)
  from bridge_write_refines [OF Cons.prems(1), of a x] Cons.prems(2) w obtain h1
    where h1: "host_write_byte a x h = (Inr (), h1)" "bridge_abs page R zero (poke w g) h1"
    by (auto simp: poke_def)
  from Cons.IH [OF h1(2)] Cons.prems(2) obtain h' where
    "commit_bytes pe ws h1 = (Inr (map (\<lambda>(a, x). (pe, a, x)) ws), h')"
    "bridge_abs page R zero (fold poke ws (poke w g)) h'" by auto
  with h1(1) w show ?case by auto
qed simp

lemma fold_upd_distinct:
  "distinct (map fst ws) \<Longrightarrow>
   fold poke ws g a = (case map_of ws a of None \<Rightarrow> g a | Some x \<Rightarrow> x)"
proof (induction ws arbitrary: g)
  case (Cons w ws)
  obtain b x where w: "w = (b, x)" by (cases w)
  have "map_of ws b = None" using Cons.prems w by (simp add: map_of_eq_None_iff)
  then show ?case using Cons w by (auto simp: poke_def split: option.splits)
qed simp

lemma fold_buffered_writes:
  assumes "distinct (map fst (pv_writes v))"
  shows "fold poke (buffered_writes v) g = view_overlay v g"
proof
  fix a
  have d: "distinct (map fst (buffered_writes v))"
    using assms by (metis buffered_writes_def distinct_map distinct_sort set_sort)
  have "map_of (buffered_writes v) = map_of (pv_writes v)"
    by (rule map_of_inject_set [THEN iffD2]) (use assms d in \<open>simp_all add: buffered_writes_def\<close>)
  then show "fold poke (buffered_writes v) g a = view_overlay v g a"
    by (simp add: fold_upd_distinct [OF d] view_overlay_def dict_get_def)
qed

definition commit_log :: "parallel_view list \<Rightarrow> (int \<times> int \<times> int) list" where
  "commit_log vs = concat (map (\<lambda>v. map (\<lambda>(a, x). (pv_pe_id v, a, x)) (buffered_writes v)) vs)"

lemma commit_views_ok:
  assumes "bridge_abs page R zero g h" and "\<forall>v \<in> set vs. view_wf R zero v"
  shows "\<exists>h'. commit_views vs h = (Inr (commit_log vs), h') \<and> bridge_abs page R zero (fold view_overlay vs g) h'"
  using assms
proof (induction vs arbitrary: g h)
  case (Cons v vs)
  have "\<forall>w \<in> set (buffered_writes v). is_byte (snd w) \<and> byte_ok R zero (fst w) CHR ''w''"
    "distinct (map fst (pv_writes v))"
    using Cons.prems(2) by (auto simp: view_wf_def buffered_writes_def)
  with commit_bytes_ok [OF Cons.prems(1), of "buffered_writes v" "pv_pe_id v"] obtain h1 where
    h1: "commit_bytes (pv_pe_id v) (buffered_writes v) h =
      (Inr (map (\<lambda>(a, x). (pv_pe_id v, a, x)) (buffered_writes v)), h1)"
    "bridge_abs page R zero (view_overlay v g) h1" by (auto simp: fold_buffered_writes)
  from Cons.IH [OF h1(2)] Cons.prems(2) obtain h' where
    "commit_views vs h1 = (Inr (commit_log vs), h')"
    "bridge_abs page R zero (fold view_overlay vs (view_overlay v g)) h'" by auto
  with h1(1) show ?case by (auto simp: commit_log_def)
qed (simp add: commit_log_def)

section \<open>Lemmas: rounds\<close>

text \<open>
  One round: every PE runs its client on its own view, then the coordinator commits. The workers
  run in threads; that their order does not matter is shown below. An exception of a client
  leads to a rollback, which leaves the bridge alone.
\<close>

definition pe_run :: "coordinator \<Rightarrow> int \<times> 'r mprog \<Rightarrow> 'r res \<times> parallel_view" where
  "pe_run c q = run_prog (view_ops c) (snd q) (ParallelMemoryView (fst q))"

definition open_views :: "int list \<Rightarrow> coordinator \<Rightarrow> coordinator res" where
  "open_views pes c = rfold coordinator_view pes c"

definition parallel_round :: "(int \<times> 'r mprog) list \<Rightarrow> ('w host_bridge, 'r list) act" where
  "parallel_round progs h =
     (case open_views (map fst progs) (ParallelMemoryCoordinator h) of
        Inl e \<Rightarrow> (Inl e, h)
      | Inr c \<Rightarrow>
          (case rmap (\<lambda>q. fst (pe_run c q)) progs of
             Inl e \<Rightarrow> (Inl e, h)
           | Inr rs \<Rightarrow>
               (case coordinator_commit
                       (c\<lparr>pc_views := map (\<lambda>q. (fst q, snd (pe_run c q))) progs\<rparr>) h of
                  (Inl e, _, h') \<Rightarrow> (Inl e, h')
                | (Inr _, _, h') \<Rightarrow> (Inr rs, h'))))"

definition serial_round :: "(int \<times> 'r mprog) list \<Rightarrow> ('w host_bridge, 'r list) act" where
  "serial_round progs = amap (\<lambda>q. run_prog bridge_ops (snd q)) progs"

text \<open>A client that succeeds on its view succeeds on the serial memory with the same result.\<close>

lemma serial_step:
  assumes c: "coord_ok c R zero f0" and run: "pe_run c q = (Inr r, v)" and cl: "pv_reads v \<inter> P = {}"
    and g: "\<And>a. a \<notin> P \<Longrightarrow> g a = f0 a" and h: "bridge_abs 4096 R zero g h"
  shows "\<exists>h'. run_prog bridge_ops (snd q) h = (Inr r, h') \<and> bridge_abs 4096 R zero (view_overlay v g) h'"
    and "view_wf R zero v"
proof -
  let ?v0 = "ParallelMemoryView (fst q)"
  have "view_abs c R zero f0 P g ?v0 g"
    using c g by (simp add: view_abs_def view_wf_def view_overlay_def ParallelMemoryView_def fun_eq_iff)
  from view_sim.simulation [OF _ cl this, of "snd q" r] run obtain f'
    where f': "run_prog (flat_ops 4096 R zero) (snd q) g = (Inr r, f')" "view_abs c R zero f0 P g v f'"
    by (auto simp: pe_run_def)
  from bridge_sim.simulation [OF f'(1) TrueI h] f'(2)
  show "\<exists>h'. run_prog bridge_ops (snd q) h = (Inr r, h') \<and> bridge_abs 4096 R zero (view_overlay v g) h'"
    by (auto simp: view_abs_def)
  show "view_wf R zero v" using f'(2) by (simp add: view_abs_def)
qed

lemma serial_from_views:
  assumes "coord_ok c R zero f0"
    and "list_all2 (\<lambda>q rv. pe_run c q = (Inr (fst rv), snd rv)) progs rvs"
    and "no_conflict P (map snd rvs)" and "\<And>a. a \<notin> P \<Longrightarrow> g a = f0 a" and "bridge_abs 4096 R zero g h"
  shows "\<exists>h'. serial_round progs h = (Inr (map fst rvs), h')
    \<and> bridge_abs 4096 R zero (fold view_overlay (map snd rvs) g) h'
    \<and> (\<forall>rv \<in> set rvs. view_wf R zero (snd rv))"
  using assms(2-)
proof (induction progs rvs arbitrary: P g h rule: list_all2_induct)
  case Nil
  then show ?case by (simp add: serial_round_def)
next
  case (Cons q progs rv rvs)
  obtain r v where rv: "rv = (r, v)" by (cases rv)
  from Cons.prems rv have cl: "pv_reads v \<inter> P = {}" and nc: "no_conflict (P \<union> write_addresses v) (map snd rvs)"
    by auto
  have run: "pe_run c q = (Inr r, v)" using Cons.hyps(1) rv by simp
  note st = serial_step [OF assms(1) run cl Cons.prems(2,3)]
  from st(1) obtain h1 where h1: "run_prog bridge_ops (snd q) h = (Inr r, h1)"
    "bridge_abs 4096 R zero (view_overlay v g) h1" by blast
  have "view_overlay v g a = f0 a" if "a \<notin> P \<union> write_addresses v" for a
  proof -
    have "map_of (pv_writes v) a = None" using that by (auto simp: write_addresses_def map_of_eq_None_iff)
    with that Cons.prems(2) show ?thesis by (simp add: view_overlay_def dict_get_def)
  qed
  from Cons.IH [OF nc this h1(2)] obtain h' where "serial_round progs h1 = (Inr (map fst rvs), h')"
    "bridge_abs 4096 R zero (fold view_overlay (map snd rvs) (view_overlay v g)) h'"
    "\<forall>rv \<in> set rvs. view_wf R zero (snd rv)" by blast
  with h1(1) st(2) show ?case by (auto simp: serial_round_def rv)
qed


lemma coordinator_view_Inr:
  "coordinator_view pe c = Inr c' \<Longrightarrow> \<exists>vs. c' = c\<lparr>pc_views := vs\<rparr>"
  by (auto simp: coordinator_view_def res_simps)

lemma open_views_Inr: "open_views pes c = Inr c' \<Longrightarrow> \<exists>vs. c' = c\<lparr>pc_views := vs\<rparr>"
proof (induction pes arbitrary: c)
  case Nil
  then have "c' = c\<lparr>pc_views := pc_views c\<rparr>" by (simp add: open_views_def)
  then show ?case by blast
next
  case (Cons pe pes)
  then obtain c1 where "coordinator_view pe c = Inr c1" "open_views pes c1 = Inr c'"
    by (auto simp: open_views_def res_simps)
  with Cons.IH [of c1] coordinator_view_Inr show ?case by fastforce
qed

lemma sorted_views_map:
  assumes "sorted_wrt (<) (map fst progs)"
  shows "sorted_views (c\<lparr>pc_views := map (\<lambda>q. (fst q, F q)) progs\<rparr>) = map F progs"
proof -
  have s: "sorted (map fst progs)" "distinct (map fst progs)"
    using assms by (simp_all add: strict_sorted_iff)
  have "map_of (map (\<lambda>q. (fst q, F q)) progs) (fst q) = Some (F q)" if "q \<in> set progs" for q
    by (rule map_of_is_SomeI) (use s(2) that in \<open>auto simp: comp_def\<close>)
  then show ?thesis
    using s(1) by (simp add: sorted_views_def comp_def sort_key_id_if_sorted)
qed

text \<open>The outcome of a round, on two bridges that hold the same flat memory.\<close>

definition round_views :: "coordinator \<Rightarrow> (int \<times> 'r mprog) list \<Rightarrow> parallel_view list" where
  "round_views c progs = map (\<lambda>q. snd (pe_run c q)) progs"

lemma rmap_pe_run:
  assumes "rmap (\<lambda>q. fst (pe_run c q)) progs = Inr rs"
  shows "list_all2 (\<lambda>q rv. pe_run c q = (Inr (fst rv), snd rv)) progs (zip rs (map (\<lambda>q. snd (pe_run c q)) progs))"
    and "length rs = length progs"
proof -
  have *: "list_all2 (\<lambda>q r. fst (pe_run c q) = Inr r) progs rs" using assms by (simp add: rmap_Inr_iff)
  then show "length rs = length progs" by (simp add: list_all2_lengthD)
  with * show "list_all2 (\<lambda>q rv. pe_run c q = (Inr (fst rv), snd rv)) progs (zip rs (map (\<lambda>q. snd (pe_run c q)) progs))"
    by (auto simp: list_all2_conv_all_nth prod_eq_iff)
qed

lemma round_views_wf:
  assumes c: "coord_ok c R zero g" and rs: "rmap (\<lambda>q. fst (pe_run c q)) progs = Inr rs"
    and h: "bridge_abs 4096 R zero g h"
  shows "\<forall>v \<in> set (map (\<lambda>q. snd (pe_run c q)) progs). view_wf R zero v"
proof -
  have "view_wf R zero (snd (pe_run c q))" if "q \<in> set progs" for q
  proof -
    from rs that obtain r where "fst (pe_run c q) = Inr r"
      by (auto simp: rmap_Inr_iff list_all2_conv_all_nth in_set_conv_nth)
    then have "pe_run c q = (Inr r, snd (pe_run c q))" by (simp add: prod_eq_iff)
    from serial_step(2) [OF c this, of "{}" g, OF _ _ h] show ?thesis by simp
  qed
  then show ?thesis by simp
qed

lemma round_matches_serial:
  assumes hp: "bridge_abs 4096 R zero g hp" and hs: "bridge_abs 4096 R zero g hs"
    and srt: "sorted_wrt (<) (map fst progs)" and run: "parallel_round progs hp = (Inr rs, hp')"
  shows "\<exists>hs' g'. serial_round progs hs = (Inr rs, hs') \<and> bridge_abs 4096 R zero g' hp'
    \<and> bridge_abs 4096 R zero g' hs'"
proof -
  from run obtain c where c: "open_views (map fst progs) (ParallelMemoryCoordinator hp) = Inr c"
    and rs: "rmap (\<lambda>q. fst (pe_run c q)) progs = Inr rs"
    by (auto simp: parallel_round_def split: sum.splits prod.splits)
  let ?vs = "map (\<lambda>q. snd (pe_run c q)) progs"
  let ?c = "c\<lparr>pc_views := map (\<lambda>q. (fst q, snd (pe_run c q))) progs\<rparr>"
  obtain cs c' where cm: "coordinator_commit ?c hp = (Inr cs, c', hp')"
    using run c rs by (auto simp: parallel_round_def split: sum.splits prod.splits)
  have ok: "coord_ok c R zero g" using coord_ok_init [OF hp] open_views_Inr [OF c] by auto
  have sv: "sorted_views ?c = ?vs" using srt by (rule sorted_views_map)
  have nc: "no_conflict {} ?vs" and cv: "commit_views ?vs hp = (Inr cs, hp')"
    using cm check_conflicts_iff [of ?vs "[]"]
    by (auto simp: coordinator_commit_def sv split: sum.splits prod.splits if_splits)
  let ?rvs = "zip rs ?vs"
  have len: "length rs = length progs" and run2: "list_all2 (\<lambda>q rv. pe_run c q = (Inr (fst rv), snd rv)) progs ?rvs"
    using rmap_pe_run [OF rs] by simp_all
  have proj: "map snd ?rvs = ?vs" "map fst ?rvs = rs" using len by simp_all
  from serial_from_views [OF ok run2 _ _ hs, of "{}"] nc proj obtain hs' where
    "serial_round progs hs = (Inr rs, hs')" "bridge_abs 4096 R zero (fold view_overlay ?vs g) hs'" by auto
  moreover from commit_views_ok [OF hp round_views_wf [OF ok rs hp]] cv
  have "bridge_abs 4096 R zero (fold view_overlay ?vs g) hp'" by auto
  ultimately show ?thesis by blast
qed

lemma round_failure_keeps_bridge:
  assumes hp: "bridge_abs 4096 R zero g hp" and srt: "sorted_wrt (<) (map fst progs)"
    and run: "parallel_round progs hp = (Inl e, hp')"
  shows "hp' = hp"
proof (cases "open_views (map fst progs) (ParallelMemoryCoordinator hp)")
  case (Inr c)
  show ?thesis
  proof (cases "rmap (\<lambda>q. fst (pe_run c q)) progs")
    case rs: (Inr rs)
    let ?vs = "map (\<lambda>q. snd (pe_run c q)) progs"
    have ok: "coord_ok c R zero g" using coord_ok_init [OF hp] open_views_Inr [OF Inr] by auto
    have sv: "sorted_views (c\<lparr>pc_views := map (\<lambda>q. (fst q, snd (pe_run c q))) progs\<rparr>) = ?vs"
      using srt by (rule sorted_views_map)
    obtain h' where "commit_views ?vs hp = (Inr (commit_log ?vs), h')"
      using commit_views_ok [OF hp round_views_wf [OF ok rs hp]] by blast
    with run Inr rs show ?thesis
      by (auto simp: parallel_round_def coordinator_commit_def sv split: sum.splits prod.splits if_splits)
  qed (use run Inr in \<open>simp add: parallel_round_def\<close>)
qed (use run in \<open>simp add: parallel_round_def\<close>)

section \<open>Properties\<close>

text \<open>
  C2: a parallel round is serializable in PE order. Whatever memory accesses the PEs make through
  their views, if the round commits, then running the same PEs one after the other directly on
  the bridge succeeds with the same results and leaves a memory that no later access can tell
  apart: the same byte at every address and the same access rights, and under the \<open>deny\<close> policy
  the same regions.
\<close>

theorem parallel_round_serializable:
  assumes "bridge_wf h" and "hb_worker h = None" and "hb_page_size h = 4096"
    and "sorted_wrt (<) (map fst progs)" and "parallel_round progs h = (Inr rs, h')"
  shows "\<exists>h''. serial_round progs h = (Inr rs, h'') \<and> mem_val (hb_memory h'') = mem_val (hb_memory h')
    \<and> (\<forall>a. host_ok h'' a CHR ''r'' = host_ok h' a CHR ''r'' \<and> host_ok h'' a CHR ''w'' = host_ok h' a CHR ''w'')
    \<and> (hb_unmapped_policy h = ''deny'' \<longrightarrow>
         set (gm_regions (hb_memory h'')) = set (gm_regions (hb_memory h')))"
proof -
  let ?R = "set (gm_regions (hb_memory h))" and ?z = "hb_unmapped_policy h = ''zero''"
  have b: "bridge_abs 4096 ?R ?z (mem_val (hb_memory h)) h"
    using bridge_abs_init [OF assms(1,2)] by (simp only: assms(3))
  from round_matches_serial [OF b b assms(4,5)] obtain hs' g' where
    s: "serial_round progs h = (Inr rs, hs')" and
    p: "bridge_abs 4096 ?R ?z g' h'" and q: "bridge_abs 4096 ?R ?z g' hs'" by blast
  have "host_ok hs' a x = host_ok h' a x" if "x = CHR ''r'' \<or> x = CHR ''w''" for a x
    using bridge_abs_ok [OF p that] bridge_abs_ok [OF q that] by simp
  moreover have "mem_val (hb_memory hs') = mem_val (hb_memory h')"
    and "hb_unmapped_policy h = ''deny'' \<Longrightarrow> set (gm_regions (hb_memory hs')) = set (gm_regions (hb_memory h'))"
    using p q by (simp_all add: bridge_abs_def)
  ultimately show ?thesis using s by blast
qed

text \<open>
  A parallel round is atomic: when a PE's access fails, when the commit finds a conflict, or
  for any other exception, the bridge is exactly what it was before the round.
\<close>

theorem parallel_round_atomic:
  assumes "bridge_wf h" and "hb_worker h = None" and "hb_page_size h = 4096"
    and "sorted_wrt (<) (map fst progs)" and "parallel_round progs h = (Inl e, h')"
  shows "h' = h"
proof (rule round_failure_keeps_bridge [OF _ assms(4,5)])
  show "bridge_abs 4096 (set (gm_regions (hb_memory h))) (hb_unmapped_policy h = ''zero'') (mem_val (hb_memory h)) h"
    using bridge_abs_init [OF assms(1,2)] by (simp only: assms(3))
qed


definition demo_bridge :: "unit host_bridge" where
  "demo_bridge = (empty_bridge ''deny'')\<lparr>hb_memory := \<lparr>gm_regions = [\<lparr>gr_base = 16, gr_size = 8,
     gr_permissions = ''rw'', gr_name = ''data''\<rparr>], gm_bytes = [(19, 9)]\<rparr>\<rparr>"

lemma demo_bridge_ok: "bridge_wf demo_bridge" "hb_worker demo_bridge = None" "hb_page_size demo_bridge = 4096"
proof -
  have "\<exists>k. (4096 :: int) = 2 ^ k" by (rule exI [of _ 12]) simp
  then show "bridge_wf demo_bridge"
    by (simp add: bridge_wf_def demo_bridge_def empty_bridge_def mem_wf_def regions_wf_def region_ok_def
        is_byte_def mapped_def in_region_def gr_end_def)
qed (simp_all add: demo_bridge_def empty_bridge_def)

definition demo_progs :: "(int \<times> int mprog) list" where
  "demo_progs = [(0, MWrite 16 5 (MRead 16 (\<lambda>x. MDone x))), (1, MWrite 18 7 (MRead 19 (\<lambda>x. MDone x)))]"

theorem parallel_round_serializable_witness:
  "\<exists>h''. serial_round demo_progs demo_bridge = (Inr [5, 9], h'')
     \<and> mem_val (hb_memory h'') 16 = 5 \<and> mem_val (hb_memory h'') 18 = 7"
proof -
  let ?p = "parallel_round demo_progs demo_bridge"
  have r: "fst ?p = Inr [5, 9]" by code_simp
  have v: "mem_val (hb_memory (snd ?p)) 16 = 5" "mem_val (hb_memory (snd ?p)) 18 = 7" by code_simp+
  have srt: "sorted_wrt (<) (map fst demo_progs)" by (simp add: demo_progs_def)
  have "?p = (Inr [5, 9], snd ?p)" using r by (simp add: prod_eq_iff)
  from parallel_round_serializable [OF demo_bridge_ok srt this] v show ?thesis by fastforce
qed

definition demo_conflict :: "(int \<times> int mprog) list" where
  "demo_conflict = [(0, MWrite 16 5 (MDone 0)), (1, MRead 16 (\<lambda>x. MDone x))]"

theorem parallel_round_atomic_witness:
  "fst (parallel_round demo_conflict demo_bridge) = Inl (ParallelMemoryConflict (Some 0) (Some 1) [16])
     \<and> snd (parallel_round demo_conflict demo_bridge) = demo_bridge"
proof -
  let ?p = "parallel_round demo_conflict demo_bridge"
  have r: "fst ?p = Inl (ParallelMemoryConflict (Some 0) (Some 1) [16])" by code_simp
  have srt: "sorted_wrt (<) (map fst demo_conflict)" by (simp add: demo_conflict_def)
  have "?p = (Inl (ParallelMemoryConflict (Some 0) (Some 1) [16]), snd ?p)" using r by (simp add: prod_eq_iff)
  from parallel_round_atomic [OF demo_bridge_ok srt this] r show ?thesis by simp
qed


section \<open>Conflict reports\<close>

lemma amap_view_pe_id:
  "amap (\<lambda>i. view_read_byte c (a + int i)) is v = (x, v') \<Longrightarrow> pv_pe_id v' = pv_pe_id v"
proof (induction "is" arbitrary: v x v')
  case (Cons i "is")
  obtain y u where u: "view_read_byte c (a + int i) v = (y, u)" by fastforce
  then have id: "pv_pe_id u = pv_pe_id v" by (auto simp: view_read_byte_def split: sum.splits)
  obtain z w where w: "amap (\<lambda>i. view_read_byte c (a + int i)) is u = (z, w)" by fastforce
  show ?case using Cons.prems id Cons.IH [OF w] by (cases y; cases z) (auto simp: u w)
qed simp

lemma view_ops_pe_id:
  "mo_read (view_ops c) a v = (x, v') \<Longrightarrow> pv_pe_id v' = pv_pe_id v"
  "mo_chunk (view_ops c) a n v = (y, v') \<Longrightarrow> pv_pe_id v' = pv_pe_id v"
  "mo_write (view_ops c) a b v = (z, v') \<Longrightarrow> pv_pe_id v' = pv_pe_id v"
  by (auto simp: view_ops_def view_read_byte_def view_read_chunk_def view_write_byte_def
      split: sum.splits if_splits prod.splits dest: amap_view_pe_id)

lemma run_view_pe_id: "run_prog (view_ops c) p v = (r, v') \<Longrightarrow> pv_pe_id v' = pv_pe_id v"
proof (induction p arbitrary: v)
  case (MRead a k)
  obtain x u where "mo_read (view_ops c) a v = (x, u)" by fastforce
  with MRead view_ops_pe_id(1) show ?case by (fastforce simp: abind_def split: sum.splits)
next
  case (MChunk a n k)
  obtain x u where "mo_chunk (view_ops c) a n v = (x, u)" by fastforce
  with MChunk view_ops_pe_id(2) show ?case by (fastforce simp: abind_def split: sum.splits)
next
  case (MWrite a b k)
  obtain x u where "mo_write (view_ops c) a b v = (x, u)" by fastforce
  with MWrite view_ops_pe_id(3) show ?case by (fastforce simp: abind_def split: sum.splits)
qed simp

lemma pe_run_pe_id: "pv_pe_id (snd (pe_run c q)) = fst q"
  using run_view_pe_id [of c "snd q" "ParallelMemoryView (fst q)"]
  by (cases "pe_run c q") (simp add: pe_run_def ParallelMemoryView_def)

text \<open>Every entry of \<open>prior_writers\<close> names a view that wrote the address.\<close>

definition prior_ok :: "parallel_view set \<Rightarrow> (int, int) dict \<Rightarrow> bool" where
  "prior_ok U prior \<longleftrightarrow> (\<forall>a w. map_of prior a = Some w \<longrightarrow> (\<exists>u \<in> U. pv_pe_id u = w \<and> a \<in> write_addresses u))"

lemma map_of_fold_set_default:
  "map_of (fold (set_default pe) as prior) a =
     (case map_of prior a of Some w \<Rightarrow> Some w | None \<Rightarrow> if a \<in> set as then Some pe else None)"
  by (induction as arbitrary: prior) (auto simp: set_default_def update_conv' split: option.splits)

lemma prior_ok_note: "prior_ok U prior \<Longrightarrow> prior_ok (insert v U) (note_writers v prior)"
  by (auto simp: prior_ok_def note_writers_def map_of_fold_set_default write_addresses_def
      split: option.splits if_splits)

text \<open>What a conflict exception says: a writer, a later reader, and common addresses.\<close>

definition true_conflict :: "parallel_view \<Rightarrow> parallel_view \<Rightarrow> py_error \<Rightarrow> bool" where
  "true_conflict u v e \<longleftrightarrow> (\<exists>as. e = ParallelMemoryConflict (Some (pv_pe_id u)) (Some (pv_pe_id v)) as
     \<and> as \<noteq> [] \<and> sorted as \<and> distinct as \<and> pv_pe_id u < pv_pe_id v
     \<and> set as \<subseteq> write_addresses u \<inter> pv_reads v)"

lemma py_min_default_in:
  assumes "xs \<noteq> []"
  shows "py_min_default xs d \<in> set xs"
proof (cases xs)
  case (Cons y ys)
  then have "py_min_default xs d = Min (set xs)"
    by (simp only: py_min_default_def list.case Min.set_eq_fold)
  then show ?thesis using assms by simp
qed (use assms in simp)

lemma sort_remdups_facts:
  "sort (remdups xs) = [] \<longleftrightarrow> xs = []" "sorted (sort (remdups (xs :: int list)))" "distinct (sort (remdups xs))"
  by (metis remdups_eq_nil_iff set_empty set_sort) simp_all

lemma view_conflict_true:
  assumes "conflict_addresses v prior \<noteq> []" and "prior_ok U prior"
    and "\<And>u. u \<in> U \<Longrightarrow> pv_pe_id u < pv_pe_id v" and inj: "inj_on pv_pe_id U"
  shows "\<exists>u \<in> U. true_conflict u v (view_conflict v prior)"
proof -
  let ?cf = "conflict_addresses v prior"
  let ?w = "py_min_default (map (\<lambda>a. dict_get prior a 0) ?cf) 0"
  let ?as = "filter (\<lambda>a. map_of prior a = Some ?w) ?cf"
  have "?w \<in> set (map (\<lambda>a. dict_get prior a 0) ?cf)" by (rule py_min_default_in) (use assms(1) in simp)
  then obtain a where a: "a \<in> set ?cf" "?w = dict_get prior a 0" by auto
  then have "map_of prior a \<noteq> None" by (auto simp: conflict_addresses_def map_of_eq_None_iff)
  with a(2) have aw: "map_of prior a = Some ?w" by (auto simp: dict_get_def)
  with assms(2) obtain u where u: "u \<in> U" "pv_pe_id u = ?w" by (auto simp: prior_ok_def)
  have "b \<in> write_addresses u" if "map_of prior b = Some ?w" for b
    using assms(2) that u inj unfolding prior_ok_def by (metis inj_onD)
  then have "set ?as \<subseteq> write_addresses u \<inter> pv_reads v" by (auto simp: conflict_addresses_def)
  moreover have "?as \<noteq> []" using a(1) aw by (auto simp: filter_empty_conv)
  moreover have "view_conflict v prior = ParallelMemoryConflict (Some (pv_pe_id u)) (Some (pv_pe_id v)) (sort (remdups ?as))"
    using u(2) by (simp add: view_conflict_def Let_def)
  ultimately have "true_conflict u v (view_conflict v prior)"
    unfolding true_conflict_def using assms(3) [OF u(1)]
    by (intro exI [of _ "sort (remdups ?as)"]) (simp add: sort_remdups_facts)
  with u(1) show ?thesis by blast
qed

lemma check_conflicts_true:
  assumes "check_conflicts vs prior = Inl e" and "prior_ok U prior" and "inj_on pv_pe_id U"
    and "sorted_wrt (<) (map pv_pe_id vs)" and "\<And>u v. u \<in> U \<Longrightarrow> v \<in> set vs \<Longrightarrow> pv_pe_id u < pv_pe_id v"
  shows "\<exists>v \<in> set vs. \<exists>u \<in> U \<union> set vs. true_conflict u v e"
  using assms
proof (induction vs arbitrary: prior U)
  case (Cons v vs)
  show ?case
  proof (cases "conflict_addresses v prior = []")
    case True
    have "\<exists>x \<in> set vs. \<exists>u \<in> insert v U \<union> set vs. true_conflict u x e"
    proof (rule Cons.IH)
      show "inj_on pv_pe_id (insert v U)" using Cons.prems(3,5) by (force simp: inj_on_def)
    qed (use Cons.prems True prior_ok_note in auto)
    then show ?thesis by auto
  next
    case False
    with view_conflict_true [OF False Cons.prems(2) _ Cons.prems(3)] Cons.prems(1,5) show ?thesis by auto
  qed
qed simp

text \<open>
  C3: the conflict decision is exact. When every PE ran without an exception, the round commits
  if and only if no PE read an address that a lower-numbered PE wrote; otherwise the exception
  names such a writer and reader and only addresses that the one wrote and the other read.
\<close>

theorem parallel_round_conflict_exact:
  assumes "bridge_wf h" and "hb_worker h = None" and "hb_page_size h = 4096"
    and "sorted_wrt (<) (map fst progs)"
    and "open_views (map fst progs) (ParallelMemoryCoordinator h) = Inr c"
    and "rmap (\<lambda>q. fst (pe_run c q)) progs = Inr rs"
  shows "((\<exists>h'. parallel_round progs h = (Inr rs, h')) \<longleftrightarrow>
      sorted_wrt (\<lambda>u v. write_addresses u \<inter> pv_reads v = {}) (round_views c progs))
    \<and> (\<forall>e h'. parallel_round progs h = (Inl e, h') \<longrightarrow>
        (\<exists>u \<in> set (round_views c progs). \<exists>v \<in> set (round_views c progs). true_conflict u v e))"
proof -
  let ?R = "set (gm_regions (hb_memory h))" and ?z = "hb_unmapped_policy h = ''zero''"
  let ?c = "c\<lparr>pc_views := map (\<lambda>q. (fst q, snd (pe_run c q))) progs\<rparr>"
  let ?vs = "round_views c progs"
  have b: "bridge_abs 4096 ?R ?z (mem_val (hb_memory h)) h"
    using bridge_abs_init [OF assms(1,2)] by (simp only: assms(3))
  have ok: "coord_ok c ?R ?z (mem_val (hb_memory h))"
    using coord_ok_init [OF b] open_views_Inr [OF assms(5)] by auto
  have sv: "sorted_views ?c = ?vs" unfolding round_views_def using assms(4) by (rule sorted_views_map)
  obtain h1 where "commit_views ?vs h = (Inr (commit_log ?vs), h1)"
    using commit_views_ok [OF b round_views_wf [OF ok assms(6) b]] unfolding round_views_def by blast
  moreover have "\<not> pc_closed c" "pc_initial_generation c = hb_generation h"
    using open_views_Inr [OF assms(5)] by (auto simp: ParallelMemoryCoordinator_def Let_def)
  ultimately have pr: "parallel_round progs h =
      (case check_conflicts ?vs [] of Inl e \<Rightarrow> (Inl e, h) | Inr _ \<Rightarrow> (Inr rs, h1))"
    using assms(5,6) sv
    by (simp add: parallel_round_def coordinator_commit_def pc_check_open_def split: sum.splits)
  have nc: "no_conflict {} ?vs \<longleftrightarrow> sorted_wrt (\<lambda>u v. write_addresses u \<inter> pv_reads v = {}) ?vs"
    by (simp add: check_conflicts_pairwise Int_commute)
  have ids: "map pv_pe_id ?vs = map fst progs" by (simp add: round_views_def pe_run_pe_id)
  show ?thesis
  proof (cases "check_conflicts ?vs []")
    case (Inl e)
    then have "\<not> no_conflict {} ?vs" using check_conflicts_iff [of ?vs "[]"] by simp
    moreover have "\<exists>u \<in> set ?vs. \<exists>v \<in> set ?vs. true_conflict u v e"
      using check_conflicts_true [OF Inl, of "{}"] assms(4) ids by (auto simp: prior_ok_def)
    ultimately show ?thesis using pr Inl nc by simp
  next
    case (Inr u)
    then show ?thesis using pr nc check_conflicts_iff [of ?vs "[]"] by simp
  qed
qed

theorem parallel_round_conflict_exact_witness:
  "\<exists>c. open_views (map fst demo_conflict) (ParallelMemoryCoordinator demo_bridge) = Inr c
     \<and> \<not> (\<exists>h'. parallel_round demo_conflict demo_bridge = (Inr [0, 0], h'))
     \<and> \<not> sorted_wrt (\<lambda>u v. write_addresses u \<inter> pv_reads v = {}) (round_views c demo_conflict)"
proof -
  let ?c = "projr (open_views (map fst demo_conflict) (ParallelMemoryCoordinator demo_bridge))"
  have c: "open_views (map fst demo_conflict) (ParallelMemoryCoordinator demo_bridge) = Inr ?c"
    and rs: "rmap (\<lambda>q. fst (pe_run ?c q)) demo_conflict = Inr [0, 0]"
    by code_simp+
  have srt: "sorted_wrt (<) (map fst demo_conflict)" by (simp add: demo_conflict_def)
  have "fst (parallel_round demo_conflict demo_bridge) \<noteq> Inr [0, 0]" by code_simp
  then have n: "\<not> (\<exists>h'. parallel_round demo_conflict demo_bridge = (Inr [0, 0], h'))" by auto
  with parallel_round_conflict_exact [OF demo_bridge_ok srt c rs] c show ?thesis by blast
qed

section \<open>Schedules\<close>

text \<open>
  The threads of a round, interleaved at the granularity of memory callbacks: a thread is the
  view of a PE with what is left of its client, or the exception that ended it.
\<close>

type_synonym 'r thread = "parallel_view \<times> 'r mprog res"

inductive par_step :: "coordinator \<Rightarrow> (int \<rightharpoonup> 'r thread) \<Rightarrow> (int \<rightharpoonup> 'r thread) \<Rightarrow> bool" for c where
  "S pe = Some (v, Inr p) \<Longrightarrow> \<not> is_MDone p \<Longrightarrow> step_prog (view_ops c) p v = (x, v') \<Longrightarrow>
   par_step c S (S(pe \<mapsto> (v', x)))"

inductive_cases par_stepE: "par_step c S T"

definition thread_result :: "coordinator \<Rightarrow> 'r thread \<Rightarrow> 'r res \<times> parallel_view" where
  "thread_result c t = (case snd t of Inl e \<Rightarrow> (Inl e, fst t) | Inr p \<Rightarrow> run_prog (view_ops c) p (fst t))"

lemma thread_result_step:
  assumes "\<not> is_MDone p" and "step_prog (view_ops c) p v = (x, v')"
  shows "thread_result c (v', x) = thread_result c (v, Inr p)"
proof -
  have "run_prog (view_ops c) p v = abind (step_prog (view_ops c) p) (run_prog (view_ops c)) v"
    using run_prog_step [of "view_ops c" p v] assms(1) by (simp split: mprog.splits)
  with assms(2) show ?thesis by (cases x) (simp_all add: thread_result_def abind_def)
qed

lemma par_step_result:
  assumes "par_step c S T"
  shows "map_option (thread_result c) (T pe) = map_option (thread_result c) (S pe)"
  using assms by (elim par_stepE) (simp add: thread_result_step)

lemma par_run_result:
  assumes "(par_step c)\<^sup>*\<^sup>* S T"
  shows "map_option (thread_result c) (T pe) = map_option (thread_result c) (S pe)"
  using assms by (induction rule: rtranclp_induct) (simp_all add: par_step_result)

definition round_threads :: "(int \<times> 'r mprog) list \<Rightarrow> int \<rightharpoonup> 'r thread" where
  "round_threads progs = map_of (map (\<lambda>q. (fst q, ParallelMemoryView (fst q), Inr (snd q))) progs)"




end
