(* ===== verification/Worker_Protocol.thy ===== *)
theory Worker_Protocol
  imports Py_Text Memory_Clients
begin

text \<open>
  The line protocol of the embedded ASL worker, \<open>asl_model/embedded/worker.py\<close>: the request loop
  that serves the worker's memory callbacks until the answer line, and the commands built on it.
  The worker process itself (the compiled \<open>Worker.ml\<close> over ASLRef) is a parameter: a state
  with what writing a line to it, reading a line from it and asking whether it runs do. A method
  is a memory client: its callbacks go to whatever memory the runtime attached.

  The request loop ends when the process answers; a process may ask for memory forever, so the
  loop has fuel, and a result of \<open>None\<close> means that the fuel ran out.
\<close>

section \<open>Process and worker\<close>

record 'p process_ops =
  po_spawn :: "string \<Rightarrow> 'p res"                        \<comment> \<open>build, start with an initial source\<close>
  po_write :: "string \<Rightarrow> ('p, unit) act"               \<comment> \<open>write and flush\<close>
  po_readline :: "('p, string option) act"              \<comment> \<open>None at end of file; may time out\<close>
  po_alive :: "'p \<Rightarrow> bool"

record protocol_stats =
  ps_chunk_reads :: int
  ps_chunk_read_bytes :: int
  ps_byte_reads :: int
  ps_byte_writes :: int

record 'p embedded_worker =
  ew_process :: "'p option"
  ew_initial_source :: "string option"
  ew_has_read :: bool
  ew_has_read_chunk :: bool
  ew_has_write :: bool
  ew_stats :: protocol_stats

definition EmbeddedAslWorker :: "bool \<Rightarrow> bool \<Rightarrow> bool \<Rightarrow> 'p embedded_worker" where
  "EmbeddedAslWorker r rc w = \<lparr>ew_process = None, ew_initial_source = None, ew_has_read = r,
     ew_has_read_chunk = rc, ew_has_write = w,
     ew_stats = \<lparr>ps_chunk_reads = 0, ps_chunk_read_bytes = 0, ps_byte_reads = 0, ps_byte_writes = 0\<rparr>\<rparr>"

text \<open>The result of a method: out of fuel, or an exception or a value with the worker it leaves.\<close>

type_synonym ('p, 'a) wres = "('a res \<times> 'p embedded_worker) option mprog"

definition wret :: "'p embedded_worker \<Rightarrow> 'a \<Rightarrow> ('p, 'a) wres" where
  "wret w x = MDone (Some (Inr x, w))"

definition wraise :: "'p embedded_worker \<Rightarrow> py_error \<Rightarrow> ('p, 'a) wres" where
  "wraise w e = MDone (Some (Inl e, w))"

definition wbind :: "('p, 'a) wres \<Rightarrow> ('a \<Rightarrow> 'p embedded_worker \<Rightarrow> ('p, 'b) wres) \<Rightarrow> ('p, 'b) wres" where
  "wbind m f = mbind m (\<lambda>r. case r of None \<Rightarrow> MDone None | Some (Inl e, w) \<Rightarrow> wraise w e | Some (Inr x, w) \<Rightarrow> f x w)"

definition worker_start :: "'p process_ops \<Rightarrow> string \<Rightarrow> ('p embedded_worker, unit) act" where
  "worker_start P source w =
     (case ew_process w of
        Some _ \<Rightarrow>
          if ew_initial_source w \<noteq> Some source
          then (Inl (EmbeddedWorkerError ''worker is already running with a different initial source''), w)
          else (Inr (), w)
      | None \<Rightarrow>
          (case po_spawn P source of
             Inl e \<Rightarrow> (Inl e, w)
           | Inr p \<Rightarrow> (Inr (), w\<lparr>ew_process := Some p, ew_initial_source := Some source\<rparr>)))"

section \<open>The request loop\<close>

definition set_process :: "'p \<Rightarrow> 'p embedded_worker \<Rightarrow> 'p embedded_worker" where
  "set_process p w = w\<lparr>ew_process := Some p\<rparr>"

text \<open>Write a reply line; a broken pipe here is not translated.\<close>

definition reply :: "'p process_ops \<Rightarrow> 'p \<Rightarrow> string \<Rightarrow> 'p embedded_worker \<Rightarrow>
    ('p embedded_worker \<Rightarrow> ('p, 'a) wres) \<Rightarrow> ('p, 'a) wres" where
  "reply P p line w k =
     (case po_write P (line @ [CHR 0x0A]) p of
        (Inl e, p') \<Rightarrow> wraise (set_process p' w) e
      | (Inr _, p') \<Rightarrow> k (set_process p' w))"

text \<open>
  The callbacks as the loop serves them. A \<open>ValueError\<close>, \<open>TypeError\<close> or \<open>IndexError\<close> of a byte
  read or of a write is reported as an invalid request; a chunk without a chunk callback is
  \<open>bytes(self._memory_read(address + offset) for offset in range(size))\<close>, whose exceptions are not
  translated.
\<close>

definition is_value_error :: "py_error \<Rightarrow> bool" where
  "is_value_error e \<longleftrightarrow>
     (case e of ValueError _ \<Rightarrow> True | TypeError _ \<Rightarrow> True | IndexError \<Rightarrow> True | UnicodeDecodeError \<Rightarrow> True
      | ElfFormatError _ \<Rightarrow> True | ElfError _ \<Rightarrow> True | PTOISANoteError _ \<Rightarrow> True | ProfileError _ \<Rightarrow> True | _ \<Rightarrow> False)"

definition translate :: "string \<Rightarrow> ('s, 'a) act \<Rightarrow> ('s, 'a) act" where
  "translate msg m s =
     (case m s of
        (Inl e, s') \<Rightarrow> (Inl (if is_value_error e then EmbeddedWorkerError msg else e), s')
      | (Inr x, s') \<Rightarrow> (Inr x, s'))"

fun read_bytes :: "'s mem_ops \<Rightarrow> int \<Rightarrow> nat \<Rightarrow> ('s, byte list) act" where
  "read_bytes ops a 0 s = (Inr [], s)"
| "read_bytes ops a (Suc n) s =
     (case mo_read ops a s of
        (Inl e, s') \<Rightarrow> (Inl e, s')
      | (Inr v, s') \<Rightarrow>
          if \<not> (0 \<le> v \<and> v < 256) then (Inl (ValueError ''bytes must be in range(0, 256)''), s')
          else (case read_bytes ops (a + 1) n s' of
                  (Inl e, s'') \<Rightarrow> (Inl e, s'') | (Inr bs, s'') \<Rightarrow> (Inr (word_of_int v # bs), s'')))"

definition served_ops :: "bool \<Rightarrow> 's mem_ops \<Rightarrow> 's mem_ops" where
  "served_ops has_chunk ops =
     \<lparr>mo_read = (\<lambda>a. translate ''invalid ASL memory read request'' (mo_read ops a)),
      mo_chunk = (\<lambda>a n. if has_chunk then mo_chunk ops a n else read_bytes ops a (nat n)),
      mo_write = (\<lambda>a v. translate ''invalid ASL memory write request'' (mo_write ops a v))\<rparr>"

definition send_chunk :: "'p process_ops \<Rightarrow> 'p \<Rightarrow> int \<Rightarrow> int \<Rightarrow> 'p embedded_worker \<Rightarrow>
    ('p embedded_worker \<Rightarrow> ('p, 'a) wres) \<Rightarrow> byte list \<Rightarrow> ('p, 'a) wres" where
  "send_chunk P p address sz w k payload =
     (if payload = [] \<or> int (length payload) > sz then
        wraise w (EmbeddedWorkerError ''host memory bridge returned an invalid chunk'')
      else
        let w = w\<lparr>ew_stats := (ew_stats w)\<lparr>ps_chunk_reads := ps_chunk_reads (ew_stats w) + 1,
                    ps_chunk_read_bytes := ps_chunk_read_bytes (ew_stats w) + int (length payload)\<rparr>\<rparr>
        in reply P p (''mem_chunk '' @ py_dec address @ '' '' @ bytes_hex payload) w k)"

definition serve_chunk :: "'p process_ops \<Rightarrow> 'p \<Rightarrow> string \<Rightarrow> 'p embedded_worker \<Rightarrow>
    ('p embedded_worker \<Rightarrow> ('p, 'a) wres) \<Rightarrow> ('p, 'a) wres" where
  "serve_chunk P p line w k =
     (case py_split line of
        [_, a, n] \<Rightarrow>
          (case (py_int 0 a, py_int 0 n) of
             (Inr address, Inr sz) \<Rightarrow>
               if \<not> (0 < sz \<and> sz \<le> 4096) then wraise w (EmbeddedWorkerError ''invalid ASL memory chunk size'')
               else if ew_has_read_chunk w \<or> ew_has_read w then MChunk address sz (send_chunk P p address sz w k)
               else wraise w (EmbeddedWorkerError ''ASL requested memory but no host memory bridge is attached'')
           | _ \<Rightarrow> wraise w (EmbeddedWorkerError ''invalid ASL memory chunk request''))
      | _ \<Rightarrow> wraise w (EmbeddedWorkerError ''invalid ASL memory chunk request''))"

definition serve_read :: "'p process_ops \<Rightarrow> 'p \<Rightarrow> string \<Rightarrow> 'p embedded_worker \<Rightarrow>
    ('p embedded_worker \<Rightarrow> ('p, 'a) wres) \<Rightarrow> ('p, 'a) wres" where
  "serve_read P p line w k =
     (if \<not> ew_has_read w then
        wraise w (EmbeddedWorkerError ''ASL requested memory but no host memory bridge is attached'')
      else
        (case py_int 0 (snd (partition_space line)) of
           Inl _ \<Rightarrow> wraise w (EmbeddedWorkerError ''invalid ASL memory read request'')
         | Inr address \<Rightarrow>
             MRead address (\<lambda>v.
               if \<not> (0 \<le> v \<and> v \<le> 255) then
                 wraise w (EmbeddedWorkerError ''host memory bridge returned non-byte value'')
               else
                 let w = w\<lparr>ew_stats := (ew_stats w)\<lparr>ps_byte_reads := ps_byte_reads (ew_stats w) + 1\<rparr>\<rparr>
                 in reply P p (''mem_value '' @ py_dec v) w k)))"

definition serve_write :: "'p process_ops \<Rightarrow> 'p \<Rightarrow> string \<Rightarrow> 'p embedded_worker \<Rightarrow>
    ('p embedded_worker \<Rightarrow> ('p, 'a) wres) \<Rightarrow> ('p, 'a) wres" where
  "serve_write P p line w k =
     (if \<not> ew_has_write w then
        wraise w (EmbeddedWorkerError ''ASL requested memory write but no host memory bridge is attached'')
      else
        (case py_split line of
           [_, a, x] \<Rightarrow>
             (case (py_int 0 a, py_int 0 x) of
                (Inr address, Inr v) \<Rightarrow>
                  MWrite address v
                    (let w = w\<lparr>ew_stats := (ew_stats w)\<lparr>ps_byte_writes := ps_byte_writes (ew_stats w) + 1\<rparr>\<rparr>
                     in reply P p ''mem_status 0'' w k)
              | _ \<Rightarrow> wraise w (EmbeddedWorkerError ''invalid ASL memory write request''))
         | _ \<Rightarrow> wraise w (EmbeddedWorkerError ''invalid ASL memory write request'')))"

fun serve :: "'p process_ops \<Rightarrow> nat \<Rightarrow> 'p embedded_worker \<Rightarrow> ('p, string) wres" where
  "serve P 0 w = MDone None"
| "serve P (Suc fuel) w =
     (case ew_process w of
        None \<Rightarrow> wraise w (EmbeddedWorkerError ''worker is not running'')
      | Some p \<Rightarrow>
          (case po_readline P p of
             (Inl e, p') \<Rightarrow> wraise (set_process p' w) e
           | (Inr None, p') \<Rightarrow> wraise (set_process p' w) (EmbeddedWorkerError ''worker closed stdout'')
           | (Inr (Some line), p') \<Rightarrow>
               let w = set_process p' w in
               if py_startswith line ''mem_read_chunk '' then serve_chunk P p' line w (serve P fuel)
               else if py_startswith line ''mem_read '' then serve_read P p' line w (serve P fuel)
               else if py_startswith line ''mem_write '' then serve_write P p' line w (serve P fuel)
               else wret w line))"

definition rstrip_newlines :: "string \<Rightarrow> string" where
  "rstrip_newlines s = rev (dropWhile (\<lambda>c. c = CHR 0x0A) (rev s))"

definition request :: "'p process_ops \<Rightarrow> nat \<Rightarrow> string \<Rightarrow> 'p embedded_worker \<Rightarrow> ('p, string) wres" where
  "request P fuel command w =
     (case worker_start P (case ew_initial_source w of None \<Rightarrow> [] | Some s \<Rightarrow> s) w of
        (Inl e, w) \<Rightarrow> wraise w e
      | (Inr _, w) \<Rightarrow>
          (case ew_process w of
             None \<Rightarrow> wraise w (EmbeddedWorkerError ''worker is not running'')
           | Some p \<Rightarrow>
               if \<not> po_alive P p then wraise w (EmbeddedWorkerError ''worker exited'')
               else
                 (case po_write P (rstrip_newlines command @ [CHR 0x0A]) p of
                    (Inl e, p') \<Rightarrow> wraise (set_process p' w) (EmbeddedWorkerError ''worker write failed'')
                  | (Inr _, p') \<Rightarrow> serve P fuel (set_process p' w))))"

section \<open>Commands\<close>

text \<open>A command whose only good answer is \<open>status 0\<close>.\<close>

definition expect_status0 :: "string \<Rightarrow> string \<Rightarrow> 'p embedded_worker \<Rightarrow> ('p, unit) wres" where
  "expect_status0 msg response w =
     (if response \<noteq> ''status 0'' then wraise w (EmbeddedWorkerError msg) else wret w ())"

text \<open>An answer \<open>prefix number\<close>: the prefix must match and the rest be a decimal integer.\<close>

definition expect_int :: "string \<Rightarrow> string \<Rightarrow> string \<Rightarrow> 'p embedded_worker \<Rightarrow> ('p, int) wres" where
  "expect_int pre name response w =
     (let (p, v) = partition_space response in
      if p \<noteq> pre then wraise w (EmbeddedWorkerError (''unexpected '' @ name @ '' response''))
      else case py_int 10 v of
             Inl _ \<Rightarrow> wraise w (EmbeddedWorkerError (''invalid '' @ name @ '' response''))
           | Inr i \<Rightarrow> wret w i)"

definition request_value ::
  "'p process_ops \<Rightarrow> nat \<Rightarrow> string \<Rightarrow> string \<Rightarrow> 'p embedded_worker \<Rightarrow> ('p, int) wres" where
  "request_value P fuel command name w = wbind (request P fuel command w) (expect_int ''value'' name)"

definition ping :: "'p process_ops \<Rightarrow> nat \<Rightarrow> 'p embedded_worker \<Rightarrow> ('p, unit) wres" where
  "ping P fuel w = wbind (request P fuel ''ping'' w) (expect_status0 ''unexpected ping response'')"

definition clear_memory_cache :: "'p process_ops \<Rightarrow> nat \<Rightarrow> 'p embedded_worker \<Rightarrow> ('p, unit) wres" where
  "clear_memory_cache P fuel w =
     wbind (request P fuel ''clear_mem_cache'' w) (expect_status0 ''embedded ASL memory cache clear failed'')"

definition worker_step ::
  "'p process_ops \<Rightarrow> nat \<Rightarrow> int \<Rightarrow> int \<Rightarrow> 'p embedded_worker \<Rightarrow> ('p, int) wres" where
  "worker_step P fuel instruction length_bits w =
     (if \<not> (0 \<le> instruction \<and> instruction < 2 ^ 64) then wraise w (ValueError ''instruction must fit in 64 bits'')
      else if length_bits \<notin> {16, 32, 48, 64} then
        wraise w (ValueError ''length_bits must be one of 16, 32, 48, or 64'')
      else wbind (request P fuel (''step 0x'' @ py_hex instruction @ '' '' @ py_dec length_bits) w)
             (expect_int ''status'' ''step''))"

record auto_step_result =
  as_status :: int
  as_length_bits :: int
  as_fault_code :: int
  as_tpc :: int
  as_instruction :: int

definition auto_step_ok :: "auto_step_result \<Rightarrow> bool" where
  "auto_step_ok r \<longleftrightarrow> as_status r \<in> {0, 1} \<and> as_length_bits r \<in> {0, 16, 32, 48, 64}
     \<and> 0 \<le> as_instruction r \<and> as_instruction r < 2 ^ 64 \<and> 0 \<le> as_tpc r"

definition parse_step_result :: "string \<Rightarrow> auto_step_result res" where
  "parse_step_result response =
     (case py_split response of
        [tag, a, b, c, d, e] \<Rightarrow>
          if tag \<noteq> ''step_result'' then Inl (EmbeddedWorkerError ''unexpected step_auto response'')
          else
            (case rmap (py_int 10) [a, b, c, d, e] of
               Inl _ \<Rightarrow> Inl (EmbeddedWorkerError ''invalid step_auto response'')
             | Inr vs \<Rightarrow>
                 let status = vs ! 0; len = vs ! 1; fault = vs ! 2; tpc = vs ! 3; instruction = vs ! 4 in
                 if status \<notin> {0, 1} then Inl (EmbeddedWorkerError ''invalid step_auto status'')
                 else if len \<notin> {0, 16, 32, 48, 64} then Inl (EmbeddedWorkerError ''invalid step_auto length'')
                 else if \<not> (0 \<le> instruction \<and> instruction < 2 ^ 64) then
                   Inl (EmbeddedWorkerError ''invalid step_auto instruction'')
                 else if tpc < 0 then Inl (EmbeddedWorkerError ''invalid step_auto TPC'')
                 else Inr \<lparr>as_status = status, as_length_bits = len, as_fault_code = fault, as_tpc = tpc,
                           as_instruction = instruction\<rparr>)
      | _ \<Rightarrow> Inl (EmbeddedWorkerError ''unexpected step_auto response''))"

definition lift_res :: "'a res \<Rightarrow> 'p embedded_worker \<Rightarrow> ('p, 'a) wres" where
  "lift_res r w = (case r of Inl e \<Rightarrow> wraise w e | Inr x \<Rightarrow> wret w x)"

definition step_auto :: "'p process_ops \<Rightarrow> nat \<Rightarrow> 'p embedded_worker \<Rightarrow> ('p, auto_step_result) wres" where
  "step_auto P fuel w = wbind (request P fuel ''step_auto'' w) (\<lambda>response. lift_res (parse_step_result response))"

definition decode_length :: "'p process_ops \<Rightarrow> nat \<Rightarrow> int \<Rightarrow> 'p embedded_worker \<Rightarrow> ('p, int) wres" where
  "decode_length P fuel instruction w =
     (if \<not> (0 \<le> instruction \<and> instruction < 2 ^ 64) then wraise w (ValueError ''instruction must fit in 64 bits'')
      else wbind (request_value P fuel (''decode_length 0x'' @ py_hex instruction) ''decode_length'' w) (\<lambda>n w.
        if n \<notin> {0, 16, 32, 48, 64} then wraise w (EmbeddedWorkerError ''invalid decoded instruction length'')
        else wret w n))"

definition peek_tpc :: "'p process_ops \<Rightarrow> nat \<Rightarrow> 'p embedded_worker \<Rightarrow> ('p, int) wres" where
  "peek_tpc P fuel w = request_value P fuel ''peek_tpc'' ''peek_tpc'' w"

definition worker_read_memory_byte :: "'p process_ops \<Rightarrow> nat \<Rightarrow> int \<Rightarrow> 'p embedded_worker \<Rightarrow> ('p, int) wres" where
  "worker_read_memory_byte P fuel address w =
     (if address < 0 then wraise w (ValueError ''memory address must be non-negative'')
      else wbind (request_value P fuel (''read_mem 0x'' @ py_hex address) ''read_mem'' w) (\<lambda>b w.
        if \<not> (0 \<le> b \<and> b \<le> 255) then wraise w (EmbeddedWorkerError ''read_mem returned non-byte value'')
        else wret w b))"

definition worker_write_memory_byte ::
  "'p process_ops \<Rightarrow> nat \<Rightarrow> int \<Rightarrow> int \<Rightarrow> 'p embedded_worker \<Rightarrow> ('p, unit) wres" where
  "worker_write_memory_byte P fuel address v w =
     (if address < 0 then wraise w (ValueError ''memory address must be non-negative'')
      else if \<not> (0 \<le> v \<and> v \<le> 255) then wraise w (ValueError ''memory value must fit in one byte'')
      else wbind (request P fuel (''write_mem 0x'' @ py_hex address @ '' '' @ py_dec v) w)
             (expect_status0 ''unexpected write_mem response''))"

definition peek_fault :: "'p process_ops \<Rightarrow> nat \<Rightarrow> 'p embedded_worker \<Rightarrow> ('p, int) wres" where
  "peek_fault P fuel w = request_value P fuel ''peek_fault'' ''peek_fault'' w"

definition select_pe :: "'p process_ops \<Rightarrow> nat \<Rightarrow> int \<Rightarrow> 'p embedded_worker \<Rightarrow> ('p, unit) wres" where
  "select_pe P fuel pe_id w =
     (if pe_id < 0 then wraise w (ValueError ''PE id must be a non-negative integer'')
      else wbind (request P fuel (''select_pe '' @ py_dec pe_id) w) (expect_status0 ''unexpected select_pe response''))"

definition peek_pe_gpr :: "'p process_ops \<Rightarrow> nat \<Rightarrow> int \<Rightarrow> int \<Rightarrow> 'p embedded_worker \<Rightarrow> ('p, int) wres" where
  "peek_pe_gpr P fuel pe_id index w =
     (if pe_id < 0 then wraise w (ValueError ''PE id must be a non-negative integer'')
      else if index < 0 then wraise w (ValueError ''GPR index must be a non-negative integer'')
      else request_value P fuel (''peek_pe_gpr '' @ py_dec pe_id @ '' '' @ py_dec index) ''peek_pe_gpr'' w)"

definition peek_selected_pe :: "'p process_ops \<Rightarrow> nat \<Rightarrow> 'p embedded_worker \<Rightarrow> ('p, int) wres" where
  "peek_selected_pe P fuel w = request_value P fuel ''peek_pe'' ''peek_pe'' w"

text \<open>A value that must be 0 or 1.\<close>

definition expect_flag :: "string \<Rightarrow> int \<Rightarrow> 'p embedded_worker \<Rightarrow> ('p, bool) wres" where
  "expect_flag msg marker w =
     (if marker \<notin> {0, 1} then wraise w (EmbeddedWorkerError msg) else wret w (marker \<noteq> 0))"

definition peek_terminal_pending :: "'p process_ops \<Rightarrow> nat \<Rightarrow> 'p embedded_worker \<Rightarrow> ('p, bool) wres" where
  "peek_terminal_pending P fuel w =
     wbind (request_value P fuel ''peek_terminal_pending'' ''peek_terminal_pending'' w)
       (expect_flag ''invalid terminal marker'')"

definition peek_flag :: "'p process_ops \<Rightarrow> nat \<Rightarrow> string \<Rightarrow> 'p embedded_worker \<Rightarrow> ('p, bool) wres" where
  "peek_flag P fuel command w =
     wbind (request_value P fuel command command w) (expect_flag (''invalid '' @ command @ '' marker''))"

definition peek_bundle_active :: "'p process_ops \<Rightarrow> nat \<Rightarrow> 'p embedded_worker \<Rightarrow> ('p, bool) wres" where
  "peek_bundle_active P fuel w = peek_flag P fuel ''peek_bundle_active'' w"

definition peek_bundle_body_active :: "'p process_ops \<Rightarrow> nat \<Rightarrow> 'p embedded_worker \<Rightarrow> ('p, bool) wres" where
  "peek_bundle_body_active P fuel w = peek_flag P fuel ''peek_bundle_body_active'' w"

definition peek_block_collective :: "'p process_ops \<Rightarrow> nat \<Rightarrow> 'p embedded_worker \<Rightarrow> ('p, bool) wres" where
  "peek_block_collective P fuel w = peek_flag P fuel ''peek_block_collective'' w"

definition peek_acr :: "'p process_ops \<Rightarrow> nat \<Rightarrow> 'p embedded_worker \<Rightarrow> ('p, int) wres" where
  "peek_acr P fuel w = request_value P fuel ''peek_acr'' ''peek_acr'' w"

definition peek_control_request :: "'p process_ops \<Rightarrow> nat \<Rightarrow> 'p embedded_worker \<Rightarrow> ('p, int) wres" where
  "peek_control_request P fuel w = request_value P fuel ''peek_control_request'' ''peek_control_request'' w"

definition peek_barg_bpcn :: "'p process_ops \<Rightarrow> nat \<Rightarrow> 'p embedded_worker \<Rightarrow> ('p, int) wres" where
  "peek_barg_bpcn P fuel w = request_value P fuel ''peek_barg_bpcn'' ''peek_barg_bpcn'' w"

definition peek_barg_word :: "'p process_ops \<Rightarrow> nat \<Rightarrow> 'p embedded_worker \<Rightarrow> ('p, int) wres" where
  "peek_barg_word P fuel w = request_value P fuel ''peek_barg_word'' ''peek_barg_word'' w"

text \<open>Here a malformed number is not translated: the \<open>ValueError\<close> of \<open>int\<close> escapes.\<close>

definition peek_shared_flags :: "'p process_ops \<Rightarrow> nat \<Rightarrow> int \<Rightarrow> 'p embedded_worker \<Rightarrow> ('p, int) wres" where
  "peek_shared_flags P fuel shared_id w =
     wbind (request P fuel (''peek_shared '' @ py_dec shared_id) w) (\<lambda>response w.
       let (p, v) = partition_space response in
       if p \<noteq> ''value'' then wraise w (EmbeddedWorkerError ''unexpected peek_shared response'')
       else lift_res (py_int 10 v) w)"

definition set_tpc :: "'p process_ops \<Rightarrow> nat \<Rightarrow> int \<Rightarrow> 'p embedded_worker \<Rightarrow> ('p, unit) wres" where
  "set_tpc P fuel v w =
     (if v < 0 \<or> v \<ge> 2 ^ 64 then wraise w (ValueError ''TPC must fit in 64 bits'')
      else wbind (request P fuel (''set_tpc 0x'' @ py_hex v) w) (expect_status0 ''unexpected set_tpc response''))"

definition worker_reset :: "'p process_ops \<Rightarrow> nat \<Rightarrow> 'p embedded_worker \<Rightarrow> ('p, unit) wres" where
  "worker_reset P fuel w = wbind (request P fuel ''reset'' w) (expect_status0 ''embedded ASL reset failed'')"

text \<open>\<open>stop\<close> as seen by the worker object: the process is gone and so is the initial source.\<close>

definition worker_stop :: "'p embedded_worker \<Rightarrow> 'p embedded_worker" where
  "worker_stop w = (case ew_process w of None \<Rightarrow> w | Some _ \<Rightarrow> w\<lparr>ew_process := None, ew_initial_source := None\<rparr>)"


section \<open>Lemmas\<close>

lemma may_answer_wbind:
  "may_answer (wbind m f) (Some (Inr y, w')) \<longleftrightarrow>
     (\<exists>x w. may_answer m (Some (Inr x, w)) \<and> may_answer (f x w) (Some (Inr y, w')))"
proof
  assume "may_answer (wbind m f) (Some (Inr y, w'))"
  then obtain r where r: "may_answer m r"
    "may_answer (case r of None \<Rightarrow> MDone None | Some (Inl e, w) \<Rightarrow> wraise w e | Some (Inr x, w) \<Rightarrow> f x w) (Some (Inr y, w'))"
    by (auto simp: wbind_def may_answer_mbind)
  then show "\<exists>x w. may_answer m (Some (Inr x, w)) \<and> may_answer (f x w) (Some (Inr y, w'))"
    by (cases r) (auto simp: wraise_def split: sum.splits prod.splits)
qed (force simp: wbind_def may_answer_mbind)

lemma parse_step_result_ok: "parse_step_result s = Inr r \<Longrightarrow> auto_step_ok r"
  unfolding parse_step_result_def Let_def
  by (simp add: guard_eq_Inr auto_step_ok_def split: list.splits sum.splits if_splits) auto

section \<open>Properties\<close>

text \<open>
  C12: nothing the process writes gets past the host unchecked. Whatever the process answers and
  whatever the memory holds, a step that is reported as a result has a status of 0 or 1, an
  architectural width or 0, a 64-bit instruction and a non-negative program counter; decoded
  lengths, bytes and terminal markers are in range as well.
\<close>

theorem worker_replies_validated:
  "(run_prog (served_ops b ops) (step_auto P fuel w) s = (Inr (Some (Inr r, w')), s') \<longrightarrow> auto_step_ok r)
   \<and> (run_prog (served_ops b ops) (decode_length P fuel i w) s = (Inr (Some (Inr n, w')), s') \<longrightarrow> n \<in> {0, 16, 32, 48, 64})
   \<and> (run_prog (served_ops b ops) (worker_read_memory_byte P fuel a w) s = (Inr (Some (Inr v, w')), s') \<longrightarrow> 0 \<le> v \<and> v \<le> 255)"
proof (intro conjI impI)
  assume "run_prog (served_ops b ops) (step_auto P fuel w) s = (Inr (Some (Inr r, w')), s')"
  then have "may_answer (step_auto P fuel w) (Some (Inr r, w'))" by (rule run_prog_may_answer)
  then obtain response where "parse_step_result response = Inr r"
    unfolding step_auto_def may_answer_wbind lift_res_def wraise_def wret_def
    by (fastforce split: sum.splits)
  then show "auto_step_ok r" by (rule parse_step_result_ok)
next
  assume "run_prog (served_ops b ops) (decode_length P fuel i w) s = (Inr (Some (Inr n, w')), s')"
  then have "may_answer (decode_length P fuel i w) (Some (Inr n, w'))" by (rule run_prog_may_answer)
  then show "n \<in> {0, 16, 32, 48, 64}"
    by (auto simp: decode_length_def may_answer_wbind wraise_def wret_def split: if_splits)
next
  assume "run_prog (served_ops b ops) (worker_read_memory_byte P fuel a w) s = (Inr (Some (Inr v, w')), s')"
  then have m: "may_answer (worker_read_memory_byte P fuel a w) (Some (Inr v, w'))" by (rule run_prog_may_answer)
  then have "\<not> a < 0" by (auto simp: worker_read_memory_byte_def wraise_def split: if_splits)
  with m have "0 \<le> v \<and> v \<le> 255"
    by (auto simp: worker_read_memory_byte_def may_answer_wbind wraise_def wret_def split: if_splits)
  then show "0 \<le> v" "v \<le> 255" by simp_all
qed

text \<open>
  The answer line of an automatic step, printed as the wrapper prints it (the tag and five
  decimal numbers), is read back as exactly these numbers.
\<close>

definition step_result_line :: "auto_step_result \<Rightarrow> string" where
  "step_result_line r = unwords [''step_result'', py_dec (as_status r), py_dec (as_length_bits r),
     py_dec (as_fault_code r), py_dec (as_tpc r), py_dec (as_instruction r)]"

theorem step_result_roundtrip:
  assumes "auto_step_ok r"
  shows "parse_step_result (step_result_line r) = Inr r"
proof -
  have "word_ok ''step_result''" by (simp add: word_ok_def is_space_def)
  then have "py_split (step_result_line r) = [''step_result'', py_dec (as_status r), py_dec (as_length_bits r),
     py_dec (as_fault_code r), py_dec (as_tpc r), py_dec (as_instruction r)]"
    unfolding step_result_line_def by (intro py_split_unwords) auto
  with assms show ?thesis
    by (cases r) (auto simp: parse_step_result_def auto_step_ok_def Let_def)
qed

theorem step_result_roundtrip_witness:
  "parse_step_result (step_result_line \<lparr>as_status = 1, as_length_bits = 32, as_fault_code = - 3,
     as_tpc = 4096, as_instruction = 255\<rparr>) = Inr \<lparr>as_status = 1, as_length_bits = 32, as_fault_code = - 3,
     as_tpc = 4096, as_instruction = 255\<rparr>"
  by (rule step_result_roundtrip) (simp add: auto_step_ok_def)

text \<open>
  A memory chunk reaches the worker unchanged: when the worker asks for a chunk and the
  memory answers with bytes, the line written back is one whose words are the tag, the address
  in decimal and the hexadecimal digits of exactly these bytes, and the counters advance by it.
\<close>

theorem chunk_reply_roundtrip:
  assumes "ew_has_read_chunk w" and "0 < n" and "n \<le> 4096" and "0 \<le> address"
    and "bs \<noteq> []" and "int (length bs) \<le> n" and "mo_chunk ops address n s = (Inr bs, s')"
  shows "\<exists>line w1. run_prog (served_ops True ops) (serve_chunk P p (unwords [''mem_read_chunk'', py_dec address, py_dec n]) w k) s
      = run_prog (served_ops True ops) (reply P p line w1 k) s'
    \<and> (\<exists>a h. py_split line = [''mem_chunk'', a, h] \<and> py_int 10 a = Inr address \<and> hex_decode h = Some bs)
    \<and> ps_chunk_reads (ew_stats w1) = ps_chunk_reads (ew_stats w) + 1
    \<and> ps_chunk_read_bytes (ew_stats w1) = ps_chunk_read_bytes (ew_stats w) + int (length bs)"
proof -
  have tag: "word_ok ''mem_read_chunk''" "word_ok ''mem_chunk''" by (simp_all add: word_ok_def is_space_def)
  have words: "py_split (unwords [''mem_read_chunk'', py_dec address, py_dec n]) = [''mem_read_chunk'', py_dec address, py_dec n]"
    by (rule py_split_unwords) (use tag in auto)
  have ints: "py_int 0 (py_dec address) = Inr address" "py_int 0 (py_dec n) = Inr n"
    using assms(2,4) by (simp_all add: py_int0_dec)
  let ?line = "''mem_chunk '' @ py_dec address @ '' '' @ bytes_hex bs"
  let ?w1 = "w\<lparr>ew_stats := (ew_stats w)\<lparr>ps_chunk_reads := ps_chunk_reads (ew_stats w) + 1,
                    ps_chunk_read_bytes := ps_chunk_read_bytes (ew_stats w) + int (length bs)\<rparr>\<rparr>"
  have "?line = unwords [''mem_chunk'', py_dec address, bytes_hex bs]" by simp
  then have sp: "py_split ?line = [''mem_chunk'', py_dec address, bytes_hex bs]"
    using py_split_unwords [of "[''mem_chunk'', py_dec address, bytes_hex bs]"] tag word_ok_hex [OF assms(5)] by simp
  have run: "run_prog (served_ops True ops) (serve_chunk P p (unwords [''mem_read_chunk'', py_dec address, py_dec n]) w k) s
      = run_prog (served_ops True ops) (reply P p ?line ?w1 k) s'"
    using assms by (simp add: served_ops_def serve_chunk_def words ints abind_eqI send_chunk_def Let_def del: unwords.simps)
  show ?thesis
    by (rule exI [of _ ?line], rule exI [of _ ?w1]) (use run sp in simp)
qed

text \<open>A scripted process: the lines it will print, and what was written to it.\<close>

definition script_ops :: "(string list \<times> string list) process_ops" where
  "script_ops = \<lparr>po_spawn = (\<lambda>source. Inr ([], [])),
     po_write = (\<lambda>line p. (Inr (), (fst p, snd p @ [line]))),
     po_readline = (\<lambda>p. case fst p of [] \<Rightarrow> (Inr None, p) | l # ls \<Rightarrow> (Inr (Some l), (ls, snd p))),
     po_alive = (\<lambda>p. True)\<rparr>"

definition script_worker :: "string list \<Rightarrow> (string list \<times> string list) embedded_worker" where
  "script_worker ls = (EmbeddedAslWorker True True True)\<lparr>ew_process := Some (ls, []), ew_initial_source := Some []\<rparr>"

text \<open>A memory of zeros.\<close>

definition zero_ops :: "unit mem_ops" where
  "zero_ops = \<lparr>mo_read = (\<lambda>a s. (Inr 0, s)), mo_chunk = (\<lambda>a n s. (Inr [0, 0], s)), mo_write = (\<lambda>a v s. (Inr (), s))\<rparr>"

lemma answered:
  assumes "case x of (Inr (Some (Inr r, w)), s) \<Rightarrow> Q r w | _ \<Rightarrow> False"
  obtains r w s where "x = (Inr (Some (Inr r, w)), s)" and "Q r w"
proof -
  obtain y s where x: "x = (y, s)" by (cases x)
  with assms obtain z w where y: "y = Inr (Some (z, w))"
    by (cases y) (auto split: option.splits)
  with assms x obtain r where "z = Inr r" by (cases z) auto
  with assms x y that show thesis by simp
qed

theorem worker_replies_validated_witness:
  "case run_prog (served_ops True zero_ops) (step_auto script_ops 5
       (script_worker [''mem_read_chunk 4 2'', ''step_result 0 16 0 6 1''])) () of
     (Inr (Some (Inr r, w')), s') \<Rightarrow> auto_step_ok r \<and> as_tpc r = 6
       \<and> ew_process w' = Some ([], [''step_auto'' @ [CHR 0x0A], ''mem_chunk 4 0000'' @ [CHR 0x0A]])
   | _ \<Rightarrow> False"
proof -
  let ?w = "script_worker [''mem_read_chunk 4 2'', ''step_result 0 16 0 6 1'']"
  obtain r w' s' where run: "run_prog (served_ops True zero_ops) (step_auto script_ops 5 ?w) () = (Inr (Some (Inr r, w')), s')"
    and facts: "as_tpc r = 6" "ew_process w' = Some ([], [''step_auto'' @ [CHR 0x0A], ''mem_chunk 4 0000'' @ [CHR 0x0A]])"
  proof -
    have "case run_prog (served_ops True zero_ops) (step_auto script_ops 5 ?w) () of
       (Inr (Some (Inr r, w')), s') \<Rightarrow> as_tpc r = 6
         \<and> ew_process w' = Some ([], [''step_auto'' @ [CHR 0x0A], ''mem_chunk 4 0000'' @ [CHR 0x0A]])
     | _ \<Rightarrow> False" by code_simp
    then show ?thesis
      by (rule answered) (rule that, auto)
  qed
  have "auto_step_ok r" by (rule worker_replies_validated [THEN conjunct1, rule_format, OF run])
  with run facts show ?thesis by simp
qed

theorem chunk_reply_roundtrip_witness:
  "\<exists>line w2 u. run_prog (served_ops True zero_ops) (serve_chunk script_ops ([], [])
       (unwords [''mem_read_chunk'', py_dec 4096, py_dec 8]) (script_worker []) (\<lambda>w. wret w ())) ()
     = (Inr (Some (Inr (), w2)), u) \<and> ew_process w2 = Some ([], [line @ [CHR 0x0A]])
    \<and> hex_decode (py_split line ! 2) = Some [0, 0] \<and> ps_chunk_reads (ew_stats w2) = 1"
proof -
  have "\<exists>line w1. run_prog (served_ops True zero_ops) (serve_chunk script_ops ([], []) (unwords [''mem_read_chunk'', py_dec 4096, py_dec 8])
        (script_worker []) (\<lambda>w. wret w ())) ()
      = run_prog (served_ops True zero_ops) (reply script_ops ([], []) line w1 (\<lambda>w. wret w ())) ()
    \<and> (\<exists>a h. py_split line = [''mem_chunk'', a, h] \<and> py_int 10 a = Inr 4096 \<and> hex_decode h = Some [0, 0])
    \<and> ps_chunk_reads (ew_stats w1) = ps_chunk_reads (ew_stats (script_worker [])) + 1
    \<and> ps_chunk_read_bytes (ew_stats w1) = ps_chunk_read_bytes (ew_stats (script_worker [])) + int (length [0 :: byte, 0])"
    by (rule chunk_reply_roundtrip) (auto simp: script_worker_def EmbeddedAslWorker_def zero_ops_def)
  then obtain line w1 a h where l: "run_prog (served_ops True zero_ops) (serve_chunk script_ops ([], []) (unwords [''mem_read_chunk'', py_dec 4096, py_dec 8])
        (script_worker []) (\<lambda>w. wret w ())) ()
      = run_prog (served_ops True zero_ops) (reply script_ops ([], []) line w1 (\<lambda>w. wret w ())) ()"
    "py_split line = [''mem_chunk'', a, h]" "hex_decode h = Some [0, 0]" "ps_chunk_reads (ew_stats w1) = 1"
    by (auto simp: script_worker_def EmbeddedAslWorker_def)
  have "run_prog (served_ops True zero_ops) (reply script_ops ([], []) line w1 (\<lambda>w. wret w ())) ()
     = (Inr (Some (Inr (), set_process ([], [line @ [CHR 0x0A]]) w1)), ())"
    by (simp add: reply_def script_ops_def wret_def)
  with l show ?thesis
    by (intro exI [of _ line] exI [of _ "set_process ([], [line @ [CHR 0x0A]]) w1"] exI [of _ "()"])
       (simp add: set_process_def del: unwords.simps)
qed

end
