(* ===== verification/Model_Profile.thy ===== *)
theory Model_Profile
  imports Py_Text
begin

text \<open>
  The host-side policies that select and end a run: the named ASL model profiles of
  \<open>asl_model/runtime/profile.py\<close> and the completion policy of \<open>asl_model/runtime/completion.py\<close>,
  which recognises the terminating instruction by the masks of the ASL catalog.

  The files of the ASL tree are given as their lists of lines; \<open>json.loads\<close> is a parameter.
\<close>

section \<open>Profiles\<close>

record model_profile =
  mp_name :: string
  mp_switches :: "(string \<times> string) list"

definition known_profiles :: "(string, (string \<times> string) list) dict" where
  "known_profiles =
     [(''portable'', []),
      (''linx-runtime'',
        [(''PTO_MODEL_LINX_RUNTIME_COMPAT'', ''TRUE''),
         (''PTO_MODEL_ALLOW_SYSTEM_OPS_IN_NON_SYS_BLOCK'', ''TRUE''),
         (''PTO_MODEL_HOST_MEMORY'', ''TRUE''),
         (''PTO_MODEL_FRAME_SP_INDEX'', ''1''),
         (''PTO_MODEL_LINX_LEGACY_C_BSTOP'', ''TRUE''),
         (''PTO_MODEL_LINX_TRACE_BOUNDARY_COMPAT'', ''TRUE''),
         (''PTO_MODEL_MSET_MAX_BYTES'', ''262144'')])]"

definition profile_select :: "string \<Rightarrow> model_profile res" where
  "profile_select nm =
     (case map_of known_profiles nm of
        None \<Rightarrow> Inl (ProfileError (''unknown ASL model profile: '' @ nm))
      | Some switches \<Rightarrow> Inr \<lparr>mp_name = nm, mp_switches = switches\<rparr>)"

definition frame_sp_index :: "model_profile \<Rightarrow> int res" where
  "frame_sp_index p =
     (case find (\<lambda>sv. fst sv = ''PTO_MODEL_FRAME_SP_INDEX'') (mp_switches p) of
        Some sv \<Rightarrow> py_int 0 (snd sv)
      | None \<Rightarrow> Inr 1)"

section \<open>Completion\<close>

record completion_encoding =
  ce_mnemonic :: string
  ce_width_bits :: int
  ce_mask :: int
  ce_match :: int

definition is_terminal :: "completion_encoding list \<Rightarrow> int \<Rightarrow> int \<Rightarrow> bool" where
  "is_terminal encodings instruction length_bits \<longleftrightarrow>
     list_ex (\<lambda>e. length_bits = ce_width_bits e \<and> instruction AND ce_mask e = ce_match e) encodings"

text \<open>Accesses to decoded JSON: \<open>value.get(key, default)\<close>, iteration, \<open>int(value)\<close> and \<open>int(value, 0)\<close>.\<close>

definition json_get :: "pyval \<Rightarrow> string \<Rightarrow> pyval \<Rightarrow> pyval res" where
  "json_get v k dflt = (case v of PDict d \<Rightarrow> Inr (dict_get d k dflt) | _ \<Rightarrow> Inl (AttributeError ''get''))"

definition json_item :: "pyval \<Rightarrow> string \<Rightarrow> pyval res" where
  "json_item v k =
     (case v of
        PDict d \<Rightarrow> (case map_of d k of None \<Rightarrow> Inl (KeyError k) | Some x \<Rightarrow> Inr x)
      | _ \<Rightarrow> Inl (TypeError ''not subscriptable''))"

definition json_iter :: "pyval \<Rightarrow> pyval list res" where
  "json_iter v =
     (case v of
        PList xs \<Rightarrow> Inr xs
      | PTuple xs \<Rightarrow> Inr xs
      | PDict d \<Rightarrow> Inr (map (\<lambda>kv. PStr (fst kv)) d)
      | PStr s \<Rightarrow> Inr (map (\<lambda>c. PStr [c]) s)
      | PBytes bs \<Rightarrow> Inr (map (\<lambda>b. PInt (uint b)) bs)
      | _ \<Rightarrow> Inl (TypeError ''not iterable''))"

definition json_int :: "pyval \<Rightarrow> int res" where
  "json_int v =
     (case v of
        PInt i \<Rightarrow> Inr i
      | PBool b \<Rightarrow> Inr (if b then 1 else 0)
      | PStr s \<Rightarrow> py_int 10 s
      | _ \<Rightarrow> Inl (TypeError ''int''))"

definition json_int0 :: "pyval \<Rightarrow> int res" where
  "json_int0 v = (case v of PStr s \<Rightarrow> py_int 0 s | _ \<Rightarrow> Inl (TypeError ''int with explicit base''))"

definition form_encoding :: "pyval \<Rightarrow> completion_encoding res" where
  "form_encoding encoding =
     rbind (json_item encoding ''width_bits'') (\<lambda>w. rbind (json_int w) (\<lambda>width.
     rbind (json_item encoding ''mask'') (\<lambda>k. rbind (json_int0 k) (\<lambda>mask.
     rbind (json_item encoding ''match'') (\<lambda>t. rbind (json_int0 t) (\<lambda>mtch.
       Inr \<lparr>ce_mnemonic = ''ACRC'', ce_width_bits = width, ce_mask = mask, ce_match = mtch\<rparr>))))))"

text \<open>One form of a record: \<open>None\<close> when it is not an ACRC form.\<close>

definition acrc_form :: "pyval \<Rightarrow> completion_encoding list option res" where
  "acrc_form form =
     rbind (json_get form ''mnemonic'' PNone) (\<lambda>mn.
       if mn \<noteq> PStr ''ACRC'' then Inr None
       else rbind (json_get form ''encoding'' (PList [])) (\<lambda>es.
            rbind (json_iter es) (\<lambda>es.
            rbind (rmap form_encoding es) (\<lambda>cs. Inr (Some cs)))))"

definition record_forms :: "pyval \<Rightarrow> pyval list res" where
  "record_forms record =
     rbind (json_get record ''catalog_records'' (PList [])) (\<lambda>cr.
     rbind (json_iter cr) (\<lambda>forms.
     rbind (json_get record ''mnemonic'' PNone) (\<lambda>mn.
       Inr (if mn = PStr ''ACRC'' then record # forms else forms))))"

text \<open>The lines of one file; the first record with an ACRC form ends the file.\<close>

fun file_encodings :: "(string \<Rightarrow> pyval res) \<Rightarrow> string list \<Rightarrow> completion_encoding list res" where
  "file_encodings loads [] = Inr []"
| "file_encodings loads (line # ls) =
     (if \<not> py_startswith line ''// PTO-INSTRUCTION: '' then file_encodings loads ls
      else rbind (loads (drop (length ''// PTO-INSTRUCTION: '') line)) (\<lambda>record.
           rbind (record_forms record) (\<lambda>forms.
           rbind (rmap acrc_form forms) (\<lambda>fs.
             let found = concat (map (\<lambda>f. case f of None \<Rightarrow> [] | Some cs \<Rightarrow> cs) fs) in
             if list_ex (\<lambda>f. f \<noteq> None) fs then Inr found
             else file_encodings loads ls))))"

definition load_encodings ::
  "(string \<Rightarrow> pyval res) \<Rightarrow> string list list \<Rightarrow> completion_encoding list res" where
  "load_encodings loads files =
     rbind (rmap (file_encodings loads) files) (\<lambda>ess.
       if concat ess = [] then Inl (FileNotFoundError ''ASL catalog contains no ACRC encoding'')
       else Inr (concat ess))"

definition AslCompletionPolicy ::
  "(string \<Rightarrow> pyval res) \<Rightarrow> string list list \<Rightarrow> bool \<Rightarrow> completion_encoding list res" where
  "AslCompletionPolicy loads files enabled = (if enabled then load_encodings loads files else Inr [])"

end
