(* ===== verification/Multi_Executor.thy ===== *)
theory Multi_Executor
  imports Parallel_Memory Worker_Protocol Model_Profile
begin

text \<open>
  The instruction executor of the multi-PE runner, \<open>AslWorkerExecutor\<close> of
  \<open>asl_model/runtime/multi_elf.py\<close>: one ASL worker per PE or one shared worker, the memory bridge
  behind the workers' callbacks, and the memory views of a parallel round.

  A worker object is a parameter: \<open>worker_ops\<close> lists the methods the executor calls, each a memory
  client that answers with the method's value or exception and the worker's new state. Methods
  the code looks up with \<open>getattr\<close> are optional. \<open>Worker_Protocol\<close> models the worker class itself.
  When a memory callback raises, the exception ends the method and the worker keeps the state it
  had: the process is out of step with its protocol then, and the runner never steps it again.
\<close>

section \<open>Contexts and outcomes\<close>

record pe_context =
  ctx_pe_id :: int
  ctx_thread_id :: int
  ctx_pc :: int
  ctx_active :: bool
  ctx_finished :: bool
  ctx_instruction_count :: int

definition PeContext :: "int \<Rightarrow> int \<Rightarrow> int \<Rightarrow> pe_context" where
  "PeContext pe_id thread_id pc = \<lparr>ctx_pe_id = pe_id, ctx_thread_id = thread_id, ctx_pc = pc,
     ctx_active = True, ctx_finished = False, ctx_instruction_count = 0\<rparr>"

text \<open>The text of an error report: an exception's, or one the runner states itself.\<close>

datatype error_report = ErrorOf py_error | ErrorText string

record instruction_execution =
  ie_status :: string
  ie_returncode :: int
  ie_next_pc :: "int option"
  ie_finished :: bool
  ie_error :: "error_report option"
  ie_fault_code :: "int option"

definition execution_ok :: "instruction_execution \<Rightarrow> bool" where
  "execution_ok e \<longleftrightarrow> ie_returncode e = 0 \<and> ie_status e \<in> {''committed'', ''passed'', ''executed''}"

definition host_failure_status :: "py_error \<Rightarrow> string" where
  "host_failure_status e = (case e of EmbeddedWorkerTimeout _ \<Rightarrow> ''step_timeout'' | _ \<Rightarrow> ''runtime_error'')"

definition host_failure :: "py_error \<Rightarrow> instruction_execution" where
  "host_failure e = \<lparr>ie_status = host_failure_status e, ie_returncode = 2, ie_next_pc = None,
     ie_finished = False, ie_error = Some (ErrorOf e), ie_fault_code = None\<rparr>"

definition SequentialControlFlow :: "pe_context \<Rightarrow> instruction_request \<Rightarrow> instruction_execution \<Rightarrow> int" where
  "SequentialControlFlow c r e =
     (case ie_next_pc e of Some pc \<Rightarrow> pc | None \<Rightarrow> ir_pc r + int (length (ir_encoding r)))"

definition ExecutionFinisher :: "pe_context \<Rightarrow> instruction_request \<Rightarrow> instruction_execution \<Rightarrow> bool" where
  "ExecutionFinisher c r e = ie_finished e"

section \<open>Workers\<close>

type_synonym ('w, 'a) wmeth = "'w \<Rightarrow> ('a res \<times> 'w) mprog"

record 'w worker_ops =
  wo_new :: 'w                                  \<comment> \<open>what \<open>worker_factory\<close> returns\<close>
  wo_ensure_built :: "'w \<Rightarrow> 'w res"             \<comment> \<open>\<open>identity, _ = _ensure_built(profile_spec)\<close>\<close>
  wo_start :: "string \<Rightarrow> string option \<Rightarrow> ('w, unit) wmeth"  \<comment> \<open>source, \<open>spec_path\<close>\<close>
  wo_stop :: "'w \<Rightarrow> 'w"
  wo_ping :: "('w, unit) wmeth"
  wo_clear_memory_cache :: "('w, unit) wmeth"
  wo_step :: "int \<Rightarrow> int \<Rightarrow> ('w, int) wmeth"
  wo_step_auto :: "('w, auto_step_result) wmeth"
  wo_decode_length :: "int \<Rightarrow> ('w, int) wmeth"
  wo_peek_tpc :: "('w, int) wmeth"
  wo_peek_fault :: "('w, int) wmeth"
  wo_select_pe :: "(int \<Rightarrow> ('w, unit) wmeth) option"
  wo_set_tpc :: "(int \<Rightarrow> ('w, unit) wmeth) option"
  wo_peek_terminal_pending :: "('w, bool) wmeth option"
  wo_peek_block_collective :: "('w, bool) wmeth option"
  wo_stats :: "('w \<Rightarrow> protocol_stats) option"
  wo_identity :: "'w \<Rightarrow> (string, string) dict option"

text \<open>Sequencing of worker calls: an exception ends the sequence.\<close>

definition cret :: "'a \<Rightarrow> ('w, 'a) wmeth" where
  "cret x w = MDone (Inr x, w)"

definition craise :: "py_error \<Rightarrow> ('w, 'a) wmeth" where
  "craise e w = MDone (Inl e, w)"

definition cbind :: "('w, 'a) wmeth \<Rightarrow> ('a \<Rightarrow> ('w, 'b) wmeth) \<Rightarrow> ('w, 'b) wmeth" where
  "cbind m f w = mbind (m w) (\<lambda>rw. case fst rw of Inl e \<Rightarrow> MDone (Inl e, snd rw) | Inr x \<Rightarrow> f x (snd rw))"

definition clift :: "'a res \<Rightarrow> ('w, 'a) wmeth" where
  "clift r = (case r of Inl e \<Rightarrow> craise e | Inr x \<Rightarrow> cret x)"

text \<open>A method looked up without a default: \<open>AttributeError\<close> when the worker does not have it.\<close>

definition ccall :: "string \<Rightarrow> ('a \<Rightarrow> ('w, 'b) wmeth) option \<Rightarrow> 'a \<Rightarrow> ('w, 'b) wmeth" where
  "ccall nm meth x = (case meth of None \<Rightarrow> craise (AttributeError nm) | Some f \<Rightarrow> f x)"

section \<open>Executor\<close>

datatype initial_source = SourceText string | SourceCall "pe_context \<Rightarrow> string"

record executor_config =
  xc_worker_scope :: string
  xc_parallel_pe_steps :: bool
  xc_initial_source :: initial_source
  xc_stack_pointer :: "int option"
  xc_stack_size :: int
  xc_stack_policy :: string
  xc_stack_gap :: int
  xc_stack_stride :: "int option"
  xc_red_zone :: int
  xc_profile :: model_profile
  xc_profile_spec :: "string option"   \<comment> \<open>what \<open>materialize\<close> returned\<close>

definition AslWorkerExecutor ::
  "string \<Rightarrow> bool \<Rightarrow> bool \<Rightarrow> string \<Rightarrow> initial_source \<Rightarrow> int option \<Rightarrow> int \<Rightarrow> string \<Rightarrow> int \<Rightarrow> int option \<Rightarrow> int \<Rightarrow>
   string option \<Rightarrow> executor_config res" where
  "AslWorkerExecutor worker_scope experimental_core parallel_pe_steps model_profile source
       stack_pointer stack_size stack_policy stack_gap stack_stride red_zone spec =
     (if worker_scope \<notin> {''per-pe'', ''single'', ''core'', ''spmd''} then
        Inl (ValueError ''worker_scope must be 'per-pe', 'spmd', 'core', or 'single' '')
      else if worker_scope = ''core'' \<and> \<not> experimental_core then
        Inl (UnsupportedPeStateScope ''core scope is experimental'')
      else if parallel_pe_steps \<and> worker_scope \<noteq> ''per-pe'' then
        Inl (UnsupportedPeStateScope ''parallel PE steps require per-pe worker scope'')
      else rbind (profile_select model_profile) (\<lambda>p.
        Inr \<lparr>xc_worker_scope = worker_scope, xc_parallel_pe_steps = parallel_pe_steps,
             xc_initial_source = source, xc_stack_pointer = stack_pointer, xc_stack_size = stack_size,
             xc_stack_policy = stack_policy, xc_stack_gap = stack_gap, xc_stack_stride = stack_stride,
             xc_red_zone = red_zone, xc_profile = p, xc_profile_spec = spec\<rparr>))"

text \<open>
  The executor's mutable state. Several PEs may hold the same worker object, so \<open>self.workers\<close>
  maps a PE to a handle and the workers live in a store. The views of a running parallel round
  are those of its coordinator.
\<close>

record ('w, 'b) executor =
  ex_bridge :: "'b host_bridge"
  ex_layout :: "runtime_layout option"
  ex_workers :: "(int, nat) dict"
  ex_store :: "(nat, 'w) dict"
  ex_generation :: "(int, int) dict"
  ex_artifact :: "(string, string) dict"
  ex_protocol :: "protocol_stats option"      \<comment> \<open>\<open>metrics["memory_protocol"]\<close>\<close>
  ex_parallel :: "coordinator option"

definition new_executor :: "'b host_bridge \<Rightarrow> ('w, 'b) executor" where
  "new_executor h = \<lparr>ex_bridge = h, ex_layout = None, ex_workers = [], ex_store = [], ex_generation = [],
     ex_artifact = [], ex_protocol = None, ex_parallel = None\<rparr>"

subsection \<open>Parallel rounds\<close>

definition begin_parallel_round ::
  "executor_config \<Rightarrow> pe_context list \<Rightarrow> (('w, 'b) executor, unit) act" where
  "begin_parallel_round cfg contexts x =
     (if \<not> xc_parallel_pe_steps cfg then (Inr (), x)
      else if ex_parallel x \<noteq> None then (Inl (RuntimeError ''parallel memory round is already active''), x)
      else
        let c = ParallelMemoryCoordinator (ex_bridge x) in
        (case open_views (map ctx_pe_id contexts) c of
           Inl e \<Rightarrow> (Inl e, x\<lparr>ex_parallel := Some c\<rparr>)
         | Inr c' \<Rightarrow> (Inr (), x\<lparr>ex_parallel := Some c'\<rparr>)))"

definition commit_parallel_round :: "(('w, 'b) executor, unit) act" where
  "commit_parallel_round x =
     (case ex_parallel x of
        None \<Rightarrow> (Inr (), x)
      | Some c \<Rightarrow>
          (case coordinator_commit c (ex_bridge x) of
             (r, _, h) \<Rightarrow>
               (case r of Inl e \<Rightarrow> Inl e | Inr _ \<Rightarrow> Inr (), x\<lparr>ex_bridge := h, ex_parallel := None\<rparr>)))"

definition rollback_parallel_round :: "(('w, 'b) executor, unit) act" where
  "rollback_parallel_round x =
     (case ex_parallel x of
        None \<Rightarrow> (Inr (), x)
      | Some c \<Rightarrow>
          (if pc_closed c then Inr ()
           else (case coordinator_rollback c of Inl e \<Rightarrow> Inl e | Inr _ \<Rightarrow> Inr ()),
           x\<lparr>ex_parallel := None\<rparr>))"

section \<open>One instruction\<close>

text \<open>A worker together with the bridge generation it was last synchronised with.\<close>

record 'w slot =
  sl_worker :: 'w
  sl_generation :: "int option"

definition on_worker :: "('w, 'a) wmeth \<Rightarrow> ('w slot, 'a) wmeth" where
  "on_worker m s = mbind (m (sl_worker s)) (\<lambda>rw. MDone (fst rw, s\<lparr>sl_worker := snd rw\<rparr>))"

definition synchronize_worker_memory :: "'w worker_ops \<Rightarrow> int \<Rightarrow> ('w slot, unit) wmeth" where
  "synchronize_worker_memory W generation s =
     (if sl_generation s \<noteq> Some generation then
        cbind (on_worker (wo_clear_memory_cache W)) (\<lambda>_ s. cret () (s\<lparr>sl_generation := Some generation\<rparr>)) s
      else cret () s)"

definition require_no_collective :: "'w worker_ops \<Rightarrow> ('w, unit) wmeth" where
  "require_no_collective W =
     (case wo_peek_block_collective W of
        None \<Rightarrow> craise (UnsupportedPeStateScope ''spmd worker scope requires peek_block_collective on its worker'')
      | Some peek \<Rightarrow> cbind peek (\<lambda>b.
          if b then craise (UnsupportedPeStateScope ''collective block is not scheduled yet'') else cret ()))"

definition shared_scope :: "executor_config \<Rightarrow> bool" where
  "shared_scope cfg \<longleftrightarrow> xc_worker_scope cfg \<in> {''single'', ''core'', ''spmd''}"

text \<open>\<open>worker.peek_terminal_pending() if ok and hasattr(...) else False\<close>\<close>

definition terminal_pending :: "'w worker_ops \<Rightarrow> bool \<Rightarrow> ('w, bool) wmeth" where
  "terminal_pending W ok =
     (case wo_peek_terminal_pending W of Some peek \<Rightarrow> if ok then peek else cret False | None \<Rightarrow> cret False)"

text \<open>\<open>instruction.to_bytes(n, "little")\<close>\<close>

definition to_le_bytes :: "nat \<Rightarrow> int \<Rightarrow> byte list res" where
  "to_le_bytes n v = (if 0 \<le> v \<and> v < 256 ^ n then Inr (le_bytes n v) else Inl OverflowError)"

definition transition :: "bool \<Rightarrow> int option \<Rightarrow> bool \<Rightarrow> int option \<Rightarrow> instruction_execution" where
  "transition ok next_pc finished fault = \<lparr>ie_status = (if ok then ''committed'' else ''rejected''),
     ie_returncode = (if ok then 0 else 1), ie_next_pc = next_pc, ie_finished = finished, ie_error = None,
     ie_fault_code = fault\<rparr>"

text \<open>The body of the \<open>try\<close> of \<open>step_next\<close> after the synchronisation, on the worker.\<close>

definition step_body ::
  "'w worker_ops \<Rightarrow> executor_config \<Rightarrow> pe_context \<Rightarrow> ('w, instruction_request \<times> instruction_execution) wmeth" where
  "step_body W cfg c =
     cbind (if shared_scope cfg
            then cbind (ccall ''select_pe'' (wo_select_pe W) (ctx_pe_id c)) (\<lambda>_. ccall ''set_tpc'' (wo_set_tpc W) (ctx_pc c))
            else cret ()) (\<lambda>_.
     cbind (wo_step_auto W) (\<lambda>st.
     cbind (if xc_worker_scope cfg = ''spmd'' then require_no_collective W else cret ()) (\<lambda>_.
       if as_length_bits st \<notin> {16, 32, 48, 64} then craise (RuntimeError ''ASL returned invalid instruction width'')
       else
     cbind (clift (to_le_bytes (nat (as_length_bits st div 8)) (as_instruction st))) (\<lambda>encoding.
     cbind (clift (InstructionRequest (ctx_pc c) encoding None (ctx_pe_id c) (ctx_thread_id c) None [])) (\<lambda>rq.
     cbind (terminal_pending W (as_status st = 0)) (\<lambda>finished.
       cret (rq, transition (as_status st = 0) (Some (as_tpc st)) finished
                        (if as_status st = 0 then None else Some (as_fault_code st)))))))))"

definition step_client ::
  "'w worker_ops \<Rightarrow> executor_config \<Rightarrow> int \<Rightarrow> pe_context \<Rightarrow>
   ('w slot, instruction_request \<times> instruction_execution) wmeth" where
  "step_client W cfg generation c =
     cbind (synchronize_worker_memory W generation) (\<lambda>_. on_worker (step_body W cfg c))"

text \<open>The \<open>except\<close> branch: a report that carries a synthetic zero halfword.\<close>

definition failed_step :: "pe_context \<Rightarrow> py_error \<Rightarrow> (instruction_request \<times> instruction_execution) res" where
  "failed_step c e =
     rbind (InstructionRequest (ctx_pc c) [0, 0] None (ctx_pe_id c) (ctx_thread_id c) None []) (\<lambda>r.
       Inr (r, host_failure e))"

text \<open>Run a client under \<open>try: ... except Exception\<close>: the result, whether it completed, the slot and the memory.\<close>

definition guarded ::
  "(py_error \<Rightarrow> 'a res) \<Rightarrow> 's mem_ops \<Rightarrow> ('w slot, 'a) wmeth \<Rightarrow> 'w slot \<Rightarrow> 's \<Rightarrow> 'a res \<times> bool \<times> 'w slot \<times> 's" where
  "guarded handler ops client sl s =
     (case run_prog (served_ops True ops) (client sl) s of
        (Inl e, s') \<Rightarrow> (handler e, False, sl, s')
      | (Inr (Inl e, sl'), s') \<Rightarrow> (handler e, False, sl', s')
      | (Inr (Inr y, sl'), s') \<Rightarrow> (Inr y, True, sl', s'))"

section \<open>Executing on the bridge or on a view\<close>

definition get_slot :: "int \<Rightarrow> ('w, 'b) executor \<Rightarrow> 'w slot res" where
  "get_slot pe x =
     (case map_of (ex_workers x) pe of
        None \<Rightarrow> Inl (KeyError ''pe_id'')
      | Some k \<Rightarrow>
          (case map_of (ex_store x) k of
             None \<Rightarrow> Inl (KeyError ''worker'')
           | Some w \<Rightarrow> Inr \<lparr>sl_worker = w, sl_generation = map_of (ex_generation x) pe\<rparr>))"

definition put_slot :: "int \<Rightarrow> 'w slot \<Rightarrow> ('w, 'b) executor \<Rightarrow> ('w, 'b) executor" where
  "put_slot pe sl x =
     x\<lparr>ex_store := (case map_of (ex_workers x) pe of None \<Rightarrow> ex_store x
                    | Some k \<Rightarrow> AList.update k (sl_worker sl) (ex_store x)),
       ex_generation := (case sl_generation sl of None \<Rightarrow> ex_generation x
                    | Some g \<Rightarrow> AList.update pe g (ex_generation x))\<rparr>"

text \<open>
  The callbacks built by \<open>_make_worker\<close>: the PE's view while a parallel round runs and the worker
  is bound to a PE, the bridge otherwise.
\<close>

definition run_on_memory ::
  "executor_config \<Rightarrow> int \<Rightarrow> (py_error \<Rightarrow> 'a res) \<Rightarrow> ('w slot, 'a) wmeth \<Rightarrow> 'w slot \<Rightarrow>
   (('w, 'b) executor, 'a) act" where
  "run_on_memory cfg pe handler client sl x =
     (let finish = (\<lambda>completed sl x.
            put_slot pe (if completed then sl\<lparr>sl_generation := Some (hb_generation (ex_bridge x))\<rparr> else sl) x)
      in case ex_parallel x of
        Some c \<Rightarrow>
          if shared_scope cfg then
            (case guarded handler bridge_ops client sl (ex_bridge x) of
               (r, completed, sl', h) \<Rightarrow> (r, finish completed sl' (x\<lparr>ex_bridge := h\<rparr>)))
          else
            (case map_of (pc_views c) pe of
               None \<Rightarrow> (handler (KeyError ''view''), x)
             | Some v \<Rightarrow>
                 (case guarded handler (view_ops c) client sl v of
                    (r, completed, sl', v') \<Rightarrow>
                      (r, finish completed sl'
                            (x\<lparr>ex_parallel := Some (c\<lparr>pc_views := AList.update pe v' (pc_views c)\<rparr>)\<rparr>))))
      | None \<Rightarrow>
          (case guarded handler bridge_ops client sl (ex_bridge x) of
             (r, completed, sl', h) \<Rightarrow> (r, finish completed sl' (x\<lparr>ex_bridge := h\<rparr>))))"

definition step_next ::
  "'w worker_ops \<Rightarrow> executor_config \<Rightarrow> pe_context \<Rightarrow>
   (('w, 'b) executor, instruction_request \<times> instruction_execution) act" where
  "step_next W cfg c x =
     (case get_slot (ctx_pe_id c) x of
        Inl e \<Rightarrow> (Inl e, x)
      | Inr sl \<Rightarrow>
          run_on_memory cfg (ctx_pe_id c) (failed_step c)
            (step_client W cfg (hb_generation (ex_bridge x)) c) sl x)"

definition execute_body ::
  "'w worker_ops \<Rightarrow> executor_config \<Rightarrow> pe_context \<Rightarrow> instruction_request \<Rightarrow> ('w, instruction_execution) wmeth" where
  "execute_body W cfg c rq =
     cbind (if shared_scope cfg then
              (case (wo_select_pe W, wo_set_tpc W) of
                 (Some sel, Some set_pc) \<Rightarrow> cbind (sel (ctx_pe_id c)) (\<lambda>_. set_pc (ir_pc rq))
               | _ \<Rightarrow> craise (UnsupportedPeStateScope
                        ''single-worker executor requires select_pe and set_tpc on its worker''))
            else cret ()) (\<lambda>_.
     cbind (wo_step W (le_int (ir_encoding rq)) (int (length (ir_encoding rq)) * 8)) (\<lambda>status.
     cbind (if xc_worker_scope cfg = ''spmd'' then require_no_collective W else cret ()) (\<lambda>_.
     cbind (if status = 0 then cbind (wo_peek_tpc W) (\<lambda>pc. cret (Some pc)) else cret None) (\<lambda>next_pc.
     cbind (terminal_pending W (status = 0)) (\<lambda>finished.
     cbind (if status \<noteq> 0 then cbind (wo_peek_fault W) (\<lambda>f. cret (Some f)) else cret None) (\<lambda>fault.
       cret (transition (status = 0) next_pc finished fault)))))))"

text \<open>Here the worker lookup is inside the \<open>try\<close>.\<close>

definition execute ::
  "'w worker_ops \<Rightarrow> executor_config \<Rightarrow> pe_context \<Rightarrow> instruction_request \<Rightarrow>
   (('w, 'b) executor, instruction_execution) act" where
  "execute W cfg c rq x =
     (case get_slot (ctx_pe_id c) x of
        Inl e \<Rightarrow> (Inr (host_failure e), x)
      | Inr sl \<Rightarrow>
          run_on_memory cfg (ctx_pe_id c) (\<lambda>e. Inr (host_failure e))
            (cbind (synchronize_worker_memory W (hb_generation (ex_bridge x)))
               (\<lambda>_. on_worker (execute_body W cfg c rq))) sl x)"

text \<open>A call outside any \<open>try\<close>: exceptions propagate and the generation is left alone.\<close>

definition executor_decode_length ::
  "'w worker_ops \<Rightarrow> executor_config \<Rightarrow> pe_context \<Rightarrow> int \<Rightarrow> (('w, 'b) executor, int) act" where
  "executor_decode_length W cfg c encoding x =
     (case get_slot (ctx_pe_id c) x of
        Inl e \<Rightarrow> (Inl e, x)
      | Inr sl \<Rightarrow>
          (case guarded Inl bridge_ops (on_worker (wo_decode_length W encoding)) sl (ex_bridge x) of
             (r, _, sl', h) \<Rightarrow>
               (case r of Inl e \<Rightarrow> Inl e | Inr n \<Rightarrow> Inr (if n \<in> {16, 32, 48, 64} then n else 0),
                put_slot (ctx_pe_id c) sl' (x\<lparr>ex_bridge := h\<rparr>))))"

section \<open>Starting and closing\<close>

text \<open>A worker call on the bridge, outside any \<open>try\<close>.\<close>

definition call_worker :: "('w, 'a) wmeth \<Rightarrow> 'w \<Rightarrow> 'b host_bridge \<Rightarrow> 'a res \<times> 'w \<times> 'b host_bridge" where
  "call_worker m w h =
     (case run_prog (served_ops True bridge_ops) (m w) h of
        (Inl e, h') \<Rightarrow> (Inl e, w, h')
      | (Inr rw, h') \<Rightarrow> (fst rw, snd rw, h'))"

definition write_tpc :: "int \<Rightarrow> string" where
  "write_tpc pc = ''WriteTPC(Zeros{PTO_XLEN} + 0x'' @ py_hex pc @ '');''"

definition select_agent :: "int \<Rightarrow> string" where
  "select_agent pe = ''SelectMemoryEventAgent('' @ py_dec pe @ '' as MemoryAgentId);''"

definition write_sp :: "int \<Rightarrow> int \<Rightarrow> string" where
  "write_sp index sp = ''WriteGPR('' @ py_dec index @ '', Zeros{PTO_XLEN} + 0x'' @ py_hex sp @ '');''"

definition source_for :: "executor_config \<Rightarrow> pe_context \<Rightarrow> string" where
  "source_for cfg c = (case xc_initial_source cfg of SourceText s \<Rightarrow> s | SourceCall f \<Rightarrow> f c)"

text \<open>The initial source of a PE's own worker.\<close>

definition worker_source ::
  "executor_config \<Rightarrow> runtime_layout \<Rightarrow> 'b host_bridge \<Rightarrow> pe_context \<Rightarrow> string res" where
  "worker_source cfg l h c =
     rbind (if rl_stacks l = [] then Inr []
            else rbind (frame_sp_index (xc_profile cfg)) (\<lambda>i.
                 rbind (host_stack_pointer_for h (ctx_pe_id c) None) (\<lambda>sp. Inr (CHR '' '' # write_sp i sp)))) (\<lambda>stk.
       Inr (py_strip (select_agent (ctx_pe_id c) @ [CHR 0x0A] @ write_tpc (ctx_pc c) @ stk
                      @ [CHR 0x0A] @ source_for cfg c)))"

fun py_join_lines :: "string list \<Rightarrow> string" where
  "py_join_lines [] = []"
| "py_join_lines [l] = l"
| "py_join_lines (l # ls) = l @ [CHR 0x0A] @ py_join_lines ls"

definition shared_worker_source ::
  "executor_config \<Rightarrow> runtime_layout \<Rightarrow> 'b host_bridge \<Rightarrow> pe_context list \<Rightarrow> string res" where
  "shared_worker_source cfg l h contexts =
     (case contexts of
        [] \<Rightarrow> Inl IndexError
      | c0 # _ \<Rightarrow>
          rbind (if rl_stacks l = [] then Inr []
                 else rbind (rmap (\<lambda>c. rbind (frame_sp_index (xc_profile cfg)) (\<lambda>i.
                        rbind (host_stack_pointer_for h (ctx_pe_id c) None) (\<lambda>sp.
                          Inr [select_agent (ctx_pe_id c), write_sp i sp]))) contexts) (\<lambda>ps. Inr (concat ps))) (\<lambda>stks.
            Inr (py_join_lines
              ([select_agent 0, write_tpc (ctx_pc c0)] @ stks
               @ (case xc_initial_source cfg of
                    SourceCall f \<Rightarrow> concat (map (\<lambda>c.
                      if py_strip (f c) = [] then [] else [select_agent (ctx_pe_id c), py_strip (f c)]) contexts)
                  | SourceText s \<Rightarrow> if py_strip s = [] then [] else [py_strip s])
               @ [select_agent 0, write_tpc (ctx_pc c0)]))))"

text \<open>Start a worker, ping it and select its PE.\<close>

definition boot_worker :: "'w worker_ops \<Rightarrow> executor_config \<Rightarrow> string \<Rightarrow> int \<Rightarrow> ('w, unit) wmeth" where
  "boot_worker W cfg src pe =
     cbind (wo_start W src (xc_profile_spec cfg)) (\<lambda>_.
     cbind (wo_ping W) (\<lambda>_. case wo_select_pe W of None \<Rightarrow> cret () | Some sel \<Rightarrow> sel pe))"

text \<open>
  The workers of the contexts, in order. The code starts them in threads when there is no initial
  source; each thread touches only its own worker.
\<close>

fun start_contexts ::
  "'w worker_ops \<Rightarrow> executor_config \<Rightarrow> runtime_layout \<Rightarrow> 'w \<Rightarrow> pe_context list \<Rightarrow>
   ('b host_bridge, (int \<times> 'w) list) act" where
  "start_contexts W cfg l first [] h = (Inr [], h)"
| "start_contexts W cfg l first (c # cs) h =
     (case worker_source cfg l h c of
        Inl e \<Rightarrow> (Inl e, h)
      | Inr src \<Rightarrow>
          (case call_worker (boot_worker W cfg src (ctx_pe_id c)) first h of
             (Inl e, _, h') \<Rightarrow> (Inl e, h')
           | (Inr _, w, h') \<Rightarrow>
               (case start_contexts W cfg l (wo_new W) cs h' of
                  (Inl e, h'') \<Rightarrow> (Inl e, h'')
                | (Inr ws, h'') \<Rightarrow> (Inr ((ctx_pe_id c, w) # ws), h''))))"

definition first_identity :: "'w worker_ops \<Rightarrow> 'w list \<Rightarrow> (string, string) dict \<Rightarrow> (string, string) dict" where
  "first_identity W ws dflt =
     (case find (\<lambda>w. wo_identity W w \<noteq> None) ws of
        None \<Rightarrow> dflt | Some w \<Rightarrow> (case wo_identity W w of None \<Rightarrow> dflt | Some d \<Rightarrow> d))"

definition no_stats :: protocol_stats where
  "no_stats = \<lparr>ps_chunk_reads = 0, ps_chunk_read_bytes = 0, ps_byte_reads = 0, ps_byte_writes = 0\<rparr>"

definition add_stats :: "protocol_stats \<Rightarrow> protocol_stats \<Rightarrow> protocol_stats" where
  "add_stats a b = \<lparr>ps_chunk_reads = ps_chunk_reads a + ps_chunk_reads b,
     ps_chunk_read_bytes = ps_chunk_read_bytes a + ps_chunk_read_bytes b,
     ps_byte_reads = ps_byte_reads a + ps_byte_reads b, ps_byte_writes = ps_byte_writes a + ps_byte_writes b\<rparr>"

text \<open>Every worker object is counted and stopped once, however many PEs hold it.\<close>

definition executor_close :: "'w worker_ops \<Rightarrow> (('w, 'b) executor, unit) act" where
  "executor_close W x =
     (case rollback_parallel_round x of
        (Inl e, x') \<Rightarrow> (Inl e, x')
      | (Inr _, x') \<Rightarrow>
          let handles = rev (remdups (rev (map snd (ex_workers x'))));
              ws = List.map_filter (map_of (ex_store x')) handles;
              stats = (case wo_stats W of None \<Rightarrow> no_stats
                       | Some f \<Rightarrow> foldl (\<lambda>acc w. add_stats acc (f w)) no_stats ws)
          in (Inr (), x'\<lparr>ex_workers := [], ex_store := map (\<lambda>kw. (fst kw, wo_stop W (snd kw))) (ex_store x'),
                ex_generation := [], ex_protocol := Some stats\<rparr>))"

text \<open>The workers of an executor, once the memory is loaded and older workers are closed.\<close>

definition start_workers ::
  "'w worker_ops \<Rightarrow> executor_config \<Rightarrow> runtime_layout \<Rightarrow> pe_context list \<Rightarrow> (('w, 'b) executor, unit) act" where
  "start_workers W cfg l contexts x =
     (let gens = (\<lambda>h. map (\<lambda>c. (ctx_pe_id c, hb_generation h)) contexts) in
      if shared_scope cfg then
        (case shared_worker_source cfg l (ex_bridge x) contexts of
           Inl e \<Rightarrow> (Inl e, x)
         | Inr src \<Rightarrow>
             (case call_worker (boot_worker W cfg src 0) (wo_new W) (ex_bridge x) of
                (Inl e, _, h) \<Rightarrow> (Inl e, x\<lparr>ex_bridge := h\<rparr>)
              | (Inr _, w, h) \<Rightarrow>
                  (Inr (), x\<lparr>ex_bridge := h, ex_workers := dict_of (map (\<lambda>c. (ctx_pe_id c, 0)) contexts),
                     ex_store := [(0, w)], ex_generation := dict_of (gens h),
                     ex_artifact := first_identity W [w] (ex_artifact x)\<rparr>)))
      else
        (case (if xc_profile_spec cfg \<noteq> None \<and> contexts \<noteq> [] then wo_ensure_built W (wo_new W) else Inr (wo_new W)) of
           Inl e \<Rightarrow> (Inl e, x)
         | Inr first \<Rightarrow>
             (case start_contexts W cfg l first contexts (ex_bridge x) of
                (Inl e, h) \<Rightarrow> (Inl e, x\<lparr>ex_bridge := h\<rparr>)
              | (Inr ws, h) \<Rightarrow>
                  (Inr (), x\<lparr>ex_bridge := h, ex_workers := dict_of (zip (map fst ws) [0..<length ws]),
                     ex_store := zip [0..<length ws] (map snd ws), ex_generation := dict_of (gens h),
                     ex_artifact := first_identity W (map snd ws) (ex_artifact x)\<rparr>))))"

definition executor_start ::
  "'w worker_ops \<Rightarrow> executor_config \<Rightarrow> program_image \<Rightarrow> pe_context list \<Rightarrow> (('w, 'b) executor, unit) act" where
  "executor_start W cfg img contexts x =
     (if xc_worker_scope cfg = ''single'' \<and> length contexts \<noteq> 1 then
        (Inl (UnsupportedPeStateScope ''single-worker scope is a one-context probe''), x)
      else
        (case resolve img (xc_stack_policy cfg) (xc_stack_pointer cfg) (xc_stack_size cfg) (xc_stack_gap cfg)
                (xc_stack_stride cfg) (xc_red_zone cfg) (int (length contexts)) 4096 64 of
           Inl e \<Rightarrow> (Inl e, x)
         | Inr l \<Rightarrow>
             (case load_image img (default_load_options\<lparr>lo_runtime_layout := Some l\<rparr>) (ex_bridge x) of
                (Inl e, h) \<Rightarrow> (Inl e, x\<lparr>ex_layout := Some l, ex_bridge := h\<rparr>)
              | (Inr _, h) \<Rightarrow>
                  (case executor_close W (x\<lparr>ex_layout := Some l, ex_bridge := h\<rparr>) of
                     (Inl e, x') \<Rightarrow> (Inl e, x')
                   | (Inr _, x') \<Rightarrow> start_workers W cfg l contexts x'))))"

end
