(* ===== verification/Multi_Runner.thy ===== *)
theory Multi_Runner
  imports Multi_Executor
begin

text \<open>
  The round-robin multi-PE runner, \<open>AslMultiPeElfRunner\<close> of \<open>asl_model/runtime/multi_elf.py\<close>:
  scheduling, recording of steps, parallel rounds with rollback and the serial rerun after a
  conflict, and the classification of the result.

  The executor is the \<open>AslWorkerExecutor\<close> of \<open>Multi_Executor\<close> (no injected executor). The control-flow
  and finisher policies are functions, with the defaults of the code. Wall-clock times are not
  modelled. In a parallel round the PEs run one after the other on their own views: by
  \<open>round_schedule_independent\<close> every interleaving of the threads ends in the same views and results.

  The scheduler loop has fuel; every iteration that does not end the run records a step, so
  \<open>max_instructions\<close> iterations are enough (\<open>run_loop_fuel\<close>).
\<close>

section \<open>Steps and results\<close>

record multi_pe_step =
  mst_index :: int
  mst_pe_id :: int
  mst_thread_id :: int
  mst_address :: int
  mst_instruction :: int
  mst_length_bits :: int
  mst_status :: string
  mst_returncode :: int
  mst_next_pc :: "int option"
  mst_finished :: bool
  mst_error :: "error_report option"
  mst_fault_code :: "int option"

datatype fallback_reason =
    LaterPeStepFailed nat int               \<comment> \<open>index in the round, PE\<close>
  | MemoryConflict "int option" "int option" "int list"  \<comment> \<open>writer, reader, addresses\<close>

record parallel_metrics =
  pmt_attempted :: bool
  pmt_rounds :: int
  pmt_commits :: int
  pmt_fallback :: "fallback_reason option"

definition no_parallel_metrics :: parallel_metrics where
  "no_parallel_metrics = \<lparr>pmt_attempted = False, pmt_rounds = 0, pmt_commits = 0, pmt_fallback = None\<rparr>"

record multi_result =
  mr_contexts :: "pe_context list"
  mr_steps :: "multi_pe_step list"
  mr_artifact :: "(string, string) dict"
  mr_termination :: string
  mr_layout :: runtime_layout
  mr_parallel :: "parallel_metrics option"     \<comment> \<open>\<open>runtime_metrics["parallel"]\<close>\<close>
  mr_protocol :: "protocol_stats option"       \<comment> \<open>\<open>runtime_metrics["memory_protocol"]\<close>\<close>

definition multi_result_ok :: "multi_result \<Rightarrow> bool" where
  "multi_result_ok r \<longleftrightarrow>
     (if mr_steps r = [] \<or> list_ex (\<lambda>s. mst_returncode s \<noteq> 0) (mr_steps r) then False
      else mr_termination r = ''all_finished'' \<and> list_all ctx_finished (mr_contexts r))"

definition multi_result_status :: "multi_result \<Rightarrow> string" where
  "multi_result_status r =
     (if multi_result_ok r then ''passed''
      else if mr_termination r = ''max_instructions'' \<and> list_all (\<lambda>s. mst_returncode s = 0) (mr_steps r)
      then ''unfinished'' else ''failed'')"

section \<open>Fetching and executing one context\<close>

definition segment_for_pc :: "program_image \<Rightarrow> int \<Rightarrow> program_segment option" where
  "segment_for_pc img pc =
     find (\<lambda>s. CHR ''x'' \<in> set (ps_permissions s) \<and> ps_address s \<le> pc
                \<and> pc < ps_address s + int (length (ps_data s))) (pi_segments img)"

datatype outcome =
    FetchFailed string
  | Stepped instruction_request instruction_execution int   \<comment> \<open>width in bits\<close>

fun outcome_ok :: "outcome \<Rightarrow> bool" where
  "outcome_ok (FetchFailed msg) = False"
| "outcome_ok (Stepped rq e width) = execution_ok e"

text \<open>
  \<open>execute_context\<close>. With an explicit width the host fetches from the segment that holds the
  program counter; otherwise the worker fetches.
\<close>

definition execute_context ::
  "'w worker_ops \<Rightarrow> executor_config \<Rightarrow> program_image \<Rightarrow> int option \<Rightarrow> pe_context \<Rightarrow>
   (('w, 'b) executor, outcome) act" where
  "execute_context W cfg img length_bits c x =
     (case length_bits of
        None \<Rightarrow>
          (case step_next W cfg c x of
             (Inl e, x') \<Rightarrow> (Inl e, x')
           | (Inr re, x') \<Rightarrow> (Inr (Stepped (fst re) (snd re) (int (length (ir_encoding (fst re))) * 8)), x'))
      | Some width \<Rightarrow>
          (case segment_for_pc img (ctx_pc c) of
             None \<Rightarrow> (Inr (FetchFailed ''PC is not inside an executable PT_LOAD segment''), x)
           | Some s \<Rightarrow>
               let offset = ctx_pc c - ps_address s in
               if offset + 2 > int (length (ps_data s)) then (Inr (FetchFailed ''instruction fetch is truncated''), x)
               else if offset + width div 8 > int (length (ps_data s)) then
                 (Inr (FetchFailed ''instruction fetch is truncated''), x)
               else
                 (case InstructionRequest (ctx_pc c) (py_slice (ps_data s) offset (offset + width div 8)) None
                         (ctx_pe_id c) (ctx_thread_id c) None [] of
                    Inl e \<Rightarrow> (Inl e, x)
                  | Inr rq \<Rightarrow>
                      (case execute W cfg c rq x of
                         (Inl e, x') \<Rightarrow> (Inl e, x')
                       | (Inr ex, x') \<Rightarrow> (Inr (Stepped rq ex width), x')))))"

text \<open>The policies of a run: completion encodings, next program counter, finisher.\<close>

record run_policies =
  rp_encodings :: "completion_encoding list"
  rp_flow :: "pe_context \<Rightarrow> instruction_request \<Rightarrow> instruction_execution \<Rightarrow> int"
  rp_finish :: "pe_context \<Rightarrow> instruction_request \<Rightarrow> instruction_execution \<Rightarrow> bool"

definition default_policies :: "completion_encoding list \<Rightarrow> run_policies" where
  "default_policies encodings = \<lparr>rp_encodings = encodings, rp_flow = SequentialControlFlow, rp_finish = ExecutionFinisher\<rparr>"

text \<open>
  \<open>record_outcome\<close>: the updated context, the step it appends and the termination it reports on
  failure.
\<close>

definition record_outcome ::
  "run_policies \<Rightarrow> nat \<Rightarrow> pe_context \<Rightarrow> instruction_request \<Rightarrow> instruction_execution \<Rightarrow> int \<Rightarrow>
   pe_context \<times> multi_pe_step \<times> string option" where
  "record_outcome P n c rq ex0 width =
     (let terminal = execution_ok ex0 \<and> is_terminal (rp_encodings P) (le_int (ir_encoding rq)) width;
          ex = (if terminal \<and> \<not> ie_finished ex0 then ex0\<lparr>ie_finished := True\<rparr> else ex0);
          ok = execution_ok ex;
          next_pc = (if ok then Some (rp_flow P c rq ex) else None);
          c1 = (if ok then c\<lparr>ctx_pc := (case next_pc of Some pc \<Rightarrow> pc | None \<Rightarrow> ctx_pc c),
                            ctx_instruction_count := ctx_instruction_count c + 1\<rparr> else c);
          finished = (ok \<and> rp_finish P c1 rq ex);
          c2 = (if finished then c1\<lparr>ctx_active := False, ctx_finished := True\<rparr>
                else if \<not> ok then c1\<lparr>ctx_active := False\<rparr> else c1);
          step = \<lparr>mst_index = int n, mst_pe_id = ctx_pe_id c, mst_thread_id = ctx_thread_id c,
                  mst_address = ir_pc rq, mst_instruction = le_int (ir_encoding rq), mst_length_bits = width,
                  mst_status = ie_status ex, mst_returncode = ie_returncode ex, mst_next_pc = next_pc,
                  mst_finished = finished, mst_error = ie_error ex, mst_fault_code = ie_fault_code ex\<rparr>
      in (c2, step,
          if ok then None
          else if ie_status ex \<in> {''step_timeout'', ''runtime_error''} then Some (ie_status ex)
          else Some ''step_failed''))"

text \<open>The step \<open>_failed_fetch_result\<close> appends.\<close>

definition failed_fetch_step :: "nat \<Rightarrow> pe_context \<Rightarrow> string \<Rightarrow> multi_pe_step" where
  "failed_fetch_step n c msg =
     \<lparr>mst_index = int n, mst_pe_id = ctx_pe_id c, mst_thread_id = ctx_thread_id c, mst_address = ctx_pc c,
      mst_instruction = 0, mst_length_bits = 0, mst_status = ''fetch_failed'', mst_returncode = 1,
      mst_next_pc = None, mst_finished = False, mst_error = Some (ErrorText msg), mst_fault_code = None\<rparr>"

section \<open>Rounds\<close>

record ('w, 'b) run_state =
  rs_contexts :: "pe_context list"
  rs_steps :: "multi_pe_step list"
  rs_executor :: "('w, 'b) executor"
  rs_parallel :: parallel_metrics

text \<open>How a round ends: go on, or return with a termination, with a failed fetch, or fall back.\<close>

datatype round_end = GoOn | StepFailed string | FetchStopped | FallBack

text \<open>Contexts are objects shared by the schedule and the result: replace the one of this PE.\<close>

definition set_context :: "pe_context \<Rightarrow> pe_context list \<Rightarrow> pe_context list" where
  "set_context c cs = map (\<lambda>d. if ctx_pe_id d = ctx_pe_id c then c else d) cs"

definition apply_record ::
  "run_policies \<Rightarrow> pe_context \<Rightarrow> instruction_request \<Rightarrow> instruction_execution \<Rightarrow> int \<Rightarrow>
   ('w, 'b) run_state \<Rightarrow> string option \<times> ('w, 'b) run_state" where
  "apply_record P c rq ex width s =
     (case record_outcome P (length (rs_steps s)) c rq ex width of
        (c', step, failure) \<Rightarrow>
          (failure, s\<lparr>rs_contexts := set_context c' (rs_contexts s), rs_steps := rs_steps s @ [step]\<rparr>))"

definition failed_fetch :: "pe_context \<Rightarrow> string \<Rightarrow> ('w, 'b) run_state \<Rightarrow> ('w, 'b) run_state" where
  "failed_fetch c msg s =
     s\<lparr>rs_contexts := set_context (c\<lparr>ctx_active := False\<rparr>) (rs_contexts s),
       rs_steps := rs_steps s @ [failed_fetch_step (length (rs_steps s)) c msg]\<rparr>"

fun serial_steps ::
  "'w worker_ops \<Rightarrow> executor_config \<Rightarrow> run_policies \<Rightarrow> program_image \<Rightarrow> int option \<Rightarrow> pe_context list \<Rightarrow>
   (('w, 'b) run_state, round_end) act" where
  "serial_steps W cfg P img lb [] s = (Inr GoOn, s)"
| "serial_steps W cfg P img lb (c # cs) s =
     (case execute_context W cfg img lb c (rs_executor s) of
        (Inl e, x) \<Rightarrow> (Inl e, s\<lparr>rs_executor := x\<rparr>)
      | (Inr (FetchFailed msg), x) \<Rightarrow> (Inr FetchStopped, failed_fetch c msg (s\<lparr>rs_executor := x\<rparr>))
      | (Inr (Stepped rq ex width), x) \<Rightarrow>
          (case apply_record P c rq ex width (s\<lparr>rs_executor := x\<rparr>) of
             (Some failure, s') \<Rightarrow> (Inr (StepFailed failure), s')
           | (None, s') \<Rightarrow> serial_steps W cfg P img lb cs s'))"

text \<open>\<open>for context, outcome in zip(scheduled, outcomes): record_outcome(context, outcome)\<close>\<close>

fun record_all :: "run_policies \<Rightarrow> (pe_context \<times> outcome) list \<Rightarrow> ('w, 'b) run_state \<Rightarrow> ('w, 'b) run_state" where
  "record_all P [] s = s"
| "record_all P ((c, Stepped rq ex width) # ps) s = record_all P ps (snd (apply_record P c rq ex width s))"
| "record_all P ((c, FetchFailed msg) # ps) s = record_all P ps s"

definition first_failure :: "outcome list \<Rightarrow> nat option" where
  "first_failure os = find (\<lambda>i. \<not> outcome_ok (os ! i)) [0..<length os]"

text \<open>A parallel round whose first PE failed: report that step as a serial run would.\<close>

definition report_first :: "run_policies \<Rightarrow> pe_context \<Rightarrow> outcome \<Rightarrow> ('w, 'b) run_state \<Rightarrow> round_end \<times> ('w, 'b) run_state" where
  "report_first P c out s =
     (case out of
        FetchFailed msg \<Rightarrow> (FetchStopped, failed_fetch c msg s)
      | Stepped rq ex width \<Rightarrow>
          (case apply_record P c rq ex width s of
             (failure, s') \<Rightarrow> (StepFailed (case failure of Some t \<Rightarrow> t | None \<Rightarrow> ''step_failed''), s')))"

definition with_metrics :: "(parallel_metrics \<Rightarrow> parallel_metrics) \<Rightarrow> ('w, 'b) run_state \<Rightarrow> ('w, 'b) run_state" where
  "with_metrics f s = s\<lparr>rs_parallel := f (rs_parallel s)\<rparr>"

text \<open>After the steps of the round: roll back on a failure, commit otherwise.\<close>

definition settle_round ::
  "run_policies \<Rightarrow> pe_context list \<Rightarrow> outcome list \<Rightarrow> (('w, 'b) run_state, round_end) act" where
  "settle_round P sch outcomes s =
     (case first_failure outcomes of
        Some i \<Rightarrow>
          (case rollback_parallel_round (rs_executor s) of
             (Inl e, x) \<Rightarrow> (Inl e, s\<lparr>rs_executor := x\<rparr>)
           | (Inr _, x) \<Rightarrow>
               let s = s\<lparr>rs_executor := x\<rparr> in
               if i \<noteq> 0 then
                 (Inr FallBack, with_metrics (\<lambda>m. m\<lparr>pmt_fallback := Some (LaterPeStepFailed i (ctx_pe_id (sch ! i)))\<rparr>) s)
               else (case report_first P (sch ! 0) (outcomes ! 0) s of (r, s') \<Rightarrow> (Inr r, s')))
      | None \<Rightarrow>
          (case commit_parallel_round (rs_executor s) of
             (Inr _, x) \<Rightarrow>
               (Inr GoOn, record_all P (zip sch outcomes)
                  (with_metrics (\<lambda>m. m\<lparr>pmt_commits := pmt_commits m + 1\<rparr>) (s\<lparr>rs_executor := x\<rparr>)))
           | (Inl (ParallelMemoryConflict wr rd addresses), x) \<Rightarrow>
               (case rollback_parallel_round x of
                  (Inl e, x') \<Rightarrow> (Inl e, s\<lparr>rs_executor := x'\<rparr>)
                | (Inr _, x') \<Rightarrow>
                    (Inr FallBack, with_metrics (\<lambda>m. m\<lparr>pmt_fallback := Some (MemoryConflict wr rd addresses)\<rparr>)
                       (s\<lparr>rs_executor := x'\<rparr>)))
           | (Inl e, x) \<Rightarrow> (Inl e, s\<lparr>rs_executor := x\<rparr>)))"

definition parallel_steps ::
  "'w worker_ops \<Rightarrow> executor_config \<Rightarrow> run_policies \<Rightarrow> program_image \<Rightarrow> pe_context list \<Rightarrow>
   (('w, 'b) run_state, round_end) act" where
  "parallel_steps W cfg P img sch s0 =
     (let s = with_metrics (\<lambda>m. m\<lparr>pmt_attempted := True, pmt_rounds := pmt_rounds m + 1\<rparr>) s0 in
      case begin_parallel_round cfg sch (rs_executor s) of
        (Inl e, x) \<Rightarrow> (Inl e, s\<lparr>rs_executor := x\<rparr>)
      | (Inr _, x) \<Rightarrow>
          (case amap (execute_context W cfg img None) sch x of
             (Inl e, x') \<Rightarrow> (Inl e, s\<lparr>rs_executor := x'\<rparr>)
           | (Inr outcomes, x') \<Rightarrow> settle_round P sch outcomes (s\<lparr>rs_executor := x'\<rparr>)))"

definition schedule_contexts :: "pe_context list \<Rightarrow> pe_context list" where
  "schedule_contexts cs = filter ctx_active cs"

text \<open>\<open>self._schedule_contexts(contexts)[: max_instructions - len(steps)]\<close>\<close>

definition scheduled :: "int \<Rightarrow> ('w, 'b) run_state \<Rightarrow> pe_context list" where
  "scheduled max_instructions s =
     take (nat (max_instructions - int (length (rs_steps s)))) (schedule_contexts (rs_contexts s))"

text \<open>
  One round. \<open>pool\<close> says whether there is a thread pool, that is, whether parallel steps were
  requested for more than one PE.
\<close>

definition run_round ::
  "'w worker_ops \<Rightarrow> executor_config \<Rightarrow> run_policies \<Rightarrow> program_image \<Rightarrow> int option \<Rightarrow> bool \<Rightarrow> pe_context list \<Rightarrow>
   (('w, 'b) run_state, round_end) act" where
  "run_round W cfg P img lb pool sch s =
     (if pool \<and> 1 < length sch \<and> lb = None then parallel_steps W cfg P img sch s
      else serial_steps W cfg P img lb sch s)"

section \<open>The run\<close>

datatype loop_end = Ended string | EndedFetch | EndedFallback

text \<open>The \<open>while\<close> loop.\<close>

primrec run_loop ::
  "nat \<Rightarrow> 'w worker_ops \<Rightarrow> executor_config \<Rightarrow> run_policies \<Rightarrow> program_image \<Rightarrow> int option \<Rightarrow> bool \<Rightarrow> int \<Rightarrow>
   ('w, 'b) run_state \<Rightarrow> (loop_end res \<times> ('w, 'b) run_state) option" where
  "run_loop 0 W cfg P img lb pool max_instructions s =
     (if int (length (rs_steps s)) < max_instructions then None
      else Some (Inr (Ended ''max_instructions''), s))"
| "run_loop (Suc fuel) W cfg P img lb pool max_instructions s =
     (if int (length (rs_steps s)) < max_instructions then
        if scheduled max_instructions s = [] then Some (Inr (Ended ''all_finished''), s)
        else
          (case run_round W cfg P img lb pool (scheduled max_instructions s) s of
             (Inl e, s') \<Rightarrow> Some (Inl e, s')
           | (Inr GoOn, s') \<Rightarrow>
               if list_all (\<lambda>c. \<not> ctx_active c) (rs_contexts s') then Some (Inr (Ended ''all_finished''), s')
               else run_loop fuel W cfg P img lb pool max_instructions s'
           | (Inr (StepFailed t), s') \<Rightarrow> Some (Inr (Ended t), s')
           | (Inr FetchStopped, s') \<Rightarrow> Some (Inr EndedFetch, s')
           | (Inr FallBack, s') \<Rightarrow> Some (Inr EndedFallback, s'))
      else Some (Inr (Ended ''max_instructions''), s))"

record runner_config =
  rc_executor :: executor_config
  rc_experimental_core :: bool
  rc_allow_unmodelled :: bool

definition AslMultiPeElfRunner ::
  "string \<Rightarrow> bool \<Rightarrow> bool \<Rightarrow> bool \<Rightarrow> string \<Rightarrow> int option \<Rightarrow> int \<Rightarrow> string \<Rightarrow> int \<Rightarrow> int option \<Rightarrow> int \<Rightarrow>
   string option \<Rightarrow> initial_source \<Rightarrow> runner_config res" where
  "AslMultiPeElfRunner worker_scope experimental_core allow_unmodelled parallel model_profile
       stack_pointer stack_size stack_policy stack_gap stack_stride red_zone spec source =
     rbind (AslWorkerExecutor worker_scope experimental_core parallel model_profile source stack_pointer
              stack_size stack_policy stack_gap stack_stride red_zone spec) (\<lambda>cfg.
       Inr \<lparr>rc_executor = cfg, rc_experimental_core = experimental_core, rc_allow_unmodelled = allow_unmodelled\<rparr>)"

definition host_fetch_enabled :: "executor_config \<Rightarrow> bool" where
  "host_fetch_enabled cfg \<longleftrightarrow>
     list_ex (\<lambda>sv. fst sv = ''PTO_MODEL_HOST_MEMORY'' \<and> snd sv = ''TRUE'') (mp_switches (xc_profile cfg))"

text \<open>The checks before anything is started.\<close>

definition run_guards :: "runner_config \<Rightarrow> program_image \<Rightarrow> int \<Rightarrow> int \<Rightarrow> int option \<Rightarrow> unit res" where
  "run_guards R img pe_count max_instructions length_bits =
     (if pe_count \<le> 0 then Inl (ValueError ''pe_count must be positive'')
      else if max_instructions \<le> 0 then Inl (ValueError ''max_instructions must be positive'')
      else if (case length_bits of None \<Rightarrow> False | Some n \<Rightarrow> n \<notin> {16, 32, 48, 64}) then
        Inl (ValueError ''length_bits must be one of 16, 32, 48, or 64'')
      else if length_bits = None \<and> \<not> host_fetch_enabled (rc_executor R) then
        Inl (UnsupportedPeStateScope ''automatic multi-PE fetch requires the linx-runtime profile'')
      else if pe_count > 1 \<and> \<not> rc_allow_unmodelled R \<and> \<not> rc_experimental_core R
              \<and> xc_worker_scope (rc_executor R) \<noteq> ''spmd'' then
        Inl (UnsupportedPeStateScope ''multi-PE execution is not modelled yet'')
      else if segment_for_pc img (pi_entry_point img) = None then
        Inl (ValueError ''ELF entry point is not inside a PT_LOAD segment'')
      else Inr ())"

definition initial_contexts :: "program_image \<Rightarrow> int \<Rightarrow> pe_context list" where
  "initial_contexts img pe_count = map (\<lambda>i. PeContext (int i) (int i) (pi_entry_point img)) [0..<nat pe_count]"

definition make_result ::
  "string \<Rightarrow> runtime_layout \<Rightarrow> bool \<Rightarrow> ('w, 'b) run_state \<Rightarrow> ('w, 'b) executor \<Rightarrow> multi_result" where
  "make_result termination l metrics s closed =
     \<lparr>mr_contexts = rs_contexts s, mr_steps = rs_steps s, mr_artifact = ex_artifact (rs_executor s),
      mr_termination = termination, mr_layout = l,
      mr_parallel = (if metrics then Some (rs_parallel s) else None), mr_protocol = ex_protocol closed\<rparr>"

text \<open>
  What one attempt of \<open>run_image\<close> gives after its \<open>finally\<close>: a result, or the request to run again
  serially, with the metrics of the abandoned attempt. The memory bridge outlives the run.
\<close>

definition finish_run ::
  "'w worker_ops \<Rightarrow> runtime_layout \<Rightarrow> loop_end res \<times> ('w, 'b) run_state \<Rightarrow>
   (multi_result + parallel_metrics) res \<times> 'b host_bridge" where
  "finish_run W l rs =
     (let s = snd rs in
      case executor_close W (rs_executor s) of
        (Inl e, x) \<Rightarrow> (Inl e, ex_bridge x)
      | (Inr _, x) \<Rightarrow>
          (case fst rs of
             Inl e \<Rightarrow> Inl e
           | Inr (Ended t) \<Rightarrow> Inr (Inl (make_result t l True s x))
           | Inr EndedFetch \<Rightarrow> Inr (Inl (make_result ''step_failed'' l False s x))
           | Inr EndedFallback \<Rightarrow> Inr (Inr (rs_parallel s)), ex_bridge x))"

definition run_attempt ::
  "runner_config \<Rightarrow> 'w worker_ops \<Rightarrow> run_policies \<Rightarrow> program_image \<Rightarrow> int \<Rightarrow> int \<Rightarrow> int option \<Rightarrow>
   'b host_bridge \<Rightarrow> ((multi_result + parallel_metrics) res \<times> 'b host_bridge) option" where
  "run_attempt R W P img pe_count max_instructions length_bits h =
     (let cfg = rc_executor R in
      case run_guards R img pe_count max_instructions length_bits of
        Inl e \<Rightarrow> Some (Inl e, h)
      | Inr _ \<Rightarrow>
          (case resolve img (xc_stack_policy cfg) (xc_stack_pointer cfg) (xc_stack_size cfg) (xc_stack_gap cfg)
                  (xc_stack_stride cfg) (xc_red_zone cfg) pe_count 4096 64 of
             Inl e \<Rightarrow> Some (Inl e, h)
           | Inr l \<Rightarrow>
               let contexts = initial_contexts img pe_count;
                   s0 = (\<lambda>x. \<lparr>rs_contexts = contexts, rs_steps = [], rs_executor = x, rs_parallel = no_parallel_metrics\<rparr>)
               in (case executor_start W cfg img contexts (new_executor h) of
                     (Inl e, x) \<Rightarrow> Some (finish_run W l (Inl e, s0 x))
                   | (Inr _, x) \<Rightarrow>
                       map_option (finish_run W l)
                         (run_loop (nat max_instructions) W cfg P img length_bits
                            (xc_parallel_pe_steps cfg \<and> pe_count > 1) max_instructions (s0 x)))))"

definition serially :: "runner_config \<Rightarrow> runner_config" where
  "serially R = R\<lparr>rc_executor := (rc_executor R)\<lparr>xc_parallel_pe_steps := False\<rparr>\<rparr>"

text \<open>\<open>run_image\<close>: an abandoned parallel attempt is run again from the start without parallel steps.\<close>

definition run_image ::
  "runner_config \<Rightarrow> 'w worker_ops \<Rightarrow> run_policies \<Rightarrow> program_image \<Rightarrow> int \<Rightarrow> int \<Rightarrow> int option \<Rightarrow>
   'b host_bridge \<Rightarrow> (multi_result res \<times> 'b host_bridge) option" where
  "run_image R W P img pe_count max_instructions length_bits h =
     (case run_attempt R W P img pe_count max_instructions length_bits h of
        None \<Rightarrow> None
      | Some (Inl e, h') \<Rightarrow> Some (Inl e, h')
      | Some (Inr (Inl r), h') \<Rightarrow> Some (Inr r, h')
      | Some (Inr (Inr metrics), h') \<Rightarrow>
          (case run_attempt (serially R) W P img pe_count max_instructions length_bits h' of
             Some (Inl e, h'') \<Rightarrow> Some (Inl e, h'')
           | Some (Inr (Inl r), h'') \<Rightarrow> Some (Inr (r\<lparr>mr_parallel := Some metrics\<rparr>), h'')
           | _ \<Rightarrow> None))"

end
