(* ===== verification/Run_Invariants.thy ===== *)
theory Run_Invariants
  imports Multi_Runner
begin

text \<open>
  What every multi-PE run guarantees, whatever the workers do: the scheduler as a sequence of
  committed steps that ends in at most one failing step, the invariant that ties contexts to the
  recorded steps, the loop's fuel, and the properties of the reported result.
\<close>

section \<open>Lemmas: what an outcome can be\<close>

lemma may_answer_cbind:
  "may_answer (cbind m f w) (Inr y, w') \<longleftrightarrow>
     (\<exists>x v. may_answer (m w) (Inr x, v) \<and> may_answer (f x v) (Inr y, w'))"
proof -
  have "may_answer (case fst rw of Inl e \<Rightarrow> MDone (Inl e, snd rw) | Inr x \<Rightarrow> f x (snd rw)) (Inr y, w')
    \<longleftrightarrow> (\<exists>x. fst rw = Inr x \<and> may_answer (f x (snd rw)) (Inr y, w'))" for rw
    by (cases "fst rw") auto
  then show ?thesis by (fastforce simp: cbind_def may_answer_mbind)
qed

lemma may_answer_simple [simp]:
  "may_answer (cret x w) r \<longleftrightarrow> r = (Inr x, w)" "may_answer (craise e w) r \<longleftrightarrow> r = (Inl e, w)"
  by (auto simp: cret_def craise_def)

lemma may_answer_clift [simp]: "may_answer (clift r w) (Inr x, w') \<longleftrightarrow> r = Inr x \<and> w' = w"
  by (auto simp: clift_def split: sum.splits)

lemma may_answer_on_worker:
  "may_answer (on_worker m s) (r, s') \<longleftrightarrow> (\<exists>w. may_answer (m (sl_worker s)) (r, w) \<and> s' = s\<lparr>sl_worker := w\<rparr>)"
  by (force simp: on_worker_def may_answer_mbind)

text \<open>What an executor reports is either a committed step or one with a non-zero return code.\<close>

definition execution_decided :: "instruction_execution \<Rightarrow> bool" where
  "execution_decided e \<longleftrightarrow> execution_ok e \<or> ie_returncode e \<noteq> 0"

lemma transition_decided [simp]: "execution_decided (transition b pc f c)"
  by (simp add: execution_decided_def transition_def execution_ok_def)

lemma host_failure_decided [simp]: "execution_decided (host_failure e)"
  by (simp add: execution_decided_def host_failure_def)

lemma guarded_cases:
  assumes "guarded handler ops client sl s = (Inr y, completed, sl', s')"
  obtains (answer) "may_answer (client sl) (Inr y, sl')" | (handled) e where "handler e = Inr y"
  using assms unfolding guarded_def
  by (auto split: prod.splits sum.splits dest: run_prog_may_answer)

lemma run_on_memory_cases:
  assumes "run_on_memory cfg pe handler client sl x = (Inr y, x')"
  obtains (answer) sl' where "may_answer (client sl) (Inr y, sl')" | (handled) e where "handler e = Inr y"
  using assms unfolding run_on_memory_def Let_def
  by (auto split: option.splits prod.splits if_splits elim: guarded_cases)

lemma step_body_decided:
  "may_answer (step_body W cfg c w) (Inr y, w') \<Longrightarrow> execution_decided (snd y)"
  unfolding step_body_def may_answer_cbind
  by (auto simp: may_answer_cbind split: if_splits)

lemma execute_body_decided:
  "may_answer (execute_body W cfg c rq w) (Inr y, w') \<Longrightarrow> execution_decided y"
  unfolding execute_body_def may_answer_cbind by (auto split: if_splits)

lemma step_next_decided: "step_next W cfg c x = (Inr y, x') \<Longrightarrow> execution_decided (snd y)"
  unfolding step_next_def
  by (auto split: sum.splits elim!: run_on_memory_cases
      simp: step_client_def may_answer_cbind may_answer_on_worker failed_step_def res_simps
      dest: step_body_decided)

lemma execute_decided: "execute W cfg c rq x = (Inr y, x') \<Longrightarrow> execution_decided y"
  unfolding execute_def
  by (auto split: sum.splits elim!: run_on_memory_cases
      simp: may_answer_cbind may_answer_on_worker dest: execute_body_decided)

fun outcome_decided :: "outcome \<Rightarrow> bool" where
  "outcome_decided (FetchFailed msg) = True"
| "outcome_decided (Stepped rq e width) = execution_decided e"

lemma execute_context_decided:
  "execute_context W cfg img lb c x = (Inr out, x') \<Longrightarrow> outcome_decided out"
  unfolding execute_context_def Let_def
  by (auto split: option.splits prod.splits sum.splits if_splits
      dest: step_next_decided execute_decided)

section \<open>Lemmas: the scheduler as steps on contexts and records\<close>

type_synonym run_core = "pe_context list \<times> multi_pe_step list"

definition core :: "('w, 'b) run_state \<Rightarrow> run_core" where
  "core s = (rs_contexts s, rs_steps s)"

text \<open>A committed step of an active context, and the failing step that ends a run.\<close>

inductive ok_step :: "run_policies \<Rightarrow> run_core \<Rightarrow> run_core \<Rightarrow> bool" for P where
  "c \<in> set cs \<Longrightarrow> ctx_active c \<Longrightarrow> execution_ok ex \<Longrightarrow>
   record_outcome P (length sts) c rq ex width = (c', st, f) \<Longrightarrow>
   ok_step P (cs, sts) (set_context c' cs, sts @ [st])"

inductive bad_step :: "run_policies \<Rightarrow> run_core \<Rightarrow> run_core \<Rightarrow> bool" for P where
  rejected: "c \<in> set cs \<Longrightarrow> ctx_active c \<Longrightarrow> \<not> execution_ok ex \<Longrightarrow> ie_returncode ex \<noteq> 0 \<Longrightarrow>
   record_outcome P (length sts) c rq ex width = (c', st, f) \<Longrightarrow>
   bad_step P (cs, sts) (set_context c' cs, sts @ [st])"
| fetch: "c \<in> set cs \<Longrightarrow> ctx_active c \<Longrightarrow>
   bad_step P (cs, sts) (set_context (c\<lparr>ctx_active := False\<rparr>) cs, sts @ [failed_fetch_step (length sts) c msg])"

definition failure_names :: "string set" where
  "failure_names = {''step_timeout'', ''runtime_error'', ''step_failed''}"

lemma record_outcome_pe [simp]: "ctx_pe_id (fst (record_outcome P n c rq ex w)) = ctx_pe_id c"
  by (simp add: record_outcome_def Let_def)

lemma execution_ok_finished [simp]: "execution_ok (ex\<lparr>ie_finished := b\<rparr>) = execution_ok ex"
  by (simp add: execution_ok_def)

lemma record_outcome_failure:
  "record_outcome P n c rq ex w = (c', st, f) \<Longrightarrow> (f = None \<longleftrightarrow> execution_ok ex) \<and> (\<forall>t. f = Some t \<longrightarrow> t \<in> failure_names)"
  by (auto simp: record_outcome_def Let_def failure_names_def split: if_splits)

text \<open>What is left of a schedule: active contexts of the state, one per PE.\<close>

definition schedulable :: "pe_context list \<Rightarrow> pe_context list \<Rightarrow> bool" where
  "schedulable sch cs \<longleftrightarrow> (\<forall>c \<in> set sch. c \<in> set cs \<and> ctx_active c) \<and> distinct (map ctx_pe_id sch)"

lemma schedulable_tail:
  assumes "schedulable (c # sch) cs" and "ctx_pe_id c' = ctx_pe_id c"
  shows "schedulable sch (set_context c' cs)"
proof -
  have "d \<in> set (set_context c' cs)" if "d \<in> set sch" for d
  proof -
    have "d \<in> set cs" using assms(1) that by (auto simp: schedulable_def)
    moreover have "ctx_pe_id d \<noteq> ctx_pe_id c"
      using assms(1) that unfolding schedulable_def by (metis distinct.simps(2) imageI list.set_map list.simps(9))
    ultimately have "d \<in> set cs" "ctx_pe_id d \<noteq> ctx_pe_id c" by auto
    then show ?thesis using assms(2) by (force simp: set_context_def)
  qed
  with assms(1) show ?thesis by (simp add: schedulable_def)
qed

lemma apply_record_core:
  "apply_record P c rq ex w s = (f, s') \<Longrightarrow>
   \<exists>c' st. record_outcome P (length (rs_steps s)) c rq ex w = (c', st, f)
     \<and> core s' = (set_context c' (rs_contexts s), rs_steps s @ [st])
     \<and> rs_executor s' = rs_executor s \<and> rs_parallel s' = rs_parallel s"
  by (auto simp: apply_record_def core_def split: prod.splits)

lemma core_executor [simp]:
  "core (s\<lparr>rs_executor := x\<rparr>) = core s" "core (with_metrics f s) = core s"
  by (simp_all add: core_def with_metrics_def)

text \<open>How a round changes the contexts and the steps.\<close>

definition round_core :: "run_policies \<Rightarrow> nat \<Rightarrow> run_core \<Rightarrow> round_end \<Rightarrow> run_core \<Rightarrow> bool" where
  "round_core P n a r b \<longleftrightarrow>
     (case r of
        GoOn \<Rightarrow> (ok_step P)\<^sup>*\<^sup>* a b \<and> length (snd b) = length (snd a) + n
      | FallBack \<Rightarrow> b = a
      | StepFailed t \<Rightarrow> t \<in> failure_names \<and> length (snd b) \<le> length (snd a) + n
          \<and> (\<exists>u. (ok_step P)\<^sup>*\<^sup>* a u \<and> bad_step P u b)
      | FetchStopped \<Rightarrow> length (snd b) \<le> length (snd a) + n \<and> (\<exists>u. (ok_step P)\<^sup>*\<^sup>* a u \<and> bad_step P u b))"

lemma round_core_step:
  "ok_step P a b \<Longrightarrow> length (snd b) = Suc (length (snd a)) \<Longrightarrow> r \<noteq> FallBack \<Longrightarrow> round_core P n b r d \<Longrightarrow> round_core P (Suc n) a r d"
  unfolding round_core_def
  by (auto split: round_end.splits intro: converse_rtranclp_into_rtranclp)

lemma serial_steps_core:
  "serial_steps W cfg P img lb sch s = (Inr r, s') \<Longrightarrow> schedulable sch (rs_contexts s) \<Longrightarrow>
   r \<noteq> FallBack \<and> round_core P (length sch) (core s) r (core s')"
proof (induction sch arbitrary: s)
  case Nil
  then show ?case by (auto simp: round_core_def)
next
  case (Cons c sch)
  have c: "c \<in> set (rs_contexts s)" "ctx_active c" using Cons.prems(2) by (auto simp: schedulable_def)
  from Cons.prems(1) obtain out x where ex: "execute_context W cfg img lb c (rs_executor s) = (Inr out, x)"
    by (auto split: prod.splits sum.splits)
  show ?case
  proof (cases out)
    case (FetchFailed msg)
    then have "r = FetchStopped" and s': "s' = failed_fetch c msg (s\<lparr>rs_executor := x\<rparr>)"
      using Cons.prems(1) ex by auto
    moreover have "bad_step P (core s) (core s')"
      using bad_step.fetch [OF c] by (simp add: s' core_def failed_fetch_def)
    ultimately show ?thesis by (auto simp: round_core_def core_def failed_fetch_def)
  next
    case (Stepped rq e w)
    let ?s = "s\<lparr>rs_executor := x\<rparr>"
    obtain f s1 where ap: "apply_record P c rq e w ?s = (f, s1)" by fastforce
    then obtain c' st where rec: "record_outcome P (length (rs_steps s)) c rq e w = (c', st, f)"
      and s1: "core s1 = (set_context c' (rs_contexts s), rs_steps s @ [st])"
      using apply_record_core [OF ap] by auto
    have pe: "ctx_pe_id c' = ctx_pe_id c" using record_outcome_pe [of P "length (rs_steps s)" c rq e w] rec by simp
    show ?thesis
    proof (cases f)
      case None
      then have "execution_ok e" using record_outcome_failure [OF rec] by simp
      with ok_step.intros [OF c this rec] s1 have "ok_step P (core s) (core s1)" by (simp add: core_def)
      moreover have "serial_steps W cfg P img lb sch s1 = (Inr r, s')"
        using Cons.prems(1) ex Stepped ap None by simp
      moreover have "schedulable sch (rs_contexts s1)"
        using schedulable_tail [OF Cons.prems(2) pe] s1 by (simp add: core_def)
      ultimately show ?thesis using Cons.IH [of s1] round_core_step [of P "core s" "core s1"] s1
        by (simp add: core_def)
    next
      case (Some t)
      then have no: "\<not> execution_ok e" "t \<in> failure_names" using record_outcome_failure [OF rec] by auto
      have "ie_returncode e \<noteq> 0"
        using execute_context_decided [OF ex] no(1) Stepped by (simp add: execution_decided_def)
      with bad_step.rejected [OF c no(1) _ rec] s1 have "bad_step P (core s) (core s1)" by (simp add: core_def)
      moreover have "r = StepFailed t" "s' = s1" using Cons.prems(1) ex Stepped ap Some by simp_all
      ultimately show ?thesis using no(2) s1 by (auto simp: round_core_def core_def)
    qed
  qed
qed

lemma record_all_core:
  "schedulable sch (rs_contexts s) \<Longrightarrow> length outs = length sch \<Longrightarrow> list_all outcome_ok outs \<Longrightarrow>
   (ok_step P)\<^sup>*\<^sup>* (core s) (core (record_all P (zip sch outs) s))
   \<and> length (rs_steps (record_all P (zip sch outs) s)) = length (rs_steps s) + length sch"
proof (induction sch arbitrary: s outs)
  case (Cons c sch)
  then obtain out outs' where outs: "outs = out # outs'" by (cases outs) auto
  with Cons.prems obtain rq e w where out: "out = Stepped rq e w" "execution_ok e" by (cases out) auto
  obtain f s1 where ap: "apply_record P c rq e w s = (f, s1)" by fastforce
  from apply_record_core [OF this] obtain c' st where rec: "record_outcome P (length (rs_steps s)) c rq e w = (c', st, f)"
    and s1: "core s1 = (set_context c' (rs_contexts s), rs_steps s @ [st])" by blast
  have c: "c \<in> set (rs_contexts s)" "ctx_active c" using Cons.prems(1) by (auto simp: schedulable_def)
  have pe: "ctx_pe_id c' = ctx_pe_id c" using record_outcome_pe [of P "length (rs_steps s)" c rq e w] rec by simp
  have "ok_step P (core s) (core s1)" using ok_step.intros [OF c out(2) rec] s1 by (simp add: core_def)
  moreover have "schedulable sch (rs_contexts s1)"
    using schedulable_tail [OF Cons.prems(1) pe] s1 by (simp add: core_def)
  moreover have "length (rs_steps s1) = Suc (length (rs_steps s))" using s1 by (simp add: core_def)
  ultimately show ?case
    using Cons.IH [of s1 outs'] Cons.prems(2,3) outs out ap
    by (auto intro: converse_rtranclp_into_rtranclp)
qed simp

lemma amap_length: "amap f xs s = (Inr ys, s') \<Longrightarrow> length ys = length xs"
  by (induction xs arbitrary: s ys) (auto split: prod.splits sum.splits)

lemma amap_execute_decided:
  "amap (execute_context W cfg img lb) sch x = (Inr outs, x') \<Longrightarrow> list_all outcome_decided outs"
  by (induction sch arbitrary: x outs)
     (auto split: prod.splits sum.splits dest: execute_context_decided)

lemma first_failure_None: "first_failure outs = None \<longleftrightarrow> list_all outcome_ok outs"
  by (auto simp: first_failure_def find_None_iff list_all_length)

lemma first_failure_0: "first_failure outs = Some 0 \<Longrightarrow> outs \<noteq> [] \<and> \<not> outcome_ok (hd outs)"
  by (cases outs) (auto simp: first_failure_def find_Some_iff)

lemma report_first_core:
  assumes "report_first P c out s = (r, s')" and "\<not> outcome_ok out" and "outcome_decided out"
    and c: "c \<in> set (rs_contexts s)" "ctx_active c" and "0 < n"
  shows "r \<noteq> GoOn \<and> r \<noteq> FallBack \<and> round_core P n (core s) r (core s')"
proof (cases out)
  case (FetchFailed msg)
  with assms(1) have "r = FetchStopped" "s' = failed_fetch c msg s" by (auto simp: report_first_def)
  moreover from this have "bad_step P (core s) (core s')"
    using bad_step.fetch [OF c] by (simp add: core_def failed_fetch_def)
  ultimately show ?thesis using \<open>0 < n\<close> by (auto simp: round_core_def core_def failed_fetch_def)
next
  case (Stepped rq e w)
  obtain f s1 where ap: "apply_record P c rq e w s = (f, s1)" by fastforce
  from apply_record_core [OF this] obtain c' st where rec: "record_outcome P (length (rs_steps s)) c rq e w = (c', st, f)"
    and s1: "core s1 = (set_context c' (rs_contexts s), rs_steps s @ [st])" by blast
  have no: "\<not> execution_ok e" "ie_returncode e \<noteq> 0" using assms(2,3) Stepped by (auto simp: execution_decided_def)
  with record_outcome_failure [OF rec] obtain t where t: "f = Some t" "t \<in> failure_names" by auto
  have "bad_step P (core s) (core s1)" using bad_step.rejected [OF c no rec] s1 by (simp add: core_def)
  moreover have "r = StepFailed t" "s' = s1" using assms(1) Stepped ap t by (auto simp: report_first_def)
  ultimately show ?thesis using t(2) s1 \<open>0 < n\<close> by (auto simp: round_core_def core_def)
qed

lemma settle_round_core:
  assumes "settle_round P sch outs s = (Inr r, s')" and "schedulable sch (rs_contexts s)" and "sch \<noteq> []"
    and "length outs = length sch" and "list_all outcome_decided outs"
  shows "round_core P (length sch) (core s) r (core s')"
proof (cases "first_failure outs")
  case None
  then have ok: "list_all outcome_ok outs" by (simp add: first_failure_None)
  obtain cr x where cp: "commit_parallel_round (rs_executor s) = (cr, x)" by fastforce
  let ?s = "with_metrics (\<lambda>m. m\<lparr>pmt_commits := pmt_commits m + 1\<rparr>) (s\<lparr>rs_executor := x\<rparr>)"
  have sch: "schedulable sch (rs_contexts ?s)" using assms(2) by (simp add: with_metrics_def)
  show ?thesis
  proof (cases cr)
    case (Inr u)
    then have "r = GoOn" "s' = record_all P (zip sch outs) ?s"
      using assms(1) None cp by (auto simp: settle_round_def)
    with record_all_core [OF sch assms(4) ok, of P] show ?thesis
      by (simp add: round_core_def core_def with_metrics_def)
  next
    case (Inl e)
    then have "r = FallBack" "core s' = core s"
      using assms(1) None cp by (auto simp: settle_round_def split: py_error.splits prod.splits sum.splits)
    then show ?thesis by (simp add: round_core_def)
  qed
next
  case (Some i)
  show ?thesis
  proof (cases "i = 0")
    case False
    with assms(1) Some show ?thesis
      by (auto simp: settle_round_def round_core_def Let_def split: prod.splits sum.splits)
  next
    case True
    obtain c sch' out outs' where l: "sch = c # sch'" "outs = out # outs'"
      using assms(3,4) by (cases sch; cases outs) auto
    from assms(1) Some True l obtain x where "report_first P c out (s\<lparr>rs_executor := x\<rparr>) = (r, s')"
      by (auto simp: settle_round_def Let_def split: prod.splits sum.splits)
    with report_first_core [of P c out "s\<lparr>rs_executor := x\<rparr>" r s' "length sch"] first_failure_0 [of outs] Some True l assms(2,5)
    show ?thesis by (simp add: schedulable_def)
  qed
qed

lemma parallel_steps_core:
  assumes "parallel_steps W cfg P img sch s = (Inr r, s')" and "schedulable sch (rs_contexts s)" and "sch \<noteq> []"
  shows "round_core P (length sch) (core s) r (core s')"
proof -
  let ?s = "with_metrics (\<lambda>m. m\<lparr>pmt_attempted := True, pmt_rounds := pmt_rounds m + 1\<rparr>) s"
  from assms(1) obtain x outs x' where "amap (execute_context W cfg img None) sch x = (Inr outs, x')"
    and "settle_round P sch outs (?s\<lparr>rs_executor := x'\<rparr>) = (Inr r, s')"
    by (auto simp: parallel_steps_def Let_def split: prod.splits sum.splits)
  with settle_round_core [OF this(2) _ assms(3) amap_length [OF this(1)] amap_execute_decided [OF this(1)]] assms(2)
  show ?thesis by (simp add: with_metrics_def core_def)
qed

section \<open>Lemmas: the invariant of a run\<close>

definition step_count :: "int \<Rightarrow> multi_pe_step list \<Rightarrow> int" where
  "step_count pe sts = int (length (filter (\<lambda>st. mst_pe_id st = pe \<and> mst_returncode st = 0) sts))"

definition core_inv :: "nat \<Rightarrow> run_core \<Rightarrow> bool" where
  "core_inv n a \<longleftrightarrow> map ctx_pe_id (fst a) = map int [0..<n] \<and> map mst_index (snd a) = map int [0..<length (snd a)]
     \<and> (\<forall>c \<in> set (fst a). (ctx_finished c \<longrightarrow> \<not> ctx_active c \<and> 0 < ctx_instruction_count c)
          \<and> ctx_instruction_count c = step_count (ctx_pe_id c) (snd a))"

definition running :: "run_core \<Rightarrow> bool" where
  "running a \<longleftrightarrow> (\<forall>c \<in> set (fst a). ctx_active c \<or> ctx_finished c) \<and> (\<forall>st \<in> set (snd a). mst_returncode st = 0)"

definition stopped :: "run_core \<Rightarrow> bool" where
  "stopped a \<longleftrightarrow> (\<exists>sts st. snd a = sts @ [st] \<and> (\<forall>t \<in> set sts. mst_returncode t = 0) \<and> mst_returncode st \<noteq> 0
     \<and> (\<exists>c \<in> set (fst a). ctx_pe_id c = mst_pe_id st \<and> \<not> ctx_active c \<and> \<not> ctx_finished c))"

lemma stoppedI:
  "c \<in> set cs \<Longrightarrow> ctx_pe_id c = mst_pe_id st \<Longrightarrow> \<not> ctx_active c \<Longrightarrow> \<not> ctx_finished c \<Longrightarrow>
   \<forall>t \<in> set sts. mst_returncode t = 0 \<Longrightarrow> mst_returncode st \<noteq> 0 \<Longrightarrow> stopped (cs, sts @ [st])"
  unfolding stopped_def by auto

lemma map_pe_set_context: "map ctx_pe_id (set_context c cs) = map ctx_pe_id cs"
  by (simp add: set_context_def)

lemma in_set_context:
  "d \<in> set (set_context c cs) \<Longrightarrow> d = c \<or> d \<in> set cs \<and> ctx_pe_id d \<noteq> ctx_pe_id c"
  by (auto simp: set_context_def)

lemma step_count_append:
  "step_count pe (sts @ [st]) = step_count pe sts + (if mst_pe_id st = pe \<and> mst_returncode st = 0 then 1 else 0)"
  by (simp add: step_count_def)

lemma step_count_nonneg [simp]: "0 \<le> step_count pe sts"
  by (simp add: step_count_def)

text \<open>Replacing one context and appending one step keeps the invariant if they agree.\<close>

lemma core_inv_update:
  assumes "core_inv n (cs, sts)" and "ctx_pe_id c' = mst_pe_id st" and "mst_index st = int (length sts)"
    and "ctx_finished c' \<longrightarrow> \<not> ctx_active c' \<and> 0 < ctx_instruction_count c'"
    and "ctx_instruction_count c' = step_count (ctx_pe_id c') (sts @ [st])"
  shows "core_inv n (set_context c' cs, sts @ [st])"
  unfolding core_inv_def
proof (intro conjI ballI; (unfold fst_conv snd_conv)?)
  show "map ctx_pe_id (set_context c' cs) = map int [0..<n]"
    using assms(1) by (simp add: core_inv_def map_pe_set_context)
  show "map mst_index (sts @ [st]) = map int [0..<length (sts @ [st])]"
    using assms(1,3) by (simp add: core_inv_def)
  fix d assume "d \<in> set (set_context c' cs)"
  then consider "d = c'" | "d \<in> set cs" "ctx_pe_id d \<noteq> mst_pe_id st"
    using in_set_context assms(2) by metis
  then show "ctx_finished d \<longrightarrow> \<not> ctx_active d \<and> 0 < ctx_instruction_count d"
    "ctx_instruction_count d = step_count (ctx_pe_id d) (sts @ [st])"
    using assms by (cases; auto simp: core_inv_def step_count_append)+
qed

lemma record_outcome_ok:
  assumes "record_outcome P n c rq ex w = (c', st, f)" and "execution_ok ex"
  shows "mst_index st = int n" "mst_pe_id st = ctx_pe_id c" "mst_returncode st = 0" "ctx_pe_id c' = ctx_pe_id c"
    "ctx_instruction_count c' = ctx_instruction_count c + 1"
    "ctx_active c \<Longrightarrow> \<not> ctx_finished c \<Longrightarrow> ctx_active c' = (\<not> ctx_finished c')"
proof -
  have rc: "ie_returncode ex = 0" using assms(2) by (simp add: execution_ok_def)
  define ex' where "ex' = (if is_terminal (rp_encodings P) (le_int (ir_encoding rq)) w \<and> \<not> ie_finished ex
    then ex\<lparr>ie_finished := True\<rparr> else ex)"
  define c1 where "c1 = c\<lparr>ctx_pc := rp_flow P c rq ex', ctx_instruction_count := ctx_instruction_count c + 1\<rparr>"
  have "execution_ok ex'" "ie_returncode ex' = 0" using assms(2) rc by (simp_all add: ex'_def)
  with assms have *: "c' = (if rp_finish P c1 rq ex' then c1\<lparr>ctx_active := False, ctx_finished := True\<rparr> else c1)"
    "mst_index st = int n" "mst_pe_id st = ctx_pe_id c" "mst_returncode st = 0"
    by (auto simp: record_outcome_def Let_def ex'_def [symmetric] c1_def [symmetric])
  then show "mst_index st = int n" "mst_pe_id st = ctx_pe_id c" "mst_returncode st = 0" by simp_all
  show "ctx_pe_id c' = ctx_pe_id c" "ctx_instruction_count c' = ctx_instruction_count c + 1"
    "ctx_active c \<Longrightarrow> \<not> ctx_finished c \<Longrightarrow> ctx_active c' = (\<not> ctx_finished c')"
    by (simp_all add: *(1) c1_def)
qed

lemma record_outcome_bad:
  assumes "record_outcome P n c rq ex w = (c', st, f)" and "\<not> execution_ok ex"
  shows "mst_index st = int n" "mst_pe_id st = ctx_pe_id c" "mst_returncode st = ie_returncode ex"
    "c' = c\<lparr>ctx_active := False\<rparr>"
  using assms by (auto simp: record_outcome_def Let_def)

lemma core_inv_active:
  "core_inv n (cs, sts) \<Longrightarrow> c \<in> set cs \<Longrightarrow> ctx_active c \<Longrightarrow> \<not> ctx_finished c \<and> ctx_instruction_count c = step_count (ctx_pe_id c) sts"
  by (auto simp: core_inv_def)

lemma set_context_mem: "c \<in> set cs \<Longrightarrow> ctx_pe_id c' = ctx_pe_id c \<Longrightarrow> c' \<in> set (set_context c' cs)"
  by (force simp: set_context_def)

lemma ok_step_inv:
  assumes "ok_step P a b" and "core_inv n a" and "running a"
  shows "core_inv n b \<and> running b"
  using assms
proof (induction rule: ok_step.induct)
  case (1 c cs ex sts rq width c' st f)
  note r = record_outcome_ok [OF 1(4,3)]
  have c: "\<not> ctx_finished c" "ctx_instruction_count c = step_count (ctx_pe_id c) sts"
    using core_inv_active [OF 1(5,1,2)] by auto
  have cnt: "ctx_instruction_count c' = step_count (ctx_pe_id c') (sts @ [st])" using r c by (simp add: step_count_append)
  have "core_inv n (set_context c' cs, sts @ [st])"
    by (rule core_inv_update [OF 1(5)]) (use r c cnt 1(2) in auto)
  moreover have "running (set_context c' cs, sts @ [st])"
    using 1(6) r(3) r(6) [OF 1(2) c(1)] in_set_context [of _ c' cs] by (auto simp: running_def)
  ultimately show ?case by simp
qed

lemma ok_steps_inv: "(ok_step P)\<^sup>*\<^sup>* a b \<Longrightarrow> core_inv n a \<Longrightarrow> running a \<Longrightarrow> core_inv n b \<and> running b"
  by (induction rule: rtranclp_induct) (auto dest: ok_step_inv)

lemma bad_step_inv:
  assumes "bad_step P a b" and "core_inv n a" and "running a"
  shows "core_inv n b \<and> stopped b"
  using assms
proof (induction rule: bad_step.induct)
  case (rejected c cs ex sts rq width c' st f)
  note r = record_outcome_bad [OF rejected(5,3)]
  have c: "\<not> ctx_finished c" "ctx_instruction_count c = step_count (ctx_pe_id c) sts"
    using core_inv_active [OF rejected(6,1,2)] by auto
  have "core_inv n (set_context c' cs, sts @ [st])"
    by (rule core_inv_update [OF rejected(6)]) (use r c rejected(4) in \<open>auto simp: step_count_append\<close>)
  moreover have "c' \<in> set (set_context c' cs)" using set_context_mem [OF rejected(1)] r by simp
  then have "stopped (set_context c' cs, sts @ [st])"
    by (rule stoppedI) (use rejected(4,7) r c in \<open>auto simp: running_def\<close>)
  ultimately show ?case by simp
next
  case (fetch c cs sts msg)
  have c: "\<not> ctx_finished c" "ctx_instruction_count c = step_count (ctx_pe_id c) sts"
    using core_inv_active [OF fetch(3,1,2)] by auto
  let ?c = "c\<lparr>ctx_active := False\<rparr>" and ?st = "failed_fetch_step (length sts) c msg"
  have "core_inv n (set_context ?c cs, sts @ [?st])"
    by (rule core_inv_update [OF fetch(3)]) (use c in \<open>auto simp: step_count_append failed_fetch_step_def\<close>)
  moreover have "?c \<in> set (set_context ?c cs)" using set_context_mem [OF fetch(1)] by simp
  then have "stopped (set_context ?c cs, sts @ [?st])"
    by (rule stoppedI) (use fetch(4) c in \<open>auto simp: running_def failed_fetch_step_def\<close>)
  ultimately show ?case by simp
qed

section \<open>Lemmas: the loop\<close>

definition loop_post :: "nat \<Rightarrow> bool \<Rightarrow> int \<Rightarrow> loop_end \<Rightarrow> run_core \<Rightarrow> bool" where
  "loop_post n pool m r a \<longleftrightarrow>
     (case r of
        EndedFallback \<Rightarrow> pool
      | EndedFetch \<Rightarrow> core_inv n a \<and> int (length (snd a)) \<le> m \<and> stopped a
      | Ended t \<Rightarrow> core_inv n a \<and> int (length (snd a)) \<le> m
          \<and> (t = ''all_finished'' \<and> running a \<and> (\<forall>c \<in> set (fst a). \<not> ctx_active c)
             \<or> t = ''max_instructions'' \<and> running a \<and> int (length (snd a)) = m \<and> (\<exists>c \<in> set (fst a). ctx_active c)
             \<or> t \<in> failure_names \<and> stopped a))"

lemma schedule_schedulable:
  assumes "core_inv n (core s)"
  shows "schedulable (take k (schedule_contexts (rs_contexts s))) (rs_contexts s)"
proof -
  have "distinct (map ctx_pe_id (rs_contexts s))"
    using assms by (simp add: core_inv_def core_def distinct_map)
  then have "distinct (map ctx_pe_id (schedule_contexts (rs_contexts s)))"
    unfolding schedule_contexts_def by (simp add: distinct_map inj_on_def)
  then show ?thesis
    by (auto simp: schedulable_def take_map [symmetric] schedule_contexts_def dest: in_set_takeD)
qed

lemma round_post:
  assumes "round_core P k (core s) r (core s')" and "core_inv n (core s)" and "running (core s)"
  shows "case r of GoOn \<Rightarrow> core_inv n (core s') \<and> running (core s') \<and> length (rs_steps s') = length (rs_steps s) + k
    | FallBack \<Rightarrow> True
    | StepFailed t \<Rightarrow> t \<in> failure_names \<and> core_inv n (core s') \<and> stopped (core s') \<and> length (rs_steps s') \<le> length (rs_steps s) + k
    | FetchStopped \<Rightarrow> core_inv n (core s') \<and> stopped (core s') \<and> length (rs_steps s') \<le> length (rs_steps s) + k"
proof (cases r)
  case GoOn
  with assms ok_steps_inv [of P "core s" "core s'" n] show ?thesis by (simp add: round_core_def core_def)
next
  case (StepFailed t)
  with assms(1) obtain u where "(ok_step P)\<^sup>*\<^sup>* (core s) u" "bad_step P u (core s')" by (auto simp: round_core_def)
  with ok_steps_inv bad_step_inv assms(2,3) have "core_inv n (core s') \<and> stopped (core s')" by blast
  with assms(1) StepFailed show ?thesis by (simp add: round_core_def core_def)
next
  case FetchStopped
  with assms(1) obtain u where "(ok_step P)\<^sup>*\<^sup>* (core s) u" "bad_step P u (core s')" by (auto simp: round_core_def)
  with ok_steps_inv bad_step_inv assms(2,3) have "core_inv n (core s') \<and> stopped (core s')" by blast
  with assms(1) FetchStopped show ?thesis by (simp add: round_core_def core_def)
qed simp

lemma run_round_core:
  assumes "run_round W cfg P img lb pool sch s = (Inr q, s')" and "schedulable sch (rs_contexts s)" and "sch \<noteq> []"
  shows "round_core P (length sch) (core s) q (core s')" and "q = FallBack \<Longrightarrow> pool"
  using assms(1) serial_steps_core [OF _ assms(2), of W cfg P img lb q s'] parallel_steps_core [OF _ assms(2,3), of W cfg P img q s']
  by (auto simp: run_round_def split: if_splits)

lemma run_loop_fuel:
  assumes "m \<le> int (length (rs_steps s)) + int fuel" and "core_inv n (core s)" and "running (core s)"
    and "int (length (rs_steps s)) \<le> m" and "\<exists>c \<in> set (rs_contexts s). ctx_active c"
  shows "\<exists>r s'. run_loop fuel W cfg P img lb pool m s = Some (r, s') \<and> (\<forall>l. r = Inr l \<longrightarrow> loop_post n pool m l (core s'))"
  using assms
proof (induction fuel arbitrary: s)
  case 0
  then show ?case by (simp add: loop_post_def core_def)
next
  case (Suc fuel)
  show ?case
  proof (cases "int (length (rs_steps s)) < m")
    case False
    with Suc.prems show ?thesis by (simp add: loop_post_def core_def)
  next
    case True
    let ?sch = "scheduled m s"
    have ne: "?sch \<noteq> []"
      using True Suc.prems(5) by (auto simp: scheduled_def schedule_contexts_def filter_empty_conv)
    have sch: "schedulable ?sch (rs_contexts s)"
      unfolding scheduled_def using schedule_schedulable [OF Suc.prems(2)] .
    have len: "0 < length ?sch" "int (length ?sch) \<le> m - int (length (rs_steps s))"
      using ne True by (auto simp: scheduled_def)
    obtain r s' where rs: "run_round W cfg P img lb pool ?sch s = (r, s')" by fastforce
    show ?thesis
    proof (cases r)
      case (Inl e)
      with rs True ne show ?thesis by simp
    next
      case (Inr q)
      have rc: "round_core P (length ?sch) (core s) q (core s')" and fb: "q = FallBack \<Longrightarrow> pool"
        using run_round_core [OF _ sch ne] rs Inr by blast+
      note post = round_post [OF rc Suc.prems(2,3)]
      have step: "run_loop (Suc fuel) W cfg P img lb pool m s =
          (case q of GoOn \<Rightarrow> if list_all (\<lambda>c. \<not> ctx_active c) (rs_contexts s') then Some (Inr (Ended ''all_finished''), s')
                     else run_loop fuel W cfg P img lb pool m s'
           | StepFailed t \<Rightarrow> Some (Inr (Ended t), s') | FetchStopped \<Rightarrow> Some (Inr EndedFetch, s')
           | FallBack \<Rightarrow> Some (Inr EndedFallback, s'))"
        using True ne rs Inr by (simp split: round_end.split)
      show ?thesis
      proof (cases q)
        case GoOn
        with post have inv: "core_inv n (core s')" "running (core s')"
          and ln: "length (rs_steps s') = length (rs_steps s) + length ?sch" by simp_all
        from ln have b: "m \<le> int (length (rs_steps s')) + int fuel" "int (length (rs_steps s')) \<le> m"
          using len Suc.prems(1) by linarith+
        show ?thesis
        proof (cases "\<exists>c \<in> set (rs_contexts s'). ctx_active c")
          case act: True
          from act have "\<not> list_all (\<lambda>c. \<not> ctx_active c) (rs_contexts s')" by (auto simp: list_all_iff)
          with Suc.IH [OF b(1) inv b(2) act] show ?thesis by (simp add: step GoOn del: run_loop.simps)
        next
          case False
          with inv b(2) show ?thesis by (simp add: step GoOn list_all_iff loop_post_def core_def del: run_loop.simps)
        qed
      next
        case (StepFailed t)
        with post len have "int (length (rs_steps s')) \<le> m" by simp
        with post StepFailed show ?thesis by (simp add: step loop_post_def core_def del: run_loop.simps)
      next
        case FetchStopped
        with post len have "int (length (rs_steps s')) \<le> m" by simp
        with post FetchStopped show ?thesis by (simp add: step loop_post_def core_def del: run_loop.simps)
      next
        case FallBack
        with fb have "loop_post n pool m EndedFallback (core s')" by (simp add: loop_post_def)
        with FallBack show ?thesis by (simp add: step del: run_loop.simps)
      qed
    qed
  qed
qed

lemma loop_post_pool: "loop_post n p m l a \<Longrightarrow> l \<noteq> EndedFallback \<Longrightarrow> loop_post n p' m l a"
  by (cases l) (simp_all add: loop_post_def)

section \<open>Lemmas: the run\<close>

lemma initial_core:
  assumes "0 < pe_count"
  shows "core_inv (nat pe_count) (initial_contexts img pe_count, [])"
    and "running (initial_contexts img pe_count, [])" and "\<exists>c \<in> set (initial_contexts img pe_count). ctx_active c"
proof -
  show "core_inv (nat pe_count) (initial_contexts img pe_count, [])" "running (initial_contexts img pe_count, [])"
    by (auto simp: core_inv_def running_def initial_contexts_def PeContext_def step_count_def comp_def)
  have "0 \<in> set [0..<nat pe_count]" using assms by simp
  then have "PeContext 0 0 (pi_entry_point img) \<in> set (initial_contexts img pe_count)"
    unfolding initial_contexts_def set_map by (rule rev_image_eqI) simp
  then show "\<exists>c \<in> set (initial_contexts img pe_count). ctx_active c"
    by (rule rev_bexI) (simp add: PeContext_def)
qed

lemma run_guards_Inr:
  "run_guards R img pe_count m lb = Inr u \<Longrightarrow> 0 < pe_count \<and> 0 < m"
  by (auto simp: run_guards_def split: if_splits)

text \<open>What one attempt gives: always something, and a classified result.\<close>

definition result_post :: "int \<Rightarrow> int \<Rightarrow> multi_result \<Rightarrow> bool" where
  "result_post pe_count m r \<longleftrightarrow> 0 < pe_count \<and>
     (loop_post (nat pe_count) False m (Ended (mr_termination r)) (mr_contexts r, mr_steps r)
      \<or> mr_termination r = ''step_failed'' \<and> loop_post (nat pe_count) False m EndedFetch (mr_contexts r, mr_steps r))"

lemma run_attempt_post:
  "\<exists>q h'. run_attempt R W P img pe_count m lb h = Some (q, h')
     \<and> (\<forall>r. q = Inr (Inl r) \<longrightarrow> result_post pe_count m r)
     \<and> (\<forall>mt. q = Inr (Inr mt) \<longrightarrow> xc_parallel_pe_steps (rc_executor R))"
proof (cases "run_guards R img pe_count m lb")
  case (Inl e)
  then show ?thesis by (simp add: run_attempt_def Let_def)
next
  case g: (Inr u)
  note pos = run_guards_Inr [OF g]
  let ?cfg = "rc_executor R" and ?cs = "initial_contexts img pe_count"
  let ?l = "resolve img (xc_stack_policy ?cfg) (xc_stack_pointer ?cfg) (xc_stack_size ?cfg) (xc_stack_gap ?cfg)
                  (xc_stack_stride ?cfg) (xc_red_zone ?cfg) pe_count 4096 64"
  let ?pool = "xc_parallel_pe_steps ?cfg \<and> pe_count > 1"
  show ?thesis
  proof (cases ?l)
    case (Inl e)
    with g show ?thesis by (simp add: run_attempt_def Let_def)
  next
    case l: (Inr l)
    obtain r x where st: "executor_start W ?cfg img ?cs (new_executor h) = (r, x)" by fastforce
    let ?s = "\<lparr>rs_contexts = ?cs, rs_steps = [], rs_executor = x, rs_parallel = no_parallel_metrics\<rparr>"
    show ?thesis
    proof (cases r)
      case (Inl e)
      with g l st show ?thesis
        by (auto simp: run_attempt_def Let_def finish_run_def split: prod.splits sum.splits)
    next
      case (Inr u)
      have "core ?s = (?cs, [])" by (simp add: core_def)
      then have pre: "m \<le> int (length (rs_steps ?s)) + int (nat m)" "core_inv (nat pe_count) (core ?s)"
        "running (core ?s)" "int (length (rs_steps ?s)) \<le> m" "\<exists>c \<in> set (rs_contexts ?s). ctx_active c"
        using initial_core [of pe_count img] pos by simp_all
      obtain lr s' where lp: "run_loop (nat m) W ?cfg P img lb ?pool m ?s = Some (lr, s')"
        and post: "\<forall>l. lr = Inr l \<longrightarrow> loop_post (nat pe_count) ?pool m l (core s')"
        using run_loop_fuel [OF pre, of W ?cfg P img lb ?pool] by blast
      have "run_attempt R W P img pe_count m lb h = Some (finish_run W l (lr, s'))"
        using g l st Inr lp by (simp add: run_attempt_def Let_def)
      moreover obtain q h' where fr: "finish_run W l (lr, s') = (q, h')" by fastforce
      moreover have "result_post pe_count m r" if q: "q = Inr (Inl r)" for r
      proof -
        from fr q consider t x' where "lr = Inr (Ended t)" "r = make_result t l True s' x'"
          | x' where "lr = Inr EndedFetch" "r = make_result ''step_failed'' l False s' x'"
          by (auto simp: finish_run_def Let_def split: prod.splits sum.splits loop_end.splits)
        then show ?thesis
        proof cases
          case 1
          with post have "loop_post (nat pe_count) False m (Ended t) (core s')" using loop_post_pool by blast
          with 1 pos show ?thesis by (simp add: result_post_def make_result_def core_def)
        next
          case 2
          with post have "loop_post (nat pe_count) False m EndedFetch (core s')" using loop_post_pool by blast
          with 2 pos show ?thesis by (simp add: result_post_def make_result_def core_def)
        qed
      qed
      moreover have "xc_parallel_pe_steps ?cfg" if q: "q = Inr (Inr mt)" for mt
      proof -
        from fr q have "lr = Inr EndedFallback"
          by (auto simp: finish_run_def Let_def split: prod.splits sum.splits loop_end.splits)
        with post show ?thesis by (simp add: loop_post_def)
      qed
      ultimately show ?thesis by auto
    qed
  qed
qed

lemma result_post_parallel [simp]: "result_post pe_count m (r\<lparr>mr_parallel := mt\<rparr>) = result_post pe_count m r"
  by (simp add: result_post_def)

lemma run_image_post:
  obtains q h' where "run_image R W P img pe_count m lb h = Some (q, h')"
    and "\<And>r. q = Inr r \<Longrightarrow> result_post pe_count m r"
proof -
  obtain q h1 where a: "run_attempt R W P img pe_count m lb h = Some (q, h1)"
    and ap: "\<And>r. q = Inr (Inl r) \<Longrightarrow> result_post pe_count m r" using run_attempt_post by blast
  obtain q2 h2 where b: "run_attempt (serially R) W P img pe_count m lb h1 = Some (q2, h2)"
    and bp: "\<And>r. q2 = Inr (Inl r) \<Longrightarrow> result_post pe_count m r" "\<And>mt. q2 \<noteq> Inr (Inr mt)"
    using run_attempt_post [of "serially R" W P img pe_count m lb h1] by (auto simp: serially_def)
  consider e where "q = Inl e" | r where "q = Inr (Inl r)" | mt where "q = Inr (Inr mt)"
    by (metis sum.exhaust)
  then show thesis
  proof cases
    case 1
    with a show ?thesis by (intro that [of "Inl e" h1]) (simp_all add: run_image_def)
  next
    case 2
    with a ap show ?thesis by (intro that [of "Inr r" h1]) (auto simp: run_image_def)
  next
    case 3
    show ?thesis
    proof (cases q2)
      case (Inl e)
      with 3 a b show ?thesis by (intro that [of "Inl e" h2]) (simp_all add: run_image_def)
    next
      case (Inr y)
      have "y \<noteq> Inr mt'" for mt' using bp(2) [of mt'] Inr by simp
      then obtain r where r: "y = Inl r" by (cases y) auto
      then have "result_post pe_count m r" using bp(1) Inr by simp
      with r Inr 3 a b show ?thesis
        by (intro that [of "Inr (r\<lparr>mr_parallel := Some mt\<rparr>)" h2]) (auto simp: run_image_def)
    qed
  qed
qed

lemma run_image_result: "run_image R W P img pe_count m lb h = Some (Inr r, h') \<Longrightarrow> result_post pe_count m r"
  by (rule run_image_post [of R W P img pe_count m lb h]) auto

lemma result_verdict:
  assumes "result_post pe_count m r"
  shows "(multi_result_status r = ''passed'' \<and> mr_termination r = ''all_finished''
       \<and> (\<forall>c \<in> set (mr_contexts r). ctx_finished c \<and> \<not> ctx_active c) \<and> (\<forall>s \<in> set (mr_steps r). mst_returncode s = 0))
    \<or> (multi_result_status r = ''unfinished'' \<and> mr_termination r = ''max_instructions''
       \<and> int (length (mr_steps r)) = m \<and> (\<exists>c \<in> set (mr_contexts r). ctx_active c)
       \<and> (\<forall>s \<in> set (mr_steps r). mst_returncode s = 0))
    \<or> (multi_result_status r = ''failed'' \<and> mr_termination r \<in> failure_names
       \<and> (\<exists>sts st. mr_steps r = sts @ [st] \<and> mst_returncode st \<noteq> 0 \<and> (\<forall>s \<in> set sts. mst_returncode s = 0)))"
proof -
  let ?a = "(mr_contexts r, mr_steps r)"
  have inv: "core_inv (nat pe_count) ?a" and pe: "0 < pe_count"
    using assms by (auto simp: result_post_def loop_post_def)
  from assms consider (fin) "mr_termination r = ''all_finished''" "running ?a" "\<forall>c \<in> set (mr_contexts r). \<not> ctx_active c"
    | (bound) "mr_termination r = ''max_instructions''" "running ?a" "int (length (mr_steps r)) = m"
        "\<exists>c \<in> set (mr_contexts r). ctx_active c"
    | (fail) "mr_termination r \<in> failure_names" "stopped ?a"
    by (auto simp: result_post_def loop_post_def failure_names_def)
  then show ?thesis
  proof cases
    case fin
    have "mr_contexts r \<noteq> []" using inv pe by (auto simp: core_inv_def)
    then have c: "hd (mr_contexts r) \<in> set (mr_contexts r)" by simp
    with fin have "ctx_finished (hd (mr_contexts r))" by (auto simp: running_def)
    with c inv have "mr_steps r \<noteq> []" by (auto simp: core_inv_def step_count_def)
    then have "multi_result_ok r" using fin by (auto simp: multi_result_ok_def running_def list_all_iff list_ex_iff)
    with fin show ?thesis by (auto simp: multi_result_status_def running_def)
  next
    case bound
    then have "\<not> multi_result_ok r" by (simp add: multi_result_ok_def)
    with bound show ?thesis by (simp add: multi_result_status_def running_def list_all_iff)
  next
    case fail
    then obtain sts st where st: "mr_steps r = sts @ [st]" "mst_returncode st \<noteq> 0" "\<forall>s \<in> set sts. mst_returncode s = 0"
      by (auto simp: stopped_def)
    then have "\<not> multi_result_ok r" "\<not> list_all (\<lambda>s. mst_returncode s = 0) (mr_steps r)"
      by (auto simp: multi_result_ok_def)
    with st fail show ?thesis by (auto simp: multi_result_status_def)
  qed
qed

section \<open>Properties\<close>

text \<open>
  C5: every call of \<open>run_image\<close> returns: whatever the workers do, the scheduler loop ends within
  \<open>max_instructions\<close> iterations, and an abandoned parallel attempt is followed by one serial attempt
  that is not abandoned in turn.
\<close>

theorem run_image_returns: "\<exists>r h'. run_image R W P img pe_count max_instructions length_bits h = Some (r, h')"
  by (rule run_image_post [of R W P img pe_count max_instructions length_bits h]) auto

text \<open>
  C7: the report of a run is exact: at most \<open>max_instructions\<close> steps, numbered 0, 1, 2 and so on, one
  context per PE in order, and the instruction count of a context is the number of its steps that
  returned 0.
\<close>

theorem run_report_exact:
  assumes "run_image R W P img pe_count max_instructions length_bits h = Some (Inr r, h')"
  shows "int (length (mr_steps r)) \<le> max_instructions
    \<and> map mst_index (mr_steps r) = map int [0..<length (mr_steps r)]
    \<and> map ctx_pe_id (mr_contexts r) = map int [0..<nat pe_count]
    \<and> (\<forall>c \<in> set (mr_contexts r). ctx_instruction_count c =
         int (length (filter (\<lambda>s. mst_pe_id s = ctx_pe_id c \<and> mst_returncode s = 0) (mr_steps r))))"
proof -
  have "result_post pe_count max_instructions r" using assms by (rule run_image_result)
  then have "core_inv (nat pe_count) (mr_contexts r, mr_steps r)" "int (length (mr_steps r)) \<le> max_instructions"
    by (auto simp: result_post_def loop_post_def)
  then show ?thesis by (simp add: core_inv_def step_count_def)
qed

text \<open>
  C6: the verdict of a run fails closed. A run passes exactly when it terminated because every
  context finished, and then every step returned 0. A run that stopped at the instruction bound
  is unfinished: it made exactly \<open>max_instructions\<close> successful steps and some context is still active.
  Any other run failed: its last step, and no other, has a non-zero return code.
\<close>

theorem run_verdict_fails_closed:
  assumes "run_image R W P img pe_count max_instructions length_bits h = Some (Inr r, h')"
  shows "(multi_result_status r = ''passed'' \<and> mr_termination r = ''all_finished''
       \<and> (\<forall>c \<in> set (mr_contexts r). ctx_finished c \<and> \<not> ctx_active c) \<and> (\<forall>s \<in> set (mr_steps r). mst_returncode s = 0))
    \<or> (multi_result_status r = ''unfinished'' \<and> mr_termination r = ''max_instructions''
       \<and> int (length (mr_steps r)) = max_instructions \<and> (\<exists>c \<in> set (mr_contexts r). ctx_active c)
       \<and> (\<forall>s \<in> set (mr_steps r). mst_returncode s = 0))
    \<or> (multi_result_status r = ''failed'' \<and> mr_termination r \<in> {''step_timeout'', ''runtime_error'', ''step_failed''}
       \<and> (\<exists>sts st. mr_steps r = sts @ [st] \<and> mst_returncode st \<noteq> 0 \<and> (\<forall>s \<in> set sts. mst_returncode s = 0)))"
  using result_verdict [OF run_image_result [OF assms]] unfolding failure_names_def .

text \<open>
  A demonstration run: two PEs, each with a worker that commits one halfword and reports the
  terminal marker.
\<close>

definition demo_config :: "bool \<Rightarrow> runner_config" where
  "demo_config par = \<lparr>rc_executor = \<lparr>xc_worker_scope = ''per-pe'', xc_parallel_pe_steps = par,
     xc_initial_source = SourceText [], xc_stack_pointer = None, xc_stack_size = 0, xc_stack_policy = ''disabled'',
     xc_stack_gap = 0, xc_stack_stride = None, xc_red_zone = 0,
     xc_profile = \<lparr>mp_name = ''linx-runtime'', mp_switches = [(''PTO_MODEL_HOST_MEMORY'', ''TRUE'')]\<rparr>,
     xc_profile_spec = None\<rparr>, rc_experimental_core = False, rc_allow_unmodelled = True\<rparr>"

definition demo_ops :: "(nat, auto_step_result) wmeth \<Rightarrow> (nat, unit) wmeth \<Rightarrow> nat worker_ops" where
  "demo_ops stp clear = \<lparr>wo_new = 0, wo_ensure_built = Inr, wo_start = (\<lambda>src spec. cret ()), wo_stop = (\<lambda>w. w),
     wo_ping = cret (), wo_clear_memory_cache = clear, wo_step = (\<lambda>i n. cret 0), wo_step_auto = stp,
     wo_decode_length = (\<lambda>i. cret 16), wo_peek_tpc = cret 0, wo_peek_fault = cret 0, wo_select_pe = None,
     wo_set_tpc = None, wo_peek_terminal_pending = Some (\<lambda>n. MDone (Inr (1 \<le> n), n)),
     wo_peek_block_collective = None, wo_stats = None, wo_identity = (\<lambda>w. None)\<rparr>"

definition ok_result :: auto_step_result where
  "ok_result = \<lparr>as_status = 0, as_length_bits = 16, as_fault_code = 0, as_tpc = 18, as_instruction = 1\<rparr>"

definition low_image :: program_image where
  "low_image = demo_image\<lparr>pi_entry_point := 16, pi_segments := [demo_segment\<lparr>ps_address := 16\<rparr>]\<rparr>"

definition demo_run :: "nat worker_ops \<Rightarrow> bool \<Rightarrow> (multi_result res \<times> unit host_bridge) option" where
  "demo_run W par = run_image (demo_config par) W (default_policies []) low_image 2 8 None (empty_bridge ''deny'')"

definition demo_result :: "(multi_result res \<times> unit host_bridge) option \<Rightarrow> multi_result option" where
  "demo_result r = (case r of Some (Inr r, h) \<Rightarrow> Some r | _ \<Rightarrow> None)"

lemma demo_resultD: "demo_result x = Some r \<Longrightarrow> \<exists>h. x = Some (Inr r, h)"
  by (auto simp: demo_result_def split: option.splits prod.splits sum.splits)

definition commit_worker :: "nat worker_ops" where
  "commit_worker = demo_ops (\<lambda>n. MDone (Inr ok_result, Suc n)) (cret ())"

lemma commit_worker_run:
  "map_option (\<lambda>r. (multi_result_status r, map mst_pe_id (mr_steps r), map ctx_instruction_count (mr_contexts r)))
     (demo_result (demo_run commit_worker True)) = Some (''passed'', [0, 1], [1, 1])"
  by code_simp

theorem run_report_exact_witness:
  "\<exists>r h. demo_run commit_worker True = Some (Inr r, h) \<and> int (length (mr_steps r)) \<le> 8 \<and> map mst_index (mr_steps r) = [0, 1]"
proof -
  from commit_worker_run obtain r where r: "demo_result (demo_run commit_worker True) = Some r"
    "map mst_pe_id (mr_steps r) = [0, 1]" by auto
  then obtain h where h: "demo_run commit_worker True = Some (Inr r, h)" using demo_resultD by blast
  have "length (mr_steps r) = 2" using r(2) by (metis length_map length_Cons list.size(3) numeral_2_eq_2)
  with run_report_exact [OF h [unfolded demo_run_def]] h show ?thesis
    by (intro exI [of _ r] exI [of _ h]) (simp add: upt_rec [of 0] upt_rec [of "Suc 0"])
qed

theorem run_verdict_fails_closed_witness:
  "\<exists>r h. demo_run commit_worker True = Some (Inr r, h) \<and> mr_termination r = ''all_finished''
     \<and> (\<forall>c \<in> set (mr_contexts r). ctx_finished c)"
proof -
  from commit_worker_run obtain r where r: "demo_result (demo_run commit_worker True) = Some r"
    "multi_result_status r = ''passed''" by auto
  then obtain h where h: "demo_run commit_worker True = Some (Inr r, h)" using demo_resultD by blast
  from run_verdict_fails_closed [OF h [unfolded demo_run_def]] r(2) h show ?thesis
    by (intro exI [of _ r] exI [of _ h]) auto
qed

end
