(* ===== verification/Memory_Agreement.thy ===== *)
theory Memory_Agreement
  imports Parallel_Memory
begin

text \<open>
  The memories behind a worker's callbacks agree also when they refuse: a view at the start of a
  round, the bridge itself, and the flat specification grant and refuse the same accesses. No
  refusal is a worker timeout, so the host reports them alike.
\<close>

definition plain_error :: "py_error \<Rightarrow> bool" where
  "plain_error e \<longleftrightarrow> (case e of EmbeddedWorkerTimeout _ \<Rightarrow> False | _ \<Rightarrow> True)"

lemma plain_error_simps [simp]:
  "plain_error (ValueError s)" "plain_error (MemoryAccessError k a n r)" "plain_error (RuntimeError s)"
  "plain_error (EmbeddedWorkerError s)"
  by (simp_all add: plain_error_def)

section \<open>Refusals of the bridge\<close>

lemma GuestRegion_negative: "b < 0 \<Longrightarrow> GuestRegion b sz perms nm = Inl (ValueError ''guest region requires base >= 0 and size > 0'')"
  by (simp add: GuestRegion_def)

lemma fill_holes_below:
  "\<forall>r \<in> set rs. e \<le> gr_base r \<Longrightarrow> fill_holes b e rs cursor m = (Inr cursor, m)"
  by (induction rs) auto

lemma map_zero_page_refuses:
  assumes wf: "mem_wf m" and page: "page = 2 ^ k" and a: "mapped m a \<or> a < 0"
  shows "\<exists>e m'. map_zero_page page a m = (Inl e, m') \<and> plain_error e"
proof (cases "mapped m a")
  case True
  then show ?thesis by (auto simp: map_zero_page_def mapped_def in_region_def list_ex_iff Let_def)
next
  case False
  with a have neg: "a < 0" by simp
  define b where "b = a AND NOT (page - 1)"
  have b: "b = a - a mod page" using page and_not_pred_pow2 [of a k] by (simp add: b_def)
  have pg: "0 < page" using page by simp
  have bn: "b \<le> a" "a < b + page" using pg by (simp_all add: b)
  have "b = a div page * page" by (simp add: b minus_mod_eq_div_mult)
  moreover have "a div page \<le> - 1" using div_neg_pos_less0 [OF neg pg] by simp
  then have "a div page * page \<le> - page" using pg by (metis mult_minus1 mult_right_mono order_less_imp_le)
  ultimately have e: "b + page \<le> 0" by simp
  have regions: "\<forall>r \<in> set (sort_key gr_base (gm_regions m)). b + page \<le> gr_base r"
    using wf e by (auto simp: mem_wf_def regions_wf_def region_ok_def)
  have "fill_holes b (b + page) (sort_key gr_base (gm_regions m)) b m = (Inr b, m)"
    by (rule fill_holes_below [OF regions])
  moreover have "b < 0" using bn neg by simp
  ultimately show ?thesis using False pg
    by (auto simp: map_zero_page_def b_def [symmetric] Let_def list_ex_iff mapped_def in_region_def finish_page_def
        map_region_act_def guest_map_region_def GuestRegion_negative)
qed

lemma host_map_zero_page_refuses:
  "bridge_wf h \<Longrightarrow> mapped (hb_memory h) a \<or> a < 0 \<Longrightarrow> \<exists>e h'. host_map_zero_page a h = (Inl e, h') \<and> plain_error e"
  using map_zero_page_refuses [of "hb_memory h" "hb_page_size h" _ a]
  by (fastforce simp: bridge_wf_def host_map_zero_page_def split: prod.splits)

lemma access_error_plain: "is_access_error e \<Longrightarrow> plain_error e"
  by (auto simp: is_access_error_def split: py_error.splits)

text \<open>An access that is not granted: the check raises, and no zero page can be mapped for it.\<close>

lemma host_refused:
  assumes "bridge_wf h" and "\<not> host_ok h a p"
  obtains e where "guest_check (hb_memory h) a 1 p = Inl e" "is_access_error e" "plain_error e"
    "hb_unmapped_policy h = ''zero'' \<Longrightarrow> \<exists>e' h'. host_map_zero_page a h = (Inl e', h') \<and> plain_error e'"
proof -
  have no: "\<not> (\<exists>r \<in> set (gm_regions (hb_memory h)). in_region r a \<and> p \<in> set (gr_permissions r))"
    using assms(2) by (auto simp: host_ok_def byte_ok_def)
  have wf: "mem_wf (hb_memory h)" using assms(1) by (simp add: bridge_wf_def)
  obtain e where e: "guest_check (hb_memory h) a 1 p = Inl e" "is_access_error e"
    using guest_byte_denied [OF wf no] by blast
  show thesis
  proof (rule that [OF e access_error_plain [OF e(2)]])
    assume "hb_unmapped_policy h = ''zero''"
    with assms(2) have "mapped (hb_memory h) a \<or> a < 0" by (auto simp: host_ok_def byte_ok_def mapped_def)
    then show "\<exists>e' h'. host_map_zero_page a h = (Inl e', h') \<and> plain_error e'"
      by (rule host_map_zero_page_refuses [OF assms(1)])
  qed
qed

lemma host_read_refuses:
  assumes "bridge_wf h" and "\<not> host_ok h a CHR ''r''"
  shows "\<exists>e h'. host_read_byte a h = (Inl e, h') \<and> plain_error e"
    and "hb_worker h = None \<Longrightarrow> \<exists>e h'. host_read_chunk a n h = (Inl e, h') \<and> plain_error e"
proof -
  obtain e where e: "guest_check (hb_memory h) a 1 CHR ''r'' = Inl e" "is_access_error e" "plain_error e"
    "hb_unmapped_policy h = ''zero'' \<Longrightarrow> \<exists>e' h'. host_map_zero_page a h = (Inl e', h') \<and> plain_error e'"
    using host_refused [OF assms] by blast
  have g: "guest_read (hb_memory h) a 1 = Inl e" using e(1) by (simp add: guest_read_def)
  show "\<exists>e h'. host_read_byte a h = (Inl e, h') \<and> plain_error e"
    using e g by (cases "hb_unmapped_policy h = ''zero''") (auto simp: host_read_byte_def)
  show "hb_worker h = None \<Longrightarrow> \<exists>e h'. host_read_chunk a n h = (Inl e, h') \<and> plain_error e"
    using e g by (cases "hb_unmapped_policy h = ''zero''") (auto simp: host_read_chunk_def)
qed

lemma host_write_refuses:
  assumes "bridge_wf h" and "\<not> host_ok h a CHR ''w'' \<or> \<not> is_byte v"
  shows "\<exists>e h'. host_write_byte a v h = (Inl e, h') \<and> plain_error e"
proof (cases "is_byte v")
  case True
  with assms(2) have "\<not> host_ok h a CHR ''w''" by simp
  then obtain e where e: "guest_check (hb_memory h) a 1 CHR ''w'' = Inl e" "is_access_error e" "plain_error e"
    "hb_unmapped_policy h = ''zero'' \<Longrightarrow> \<exists>e' h'. host_map_zero_page a h = (Inl e', h') \<and> plain_error e'"
    using host_refused [OF assms(1)] by blast
  have "guest_write (hb_memory h) a [word_of_int v] = Inl e" using e(1) by (simp add: guest_write_def)
  with e True show ?thesis
    by (cases "hb_unmapped_policy h = ''zero''") (auto simp: host_write_byte_def is_byte_def)
next
  case False
  then show ?thesis by (auto simp: host_write_byte_def is_byte_def)
qed

section \<open>The bridge agrees with the flat memory\<close>

interpretation flat_agreement:
  callback_agreement "flat_ops page R zero" bridge_ops "bridge_abs page R zero" plain_error
  for page R zero
proof unfold_locales
  fix a f h assume b: "bridge_abs page R zero f (h :: 'a host_bridge)"
  then have wf: "bridge_wf h" and nw: "hb_worker h = None" by (auto simp: bridge_abs_def)
  let ?A = "flat_ops page R zero"
  show "(\<exists>v f' h'. mo_read ?A a f = (Inr v, f') \<and> mo_read bridge_ops a h = (Inr v, h') \<and> bridge_abs page R zero f' h')
      \<or> (\<exists>e f' e' h'. mo_read ?A a f = (Inl e, f') \<and> mo_read bridge_ops a h = (Inl e', h') \<and> plain_error e \<and> plain_error e')"
    using bridge_read_refines [OF b, of a] host_read_refuses(1) [OF wf, of a] bridge_abs_ok [OF b, of "CHR ''r''" a]
    by (cases "byte_ok R zero a CHR ''r''") (auto simp: flat_ops_def bridge_ops_def)
  show "(\<exists>bs f' h'. mo_chunk ?A a n f = (Inr bs, f') \<and> mo_chunk bridge_ops a n h = (Inr bs, h') \<and> bridge_abs page R zero f' h')
      \<or> (\<exists>e f' e' h'. mo_chunk ?A a n f = (Inl e, f') \<and> mo_chunk bridge_ops a n h = (Inl e', h') \<and> plain_error e \<and> plain_error e')" for n
  proof (cases "n \<le> 0")
    case True
    then show ?thesis by (simp add: flat_ops_def bridge_ops_def host_read_chunk_def)
  next
    case False
    then show ?thesis
      using bridge_chunk_refines [OF b, of a n] host_read_refuses(2) [OF wf _ nw, of a n] bridge_abs_ok [OF b, of "CHR ''r''" a]
      by (cases "byte_ok R zero a CHR ''r''") (auto simp: flat_ops_def bridge_ops_def)
  qed
  show "(\<exists>f' h'. mo_write ?A a w f = (Inr (), f') \<and> mo_write bridge_ops a w h = (Inr (), h') \<and> bridge_abs page R zero f' h')
      \<or> (\<exists>e f' e' h'. mo_write ?A a w f = (Inl e, f') \<and> mo_write bridge_ops a w h = (Inl e', h') \<and> plain_error e \<and> plain_error e')" for w
    using bridge_write_refines [OF b, of a w] host_write_refuses [OF wf, of a w] bridge_abs_ok [OF b, of "CHR ''w''" a]
    by (cases "byte_ok R zero a CHR ''w'' \<and> is_byte w") (auto simp: flat_ops_def bridge_ops_def)
qed

section \<open>A view of the first PE agrees with the flat memory\<close>

definition first_view :: "coordinator \<Rightarrow> guest_region set \<Rightarrow> bool \<Rightarrow> (int \<Rightarrow> int) \<Rightarrow> parallel_view \<Rightarrow> (int \<Rightarrow> int) \<Rightarrow> bool" where
  "first_view c R zero f0 v f \<longleftrightarrow> view_abs c R zero f0 {} f0 v f \<and> \<not> pv_closed v \<and> \<not> pc_closed c
     \<and> (\<forall>a. is_byte (f0 a))"

lemma check_access_refuses:
  assumes "coord_ok c R zero f0" and "p = CHR ''r'' \<or> p = CHR ''w''"
  shows "check_access c a p = Inl e \<Longrightarrow> \<not> byte_ok R zero a p \<and> plain_error e"
proof -
  assume e: "check_access c a p = Inl e"
  from assms(1) obtain m where m: "zero_ext 4096 R m" "zero \<or> set (gm_regions m) = R" "pc_regions c = gm_regions m"
    "zero = (pc_unmapped_policy c = ''zero'')" by (auto simp: coord_ok_def)
  have wf: "mem_wf m" using m(1) by (simp add: zero_ext_def)
  have "\<not> byte_ok (set (gm_regions m)) zero a p"
  proof
    assume ok: "byte_ok (set (gm_regions m)) zero a p"
    then have "0 \<le> a" using regions_nonneg [OF wf, of a] by (auto simp: byte_ok_def mapped_def)
    show False
    proof (cases "find (\<lambda>r. gr_base r \<le> a \<and> a < gr_end r) (gm_regions m)")
      case None
      then have "\<not> (\<exists>r \<in> set (gm_regions m). in_region r a)" by (auto simp: find_None_iff in_region_def)
      with ok None e m \<open>0 \<le> a\<close> show False by (auto simp: check_access_def byte_ok_def)
    next
      case (Some r)
      then have r: "r \<in> set (gm_regions m)" "in_region r a" by (auto dest: find_SomeD simp: in_region_def)
      have rwf: "regions_wf (gm_regions m)" using wf by (simp add: mem_wf_def)
      have "p \<notin> set (gr_permissions r)" using Some e m(3) \<open>0 \<le> a\<close> by (auto simp: check_access_def split: if_splits)
      moreover obtain s where "s \<in> set (gm_regions m)" "in_region s a" "p \<in> set (gr_permissions s)"
        using ok r unfolding byte_ok_def by blast
      ultimately show False using regions_wf_disjoint [OF rwf _ r(1) _ r(2)] by metis
    qed
  qed
  moreover have "plain_error e" using e by (auto simp: check_access_def split: if_splits option.splits)
  ultimately show ?thesis using byte_ok_extension [of m R p zero a] m assms(2) by (auto simp: zero_ext_def)
qed

lemma view_overlay_byte:
  "first_view c R zero f0 v f \<Longrightarrow> is_byte (dict_get (pv_writes v) a (f0 a))"
  by (auto simp: first_view_def view_abs_def view_wf_def dict_get_def split: option.splits dest!: map_of_SomeD)

lemma first_view_reads:
  assumes "first_view c R zero f0 v f" and "\<forall>i \<in> set is. byte_ok R zero (a + int i) CHR ''r''"
  shows "\<exists>xs v'. amap (\<lambda>i. view_read_byte c (a + int i)) is v = (Inr xs, v') \<and> list_all is_byte xs"
  using assms
proof (induction "is" arbitrary: v f)
  case (Cons i "is")
  have c: "coord_ok c R zero f0" using Cons.prems(1) by (simp add: first_view_def view_abs_def)
  obtain q where q: "check_access c (a + int i) CHR ''r'' = Inr q"
    using check_access_refuses [OF c, of "CHR ''r''" "a + int i"] Cons.prems(2)
    by (cases "check_access c (a + int i) CHR ''r''") auto
  let ?v = "v\<lparr>pv_reads := insert (a + int i) (pv_reads v)\<rparr>"
  have r: "view_read_byte c (a + int i) v = (Inr (dict_get (pv_writes v) (a + int i) (f0 (a + int i))), ?v)"
    using q Cons.prems(1) c
    by (auto simp: view_read_byte_def read_snapshot_byte_def view_check_open_def first_view_def coord_ok_def)
  have fv: "first_view c R zero f0 ?v f"
    using Cons.prems(1) by (auto simp: first_view_def view_abs_def view_wf_def view_overlay_def fun_eq_iff)
  from Cons.IH [OF fv] Cons.prems(2) obtain xs v' where
    "amap (\<lambda>i. view_read_byte c (a + int i)) is ?v = (Inr xs, v')" "list_all is_byte xs" by auto
  with r view_overlay_byte [OF Cons.prems(1)] show ?case by simp
qed simp

text \<open>Every byte of a readable chunk is readable.\<close>

lemma readable_chunk_bytes:
  assumes c: "coord_ok c R zero f0" and k: "readable_chunk_size c a n = Inr k" and i: "i < nat k"
  shows "byte_ok R zero (a + int i) CHR ''r''"
proof -
  from k obtain q where q: "check_access c a CHR ''r'' = Inr q" by (auto simp: readable_chunk_size_def res_simps)
  from check_access_cases [OF c q] obtain m where m: "zero_ext 4096 R m" "pc_regions c = gm_regions m"
    "byte_ok R zero a CHR ''r''"
    "case q of None \<Rightarrow> \<not> mapped m a | Some r \<Rightarrow> r \<in> set (gm_regions m) \<and> in_region r a" by blast
  from c have zp: "zero = (pc_unmapped_policy c = ''zero'')" by (auto simp: coord_ok_def)
  have ext: "byte_ok (set (gm_regions m)) zero b CHR ''r'' = byte_ok R zero b CHR ''r''" for b
  proof -
    from c m(2) have "zero \<or> set (gm_regions m) = R" by (auto simp: coord_ok_def)
    with m(1) show ?thesis using byte_ok_extension [of m R "CHR ''r''" zero b] by (auto simp: zero_ext_def)
  qed
  have wf: "mem_wf m" using m(1) by (simp add: zero_ext_def)
  let ?b = "a + int i"
  show ?thesis
  proof (cases q)
    case (Some r)
    with k q have "k \<le> gr_end r - a" by (simp add: readable_chunk_size_def)
    with i Some m(4) have b: "in_region r ?b" "r \<in> set (gm_regions m)" "in_region r a" by (auto simp: in_region_def)
    have "CHR ''r'' \<in> set (gr_permissions r)"
      using Some q by (auto simp: check_access_def split: if_splits option.splits)
    with b ext show ?thesis by (auto simp: byte_ok_def)
  next
    case None
    with m(4) have un: "\<not> mapped m a" by simp
    have "zero" "0 \<le> a" using None q zp by (auto simp: check_access_def split: if_splits option.splits)
    have "\<not> in_region s ?b" if s: "s \<in> set (gm_regions m)" for s
    proof
      assume bs: "in_region s ?b"
      have "\<not> in_region s a" using un s by (auto simp: mapped_def)
      then have gt: "a < gr_base s" using bs by (auto simp: in_region_def)
      from readable_chunk_size_flat [OF c k] have kc: "k \<le> chunk_end 4096 R a - a" by simp
      have "\<not> (\<exists>r \<in> R. in_region r a)" using un m(1) by (auto simp: mapped_def zero_ext_def)
      then have "chunk_end 4096 R a = hole_end 4096 (set (gm_regions m)) a"
        using hole_end_ext [OF _ m(1) un] by (simp add: chunk_end_def)
      moreover have "hole_end 4096 (set (gm_regions m)) a \<le> gr_base s"
        unfolding hole_end_def using s gt by (intro Min_le) auto
      ultimately show False using kc i bs by (auto simp: in_region_def)
    qed
    with \<open>zero\<close> \<open>0 \<le> a\<close> have "byte_ok (set (gm_regions m)) zero ?b CHR ''r''" by (auto simp: byte_ok_def)
    with ext show ?thesis by simp
  qed
qed

lemma first_view_clean: "first_view c R zero f0 v f \<Longrightarrow> view_abs c R zero f0 {} f0 v f"
  by (simp add: first_view_def)

interpretation view_agreement:
  callback_agreement "view_ops c" "flat_ops 4096 R zero" "first_view c R zero f0" plain_error
  for c R zero f0
proof unfold_locales
  fix a v f assume fv: "first_view c R zero f0 v f"
  then have va: "view_abs c R zero f0 {} f0 v f" and c: "coord_ok c R zero f0"
    and op: "\<not> pv_closed v" "\<not> pc_closed c" by (auto simp: first_view_def view_abs_def)
  have keep: "first_view c R zero f0 v' f'" if "view_abs c R zero f0 {} f0 v' f'" "pv_closed v' = pv_closed v" for v' f'
    using that fv by (simp add: first_view_def)
  let ?B = "flat_ops 4096 R zero"
  have acc: "(\<exists>q. check_access c a p = Inr q \<and> byte_ok R zero a p) \<or> (\<exists>e. check_access c a p = Inl e \<and> \<not> byte_ok R zero a p \<and> plain_error e)"
    if "p = CHR ''r'' \<or> p = CHR ''w''" for p
  proof (cases "check_access c a p")
    case (Inl e)
    then show ?thesis using check_access_refuses [OF c that Inl] by blast
  next
    case (Inr q)
    then show ?thesis using check_access_cases [OF c Inr that] by blast
  qed
  show "(\<exists>x v' f'. mo_read (view_ops c) a v = (Inr x, v') \<and> mo_read ?B a f = (Inr x, f') \<and> first_view c R zero f0 v' f')
      \<or> (\<exists>e v' e' f'. mo_read (view_ops c) a v = (Inl e, v') \<and> mo_read ?B a f = (Inl e', f') \<and> plain_error e \<and> plain_error e')"
  proof (cases "check_access c a CHR ''r''")
    case (Inl e)
    with acc [of "CHR ''r''"] op show ?thesis
      by (auto simp: view_ops_def view_read_byte_def view_check_open_def read_snapshot_byte_def flat_ops_def)
  next
    case (Inr q)
    then obtain x where x: "mo_read (view_ops c) a v = (Inr x, v\<lparr>pv_reads := insert a (pv_reads v)\<rparr>)"
      using op by (auto simp: view_ops_def view_read_byte_def view_check_open_def read_snapshot_byte_def)
    from view_sim.sim_read [OF x _ va] obtain f' where "mo_read ?B a f = (Inr x, f')"
      "view_abs c R zero f0 {} f0 (v\<lparr>pv_reads := insert a (pv_reads v)\<rparr>) f'" by auto
    with x keep show ?thesis by fastforce
  qed
  show "(\<exists>bs v' f'. mo_chunk (view_ops c) a n v = (Inr bs, v') \<and> mo_chunk ?B a n f = (Inr bs, f') \<and> first_view c R zero f0 v' f')
      \<or> (\<exists>e v' e' f'. mo_chunk (view_ops c) a n v = (Inl e, v') \<and> mo_chunk ?B a n f = (Inl e', f') \<and> plain_error e \<and> plain_error e')" for n
  proof (cases "n \<le> 0")
    case True
    then show ?thesis by (simp add: view_ops_def view_read_chunk_def flat_ops_def)
  next
    case n: False
    show ?thesis
    proof (cases "readable_chunk_size c a n")
      case (Inl e)
      then have e: "check_access c a CHR ''r'' = Inl e"
        by (auto simp: readable_chunk_size_def res_simps Let_def split: option.splits)
      then have "\<not> byte_ok R zero a CHR ''r''" "plain_error e" using check_access_refuses [OF c] by auto
      with n Inl show ?thesis by (auto simp: view_ops_def view_read_chunk_def flat_ops_def)
    next
      case (Inr k)
      from readable_chunk_bytes [OF c Inr] obtain xs v' where
        xs: "amap (\<lambda>i. view_read_byte c (a + int i)) [0..<nat k] v = (Inr xs, v')" "list_all is_byte xs"
        using first_view_reads [OF fv, of "[0..<nat k]" a] by auto
      then obtain bs where "py_bytes xs = Inr bs" by (auto simp: py_bytes_def list_all_iff is_byte_def)
      with n Inr xs have ch: "mo_chunk (view_ops c) a n v = (Inr bs, v')"
        by (simp add: view_ops_def view_read_chunk_def)
      from view_sim.sim_chunk [OF ch _ va] obtain f' where "mo_chunk ?B a n f = (Inr bs, f')"
        "view_abs c R zero f0 {} f0 v' f'" by auto
      moreover have "pv_closed v' = pv_closed v" using view_reads_Inr [OF c xs(1)] by simp
      ultimately show ?thesis using ch keep by blast
    qed
  qed
  show "(\<exists>v' f'. mo_write (view_ops c) a w v = (Inr (), v') \<and> mo_write ?B a w f = (Inr (), f') \<and> first_view c R zero f0 v' f')
      \<or> (\<exists>e v' e' f'. mo_write (view_ops c) a w v = (Inl e, v') \<and> mo_write ?B a w f = (Inl e', f') \<and> plain_error e \<and> plain_error e')" for w
  proof (cases "is_byte w \<and> (\<exists>q. check_access c a CHR ''w'' = Inr q)")
    case True
    then have x: "mo_write (view_ops c) a w v = (Inr (), v\<lparr>pv_writes := AList.update a w (pv_writes v)\<rparr>)"
      using op by (auto simp: view_ops_def view_write_byte_def view_check_open_def is_byte_def)
    from view_sim.sim_write [OF x _ va] obtain f' where "mo_write ?B a w f = (Inr (), f')"
      "view_abs c R zero f0 {} f0 (v\<lparr>pv_writes := AList.update a w (pv_writes v)\<rparr>) f'" by auto
    with x keep show ?thesis by fastforce
  next
    case False
    with acc [of "CHR ''w''"] op show ?thesis
      by (auto simp: view_ops_def view_write_byte_def view_check_open_def flat_ops_def is_byte_def)
  qed
qed

end
