(* ===== verification/Round_Equivalence.thy ===== *)
theory Round_Equivalence
  imports Run_Invariants Memory_Agreement
begin

text \<open>
  One round of the multi-PE scheduler, parallel and serial. The step of a PE is a program on its
  worker's callbacks; a parallel round runs these programs on views, a serial round on the bridge.
  The main result, \<open>round_commits\<close>, relates the executors, contexts and recorded steps after a round
  that commits with those of the serial round, and shows that a conflict leaves the bridge alone.
\<close>

section \<open>Serving the callbacks keeps answers and refusals\<close>

lemma translate_cases:
  "translate msg m s = (case m s of (Inr x, s') \<Rightarrow> (Inr x, s') | (Inl e, s') \<Rightarrow> (Inl (if is_value_error e then EmbeddedWorkerError msg else e), s'))"
  by (auto simp: translate_def split: prod.splits sum.splits)

lemma run_served:
  "(\<forall>r s'. run_prog ops p s = (Inr r, s') \<longrightarrow> run_prog (served_ops True ops) p s = (Inr r, s'))
   \<and> (\<forall>e s'. run_prog ops p s = (Inl e, s') \<longrightarrow>
        (\<exists>e'. run_prog (served_ops True ops) p s = (Inl e', s') \<and> (plain_error e \<longrightarrow> plain_error e')))"
proof (induction p arbitrary: s)
  case (MRead a k)
  then show ?case
    by (auto simp: abind_def served_ops_def translate_cases split: prod.splits sum.splits)
next
  case (MChunk a n k)
  then show ?case
    by (auto simp: abind_def served_ops_def split: prod.splits sum.splits)
next
  case (MWrite a w k)
  then show ?case
    by (auto simp: abind_def served_ops_def translate_cases split: prod.splits sum.splits)
qed simp

lemma run_served_Inr: "run_prog (served_ops True ops) p s = (Inr r, s') \<longleftrightarrow> run_prog ops p s = (Inr r, s')"
proof -
  obtain q u where q: "run_prog ops p s = (q, u)" by fastforce
  then show ?thesis using run_served [of ops p s] by (cases q) auto
qed

section \<open>One step of one PE\<close>

text \<open>
  A worker without a memory cache: it asks the host for every byte, and clearing its cache does
  nothing.
\<close>

definition cacheless :: "'w worker_ops \<Rightarrow> bool" where
  "cacheless W \<longleftrightarrow> wo_clear_memory_cache W = cret ()"

definition step_value ::
  "pe_context \<Rightarrow> ((instruction_request \<times> instruction_execution) res \<times> 'w) res \<Rightarrow> (instruction_request \<times> instruction_execution) res" where
  "step_value c r = (case r of Inl e \<Rightarrow> failed_step c e | Inr rw \<Rightarrow> (case fst rw of Inl e \<Rightarrow> failed_step c e | Inr y \<Rightarrow> Inr y))"

definition step_worker :: "'w \<Rightarrow> ((instruction_request \<times> instruction_execution) res \<times> 'w) res \<Rightarrow> 'w" where
  "step_worker w0 r = (case r of Inl e \<Rightarrow> w0 | Inr rw \<Rightarrow> snd rw)"

lemma cbind_cret: "cbind (cret x) f w = f x w"
  by (simp add: cbind_def cret_def)

lemma step_client_cacheless:
  assumes "cacheless W"
  shows "step_client W cfg g c sl = on_worker (step_body W cfg c) (sl\<lparr>sl_generation := Some g\<rparr>)"
proof (cases "sl_generation sl = Some g")
  case True
  then have eq: "sl\<lparr>sl_generation := Some g\<rparr> = sl" by (cases sl) simp
  show ?thesis unfolding eq by (simp add: True step_client_def cbind_def synchronize_worker_memory_def cret_def)
next
  case False
  have "sl\<lparr>sl_worker := sl_worker sl\<rparr> = sl" by simp
  with False assms show ?thesis
    by (simp add: step_client_def cbind_def synchronize_worker_memory_def cacheless_def on_worker_def cret_def)
qed

lemma guarded_step:
  assumes "cacheless W" and "run = run_prog (served_ops True ops) (step_body W cfg c (sl_worker sl)) s"
  shows "\<exists>b sl'. guarded (failed_step c) ops (step_client W cfg g c) sl s = (step_value c (fst run), b, sl', snd run)
    \<and> sl_worker sl' = step_worker (sl_worker sl) (fst run)"
proof -
  obtain r s' where r: "run_prog (served_ops True ops) (step_body W cfg c (sl_worker sl)) s = (r, s')" by fastforce
  have run: "run_prog (served_ops True ops) (step_client W cfg g c sl) s =
      (case r of Inl e \<Rightarrow> (Inl e, s') | Inr rw \<Rightarrow> (Inr (fst rw, sl\<lparr>sl_generation := Some g, sl_worker := snd rw\<rparr>), s'))"
    using r by (simp add: step_client_cacheless [OF assms(1)] on_worker_def run_prog_mbind abind_def split: sum.split)
  show ?thesis
    unfolding guarded_def run assms(2) r
    by (auto simp: step_value_def step_worker_def split: sum.splits)
qed

definition worker_of :: "('w, 'b) executor \<Rightarrow> int \<Rightarrow> 'w option" where
  "worker_of x pe = (case map_of (ex_workers x) pe of None \<Rightarrow> None | Some k \<Rightarrow> map_of (ex_store x) k)"

definition handles_ok :: "('w, 'b) executor \<Rightarrow> bool" where
  "handles_ok x \<longleftrightarrow> inj_on (map_of (ex_workers x)) (dom (map_of (ex_workers x)))"

lemma worker_of_put:
  assumes "handles_ok x" and "worker_of x pe \<noteq> None"
  shows "worker_of (put_slot pe sl x) = (worker_of x)(pe := Some (sl_worker sl))"
    and "ex_workers (put_slot pe sl x) = ex_workers x" and "ex_bridge (put_slot pe sl x) = ex_bridge x"
    and "ex_parallel (put_slot pe sl x) = ex_parallel x" and "ex_artifact (put_slot pe sl x) = ex_artifact x"
proof -
  from assms(2) obtain k where k: "map_of (ex_workers x) pe = Some k" by (auto simp: worker_of_def split: option.splits)
  have "worker_of (put_slot pe sl x) pe' = ((worker_of x)(pe := Some (sl_worker sl))) pe'" for pe'
  proof (cases "pe' = pe")
    case True
    with k show ?thesis by (simp add: worker_of_def put_slot_def update_conv')
  next
    case False
    then have "map_of (ex_workers x) pe' \<noteq> Some k"
      using assms(1) k unfolding handles_ok_def inj_on_def by (metis domI)
    with False k show ?thesis
      by (simp add: worker_of_def put_slot_def update_conv' split: option.split)
  qed
  then show "worker_of (put_slot pe sl x) = (worker_of x)(pe := Some (sl_worker sl))" by blast
qed (simp_all add: put_slot_def)

lemma get_slot_worker:
  "worker_of x pe = Some w \<Longrightarrow> \<exists>sl. get_slot pe x = Inr sl \<and> sl_worker sl = w"
  by (auto simp: worker_of_def get_slot_def split: option.splits)

text \<open>What a step leaves of the executor besides its memory.\<close>

definition stepped :: "pe_context \<Rightarrow> 'w \<Rightarrow> ('w, 'b) executor \<Rightarrow> ('w, 'b) executor \<Rightarrow> bool" where
  "stepped c w x x' \<longleftrightarrow> ex_workers x' = ex_workers x \<and> ex_artifact x' = ex_artifact x
     \<and> worker_of x' = (worker_of x)(ctx_pe_id c := Some w)"

lemma worker_of_memory [simp]:
  "worker_of (x\<lparr>ex_bridge := h\<rparr>) = worker_of x" "worker_of (x\<lparr>ex_parallel := p\<rparr>) = worker_of x"
  "handles_ok (x\<lparr>ex_bridge := h\<rparr>) = handles_ok x" "handles_ok (x\<lparr>ex_parallel := p\<rparr>) = handles_ok x"
  by (auto simp: fun_eq_iff worker_of_def handles_ok_def split: option.splits)

lemma step_next_serial:
  assumes cl: "cacheless W" and par: "ex_parallel x = None" and h: "handles_ok x"
    and w: "worker_of x (ctx_pe_id c) = Some w0"
    and run: "run_prog (served_ops True bridge_ops) (step_body W cfg c w0) (ex_bridge x) = (r, h')"
  shows "\<exists>x'. step_next W cfg c x = (step_value c r, x') \<and> ex_bridge x' = h' \<and> ex_parallel x' = None
    \<and> stepped c (step_worker w0 r) x x'"
proof -
  obtain sl where sl: "get_slot (ctx_pe_id c) x = Inr sl" "sl_worker sl = w0" using get_slot_worker [OF w] by blast
  obtain b sl' where g: "guarded (failed_step c) bridge_ops (step_client W cfg (hb_generation (ex_bridge x)) c) sl (ex_bridge x)
      = (step_value c r, b, sl', h')" "sl_worker sl' = step_worker w0 r"
    using guarded_step [OF cl, of "(r, h')" bridge_ops cfg c sl "ex_bridge x" "hb_generation (ex_bridge x)"] run sl(2) by auto
  show ?thesis
    using sl g par w h worker_of_put [of "x\<lparr>ex_bridge := h'\<rparr>" "ctx_pe_id c"]
    by (simp add: step_next_def run_on_memory_def Let_def stepped_def)
qed

lemma view_ops_views [simp]: "view_ops (c\<lparr>pc_views := vs\<rparr>) = view_ops c"
proof -
  have a: "check_access (c\<lparr>pc_views := vs\<rparr>) = check_access c" by (simp add: fun_eq_iff check_access_def)
  have p: "pc_regions (c\<lparr>pc_views := vs\<rparr>) = pc_regions c" by simp
  have r: "readable_chunk_size (c\<lparr>pc_views := vs\<rparr>) = readable_chunk_size c"
    by (intro ext) (simp only: readable_chunk_size_def a p)
  have b: "view_read_byte (c\<lparr>pc_views := vs\<rparr>) = view_read_byte c"
    by (simp add: fun_eq_iff view_read_byte_def view_check_open_def read_snapshot_byte_def a)
  have o: "view_check_open (c\<lparr>pc_views := vs\<rparr>) = view_check_open c" by (simp add: fun_eq_iff view_check_open_def)
  have "view_read_chunk (c\<lparr>pc_views := vs\<rparr>) = view_read_chunk c"
    by (intro ext) (simp only: view_read_chunk_def b r)
  moreover have "view_write_byte (c\<lparr>pc_views := vs\<rparr>) = view_write_byte c"
    by (intro ext) (simp only: view_write_byte_def a o)
  ultimately show ?thesis by (simp add: view_ops_def b)
qed

lemma step_next_parallel:
  assumes cl: "cacheless W" and par: "ex_parallel x = Some co" and sc: "\<not> shared_scope cfg" and h: "handles_ok x"
    and w: "worker_of x (ctx_pe_id c) = Some w0" and v: "map_of (pc_views co) (ctx_pe_id c) = Some v"
    and run: "run_prog (served_ops True (view_ops co)) (step_body W cfg c w0) v = (r, v')"
  shows "\<exists>x'. step_next W cfg c x = (step_value c r, x') \<and> ex_bridge x' = ex_bridge x
    \<and> ex_parallel x' = Some (co\<lparr>pc_views := AList.update (ctx_pe_id c) v' (pc_views co)\<rparr>)
    \<and> stepped c (step_worker w0 r) x x'"
proof -
  obtain sl where sl: "get_slot (ctx_pe_id c) x = Inr sl" "sl_worker sl = w0" using get_slot_worker [OF w] by blast
  obtain b sl' where g: "guarded (failed_step c) (view_ops co) (step_client W cfg (hb_generation (ex_bridge x)) c) sl v
      = (step_value c r, b, sl', v')" "sl_worker sl' = step_worker w0 r"
    using guarded_step [OF cl, of "(r, v')" "view_ops co" cfg c sl v "hb_generation (ex_bridge x)"] run sl(2) by auto
  let ?x = "x\<lparr>ex_parallel := Some (co\<lparr>pc_views := AList.update (ctx_pe_id c) v' (pc_views co)\<rparr>)\<rparr>"
  show ?thesis
    using sl g par sc v w h worker_of_put [of ?x "ctx_pe_id c"]
    by (simp add: step_next_def run_on_memory_def Let_def stepped_def)
qed

section \<open>The steps of a parallel round\<close>

text \<open>A context whose failure can be reported.\<close>

definition ctx_ok :: "pe_context \<Rightarrow> bool" where
  "ctx_ok c \<longleftrightarrow> 0 \<le> ctx_pc c \<and> 0 \<le> ctx_pe_id c \<and> 0 \<le> ctx_thread_id c"

definition report_request :: "pe_context \<Rightarrow> instruction_request" where
  "report_request c = \<lparr>ir_pc = ctx_pc c, ir_encoding = [0, 0], ir_mnemonic = None, ir_pe_id = ctx_pe_id c,
     ir_thread_id = ctx_thread_id c, ir_block_id = None, ir_metadata = []\<rparr>"

lemma failed_step_ok: "ctx_ok c \<Longrightarrow> failed_step c e = Inr (report_request c, host_failure e)"
  by (simp add: failed_step_def InstructionRequest_def ctx_ok_def report_request_def)

definition outcome_of ::
  "pe_context \<Rightarrow> ((instruction_request \<times> instruction_execution) res \<times> 'w) res \<Rightarrow> outcome" where
  "outcome_of c r =
     (case step_value c r of
        Inl e \<Rightarrow> FetchFailed []
      | Inr re \<Rightarrow> Stepped (fst re) (snd re) (int (length (ir_encoding (fst re))) * 8))"

lemma step_value_Inr: "ctx_ok c \<Longrightarrow> \<exists>re. step_value c r = Inr re"
  using failed_step_ok [of c] by (auto simp: step_value_def split: sum.splits)

lemma outcome_of_Stepped: "ctx_ok c \<Longrightarrow> \<exists>rq e w. outcome_of c r = Stepped rq e w"
  using step_value_Inr [of c r] by (auto simp: outcome_of_def)

lemma execute_context_None:
  "step_next W cfg c x = (step_value c r, x') \<Longrightarrow> ctx_ok c \<Longrightarrow>
   execute_context W cfg img None c x = (Inr (outcome_of c r), x')"
  using step_value_Inr [of c r] by (auto simp: execute_context_def outcome_of_def)

definition step_prog_of :: "'w worker_ops \<Rightarrow> executor_config \<Rightarrow> (int \<Rightarrow> 'w option) \<Rightarrow> pe_context \<Rightarrow>
    ((instruction_request \<times> instruction_execution) res \<times> 'w) mprog" where
  "step_prog_of W cfg ws c = step_body W cfg c (the (ws (ctx_pe_id c)))"

definition view_run :: "'w worker_ops \<Rightarrow> executor_config \<Rightarrow> coordinator \<Rightarrow> (int \<Rightarrow> 'w option) \<Rightarrow> pe_context \<Rightarrow>
    ((instruction_request \<times> instruction_execution) res \<times> 'w) res \<times> parallel_view" where
  "view_run W cfg co ws c =
     run_prog (served_ops True (view_ops co)) (step_prog_of W cfg ws c) (ParallelMemoryView (ctx_pe_id c))"

text \<open>The workers after the steps of the listed contexts with the given results.\<close>

definition new_workers ::
  "(pe_context \<times> ((instruction_request \<times> instruction_execution) res \<times> 'w) res) list \<Rightarrow> (int \<Rightarrow> 'w option) \<Rightarrow> int \<Rightarrow> 'w option" where
  "new_workers crs ws = fold (\<lambda>cr ws. ws(ctx_pe_id (fst cr) := Some (step_worker (the (ws (ctx_pe_id (fst cr)))) (snd cr)))) crs ws"

lemma new_workers_simps [simp]:
  "new_workers [] ws = ws"
  "new_workers (cr # crs) ws = new_workers crs (ws(ctx_pe_id (fst cr) := Some (step_worker (the (ws (ctx_pe_id (fst cr)))) (snd cr))))"
  by (simp_all add: new_workers_def)

lemma view_run_cong: "ws (ctx_pe_id c) = ws' (ctx_pe_id c) \<Longrightarrow> view_run W cfg co ws c = view_run W cfg co ws' c"
  by (simp add: view_run_def step_prog_of_def)

lemma view_run_views [simp]: "view_run W cfg (co\<lparr>pc_views := vs\<rparr>) ws c = view_run W cfg co ws c"
  by (simp add: view_run_def)

lemma stepped_handles: "stepped c w x x' \<Longrightarrow> handles_ok x \<Longrightarrow> handles_ok x'"
  by (simp add: stepped_def handles_ok_def)

lemma parallel_amap:
  assumes cl: "cacheless W" and sc: "\<not> shared_scope cfg"
  shows "ex_parallel x = Some (co\<lparr>pc_views := vs\<rparr>) \<Longrightarrow> handles_ok x \<Longrightarrow> distinct (map ctx_pe_id sch) \<Longrightarrow>
    \<forall>c \<in> set sch. ctx_ok c \<and> worker_of x (ctx_pe_id c) \<noteq> None
       \<and> map_of vs (ctx_pe_id c) = Some (ParallelMemoryView (ctx_pe_id c)) \<Longrightarrow>
    \<exists>x'. amap (execute_context W cfg img None) sch x =
        (Inr (map (\<lambda>c. outcome_of c (fst (view_run W cfg co (worker_of x) c))) sch), x')
      \<and> ex_bridge x' = ex_bridge x \<and> ex_workers x' = ex_workers x \<and> ex_artifact x' = ex_artifact x
      \<and> ex_parallel x' = Some (co\<lparr>pc_views := fold (\<lambda>c. AList.update (ctx_pe_id c) (snd (view_run W cfg co (worker_of x) c))) sch vs\<rparr>)
      \<and> worker_of x' = new_workers (map (\<lambda>c. (c, fst (view_run W cfg co (worker_of x) c))) sch) (worker_of x)"
proof (induction sch arbitrary: x vs)
  case (Cons c sch)
  let ?ws = "worker_of x"
  obtain w0 where w0: "?ws (ctx_pe_id c) = Some w0" using Cons.prems(4) by auto
  obtain r v' where rv: "view_run W cfg co ?ws c = (r, v')" by fastforce
  have run: "run_prog (served_ops True (view_ops (co\<lparr>pc_views := vs\<rparr>))) (step_body W cfg c w0) (ParallelMemoryView (ctx_pe_id c)) = (r, v')"
    using rv w0 by (simp add: view_run_def step_prog_of_def)
  have v: "map_of (pc_views (co\<lparr>pc_views := vs\<rparr>)) (ctx_pe_id c) = Some (ParallelMemoryView (ctx_pe_id c))"
    using Cons.prems(4) by simp
  from step_next_parallel [OF cl Cons.prems(1) sc Cons.prems(2) w0 v run] obtain x1 where
    x1: "step_next W cfg c x = (step_value c r, x1)" "ex_bridge x1 = ex_bridge x"
    "ex_parallel x1 = Some (co\<lparr>pc_views := AList.update (ctx_pe_id c) v' vs\<rparr>)" "stepped c (step_worker w0 r) x x1"
    by auto
  have ok: "ctx_ok c" using Cons.prems(4) by simp
  note ec = execute_context_None [OF x1(1) ok, of img]
  have ws1: "worker_of x1 = ?ws(ctx_pe_id c := Some (step_worker w0 r))" using x1(4) by (simp add: stepped_def)
  have ne: "ctx_pe_id d \<noteq> ctx_pe_id c" if "d \<in> set sch" for d
    using Cons.prems(3) that by (metis distinct.simps(2) imageI list.set_map list.simps(9))
  have same: "view_run W cfg co (worker_of x1) d = view_run W cfg co ?ws d" if "d \<in> set sch" for d
    using ne [OF that] by (intro view_run_cong) (simp add: ws1)
  have "\<forall>d \<in> set sch. ctx_ok d \<and> worker_of x1 (ctx_pe_id d) \<noteq> None
      \<and> map_of (AList.update (ctx_pe_id c) v' vs) (ctx_pe_id d) = Some (ParallelMemoryView (ctx_pe_id d))"
    using Cons.prems(4) ne by (auto simp: ws1 update_conv')
  from Cons.IH [OF x1(3) stepped_handles [OF x1(4) Cons.prems(2)] _ this] Cons.prems(3) obtain x' where
    x': "amap (execute_context W cfg img None) sch x1 =
        (Inr (map (\<lambda>c. outcome_of c (fst (view_run W cfg co (worker_of x1) c))) sch), x')"
      "ex_bridge x' = ex_bridge x1" "ex_workers x' = ex_workers x1" "ex_artifact x' = ex_artifact x1"
      "ex_parallel x' = Some (co\<lparr>pc_views := fold (\<lambda>c. AList.update (ctx_pe_id c) (snd (view_run W cfg co (worker_of x1) c))) sch
          (AList.update (ctx_pe_id c) v' vs)\<rparr>)"
      "worker_of x' = new_workers (map (\<lambda>c. (c, fst (view_run W cfg co (worker_of x1) c))) sch) (worker_of x1)" by auto
  have m1: "map (\<lambda>c. outcome_of c (fst (view_run W cfg co (worker_of x1) c))) sch = map (\<lambda>c. outcome_of c (fst (view_run W cfg co ?ws c))) sch"
    and m2: "map (\<lambda>c. (c, fst (view_run W cfg co (worker_of x1) c))) sch = map (\<lambda>c. (c, fst (view_run W cfg co ?ws c))) sch"
    using same by simp_all
  have m3: "fold (\<lambda>c. AList.update (ctx_pe_id c) (snd (view_run W cfg co (worker_of x1) c))) sch d
      = fold (\<lambda>c. AList.update (ctx_pe_id c) (snd (view_run W cfg co ?ws c))) sch d" for d
    by (rule fold_cong) (use same in auto)
  show ?case
    using x' ec x1 rv w0 by (simp add: m1 m2 m3 ws1 [symmetric] stepped_def)
qed simp

lemma update_at:
  "k \<notin> fst ` set xs \<Longrightarrow> AList.update k v (xs @ (k, u) # ys) = xs @ (k, v) # ys"
  by (induction xs) auto

lemma fold_update_all:
  "distinct (map k (es @ ds)) \<Longrightarrow>
   fold (\<lambda>d. AList.update (k d) (f d)) ds (map (\<lambda>d. (k d, f d)) es @ map (\<lambda>d. (k d, g d)) ds) = map (\<lambda>d. (k d, f d)) (es @ ds)"
proof (induction ds arbitrary: es)
  case (Cons d ds)
  have "k d \<notin> fst ` set (map (\<lambda>d. (k d, f d)) es)" using Cons.prems by auto
  from update_at [OF this] have "AList.update (k d) (f d) (map (\<lambda>d. (k d, f d)) es @ map (\<lambda>d. (k d, g d)) (d # ds))
      = map (\<lambda>d. (k d, f d)) (es @ [d]) @ map (\<lambda>d. (k d, g d)) ds" by simp
  with Cons.IH [of "es @ [d]"] Cons.prems show ?case by simp
qed simp

lemma update_append_new: "map_of xs k = None \<Longrightarrow> AList.update k v xs = xs @ [(k, v)]"
  by (induction xs) (auto split: if_splits)

text \<open>Opening the views of a round.\<close>

definition fresh_views :: "int list \<Rightarrow> (int, parallel_view) dict" where
  "fresh_views pes = map (\<lambda>pe. (pe, ParallelMemoryView pe)) pes"

lemma open_views_fresh:
  "\<not> pc_closed c \<Longrightarrow> pc_views c = fresh_views done_pes \<Longrightarrow> distinct (done_pes @ pes) \<Longrightarrow> \<forall>pe \<in> set pes. 0 \<le> pe \<Longrightarrow>
   open_views pes c = Inr (c\<lparr>pc_views := fresh_views (done_pes @ pes)\<rparr>)"
proof (induction pes arbitrary: c done_pes)
  case Nil
  then have "c\<lparr>pc_views := fresh_views done_pes\<rparr> = c" by (metis coordinator.surjective coordinator.update_convs(6))
  with Nil show ?case by (simp add: open_views_def)
next
  case (Cons pe pes)
  have none: "map_of (pc_views c) pe = None" using Cons.prems by (auto simp: fresh_views_def map_of_eq_None_iff comp_def)
  then have up: "AList.update pe (ParallelMemoryView pe) (pc_views c) = fresh_views (done_pes @ [pe])"
    using Cons.prems(2) by (simp add: fresh_views_def update_append_new)
  have "coordinator_view pe c = Inr (c\<lparr>pc_views := fresh_views (done_pes @ [pe])\<rparr>)"
    using Cons.prems none up by (simp add: coordinator_view_def pc_check_open_def)
  with Cons.IH [of "c\<lparr>pc_views := fresh_views (done_pes @ [pe])\<rparr>" "done_pes @ [pe]"] Cons.prems show ?case
    by (simp add: open_views_def)
qed

section \<open>A round that commits\<close>

definition sim_ex :: "guest_region set \<Rightarrow> bool \<Rightarrow> (int \<Rightarrow> int) \<Rightarrow> ('w, 'b) executor \<Rightarrow> ('w, 'b) executor \<Rightarrow> bool" where
  "sim_ex R zero g x y \<longleftrightarrow> ex_workers x = ex_workers y \<and> ex_artifact x = ex_artifact y \<and> worker_of x = worker_of y
     \<and> handles_ok x \<and> ex_parallel x = None \<and> ex_parallel y = None
     \<and> bridge_abs 4096 R zero g (ex_bridge x) \<and> bridge_abs 4096 R zero g (ex_bridge y)"

definition round_ok :: "pe_context list \<Rightarrow> ('w, 'b) executor \<Rightarrow> bool" where
  "round_ok sch x \<longleftrightarrow> sorted_wrt (<) (map ctx_pe_id sch) \<and> (\<forall>c \<in> set sch. ctx_ok c \<and> worker_of x (ctx_pe_id c) \<noteq> None)"

lemma outcome_ok_run: "outcome_ok (outcome_of c r) \<Longrightarrow> ctx_ok c \<Longrightarrow> \<exists>y w. r = Inr (Inr y, w)"
  by (auto simp: outcome_of_def step_value_def failed_step_ok host_failure_def execution_ok_def split: sum.splits)

lemma apply_record_executor [simp]: "rs_executor (snd (apply_record P c rq e w s)) = rs_executor s"
  by (simp add: apply_record_def split: prod.split)

lemma apply_record_core_cong:
  "core s = core t \<Longrightarrow> fst (apply_record P c rq e w s) = fst (apply_record P c rq e w t)
     \<and> core (snd (apply_record P c rq e w s)) = core (snd (apply_record P c rq e w t))"
  by (auto simp: apply_record_def core_def split: prod.splits)

lemma record_all_executor [simp]: "rs_executor (record_all P ps s) = rs_executor s"
  by (induction P ps s rule: record_all.induct) auto

lemma record_all_core_cong: "core s = core t \<Longrightarrow> core (record_all P ps s) = core (record_all P ps t)"
proof (induction ps arbitrary: s t)
  case (Cons p ps)
  obtain c out where [simp]: "p = (c, out)" by (cases p)
  show ?case
  proof (cases out)
    case (Stepped rq e w)
    with Cons.IH apply_record_core_cong [OF Cons.prems, of P c rq e w] show ?thesis by simp
  next
    case (FetchFailed msg)
    with Cons show ?thesis by simp
  qed
qed simp

lemma serial_steps_ok:
  assumes cl: "cacheless W"
  shows "ex_parallel (rs_executor s) = None \<Longrightarrow> handles_ok (rs_executor s) \<Longrightarrow> distinct (map ctx_pe_id sch) \<Longrightarrow>
    \<forall>c \<in> set sch. ctx_ok c \<and> worker_of (rs_executor s) (ctx_pe_id c) = ws (ctx_pe_id c) \<and> ws (ctx_pe_id c) \<noteq> None \<Longrightarrow>
    serial_round (map (\<lambda>c. (ctx_pe_id c, step_prog_of W cfg ws c)) sch) (ex_bridge (rs_executor s)) = (Inr rs, h') \<Longrightarrow>
    list_all outcome_ok (map2 (\<lambda>c r. outcome_of c (Inr r)) sch rs) \<Longrightarrow>
    \<exists>s'. serial_steps W cfg P img None sch s = (Inr GoOn, s')
      \<and> core s' = core (record_all P (zip sch (map2 (\<lambda>c r. outcome_of c (Inr r)) sch rs)) s)
      \<and> ex_bridge (rs_executor s') = h' \<and> ex_parallel (rs_executor s') = None
      \<and> ex_workers (rs_executor s') = ex_workers (rs_executor s) \<and> ex_artifact (rs_executor s') = ex_artifact (rs_executor s)
      \<and> worker_of (rs_executor s') = new_workers (zip sch (map Inr rs)) (worker_of (rs_executor s))"
proof (induction sch arbitrary: s rs)
  case Nil
  then show ?case by (auto simp: serial_round_def)
next
  case (Cons c sch)
  let ?x = "rs_executor s"
  let ?p = "\<lambda>c. (ctx_pe_id c, step_prog_of W cfg ws c)"
  obtain w0 where w0: "worker_of ?x (ctx_pe_id c) = Some w0" "ws (ctx_pe_id c) = Some w0" using Cons.prems(4) by auto
  from Cons.prems(5) obtain r h1 rs' where r: "run_prog bridge_ops (step_prog_of W cfg ws c) (ex_bridge ?x) = (Inr r, h1)"
    and rest: "serial_round (map ?p sch) h1 = (Inr rs', h')" and rs: "rs = r # rs'"
    by (auto simp: serial_round_def split: prod.splits sum.splits)
  have run: "run_prog (served_ops True bridge_ops) (step_body W cfg c w0) (ex_bridge ?x) = (Inr r, h1)"
    using r w0 by (simp add: run_served_Inr step_prog_of_def)
  from step_next_serial [OF cl Cons.prems(1,2) w0(1) run] obtain x1 where
    x1: "step_next W cfg c ?x = (step_value c (Inr r), x1)" "ex_bridge x1 = h1" "ex_parallel x1 = None"
    "stepped c (step_worker w0 (Inr r)) ?x x1" by blast
  have ok: "ctx_ok c" using Cons.prems(4) by simp
  obtain rq e w where out: "outcome_of c (Inr r) = Stepped rq e w" using outcome_of_Stepped [OF ok] by blast
  have ec: "execute_context W cfg img None c ?x = (Inr (Stepped rq e w), x1)"
    using execute_context_None [OF x1(1) ok] out by simp
  have eok: "execution_ok e" using Cons.prems(6) rs out by simp
  have "fst (apply_record P c rq e w (s\<lparr>rs_executor := x1\<rparr>)) = None"
    using record_outcome_failure [of P _ c rq e w] eok by (auto simp: apply_record_def split: prod.splits)
  then obtain s1 where ar: "apply_record P c rq e w (s\<lparr>rs_executor := x1\<rparr>) = (None, s1)" by (metis prod.collapse)
  have ne: "ctx_pe_id d \<noteq> ctx_pe_id c" if "d \<in> set sch" for d
    using Cons.prems(3) that by (metis distinct.simps(2) imageI list.set_map list.simps(9))
  have ws1: "worker_of x1 = (worker_of ?x)(ctx_pe_id c := Some (step_worker w0 (Inr r)))" using x1(4) by (simp add: stepped_def)
  have e1: "rs_executor s1 = x1" using apply_record_executor [of P c rq e w "s\<lparr>rs_executor := x1\<rparr>"] ar by simp
  have prem: "ex_parallel (rs_executor s1) = None" "handles_ok (rs_executor s1)" "distinct (map ctx_pe_id sch)"
    "\<forall>d \<in> set sch. ctx_ok d \<and> worker_of (rs_executor s1) (ctx_pe_id d) = ws (ctx_pe_id d) \<and> ws (ctx_pe_id d) \<noteq> None"
    "serial_round (map ?p sch) (ex_bridge (rs_executor s1)) = (Inr rs', h')"
    "list_all outcome_ok (map2 (\<lambda>c r. outcome_of c (Inr r)) sch rs')"
    unfolding e1 using x1(2,3) stepped_handles [OF x1(4) Cons.prems(2)] Cons.prems(3,4,6) rest ne
    by (simp_all add: ws1 rs)
  obtain s' where s': "serial_steps W cfg P img None sch s1 = (Inr GoOn, s')"
      "core s' = core (record_all P (zip sch (map2 (\<lambda>c r. outcome_of c (Inr r)) sch rs')) s1)"
      "ex_bridge (rs_executor s') = h'" "ex_parallel (rs_executor s') = None"
      "ex_workers (rs_executor s') = ex_workers x1" "ex_artifact (rs_executor s') = ex_artifact x1"
      "worker_of (rs_executor s') = new_workers (zip sch (map Inr rs')) (worker_of x1)"
    using Cons.IH [OF prem] unfolding e1 by blast
  have "core s1 = core (snd (apply_record P c rq e w s))" using apply_record_core_cong [of "s\<lparr>rs_executor := x1\<rparr>" s P c rq e w] ar by simp
  then have "core s' = core (record_all P (zip (c # sch) (map2 (\<lambda>c r. outcome_of c (Inr r)) (c # sch) rs)) s)"
    using s'(2) record_all_core_cong by (simp add: rs out)
  moreover have "serial_steps W cfg P img None (c # sch) s = (Inr GoOn, s')" using ec ar s'(1) by simp
  moreover have "worker_of (rs_executor s') = new_workers (zip (c # sch) (map Inr rs)) (worker_of ?x)"
    using s'(7) w0 by (simp add: rs ws1)
  ultimately show ?case using s' x1(4) by (auto simp: stepped_def)
qed

text \<open>The phases of a parallel round, from an executor with no round open.\<close>

lemma round_phases:
  fixes x :: "('w, 'b) executor"
  assumes cl: "cacheless W" and sc: "\<not> shared_scope cfg" and par: "xc_parallel_pe_steps cfg"
    and np: "ex_parallel x = None" and ho: "handles_ok x" and rk: "round_ok sch x"
    and co: "co = ParallelMemoryCoordinator (ex_bridge x)"
  shows "\<exists>x1 x2. begin_parallel_round cfg sch x = (Inr (), x1)
    \<and> amap (execute_context W cfg img None) sch x1 =
        (Inr (map (\<lambda>c. outcome_of c (fst (view_run W cfg co (worker_of x) c))) sch), x2)
    \<and> ex_bridge x2 = ex_bridge x \<and> ex_workers x2 = ex_workers x \<and> ex_artifact x2 = ex_artifact x
    \<and> ex_parallel x2 = Some (co\<lparr>pc_views := map (\<lambda>c. (ctx_pe_id c, snd (view_run W cfg co (worker_of x) c))) sch\<rparr>)
    \<and> worker_of x2 = new_workers (map (\<lambda>c. (c, fst (view_run W cfg co (worker_of x) c))) sch) (worker_of x)
    \<and> open_views (map ctx_pe_id sch) co = Inr (co\<lparr>pc_views := fresh_views (map ctx_pe_id sch)\<rparr>)"
proof -
  let ?pes = "map ctx_pe_id sch"
  have dist: "distinct ?pes" and pos: "\<forall>pe \<in> set ?pes. 0 \<le> pe"
    using rk by (auto simp: round_ok_def strict_sorted_iff ctx_ok_def)
  have ini: "\<not> pc_closed co" "pc_views co = fresh_views []"
    by (simp_all add: co ParallelMemoryCoordinator_def Let_def fresh_views_def)
  have op: "open_views ?pes co = Inr (co\<lparr>pc_views := fresh_views ?pes\<rparr>)"
    using open_views_fresh [OF ini, of ?pes] dist pos by simp
  let ?x1 = "x\<lparr>ex_parallel := Some (co\<lparr>pc_views := fresh_views ?pes\<rparr>)\<rparr>"
  have b: "begin_parallel_round cfg sch x = (Inr (), ?x1)"
    using op by (simp add: begin_parallel_round_def par np co Let_def)
  have pre: "\<forall>c \<in> set sch. ctx_ok c \<and> worker_of ?x1 (ctx_pe_id c) \<noteq> None
       \<and> map_of (fresh_views ?pes) (ctx_pe_id c) = Some (ParallelMemoryView (ctx_pe_id c))"
  proof
    fix c assume c: "c \<in> set sch"
    have "map_of (fresh_views ?pes) (ctx_pe_id c) = Some (ParallelMemoryView (ctx_pe_id c))"
      unfolding fresh_views_def by (rule map_of_is_SomeI) (use dist c in \<open>auto simp: comp_def\<close>)
    with c rk show "ctx_ok c \<and> worker_of ?x1 (ctx_pe_id c) \<noteq> None
       \<and> map_of (fresh_views ?pes) (ctx_pe_id c) = Some (ParallelMemoryView (ctx_pe_id c))" by (simp add: round_ok_def)
  qed
  have fu: "fold (\<lambda>c. AList.update (ctx_pe_id c) (snd (view_run W cfg co (worker_of x) c))) sch (fresh_views ?pes)
      = map (\<lambda>c. (ctx_pe_id c, snd (view_run W cfg co (worker_of x) c))) sch"
    using fold_update_all [of ctx_pe_id "[]" sch "\<lambda>c. snd (view_run W cfg co (worker_of x) c)" "\<lambda>c. ParallelMemoryView (ctx_pe_id c)"] dist
    by (simp add: fresh_views_def comp_def)
  have pe1: "ex_parallel ?x1 = Some (co\<lparr>pc_views := fresh_views ?pes\<rparr>)" by simp
  have ho1: "handles_ok ?x1" using ho by simp
  from parallel_amap [OF cl sc pe1 ho1 dist pre, of img] show ?thesis
    using b op fu by auto
qed

text \<open>A commit can only fail with a conflict, and then leaves the bridge alone.\<close>

lemma check_conflicts_error: "check_conflicts vs prior = Inl e \<Longrightarrow> \<exists>a b l. e = ParallelMemoryConflict a b l"
  by (induction vs prior rule: check_conflicts.induct) (auto simp: view_conflict_def Let_def split: if_splits)

lemma commit_error:
  assumes "coordinator_commit c h = (Inl e, c', h')" and "\<not> pc_closed c"
    and "bridge_abs page R zero g h" and "\<forall>v \<in> set (sorted_views c). view_wf R zero v"
  shows "(\<exists>a b l. e = ParallelMemoryConflict a b l) \<and> h' = h"
proof -
  obtain h2 where "commit_views (sorted_views c) h = (Inr (commit_log (sorted_views c)), h2)"
    using commit_views_ok [OF assms(3,4)] by blast
  with assms(1,2) show ?thesis
    by (auto simp: coordinator_commit_def pc_check_open_def split: if_splits sum.splits dest: check_conflicts_error)
qed

lemma coordinator_views_twice [simp]: "c\<lparr>pc_views := a, pc_views := b\<rparr> = c\<lparr>pc_views := b\<rparr>"
  by (cases c) simp

lemma settle_commit:
  assumes "list_all outcome_ok outs"
  shows "settle_round P sch outs s =
    (case commit_parallel_round (rs_executor s) of
       (Inr _, x) \<Rightarrow> (Inr GoOn, record_all P (zip sch outs)
          (with_metrics (\<lambda>m. m\<lparr>pmt_commits := pmt_commits m + 1\<rparr>) (s\<lparr>rs_executor := x\<rparr>)))
     | (Inl (ParallelMemoryConflict wr rd addresses), x) \<Rightarrow>
         (case rollback_parallel_round x of
            (Inl e, x') \<Rightarrow> (Inl e, s\<lparr>rs_executor := x'\<rparr>)
          | (Inr _, x') \<Rightarrow>
              (Inr FallBack, with_metrics (\<lambda>m. m\<lparr>pmt_fallback := Some (MemoryConflict wr rd addresses)\<rparr>) (s\<lparr>rs_executor := x'\<rparr>)))
     | (Inl e, x) \<Rightarrow> (Inl e, s\<lparr>rs_executor := x\<rparr>))"
  using assms by (simp add: settle_round_def first_failure_None [THEN iffD2])

lemma round_commits:
  fixes sp ss :: "('w, 'b) run_state"
  assumes cl: "cacheless W" and sim: "sim_ex R zero g (rs_executor sp) (rs_executor ss)" and core: "core s = core ss"
    and rk: "round_ok sch (rs_executor sp)"
    and co: "co = ParallelMemoryCoordinator (ex_bridge (rs_executor sp))"
    and ws: "ws = worker_of (rs_executor sp)"
    and x2: "ex_bridge x2 = ex_bridge (rs_executor sp)" "ex_workers x2 = ex_workers (rs_executor sp)"
      "ex_artifact x2 = ex_artifact (rs_executor sp)"
      "ex_parallel x2 = Some (co\<lparr>pc_views := map (\<lambda>c. (ctx_pe_id c, snd (view_run W cfg co ws c))) sch\<rparr>)"
      "worker_of x2 = new_workers (map (\<lambda>c. (c, fst (view_run W cfg co ws c))) sch) ws"
    and op: "open_views (map ctx_pe_id sch) co = Inr (co\<lparr>pc_views := fresh_views (map ctx_pe_id sch)\<rparr>)"
    and outs: "outs = map (\<lambda>c. outcome_of c (fst (view_run W cfg co ws c))) sch" and ok: "list_all outcome_ok outs"
    and st: "settle_round P sch outs (s\<lparr>rs_executor := x2\<rparr>) = (q, sp')"
  shows "q = Inr FallBack \<and> ex_bridge (rs_executor sp') = ex_bridge (rs_executor sp)
    \<or> q = Inr GoOn \<and> (\<exists>ss' g'. serial_steps W cfg P img None sch ss = (Inr GoOn, ss') \<and> core sp' = core ss'
        \<and> sim_ex R zero g' (rs_executor sp') (rs_executor ss'))"
proof -
  let ?hp = "ex_bridge (rs_executor sp)" and ?y = "rs_executor ss"
  let ?p = "\<lambda>c. (ctx_pe_id c, step_prog_of W cfg ws c)" and ?vr = "view_run W cfg co ws"
  let ?co1 = "co\<lparr>pc_views := fresh_views (map ctx_pe_id sch)\<rparr>"
  define rs where "rs = map (\<lambda>c. projr (fst (?vr c))) sch"
  have cok: "ctx_ok c" if "c \<in> set sch" for c using rk that by (simp add: round_ok_def)
  have vr: "fst (?vr c) = Inr (projr (fst (?vr c)))" if "c \<in> set sch" for c
  proof -
    have "outcome_ok (outcome_of c (fst (?vr c)))" using ok outs that by (simp add: list_all_iff)
    from outcome_ok_run [OF this cok [OF that]] show ?thesis by auto
  qed
  have pr: "pe_run ?co1 (?p c) = ?vr c" if c: "c \<in> set sch" for c
  proof -
    obtain v where v: "?vr c = (Inr (projr (fst (?vr c))), v)" using vr [OF c] by (metis prod.collapse)
    then have "run_prog (view_ops co) (step_prog_of W cfg ws c) (ParallelMemoryView (ctx_pe_id c)) = (Inr (projr (fst (?vr c))), v)"
      unfolding view_run_def run_served_Inr .
    with v show ?thesis by (simp add: pe_run_def)
  qed
  have rm: "rmap (\<lambda>q. fst (pe_run ?co1 q)) (map ?p sch) = Inr rs"
    unfolding rs_def by (auto simp: rmap_Inr_iff list_all2_conv_all_nth pr intro: vr)
  have views: "map (\<lambda>q. (fst q, snd (pe_run ?co1 q))) (map ?p sch) = map (\<lambda>c. (ctx_pe_id c, snd (?vr c))) sch"
    using pr by simp
  have srt: "sorted_wrt (<) (map fst (map ?p sch))" using rk by (simp add: round_ok_def comp_def)
  let ?co2 = "co\<lparr>pc_views := map (\<lambda>c. (ctx_pe_id c, snd (?vr c))) sch\<rparr>"
  obtain cr c' h' where cm: "coordinator_commit ?co2 ?hp = (cr, c', h')" by (rule prod_cases3)
  have cpr: "commit_parallel_round x2 = (case cr of Inl e \<Rightarrow> Inl e | Inr _ \<Rightarrow> Inr (), x2\<lparr>ex_bridge := h', ex_parallel := None\<rparr>)"
    by (simp add: commit_parallel_round_def x2(1,4) cm)
  have hp: "bridge_abs 4096 R zero g ?hp" and hs: "bridge_abs 4096 R zero g (ex_bridge ?y)"
    using sim by (simp_all add: sim_ex_def)
  show ?thesis
  proof (cases cr)
    case (Inl e)
    have okc: "coord_ok ?co1 R zero g" using coord_ok_init [OF hp] by (simp add: co)
    have sv: "sorted_views ?co2 = map (\<lambda>q. snd (pe_run ?co1 q)) (map ?p sch)"
      unfolding views [symmetric]
      by (rule sorted_views_map [OF srt, where c = ?co1 and F = "\<lambda>q. snd (pe_run ?co1 q)", unfolded coordinator_views_twice])
    have "(\<exists>a b l. e = ParallelMemoryConflict a b l) \<and> h' = ?hp"
    proof (rule commit_error)
      show "coordinator_commit ?co2 ?hp = (Inl e, c', h')" using cm Inl by simp
      show "\<not> pc_closed ?co2" by (simp add: co ParallelMemoryCoordinator_def Let_def)
      show "bridge_abs 4096 R zero g ?hp" by (rule hp)
      show "\<forall>v \<in> set (sorted_views ?co2). view_wf R zero v" unfolding sv by (rule round_views_wf [OF okc rm hp])
    qed
    then obtain a b l where "e = ParallelMemoryConflict a b l" "h' = ?hp" by blast
    with st Inl cpr show ?thesis
      by (auto simp: settle_commit [OF ok] rollback_parallel_round_def with_metrics_def)
  next
    case (Inr cs)
    have mf: "map fst (map ?p sch) = map ctx_pe_id sch" by simp
    have "parallel_round (map ?p sch) ?hp = (Inr rs, h')"
      unfolding parallel_round_def co [symmetric] mf op sum.case rm views coordinator_views_twice cm Inr prod.case by simp
    from round_matches_serial [OF hp hs srt this] obtain hs' g' where
      sr: "serial_round (map ?p sch) (ex_bridge ?y) = (Inr rs, hs')" and
      ab: "bridge_abs 4096 R zero g' h'" "bridge_abs 4096 R zero g' hs'" by blast
    have outs2: "outs = map2 (\<lambda>c r. outcome_of c (Inr r)) sch rs"
      unfolding outs rs_def by (rule nth_equalityI) (simp_all add: vr [symmetric])
    have nw: "map (\<lambda>c. (c, fst (?vr c))) sch = zip sch (map Inr rs)"
      unfolding rs_def by (rule nth_equalityI) (simp_all add: vr [symmetric])
    have dist: "distinct (map ctx_pe_id sch)" using rk by (simp add: round_ok_def strict_sorted_iff)
    have wy: "worker_of ?y = ws" using sim ws by (simp add: sim_ex_def)
    have pre: "\<forall>c \<in> set sch. ctx_ok c \<and> worker_of ?y (ctx_pe_id c) = ws (ctx_pe_id c) \<and> ws (ctx_pe_id c) \<noteq> None"
      using rk ws wy by (simp add: round_ok_def)
    have py: "ex_parallel ?y = None" "handles_ok ?y" using sim by (auto simp: sim_ex_def handles_ok_def)
    from serial_steps_ok [OF cl py dist pre sr, of P img] ok outs2 obtain ss' where
      ss': "serial_steps W cfg P img None sch ss = (Inr GoOn, ss')"
        "core ss' = core (record_all P (zip sch outs) ss)" "ex_bridge (rs_executor ss') = hs'"
        "ex_parallel (rs_executor ss') = None" "ex_workers (rs_executor ss') = ex_workers ?y"
        "ex_artifact (rs_executor ss') = ex_artifact ?y"
        "worker_of (rs_executor ss') = new_workers (zip sch (map Inr rs)) (worker_of ?y)" by auto
    let ?s3 = "with_metrics (\<lambda>m. m\<lparr>pmt_commits := pmt_commits m + 1\<rparr>) (s\<lparr>rs_executor := x2\<lparr>ex_bridge := h', ex_parallel := None\<rparr>\<rparr>)"
    have q: "q = Inr GoOn" "sp' = record_all P (zip sch outs) ?s3"
      using st Inr cpr by (simp_all add: settle_commit [OF ok])
    have cc: "core sp' = core ss'" unfolding q(2) ss'(2) by (rule record_all_core_cong) (simp add: core)
    have "rs_executor sp' = x2\<lparr>ex_bridge := h', ex_parallel := None\<rparr>" using q(2) by (simp add: with_metrics_def)
    moreover have "handles_ok (x2\<lparr>ex_bridge := h', ex_parallel := None\<rparr>)" using sim x2(2) by (auto simp: sim_ex_def handles_ok_def)
    ultimately have "sim_ex R zero g' (rs_executor sp') (rs_executor ss')"
      using sim ss' ab x2 nw wy ws by (simp add: sim_ex_def)
    with cc show ?thesis using q(1) ss'(1) by blast
  qed
qed

end
