(* ===== verification/Run_Equivalence.thy ===== *)
theory Run_Equivalence
  imports Round_Equivalence
begin

text \<open>
  Parallel PE steps are an optimisation: for workers that reach memory only through the host's
  callbacks, a run with parallel rounds, rollback and serial rerun reports the same contexts,
  steps, termination and verdict as a serial run. The two runs are related round by round with
  \<open>Round_Equivalence\<close>; only the error text of a failing memory access may differ, since a view and
  the bridge word their refusals differently.
\<close>

section \<open>Runs that end alike\<close>

text \<open>Two program runs that answer the same, or are both refused by their memories.\<close>

definition alike :: "'a res \<Rightarrow> 'a res \<Rightarrow> bool" where
  "alike r r' \<longleftrightarrow> (\<exists>v. r = Inr v \<and> r' = Inr v) \<or> (\<exists>e e'. r = Inl e \<and> r' = Inl e' \<and> plain_error e \<and> plain_error e')"

lemma served_alike:
  assumes "alike (fst (run_prog A p s)) (fst (run_prog B p t))"
  shows "alike (fst (run_prog (served_ops True A) p s)) (fst (run_prog (served_ops True B) p t))"
proof -
  obtain r s' r' t' where eq: "run_prog A p s = (r, s')" "run_prog B p t = (r', t')" by fastforce
  from assms consider v where "r = Inr v" "r' = Inr v"
    | e e' where "r = Inl e" "r' = Inl e'" "plain_error e" "plain_error e'"
    by (auto simp: alike_def eq)
  then show ?thesis
  proof cases
    case 1
    with eq run_served_Inr [of A p s v s'] run_served_Inr [of B p t v t'] show ?thesis by (simp add: alike_def)
  next
    case 2
    with eq run_served [of A p s] run_served [of B p t] show ?thesis by (fastforce simp: alike_def)
  qed
qed

text \<open>Two bridges with the same contents, and a fresh view of one of them.\<close>

lemma bridges_alike:
  assumes "bridge_abs 4096 R zero g h" and "bridge_abs 4096 R zero g k"
  shows "alike (fst (run_prog bridge_ops p h)) (fst (run_prog bridge_ops p k))
    \<and> (\<forall>v h' k'. run_prog bridge_ops p h = (Inr v, h') \<longrightarrow> run_prog bridge_ops p k = (Inr v, k') \<longrightarrow>
         (\<exists>g'. bridge_abs 4096 R zero g' h' \<and> bridge_abs 4096 R zero g' k'))"
  using flat_agreement.agreement [OF assms(1), of p] flat_agreement.agreement [OF assms(2), of p]
  by (fastforce simp: alike_def)

lemma fresh_view_abs:
  assumes "bridge_abs 4096 R zero g h"
  shows "first_view (ParallelMemoryCoordinator h) R zero g (ParallelMemoryView pe) g"
proof -
  have "is_byte (g a)" for a using assms mem_val_range [of "hb_memory h" a] by (auto simp: bridge_abs_def bridge_wf_def is_byte_def)
  with coord_ok_init [OF assms] show ?thesis
    by (auto simp: first_view_def view_abs_def view_wf_def view_overlay_def ParallelMemoryView_def dict_get_def
        ParallelMemoryCoordinator_def Let_def fun_eq_iff)
qed

lemma view_bridge_alike:
  assumes "bridge_abs 4096 R zero g h" and "bridge_abs 4096 R zero g k"
  shows "alike (fst (run_prog (view_ops (ParallelMemoryCoordinator h)) p (ParallelMemoryView pe))) (fst (run_prog bridge_ops p k))"
  using view_agreement.agreement [OF fresh_view_abs [OF assms(1)], of p pe] flat_agreement.agreement [OF assms(2), of p]
  by (fastforce simp: alike_def)

section \<open>Steps that fail alike\<close>

definition same_execution :: "instruction_execution \<Rightarrow> instruction_execution \<Rightarrow> bool" where
  "same_execution e e' \<longleftrightarrow> e\<lparr>ie_error := None\<rparr> = e'\<lparr>ie_error := None\<rparr> \<and> (ie_error e = None \<longleftrightarrow> ie_error e' = None)"

definition same_step :: "multi_pe_step \<Rightarrow> multi_pe_step \<Rightarrow> bool" where
  "same_step s t \<longleftrightarrow> s\<lparr>mst_error := None\<rparr> = t\<lparr>mst_error := None\<rparr> \<and> (mst_error s = None \<longleftrightarrow> mst_error t = None)"

definition same_core :: "run_core \<Rightarrow> run_core \<Rightarrow> bool" where
  "same_core a b \<longleftrightarrow> fst a = fst b \<and> list_all2 same_step (snd a) (snd b)"

lemma same_step_refl [simp]: "same_step s s"
  by (simp add: same_step_def)

lemma same_core_refl [simp]: "same_core a a"
  by (simp add: same_core_def list_all2_same)

lemma host_failure_alike:
  assumes "plain_error e" and "plain_error e'"
  shows "same_execution (host_failure e) (host_failure e')"
proof -
  have "host_failure_status e = ''runtime_error''" if "plain_error e" for e
    using that by (simp add: plain_error_def host_failure_status_def split: py_error.splits)
  with assms show ?thesis by (simp add: same_execution_def host_failure_def)
qed

text \<open>A step that does not commit, on both sides.\<close>

lemma outcome_alike:
  assumes "alike r r'" and "ctx_ok c"
  shows "outcome_of c r' = outcome_of c r
    \<or> (\<exists>rq e e' w. outcome_of c r = Stepped rq e w \<and> outcome_of c r' = Stepped rq e' w \<and> same_execution e e'
         \<and> \<not> execution_ok e \<and> \<not> execution_ok e')"
proof -
  from assms(1) consider "r' = r" | e e' where "r = Inl e" "r' = Inl e'" "plain_error e" "plain_error e'"
    by (auto simp: alike_def)
  then show ?thesis
  proof cases
    case 2
    have "\<not> execution_ok (host_failure e)" for e by (simp add: host_failure_def execution_ok_def)
    with 2 host_failure_alike show ?thesis
      by (auto simp: outcome_of_def step_value_def failed_step_ok [OF assms(2)])
  qed simp
qed

lemma record_failed_alike:
  assumes "same_execution e e'" and "\<not> execution_ok e" and "\<not> execution_ok e'"
  shows "\<exists>c' st st' f. record_outcome P n c rq e w = (c', st, Some f) \<and> record_outcome P n c rq e' w = (c', st', Some f)
    \<and> same_step st st'"
proof -
  have eq: "ie_status e = ie_status e'" "ie_returncode e = ie_returncode e'" "ie_fault_code e = ie_fault_code e'"
    "ie_error e = None \<longleftrightarrow> ie_error e' = None"
    using assms(1) by (auto simp: same_execution_def dest: arg_cong [where f = ie_status] arg_cong [where f = ie_returncode]
        arg_cong [where f = ie_fault_code])
  show ?thesis using assms(2,3) eq by (auto simp: record_outcome_def Let_def same_step_def)
qed

text \<open>Recording two steps that failed alike.\<close>

lemma apply_record_failed:
  assumes "core s = core t" and "same_execution e e'" and "\<not> execution_ok e" and "\<not> execution_ok e'"
  shows "\<exists>f s' t'. apply_record P c rq e w s = (Some f, s') \<and> apply_record P c rq e' w t = (Some f, t')
    \<and> same_core (core s') (core t') \<and> rs_executor s' = rs_executor s \<and> rs_executor t' = rs_executor t"
proof -
  have n: "length (rs_steps s) = length (rs_steps t)" "rs_steps s = rs_steps t" "rs_contexts s = rs_contexts t"
    using assms(1) by (simp_all add: core_def)
  obtain c' st st' f where "record_outcome P (length (rs_steps t)) c rq e w = (c', st, Some f)"
    "record_outcome P (length (rs_steps t)) c rq e' w = (c', st', Some f)" "same_step st st'"
    using record_failed_alike [OF assms(2-4)] by blast
  with n show ?thesis
    by (auto simp: apply_record_def core_def same_core_def list_all2_same intro: list_all2_appendI)
qed

lemma same_execution_refl [simp]: "same_execution e e"
  by (simp add: same_execution_def)


section \<open>What serial steps keep\<close>

text \<open>
  The program counters that a worker and the flow policy give are addresses, so no step is
  refused for its program counter.
\<close>

definition tpc_ok :: "'w worker_ops \<Rightarrow> bool" where
  "tpc_ok W \<longleftrightarrow> (\<forall>w st w'. may_answer (wo_step_auto W w) (Inr st, w') \<longrightarrow> 0 \<le> as_tpc st)"

definition flow_ok :: "run_policies \<Rightarrow> bool" where
  "flow_ok P \<longleftrightarrow> (\<forall>c rq e pc. ie_next_pc e = Some pc \<longrightarrow> 0 \<le> pc \<longrightarrow> 0 \<le> rp_flow P c rq e)"

lemma default_flow_ok [simp]: "flow_ok (default_policies encodings)"
  by (simp add: flow_ok_def default_policies_def SequentialControlFlow_def)

definition serial_ok :: "('w, 'b) run_state \<Rightarrow> bool" where
  "serial_ok s \<longleftrightarrow> ex_parallel (rs_executor s) = None \<and> handles_ok (rs_executor s)
     \<and> (\<forall>c \<in> set (rs_contexts s). ctx_ok c \<and> worker_of (rs_executor s) (ctx_pe_id c) \<noteq> None)"

lemma step_body_next_pc:
  "tpc_ok W \<Longrightarrow> may_answer (step_body W cfg c w) (Inr y, w') \<Longrightarrow> \<exists>pc. ie_next_pc (snd y) = Some pc \<and> 0 \<le> pc"
  unfolding step_body_def may_answer_cbind tpc_ok_def
  by (auto simp: may_answer_cbind transition_def split: if_splits; blast)

lemma outcome_ok_next_pc:
  assumes "tpc_ok W" and "run_prog ops (step_body W cfg c w0) s = (r, s')" and "ctx_ok c"
    and "outcome_of c r = Stepped rq e w" and "execution_ok e"
  shows "\<exists>pc. ie_next_pc e = Some pc \<and> 0 \<le> pc"
proof -
  have "outcome_ok (outcome_of c r)" using assms(4,5) by simp
  from outcome_ok_run [OF this assms(3)] obtain y w' where r: "r = Inr (Inr y, w')" by blast
  with assms(4) have "e = snd y" by (simp add: outcome_of_def step_value_def)
  moreover from r assms(2) have "may_answer (step_body W cfg c w0) (Inr y, w')" by (auto dest: run_prog_may_answer)
  ultimately show ?thesis using step_body_next_pc [OF assms(1)] by blast
qed

lemma record_outcome_ctx_ok:
  assumes "flow_ok P" and "ctx_ok c" and "ie_next_pc e = Some pc" and "0 \<le> pc" and "execution_ok e"
    and "record_outcome P n c rq e w = (c', st, f)"
  shows "ctx_ok c'"
proof -
  have "0 \<le> rp_flow P c rq (e\<lparr>ie_finished := b\<rparr>)" "0 \<le> rp_flow P c rq e" for b
    using assms(1,3,4) by (simp_all add: flow_ok_def)
  with assms show ?thesis by (auto simp: record_outcome_def Let_def ctx_ok_def split: if_splits)
qed

text \<open>The first step of a serial round.\<close>

lemma serial_head:
  assumes cl: "cacheless W" and ok: "serial_ok s" and c: "c \<in> set (rs_contexts s)"
    and w: "worker_of (rs_executor s) (ctx_pe_id c) = Some w0"
    and run: "run_prog (served_ops True bridge_ops) (step_body W cfg c w0) (ex_bridge (rs_executor s)) = (r, h')"
    and out: "outcome_of c r = Stepped rq e width"
  shows "\<exists>x. serial_steps W cfg P img None (c # sch) s =
      (case apply_record P c rq e width (s\<lparr>rs_executor := x\<rparr>) of
         (Some failure, s') \<Rightarrow> (Inr (StepFailed failure), s')
       | (None, s') \<Rightarrow> serial_steps W cfg P img None sch s')
    \<and> ex_bridge x = h' \<and> ex_parallel x = None \<and> stepped c (step_worker w0 r) (rs_executor s) x"
proof -
  have x: "ex_parallel (rs_executor s) = None" "handles_ok (rs_executor s)" "ctx_ok c" using ok c by (auto simp: serial_ok_def)
  from step_next_serial [OF cl x(1,2) w run] obtain x' where
    x': "step_next W cfg c (rs_executor s) = (step_value c r, x')" "ex_bridge x' = h'" "ex_parallel x' = None"
      "stepped c (step_worker w0 r) (rs_executor s) x'" by blast
  from execute_context_None [OF x'(1) x(3), of img] out x' show ?thesis by auto
qed

lemma serial_ok_step:
  assumes ok: "serial_ok s" and x: "ex_parallel x = None" "stepped c w (rs_executor s) x" and c: "ctx_ok c'"
    and pe: "ctx_pe_id c' = ctx_pe_id c" and t: "rs_executor t = x" "rs_contexts t = set_context c' (rs_contexts s)"
  shows "serial_ok t"
  using ok x c pe t stepped_handles [OF x(2)]
  by (auto simp: serial_ok_def stepped_def dest!: in_set_context)

lemma serial_steps_keeps:
  assumes cl: "cacheless W" and tp: "tpc_ok W" and fl: "flow_ok P"
  shows "serial_ok s \<Longrightarrow> schedulable sch (rs_contexts s) \<Longrightarrow> serial_steps W cfg P img None sch s = (q, s') \<Longrightarrow>
    (\<exists>t. q = Inr (StepFailed t)) \<or> q = Inr GoOn \<and> serial_ok s'"
proof (induction sch arbitrary: s)
  case (Cons c sch)
  have c: "c \<in> set (rs_contexts s)" using Cons.prems(2) by (simp add: schedulable_def)
  then have cok: "ctx_ok c" and w: "worker_of (rs_executor s) (ctx_pe_id c) \<noteq> None" using Cons.prems(1) by (auto simp: serial_ok_def)
  from w obtain w0 where w0: "worker_of (rs_executor s) (ctx_pe_id c) = Some w0" by blast
  obtain r h' where run: "run_prog (served_ops True bridge_ops) (step_body W cfg c w0) (ex_bridge (rs_executor s)) = (r, h')" by fastforce
  obtain rq e wd where out: "outcome_of c r = Stepped rq e wd" using outcome_of_Stepped [OF cok] by blast
  from serial_head [OF cl Cons.prems(1) c w0 run out, of P img sch] obtain x where
    st: "serial_steps W cfg P img None (c # sch) s =
      (case apply_record P c rq e wd (s\<lparr>rs_executor := x\<rparr>) of (Some failure, s') \<Rightarrow> (Inr (StepFailed failure), s')
       | (None, s') \<Rightarrow> serial_steps W cfg P img None sch s')"
    and x: "ex_parallel x = None" "stepped c (step_worker w0 r) (rs_executor s) x" by blast
  obtain f s1 where ap: "apply_record P c rq e wd (s\<lparr>rs_executor := x\<rparr>) = (f, s1)" by fastforce
  from apply_record_core [OF ap] obtain c' stp where
    rec: "record_outcome P (length (rs_steps s)) c rq e wd = (c', stp, f)"
    and s1: "rs_contexts s1 = set_context c' (rs_contexts s)" "rs_executor s1 = x" by (auto simp: core_def)
  show ?case
  proof (cases f)
    case (Some t)
    with st ap Cons.prems(3) show ?thesis by (auto simp del: serial_steps.simps)
  next
    case None
    then have eok: "execution_ok e" using record_outcome_failure [OF rec] by simp
    from outcome_ok_next_pc [OF tp run cok out eok] obtain pc where "ie_next_pc e = Some pc" "0 \<le> pc" by blast
    from record_outcome_ctx_ok [OF fl cok this eok rec] have c': "ctx_ok c'" .
    have pe: "ctx_pe_id c' = ctx_pe_id c" using record_outcome_pe [of P "length (rs_steps s)" c rq e wd] rec by simp
    have "serial_ok s1" by (rule serial_ok_step [OF Cons.prems(1) x c' pe s1(2,1)])
    moreover have "schedulable sch (rs_contexts s1)" using schedulable_tail [OF Cons.prems(2) pe] s1(1) by simp
    ultimately show ?thesis using Cons.IH [of s1] st ap None Cons.prems(3) by (simp del: serial_steps.simps)
  qed
qed simp

section \<open>One round of the two runs\<close>

text \<open>How a round of the serial run answers a round of the parallel run.\<close>

definition round_match ::
  "guest_region set \<Rightarrow> bool \<Rightarrow> round_end res \<Rightarrow> ('w, 'b) run_state \<Rightarrow> round_end res \<Rightarrow> ('w, 'b) run_state \<Rightarrow> bool" where
  "round_match R zero q sp q' ss \<longleftrightarrow>
     q = Inr GoOn \<and> q' = Inr GoOn \<and> core sp = core ss \<and> (\<exists>g. sim_ex R zero g (rs_executor sp) (rs_executor ss))
   \<or> (\<exists>t. q = Inr (StepFailed t) \<and> q' = Inr (StepFailed t)) \<and> same_core (core sp) (core ss)
       \<and> ex_artifact (rs_executor sp) = ex_artifact (rs_executor ss)"

lemma failing_heads:
  assumes "core s = core t" and "ctx_ok c" and "alike r r'"
    and "outcome_of c r = Stepped rq e w" and "\<not> execution_ok e"
  obtains e' f s' t' where "outcome_of c r' = Stepped rq e' w" "apply_record P c rq e w s = (Some f, s')"
    "apply_record P c rq e' w t = (Some f, t')" "same_core (core s') (core t')" "rs_executor s' = rs_executor s"
    "rs_executor t' = rs_executor t"
proof -
  from outcome_alike [OF assms(3,2)] assms(4,5) obtain e' where e': "outcome_of c r' = Stepped rq e' w"
    "same_execution e e'" "\<not> execution_ok e'" by auto
  from apply_record_failed [OF assms(1) e'(2) assms(5) e'(3)] e'(1) show thesis by (metis that)
qed

lemma serial_head_fails:
  assumes cl: "cacheless W" and ok: "serial_ok ss" and c: "c \<in> set (rs_contexts ss)"
    and w: "worker_of (rs_executor ss) (ctx_pe_id c) = Some w0" and core: "core s = core ss"
    and al: "alike r (fst (run_prog (served_ops True bridge_ops) (step_body W cfg c w0) (ex_bridge (rs_executor ss))))"
    and out: "outcome_of c r = Stepped rq e wd" "\<not> execution_ok e"
    and ap: "apply_record P c rq e wd s = (f, s')"
  shows "\<exists>t ss'. f = Some t \<and> serial_steps W cfg P img None (c # sch) ss = (Inr (StepFailed t), ss')
    \<and> same_core (core s') (core ss') \<and> ex_artifact (rs_executor ss') = ex_artifact (rs_executor ss)"
proof -
  have cok: "ctx_ok c" using ok c by (simp add: serial_ok_def)
  obtain r' h' where run: "run_prog (served_ops True bridge_ops) (step_body W cfg c w0) (ex_bridge (rs_executor ss)) = (r', h')" by fastforce
  with al have al': "alike r r'" by simp
  have core_x: "core s = core (ss\<lparr>rs_executor := x\<rparr>)" for x using core by simp
  from outcome_of_Stepped [OF cok] obtain rq' e' wd' where out': "outcome_of c r' = Stepped rq' e' wd'" by blast
  from serial_head [OF cl ok c w run out', of P img sch] obtain y where
    y: "serial_steps W cfg P img None (c # sch) ss =
      (case apply_record P c rq' e' wd' (ss\<lparr>rs_executor := y\<rparr>) of (Some failure, s') \<Rightarrow> (Inr (StepFailed failure), s')
       | (None, s') \<Rightarrow> serial_steps W cfg P img None sch s')" "stepped c (step_worker w0 r') (rs_executor ss) y" by blast
  from failing_heads [OF core_x [of y] cok al' out, where P = P] obtain e2 t s2 ss' where
    "outcome_of c r' = Stepped rq e2 wd" "apply_record P c rq e wd s = (Some t, s2)"
    "apply_record P c rq e2 wd (ss\<lparr>rs_executor := y\<rparr>) = (Some t, ss')" "same_core (core s2) (core ss')" "rs_executor ss' = y"
    by (metis run_state.select_convs(3) run_state.surjective run_state.update_convs(3))
  with out' y ap show ?thesis by (auto simp: stepped_def simp del: serial_steps.simps)
qed

text \<open>A round with a single PE runs serially in both runs.\<close>

lemma single_round:
  assumes cl: "cacheless W" and sim: "sim_ex R zero g (rs_executor sp) (rs_executor ss)" and core: "core sp = core ss"
    and ok: "serial_ok sp" "serial_ok ss" and c: "c \<in> set (rs_contexts sp)"
    and st: "serial_steps W cfg P img None [c] sp = (q, sp')"
  shows "\<exists>q' ss'. serial_steps W cfg P img None [c] ss = (q', ss') \<and> round_match R zero q sp' q' ss'"
proof -
  let ?x = "rs_executor sp" and ?y = "rs_executor ss"
  have cs: "c \<in> set (rs_contexts ss)" using c core by (simp add: core_def)
  have cok: "ctx_ok c" using ok(1) c by (simp add: serial_ok_def)
  obtain w0 where w: "worker_of ?x (ctx_pe_id c) = Some w0" "worker_of ?y (ctx_pe_id c) = Some w0"
    using ok(1) c sim by (auto simp: serial_ok_def sim_ex_def)
  let ?p = "step_body W cfg c w0"
  have hx: "bridge_abs 4096 R zero g (ex_bridge ?x)" and hy: "bridge_abs 4096 R zero g (ex_bridge ?y)"
    using sim by (simp_all add: sim_ex_def)
  obtain r h1 where rx: "run_prog (served_ops True bridge_ops) ?p (ex_bridge ?x) = (r, h1)" by fastforce
  obtain r' h2 where ry: "run_prog (served_ops True bridge_ops) ?p (ex_bridge ?y) = (r', h2)" by fastforce
  have al: "alike r r'" using served_alike [of bridge_ops ?p "ex_bridge ?x" bridge_ops "ex_bridge ?y"] bridges_alike [OF hx hy, of ?p] rx ry by simp
  obtain rq e wd where out: "outcome_of c r = Stepped rq e wd" using outcome_of_Stepped [OF cok] by blast
  from serial_head [OF cl ok(1) c w(1) rx out, of P img "[]"] obtain x where
    x: "serial_steps W cfg P img None [c] sp =
      (case apply_record P c rq e wd (sp\<lparr>rs_executor := x\<rparr>) of (Some failure, s') \<Rightarrow> (Inr (StepFailed failure), s')
       | (None, s') \<Rightarrow> serial_steps W cfg P img None [] s')" "ex_bridge x = h1" "ex_parallel x = None" "stepped c (step_worker w0 r) ?x x" by blast
  obtain f s1 where ap: "apply_record P c rq e wd (sp\<lparr>rs_executor := x\<rparr>) = (f, s1)" by fastforce
  show ?thesis
  proof (cases "execution_ok e")
    case False
    have s1: "rs_executor s1 = x" using apply_record_executor [of P c rq e wd "sp\<lparr>rs_executor := x\<rparr>"] ap by simp
    have cx: "core (sp\<lparr>rs_executor := x\<rparr>) = core ss" using core by simp
    have al': "alike r (fst (run_prog (served_ops True bridge_ops) ?p (ex_bridge ?y)))" using al ry by simp
    from serial_head_fails [OF cl ok(2) cs w(2) cx al' out False ap, of img "[]"] x st ap s1 sim
    show ?thesis by (auto simp: round_match_def sim_ex_def stepped_def simp del: serial_steps.simps(2))
  next
    case True
    with outcome_ok_run [of c r] out cok obtain v where v: "r = Inr v" by auto
    with al have v': "r' = Inr v" by (auto simp: alike_def)
    have out2: "outcome_of c r' = Stepped rq e wd" using out v v' by simp
    from serial_head [OF cl ok(2) cs w(2) ry out2, of P img "[]"] obtain y where
      y: "serial_steps W cfg P img None [c] ss =
        (case apply_record P c rq e wd (ss\<lparr>rs_executor := y\<rparr>) of (Some failure, s') \<Rightarrow> (Inr (StepFailed failure), s')
         | (None, s') \<Rightarrow> serial_steps W cfg P img None [] s')" "ex_bridge y = h2" "ex_parallel y = None" "stepped c (step_worker w0 r') ?y y" by blast
    obtain f2 s2 where ap2: "apply_record P c rq e wd (ss\<lparr>rs_executor := y\<rparr>) = (f2, s2)" by fastforce
    have cx: "core (sp\<lparr>rs_executor := x\<rparr>) = core (ss\<lparr>rs_executor := y\<rparr>)" using core by simp
    have f: "f2 = f" "core s1 = core s2" "rs_executor s1 = x" "rs_executor s2 = y"
      using apply_record_core_cong [OF cx, of P c rq e wd] apply_record_executor [of P c rq e wd "sp\<lparr>rs_executor := x\<rparr>"]
        apply_record_executor [of P c rq e wd "ss\<lparr>rs_executor := y\<rparr>"] ap ap2 by auto
    have fn: "f = None"
      using ap True record_outcome_failure [of P _ c rq e wd] by (auto simp: apply_record_def split: prod.splits)
    have "\<exists>g'. bridge_abs 4096 R zero g' h1 \<and> bridge_abs 4096 R zero g' h2"
      using bridges_alike [OF hx hy, of ?p] rx ry v v' by (auto simp: run_served_Inr)
    then have "\<exists>g'. sim_ex R zero g' x y"
      using sim x y stepped_handles [OF x(4)] v v' by (auto simp: sim_ex_def stepped_def)
    with x y st ap ap2 f fn show ?thesis by (auto simp: round_match_def simp del: serial_steps.simps(2))
  qed
qed

text \<open>A parallel round whose first PE failed reports what the serial run reports.\<close>

lemma settle_first_failure:
  assumes co: "ex_parallel x = Some co" "\<not> pc_closed co" and i: "first_failure outs = Some i"
    and st: "settle_round P sch outs (s\<lparr>rs_executor := x\<rparr>) = (q, s')"
  shows "i \<noteq> 0 \<and> q = Inr FallBack \<and> ex_bridge (rs_executor s') = ex_bridge x
    \<or> i = 0 \<and> (\<exists>r. report_first P (sch ! 0) (outs ! 0) (s\<lparr>rs_executor := x\<lparr>ex_parallel := None\<rparr>\<rparr>) = (r, s') \<and> q = Inr r)"
proof -
  have rb: "rollback_parallel_round x = (Inr (), x\<lparr>ex_parallel := None\<rparr>)"
    using co by (simp add: rollback_parallel_round_def coordinator_rollback_def pc_check_open_def)
  show ?thesis using st i rb by (auto simp: settle_round_def Let_def with_metrics_def split: prod.splits if_splits)
qed

lemma parallel_round_match:
  assumes cl: "cacheless W" and sc: "\<not> shared_scope cfg" and par: "xc_parallel_pe_steps cfg"
    and sim: "sim_ex R zero g (rs_executor sp) (rs_executor ss)" and core: "core sp = core ss"
    and ok: "serial_ok ss" and rk: "round_ok sch (rs_executor sp)"
    and sch: "sch \<noteq> []" "set sch \<subseteq> set (rs_contexts ss)"
    and st: "parallel_steps W cfg P img sch sp = (q, sp')"
  shows "q = Inr FallBack \<and> ex_bridge (rs_executor sp') = ex_bridge (rs_executor sp)
    \<or> (\<exists>q' ss'. serial_steps W cfg P img None sch ss = (q', ss') \<and> round_match R zero q sp' q' ss')"
proof -
  let ?x = "rs_executor sp" and ?y = "rs_executor ss" and ?s = "with_metrics (\<lambda>m. m\<lparr>pmt_attempted := True, pmt_rounds := pmt_rounds m + 1\<rparr>) sp"
  define co where "co = ParallelMemoryCoordinator (ex_bridge ?x)"
  let ?vr = "view_run W cfg co (worker_of ?x)" and ?outs = "map (\<lambda>c. outcome_of c (fst (view_run W cfg co (worker_of ?x) c))) sch"
  have np: "ex_parallel ?x = None" "handles_ok ?x" using sim by (simp_all add: sim_ex_def)
  have sx: "rs_executor ?s = ?x" "core ?s = core ss" using core by (simp_all add: with_metrics_def core_def)
  from round_phases [OF cl sc par np rk co_def, of img] obtain x1 x2 where
    x1: "begin_parallel_round cfg sch ?x = (Inr (), x1)" "amap (execute_context W cfg img None) sch x1 = (Inr ?outs, x2)" and
    x2: "ex_bridge x2 = ex_bridge ?x" "ex_workers x2 = ex_workers ?x" "ex_artifact x2 = ex_artifact ?x"
      "ex_parallel x2 = Some (co\<lparr>pc_views := map (\<lambda>c. (ctx_pe_id c, snd (?vr c))) sch\<rparr>)"
      "worker_of x2 = new_workers (map (\<lambda>c. (c, fst (?vr c))) sch) (worker_of ?x)" and
    op: "open_views (map ctx_pe_id sch) co = Inr (co\<lparr>pc_views := fresh_views (map ctx_pe_id sch)\<rparr>)"
    by blast
  have st': "settle_round P sch ?outs (?s\<lparr>rs_executor := x2\<rparr>) = (q, sp')"
    using st x1 sx by (simp add: parallel_steps_def Let_def)
  show ?thesis
  proof (cases "first_failure ?outs")
    case None
    then have outs_ok: "list_all outcome_ok ?outs" by (simp only: first_failure_None)
    from round_commits [OF cl sim sx(2) rk co_def refl x2 op refl outs_ok st', of img] show ?thesis
      by (auto simp: round_match_def)
  next
    case (Some i)
    let ?co2 = "co\<lparr>pc_views := map (\<lambda>c. (ctx_pe_id c, snd (?vr c))) sch\<rparr>"
    have nc: "\<not> pc_closed ?co2" by (simp add: co_def ParallelMemoryCoordinator_def Let_def)
    consider (later) "q = Inr FallBack" "ex_bridge (rs_executor sp') = ex_bridge x2"
      | (first) r where "i = 0" "report_first P (sch ! 0) (?outs ! 0) (?s\<lparr>rs_executor := x2\<lparr>ex_parallel := None\<rparr>\<rparr>) = (r, sp')" "q = Inr r"
      using settle_first_failure [OF x2(4) nc Some st'] by blast
    then show ?thesis
    proof cases
      case later
      with x2 show ?thesis by simp
    next
      case first
      obtain c sch' where cs: "sch = c # sch'" using sch(1) by (cases sch) auto
      have cok: "ctx_ok c" using rk cs by (simp add: round_ok_def)
      obtain w0 where w: "worker_of ?x (ctx_pe_id c) = Some w0" "worker_of ?y (ctx_pe_id c) = Some w0"
        using rk cs sim by (auto simp: round_ok_def sim_ex_def)
      obtain rq e wd where out: "outcome_of c (fst (?vr c)) = Stepped rq e wd" using outcome_of_Stepped [OF cok] by blast
      have bad: "\<not> execution_ok e" using first_failure_0 [of ?outs] Some first(1) cs out by simp
      let ?s2 = "?s\<lparr>rs_executor := x2\<lparr>ex_parallel := None\<rparr>\<rparr>"
      obtain f s2 where ap: "apply_record P c rq e wd ?s2 = (f, s2)" by fastforce
      have al: "alike (fst (?vr c)) (fst (run_prog (served_ops True bridge_ops) (step_body W cfg c w0) (ex_bridge ?y)))"
        unfolding view_run_def step_prog_of_def w(1) option.sel co_def
        by (rule served_alike, rule view_bridge_alike) (use sim in \<open>auto simp: sim_ex_def\<close>)
      have cc: "core ?s2 = core ss" "c \<in> set (rs_contexts ss)" using sx sch cs by simp_all
      have s2: "rs_executor s2 = x2\<lparr>ex_parallel := None\<rparr>" using apply_record_executor [of P c rq e wd ?s2] ap by simp
      from serial_head_fails [OF cl ok cc(2) w(2) cc(1) al out bad ap, of img sch'] obtain t ss' where
        "f = Some t" "serial_steps W cfg P img None sch ss = (Inr (StepFailed t), ss')" "same_core (core s2) (core ss')"
        "ex_artifact (rs_executor ss') = ex_artifact ?y" unfolding cs by blast
      moreover from this(1) have "r = StepFailed t" "sp' = s2" using first(2) cs out ap by (simp_all add: report_first_def)
      ultimately show ?thesis using first(3) s2 x2(3) sim by (auto simp: round_match_def sim_ex_def)
    qed
  qed
qed

lemma scheduled_round_ok:
  assumes "core_inv n (core s)" and "serial_ok s"
  shows "round_ok (scheduled m s) (rs_executor s)"
proof -
  have "sorted_wrt (<) (map ctx_pe_id (rs_contexts s))"
    using assms(1) by (simp add: core_inv_def core_def sorted_wrt_map)
  then have "sorted_wrt (<) (map ctx_pe_id (scheduled m s))"
    by (simp add: scheduled_def schedule_contexts_def sorted_wrt_map sorted_wrt_take sorted_wrt_filter)
  then show ?thesis using assms(2)
    by (auto simp: round_ok_def serial_ok_def scheduled_def schedule_contexts_def dest!: in_set_takeD)
qed

lemma serial_ok_sim:
  "serial_ok ss \<Longrightarrow> sim_ex R zero g (rs_executor sp) (rs_executor ss) \<Longrightarrow> core sp = core ss \<Longrightarrow> serial_ok sp"
  by (simp add: serial_ok_def sim_ex_def core_def)

lemma scheduled_core: "core sp = core ss \<Longrightarrow> scheduled m sp = scheduled m ss"
  by (simp add: scheduled_def core_def)

lemma round_matches:
  assumes cl: "cacheless W" and sc: "\<not> shared_scope cfg" and par: "xc_parallel_pe_steps cfg"
    and sim: "sim_ex R zero g (rs_executor sp) (rs_executor ss)" and core: "core sp = core ss"
    and inv: "core_inv n (core sp)" and ok: "serial_ok ss" and sch: "scheduled m sp \<noteq> []"
    and st: "run_round W cfg P img None True (scheduled m sp) sp = (q, sp')"
  shows "q = Inr FallBack \<and> ex_bridge (rs_executor sp') = ex_bridge (rs_executor sp)
    \<or> (\<exists>q' ss'. run_round W cfg P img None False (scheduled m ss) ss = (q', ss') \<and> round_match R zero q sp' q' ss')"
proof -
  let ?sch = "scheduled m sp"
  have okp: "serial_ok sp" by (rule serial_ok_sim [OF ok sim core])
  have sub: "set ?sch \<subseteq> set (rs_contexts sp)" using schedule_schedulable [OF inv] by (auto simp: scheduled_def schedulable_def)
  note eq = scheduled_core [OF core, of m, symmetric]
  show ?thesis
  proof (cases "1 < length ?sch")
    case True
    have "set ?sch \<subseteq> set (rs_contexts ss)" using sub core by (simp add: core_def)
    from parallel_round_match [OF cl sc par sim core ok scheduled_round_ok [OF inv okp] sch this, of P img q sp'] st True
    show ?thesis by (simp add: run_round_def eq)
  next
    case False
    then obtain c where c: "?sch = [c]" using sch by (cases ?sch) auto
    with sub have "c \<in> set (rs_contexts sp)" by simp
    from single_round [OF cl sim core okp ok this, of cfg P img q sp'] st c show ?thesis by (simp add: run_round_def eq)
  qed
qed

section \<open>The loops of the two runs\<close>

text \<open>The loop after a round that did not raise.\<close>

definition after_round ::
  "nat \<Rightarrow> 'w worker_ops \<Rightarrow> executor_config \<Rightarrow> run_policies \<Rightarrow> program_image \<Rightarrow> int option \<Rightarrow> bool \<Rightarrow> int \<Rightarrow> round_end \<Rightarrow>
   ('w, 'b) run_state \<Rightarrow> (loop_end res \<times> ('w, 'b) run_state) option" where
  "after_round fuel W cfg P img lb pool m r s =
     (case r of
        GoOn \<Rightarrow> if list_all (\<lambda>c. \<not> ctx_active c) (rs_contexts s) then Some (Inr (Ended ''all_finished''), s)
                else run_loop fuel W cfg P img lb pool m s
      | StepFailed t \<Rightarrow> Some (Inr (Ended t), s) | FetchStopped \<Rightarrow> Some (Inr EndedFetch, s) | FallBack \<Rightarrow> Some (Inr EndedFallback, s))"

lemma run_loop_round:
  "int (length (rs_steps s)) < m \<Longrightarrow> scheduled m s \<noteq> [] \<Longrightarrow> run_round W cfg P img lb pool (scheduled m s) s = (q, s') \<Longrightarrow>
   run_loop (Suc fuel) W cfg P img lb pool m s =
     (case q of Inl e \<Rightarrow> Some (Inl e, s') | Inr r \<Rightarrow> after_round fuel W cfg P img lb pool m r s')"
  by (simp add: after_round_def split: sum.split round_end.split)

lemma loop_match:
  assumes cl: "cacheless W" and tp: "tpc_ok W" and fl: "flow_ok P" and sc: "\<not> shared_scope cfg" and par: "xc_parallel_pe_steps cfg"
  shows "sim_ex R zero g (rs_executor sp) (rs_executor ss) \<Longrightarrow> core sp = core ss \<Longrightarrow> core_inv n (core sp) \<Longrightarrow> running (core sp) \<Longrightarrow>
    serial_ok ss \<Longrightarrow> run_loop fuel W cfg P img None True m sp = Some (lr, sp') \<Longrightarrow>
    lr = Inr EndedFallback \<and> (\<exists>g'. bridge_abs 4096 R zero g' (ex_bridge (rs_executor sp')))
    \<or> (\<exists>t ss'. lr = Inr (Ended t) \<and> run_loop fuel W cfg P img None False m ss = Some (lr, ss')
         \<and> same_core (core sp') (core ss') \<and> ex_artifact (rs_executor sp') = ex_artifact (rs_executor ss'))"
proof (induction fuel arbitrary: g sp ss)
  case 0
  then show ?case by (auto simp: sim_ex_def core_def split: if_splits)
next
  case (Suc fuel)
  note core = Suc.prems(2)
  have len: "rs_steps sp = rs_steps ss" using core by (simp add: core_def)
  have art: "ex_artifact (rs_executor sp) = ex_artifact (rs_executor ss)" using Suc.prems(1) by (simp add: sim_ex_def)
  note eq = scheduled_core [OF core, of m]
  show ?case
  proof (cases "int (length (rs_steps sp)) < m \<and> scheduled m sp \<noteq> []")
    case False
    then show ?thesis using Suc.prems(6) core len eq art by (auto split: if_splits)
  next
    case True
    obtain q sp1 where rp: "run_round W cfg P img None True (scheduled m sp) sp = (q, sp1)" by fastforce
    note loop_p = run_loop_round [OF conjunct1 [OF True] conjunct2 [OF True] rp, of fuel]
    from round_matches [OF cl sc par Suc.prems(1-3,5) _ rp] True consider
        (fall) "q = Inr FallBack" "ex_bridge (rs_executor sp1) = ex_bridge (rs_executor sp)"
      | (match) q' ss1 where "run_round W cfg P img None False (scheduled m ss) ss = (q', ss1)" "round_match R zero q sp1 q' ss1" by blast
    then show ?thesis
    proof cases
      case fall
      with loop_p Suc.prems(1,6) show ?thesis by (auto simp: sim_ex_def after_round_def simp del: run_loop.simps)
    next
      case match
      have loop_s: "run_loop (Suc fuel) W cfg P img None False m ss = (case q' of Inl e \<Rightarrow> Some (Inl e, ss1) | Inr r \<Rightarrow> after_round fuel W cfg P img None False m r ss1)"
        using run_loop_round [OF _ _ match(1), of fuel] True len eq by simp
      from match(2) consider (go) g1 where "q = Inr GoOn" "q' = Inr GoOn" "core sp1 = core ss1" "sim_ex R zero g1 (rs_executor sp1) (rs_executor ss1)"
        | (stop) t where "q = Inr (StepFailed t)" "q' = Inr (StepFailed t)" "same_core (core sp1) (core ss1)"
            "ex_artifact (rs_executor sp1) = ex_artifact (rs_executor ss1)"
        by (auto simp: round_match_def)
      then show ?thesis
      proof cases
        case stop
        with loop_p loop_s Suc.prems(6) show ?thesis by (auto simp: after_round_def simp del: run_loop.simps)
      next
        case go
        have sch: "schedulable (scheduled m ss) (rs_contexts ss)"
          using schedule_schedulable [of n ss] Suc.prems(3) core by (simp add: scheduled_def)
        have ser: "serial_steps W cfg P img None (scheduled m ss) ss = (Inr GoOn, ss1)"
          using match(1) go(2) by (simp add: run_round_def)
        have ok1: "serial_ok ss1" using serial_steps_keeps [OF cl tp fl Suc.prems(5) sch ser] by simp
        have "round_core P (length (scheduled m ss)) (core ss) GoOn (core ss1)" using serial_steps_core [OF ser sch] by simp
        from round_post [OF this, of n] Suc.prems(3,4) core go(3) have inv1: "core_inv n (core sp1)" "running (core sp1)" by simp_all
        have cx: "rs_contexts sp1 = rs_contexts ss1" using go(3) by (simp add: core_def)
        have ar: "ex_artifact (rs_executor sp1) = ex_artifact (rs_executor ss1)" using go(4) by (simp add: sim_ex_def)
        show ?thesis
        proof (cases "list_all (\<lambda>c. \<not> ctx_active c) (rs_contexts sp1)")
          case True
          then show ?thesis using Suc.prems(6) loop_p loop_s go cx ar by (auto simp: after_round_def simp del: run_loop.simps)
        next
          case False
          with Suc.prems(6) loop_p go have "run_loop fuel W cfg P img None True m sp1 = Some (lr, sp')" by (simp add: after_round_def del: run_loop.simps)
          from Suc.IH [OF go(4,3) inv1 ok1 this] False loop_s go cx show ?thesis by (simp add: after_round_def del: run_loop.simps)
        qed
      qed
    qed
  qed
qed


section \<open>Starting the two runs\<close>

lemma map_region_act_wf: "map_region_act b sz perms nm payload m = (q, m') \<Longrightarrow> mem_wf m \<Longrightarrow> mem_wf m'"
  by (auto simp: map_region_act_def split: sum.splits prod.splits dest: mem_wf_map_region)

lemma map_segments_wf: "map_segments segs m = (q, m') \<Longrightarrow> mem_wf m \<Longrightarrow> mem_wf m'"
  by (induction segs arbitrary: m) (auto split: prod.splits sum.splits dest: map_region_act_wf)

lemma map_stacks_wf: "map_stacks n perms ls m = (q, m') \<Longrightarrow> mem_wf m \<Longrightarrow> mem_wf m'"
  by (induction ls arbitrary: m q) (auto split: prod.splits sum.splits dest: map_region_act_wf)

lemma load_image_settings:
  assumes "load_image img opts h = (Inr i, h')"
  shows "hb_worker h' = hb_worker h" "hb_unmapped_policy h' = hb_unmapped_policy h" "hb_page_size h' = hb_page_size h" "mem_wf (hb_memory h')"
  using assms by (auto simp: load_image_def Let_def split: if_splits prod.splits sum.splits dest!: map_segments_wf map_stacks_wf)

text \<open>What a load keeps of a bridge: its worker, its policy and its page size.\<close>

definition same_settings :: "'b host_bridge \<Rightarrow> 'b host_bridge \<Rightarrow> bool" where
  "same_settings h k \<longleftrightarrow> hb_worker h = hb_worker k \<and> hb_unmapped_policy h = hb_unmapped_policy k \<and> hb_page_size h = hb_page_size k"

lemma load_image_restart:
  assumes "same_settings h k"
  shows "load_image img opts h = load_image img opts k \<and> (\<exists>i. fst (load_image img opts h) = Inr i)
    \<or> (\<exists>e h' k'. load_image img opts h = (Inl e, h') \<and> load_image img opts k = (Inl e, k'))"
  using assms
  by (cases h; cases k) (auto simp: same_settings_def load_image_def Let_def split: prod.splits sum.splits)

text \<open>A bridge that no worker mirrors, with the page size of the runtime.\<close>

definition plain_bridge :: "'b host_bridge \<Rightarrow> bool" where
  "plain_bridge h \<longleftrightarrow> bridge_wf h \<and> hb_worker h = None \<and> hb_page_size h = 4096"

lemma plain_bridge_abs:
  "plain_bridge h \<Longrightarrow> \<exists>R g. bridge_abs 4096 R (hb_unmapped_policy h = ''zero'') g h"
  using bridge_abs_init [of h] by (auto simp: plain_bridge_def)

lemma plain_bridge_settings:
  "plain_bridge h \<Longrightarrow> bridge_abs 4096 R (hb_unmapped_policy h = ''zero'') g k \<Longrightarrow> same_settings h k"
  by (auto simp: plain_bridge_def bridge_abs_def bridge_wf_def same_settings_def)

lemma call_worker_abs:
  assumes "call_worker m w h = (Inr y, w', h')" and "bridge_abs 4096 R zero g h"
  shows "\<exists>g'. bridge_abs 4096 R zero g' h'"
proof -
  from assms(1) obtain rw where "run_prog bridge_ops (m w) h = (Inr rw, h')"
    by (auto simp: call_worker_def run_served_Inr split: prod.splits sum.splits)
  with flat_agreement.agreement [OF assms(2), of "m w"] show ?thesis by auto
qed

lemma start_contexts_abs:
  "start_contexts W cfg l first cs h = (Inr ws, h') \<Longrightarrow> bridge_abs 4096 R zero g h \<Longrightarrow>
   map fst ws = map ctx_pe_id cs \<and> (\<exists>g'. bridge_abs 4096 R zero g' h')"
proof (induction cs arbitrary: first h g ws)
  case (Cons c cs)
  from Cons.prems(1) obtain src w h1 ws1 where
    1: "call_worker (boot_worker W cfg src (ctx_pe_id c)) first h = (Inr (), w, h1)"
      "start_contexts W cfg l (wo_new W) cs h1 = (Inr ws1, h')" "ws = (ctx_pe_id c, w) # ws1"
    by (auto split: sum.splits prod.splits)
  from call_worker_abs [OF 1(1) Cons.prems(2)] obtain g1 where "bridge_abs 4096 R zero g1 h1" by blast
  from Cons.IH [OF 1(2) this] 1(3) show ?case by simp
qed auto

text \<open>The workers a start leaves behind: one handle per PE.\<close>

lemma started_workers:
  assumes "distinct (map fst ws)" and "ex_workers x = dict_of (zip (map fst ws) [0..<length ws])"
    and "ex_store x = zip [0..<length ws] (map snd ws)"
  shows "handles_ok x" and "\<forall>pe \<in> set (map fst ws). worker_of x pe \<noteq> None"
proof -
  let ?pes = "map fst ws" and ?ks = "[0..<length ws]"
  have mw: "map_of (ex_workers x) = map_of (zip ?pes ?ks)"
    using assms(1,2) by (simp add: map_of_dict_of_distinct)
  have at: "map_of (zip ?pes ?ks) pe = Some k \<longleftrightarrow> k < length ws \<and> ?pes ! k = pe" for pe k
  proof
    show "map_of (zip ?pes ?ks) pe = Some k \<Longrightarrow> k < length ws \<and> ?pes ! k = pe"
      by (drule map_of_SomeD) (auto simp: in_set_zip)
    show "k < length ws \<and> ?pes ! k = pe \<Longrightarrow> map_of (zip ?pes ?ks) pe = Some k"
      using map_of_zip_nth [of ?pes ?ks k] assms(1) by auto
  qed
  show "handles_ok x" unfolding handles_ok_def mw
  proof (rule inj_onI)
    fix pe pe' assume d: "pe \<in> dom (map_of (zip ?pes ?ks))" "map_of (zip ?pes ?ks) pe = map_of (zip ?pes ?ks) pe'"
    then obtain k where "map_of (zip ?pes ?ks) pe = Some k" "map_of (zip ?pes ?ks) pe' = Some k" by (metis domD)
    with at [of pe k] at [of pe' k] show "pe = pe'" by simp
  qed
  show "\<forall>pe \<in> set (map fst ws). worker_of x pe \<noteq> None"
  proof
    fix pe assume "pe \<in> set (map fst ws)"
    then obtain k where k: "k < length ws" "?pes ! k = pe" by (metis in_set_conv_nth length_map)
    then have "map_of (ex_workers x) pe = Some k" using mw at by simp
    moreover have "map_of (ex_store x) k = Some (map snd ws ! k)"
      unfolding assms(3) using map_of_zip_nth [of ?ks "map snd ws" k] k(1) by simp
    ultimately show "worker_of x pe \<noteq> None" by (simp add: worker_of_def)
  qed
qed

lemma new_executor_simps [simp]:
  "ex_bridge (new_executor h) = h" "ex_parallel (new_executor h) = None"
  by (simp_all add: new_executor_def)

lemma executor_close_returns:
  "\<exists>x'. executor_close W x = (Inr (), x') \<and> ex_bridge x' = ex_bridge x \<and> ex_parallel x' = None"
  by (auto simp: executor_close_def rollback_parallel_round_def coordinator_rollback_def pc_check_open_def Let_def split: option.split)

lemma executor_start_sim:
  assumes h: "plain_bridge h" and sc: "\<not> shared_scope cfg" and cs: "distinct (map ctx_pe_id cs)"
    and st: "executor_start W cfg img cs (new_executor h) = (Inr u, x)"
  shows "\<exists>R g. sim_ex R (hb_unmapped_policy h = ''zero'') g x x \<and> (\<forall>c \<in> set cs. worker_of x (ctx_pe_id c) \<noteq> None)"
proof -
  let ?z = "hb_unmapped_policy h = ''zero''"
  from st obtain l i h1 where ld: "load_image img (default_load_options\<lparr>lo_runtime_layout := Some l\<rparr>) h = (Inr i, h1)"
    and rest: "(case executor_close W ((new_executor h)\<lparr>ex_layout := Some l, ex_bridge := h1\<rparr>) of
                 (Inl e, x') \<Rightarrow> (Inl e, x') | (Inr _, x') \<Rightarrow> start_workers W cfg l cs x') = (Inr u, x)"
    by (auto simp: executor_start_def new_executor_def split: if_splits sum.splits prod.splits)
  from executor_close_returns [of W "(new_executor h)\<lparr>ex_layout := Some l, ex_bridge := h1\<rparr>"] obtain x1 where
    x1: "executor_close W ((new_executor h)\<lparr>ex_layout := Some l, ex_bridge := h1\<rparr>) = (Inr (), x1)" "ex_bridge x1 = h1" "ex_parallel x1 = None" by auto
  note ls = load_image_settings [OF ld]
  have "plain_bridge h1" using h ls unfolding plain_bridge_def bridge_wf_def by metis
  with plain_bridge_abs obtain R g where ab: "bridge_abs 4096 R ?z g h1" using ls(2) by metis
  from rest x1 sc obtain first ws h2 where
    ws: "start_contexts W cfg l first cs h1 = (Inr ws, h2)" and
    x: "x = x1\<lparr>ex_bridge := h2, ex_workers := dict_of (zip (map fst ws) [0..<length ws]), ex_store := zip [0..<length ws] (map snd ws),
        ex_generation := dict_of (map (\<lambda>c. (ctx_pe_id c, hb_generation h2)) cs), ex_artifact := first_identity W (map snd ws) (ex_artifact x1)\<rparr>"
    by (auto simp: start_workers_def Let_def split: sum.splits prod.splits if_splits)
  from start_contexts_abs [OF ws ab] obtain g2 where pes: "map fst ws = map ctx_pe_id cs" and ab2: "bridge_abs 4096 R ?z g2 h2" by blast
  have wk: "ex_workers x = dict_of (zip (map fst ws) [0..<length ws])" "ex_store x = zip [0..<length ws] (map snd ws)" by (simp_all add: x)
  from started_workers [OF _ wk] cs pes have "handles_ok x" "\<forall>c \<in> set cs. worker_of x (ctx_pe_id c) \<noteq> None" by simp_all
  moreover have "ex_bridge x = h2" "ex_parallel x = None" using x1(3) by (simp_all add: x)
  ultimately have "sim_ex R ?z g2 x x \<and> (\<forall>c \<in> set cs. worker_of x (ctx_pe_id c) \<noteq> None)" using ab2 by (simp add: sim_ex_def)
  then show ?thesis by blast
qed

text \<open>A start depends on the bridge only through its settings.\<close>

lemma executor_start_restart:
  assumes "same_settings h k"
  shows "executor_start W cfg img cs (new_executor h) = executor_start W cfg img cs (new_executor k)
    \<or> (\<exists>e x y. executor_start W cfg img cs (new_executor h) = (Inl e, x) \<and> executor_start W cfg img cs (new_executor k) = (Inl e, y)
         \<and> ex_parallel x = None \<and> ex_parallel y = None)"
proof -
  let ?l = "resolve img (xc_stack_policy cfg) (xc_stack_pointer cfg) (xc_stack_size cfg) (xc_stack_gap cfg)
                (xc_stack_stride cfg) (xc_red_zone cfg) (int (length cs)) 4096 64"
  show ?thesis
  proof (cases "xc_worker_scope cfg = ''single'' \<and> length cs \<noteq> 1")
    case True
    then show ?thesis by (auto simp: executor_start_def new_executor_def)
  next
    case False
    show ?thesis
    proof (cases ?l)
      case (Inl e)
      with False show ?thesis by (auto simp: executor_start_def new_executor_def)
    next
      case (Inr l)
      let ?o = "default_load_options\<lparr>lo_runtime_layout := Some l\<rparr>"
      have st: "executor_start W cfg img cs (new_executor b) =
        (case load_image img ?o b of (Inl e, h) \<Rightarrow> (Inl e, (new_executor b)\<lparr>ex_layout := Some l, ex_bridge := h\<rparr>)
         | (Inr _, h) \<Rightarrow> (case executor_close W ((new_executor b)\<lparr>ex_layout := Some l, ex_bridge := h\<rparr>) of
             (Inl e, x') \<Rightarrow> (Inl e, x') | (Inr _, x') \<Rightarrow> start_workers W cfg l cs x'))" for b :: "'a host_bridge"
        using False Inr by (auto simp: executor_start_def)
      have nb: "(new_executor h)\<lparr>ex_layout := Some l, ex_bridge := b\<rparr> = (new_executor k)\<lparr>ex_layout := Some l, ex_bridge := b\<rparr>" for b
        by (simp add: new_executor_def)
      from load_image_restart [OF assms, of img ?o] show ?thesis
        unfolding st by (auto simp: nb new_executor_def split: prod.splits sum.splits)
    qed
  qed
qed

section \<open>The two runs\<close>

text \<open>Two reports that differ at most in metrics and in the text of an error.\<close>

definition same_report :: "multi_result \<Rightarrow> multi_result \<Rightarrow> bool" where
  "same_report r r' \<longleftrightarrow> mr_contexts r = mr_contexts r' \<and> list_all2 same_step (mr_steps r) (mr_steps r')
     \<and> mr_artifact r = mr_artifact r' \<and> mr_termination r = mr_termination r' \<and> mr_layout r = mr_layout r'"

definition same_answer :: "multi_result res \<Rightarrow> multi_result res \<Rightarrow> bool" where
  "same_answer a b \<longleftrightarrow> (\<exists>e. a = Inl e \<and> b = Inl e) \<or> (\<exists>r r'. a = Inr r \<and> b = Inr r' \<and> same_report r r')"

lemma same_report_parallel [simp]: "same_report (r\<lparr>mr_parallel := p\<rparr>) r' = same_report r r'"
  by (simp add: same_report_def)

lemma same_answer_refl [simp]: "same_answer a a"
  by (cases a) (auto simp: same_answer_def same_report_def list_all2_same)

lemma same_step_returncode: "same_step s t \<Longrightarrow> mst_returncode s = mst_returncode t"
  by (auto simp: same_step_def dest: arg_cong [where f = mst_returncode])

lemma same_report_status:
  assumes "same_report r r'"
  shows "multi_result_status r = multi_result_status r'"
proof -
  have "list_all2 (\<lambda>s t. mst_returncode s = mst_returncode t) (mr_steps r) (mr_steps r')"
    using assms by (auto simp: same_report_def elim: list_all2_mono dest: same_step_returncode)
  then have eq: "map mst_returncode (mr_steps r) = map mst_returncode (mr_steps r')"
    by (intro nth_equalityI) (auto simp: list_all2_conv_all_nth)
  have st: "list_ex (\<lambda>s. mst_returncode s \<noteq> 0) ss = list_ex (\<lambda>v. v \<noteq> 0) (map mst_returncode ss)"
    "list_all (\<lambda>s. mst_returncode s = 0) ss = list_all (\<lambda>v. v = 0) (map mst_returncode ss)" for ss
    by (simp_all add: list_ex_iff list_all_iff)
  have "mr_steps r = [] \<longleftrightarrow> mr_steps r' = []" using eq by (metis map_is_Nil_conv)
  then show ?thesis using assms unfolding multi_result_status_def multi_result_ok_def st eq by (simp add: same_report_def)
qed

text \<open>Where no parallel round can start, the two configurations run alike.\<close>

lemma parallel_flag [simp]:
  "shared_scope (cfg\<lparr>xc_parallel_pe_steps := b\<rparr>) = shared_scope cfg"
  "step_body W (cfg\<lparr>xc_parallel_pe_steps := b\<rparr>) = step_body W cfg"
  "execute_body W (cfg\<lparr>xc_parallel_pe_steps := b\<rparr>) = execute_body W cfg"
  by (simp_all add: shared_scope_def step_body_def execute_body_def fun_eq_iff)

lemma parallel_flag_step [simp]:
  "step_next W (cfg\<lparr>xc_parallel_pe_steps := b\<rparr>) = step_next W cfg"
  "execute W (cfg\<lparr>xc_parallel_pe_steps := b\<rparr>) = execute W cfg"
  by (intro ext; unfold step_next_def execute_def run_on_memory_def step_client_def parallel_flag; rule refl)+

lemma parallel_flag_context [simp]:
  "execute_context W (cfg\<lparr>xc_parallel_pe_steps := b\<rparr>) = execute_context W cfg"
  by (intro ext) (unfold execute_context_def parallel_flag_step, rule refl)

lemma parallel_flag_steps [simp]:
  "serial_steps W (cfg\<lparr>xc_parallel_pe_steps := b\<rparr>) P img lb sch s = serial_steps W cfg P img lb sch s"
  by (induction sch arbitrary: s) (auto split: prod.splits sum.splits outcome.splits option.splits)

lemma serial_loop:
  "\<not> pool \<or> lb \<noteq> None \<Longrightarrow>
   run_loop fuel W cfg P img lb pool m s = run_loop fuel W (cfg\<lparr>xc_parallel_pe_steps := False\<rparr>) P img lb False m s"
proof (induction fuel arbitrary: s)
  case (Suc fuel)
  have "run_round W cfg P img lb pool sch s = run_round W (cfg\<lparr>xc_parallel_pe_steps := False\<rparr>) P img lb False sch s" for sch
    using Suc.prems by (auto simp: run_round_def)
  with Suc.IH [OF Suc.prems] show ?case by (simp split: prod.split sum.split round_end.split)
qed simp

lemma parallel_flag_select:
  "xc_worker_scope (cfg\<lparr>xc_parallel_pe_steps := b\<rparr>) = xc_worker_scope cfg"
  "xc_initial_source (cfg\<lparr>xc_parallel_pe_steps := b\<rparr>) = xc_initial_source cfg"
  "xc_profile (cfg\<lparr>xc_parallel_pe_steps := b\<rparr>) = xc_profile cfg"
  "xc_profile_spec (cfg\<lparr>xc_parallel_pe_steps := b\<rparr>) = xc_profile_spec cfg"
  "xc_stack_policy (cfg\<lparr>xc_parallel_pe_steps := b\<rparr>) = xc_stack_policy cfg"
  "xc_stack_pointer (cfg\<lparr>xc_parallel_pe_steps := b\<rparr>) = xc_stack_pointer cfg"
  "xc_stack_size (cfg\<lparr>xc_parallel_pe_steps := b\<rparr>) = xc_stack_size cfg"
  "xc_stack_gap (cfg\<lparr>xc_parallel_pe_steps := b\<rparr>) = xc_stack_gap cfg"
  "xc_stack_stride (cfg\<lparr>xc_parallel_pe_steps := b\<rparr>) = xc_stack_stride cfg"
  "xc_red_zone (cfg\<lparr>xc_parallel_pe_steps := b\<rparr>) = xc_red_zone cfg"
  by simp_all

lemma parallel_flag_sources:
  "worker_source (cfg\<lparr>xc_parallel_pe_steps := b\<rparr>) = worker_source cfg"
  "shared_worker_source (cfg\<lparr>xc_parallel_pe_steps := b\<rparr>) = shared_worker_source cfg"
  "boot_worker W (cfg\<lparr>xc_parallel_pe_steps := b\<rparr>) = boot_worker W cfg"
  by (intro ext; unfold worker_source_def shared_worker_source_def source_for_def boot_worker_def parallel_flag_select; rule refl)+

lemma parallel_flag_contexts:
  "start_contexts W (cfg\<lparr>xc_parallel_pe_steps := b\<rparr>) l first cs h = start_contexts W cfg l first cs h"
  by (induction cs arbitrary: first h) (simp_all add: parallel_flag_sources split: sum.split prod.split)

lemma parallel_flag_start [simp]:
  "executor_start W (cfg\<lparr>xc_parallel_pe_steps := b\<rparr>) = executor_start W cfg"
  by (intro ext)
     (unfold executor_start_def start_workers_def parallel_flag_select parallel_flag parallel_flag_sources parallel_flag_contexts, rule refl)

lemma run_guards_serially [simp]: "run_guards (serially R) = run_guards R"
  by (intro ext) (simp add: run_guards_def serially_def host_fetch_enabled_def)

text \<open>One attempt from its parts.\<close>

lemma finish_run_returns:
  "\<exists>x. finish_run W l (lr, s) = ((case lr of Inl e \<Rightarrow> Inl e | Inr (Ended t) \<Rightarrow> Inr (Inl (make_result t l True s x))
      | Inr EndedFetch \<Rightarrow> Inr (Inl (make_result ''step_failed'' l False s x)) | Inr EndedFallback \<Rightarrow> Inr (Inr (rs_parallel s))),
      ex_bridge (rs_executor s))"
  using executor_close_returns [of W "rs_executor s"] by (auto simp: finish_run_def Let_def split: sum.split loop_end.split)

definition start_state :: "program_image \<Rightarrow> int \<Rightarrow> ('w, 'b) executor \<Rightarrow> ('w, 'b) run_state" where
  "start_state img pe_count x =
     \<lparr>rs_contexts = initial_contexts img pe_count, rs_steps = [], rs_executor = x, rs_parallel = no_parallel_metrics\<rparr>"

lemma run_attempt_started:
  assumes "run_guards R img pe_count m lb = Inr u"
    and "resolve img (xc_stack_policy (rc_executor R)) (xc_stack_pointer (rc_executor R)) (xc_stack_size (rc_executor R))
      (xc_stack_gap (rc_executor R)) (xc_stack_stride (rc_executor R)) (xc_red_zone (rc_executor R)) pe_count 4096 64 = Inr l"
  shows "run_attempt R W P img pe_count m lb h =
    (case executor_start W (rc_executor R) img (initial_contexts img pe_count) (new_executor h) of
       (Inl e, x) \<Rightarrow> Some (finish_run W l (Inl e, start_state img pe_count x))
     | (Inr _, x) \<Rightarrow> map_option (finish_run W l) (run_loop (nat m) W (rc_executor R) P img lb
                       (xc_parallel_pe_steps (rc_executor R) \<and> pe_count > 1) m (start_state img pe_count x)))"
  unfolding start_state_def using assms by (simp add: run_attempt_def Let_def)

lemma run_attempt_early:
  assumes "run_guards R img pe_count m lb = Inl e \<or> run_guards R img pe_count m lb = Inr u \<and>
     resolve img (xc_stack_policy (rc_executor R)) (xc_stack_pointer (rc_executor R)) (xc_stack_size (rc_executor R))
      (xc_stack_gap (rc_executor R)) (xc_stack_stride (rc_executor R)) (xc_red_zone (rc_executor R)) pe_count 4096 64 = Inl e"
  shows "run_attempt R W P img pe_count m lb h = Some (Inl e, h)"
  using assms by (auto simp: run_attempt_def Let_def)

text \<open>An attempt depends on the bridge only through its settings: it loads the image anew.\<close>

lemma run_attempt_restart:
  assumes "same_settings h k"
  shows "map_option fst (run_attempt R W P img pe_count m lb h) = map_option fst (run_attempt R W P img pe_count m lb k)"
proof -
  let ?c = "rc_executor R" and ?cs = "initial_contexts img pe_count"
  let ?l = "resolve img (xc_stack_policy ?c) (xc_stack_pointer ?c) (xc_stack_size ?c) (xc_stack_gap ?c) (xc_stack_stride ?c) (xc_red_zone ?c) pe_count 4096 64"
  consider e where "run_guards R img pe_count m lb = Inl e \<or> run_guards R img pe_count m lb = Inr () \<and> ?l = Inl e"
    | l where "run_guards R img pe_count m lb = Inr ()" "?l = Inr l"
    by (cases "run_guards R img pe_count m lb"; cases ?l; simp)
  then show ?thesis
  proof cases
    case 1
    show ?thesis by (simp add: run_attempt_early [OF 1])
  next
    case 2
    have fin: "fst (finish_run W l (Inl e, s)) = Inl e" for e s
      using finish_run_returns [of W l "Inl e" s] by auto
    from executor_start_restart [OF assms, of W ?c img ?cs] show ?thesis
      unfolding run_attempt_started [OF 2] by (auto simp: fin)
  qed
qed

lemma initial_distinct: "distinct (map ctx_pe_id (initial_contexts img pe_count))"
  by (simp add: initial_contexts_def PeContext_def distinct_map inj_on_def)

lemma start_state_ok:
  assumes "sim_ex R zero g x x" and "\<forall>c \<in> set (initial_contexts img pe_count). worker_of x (ctx_pe_id c) \<noteq> None"
    and "0 \<le> pi_entry_point img"
  shows "serial_ok (start_state img pe_count x)"
  using assms by (auto simp: serial_ok_def start_state_def sim_ex_def ctx_ok_def initial_contexts_def PeContext_def)

text \<open>A parallel attempt is abandoned, or answers as the serial attempt.\<close>

definition attempt_match :: "'b host_bridge \<Rightarrow> (multi_result + parallel_metrics) res \<Rightarrow> 'b host_bridge \<Rightarrow>
    (multi_result + parallel_metrics) res \<Rightarrow> bool" where
  "attempt_match h q h' q' \<longleftrightarrow> (\<exists>mt. q = Inr (Inr mt)) \<and> same_settings h h'
     \<or> (\<exists>e. q = Inl e \<and> q' = Inl e) \<or> (\<exists>r r'. q = Inr (Inl r) \<and> q' = Inr (Inl r') \<and> same_report r r')"

lemma parallel_attempt:
  assumes cl: "cacheless W" and tp: "tpc_ok W" and fl: "flow_ok P" and h: "plain_bridge h"
    and sc: "\<not> shared_scope (rc_executor R)" and par: "xc_parallel_pe_steps (rc_executor R)" "1 < pe_count"
    and en: "0 \<le> pi_entry_point img" and g: "run_guards R img pe_count m None = Inr ()"
    and st: "executor_start W (rc_executor R) img (initial_contexts img pe_count) (new_executor h) = (Inr u, x)"
    and lp: "run_loop (nat m) W (rc_executor R) P img None True m (start_state img pe_count x) = Some (lr, sp)"
    and ls: "run_loop (nat m) W (rc_executor R) P img None False m (start_state img pe_count x) = Some (lr', ss)"
  shows "attempt_match h (fst (finish_run W l (lr, sp))) (snd (finish_run W l (lr, sp))) (fst (finish_run W l (lr', ss)))"
proof -
  let ?s = "start_state img pe_count x" and ?z = "hb_unmapped_policy h = ''zero''"
  from executor_start_sim [OF h sc initial_distinct st] obtain Rg gm where
    sim: "sim_ex Rg ?z gm x x" and wk: "\<forall>c \<in> set (initial_contexts img pe_count). worker_of x (ctx_pe_id c) \<noteq> None" by blast
  have s: "rs_executor ?s = x" "core ?s = (initial_contexts img pe_count, [])" by (simp_all add: start_state_def core_def)
  have ini: "core_inv (nat pe_count) (core ?s)" "running (core ?s)" using initial_core [of pe_count img] par(2) s(2) by simp_all
  have ok: "serial_ok ?s" by (rule start_state_ok [OF sim wk en])
  have sim': "sim_ex Rg ?z gm (rs_executor ?s) (rs_executor ?s)" using sim s by simp
  from loop_match [OF cl tp fl sc par(1) sim' refl ini ok lp] consider
      (fall) g' where "lr = Inr EndedFallback" "bridge_abs 4096 Rg ?z g' (ex_bridge (rs_executor sp))"
    | (same) t where "lr = Inr (Ended t)" "lr' = Inr (Ended t)" "same_core (core sp) (core ss)"
        "ex_artifact (rs_executor sp) = ex_artifact (rs_executor ss)"
    using ls by auto
  then show ?thesis
  proof cases
    case fall
    with finish_run_returns [of W l lr sp] plain_bridge_settings [OF h fall(2)] show ?thesis by (auto simp: attempt_match_def)
  next
    case same
    with finish_run_returns [of W l lr sp] finish_run_returns [of W l lr' ss] show ?thesis
      by (auto simp: attempt_match_def same_report_def make_result_def same_core_def core_def)
  qed
qed

lemma attempt_match_same: "\<forall>mt. q \<noteq> Inr (Inr mt) \<Longrightarrow> attempt_match h q h' q"
proof (cases q)
  case (Inr y)
  then show "\<forall>mt. q \<noteq> Inr (Inr mt) \<Longrightarrow> ?thesis"
    by (cases y) (auto simp: attempt_match_def same_report_def list_all2_same)
qed (simp add: attempt_match_def)

lemma serial_attempt_reports: "run_attempt (serially R) W P img pe_count m lb h = Some (q, h') \<Longrightarrow> q \<noteq> Inr (Inr mt)"
  using run_attempt_post [of "serially R" W P img pe_count m lb h] by (auto simp: serially_def)

lemma attempts_match:
  assumes cl: "cacheless W" and tp: "tpc_ok W" and fl: "flow_ok P" and h: "plain_bridge h"
    and sc: "\<not> shared_scope (rc_executor R)" and en: "0 \<le> pi_entry_point img"
    and p: "run_attempt R W P img pe_count m lb h = Some (q, h')"
    and s: "run_attempt (serially R) W P img pe_count m lb h = Some (q', h'')"
  shows "attempt_match h q h' q'"
proof -
  let ?c = "rc_executor R" and ?cs = "initial_contexts img pe_count"
  let ?l = "resolve img (xc_stack_policy ?c) (xc_stack_pointer ?c) (xc_stack_size ?c) (xc_stack_gap ?c) (xc_stack_stride ?c) (xc_red_zone ?c) pe_count 4096 64"
  let ?par = "xc_parallel_pe_steps ?c \<and> 1 < pe_count"
  have same: "q = q' \<Longrightarrow> ?thesis" using serial_attempt_reports [OF s] attempt_match_same by blast
  have sx: "rc_executor (serially R) = ?c\<lparr>xc_parallel_pe_steps := False\<rparr>" by (simp add: serially_def)
  consider (early) e where "run_guards R img pe_count m lb = Inl e \<or> run_guards R img pe_count m lb = Inr () \<and> ?l = Inl e"
    | (start) l where "run_guards R img pe_count m lb = Inr ()" "?l = Inr l"
    by (cases "run_guards R img pe_count m lb"; cases ?l; simp)
  then show ?thesis
  proof cases
    case early
    have "run_attempt (serially R) W P img pe_count m lb h = Some (Inl e, h)"
      by (rule run_attempt_early) (use early sx in auto)
    with p s run_attempt_early [OF early, of W P h] show ?thesis by (intro same) simp
  next
    case start
    obtain r x where ex: "executor_start W ?c img ?cs (new_executor h) = (r, x)" by fastforce
    let ?s = "start_state img pe_count x"
    have ap: "run_attempt R W P img pe_count m lb h = (case r of Inl e \<Rightarrow> Some (finish_run W l (Inl e, ?s))
        | Inr _ \<Rightarrow> map_option (finish_run W l) (run_loop (nat m) W ?c P img lb ?par m ?s))"
      unfolding run_attempt_started [OF start] ex by (simp split: sum.split)
    have as: "run_attempt (serially R) W P img pe_count m lb h = (case r of Inl e \<Rightarrow> Some (finish_run W l (Inl e, ?s))
        | Inr _ \<Rightarrow> map_option (finish_run W l) (run_loop (nat m) W ?c P img lb False m ?s))"
      using run_attempt_started [of "serially R" img pe_count m lb "()" l W P h] start ex serial_loop [of False lb "nat m" W ?c P img m ?s]
      by (simp add: sx split: sum.split)
    show ?thesis
    proof (cases "(\<exists>e. r = Inl e) \<or> \<not> ?par \<or> lb \<noteq> None")
      case True
      then have "run_attempt (serially R) W P img pe_count m lb h = run_attempt R W P img pe_count m lb h"
        unfolding ap as using serial_loop [of ?par lb "nat m" W ?c P img m ?s] serial_loop [of False lb "nat m" W ?c P img m ?s]
        by (cases r) auto
      with p s show ?thesis by (intro same) simp
    next
      case False
      then obtain u where r: "r = Inr u" and par: "xc_parallel_pe_steps ?c" "1 < pe_count" and lb: "lb = None" by (cases r) auto
      have "map_option (finish_run W l) (run_loop (nat m) W ?c P img None True m ?s) = Some (q, h')"
        "map_option (finish_run W l) (run_loop (nat m) W ?c P img None False m ?s) = Some (q', h'')"
        using p [unfolded ap] s [unfolded as] r par lb by simp_all
      then obtain lr sp lr' ss where
        lp: "run_loop (nat m) W ?c P img None True m ?s = Some (lr, sp)" "run_loop (nat m) W ?c P img None False m ?s = Some (lr', ss)"
        and fr: "finish_run W l (lr, sp) = (q, h')" "finish_run W l (lr', ss) = (q', h'')" by auto
      from parallel_attempt [OF cl tp fl h sc par en start(1) [unfolded lb] ex [unfolded r] lp, of l] fr show ?thesis by simp
    qed
  qed
qed

section \<open>Properties\<close>

text \<open>
  C1: parallel PE steps do not change what a run reports. For workers without a memory cache, with
  one worker per PE, a run with parallel rounds (and, after a conflict or the failure of a later PE,
  with its serial rerun) and the serial run both return; they raise the same exception, or report
  the same contexts, steps, artifact, layout, termination and status, up to the error text of a
  failing step.
\<close>

theorem parallel_run_matches_serial:
  assumes "cacheless W" and "tpc_ok W" and "flow_ok P" and "plain_bridge h"
    and "\<not> shared_scope (rc_executor R)" and "0 \<le> pi_entry_point img"
  shows "\<exists>a h1 b h2. run_image R W P img pe_count m lb h = Some (a, h1) \<and> run_image (serially R) W P img pe_count m lb h = Some (b, h2)
    \<and> same_answer a b \<and> (\<forall>r r'. a = Inr r \<longrightarrow> b = Inr r' \<longrightarrow> multi_result_status r = multi_result_status r')"
proof -
  let ?run = "\<lambda>R. run_attempt R W P img pe_count m lb"
  obtain q h1 where p: "?run R h = Some (q, h1)" using run_attempt_post by blast
  obtain q' h2 where s: "?run (serially R) h = Some (q', h2)" using run_attempt_post by blast
  from serial_attempt_reports [OF s] consider e where "q' = Inl e" | r' where "q' = Inr (Inl r')" by (metis sum.exhaust)
  then have sr: "\<exists>b. run_image (serially R) W P img pe_count m lb h = Some (b, h2)
      \<and> (case q' of Inl e \<Rightarrow> b = Inl e | Inr (Inl r') \<Rightarrow> b = Inr r' | Inr (Inr mt) \<Rightarrow> False)"
    by cases (auto simp: run_image_def s)
  from attempts_match [OF assms p s] consider (again) mt where "q = Inr (Inr mt)" "same_settings h h1"
    | (raised) e where "q = Inl e" "q' = Inl e" | (report) r r' where "q = Inr (Inl r)" "q' = Inr (Inl r')" "same_report r r'"
    by (auto simp: attempt_match_def)
  then show ?thesis
  proof cases
    case again
    from run_attempt_restart [OF again(2), of "serially R" W P img pe_count m lb] s obtain h3 where
      "?run (serially R) h1 = Some (q', h3)" by (cases "?run (serially R) h1") auto
    with again(1) p sr show ?thesis
      by (cases q') (auto simp: run_image_def same_answer_def same_report_def list_all2_same multi_result_status_def multi_result_ok_def
          split: sum.splits)
  next
    case raised
    with p sr show ?thesis by (auto simp: run_image_def same_answer_def)
  next
    case report
    with p sr same_report_status [OF report(3)] show ?thesis by (auto simp: run_image_def same_answer_def)
  qed
qed

text \<open>
  A demonstration: each of two PEs increments the same byte. The parallel attempt sees that PE 1 read
  what PE 0 wrote and is abandoned; the serial rerun gives the report of the serial run.
\<close>

definition counting_worker :: "nat worker_ops" where
  "counting_worker = demo_ops (\<lambda>n. MRead 64 (\<lambda>v. MWrite 64 (v + 1) (MDone (Inr ok_result, Suc n)))) (cret ())"

definition counting_run :: "bool \<Rightarrow> (multi_result res \<times> unit host_bridge) option" where
  "counting_run par = run_image (demo_config par) counting_worker (default_policies []) low_image 2 8 None (empty_bridge ''zero'')"

lemma counting_run_falls_back:
  "map_option (\<lambda>r. (multi_result_status r, map mst_pe_id (mr_steps r), map_option pmt_fallback (mr_parallel r))) (demo_result (counting_run True))
     = Some (''passed'', [0, 1], Some (Some (MemoryConflict (Some 0) (Some 1) [64])))"
  by code_simp

lemma counting_worker_ok: "cacheless counting_worker" "tpc_ok counting_worker"
  by (simp_all add: cacheless_def tpc_ok_def counting_worker_def demo_ops_def ok_result_def)

lemma empty_bridge_plain: "plain_bridge (empty_bridge ''zero'')"
  using empty_bridge_wf [of "''zero''"] by (simp add: plain_bridge_def) (simp add: empty_bridge_def)

theorem parallel_run_matches_serial_witness:
  "\<exists>r h1 r' h2. counting_run True = Some (Inr r, h1) \<and> counting_run False = Some (Inr r', h2) \<and> same_report r r'
     \<and> multi_result_status r' = ''passed''"
proof -
  from counting_run_falls_back obtain r where r: "demo_result (counting_run True) = Some r" "multi_result_status r = ''passed''" by auto
  then obtain h where h: "counting_run True = Some (Inr r, h)" using demo_resultD by blast
  have cfg: "\<not> shared_scope (rc_executor (demo_config True))" "serially (demo_config True) = demo_config False"
    by (simp_all add: shared_scope_def demo_config_def serially_def)
  have en: "0 \<le> pi_entry_point low_image" by (simp add: low_image_def)
  from parallel_run_matches_serial [OF counting_worker_ok default_flow_ok empty_bridge_plain cfg(1) en, of "[]" 2 8 None]
  show ?thesis unfolding cfg(2) counting_run_def [symmetric] using h r(2) by (auto simp: same_answer_def)
qed

text \<open>
  The hypothesis on the cache is needed. In the first round PE 1 reads a byte, in the second PE 0
  writes it and PE 1 reads it again. A worker that keeps what it read answers the second read
  itself: the view of PE 1 does not see it, no conflict is found, and PE 1 executes with the
  old value. The serial run clears the cache after the write.
\<close>

definition caching_step :: "(int \<times> nat \<times> int option, auto_step_result) wmeth" where
  "caching_step st =
     (case st of (pe, n, cached) \<Rightarrow>
        if pe = 0 then if n = 0 then MDone (Inr ok_result, (pe, Suc n, cached)) else MWrite 64 7 (MDone (Inr ok_result, (pe, Suc n, cached)))
        else (case cached of
          Some v \<Rightarrow> MDone (Inr (ok_result\<lparr>as_instruction := v\<rparr>), (pe, Suc n, cached))
        | None \<Rightarrow> MRead 64 (\<lambda>v. MDone (Inr (ok_result\<lparr>as_instruction := v\<rparr>), (pe, Suc n, Some v)))))"

definition caching_worker :: "(int \<times> nat \<times> int option) worker_ops" where
  "caching_worker = \<lparr>wo_new = (0, 0, None), wo_ensure_built = Inr, wo_start = (\<lambda>src spec. cret ()), wo_stop = (\<lambda>w. w),
     wo_ping = cret (), wo_clear_memory_cache = (\<lambda>(pe, n, cached). cret () (pe, n, None)), wo_step = (\<lambda>i n. cret 0),
     wo_step_auto = caching_step, wo_decode_length = (\<lambda>i. cret 16), wo_peek_tpc = cret 0, wo_peek_fault = cret 0,
     wo_select_pe = Some (\<lambda>pe (_, n, cached). cret () (pe, n, cached)), wo_set_tpc = None,
     wo_peek_terminal_pending = Some (\<lambda>(pe, n, cached). cret (2 \<le> n) (pe, n, cached)),
     wo_peek_block_collective = None, wo_stats = None, wo_identity = (\<lambda>w. None)\<rparr>"

definition caching_run :: "bool \<Rightarrow> (int \<times> int) list option" where
  "caching_run par = map_option (\<lambda>r. map (\<lambda>s. (mst_pe_id s, mst_instruction s)) (mr_steps r))
     (demo_result (run_image (demo_config par) caching_worker (default_policies []) low_image 2 8 None (empty_bridge ''zero'')))"

lemma cached_read_changes_run:
  "caching_run True = Some [(0, 1), (1, 0), (0, 1), (1, 0)]" "caching_run False = Some [(0, 1), (1, 0), (0, 1), (1, 7)]"
  by code_simp+

end
