(* ===== verification/Elf_Loader.thy ===== *)
theory Elf_Loader
  imports Program_Image Py_Text
begin

text \<open>
  The ELF64 loader of \<open>asl_model/runtime/elf.py\<close>: the little-endian record layouts, the PT_LOAD
  segments, the symbol tables and the relocation to a requested base. The file content is the
  value of \<open>path.read_bytes()\<close>, a parameter of the loader.

  A symbol name is the UTF-8 encoding of the text that \<open>decode("utf-8", "replace")\<close> returns, one
  character per byte.
\<close>

section \<open>Structures\<close>

text \<open>\<open>struct.Struct("<...").unpack_from(data, offset)\<close> for unsigned fields of the given sizes.\<close>

fun unpack_le :: "nat list \<Rightarrow> byte list \<Rightarrow> int list" where
  "unpack_le [] bs = []"
| "unpack_le (n # ns) bs = le_int (take n bs) # unpack_le ns (drop n bs)"

fun pack_le :: "nat list \<Rightarrow> int list \<Rightarrow> byte list" where
  "pack_le (n # ns) (v # vs) = le_bytes n v @ pack_le ns vs"
| "pack_le _ _ = []"

definition unpack_from :: "nat list \<Rightarrow> byte list \<Rightarrow> int \<Rightarrow> int list res" where
  "unpack_from fmt bs offset =
     (if offset + int (sum_list fmt) > int (length bs) then Inl (StructError ''unpack_from requires a larger buffer'')
      else Inr (unpack_le fmt (drop (nat offset) bs)))"

definition ELF_HEADER_SIZE :: nat where "ELF_HEADER_SIZE = 64"
definition PROGRAM_HEADER :: "nat list" where "PROGRAM_HEADER = [4, 4, 8, 8, 8, 8, 8, 8]"
definition SECTION_HEADER :: "nat list" where "SECTION_HEADER = [4, 4, 8, 8, 8, 8, 4, 4, 8, 8]"
definition SYMBOL :: "nat list" where "SYMBOL = [4, 1, 1, 2, 8, 8]"
definition PT_LOAD :: int where "PT_LOAD = 1"

text \<open>The header after its 16 identification bytes.\<close>

definition HEADER_FIELDS :: "nat list" where "HEADER_FIELDS = [2, 2, 4, 8, 8, 8, 4, 2, 2, 2, 2, 2, 2]"

record elf_header =
  eh_ident :: "byte list"
  eh_type :: int
  eh_machine :: int
  eh_version :: int
  eh_entry :: int
  eh_phoff :: int
  eh_shoff :: int
  eh_flags :: int
  eh_ehsize :: int
  eh_phentsize :: int
  eh_phnum :: int
  eh_shentsize :: int
  eh_shnum :: int
  eh_shstrndx :: int

text \<open>The record that the first 64 bytes of a file hold, and \<open>ELF_HEADER.unpack_from(data)\<close>.\<close>

definition header_record :: "byte list \<Rightarrow> elf_header" where
  "header_record bs =
     (let f = unpack_le HEADER_FIELDS (drop 16 bs) in
      \<lparr>eh_ident = take 16 bs, eh_type = f ! 0, eh_machine = f ! 1, eh_version = f ! 2, eh_entry = f ! 3,
       eh_phoff = f ! 4, eh_shoff = f ! 5, eh_flags = f ! 6, eh_ehsize = f ! 7, eh_phentsize = f ! 8,
       eh_phnum = f ! 9, eh_shentsize = f ! 10, eh_shnum = f ! 11, eh_shstrndx = f ! 12\<rparr>)"

definition unpack_header :: "byte list \<Rightarrow> elf_header res" where
  "unpack_header bs =
     (if length bs < 16 + sum_list HEADER_FIELDS then Inl (StructError ''unpack_from requires a larger buffer'')
      else Inr (header_record bs))"

section \<open>Text\<close>

text \<open>
  UTF-8: the length of the longest prefix that is a character (\<open>True\<close>), or that begins one and
  cannot be continued (\<open>False\<close>), which is what the \<open>replace\<close> handler replaces as a whole.
\<close>

definition continuation :: "nat \<Rightarrow> nat \<Rightarrow> byte list \<Rightarrow> bool" where
  "continuation lo hi bs = (case bs of [] \<Rightarrow> False | b # _ \<Rightarrow> lo \<le> unat b \<and> unat b \<le> hi)"

text \<open>How many of the remaining continuation bytes follow, and whether all do.\<close>

fun continues :: "(nat \<times> nat) list \<Rightarrow> byte list \<Rightarrow> bool \<times> nat" where
  "continues [] bs = (True, 0)"
| "continues ((lo, hi) # rs) bs =
     (if continuation lo hi bs then (case continues rs (tl bs) of (ok, n) \<Rightarrow> (ok, Suc n)) else (False, 0))"

definition continuations :: "nat \<Rightarrow> (nat \<times> nat) list option" where
  "continuations n =
     (if n < 128 then Some []
      else if 194 \<le> n \<and> n \<le> 223 then Some [(128, 191)]
      else if n = 224 then Some [(160, 191), (128, 191)]
      else if n = 237 then Some [(128, 159), (128, 191)]
      else if 225 \<le> n \<and> n \<le> 239 then Some [(128, 191), (128, 191)]
      else if n = 240 then Some [(144, 191), (128, 191), (128, 191)]
      else if 241 \<le> n \<and> n \<le> 243 then Some [(128, 191), (128, 191), (128, 191)]
      else if n = 244 then Some [(128, 143), (128, 191), (128, 191)]
      else None)"

definition utf8_step :: "byte \<Rightarrow> byte list \<Rightarrow> bool \<times> nat" where
  "utf8_step b bs = (case continuations (unat b) of None \<Rightarrow> (False, 0) | Some rs \<Rightarrow> continues rs bs)"

definition byte_char :: "byte \<Rightarrow> char" where "byte_char b = char_of (unat b)"

definition replacement_character :: string where
  "replacement_character = map char_of [0xEF, 0xBF, 0xBD :: nat]"

function decode_replace :: "byte list \<Rightarrow> string" where
  "decode_replace [] = []"
| "decode_replace (b # bs) =
     (case utf8_step b bs of
        (True, n) \<Rightarrow> byte_char b # map byte_char (take n bs) @ decode_replace (drop n bs)
      | (False, n) \<Rightarrow> replacement_character @ decode_replace (drop n bs))"
  by pat_completeness auto
termination
  by (relation "measure length") (auto simp: less_Suc_eq_le)

function utf8_valid :: "byte list \<Rightarrow> bool" where
  "utf8_valid [] = True"
| "utf8_valid (b # bs) = (case utf8_step b bs of (True, n) \<Rightarrow> utf8_valid (drop n bs) | (False, n) \<Rightarrow> False)"
  by pat_completeness auto
termination
  by (relation "measure length") (auto simp: less_Suc_eq_le)

text \<open>\<open>bs.find(b"\<bsol>0", start)\<close>: the index of the first zero byte at or after \<open>start\<close>, or -1.\<close>

definition find_zero :: "byte list \<Rightarrow> int \<Rightarrow> int" where
  "find_zero bs start =
     (let tail = drop (nat start) bs; n = length (takeWhile (\<lambda>b. b \<noteq> 0) tail)
      in if n < length tail then start + int n else - 1)"

text \<open>\<open>pat in bs\<close>\<close>

fun bytes_contain :: "byte list \<Rightarrow> byte list \<Rightarrow> bool" where
  "bytes_contain pat [] = (pat = [])"
| "bytes_contain pat (b # bs) = (take (length pat) (b # bs) = pat \<or> bytes_contain pat bs)"

definition ascii_bytes :: "string \<Rightarrow> byte list" where
  "ascii_bytes s = map (\<lambda>c. of_nat (of_char c)) s"

section \<open>Symbols\<close>

text \<open>\<open>None\<close> is the early return of an empty dictionary for a truncated table.\<close>

fun read_sections :: "byte list \<Rightarrow> int \<Rightarrow> int \<Rightarrow> nat list \<Rightarrow> int list list option res" where
  "read_sections bs shoff shentsize [] = Inr (Some [])"
| "read_sections bs shoff shentsize (index # rest) =
     (let offset = shoff + int index * shentsize in
      if offset + shentsize > int (length bs) then Inr None
      else rbind (unpack_from SECTION_HEADER bs offset) (\<lambda>section.
           rbind (read_sections bs shoff shentsize rest) (\<lambda>sections. Inr (map_option ((#) section) sections))))"

text \<open>One entry of a symbol table: \<open>symbols.setdefault(...)\<close> for a named, non-zero symbol.\<close>

definition add_symbol :: "byte list \<Rightarrow> int list \<Rightarrow> (string, int) dict \<Rightarrow> (string, int) dict" where
  "add_symbol strings entry symbols =
     (let name = entry ! 0; v = entry ! 4; end = find_zero strings name in
      if name = 0 \<or> v = 0 \<or> name \<ge> int (length strings) then symbols
      else if end > name then
        let key = decode_replace (py_slice strings name end)
        in if map_of symbols key = None then symbols @ [(key, v)] else symbols
      else symbols)"

text \<open>\<open>for position in range(0, size, entsize)\<close>\<close>

function table_symbols ::
  "byte list \<Rightarrow> byte list \<Rightarrow> int \<Rightarrow> int \<Rightarrow> int \<Rightarrow> int \<Rightarrow> (string, int) dict \<Rightarrow> (string, int) dict res" where
  "table_symbols bs strings offset sz entsize position symbols =
     (if entsize \<le> 0 then Inl (ValueError ''range() arg 3 must not be zero'')
      else if position \<ge> sz \<or> offset + position + entsize > int (length bs) then Inr symbols
      else rbind (unpack_from SYMBOL bs (offset + position)) (\<lambda>entry.
             table_symbols bs strings offset sz entsize (position + entsize) (add_symbol strings entry symbols)))"
  by pat_completeness auto
termination
  by (relation "measure (\<lambda>(bs, strings, offset, sz, entsize, position, symbols). nat (sz - position))") auto

declare table_symbols.simps [simp del]

text \<open>\<open>sections[link]\<close>, for an unsigned \<open>link\<close>.\<close>

definition section_item :: "int list list \<Rightarrow> int \<Rightarrow> int list res" where
  "section_item sections link = (if nat link < length sections then Inr (sections ! nat link) else Inl IndexError)"

definition section_symbols ::
  "byte list \<Rightarrow> int list list \<Rightarrow> int list \<Rightarrow> (string, int) dict \<Rightarrow> (string, int) dict res" where
  "section_symbols bs sections s symbols =
     (let sh_type = s ! 1; offset = s ! 4; sz = s ! 5; link = s ! 6; entsize = s ! 9 in
      if sh_type \<notin> {2, 11} \<or> entsize \<noteq> int (sum_list SYMBOL) \<or> link \<ge> int (length sections) then Inr symbols
      else
        rbind (section_item sections link) (\<lambda>linked.
          let strings = py_slice bs (linked ! 4) (linked ! 4 + linked ! 5)
          in table_symbols bs strings offset sz entsize 0 symbols))"

definition elf_symbols :: "byte list \<Rightarrow> int \<Rightarrow> int \<Rightarrow> int \<Rightarrow> (string, int) dict res" where
  "elf_symbols bs shoff shentsize shnum =
     (if shoff = 0 \<or> shentsize \<noteq> int (sum_list SECTION_HEADER) then Inr []
      else rbind (read_sections bs shoff shentsize [0..<nat shnum]) (\<lambda>table.
             case table of
               None \<Rightarrow> Inr []
             | Some sections \<Rightarrow> rfold (section_symbols bs sections) sections []))"

section \<open>Segments\<close>

definition segment_permissions :: "int \<Rightarrow> string" where
  "segment_permissions flags =
     (let p = (if flags AND 4 \<noteq> 0 then ''r'' else []) @ (if flags AND 2 \<noteq> 0 then ''w'' else [])
              @ (if flags AND 1 \<noteq> 0 then ''x'' else [])
      in if p = [] then ''r'' else p)"

text \<open>One program header: \<open>None\<close> when it is not a PT_LOAD.\<close>

definition load_segment :: "byte list \<Rightarrow> int \<Rightarrow> int \<Rightarrow> nat \<Rightarrow> program_segment option res" where
  "load_segment bs phoff phentsize index =
     (let offset = phoff + int index * phentsize in
      if offset + phentsize > int (length bs) then
        Inl (ElfFormatError ''ELF program header table is truncated'')
      else rbind (unpack_from PROGRAM_HEADER bs offset) (\<lambda>f.
        let p_type = f ! 0; flags = f ! 1; file_offset = f ! 2; address = f ! 3;
            file_size = f ! 5; memory_size = f ! 6; alignment = f ! 7 in
        if p_type \<noteq> PT_LOAD then Inr None
        else if file_size > memory_size \<or> file_offset + file_size > int (length bs) then
          Inl (ElfFormatError ''invalid PT_LOAD segment'')
        else rbind (ProgramSegment address (py_slice bs file_offset (file_offset + file_size)) memory_size
                      (segment_permissions flags) (if alignment = 0 then 1 else alignment)
                      (''PT_LOAD['' @ py_dec (int index) @ '']''))
               (\<lambda>s. Inr (Some s))))"

definition relocate_segment :: "int \<Rightarrow> program_segment \<Rightarrow> program_segment res" where
  "relocate_segment delta s =
     ProgramSegment (ps_address s + delta) (ps_data s) (ps_memory_size s) (ps_permissions s)
       (ps_alignment s) (ps_name s)"

section \<open>Loading\<close>

definition some_values :: "'a option list \<Rightarrow> 'a list" where
  "some_values xs = List.map_filter (\<lambda>x. x) xs"

definition min_address :: "program_segment list \<Rightarrow> int" where
  "min_address ss = Min (set (map ps_address ss))"

definition note_status :: "byte list \<Rightarrow> string" where
  "note_status bs = (if bytes_contain (ascii_bytes ''.note.pto.isa'') bs then ''present-unverified'' else ''not-provided'')"

definition elf_image ::
  "byte list \<Rightarrow> string \<Rightarrow> elf_header \<Rightarrow> int option \<Rightarrow> program_segment list \<Rightarrow> program_image res" where
  "elf_image bs path h requested_base segments =
     rbind (elf_symbols bs (eh_shoff h) (eh_shentsize h) (eh_shnum h)) (\<lambda>symbols.
      let delta = (case requested_base of None \<Rightarrow> 0 | Some base \<Rightarrow> base - min_address segments) in
      rbind (if requested_base = None then Inr segments else rmap (relocate_segment delta) segments) (\<lambda>segs.
        ProgramImage (eh_entry h + delta) segs None (map (\<lambda>(nm, v). (nm, v + delta)) symbols)
          [(''elf_type'', PInt (eh_type h)), (''machine'', PInt (eh_machine h)), (''path'', PStr path),
           (''relocation_delta'', PInt delta), (''pto_isa_note_status'', PStr (note_status bs))] ''elf64''))"

definition elf_load :: "(string \<Rightarrow> byte list res) \<Rightarrow> elf_load_request \<Rightarrow> program_image res" where
  "elf_load read_bytes rq =
     (case el_path rq of
        None \<Rightarrow> Inl (ElfFormatError ''the demo ELF loader requires a filesystem path'')
      | Some path \<Rightarrow>
          rbind (read_bytes path) (\<lambda>bs.
          if length bs < ELF_HEADER_SIZE then Inl (ElfFormatError ''ELF is truncated'')
          else rbind (unpack_header bs) (\<lambda>h.
          if take 4 (eh_ident h) \<noteq> [0x7F, 0x45, 0x4C, 0x46] \<or> eh_ident h ! 4 \<noteq> 2 \<or> eh_ident h ! 5 \<noteq> 1 then
            Inl (ElfFormatError ''only little-endian ELF64 files are supported'')
          else if (case el_expected_machine rq of None \<Rightarrow> False | Some m \<Rightarrow> eh_machine h \<noteq> m) then
            Inl (ElfFormatError ''ELF machine mismatch'')
          else if eh_ehsize h \<noteq> 64 \<or> eh_phentsize h \<noteq> 56 then
            Inl (ElfFormatError ''unsupported ELF header/program-header size'')
          else rbind (rmap (load_segment bs (eh_phoff h) (eh_phentsize h)) [0..<nat (eh_phnum h)]) (\<lambda>ss.
            let segments = some_values ss in
            if segments = [] then Inl (ElfFormatError ''ELF contains no PT_LOAD segments'')
            else elf_image bs path h (el_requested_base rq) segments))))"

section \<open>Encoding\<close>

text \<open>
  The reference encoder that the loader is compared with: an ELF64 file with one PT_LOAD header
  per segment after the file header, and the segment contents after the program headers.
\<close>

definition encode_flags :: "string \<Rightarrow> int" where
  "encode_flags p = (if CHR ''r'' \<in> set p then 4 else 0) + (if CHR ''w'' \<in> set p then 2 else 0)
                    + (if CHR ''x'' \<in> set p then 1 else 0)"

definition file_offset_of :: "program_segment list \<Rightarrow> nat \<Rightarrow> int" where
  "file_offset_of ss i = 64 + 56 * int (length ss) + int (sum_list (map (\<lambda>s. length (ps_data s)) (take i ss)))"

definition encode_program_header :: "program_segment list \<Rightarrow> nat \<Rightarrow> byte list" where
  "encode_program_header ss i =
     (let s = ss ! i in
      pack_le PROGRAM_HEADER [1, encode_flags (ps_permissions s), file_offset_of ss i, ps_address s, ps_address s,
        int (length (ps_data s)), ps_memory_size s, ps_alignment s])"

definition encode_elf :: "int \<Rightarrow> int \<Rightarrow> int \<Rightarrow> program_segment list \<Rightarrow> byte list" where
  "encode_elf elf_type machine entry ss =
     [0x7F, 0x45, 0x4C, 0x46, 2, 1, 1] @ replicate 9 0
     @ pack_le HEADER_FIELDS [elf_type, machine, 1, entry, 64, 0, 0, 64, 56, int (length ss), 64, 0, 0]
     @ concat (map (encode_program_header ss) [0..<length ss])
     @ concat (map ps_data ss)"

text \<open>What a file header can hold: the widths of the fields, and permissions in the loader's order.\<close>

definition encodable :: "program_segment list \<Rightarrow> nat \<Rightarrow> bool" where
  "encodable ss i \<longleftrightarrow>
     (let s = ss ! i in
      ps_address s < 2 ^ 64 \<and> ps_memory_size s < 2 ^ 64 \<and> ps_alignment s < 2 ^ 64
      \<and> ps_permissions s \<in> {''r'', ''w'', ''x'', ''rw'', ''rx'', ''wx'', ''rwx''}
      \<and> ps_name s = ''PT_LOAD['' @ py_dec (int i) @ '']'')"

section \<open>Lemmas\<close>

lemma length_unpack_le [simp]: "length (unpack_le ns bs) = length ns"
  by (induction ns arbitrary: bs) auto

lemma length_pack_le: "length vs = length ns \<Longrightarrow> length (pack_le ns vs) = sum_list ns"
  by (induction ns vs rule: pack_le.induct) auto

lemma unpack_pack_le:
  "list_all2 (\<lambda>n v. 0 \<le> v \<and> v < 256 ^ n) ns vs \<Longrightarrow> unpack_le ns (pack_le ns vs @ rest) = vs"
  by (induction ns vs rule: list_all2_induct) (simp_all add: le_int_of_fitting)

lemma unpack_le_bounds:
  "i < length ns \<Longrightarrow> 0 \<le> unpack_le ns bs ! i \<and> unpack_le ns bs ! i < 256 ^ (ns ! i)"
proof (induction ns arbitrary: bs i)
  case (Cons n ns)
  show ?case
  proof (cases i)
    case 0
    have "le_int (take n bs) < 256 ^ length (take n bs)" by (rule le_int_less)
    also have "(256 :: int) ^ length (take n bs) \<le> 256 ^ n" by (rule power_increasing) simp_all
    finally show ?thesis using 0 by simp
  next
    case (Suc j)
    with Cons show ?thesis by simp
  qed
qed simp

lemma PROGRAM_HEADER_size [simp]: "sum_list PROGRAM_HEADER = 56" "length PROGRAM_HEADER = 8"
  by (simp_all add: PROGRAM_HEADER_def)

lemma unpack_from_Inr: "offset + 56 \<le> int (length bs) \<Longrightarrow>
    unpack_from PROGRAM_HEADER bs offset = Inr (unpack_le PROGRAM_HEADER (drop (nat offset) bs))"
  by (simp add: unpack_from_def)

text \<open>Within the file, unpacking gives the fields.\<close>

lemma unpack_header_Inr [simp]: "unpack_header bs = Inr h \<longleftrightarrow> h = header_record bs \<and> 64 \<le> length bs"
  by (auto simp: unpack_header_def HEADER_FIELDS_def)

lemma unpack_header_ok: "64 \<le> length bs \<Longrightarrow> unpack_header bs = Inr (header_record bs)"
  by simp

lemma unpack_from_within:
  "offset + int (sum_list fmt) \<le> int (length bs) \<Longrightarrow> unpack_from fmt bs offset = Inr (unpack_le fmt (drop (nat offset) bs))"
  by (simp add: unpack_from_def)

lemma SYMBOL_size [simp]: "sum_list SYMBOL = 24"
  by (simp add: SYMBOL_def)

lemma SECTION_HEADER_size [simp]: "sum_list SECTION_HEADER = 64" "length SECTION_HEADER = 10"
  by (simp_all add: SECTION_HEADER_def)

text \<open>The guards keep every read of the symbol tables inside the file and the section table.\<close>

lemma read_sections_total:
  "\<exists>t. read_sections bs shoff 64 ks = Inr t \<and> (\<forall>ss. t = Some ss \<longrightarrow> (\<forall>s \<in> set ss. 0 \<le> s ! 6))"
proof (induction ks)
  case (Cons k ks)
  have "0 \<le> unpack_le SECTION_HEADER (drop n bs) ! 6" for n by (simp add: unpack_le_bounds)
  with Cons show ?case by (auto simp: Let_def unpack_from_within)
qed simp

lemma table_symbols_total: "\<exists>d. table_symbols bs strings offset sz 24 position symbols = Inr d"
proof (induction bs strings offset sz "24 :: int" position symbols rule: table_symbols.induct)
  case (1 bs strings offset sz position symbols)
  then show ?case
    by (subst table_symbols.simps) (auto simp: unpack_from_within)
qed

lemma section_symbols_total: "0 \<le> s ! 6 \<Longrightarrow> \<exists>d. section_symbols bs sections s symbols = Inr d"
  by (auto simp: section_symbols_def section_item_def Let_def table_symbols_total)

lemma rfold_all_Inr: "\<forall>x \<in> set xs. \<forall>a. \<exists>b. f x a = Inr b \<Longrightarrow> \<exists>b. rfold f xs a = Inr b"
proof (induction xs arbitrary: a)
  case (Cons x xs)
  then obtain b where "f x a = Inr b" by fastforce
  with Cons show ?case by simp
qed simp

lemma elf_symbols_total: "\<exists>d. elf_symbols bs shoff shentsize shnum = Inr d"
proof (cases "shoff = 0 \<or> shentsize \<noteq> 64")
  case False
  obtain t where "read_sections bs shoff 64 [0..<nat shnum] = Inr t" "\<forall>ss. t = Some ss \<longrightarrow> (\<forall>s \<in> set ss. 0 \<le> s ! 6)"
    using read_sections_total by blast
  with False show ?thesis
    by (cases t) (auto simp: elf_symbols_def intro!: rfold_all_Inr section_symbols_total)
qed (auto simp: elf_symbols_def)

text \<open>The exceptions of the loader.\<close>

definition loader_error :: "py_error \<Rightarrow> bool" where
  "loader_error e \<longleftrightarrow> (\<exists>m. e = ElfFormatError m) \<or> (\<exists>m. e = ValueError m)"

lemma loader_error_simps [simp]: "loader_error (ElfFormatError m)" "loader_error (ValueError m)"
  by (simp_all add: loader_error_def)

lemma ProgramSegment_error: "ProgramSegment a d n p al nm = Inl e \<Longrightarrow> loader_error e"
  by (auto simp: ProgramSegment_def simp del: list_ex_iff split: if_splits)

lemma ProgramImage_error: "ProgramImage en ss sp sy md f = Inl e \<Longrightarrow> loader_error e"
  by (auto simp: ProgramImage_def split: if_splits)

lemma load_segment_error: "load_segment bs phoff 56 i = Inl e \<Longrightarrow> loader_error e"
  by (auto simp: load_segment_def Let_def unpack_from_Inr res_simps split: if_splits dest: ProgramSegment_error)

lemma rmap_error: "rmap f xs = Inl e \<Longrightarrow> \<exists>x \<in> set xs. f x = Inl e"
  by (induction xs) (auto simp: res_simps)

lemma relocate_error: "rmap (relocate_segment d) ss = Inl e \<Longrightarrow> loader_error e"
  by (auto simp: relocate_segment_def dest!: rmap_error ProgramSegment_error)

lemma elf_image_error: "elf_image bs path h base ss = Inl e \<Longrightarrow> loader_error e"
  using elf_symbols_total [of bs "eh_shoff h" "eh_shentsize h" "eh_shnum h"]
  by (auto simp: elf_image_def Let_def res_simps split: if_splits dest: ProgramImage_error relocate_error)

text \<open>A loaded segment is the slice of the file that its header names.\<close>

lemma load_segment_Some:
  assumes "load_segment bs phoff 56 i = Inr (Some s)"
  shows "segment_ok s"
    and "\<exists>o'. 0 \<le> o' \<and> o' + int (length (ps_data s)) \<le> int (length bs)
           \<and> ps_data s = py_slice bs o' (o' + int (length (ps_data s)))"
proof -
  let ?f = "unpack_le PROGRAM_HEADER (drop (nat (phoff + int i * 56)) bs)"
  from assms have f: "?f ! 5 \<le> ?f ! 6" "?f ! 2 + ?f ! 5 \<le> int (length bs)" and
    s: "ProgramSegment (?f ! 3) (py_slice bs (?f ! 2) (?f ! 2 + ?f ! 5)) (?f ! 6) (segment_permissions (?f ! 1))
          (if ?f ! 7 = 0 then 1 else ?f ! 7) (''PT_LOAD['' @ py_dec (int i) @ '']'') = Inr s"
    by (auto simp: load_segment_def Let_def unpack_from_Inr res_simps split: if_splits)
  show "segment_ok s" by (rule ProgramSegment_segment_ok(1) [OF s])
  have b: "0 \<le> ?f ! 2" "0 \<le> ?f ! 5" by (simp_all add: unpack_le_bounds)
  have d: "ps_data s = py_slice bs (?f ! 2) (?f ! 2 + ?f ! 5)" using ProgramSegment_segment_ok(2) [OF s] by simp
  have "int (length (ps_data s)) = ?f ! 5" unfolding d using b f(2) by (subst length_py_slice) simp_all
  with d b f(2) show "\<exists>o'. 0 \<le> o' \<and> o' + int (length (ps_data s)) \<le> int (length bs)
           \<and> ps_data s = py_slice bs o' (o' + int (length (ps_data s)))" by (intro exI [of _ "?f ! 2"]) simp
qed

lemma set_some_values: "x \<in> set (some_values xs) \<longleftrightarrow> Some x \<in> set xs"
  by (force simp: some_values_def List.map_filter_def)

lemma relocate_segment_Inr:
  assumes "relocate_segment d s = Inr t"
  shows "t = s\<lparr>ps_address := ps_address s + d\<rparr>" and "segment_ok t"
  using ProgramSegment_segment_ok [OF assms [unfolded relocate_segment_def]] by simp_all

lemma relocate_segments:
  "rmap (relocate_segment d) ss = Inr ts \<Longrightarrow> ts = map (\<lambda>s. s\<lparr>ps_address := ps_address s + d\<rparr>) ss"
  by (auto simp: rmap_Inr_iff list_all2_conv_all_nth dest!: relocate_segment_Inr(1) intro!: nth_equalityI)

lemma min_address_shift:
  "ss \<noteq> [] \<Longrightarrow> min_address (map (\<lambda>s. s\<lparr>ps_address := ps_address s + d\<rparr>) ss) = min_address ss + d"
  by (simp add: min_address_def image_image Min_add_commute)


definition shift_segment :: "int \<Rightarrow> program_segment \<Rightarrow> program_segment" where
  "shift_segment d s = s\<lparr>ps_address := ps_address s + d\<rparr>"

lemma shift_segment_0 [simp]: "shift_segment 0 = id"
  by (auto simp: shift_segment_def fun_eq_iff)

definition load_delta :: "int option \<Rightarrow> program_segment list \<Rightarrow> int" where
  "load_delta base ss = (case base of None \<Rightarrow> 0 | Some b \<Rightarrow> b - min_address ss)"

lemma elf_image_Inr:
  assumes "elf_image bs path h base ss = Inr i" and "\<forall>s \<in> set ss. segment_ok s"
  shows "image_ok i" and "pi_segments i = map (shift_segment (load_delta base ss)) ss"
    and "pi_entry_point i = eh_entry h + load_delta base ss"
    and "map_of (pi_metadata i) ''machine'' = Some (PInt (eh_machine h))"
proof -
  let ?d = "load_delta base ss"
  from assms(1) obtain segs sy where segs: "(if base = None then Inr ss else rmap (relocate_segment ?d) ss) = Inr segs" and
    i: "ProgramImage (eh_entry h + ?d) segs None
          (map (\<lambda>(nm, v). (nm, v + ?d)) sy)
          [(''elf_type'', PInt (eh_type h)), (''machine'', PInt (eh_machine h)), (''path'', PStr path),
           (''relocation_delta'', PInt ?d), (''pto_isa_note_status'', PStr (note_status bs))] ''elf64'' = Inr i"
    unfolding elf_image_def Let_def load_delta_def [symmetric] rbind_eq_Inr by blast
  have sg: "segs = map (shift_segment ?d) ss" and ok: "\<forall>s \<in> set segs. segment_ok s"
  proof -
    show "segs = map (shift_segment ?d) ss"
      using segs relocate_segments [of ?d ss segs]
      by (auto simp: load_delta_def shift_segment_def split: if_splits)
    show "\<forall>s \<in> set segs. segment_ok s"
      using segs assms(2) relocate_segment_Inr(2)
      by (fastforce simp: rmap_Inr_iff list_all2_conv_all_nth in_set_conv_nth split: if_splits)
  qed
  show "image_ok i" "pi_segments i = map (shift_segment ?d) ss" "pi_entry_point i = eh_entry h + ?d"
    using ProgramImage_ok [OF i ok] sg by simp_all
  show "map_of (pi_metadata i) ''machine'' = Some (PInt (eh_machine h))"
    using i by (auto simp: ProgramImage_def split: if_splits)
qed

text \<open>The loader, once the file is read and its header accepted.\<close>

lemma elf_load_Inr:
  assumes "elf_load rd rq = Inr i"
  obtains path bs ss where "el_path rq = Some path" "rd path = Inr bs" "64 \<le> length bs"
    "case_option True ((=) (eh_machine (header_record bs))) (el_expected_machine rq)"
    "rmap (load_segment bs (eh_phoff (header_record bs)) 56) [0..<nat (eh_phnum (header_record bs))] = Inr ss"
    "some_values ss \<noteq> []"
    "elf_image bs path (header_record bs) (el_requested_base rq) (some_values ss) = Inr i"
  using assms
  by (auto simp: elf_load_def Let_def res_simps ELF_HEADER_SIZE_def split: option.splits if_splits)

lemma loaded_segments_ok:
  assumes "rmap (load_segment bs phoff 56) is' = Inr ss" and "s \<in> set (some_values ss)"
  shows "\<exists>i. load_segment bs phoff 56 i = Inr (Some s)"
proof -
  from assms(2) have "Some s \<in> set ss" by (simp add: set_some_values)
  then obtain j where "j < length ss" "ss ! j = Some s" by (auto simp: in_set_conv_nth)
  with assms(1) have "load_segment bs phoff 56 (is' ! j) = Inr (Some s)"
    by (auto simp: rmap_Inr_iff list_all2_conv_all_nth)
  then show ?thesis by blast
qed

lemma elf_load_image_ok: "elf_load rd rq = Inr i \<Longrightarrow> image_ok i"
  by (elim elf_load_Inr) (metis elf_image_Inr(1) load_segment_Some(1) loaded_segments_ok)

text \<open>Reading back what the encoder wrote.\<close>

lemma ProgramSegment_of_ok:
  assumes "segment_ok s"
  shows "ProgramSegment (ps_address s) (ps_data s) (ps_memory_size s) (ps_permissions s) (ps_alignment s) (ps_name s)
    = Inr s"
proof -
  from assms obtain k where k: "ps_alignment s = 2 ^ k" by (auto simp: segment_ok_def)
  have "(2 :: int) ^ k AND (2 ^ k - 1) = 0"
    by (metis dvd_refl mask_eq_exp_minus_1 take_bit_eq_0_iff take_bit_eq_mask)
  then show ?thesis using assms k by (auto simp: ProgramSegment_def segment_ok_def list_ex_iff)
qed

lemma drop_concat_blocks:
  assumes "\<forall>x \<in> set xs. length x = k" and "i < length xs"
  shows "drop (i * k) (concat xs @ ys) = xs ! i @ concat (drop (Suc i) xs) @ ys"
  using assms
proof (induction xs arbitrary: i)
  case (Cons x xs)
  then show ?case by (cases i) (simp_all add: add.commute)
qed simp

lemma take_concat_nth:
  "i < length xs \<Longrightarrow>
   take (length (xs ! i)) (drop (sum_list (map length (take i xs))) (concat xs)) = xs ! i"
proof (induction xs arbitrary: i)
  case (Cons x xs)
  then show ?case by (cases i) simp_all
qed simp

lemma encode_flags_permissions:
  "p \<in> {''r'', ''w'', ''x'', ''rw'', ''rx'', ''wx'', ''rwx''} \<Longrightarrow> segment_permissions (encode_flags p) = p"
  by (auto simp: segment_permissions_def encode_flags_def)

lemma encode_flags_bounds: "0 \<le> encode_flags p \<and> encode_flags p < 8"
  by (simp add: encode_flags_def)

lemma length_encode_program_header [simp]: "length (encode_program_header ss i) = 56"
  by (simp add: encode_program_header_def Let_def length_pack_le)

lemma file_offset_end:
  assumes "i < length ss"
  shows "file_offset_of ss i + int (length (ps_data (ss ! i))) \<le> int (length (encode_elf ty m en ss))"
proof -
  have "sum_list (map (\<lambda>s. length (ps_data s)) (take (Suc i) ss)) \<le> sum_list (map (\<lambda>s. length (ps_data s)) ss)"
    by (metis append_take_drop_id le_add1 map_append sum_list_append)
  then show ?thesis using assms
    by (simp add: file_offset_of_def encode_elf_def length_concat length_pack_le comp_def HEADER_FIELDS_def
        take_Suc_conv_app_nth sum_list_triv)
qed

lemma header_record_encode:
  assumes "0 \<le> ty" "ty < 65536" "0 \<le> m" "m < 65536" "0 \<le> en" "en < 2 ^ 64" "length ss < 65536"
  shows "header_record (encode_elf ty m en ss) =
    \<lparr>eh_ident = [0x7F, 0x45, 0x4C, 0x46, 2, 1, 1] @ replicate 9 0, eh_type = ty, eh_machine = m, eh_version = 1,
     eh_entry = en, eh_phoff = 64, eh_shoff = 0, eh_flags = 0, eh_ehsize = 64, eh_phentsize = 56,
     eh_phnum = int (length ss), eh_shentsize = 64, eh_shnum = 0, eh_shstrndx = 0\<rparr>"
proof -
  let ?vs = "[ty, m, 1, en, 64, 0, 0, 64, 56, int (length ss), 64, 0, 0]"
  have "list_all2 (\<lambda>n v. 0 \<le> v \<and> v < 256 ^ n) HEADER_FIELDS ?vs"
    using assms by (simp add: HEADER_FIELDS_def)
  then have "unpack_le HEADER_FIELDS (drop 16 (encode_elf ty m en ss)) = ?vs"
    using unpack_pack_le by (simp add: encode_elf_def)
  moreover have "take 16 (encode_elf ty m en ss) = [0x7F, 0x45, 0x4C, 0x46, 2, 1, 1] @ replicate 9 0"
    by (simp add: encode_elf_def)
  ultimately show ?thesis by (simp add: header_record_def Let_def)
qed

lemma load_segment_encode:
  assumes i: "i < length ss" and e: "encodable ss i" and ok: "segment_ok (ss ! i)"
    and fit: "int (length (encode_elf ty m en ss)) < 2 ^ 64"
  shows "load_segment (encode_elf ty m en ss) 64 56 i = Inr (Some (ss ! i))"
proof -
  let ?bs = "encode_elf ty m en ss" and ?s = "ss ! i" and ?o = "file_offset_of ss i"
  let ?phs = "map (encode_program_header ss) [0..<length ss]"
  obtain hd where len: "length hd = 64" and bs: "?bs = hd @ concat ?phs @ concat (map ps_data ss)"
    by (rule that [of "[0x7F, 0x45, 0x4C, 0x46, 2, 1, 1] @ replicate 9 0
          @ pack_le HEADER_FIELDS [ty, m, 1, en, 64, 0, 0, 64, 56, int (length ss), 64, 0, 0]"])
      (simp_all add: length_pack_le HEADER_FIELDS_def encode_elf_def)
  have lphs: "length (concat ?phs) = 56 * length ss" by (simp add: length_concat comp_def sum_list_triv)
  have off: "0 \<le> ?o" by (simp add: file_offset_of_def)
  have oe: "?o + int (length (ps_data ?s)) \<le> int (length ?bs)" by (rule file_offset_end [OF i])
  let ?vs = "[1, encode_flags (ps_permissions ?s), ?o, ps_address ?s, ps_address ?s,
        int (length (ps_data ?s)), ps_memory_size ?s, ps_alignment ?s]"
  have "drop (nat (64 + int i * 56)) ?bs = drop (i * 56) (concat ?phs @ concat (map ps_data ss))"
    unfolding bs using len by (simp add: nat_add_distrib nat_mult_distrib)
  also have "\<dots> = ?phs ! i @ concat (drop (Suc i) ?phs) @ concat (map ps_data ss)"
    by (rule drop_concat_blocks) (use i in auto)
  finally have dr: "drop (nat (64 + int i * 56)) ?bs
      = pack_le PROGRAM_HEADER ?vs @ concat (drop (Suc i) ?phs) @ concat (map ps_data ss)"
    using i by (simp add: encode_program_header_def Let_def)
  have al: "0 < ps_alignment ?s" using ok by (auto simp: segment_ok_def)
  have "list_all2 (\<lambda>n v. 0 \<le> v \<and> v < 256 ^ n) PROGRAM_HEADER ?vs"
    using e ok al off oe fit encode_flags_bounds [of "ps_permissions ?s"]
    by (simp add: PROGRAM_HEADER_def encodable_def Let_def segment_ok_def)
  then have un: "unpack_le PROGRAM_HEADER (drop (nat (64 + int i * 56)) ?bs) = ?vs"
    unfolding dr by (rule unpack_pack_le)
  have "py_slice ?bs ?o (?o + int (length (ps_data ?s)))
      = take (length (ps_data ?s)) (drop (nat ?o) ?bs)" using off by (simp add: py_slice_nonneg)
  also have "drop (nat ?o) ?bs = drop (sum_list (map length (take i (map ps_data ss)))) (concat (map ps_data ss))"
    unfolding bs file_offset_of_def using len lphs by (simp add: nat_add_distrib nat_mult_distrib take_map comp_def)
  also have "take (length (ps_data ?s)) \<dots> = ps_data ?s" using take_concat_nth [of i "map ps_data ss"] i by simp
  finally have sl: "py_slice ?bs ?o (?o + int (length (ps_data ?s))) = ps_data ?s" .
  have "64 + int i * 56 + 56 \<le> int (length ?bs)"
    using i len lphs unfolding bs by simp
  moreover have "segment_permissions (encode_flags (ps_permissions ?s)) = ps_permissions ?s"
    by (rule encode_flags_permissions) (use e in \<open>simp add: encodable_def Let_def\<close>)
  ultimately show ?thesis
    using un oe sl al ok e ProgramSegment_of_ok [OF ok]
    by (simp add: load_segment_def Let_def unpack_from_Inr PT_LOAD_def encodable_def segment_ok_def)
qed


lemma ProgramImage_of_ok:
  assumes "image_ok i"
  shows "ProgramImage (pi_entry_point i) (pi_segments i) sp sy md f =
    Inr (i\<lparr>pi_stack_pointer := sp, pi_symbols := sy, pi_metadata := md, pi_format := f\<rparr>)"
proof -
  have ends: "adjacent_overlap ss = False" if "sorted_wrt (\<lambda>l r. ps_end l \<le> ps_address r) ss" for ss
    using that by (induction ss rule: induct_list012) (auto simp: adjacent_overlap_def)
  from assms have "\<not> adjacent_overlap (sort_key ps_address (pi_segments i))"
    using ends by (auto simp: image_ok_def segments_disjoint_def)
  with assms show ?thesis by (simp add: ProgramImage_def image_ok_def)
qed

text \<open>Only the requested base tells the result of two requests for one file apart.\<close>

lemma relocate_all:
  assumes "\<forall>s \<in> set ss. segment_ok s" and "0 \<le> b"
  shows "rmap (relocate_segment (b - min_address ss)) ss = Inr (map (shift_segment (b - min_address ss)) ss)"
proof (rule rmap_total)
  fix s assume s: "s \<in> set ss"
  let ?t = "shift_segment (b - min_address ss) s"
  have "min_address ss \<le> ps_address s" unfolding min_address_def by (rule Min_le) (use s in auto)
  with assms s have "segment_ok ?t" by (auto simp: segment_ok_def shift_segment_def)
  from ProgramSegment_of_ok [OF this] show "relocate_segment (b - min_address ss) s = Inr ?t"
    by (simp add: relocate_segment_def shift_segment_def)
qed

lemma insort_shift:
  "insort_key ps_address (shift_segment d s) (map (shift_segment d) ss)
   = map (shift_segment d) (insort_key ps_address s ss)"
  by (induction ss) (simp_all add: shift_segment_def)

lemma sort_shift:
  "sort_key ps_address (map (shift_segment d) ss) = map (shift_segment d) (sort_key ps_address ss)"
  by (induction ss) (simp_all add: insort_shift sort_key_def)

lemma overlap_shift: "adjacent_overlap (map (shift_segment d) ss) = adjacent_overlap ss"
  by (induction ss rule: induct_list012)
    (simp_all add: adjacent_overlap_Cons_Cons, simp_all add: adjacent_overlap_def ps_end_def shift_segment_def)

text \<open>The image of an accepted file at a requested base, from the image at its own addresses.\<close>

definition shift_image :: "int \<Rightarrow> program_image \<Rightarrow> program_image" where
  "shift_image d i = i\<lparr>pi_entry_point := pi_entry_point i + d, pi_segments := map (shift_segment d) (pi_segments i),
     pi_symbols := map (\<lambda>(nm, v). (nm, v + d)) (pi_symbols i),
     pi_metadata := AList.update ''relocation_delta'' (PInt d) (pi_metadata i)\<rparr>"

lemma elf_image_relocates:
  assumes "elf_image bs path h None ss = Inr i" and "\<forall>s \<in> set ss. segment_ok s" and "0 \<le> b"
    and "d = b - min_address ss"
  shows "elf_image bs path h (Some b) ss =
    (if pi_entry_point i + d < 0 then Inl (ValueError ''program image requires an entry point and segments'')
     else Inr (shift_image d i))"
proof -
  have idp: "(\<lambda>(nm :: string, v :: int). (nm, v)) = id" by auto
  show ?thesis
    using assms(1) relocate_all [OF assms(2,3)]
    by (auto simp: elf_image_def Let_def res_simps ProgramImage_def shift_image_def assms(4) sort_shift overlap_shift idp
        split: if_splits)
qed

section \<open>Properties\<close>

text \<open>
  C19: whatever bytes a file holds, the loader returns an image or raises one of its documented
  exceptions: \<open>ElfFormatError\<close>, or the \<open>ValueError\<close> of the image contracts. No read goes past the
  end of the file (\<open>struct.error\<close>, \<open>IndexError\<close>) and no other exception escapes.
\<close>

theorem elf_load_error_contract:
  assumes "el_path rq = Some path" and "rd path = Inr bs" and "elf_load rd rq = Inl e"
  shows "(\<exists>m. e = ElfFormatError m) \<or> (\<exists>m. e = ValueError m)"
proof -
  from assms have "loader_error e"
    by (auto simp: elf_load_def ELF_HEADER_SIZE_def Let_def unpack_header_ok res_simps split: if_splits
        dest: elf_image_error dest!: rmap_error load_segment_error)
  then show ?thesis by (simp add: loader_error_def)
qed

text \<open>
  C18: a loaded image is well formed: positive disjoint segments with valid permissions and
  alignment, each the bytes of a slice of the file; the machine is the expected one, and with a
  requested base the lowest segment starts at it.
\<close>

theorem elf_load_sound:
  assumes "elf_load rd rq = Inr i"
  shows "image_ok i \<and> (\<exists>path bs. el_path rq = Some path \<and> rd path = Inr bs
      \<and> (\<forall>s \<in> set (pi_segments i). \<exists>o'. 0 \<le> o' \<and> o' + int (length (ps_data s)) \<le> int (length bs)
           \<and> ps_data s = py_slice bs o' (o' + int (length (ps_data s)))))
    \<and> (\<forall>m. el_expected_machine rq = Some m \<longrightarrow> map_of (pi_metadata i) ''machine'' = Some (PInt m))
    \<and> (\<forall>b. el_requested_base rq = Some b \<longrightarrow> min_address (pi_segments i) = b)"
proof -
  from assms obtain path bs ss where l: "el_path rq = Some path" "rd path = Inr bs"
    "case_option True ((=) (eh_machine (header_record bs))) (el_expected_machine rq)"
    "rmap (load_segment bs (eh_phoff (header_record bs)) 56) [0..<nat (eh_phnum (header_record bs))] = Inr ss"
    "some_values ss \<noteq> []"
    "elf_image bs path (header_record bs) (el_requested_base rq) (some_values ss) = Inr i"
    by (rule elf_load_Inr)
  have sl: "segment_ok s" "\<exists>o'. 0 \<le> o' \<and> o' + int (length (ps_data s)) \<le> int (length bs)
           \<and> ps_data s = py_slice bs o' (o' + int (length (ps_data s)))" if s: "s \<in> set (some_values ss)" for s
    using loaded_segments_ok [OF l(4) s] load_segment_Some by blast+
  then have "\<forall>s \<in> set (some_values ss). segment_ok s" by blast
  note im = elf_image_Inr [OF l(6) this]
  have "min_address (pi_segments i) = b" if "el_requested_base rq = Some b" for b
    using l(5) that min_address_shift unfolding im(2) load_delta_def shift_segment_def by simp
  moreover have "map_of (pi_metadata i) ''machine'' = Some (PInt m)" if "el_expected_machine rq = Some m" for m
    using l(3) that im(4) by simp
  ultimately show ?thesis using im(1) l(1,2) sl(2) by (auto simp: im(2) shift_segment_def)
qed


text \<open>
  C20: relocation moves the whole program: loading a file at a requested base gives the image of the
  file at its own addresses with the entry point, every segment and every symbol moved by the same
  distance and nothing else changed, and is refused only when the entry point would be negative.
\<close>

theorem elf_load_relocates:
  assumes "elf_load rd (rq\<lparr>el_requested_base := None\<rparr>) = Inr i" and "0 \<le> b"
    and "d = b - min_address (pi_segments i)"
  shows "elf_load rd (rq\<lparr>el_requested_base := Some b\<rparr>) =
    (if pi_entry_point i + d < 0 then Inl (ValueError ''program image requires an entry point and segments'')
     else Inr (i\<lparr>pi_entry_point := pi_entry_point i + d, pi_segments := map (shift_segment d) (pi_segments i),
             pi_symbols := map (\<lambda>(nm, v). (nm, v + d)) (pi_symbols i),
             pi_metadata := AList.update ''relocation_delta'' (PInt d) (pi_metadata i)\<rparr>))"
proof -
  from assms(1) obtain path bs ss where l: "el_path rq = Some path" "rd path = Inr bs"
    "rmap (load_segment bs (eh_phoff (header_record bs)) 56) [0..<nat (eh_phnum (header_record bs))] = Inr ss"
    "some_values ss \<noteq> []" "elf_image bs path (header_record bs) None (some_values ss) = Inr i"
    by (rule elf_load_Inr) simp
  have ok: "\<forall>s \<in> set (some_values ss). segment_ok s"
    using loaded_segments_ok [OF l(3)] load_segment_Some(1) by blast
  have "pi_segments i = some_values ss" using elf_image_Inr(2) [OF l(5) ok] by (simp add: load_delta_def)
  then have "elf_image bs path (header_record bs) (Some b) (some_values ss) =
    (if pi_entry_point i + d < 0 then Inl (ValueError ''program image requires an entry point and segments'')
     else Inr (shift_image d i))"
    using elf_image_relocates [OF l(5) ok assms(2), of d] assms(3) by simp
  with assms(1) l show ?thesis
    by (auto simp: elf_load_def ELF_HEADER_SIZE_def Let_def shift_image_def res_simps split: if_splits)
qed

text \<open>
  C16: round trip: a file that holds the segments of a well-formed image, written by the reference
  encoder, is loaded back as exactly that entry point and those segments.
\<close>

theorem elf_roundtrip:
  assumes "image_ok i" and "\<forall>k < length (pi_segments i). encodable (pi_segments i) k"
    and "0 \<le> ty" "ty < 65536" "0 \<le> m" "m < 65536" "pi_entry_point i < 2 ^ 64" "length (pi_segments i) < 65536"
    and "int (length (encode_elf ty m (pi_entry_point i) (pi_segments i))) < 2 ^ 64"
    and "ElfLoadRequest (Some path) None None (Some m) md = Inr rq"
  shows "\<exists>j. elf_load (\<lambda>_. Inr (encode_elf ty m (pi_entry_point i) (pi_segments i))) rq = Inr j
    \<and> pi_entry_point j = pi_entry_point i \<and> pi_segments j = pi_segments i \<and> pi_symbols j = []
    \<and> map_of (pi_metadata j) ''machine'' = Some (PInt m) \<and> map_of (pi_metadata j) ''elf_type'' = Some (PInt ty)"
proof -
  let ?ss = "pi_segments i" and ?en = "pi_entry_point i"
  let ?bs = "encode_elf ty m ?en ?ss"
  have rq: "rq = \<lparr>el_path = Some path, el_image = None, el_requested_base = None, el_expected_machine = Some m,
      el_metadata = md\<rparr>" using assms(10) by (simp add: ElfLoadRequest_def split: if_splits)
  have en: "0 \<le> ?en" and ne: "?ss \<noteq> []" and ok: "\<forall>s \<in> set ?ss. segment_ok s" using assms(1) by (simp_all add: image_ok_def)
  have "rmap (load_segment ?bs 64 56) [0..<length ?ss] = Inr (map (\<lambda>k. Some (?ss ! k)) [0..<length ?ss])"
    by (rule rmap_total, rule load_segment_encode) (use assms ok in auto)
  also have "map (\<lambda>k. Some (?ss ! k)) [0..<length ?ss] = map Some ?ss" by (rule nth_equalityI) simp_all
  finally have segs: "rmap (load_segment ?bs 64 56) [0..<length ?ss] = Inr (map Some ?ss)" .
  have sv: "some_values (map Some ?ss) = ?ss" by (simp add: some_values_def List.map_filter_def comp_def)
  have len: "64 \<le> length ?bs"
    by (simp add: encode_elf_def length_pack_le HEADER_FIELDS_def)
  have img: "ProgramImage ?en ?ss sp sy mt f = Inr (i\<lparr>pi_stack_pointer := sp, pi_symbols := sy, pi_metadata := mt, pi_format := f\<rparr>)"
    for sp sy mt f by (rule ProgramImage_of_ok [OF assms(1)])
  show ?thesis
    using len ne unfolding rq
    by (simp add: elf_load_def ELF_HEADER_SIZE_def Let_def unpack_header_ok header_record_encode [OF assms(3-6) en assms(7,8)]
        segs sv elf_image_def img elf_symbols_def)
qed


section \<open>Witnesses\<close>

definition elf_demo_segment :: program_segment where
  "elf_demo_segment = \<lparr>ps_address = 4, ps_data = [1, 2], ps_memory_size = 3, ps_permissions = ''rx'',
     ps_alignment = 2, ps_name = ''PT_LOAD[0]''\<rparr>"

definition demo_elf :: "byte list" where
  "demo_elf = encode_elf 2 233 5 [elf_demo_segment]"

definition demo_elf_request :: elf_load_request where
  "demo_elf_request = \<lparr>el_path = Some ''a.elf'', el_image = None, el_requested_base = None,
     el_expected_machine = Some 233, el_metadata = []\<rparr>"

lemma demo_elf_result:
  "elf_load (\<lambda>_. Inr demo_elf) demo_elf_request =
     Inr \<lparr>pi_entry_point = 5, pi_segments = [elf_demo_segment], pi_stack_pointer = None, pi_symbols = [],
          pi_metadata = [(''elf_type'', PInt 2), (''machine'', PInt 233), (''path'', PStr ''a.elf''),
            (''relocation_delta'', PInt 0), (''pto_isa_note_status'', PStr ''not-provided'')], pi_format = ''elf64''\<rparr>"
  by code_simp

theorem elf_load_error_contract_witness:
  "\<exists>e. elf_load (\<lambda>_. Inr (take 100 demo_elf)) demo_elf_request = Inl e
    \<and> ((\<exists>m. e = ElfFormatError m) \<or> (\<exists>m. e = ValueError m))"
proof -
  have "elf_load (\<lambda>_. Inr (take 100 demo_elf)) demo_elf_request =
      Inl (ElfFormatError ''ELF program header table is truncated'')" by code_simp
  with elf_load_error_contract [of demo_elf_request "''a.elf''" "\<lambda>_. Inr (take 100 demo_elf)" "take 100 demo_elf"]
  show ?thesis by (simp add: demo_elf_request_def)
qed

theorem elf_load_sound_witness:
  "\<exists>i. elf_load (\<lambda>_. Inr demo_elf) demo_elf_request = Inr i \<and> image_ok i
    \<and> map_of (pi_metadata i) ''machine'' = Some (PInt 233)"
proof -
  have "el_expected_machine demo_elf_request = Some 233" by (simp add: demo_elf_request_def)
  with demo_elf_result elf_load_sound [OF demo_elf_result] show ?thesis by blast
qed

theorem elf_load_relocates_witness:
  "\<exists>j. elf_load (\<lambda>_. Inr demo_elf) (demo_elf_request\<lparr>el_requested_base := Some 64\<rparr>) = Inr j
    \<and> pi_entry_point j = 65 \<and> map ps_address (pi_segments j) = [64]"
proof -
  have rq: "demo_elf_request\<lparr>el_requested_base := None\<rparr> = demo_elf_request" by (simp add: demo_elf_request_def)
  note r = elf_load_relocates [of "\<lambda>_. Inr demo_elf" demo_elf_request, unfolded rq, OF demo_elf_result _ refl, of 64]
  show ?thesis using r by (simp add: min_address_def shift_segment_def elf_demo_segment_def)
qed

theorem elf_roundtrip_witness:
  "\<exists>j. elf_load (\<lambda>_. Inr demo_elf) demo_elf_request = Inr j \<and> pi_segments j = [elf_demo_segment]"
proof -
  let ?i = "\<lparr>pi_entry_point = 5, pi_segments = [elf_demo_segment], pi_stack_pointer = None, pi_symbols = [],
     pi_metadata = [], pi_format = ''elf64''\<rparr>"
  have ok: "image_ok ?i" 
    by (auto simp: image_ok_def segment_ok_def elf_demo_segment_def segments_disjoint_def intro: exI [of _ 1])
  have rq: "ElfLoadRequest (Some ''a.elf'') None None (Some 233) [] = Inr demo_elf_request"
    by (simp add: ElfLoadRequest_def demo_elf_request_def)
  have "encodable (pi_segments ?i) 0" by code_simp
  moreover have "length demo_elf = 122" by code_simp
  ultimately show ?thesis
    using elf_roundtrip [OF ok _ _ _ _ _ _ _ _ rq, of 2] unfolding demo_elf_def by auto
qed

end
