(* ===== verification/Single_Runner.thy ===== *)
theory Single_Runner
  imports Elf_Loader Multi_Executor
begin

text \<open>
  The single-PE runner of \<open>asl_model/runtime/asl_elf.py\<close>: load an ELF, start one ASL worker and
  step it until a terminal event, a failure or the instruction bound.

  The worker is given by its methods, as in \<open>Multi_Executor\<close>; the code looks \<open>step_auto\<close> up with
  \<open>getattr\<close>, so its presence is an argument. Reading the ELF file and materialising the profile
  (a generated file) are parameters.
\<close>

section \<open>Steps and results\<close>

record elf_step =
  es_index :: int
  es_address :: int
  es_instruction :: int
  es_length_bits :: int
  es_status :: string
  es_returncode :: int
  es_fault_code :: "int option"
  es_error :: "error_report option"
  es_finished :: bool

record elf_run_result =
  er_image :: program_image
  er_steps :: "elf_step list"
  er_artifact :: "(string, string) dict"
  er_model_profile :: string
  er_termination :: string
  er_runtime_layout :: "runtime_layout option"

definition elf_run_complete :: "elf_run_result \<Rightarrow> bool" where
  "elf_run_complete r \<longleftrightarrow> er_termination r = ''asl_terminal'' \<and> er_steps r \<noteq> []
     \<and> list_all (\<lambda>s. es_returncode s = 0) (er_steps r)"

definition elf_run_status :: "elf_run_result \<Rightarrow> string" where
  "elf_run_status r =
     (let failed = list_ex (\<lambda>s. es_returncode s \<noteq> 0) (er_steps r) in
      if \<not> failed \<and> er_termination r = ''asl_terminal'' then ''passed''
      else if \<not> failed \<and> er_termination r = ''max_instructions'' then ''unfinished''
      else ''failed'')"

subsection \<open>Reports\<close>

definition stack_bank_dict :: "stack_layout \<Rightarrow> pyval" where
  "stack_bank_dict s = PDict
     [(''pe_id'', PInt (sl_pe_id s)), (''base'', PInt (sl_base s)), (''end'', PInt (sl_end s)),
      (''size'', PInt (sl_size s)), (''top'', PInt (sl_top s)),
      (''stack_pointer'', PInt (sl_stack_pointer s)), (''red_zone'', PInt (sl_red_zone s))]"

definition runtime_layout_dict :: "runtime_layout \<Rightarrow> pyval" where
  "runtime_layout_dict l = PDict
     [(''stack_policy'', PStr (rl_policy l)), (''pe_count'', PInt (rl_pe_count l)),
      (''image_range'', PDict [(''start'', PInt (rl_image_start l)), (''end'', PInt (rl_image_end l))]),
      (''stack_banks'', PList (map stack_bank_dict (rl_stacks l)))]"

definition opt_val :: "('a \<Rightarrow> pyval) \<Rightarrow> 'a option \<Rightarrow> pyval" where
  "opt_val f v = (case v of None \<Rightarrow> PNone | Some x \<Rightarrow> f x)"

text \<open>\<open>step.__dict__\<close>; \<open>shown\<close> is the text of an error.\<close>

definition elf_step_dict :: "(error_report \<Rightarrow> string) \<Rightarrow> elf_step \<Rightarrow> pyval" where
  "elf_step_dict shown s = PDict
     [(''index'', PInt (es_index s)), (''address'', PInt (es_address s)),
      (''instruction'', PInt (es_instruction s)), (''length_bits'', PInt (es_length_bits s)),
      (''status'', PStr (es_status s)), (''returncode'', PInt (es_returncode s)),
      (''fault_code'', opt_val PInt (es_fault_code s)), (''error'', opt_val (\<lambda>e. PStr (shown e)) (es_error s)),
      (''finished'', PBool (es_finished s))]"

definition elf_run_as_dict :: "(error_report \<Rightarrow> string) \<Rightarrow> elf_run_result \<Rightarrow> pyval" where
  "elf_run_as_dict shown r = PDict
     [(''schema'', PStr ''pto-asl-model-smoke-v1''), (''validation_level'', PStr ''smoke''),
      (''closure_eligible'', PBool False),
      (''pto_isa_note_status'', dict_get (pi_metadata (er_image r)) ''pto_isa_note_status'' (PStr ''not-validated'')),
      (''model_lock_status'', PStr ''not-provided''), (''sidecar_status'', PStr ''not-provided''),
      (''golden_status'', PStr ''not-provided''), (''run_kind'', PStr ''single-pe''),
      (''status'', PStr (elf_run_status r)), (''complete'', PBool (elf_run_complete r)),
      (''termination'', PStr (er_termination r)), (''entry_point'', PInt (pi_entry_point (er_image r))),
      (''machine'', dict_get (pi_metadata (er_image r)) ''machine'' PNone),
      (''segment_count'', PInt (int (segment_count (er_image r)))),
      (''steps'', PList (map (elf_step_dict shown) (er_steps r))),
      (''artifact'', PDict (map (\<lambda>(k, v). (k, PStr v)) (er_artifact r))),
      (''model_profile'', PStr (er_model_profile r)),
      (''runtime_layout'', opt_val runtime_layout_dict (er_runtime_layout r))]"

section \<open>One instruction\<close>

definition failed_elf_step :: "int \<Rightarrow> int \<Rightarrow> int \<Rightarrow> int \<Rightarrow> py_error \<Rightarrow> elf_step" where
  "failed_elf_step index address instruction len e = \<lparr>es_index = index, es_address = address,
     es_instruction = instruction, es_length_bits = len, es_status = host_failure_status e, es_returncode = 2,
     es_fault_code = None, es_error = Some (ErrorOf e), es_finished = False\<rparr>"

text \<open>
  What the fetch-and-execute part of an iteration ends in: the instruction and its outcome, the
  end of the run with no step, or a failed step.
\<close>

datatype fetched =
    Fetched (fe_instruction: int) (fe_length: int) (fe_status: int) (fe_next_pc: "int option") (fe_fault: "int option")
  | FetchStop string
  | FetchFailed int int py_error

type_synonym ('w, 'b, 'a) on_bridge = "'a \<times> 'w \<times> 'b host_bridge"

text \<open>\<open>auto_step()\<close> under \<open>try\<close>.\<close>

definition auto_fetch :: "'w worker_ops \<Rightarrow> 'w \<Rightarrow> 'b host_bridge \<Rightarrow> ('w, 'b, fetched res) on_bridge" where
  "auto_fetch W w h =
     (case call_worker (wo_step_auto W) w h of
        (Inl e, w', h') \<Rightarrow> (Inr (FetchFailed 0 0 e), w', h')
      | (Inr a, w', h') \<Rightarrow>
          (Inr (Fetched (as_instruction a) (as_length_bits a) (as_status a) (Some (as_tpc a))
                  (if as_status a \<noteq> 0 then Some (as_fault_code a) else None)), w', h'))"

text \<open>The width of the instruction at \<open>position\<close>: asked of the worker unless the caller fixed it.\<close>

definition legacy_length ::
  "'w worker_ops \<Rightarrow> int option \<Rightarrow> byte list \<Rightarrow> int \<Rightarrow> 'w \<Rightarrow> 'b host_bridge \<Rightarrow> ('w, 'b, (string + int) res) on_bridge" where
  "legacy_length W length_bits segment_data position w h =
     (case length_bits of
        Some n \<Rightarrow> (Inr (Inr n), w, h)
      | None \<Rightarrow>
          let available = py_slice segment_data position (position + 8) in
          if length available < 2 then (Inr (Inl ''out_of_image''), w, h)
          else (case call_worker (wo_decode_length W (le_int available)) w h of
                  (Inl e, w', h') \<Rightarrow> (Inl e, w', h')
                | (Inr n, w', h') \<Rightarrow> (Inr (if n = 0 then Inl ''decode_failed'' else Inr n), w', h')))"

text \<open>\<open>worker.step(...)\<close> is under \<open>try\<close>, the two peeks after it are not.\<close>

definition legacy_step ::
  "'w worker_ops \<Rightarrow> int \<Rightarrow> int \<Rightarrow> 'w \<Rightarrow> 'b host_bridge \<Rightarrow> ('w, 'b, fetched res) on_bridge" where
  "legacy_step W instruction len w h =
     (case call_worker (wo_step W instruction len) w h of
        (Inl e, w1, h1) \<Rightarrow> (Inr (FetchFailed instruction len e), w1, h1)
      | (Inr status, w1, h1) \<Rightarrow>
          if status = 0 then
            (case call_worker (wo_peek_tpc W) w1 h1 of
               (Inl e, w2, h2) \<Rightarrow> (Inl e, w2, h2)
             | (Inr pc, w2, h2) \<Rightarrow> (Inr (Fetched instruction len status (Some pc) None), w2, h2))
          else
            (case call_worker (wo_peek_fault W) w1 h1 of
               (Inl e, w2, h2) \<Rightarrow> (Inl e, w2, h2)
             | (Inr f, w2, h2) \<Rightarrow> (Inr (Fetched instruction len status None (Some f)), w2, h2)))"

definition legacy_fetch ::
  "'w worker_ops \<Rightarrow> int option \<Rightarrow> byte list \<Rightarrow> int \<Rightarrow> 'w \<Rightarrow> 'b host_bridge \<Rightarrow> ('w, 'b, fetched res) on_bridge" where
  "legacy_fetch W length_bits segment_data position w h =
     (case legacy_length W length_bits segment_data position w h of
        (Inl e, w', h') \<Rightarrow> (Inl e, w', h')
      | (Inr (Inl stop), w', h') \<Rightarrow> (Inr (FetchStop stop), w', h')
      | (Inr (Inr n), w', h') \<Rightarrow>
          let instruction_bytes = n div 8;
              raw = py_slice segment_data position (position + instruction_bytes) in
          if int (length raw) \<noteq> instruction_bytes then (Inr (FetchStop ''out_of_image''), w', h')
          else legacy_step W (le_int raw) n w' h')"

text \<open>ASL fetches through the host memory only in a profile that binds it there.\<close>

definition uses_auto_step :: "int option \<Rightarrow> bool \<Rightarrow> model_profile \<Rightarrow> bool" where
  "uses_auto_step length_bits has_step_auto profile \<longleftrightarrow> length_bits = None \<and> has_step_auto
     \<and> list_ex (\<lambda>(nm, v). nm = ''PTO_MODEL_HOST_MEMORY'' \<and> v = ''TRUE'') (mp_switches profile)"

record single_config =
  sc_length_bits :: "int option"
  sc_has_step_auto :: bool
  sc_profile :: model_profile
  sc_encodings :: "completion_encoding list"   \<comment> \<open>the completion policy\<close>

definition fetch_step ::
  "'w worker_ops \<Rightarrow> single_config \<Rightarrow> byte list \<Rightarrow> int \<Rightarrow> 'w \<Rightarrow> 'b host_bridge \<Rightarrow> ('w, 'b, fetched res) on_bridge" where
  "fetch_step W cfg segment_data position w h =
     (if uses_auto_step (sc_length_bits cfg) (sc_has_step_auto cfg) (sc_profile cfg) then auto_fetch W w h
      else legacy_fetch W (sc_length_bits cfg) segment_data position w h)"

definition peek_terminal ::
  "'w worker_ops \<Rightarrow> completion_encoding list \<Rightarrow> int \<Rightarrow> int \<Rightarrow> int \<Rightarrow> 'w \<Rightarrow> 'b host_bridge \<Rightarrow> ('w, 'b, bool res) on_bridge" where
  "peek_terminal W encodings status instruction len w h =
     (if status = 0 \<and> is_terminal encodings instruction len then
        (case wo_peek_terminal_pending W of
           None \<Rightarrow> (Inl (AttributeError ''peek_terminal_pending''), w, h)
         | Some peek \<Rightarrow> call_worker peek w h)
      else (Inr False, w, h))"

section \<open>The fetch loop\<close>

definition committed_step :: "int \<Rightarrow> int \<Rightarrow> fetched \<Rightarrow> bool \<Rightarrow> elf_step" where
  "committed_step index address f pending = \<lparr>es_index = index, es_address = address,
     es_instruction = fe_instruction f, es_length_bits = fe_length f,
     es_status = (if fe_status f = 0 then ''committed'' else ''rejected''),
     es_returncode = (if fe_status f = 0 then 0 else 1), es_fault_code = fe_fault f, es_error = None,
     es_finished = pending\<rparr>"

text \<open>An iteration ends the loop with a termination, raises, or goes on at a new offset.\<close>

datatype iteration = Stop string "elf_step list" | Next int elf_step

text \<open>What follows a fetched instruction and the terminal query.\<close>

definition after_step :: "program_segment \<Rightarrow> int \<Rightarrow> int \<Rightarrow> int \<Rightarrow> fetched \<Rightarrow> bool \<Rightarrow> iteration" where
  "after_step segment index position address f pending =
     (let s = committed_step index address f pending;
          instruction_bytes = fe_length f div 8 in
      if fe_status f \<noteq> 0 then Stop ''step_failed'' [s]
      else if pending then Stop ''asl_terminal'' [s]
      else case fe_next_pc f of
             None \<Rightarrow> Stop ''step_failed'' [s]
           | Some pc \<Rightarrow>
               Next (if pc \<noteq> address + instruction_bytes then pc - ps_address segment
                     else position + instruction_bytes) s)"

definition run_instruction ::
  "'w worker_ops \<Rightarrow> single_config \<Rightarrow> program_segment \<Rightarrow> int \<Rightarrow> int \<Rightarrow> int \<Rightarrow> 'w \<Rightarrow> 'b host_bridge \<Rightarrow>
   ('w, 'b, iteration res) on_bridge" where
  "run_instruction W cfg segment index position address w h =
     (case fetch_step W cfg (ps_data segment) position w h of
        (Inl e, w', h') \<Rightarrow> (Inl e, w', h')
      | (Inr (FetchStop t), w', h') \<Rightarrow> (Inr (Stop t []), w', h')
      | (Inr (FetchFailed i n e), w', h') \<Rightarrow>
          (Inr (Stop (host_failure_status e) [failed_elf_step index address i n e]), w', h')
      | (Inr (Fetched i n status next_pc fault), w', h') \<Rightarrow>
          if n = 0 then (Inr (Stop ''decode_failed'' []), w', h')
          else
            (case peek_terminal W (sc_encodings cfg) status i n w' h' of
               (Inl e, w2, h2) \<Rightarrow> (Inr (Stop (host_failure_status e) [failed_elf_step index address i n e]), w2, h2)
             | (Inr pending, w2, h2) \<Rightarrow>
                 (Inr (after_step segment index position address (Fetched i n status next_pc fault) pending), w2, h2)))"

fun single_loop ::
  "'w worker_ops \<Rightarrow> single_config \<Rightarrow> program_segment \<Rightarrow> int \<Rightarrow> int \<Rightarrow> nat \<Rightarrow> int \<Rightarrow> int \<Rightarrow> 'w \<Rightarrow> 'b host_bridge \<Rightarrow>
   ('w, 'b, (string \<times> elf_step list) res) on_bridge" where
  "single_loop W cfg segment start initial_offset 0 index offset w h = (Inr (''max_instructions'', []), w, h)"
| "single_loop W cfg segment start initial_offset (Suc n) index offset w h =
     (case run_instruction W cfg segment index offset (start + (offset - initial_offset)) w h of
        (Inl e, w', h') \<Rightarrow> (Inl e, w', h')
      | (Inr (Stop t ss), w', h') \<Rightarrow> (Inr (t, ss), w', h')
      | (Inr (Next offset' s), w', h') \<Rightarrow>
          (case single_loop W cfg segment start initial_offset n (index + 1) offset' w' h' of
             (Inl e, w2, h2) \<Rightarrow> (Inl e, w2, h2)
           | (Inr (t, ss), w2, h2) \<Rightarrow> (Inr (t, s # ss), w2, h2)))"

section \<open>A run\<close>

record run_options =
  ro_length_bits :: "int option"
  ro_max_instructions :: int
  ro_initial_source :: string
  ro_start_symbol :: "string option"
  ro_model_profile :: string
  ro_stack_top :: "int option"
  ro_stack_size :: int
  ro_stack_policy :: string
  ro_stack_gap :: int
  ro_stack_stride :: "int option"
  ro_red_zone :: int
  ro_expected_machine :: "int option"

definition default_run_options :: run_options where
  "default_run_options = \<lparr>ro_length_bits = None, ro_max_instructions = 1, ro_initial_source = [],
     ro_start_symbol = None, ro_model_profile = ''portable'', ro_stack_top = None, ro_stack_size = 16777216,
     ro_stack_policy = ''after-image'', ro_stack_gap = 4096, ro_stack_stride = None, ro_red_zone = 16,
     ro_expected_machine = None\<rparr>"

text \<open>Where the run starts: an address of the image, and the segment that holds it.\<close>

definition start_of :: "program_image \<Rightarrow> string option \<Rightarrow> int res" where
  "start_of img start_symbol =
     (case start_symbol of
        None \<Rightarrow> Inr (pi_entry_point img)
      | Some nm \<Rightarrow> (case map_of (pi_symbols img) nm of
                     None \<Rightarrow> Inl (ValueError ''ELF has no symbol'') | Some a \<Rightarrow> Inr a))"

definition segment_at :: "program_image \<Rightarrow> int \<Rightarrow> program_segment res" where
  "segment_at img a =
     (case find (\<lambda>s. ps_address s \<le> a \<and> a < ps_address s + ps_memory_size s) (pi_segments img) of
        None \<Rightarrow> Inl (ValueError ''ELF entry point is not inside a PT_LOAD segment'')
      | Some s \<Rightarrow> Inr s)"

definition single_source :: "string \<Rightarrow> int \<Rightarrow> model_profile \<Rightarrow> runtime_layout \<Rightarrow> string res" where
  "single_source initial start profile l =
     (let source = py_strip initial;
          source = (if source = [] then source else source @ [CHR 0x0A]) @ write_tpc start in
      rbind (frame_sp_index profile) (\<lambda>i.
        if rl_stacks l = [] then Inr source
        else rbind (rl_stack_pointer_for l 0) (\<lambda>sp. Inr (source @ CHR '' '' # write_sp i sp))))"

record single_setup =
  su_image :: program_image
  su_layout :: runtime_layout
  su_start :: int
  su_segment :: program_segment
  su_profile :: model_profile
  su_source :: string
  su_spec :: "string option"

text \<open>Everything before the memory is built: the guards, the image, the layout and the source.\<close>

definition prepare_run ::
  "(string \<Rightarrow> byte list res) \<Rightarrow> (model_profile \<Rightarrow> string option res) \<Rightarrow> int option \<Rightarrow> string \<Rightarrow> run_options \<Rightarrow>
   single_setup res" where
  "prepare_run read_file materialize model_base elf_path opts =
     (if (case ro_length_bits opts of None \<Rightarrow> False | Some n \<Rightarrow> n \<notin> {16, 32, 48, 64}) then
        Inl (ValueError ''length_bits must be one of 16, 32, 48, or 64'')
      else if ro_max_instructions opts \<le> 0 then Inl (ValueError ''max_instructions must be positive'')
      else
        rbind (ElfLoadRequest (Some elf_path) None model_base (ro_expected_machine opts) []) (\<lambda>rq.
        rbind (elf_load read_file rq) (\<lambda>img.
        rbind (resolve img (ro_stack_policy opts) (ro_stack_top opts) (ro_stack_size opts) (ro_stack_gap opts)
                 (ro_stack_stride opts) (ro_red_zone opts) 1 4096 64) (\<lambda>l.
        rbind (start_of img (ro_start_symbol opts)) (\<lambda>start.
        rbind (segment_at img start) (\<lambda>segment.
        rbind (profile_select (ro_model_profile opts)) (\<lambda>profile.
        rbind (single_source (ro_initial_source opts) start profile l) (\<lambda>source.
        rbind (materialize profile) (\<lambda>spec.
          Inr \<lparr>su_image = img, su_layout = l, su_start = start, su_segment = segment, su_profile = profile,
               su_source = source, su_spec = spec\<rparr>)))))))))"

text \<open>The \<open>try\<close> around the worker: \<open>start\<close>, \<open>ping\<close> and the loop.\<close>

definition run_worker ::
  "'w worker_ops \<Rightarrow> single_config \<Rightarrow> single_setup \<Rightarrow> nat \<Rightarrow> 'b host_bridge \<Rightarrow>
   ('w, 'b, (string \<times> elf_step list) res) on_bridge" where
  "run_worker W cfg s n h =
     (case call_worker (wo_start W (su_source s) (su_spec s)) (wo_new W) h of
        (Inl e, w, h1) \<Rightarrow> (Inl e, w, h1)
      | (Inr _, w, h1) \<Rightarrow>
          (case call_worker (wo_ping W) w h1 of
             (Inl e, w, h2) \<Rightarrow> (Inl e, w, h2)
           | (Inr _, w, h2) \<Rightarrow>
               let offset = su_start s - ps_address (su_segment s)
               in single_loop W cfg (su_segment s) (su_start s) offset n 0 offset w h2))"

text \<open>
  The whole run; the worker is stopped in \<open>finally\<close>, whatever happened. The bridge is the one the
  run creates.
\<close>

definition elf_run ::
  "(string \<Rightarrow> byte list res) \<Rightarrow> (model_profile \<Rightarrow> string option res) \<Rightarrow> completion_encoding list \<Rightarrow> int option \<Rightarrow>
   'w worker_ops \<Rightarrow> bool \<Rightarrow> string \<Rightarrow> run_options \<Rightarrow> (elf_run_result \<times> 'w \<times> unit host_bridge) res" where
  "elf_run read_file materialize encodings model_base W has_step_auto elf_path opts =
     rbind (prepare_run read_file materialize model_base elf_path opts) (\<lambda>s.
     rbind (HostMemoryBridge None None (if ro_model_profile opts = ''linx-runtime'' then ''zero'' else ''deny'') 4096) (\<lambda>h0.
       case load_image (su_image s) (default_load_options\<lparr>lo_runtime_layout := Some (su_layout s)\<rparr>) h0 of
         (Inl e, _) \<Rightarrow> Inl e
       | (Inr _, h) \<Rightarrow>
           (case run_worker W \<lparr>sc_length_bits = ro_length_bits opts, sc_has_step_auto = has_step_auto,
                     sc_profile = su_profile s, sc_encodings = encodings\<rparr> s (nat (ro_max_instructions opts)) h of
              (Inl e, _, _) \<Rightarrow> Inl e
            | (Inr (t, steps), w, h') \<Rightarrow>
                Inr (\<lparr>er_image = su_image s, er_steps = steps,
                      er_artifact = (case wo_identity W w of None \<Rightarrow> [] | Some d \<Rightarrow> d),
                      er_model_profile = ro_model_profile opts, er_termination = t,
                      er_runtime_layout = Some (su_layout s)\<rparr>, wo_stop W w, h'))))"

section \<open>Lemmas\<close>

text \<open>A step after which the loop goes on.\<close>

definition ran_on :: "elf_step \<Rightarrow> bool" where
  "ran_on s \<longleftrightarrow> es_status s = ''committed'' \<and> es_returncode s = 0 \<and> \<not> es_finished s"

text \<open>A step with which the program ended.\<close>

definition ended :: "completion_encoding list \<Rightarrow> elf_step \<Rightarrow> bool" where
  "ended encodings s \<longleftrightarrow> es_status s = ''committed'' \<and> es_returncode s = 0 \<and> es_finished s
     \<and> is_terminal encodings (es_instruction s) (es_length_bits s)"

definition step_refused :: "elf_step \<Rightarrow> bool" where
  "step_refused s \<longleftrightarrow> es_returncode s \<noteq> 0 \<and> \<not> es_finished s"

text \<open>The last step of a run that ended by it, and what the steps of a run with bound \<open>n\<close> look like.\<close>

definition ends_run :: "completion_encoding list \<Rightarrow> string \<Rightarrow> elf_step \<Rightarrow> bool" where
  "ends_run encodings t s \<longleftrightarrow> t = ''asl_terminal'' \<and> ended encodings s
     \<or> t \<in> {''step_failed'', ''runtime_error'', ''step_timeout''} \<and> step_refused s"

definition bound_reached :: "nat \<Rightarrow> string \<Rightarrow> nat \<Rightarrow> bool" where
  "bound_reached n t k \<longleftrightarrow> t = ''max_instructions'' \<and> k = n \<or> t \<in> {''out_of_image'', ''decode_failed''} \<and> k < n"

definition loop_report :: "completion_encoding list \<Rightarrow> nat \<Rightarrow> string \<Rightarrow> elf_step list \<Rightarrow> bool" where
  "loop_report encodings n t ss \<longleftrightarrow>
     bound_reached n t (length ss) \<and> list_all ran_on ss
   \<or> (\<exists>pre s. ss = pre @ [s] \<and> length pre < n \<and> list_all ran_on pre \<and> ends_run encodings t s)"

lemma loop_report_Cons:
  assumes "loop_report encodings n t ss" and "ran_on s"
  shows "loop_report encodings (Suc n) t (s # ss)"
proof -
  from assms(1) consider
    (fin) pre s' where "ss = pre @ [s']" "length pre < n" "list_all ran_on pre" "ends_run encodings t s'"
  | (on) "bound_reached n t (length ss)" "list_all ran_on ss"
    unfolding loop_report_def by blast
  then show ?thesis
  proof cases
    case fin
    with assms(2) show ?thesis unfolding loop_report_def
      by (intro disjI2 exI [of _ "s # pre"] exI [of _ s']) simp
  next
    case on
    with assms(2) show ?thesis by (auto simp: loop_report_def bound_reached_def)
  qed
qed

lemma loop_report_single: "ends_run encodings t s \<Longrightarrow> loop_report encodings (Suc n) t [s]"
  unfolding loop_report_def by (intro disjI2 exI [of _ "[]"] exI [of _ s]) simp

lemma host_failure_status_cases: "host_failure_status e \<in> {''runtime_error'', ''step_timeout''}"
  by (simp add: host_failure_status_def split: py_error.splits)

lemma fetch_step_next_pc:
  assumes "fetch_step W cfg segment position w h = (Inr (Fetched i n status next_pc fault), w', h')" and "status = 0"
  shows "next_pc \<noteq> None"
  using assms
  by (auto simp: fetch_step_def auto_fetch_def legacy_fetch_def legacy_step_def Let_def
      split: if_splits prod.splits sum.splits)

lemma fetch_step_stop:
  assumes "fetch_step W cfg segment position w h = (Inr (FetchStop t), w', h')"
  shows "t \<in> {''out_of_image'', ''decode_failed''}"
  using assms
  by (auto simp: fetch_step_def auto_fetch_def legacy_fetch_def legacy_length_def legacy_step_def Let_def
      split: if_splits prod.splits sum.splits option.splits)

lemma peek_terminal_True:
  "peek_terminal W encodings status i n w h = (Inr True, w', h') \<Longrightarrow> status = 0 \<and> is_terminal encodings i n"
  by (simp add: peek_terminal_def split: if_splits)

text \<open>One iteration: the step it records and how the loop goes on.\<close>

lemma run_instruction_cases:
  assumes "run_instruction W cfg segment index position address w h = (Inr it, w', h')"
  obtains (none) t where "it = Stop t []" "t \<in> {''out_of_image'', ''decode_failed''}"
  | (failed) i n e where "it = Stop (host_failure_status e) [failed_elf_step index address i n e]"
      "\<exists>w1 h1. fetch_step W cfg (ps_data segment) position w h = (Inr (FetchFailed i n e), w1, h1)
        \<or> (\<exists>st np fc. fetch_step W cfg (ps_data segment) position w h = (Inr (Fetched i n st np fc), w1, h1))"
  | (ran) i n status next_pc fault pending w1 h1 where
      "it = after_step segment index position address (Fetched i n status next_pc fault) pending"
      "fetch_step W cfg (ps_data segment) position w h = (Inr (Fetched i n status next_pc fault), w1, h1)"
      "peek_terminal W (sc_encodings cfg) status i n w1 h1 = (Inr pending, w', h')"
proof -
  obtain f w1 h1 where f: "fetch_step W cfg (ps_data segment) position w h = (f, w1, h1)" by (rule prod_cases3)
  with assms obtain g where g: "f = Inr g" by (cases f) (simp_all add: run_instruction_def)
  show thesis
  proof (cases g)
    case (FetchStop u)
    have "u \<in> {''out_of_image'', ''decode_failed''}" using fetch_step_stop f g FetchStop by metis
    with assms f g FetchStop show thesis by (intro none) (simp_all add: run_instruction_def)
  next
    case (FetchFailed i m e)
    with assms f g show thesis by (intro failed [of e i m]) (auto simp: run_instruction_def)
  next
    case (Fetched i m status next_pc fault)
    obtain p w2 h2 where p: "peek_terminal W (sc_encodings cfg) status i m w1 h1 = (p, w2, h2)" by (rule prod_cases3)
    show thesis
    proof (cases "m = 0")
      case True
      with assms f g Fetched show thesis by (intro none [of "''decode_failed''"]) (auto simp: run_instruction_def)
    next
      case m: False
      show thesis
      proof (cases p)
        case (Inl e)
        with assms f g Fetched m p show thesis by (intro failed [of e i m]) (auto simp: run_instruction_def)
      next
        case (Inr pending)
        with assms f g Fetched m p show thesis
          by (intro ran [of i m status next_pc fault pending w1 h1]) (auto simp: run_instruction_def)
      qed
    qed
  qed
qed

lemma run_instruction_Stop:
  assumes "run_instruction W cfg segment index position address w h = (Inr (Stop t ss), w', h')"
  shows "loop_report (sc_encodings cfg) (Suc n) t ss \<and> map es_index ss = map (\<lambda>k. index + int k) [0..<length ss]"
  using assms
proof (cases rule: run_instruction_cases)
  case (none u)
  then show ?thesis by (auto simp: loop_report_def bound_reached_def)
next
  case (failed i m e)
  have "loop_report (sc_encodings cfg) (Suc n) (host_failure_status e) [failed_elf_step index address i m e]"
    by (rule loop_report_single) (use host_failure_status_cases [of e] in \<open>auto simp: ends_run_def failed_elf_step_def step_refused_def\<close>)
  with failed(1) show ?thesis by (simp add: failed_elf_step_def)
next
  case (ran i m status next_pc fault pending w1 h1)
  have np: "next_pc \<noteq> None" if "status = 0" using fetch_step_next_pc ran(2) that by metis
  have tm: "pending \<Longrightarrow> status = 0 \<and> is_terminal (sc_encodings cfg) i m"
    using ran(3) peek_terminal_True [of W "sc_encodings cfg" status i m w1 h1] by auto
  let ?s = "committed_step index address (Fetched i m status next_pc fault) pending"
  have ss: "ss = [?s]" "t = ''step_failed'' \<and> status \<noteq> 0 \<or> t = ''asl_terminal'' \<and> status = 0 \<and> pending"
    using ran(1) np by (auto simp: after_step_def Let_def split: if_splits option.splits)
  have "loop_report (sc_encodings cfg) (Suc n) t [?s]"
    by (rule loop_report_single) (use ss(2) tm in \<open>auto simp: ends_run_def committed_step_def step_refused_def ended_def\<close>)
  with ss(1) show ?thesis by (simp add: committed_step_def)
qed

lemma run_instruction_Next:
  assumes "run_instruction W cfg segment index position address w h = (Inr (Next position' s), w', h')"
  shows "ran_on s \<and> es_index s = index \<and> es_address s = address"
  using assms
proof (cases rule: run_instruction_cases)
  case (ran i m status next_pc fault pending w1 h1)
  then show ?thesis
    by (auto simp: after_step_def Let_def committed_step_def ran_on_def split: if_splits option.splits)
qed simp_all

lemma single_loop_report:
  assumes "single_loop W cfg segment start io n index offset w h = (Inr (t, ss), w', h')"
  shows "loop_report (sc_encodings cfg) n t ss \<and> map es_index ss = map (\<lambda>k. index + int k) [0..<length ss]"
  using assms
proof (induction n arbitrary: index offset w h t ss)
  case 0
  then show ?case by (simp add: loop_report_def bound_reached_def)
next
  case (Suc n)
  obtain r w1 h1 where r: "run_instruction W cfg segment index offset (start + (offset - io)) w h = (r, w1, h1)"
    by (rule prod_cases3)
  from Suc.prems r obtain it where it: "r = Inr it" by (cases r) auto
  show ?case
  proof (cases it)
    case (Stop u us)
    with Suc.prems r it have "t = u" "ss = us" by simp_all
    with run_instruction_Stop [of W cfg segment index offset "start + (offset - io)" w h u us w1 h1 n] r it Stop
    show ?thesis by simp
  next
    case (Next offset' s)
    obtain q w2 h2 where q: "single_loop W cfg segment start io n (index + 1) offset' w1 h1 = (q, w2, h2)"
      by (rule prod_cases3)
    from Suc.prems r it Next q obtain ss' where ss': "q = Inr (t, ss')" "ss = s # ss'"
      by (cases q) auto
    from Suc.IH [of "index + 1" offset' w1 h1 t ss'] q ss'(1) Suc.prems r it Next
    have IH: "loop_report (sc_encodings cfg) n t ss'" "map es_index ss' = map (\<lambda>k. index + 1 + int k) [0..<length ss']"
      by simp_all
    have s: "ran_on s" "es_index s = index" using run_instruction_Next r it Next by metis+
    have "map es_index ss = index # map (\<lambda>k. index + 1 + int k) [0..<length ss']" using IH(2) ss'(2) s(2) by simp
    also have "\<dots> = map (\<lambda>k. index + int k) [0..<length ss]"
      unfolding ss'(2) length_Cons upt_conv_Cons [OF zero_less_Suc] map_Suc_upt [symmetric] by simp
    finally show ?thesis using loop_report_Cons [OF IH(1) s(1)] ss'(2) by blast
  qed
qed

text \<open>The bytes of a segment at an address, as the number a legacy step executes.\<close>

definition fetched_from :: "program_segment \<Rightarrow> int \<Rightarrow> int \<Rightarrow> int \<Rightarrow> bool" where
  "fetched_from segment address i n \<longleftrightarrow>
     0 \<le> n div 8 \<and> (0 < n div 8 \<longrightarrow> address - ps_address segment + n div 8 \<le> int (length (ps_data segment)))
     \<and> i = le_int (take (nat (n div 8)) (drop (nat (address - ps_address segment)) (ps_data segment)))"

lemma slice_exact:
  assumes "0 \<le> p" and "int (length (py_slice xs p (p + k))) = k"
  shows "0 \<le> k \<and> (0 < k \<longrightarrow> p + k \<le> int (length xs)) \<and> py_slice xs p (p + k) = take (nat k) (drop (nat p) xs)"
proof -
  have k: "0 \<le> k" using assms(2) by (metis of_nat_0_le_iff)
  then have sl: "py_slice xs p (p + k) = take (nat k) (drop (nat p) xs)" using assms(1) by (simp add: py_slice_nonneg)
  with assms(2) k assms(1) show ?thesis by (auto simp: min_def split: if_splits)
qed

lemma fetch_step_legacy:
  assumes "\<not> uses_auto_step (sc_length_bits cfg) (sc_has_step_auto cfg) (sc_profile cfg)"
    and "fetch_step W cfg (ps_data segment) (address - ps_address segment) w h = (Inr f, w', h')"
    and "ps_address segment \<le> address"
    and "f = Fetched i n status next_pc fault \<or> f = FetchFailed i n e"
  shows "fetched_from segment address i n"
proof -
  let ?p = "address - ps_address segment" and ?d = "ps_data segment"
  obtain l w1 h1 where l: "legacy_length W (sc_length_bits cfg) ?d ?p w h = (l, w1, h1)" by (rule prod_cases3)
  from assms(1,2) l have f: "legacy_fetch W (sc_length_bits cfg) ?d ?p w h = (Inr f, w', h')"
    by (simp add: fetch_step_def)
  with l obtain q where q: "l = Inr q" by (cases l) (simp_all add: legacy_fetch_def)
  with f l assms(4) obtain m where m: "q = Inr m" by (cases q) (auto simp: legacy_fetch_def)
  let ?raw = "py_slice ?d ?p (?p + m div 8)"
  have len: "int (length ?raw) = m div 8" and st: "legacy_step W (le_int ?raw) m w1 h1 = (Inr f, w', h')"
    using f l q m assms(4) by (auto simp: legacy_fetch_def Let_def split: if_splits)
  from st assms(4) have "i = le_int ?raw" "n = m"
    by (auto simp: legacy_step_def split: prod.splits sum.splits if_splits)
  with slice_exact [OF _ len] assms(3) show ?thesis by (auto simp: fetched_from_def)
qed

lemma run_instruction_fetched:
  assumes "\<not> uses_auto_step (sc_length_bits cfg) (sc_has_step_auto cfg) (sc_profile cfg)"
    and r: "run_instruction W cfg segment index (address - ps_address segment) address w h = (Inr it, w', h')"
    and "it = Stop t ss \<and> s \<in> set ss \<or> it = Next position' s" and "ps_address segment \<le> address"
  shows "es_address s = address \<and> fetched_from segment address (es_instruction s) (es_length_bits s)"
  using r
proof (cases rule: run_instruction_cases)
  case (none u)
  with assms(3) show ?thesis by auto
next
  case (failed i m e)
  with assms(3) have s: "s = failed_elf_step index address i m e" by auto
  from failed(2) have "fetched_from segment address i m"
    by (elim exE disjE) (erule fetch_step_legacy [OF assms(1) _ assms(4)], simp)+
  with s show ?thesis by (simp add: failed_elf_step_def)
next
  case (ran i m status next_pc fault pending w1 h1)
  with assms(3) have s: "s = committed_step index address (Fetched i m status next_pc fault) pending"
    by (auto simp: after_step_def Let_def split: if_splits option.splits)
  have "fetched_from segment address i m" by (rule fetch_step_legacy [OF assms(1) ran(2) assms(4)]) simp
  with s show ?thesis by (simp add: committed_step_def)
qed

lemma single_loop_fetched:
  assumes "\<not> uses_auto_step (sc_length_bits cfg) (sc_has_step_auto cfg) (sc_profile cfg)"
    and "single_loop W cfg segment start (start - ps_address segment) n index offset w h = (Inr (t, ss), w', h')"
    and "s \<in> set ss" and "ps_address segment \<le> es_address s"
  shows "fetched_from segment (es_address s) (es_instruction s) (es_length_bits s)"
  using assms(2,3)
proof (induction n arbitrary: index offset w h t ss)
  case (Suc n)
  let ?a = "start + (offset - (start - ps_address segment))"
  obtain r w1 h1 where r: "run_instruction W cfg segment index offset ?a w h = (r, w1, h1)" by (rule prod_cases3)
  from Suc.prems(1) r obtain it where it: "r = Inr it" by (cases r) auto
  have r': "run_instruction W cfg segment index (?a - ps_address segment) ?a w h = (Inr it, w1, h1)"
    using r it by simp
  have here: "fetched_from segment (es_address s) (es_instruction s) (es_length_bits s)"
    if c: "it = Stop t ss \<and> s \<in> set ss \<or> (\<exists>position'. it = Next position' s)"
  proof -
    have "es_address s = ?a"
      using r' c by (cases rule: run_instruction_cases)
        (auto simp: after_step_def Let_def committed_step_def failed_elf_step_def split: if_splits option.splits)
    with assms(4) run_instruction_fetched [OF assms(1) r', of t ss s] c show ?thesis by auto
  qed
  show ?case
  proof (cases it)
    case (Stop u us)
    with Suc.prems r it have "it = Stop t ss \<and> s \<in> set ss" by simp
    then show ?thesis by (intro here) blast
  next
    case (Next offset' s0)
    obtain q w2 h2 where q: "single_loop W cfg segment start (start - ps_address segment) n (index + 1) offset' w1 h1 = (q, w2, h2)"
      by (rule prod_cases3)
    from Suc.prems(1) r it Next q obtain ss' where ss': "q = Inr (t, ss')" "ss = s0 # ss'" by (cases q) auto
    show ?thesis
    proof (cases "s = s0")
      case True
      with Next show ?thesis by (intro here) blast
    next
      case False
      have "single_loop W cfg segment start (start - ps_address segment) n (index + 1) offset' w1 h1 = (Inr (t, ss'), w', h')"
        using Suc.prems(1) r it Next q ss' by simp
      from Suc.IH [OF this] False ss'(2) Suc.prems(2) show ?thesis by simp
    qed
  qed
qed simp

text \<open>The first step is at the address the loop starts at.\<close>

lemma single_loop_first:
  assumes "single_loop W cfg segment start initial_offset n index offset w h = (Inr (t, s # ss), w', h')"
  shows "es_address s = start + (offset - initial_offset)"
proof (cases n)
  case (Suc k)
  let ?a = "start + (offset - initial_offset)"
  obtain r w1 h1 where r: "run_instruction W cfg segment index offset ?a w h = (r, w1, h1)" by (rule prod_cases3)
  with assms Suc obtain it where it: "r = Inr it" by (cases r) auto
  have c: "it = Stop t (s # ss) \<or> (\<exists>position'. it = Next position' s)"
    using assms Suc r it by (auto split: iteration.splits prod.splits sum.splits)
  from r [unfolded it] c show ?thesis
    by (cases rule: run_instruction_cases)
      (auto simp: after_step_def Let_def committed_step_def failed_elf_step_def split: if_splits option.splits)
qed (use assms in simp)

text \<open>A run that returns, taken apart.\<close>

lemma elf_run_Inr:
  assumes "elf_run rd mat encodings base W auto pth opts = Inr (r, w', h')"
  obtains s w0 w1 h1 and h :: "unit host_bridge" where "prepare_run rd mat base pth opts = Inr s"
    "er_image r = su_image s" "er_runtime_layout r = Some (su_layout s)"
    "single_loop W \<lparr>sc_length_bits = ro_length_bits opts, sc_has_step_auto = auto, sc_profile = su_profile s,
        sc_encodings = encodings\<rparr> (su_segment s) (su_start s) (su_start s - ps_address (su_segment s))
        (nat (ro_max_instructions opts)) 0 (su_start s - ps_address (su_segment s)) w0 h
      = (Inr (er_termination r, er_steps r), w1, h1)"
proof -
  from assms obtain s where s: "prepare_run rd mat base pth opts = Inr s" by (auto simp: elf_run_def res_simps)
  let ?cfg = "\<lparr>sc_length_bits = ro_length_bits opts, sc_has_step_auto = auto, sc_profile = su_profile s,
        sc_encodings = encodings\<rparr>"
  from assms s obtain h0 :: "unit host_bridge" where
    h0: "HostMemoryBridge None None (if ro_model_profile opts = ''linx-runtime'' then ''zero'' else ''deny'') 4096 = Inr h0"
    by (auto simp: elf_run_def rbind_eq_Inr)
  obtain lr h where l: "load_image (su_image s) (default_load_options\<lparr>lo_runtime_layout := Some (su_layout s)\<rparr>) h0 = (lr, h)"
    by (rule prod.exhaust)
  obtain q w1 h1 where q: "run_worker W ?cfg s (nat (ro_max_instructions opts)) h = (q, w1, h1)" by (rule prod_cases3)
  note eq = assms [unfolded elf_run_def s rbind_simps h0 l prod.case]
  from eq obtain img where lr: "lr = Inr img" by (cases lr) simp_all
  note eq = eq [unfolded lr sum.case q prod.case]
  from eq obtain t ss where ts: "q = Inr (t, ss)" by (cases q) auto
  from eq [unfolded ts sum.case prod.case] have r: "er_image r = su_image s" "er_runtime_layout r = Some (su_layout s)"
    and t: "t = er_termination r" "ss = er_steps r" by auto
  have rw: "run_worker W ?cfg s (nat (ro_max_instructions opts)) h = (Inr (er_termination r, er_steps r), w1, h1)"
    using q ts t by simp
  from rw obtain w0 h0 where "single_loop W ?cfg (su_segment s) (su_start s) (su_start s - ps_address (su_segment s))
        (nat (ro_max_instructions opts)) 0 (su_start s - ps_address (su_segment s)) w0 h0
      = (Inr (er_termination r, er_steps r), w1, h1)"
    by (auto simp: run_worker_def Let_def split: prod.splits sum.splits)
  with s r show thesis by (rule that)
qed

lemma segment_at_Inr:
  "segment_at img a = Inr s \<Longrightarrow> s \<in> set (pi_segments img) \<and> ps_address s \<le> a \<and> a < ps_end s"
  by (auto simp: segment_at_def ps_end_def find_Some_iff split: option.splits)

lemma prepare_run_Inr:
  assumes "prepare_run rd mat base pth opts = Inr s"
  shows "0 < ro_max_instructions opts" and "su_segment s \<in> set (pi_segments (su_image s))"
    and "profile_select (ro_model_profile opts) = Inr (su_profile s)"
    and "start_of (su_image s) (ro_start_symbol opts) = Inr (su_start s)"
    and "ps_address (su_segment s) \<le> su_start s" and "su_start s < ps_end (su_segment s)" and "image_ok (su_image s)"
proof -
  from assms show "0 < ro_max_instructions opts"
    by (auto simp only: prepare_run_def guard_eq_Inr not_le)
  from assms obtain img l start segment profile source spec rq where
    "elf_load rd rq = Inr img" "start_of img (ro_start_symbol opts) = Inr start" "segment_at img start = Inr segment"
    "profile_select (ro_model_profile opts) = Inr profile"
    "s = \<lparr>su_image = img, su_layout = l, su_start = start, su_segment = segment, su_profile = profile,
           su_source = source, su_spec = spec\<rparr>"
    by (auto simp only: prepare_run_def guard_eq_Inr rbind_eq_Inr sum.inject)
  with segment_at_Inr [of img start segment] elf_load_image_ok [of rd rq img] show "su_segment s \<in> set (pi_segments (su_image s))"
    "profile_select (ro_model_profile opts) = Inr (su_profile s)"
    "start_of (su_image s) (ro_start_symbol opts) = Inr (su_start s)"
    "ps_address (su_segment s) \<le> su_start s" "su_start s < ps_end (su_segment s)" "image_ok (su_image s)" by simp_all
qed

lemma report_verdict:
  assumes "loop_report encodings n (er_termination r) (er_steps r)"
  shows "elf_run_status r = ''passed'' \<longleftrightarrow> elf_run_complete r"
    and "elf_run_status r = ''passed'' \<longleftrightarrow>
        (\<exists>pre s. er_steps r = pre @ [s] \<and> list_all ran_on pre \<and> ended encodings s)"
    and "elf_run_status r = ''unfinished'' \<longleftrightarrow> length (er_steps r) = n \<and> list_all ran_on (er_steps r)"
    and "length (er_steps r) \<le> n"
proof -
  have ran: "\<not> list_ex (\<lambda>s. es_returncode s \<noteq> 0) ss" "list_all (\<lambda>s. es_returncode s = 0) ss" if "list_all ran_on ss" for ss
    using that by (auto simp: list_ex_iff list_all_iff ran_on_def)
  have not_ended: "\<not> ran_on s" if "ended encodings s \<or> step_refused s" for s
    using that by (auto simp: ran_on_def ended_def step_refused_def)
  from assms consider
    (fin) pre s where "er_steps r = pre @ [s]" "length pre < n" "list_all ran_on pre" "ends_run encodings (er_termination r) s"
  | (on) "bound_reached n (er_termination r) (length (er_steps r))" "list_all ran_on (er_steps r)"
    unfolding loop_report_def by blast
  then have "(elf_run_status r = ''passed'' \<longleftrightarrow> elf_run_complete r)
    \<and> (elf_run_status r = ''passed'' \<longleftrightarrow>
        (\<exists>pre s. er_steps r = pre @ [s] \<and> list_all ran_on pre \<and> ended encodings s))
    \<and> (elf_run_status r = ''unfinished'' \<longleftrightarrow> length (er_steps r) = n \<and> list_all ran_on (er_steps r))
    \<and> length (er_steps r) \<le> n"
  proof cases
    case fin
    with not_ended [of s] ran [of pre] show ?thesis
      by (auto simp: ends_run_def elf_run_status_def elf_run_complete_def step_refused_def ended_def)
  next
    case on
    then have "\<not> (\<exists>pre s. er_steps r = pre @ [s] \<and> list_all ran_on pre \<and> ended encodings s)"
      using not_ended by auto
    with on ran [OF on(2)] show ?thesis
      by (auto simp: bound_reached_def elf_run_status_def elf_run_complete_def)
  qed
  then show "elf_run_status r = ''passed'' \<longleftrightarrow> elf_run_complete r"
    and "elf_run_status r = ''passed'' \<longleftrightarrow>
        (\<exists>pre s. er_steps r = pre @ [s] \<and> list_all ran_on pre \<and> ended encodings s)"
    and "elf_run_status r = ''unfinished'' \<longleftrightarrow> length (er_steps r) = n \<and> list_all ran_on (er_steps r)"
    and "length (er_steps r) \<le> n" by blast+
qed

section \<open>Properties\<close>

text \<open>
  C21: the verdict of a single-PE run fails closed. A run is reported as passed exactly when it is
  complete, and exactly when it ended with a committed terminal instruction of the ASL catalog
  for which the worker confirmed the terminal event, every earlier step having committed; it is
  unfinished exactly when it committed as many non-terminal steps as the bound allows. Steps are
  numbered from zero and never exceed the bound.
\<close>

theorem single_run_verdict:
  assumes "elf_run rd mat encodings base W auto pth opts = Inr (r, w, h)"
  shows "(elf_run_status r = ''passed'' \<longleftrightarrow> elf_run_complete r)
    \<and> (elf_run_status r = ''passed'' \<longleftrightarrow>
        (\<exists>pre s. er_steps r = pre @ [s] \<and> list_all ran_on pre \<and> ended encodings s))
    \<and> (elf_run_status r = ''unfinished'' \<longleftrightarrow>
        int (length (er_steps r)) = ro_max_instructions opts \<and> list_all ran_on (er_steps r))
    \<and> int (length (er_steps r)) \<le> ro_max_instructions opts
    \<and> map es_index (er_steps r) = map int [0..<length (er_steps r)]"
proof -
  let ?n = "nat (ro_max_instructions opts)" and ?ss = "er_steps r" and ?t = "er_termination r"
  from assms obtain s w0 w1 h1 and h0 :: "unit host_bridge" where p: "prepare_run rd mat base pth opts = Inr s" and
    lp: "single_loop W \<lparr>sc_length_bits = ro_length_bits opts, sc_has_step_auto = auto, sc_profile = su_profile s,
        sc_encodings = encodings\<rparr> (su_segment s) (su_start s) (su_start s - ps_address (su_segment s))
        ?n 0 (su_start s - ps_address (su_segment s)) w0 h0 = (Inr (?t, ?ss), w1, h1)"
    by (rule elf_run_Inr)
  note rep = single_loop_report [OF lp]
  then have "loop_report encodings ?n ?t ?ss" by simp
  note vd = report_verdict [OF this]
  have "0 < ro_max_instructions opts" by (rule prepare_run_Inr(1) [OF p])
  then have n: "length ?ss = ?n \<longleftrightarrow> int (length ?ss) = ro_max_instructions opts"
    "length ?ss \<le> ?n \<longleftrightarrow> int (length ?ss) \<le> ro_max_instructions opts" by linarith+
  show ?thesis using rep vd unfolding n by simp
qed


text \<open>
  C22: on the compatibility path (a fixed width, the portable profile, or a worker without
  \<open>step_auto\<close>) the run starts at the requested symbol, or at the entry point when none is
  requested, and the one segment of the image that holds this address supplies every instruction:
  the first step is at the start address, and a step recorded at or above the start of that segment
  executed exactly the segment's bytes at its address, read as a little-endian number of the step's
  width, and never bytes past the end of the file contents.
\<close>

theorem single_run_fetch:
  assumes "elf_run rd mat encodings base W auto pth opts = Inr (r, w, h)"
    and "ro_length_bits opts \<noteq> None \<or> ro_model_profile opts = ''portable'' \<or> \<not> auto"
  shows "\<exists>start segment.
    (case ro_start_symbol opts of
       None \<Rightarrow> start = pi_entry_point (er_image r) | Some nm \<Rightarrow> map_of (pi_symbols (er_image r)) nm = Some start) \<and>
    segment \<in> set (pi_segments (er_image r)) \<and> ps_address segment \<le> start \<and> start < ps_end segment \<and>
    (\<forall>other \<in> set (pi_segments (er_image r)). ps_address other \<le> start \<and> start < ps_end other \<longrightarrow> other = segment) \<and>
    (\<forall>s ss. er_steps r = s # ss \<longrightarrow> es_address s = start) \<and>
    (\<forall>s \<in> set (er_steps r). ps_address segment \<le> es_address s \<longrightarrow>
      (let n = es_length_bits s div 8; p = es_address s - ps_address segment in
       0 \<le> n \<and> (0 < n \<longrightarrow> p + n \<le> int (length (ps_data segment)))
       \<and> es_instruction s = le_int (take (nat n) (drop (nat p) (ps_data segment)))))"
proof -
  from assms(1) obtain s w0 w1 h1 and h0 :: "unit host_bridge" where p: "prepare_run rd mat base pth opts = Inr s" and
    im: "er_image r = su_image s" and
    lp: "single_loop W \<lparr>sc_length_bits = ro_length_bits opts, sc_has_step_auto = auto, sc_profile = su_profile s,
        sc_encodings = encodings\<rparr> (su_segment s) (su_start s) (su_start s - ps_address (su_segment s))
        (nat (ro_max_instructions opts)) 0 (su_start s - ps_address (su_segment s)) w0 h0
        = (Inr (er_termination r, er_steps r), w1, h1)"
    by (rule elf_run_Inr)
  note pr = prepare_run_Inr [OF p]
  have "mp_switches (su_profile s) = []" if "ro_model_profile opts = ''portable''"
    using pr(3) that by (auto simp: profile_select_def known_profiles_def dest: sym)
  with assms(2) have "\<not> uses_auto_step (ro_length_bits opts) auto (su_profile s)" by (auto simp: uses_auto_step_def)
  then have fetch: "fetched_from (su_segment s) (es_address q) (es_instruction q) (es_length_bits q)"
    if "q \<in> set (er_steps r)" "ps_address (su_segment s) \<le> es_address q" for q
    using single_loop_fetched [OF _ lp that] by simp
  have one: "other = su_segment s" if "other \<in> set (pi_segments (su_image s))" "ps_address other \<le> su_start s"
      "su_start s < ps_end other" for other
    using segments_disjointD [OF _ that(1) pr(2) that(2,3) pr(5,6)] pr(7) by (simp add: image_ok_def)
  have first: "es_address q = su_start s" if "er_steps r = q # qs" for q qs
    using single_loop_first [OF lp [unfolded that]] by simp
  have start: "case ro_start_symbol opts of
       None \<Rightarrow> su_start s = pi_entry_point (su_image s) | Some nm \<Rightarrow> map_of (pi_symbols (su_image s)) nm = Some (su_start s)"
    using pr(4) by (auto simp: start_of_def split: option.splits)
  show ?thesis
    unfolding im
    by (intro exI [of _ "su_start s"] exI [of _ "su_segment s"] conjI start pr(2,5,6))
      (use one first fetch in \<open>auto simp: fetched_from_def Let_def\<close>)
qed

section \<open>Witnesses\<close>

text \<open>A worker that runs two-byte instructions and then jumps to the given address.\<close>

definition jump_worker :: "int \<Rightarrow> nat worker_ops" where
  "jump_worker target = \<lparr>wo_new = 0, wo_ensure_built = Inr, wo_start = (\<lambda>src spec. cret ()), wo_stop = (\<lambda>w. w),
     wo_ping = cret (), wo_clear_memory_cache = cret (), wo_step = (\<lambda>i n w. MDone (Inr 0, Suc w)),
     wo_step_auto = craise NotImplementedError, wo_decode_length = (\<lambda>i. cret 16), wo_peek_tpc = cret target,
     wo_peek_fault = cret 0, wo_select_pe = None, wo_set_tpc = None,
     wo_peek_terminal_pending = Some (\<lambda>w. MDone (Inr (2 \<le> w), w)),
     wo_peek_block_collective = None, wo_stats = None, wo_identity = (\<lambda>w. None)\<rparr>"

definition jump_segment :: program_segment where
  "jump_segment = \<lparr>ps_address = 16, ps_data = [1, 2, 3, 4, 5, 6, 7, 8, 9, 10, 11, 12], ps_memory_size = 12,
     ps_permissions = ''rx'', ps_alignment = 1, ps_name = ''PT_LOAD[0]''\<rparr>"

definition jump_options :: run_options where
  "jump_options = default_run_options\<lparr>ro_max_instructions := 2, ro_stack_policy := ''disabled''\<rparr>"

definition jump_encodings :: "completion_encoding list" where
  "jump_encodings = [\<lparr>ce_mnemonic = ''ACRC'', ce_width_bits = 16, ce_mask = 0, ce_match = 0\<rparr>]"

definition jump_run ::
  "int \<Rightarrow> completion_encoding list \<Rightarrow> (elf_run_result \<times> nat \<times> unit host_bridge) res" where
  "jump_run target encodings =
     elf_run (\<lambda>_. Inr (encode_elf 2 233 16 [jump_segment])) (\<lambda>_. Inr None) encodings None (jump_worker target)
       True ''a.elf'' jump_options"

definition jump_steps :: "(elf_run_result \<times> nat \<times> unit host_bridge) res \<Rightarrow> (string \<times> elf_step list) option" where
  "jump_steps x = (case x of Inl _ \<Rightarrow> None | Inr (r, _) \<Rightarrow> Some (elf_run_status r, er_steps r))"

lemma jump_passed:
  "map_option (\<lambda>(st, ss). (st, map (\<lambda>s. (es_address s, es_instruction s)) ss)) (jump_steps (jump_run 20 jump_encodings))
   = Some (''passed'', [(16, 0x0201), (20, 0x0605)])"
  by code_simp


lemma jump_runD:
  assumes "jump_steps (jump_run target encodings) = Some (st, ss)"
  obtains r w h where "jump_run target encodings = Inr (r, w, h)" "elf_run_status r = st" "er_steps r = ss"
  using assms by (auto simp: jump_steps_def split: sum.splits prod.splits)

theorem single_run_verdict_witness:
  "\<exists>r w h. jump_run 20 jump_encodings = Inr (r, w, h) \<and> elf_run_status r = ''passed'' \<and> elf_run_complete r
    \<and> (\<exists>pre s. er_steps r = pre @ [s] \<and> list_all ran_on pre \<and> ended jump_encodings s)"
proof -
  from jump_passed obtain ss where "jump_steps (jump_run 20 jump_encodings) = Some (''passed'', ss)" by auto
  then obtain r w h where r: "jump_run 20 jump_encodings = Inr (r, w, h)" "elf_run_status r = ''passed''"
    by (rule jump_runD)
  with single_run_verdict [OF r(1) [unfolded jump_run_def]] show ?thesis by simp
qed

theorem single_run_fetch_witness:
  "\<exists>r w h. jump_run 20 jump_encodings = Inr (r, w, h) \<and> map es_address (er_steps r) = [16, 20]
    \<and> pi_entry_point (er_image r) = 16
    \<and> (\<exists>segment \<in> set (pi_segments (er_image r)). ps_address segment \<le> 16 \<and> 16 < ps_end segment
      \<and> es_instruction (hd (er_steps r)) = le_int (take (nat (es_length_bits (hd (er_steps r)) div 8))
          (drop (nat (16 - ps_address segment)) (ps_data segment))))"
proof -
  from jump_passed obtain ss where ss: "jump_steps (jump_run 20 jump_encodings) = Some (''passed'', ss)"
    "map (\<lambda>s. (es_address s, es_instruction s)) ss = [(16, 0x0201), (20, 0x0605)]" by auto
  then obtain r w h where r: "jump_run 20 jump_encodings = Inr (r, w, h)" "er_steps r = ss" by (blast elim: jump_runD)
  have "map es_address ss = map fst (map (\<lambda>s. (es_address s, es_instruction s)) ss)" by simp
  with ss(2) have addr: "map es_address ss = [16, 20]" by simp
  then obtain s0 s1 where s0: "ss = [s0, s1]" "es_address s0 = 16" by auto
  have "ro_model_profile jump_options = ''portable''" "ro_start_symbol jump_options = None"
    by (simp_all add: jump_options_def default_run_options_def)
  with single_run_fetch [OF r(1) [unfolded jump_run_def]] obtain segment where
    "pi_entry_point (er_image r) = 16" "segment \<in> set (pi_segments (er_image r))" "ps_address segment \<le> 16" "16 < ps_end segment"
    "es_instruction s0 = le_int (take (nat (es_length_bits s0 div 8)) (drop (nat (16 - ps_address segment)) (ps_data segment)))"
    using r(2) s0 by (fastforce simp: Let_def)
  with r s0 addr show ?thesis by auto
qed

text \<open>
  The condition on the address is needed: after a branch to an address below the segment the
  offset is negative, and the slice of the segment counts from its end. Here the worker branches
  to address 4, which no segment holds, and the runner executes the segment's first bytes there
  and reports the step as committed.
\<close>

lemma branch_below_segment_executes_its_tail:
  "map_option (\<lambda>(st, ss). (st, map (\<lambda>s. (es_address s, es_instruction s, es_status s)) ss))
     (jump_steps (jump_run 4 [])) =
   Some (''unfinished'', [(16, 0x0201, ''committed''), (4, 0x0201, ''committed'')])"
  by code_simp

end
