(* ===== verification/Sessions.thy ===== *)
theory Sessions
  imports Py_Text
begin

text \<open>
  The ASL sessions of \<open>asl_model/session.py\<close>: the process session, which replays the whole source
  prefix in a fresh ASLRef process at every step, and the embedded session, which keeps a worker
  alive and replays the recorded instructions only to restore a state.

  Parameters: running ASLRef on a program text, the methods of the embedded worker and
  \<open>hashlib.sha256(...).hexdigest()\<close>. The theorems hold for every choice of the digest. Locks, the
  work directory and the generated identifier of a session are not modelled.
\<close>

section \<open>Snapshots and results\<close>

record session_snapshot =
  sn_session_id :: string
  sn_step_count :: int
  sn_history_sha256 :: string

definition snapshot_as_dict :: "session_snapshot \<Rightarrow> (string, pyval) dict" where
  "snapshot_as_dict s = [(''session_id'', PStr (sn_session_id s)), (''step_count'', PInt (sn_step_count s)),
     (''history_sha256'', PStr (sn_history_sha256 s))]"

record session_step_result =
  ss_session_id :: string
  ss_step_index :: int
  ss_status :: string
  ss_returncode :: int
  ss_stdout :: string
  ss_stderr :: string
  ss_artifact :: "(string, string) dict"

definition step_result_ok :: "session_step_result \<Rightarrow> bool" where
  "step_result_ok r \<longleftrightarrow> ss_returncode r = 0"

definition step_result_as_dict :: "session_step_result \<Rightarrow> (string, pyval) dict" where
  "step_result_as_dict r =
     [(''session_id'', PStr (ss_session_id r)), (''step_index'', PInt (ss_step_index r)),
      (''status'', PStr (ss_status r)), (''returncode'', PInt (ss_returncode r)),
      (''stdout'', PStr (ss_stdout r)), (''stderr'', PStr (ss_stderr r)),
      (''artifact'', PDict (map (\<lambda>(k, v). (k, PStr v)) (ss_artifact r)))]"

text \<open>\<open>text.encode("utf-8")\<close>: a character below 128 is one byte, the others of the model two.\<close>

definition utf8_char :: "char \<Rightarrow> byte list" where
  "utf8_char c =
     (let n = of_char c :: nat in
      if n < 128 then [of_nat n] else [of_nat (192 + n div 64), of_nat (128 + n mod 64)])"

definition utf8_encode :: "string \<Rightarrow> byte list" where
  "utf8_encode s = concat (map utf8_char s)"

text \<open>\<open>len(encoded).to_bytes(8, "big")\<close> and the encoded value, one after the other.\<close>

definition length_prefixed :: "byte list \<Rightarrow> byte list" where
  "length_prefixed bs = rev (le_bytes 8 (int (length bs))) @ bs"

definition source_history_bytes :: "string list \<Rightarrow> byte list" where
  "source_history_bytes operations = concat (map (\<lambda>s. length_prefixed (utf8_encode s)) operations)"

definition instruction_history_bytes :: "(int \<times> int \<times> string) list \<Rightarrow> byte list" where
  "instruction_history_bytes history =
     concat (map (\<lambda>(instruction, length_bits, _).
       length_prefixed (utf8_encode (py_dec instruction)) @ length_prefixed (utf8_encode (py_dec length_bits))) history)"

text \<open>\<open>_validate_snapshot\<close>, shared by the two classes but for the digest of a history.\<close>

definition validate_snapshot :: "('h list \<Rightarrow> string) \<Rightarrow> string \<Rightarrow> 'h list \<Rightarrow> session_snapshot \<Rightarrow> unit res" where
  "validate_snapshot digest sid history snap =
     (if sn_session_id snap \<noteq> sid then Inl (SessionError ''snapshot belongs to a different ASL session'')
      else if sn_step_count snap < 0 \<or> sn_step_count snap > int (length history) then
        Inl (SessionError ''snapshot is not a valid state in this session'')
      else if digest (take (nat (sn_step_count snap)) history) \<noteq> sn_history_sha256 snap then
        Inl (SessionError ''snapshot history does not match this session'')
      else Inr ())"

section \<open>Process sessions\<close>

text \<open>How \<open>subprocess.run\<close> ends: with an exit code and outputs, or by a timeout with what was read.\<close>

datatype process_end = Exited int string string | TimedOut string string

record process_env =
  pe_aslref :: "string \<Rightarrow> process_end"
  pe_sha256 :: "byte list \<Rightarrow> string"
  pe_timeout_text :: string

record process_session =
  pa_artifact :: "(string, string) dict"
  pa_spec :: string
  pa_session_id :: string
  pa_initial_source :: string
  pa_operations :: "string list"
  pa_labels :: "string list"
  pa_closed :: bool

definition ProcessAslSession ::
  "bool \<Rightarrow> bool \<Rightarrow> (string, string) dict res \<Rightarrow> string res \<Rightarrow> string \<Rightarrow> string \<Rightarrow> process_session res" where
  "ProcessAslSession launcher_is_file timeout_positive artifact spec sid initial_source =
     (if \<not> launcher_is_file then Inl (FileNotFoundError ''missing ASLRef launcher'')
      else if \<not> timeout_positive then Inl (ValueError ''ASL session timeout_s must be positive'')
      else rbind artifact (\<lambda>a. rbind spec (\<lambda>s.
        Inr \<lparr>pa_artifact = a, pa_spec = s, pa_session_id = sid, pa_initial_source = initial_source,
             pa_operations = [], pa_labels = [], pa_closed = False\<rparr>)))"

definition process_check_open :: "process_session \<Rightarrow> unit res" where
  "process_check_open s = (if pa_closed s then Inl (SessionClosedError ''ASL session has been destroyed'') else Inr ())"

fun join_paragraphs :: "string list \<Rightarrow> string" where
  "join_paragraphs [] = []"
| "join_paragraphs [p] = p"
| "join_paragraphs (p # q # ps) = p @ [CHR 0x0A, CHR 0x0A] @ join_paragraphs (q # ps)"

definition nl :: string where "nl = [CHR 0x0A]"

definition process_program :: "process_session \<Rightarrow> string list \<Rightarrow> string" where
  "process_program s operations =
     (let body = (if py_strip (pa_initial_source s) \<noteq> [] then [py_strip (pa_initial_source s)] else [])
                 @ map py_strip operations in
      pa_spec s @ nl @ nl @ ''// Generated by ProcessAslSession.'' @ nl @ ''func main() => integer'' @ nl @ ''begin'' @ nl
      @ join_paragraphs body @ nl @ ''    return 0;'' @ nl @ ''end;'' @ nl)"

definition process_run :: "process_env \<Rightarrow> string \<Rightarrow> int \<times> string \<times> string" where
  "process_run E program =
     (case pe_aslref E program of
        Exited rc out err \<Rightarrow> (rc, out, err)
      | TimedOut out err \<Rightarrow> (124, out, err @ nl @ ''ASLRef timed out after '' @ pe_timeout_text E @ ''s''))"

definition process_digest :: "process_env \<Rightarrow> string list \<Rightarrow> string" where
  "process_digest E operations = pe_sha256 E (source_history_bytes operations)"

definition process_reset :: "process_env \<Rightarrow> session_snapshot option \<Rightarrow> (process_session, unit) act" where
  "process_reset E snap s =
     (case process_check_open s of
        Inl e \<Rightarrow> (Inl e, s)
      | Inr _ \<Rightarrow>
          (case snap of
             None \<Rightarrow> (Inr (), s\<lparr>pa_operations := [], pa_labels := []\<rparr>)
           | Some sn \<Rightarrow>
               (case validate_snapshot (process_digest E) (pa_session_id s) (pa_operations s) sn of
                  Inl e \<Rightarrow> (Inl e, s)
                | Inr _ \<Rightarrow> (Inr (), s\<lparr>pa_operations := take (nat (sn_step_count sn)) (pa_operations s),
                                     pa_labels := take (nat (sn_step_count sn)) (pa_labels s)\<rparr>))))"

definition process_step :: "process_env \<Rightarrow> string \<Rightarrow> string \<Rightarrow> (process_session, session_step_result) act" where
  "process_step E source label s =
     (case process_check_open s of
        Inl e \<Rightarrow> (Inl e, s)
      | Inr _ \<Rightarrow>
          if py_strip source = [] then (Inl (ValueError ''ASL session step must be a non-empty source string''), s)
          else
            let (rc, out, err) = process_run E (process_program s (pa_operations s @ [source]));
                s' = (if rc = 0 then s\<lparr>pa_operations := pa_operations s @ [source], pa_labels := pa_labels s @ [label]\<rparr>
                      else s)
            in (Inr \<lparr>ss_session_id = pa_session_id s, ss_step_index = int (length (pa_operations s')),
                     ss_status = (if rc = 0 then ''committed'' else ''rejected''), ss_returncode = rc, ss_stdout = out,
                     ss_stderr = err, ss_artifact = pa_artifact s\<rparr>, s'))"

definition check_instruction :: "int \<Rightarrow> int \<Rightarrow> unit res" where
  "check_instruction instruction length_bits =
     (if \<not> (0 \<le> instruction \<and> instruction < 2 ^ 64) then Inl (ValueError ''instruction must fit in 64 bits'')
      else if length_bits \<notin> {16, 32, 48, 64} then
        Inl (ValueError ''length_bits must be one of 16, 32, 48, or 64'')
      else Inr ())"

definition process_step_instruction ::
  "process_env \<Rightarrow> int \<Rightarrow> int \<Rightarrow> string \<Rightarrow> (process_session, session_step_result) act" where
  "process_step_instruction E instruction length_bits label s =
     (case check_instruction instruction length_bits of
        Inl e \<Rightarrow> (Inl e, s)
      | Inr _ \<Rightarrow>
          process_step E (''let _asl_model_status = ExecutePTOInstruction(Zeros{64} + 0x'' @ py_hex instruction @ '', ''
                          @ py_dec length_bits @ '');'') label s)"

definition process_snapshot :: "process_env \<Rightarrow> process_session \<Rightarrow> session_snapshot res" where
  "process_snapshot E s =
     rbind (process_check_open s) (\<lambda>_.
       Inr \<lparr>sn_session_id = pa_session_id s, sn_step_count = int (length (pa_operations s)),
            sn_history_sha256 = process_digest E (pa_operations s)\<rparr>)"

definition process_destroy :: "process_session \<Rightarrow> process_session" where
  "process_destroy s = (if pa_closed s then s else s\<lparr>pa_closed := True\<rparr>)"

section \<open>Embedded sessions\<close>

record 'w session_worker =
  sw_start :: "string \<Rightarrow> ('w, unit) act"
  sw_ping :: "('w, unit) act"
  sw_step :: "int \<Rightarrow> int \<Rightarrow> ('w, int) act"
  sw_reset :: "('w, unit) act"
  sw_stop :: "'w \<Rightarrow> 'w"

type_synonym instruction_history = "(int \<times> int \<times> string) list"

record 'w embedded_session =
  em_artifact :: "(string, string) dict"
  em_session_id :: string
  em_initial_source :: string
  em_worker :: 'w
  em_history :: instruction_history
  em_closed :: bool

text \<open>Creation; when the start or the ping raises, the worker is stopped and the exception goes on.\<close>

definition EmbeddedAslSession ::
  "'w session_worker \<Rightarrow> 'w \<Rightarrow> (string, string) dict res \<Rightarrow> string \<Rightarrow> string \<Rightarrow> 'w embedded_session res" where
  "EmbeddedAslSession W w artifact sid initial_source =
     rbind artifact (\<lambda>a.
       case sw_start W initial_source w of
         (Inl e, _) \<Rightarrow> Inl e
       | (Inr _, w1) \<Rightarrow>
           (case sw_ping W w1 of
              (Inl e, _) \<Rightarrow> Inl e
            | (Inr _, w2) \<Rightarrow>
                Inr \<lparr>em_artifact = a, em_session_id = sid, em_initial_source = initial_source, em_worker = w2,
                     em_history = [], em_closed = False\<rparr>))"

definition embedded_check_open :: "'w embedded_session \<Rightarrow> unit res" where
  "embedded_check_open s = (if em_closed s then Inl (SessionClosedError ''ASL session has been destroyed'') else Inr ())"

text \<open>The subclasses of \<open>EmbeddedWorkerError\<close> and of \<open>SessionError\<close>.\<close>

definition is_worker_error :: "py_error \<Rightarrow> bool" where
  "is_worker_error e = (case e of EmbeddedWorkerError _ \<Rightarrow> True | EmbeddedWorkerTimeout _ \<Rightarrow> True | _ \<Rightarrow> False)"

definition is_restore_error :: "py_error \<Rightarrow> bool" where
  "is_restore_error e = (is_worker_error e \<or>
     (case e of SessionError _ \<Rightarrow> True | SessionClosedError _ \<Rightarrow> True | _ \<Rightarrow> False))"

fun replay :: "'w session_worker \<Rightarrow> instruction_history \<Rightarrow> ('w, unit) act" where
  "replay W [] w = (Inr (), w)"
| "replay W ((instruction, length_bits, _) # rest) w =
     (case sw_step W instruction length_bits w of
        (Inl e, w') \<Rightarrow> (Inl e, w')
      | (Inr status, w') \<Rightarrow>
          if status \<noteq> 0 then
            (Inl (SessionError ''ASL instruction prefix could not be replayed during reset''), w')
          else replay W rest w')"

definition restore_prefix :: "'w session_worker \<Rightarrow> instruction_history \<Rightarrow> ('w, unit) act" where
  "restore_prefix W prefix w =
     (case sw_reset W w of (Inl e, w') \<Rightarrow> (Inl e, w') | (Inr _, w') \<Rightarrow> replay W prefix w')"

definition embedded_digest :: "(byte list \<Rightarrow> string) \<Rightarrow> instruction_history \<Rightarrow> string" where
  "embedded_digest sha256 history = sha256 (instruction_history_bytes history)"

text \<open>\<open>self._closed = True; self._worker.stop()\<close>\<close>

definition shut_down :: "'w session_worker \<Rightarrow> 'w \<Rightarrow> 'w embedded_session \<Rightarrow> 'w embedded_session" where
  "shut_down W w s = s\<lparr>em_closed := True, em_worker := sw_stop W w\<rparr>"

definition embedded_reset ::
  "(byte list \<Rightarrow> string) \<Rightarrow> 'w session_worker \<Rightarrow> session_snapshot option \<Rightarrow> ('w embedded_session, unit) act" where
  "embedded_reset sha256 W snap s =
     (case rbind (embedded_check_open s) (\<lambda>_. case snap of
             None \<Rightarrow> Inr () | Some sn \<Rightarrow> validate_snapshot (embedded_digest sha256) (em_session_id s) (em_history s) sn) of
        Inl e \<Rightarrow> (Inl e, s)
      | Inr _ \<Rightarrow>
          let prefix = (case snap of None \<Rightarrow> [] | Some sn \<Rightarrow> take (nat (sn_step_count sn)) (em_history s)) in
          (case restore_prefix W prefix (em_worker s) of
             (Inl e, w) \<Rightarrow> (Inl e, if is_restore_error e then shut_down W w s else s\<lparr>em_worker := w\<rparr>)
           | (Inr _, w) \<Rightarrow> (Inr (), s\<lparr>em_worker := w, em_history := prefix\<rparr>)))"

definition embedded_result ::
  "'w embedded_session \<Rightarrow> string \<Rightarrow> int \<Rightarrow> string \<Rightarrow> string \<Rightarrow> session_step_result" where
  "embedded_result s status rc out err = \<lparr>ss_session_id = em_session_id s,
     ss_step_index = int (length (em_history s)), ss_status = status, ss_returncode = rc, ss_stdout = out,
     ss_stderr = err, ss_artifact = em_artifact s\<rparr>"

definition status_line :: "int \<Rightarrow> string" where
  "status_line status = ''status '' @ py_dec status @ nl"

text \<open>\<open>shown\<close> is the text of an exception.\<close>

definition embedded_step_instruction ::
  "(py_error \<Rightarrow> string) \<Rightarrow> 'w session_worker \<Rightarrow> int \<Rightarrow> int \<Rightarrow> string \<Rightarrow> ('w embedded_session, session_step_result) act" where
  "embedded_step_instruction shown W instruction length_bits label s =
     (case rbind (embedded_check_open s) (\<lambda>_. check_instruction instruction length_bits) of
        Inl e \<Rightarrow> (Inl e, s)
      | Inr _ \<Rightarrow>
          (case sw_step W instruction length_bits (em_worker s) of
             (Inl e, w) \<Rightarrow>
               if is_worker_error e
               then (Inr (embedded_result s ''failed'' 2 [] (shown e)), shut_down W w s)
               else (Inl e, s\<lparr>em_worker := w\<rparr>)
           | (Inr status, w) \<Rightarrow>
               if status = 0 then
                 let s' = s\<lparr>em_worker := w, em_history := em_history s @ [(instruction, length_bits, label)]\<rparr>
                 in (Inr (embedded_result s' ''committed'' 0 (status_line status) []), s')
               else
                 (case restore_prefix W (em_history s) w of
                    (Inl e, w') \<Rightarrow>
                      if is_restore_error e
                      then (Inr (embedded_result s ''failed'' 2 (status_line status)
                                   (''failed to restore committed prefix: '' @ shown e)), shut_down W w' s)
                      else (Inl e, s\<lparr>em_worker := w'\<rparr>)
                  | (Inr _, w') \<Rightarrow>
                      (Inr (embedded_result s ''rejected'' 1 (status_line status) []), s\<lparr>em_worker := w'\<rparr>))))"

definition embedded_snapshot :: "(byte list \<Rightarrow> string) \<Rightarrow> 'w embedded_session \<Rightarrow> session_snapshot res" where
  "embedded_snapshot sha256 s =
     rbind (embedded_check_open s) (\<lambda>_.
       Inr \<lparr>sn_session_id = em_session_id s, sn_step_count = int (length (em_history s)),
            sn_history_sha256 = embedded_digest sha256 (em_history s)\<rparr>)"

definition embedded_destroy :: "'w session_worker \<Rightarrow> 'w embedded_session \<Rightarrow> 'w embedded_session" where
  "embedded_destroy W s = (if em_closed s then s else shut_down W (em_worker s) s)"

section \<open>Instruction sources\<close>

definition skip_ws :: "string \<Rightarrow> string" where "skip_ws s = dropWhile is_space s"

definition drop_prefix :: "string \<Rightarrow> string \<Rightarrow> string option" where
  "drop_prefix p s = (if py_startswith s p then Some (drop (length p) s) else None)"

text \<open>\<open>(?:instruction\<bsol>s+)|(?:ExecutePTOInstruction\<bsol>s*\<bsol>(\<bsol>s*)\<close>\<close>

definition source_head :: "string \<Rightarrow> string option" where
  "source_head s =
     (case drop_prefix ''instruction'' s of
        Some r \<Rightarrow> (case r of c # _ \<Rightarrow> if is_space c then Some (skip_ws r) else None | [] \<Rightarrow> None)
      | None \<Rightarrow>
          (case drop_prefix ''ExecutePTOInstruction'' s of
             None \<Rightarrow> None
           | Some r \<Rightarrow> (case skip_ws r of c # r' \<Rightarrow> if c = CHR ''('' then Some (skip_ws r') else None | [] \<Rightarrow> None)))"

definition is_dec :: "char \<Rightarrow> bool" where
  "is_dec c = (case digit_val c of None \<Rightarrow> False | Some d \<Rightarrow> d < 10)"

definition is_hex :: "char \<Rightarrow> bool" where
  "is_hex c = (case digit_val c of None \<Rightarrow> False | Some d \<Rightarrow> d < 16)"

text \<open>\<open>0[xX][0-9a-fA-F]+|[0-9]+\<close>: the text of the number and what follows it.\<close>

definition source_number :: "string \<Rightarrow> (string \<times> string) option" where
  "source_number s =
     (case s of
        z # x # h # r \<Rightarrow>
          if z = CHR ''0'' \<and> (x = CHR ''x'' \<or> x = CHR ''X'') \<and> is_hex h
          then Some (z # x # takeWhile is_hex (h # r), dropWhile is_hex (h # r))
          else if is_dec z then Some (takeWhile is_dec s, dropWhile is_dec s) else None
      | z # r \<Rightarrow> if is_dec z then Some (takeWhile is_dec s, dropWhile is_dec s) else None
      | [] \<Rightarrow> None)"

text \<open>\<open>\<bsol>s*(?:,|\<bsol>s+)\<bsol>s*\<close>\<close>

definition source_separator :: "string \<Rightarrow> string option" where
  "source_separator s =
     (case skip_ws s of
        c # r \<Rightarrow> if c = CHR '','' then Some (skip_ws r) else if skip_ws s \<noteq> s then Some (skip_ws s) else None
      | [] \<Rightarrow> None)"

definition skip_optional :: "char \<Rightarrow> string \<Rightarrow> string" where
  "skip_optional c s = (case s of d # r \<Rightarrow> if d = c then r else s | [] \<Rightarrow> [])"

text \<open>\<open>(16|32|48|64)\<bsol>s*\<bsol>)?\<bsol>s*;?\<bsol>s*\<close> up to the end of the text.\<close>

definition source_width :: "string \<Rightarrow> string option" where
  "source_width s =
     (if take 2 s \<in> {''16'', ''32'', ''48'', ''64''}
         \<and> skip_ws (skip_optional (CHR '';'') (skip_ws (skip_optional (CHR '')'') (skip_ws (drop 2 s))))) = []
      then Some (take 2 s) else None)"

definition match_instruction :: "string \<Rightarrow> (string \<times> string) option" where
  "match_instruction source =
     (case source_head (skip_ws source) of
        None \<Rightarrow> None
      | Some s \<Rightarrow>
          (case source_number s of
             None \<Rightarrow> None
           | Some (num, r) \<Rightarrow>
               (case source_separator r of
                  None \<Rightarrow> None
                | Some r' \<Rightarrow> (case source_width r' of None \<Rightarrow> None | Some w \<Rightarrow> Some (num, w)))))"

definition parse_instruction_source :: "string \<Rightarrow> (int \<times> int) res" where
  "parse_instruction_source source =
     (if py_strip source = [] then Inl (ValueError ''ASL session step must be a non-empty source string'')
      else case match_instruction source of
             None \<Rightarrow> Inl (SessionError ''embedded ASL session accepts encoded instruction source only'')
           | Some (num, w) \<Rightarrow> rbind (py_int 0 num) (\<lambda>i. rbind (py_int 10 w) (\<lambda>n. Inr (i, n))))"

definition embedded_step ::
  "(py_error \<Rightarrow> string) \<Rightarrow> 'w session_worker \<Rightarrow> string \<Rightarrow> string \<Rightarrow> ('w embedded_session, session_step_result) act" where
  "embedded_step shown W source label s =
     (case parse_instruction_source source of
        Inl e \<Rightarrow> (Inl e, s)
      | Inr (instruction, length_bits) \<Rightarrow> embedded_step_instruction shown W instruction length_bits label s)"

section \<open>The session contract\<close>

text \<open>
  The contract of \<open>AslSession\<close>: a step adds at most one committed entry to the history and says so
  in its result, a snapshot names the current history, a reset cuts the history back to a
  validated snapshot, and a destroyed session refuses every operation.
\<close>

locale session_contract =
  fixes history :: "'s \<Rightarrow> 'h list"
    and closed :: "'s \<Rightarrow> bool"
    and sid :: "'s \<Rightarrow> string"
    and digest :: "'h list \<Rightarrow> string"
    and step :: "'a \<Rightarrow> ('s, session_step_result) act"
    and take_snapshot :: "'s \<Rightarrow> session_snapshot res"
    and reset :: "session_snapshot option \<Rightarrow> ('s, unit) act"
    and destroy :: "'s \<Rightarrow> 's"
  assumes step_history: "step a s = (r, s') \<Longrightarrow> history s' = history s \<or> (\<exists>h. history s' = history s @ [h])"
    and step_result: "step a s = (Inr x, s') \<Longrightarrow>
      (ss_status x = ''committed'' \<longleftrightarrow> history s' \<noteq> history s) \<and> ss_step_index x = int (length (history s'))
      \<and> (ss_returncode x = 0 \<longleftrightarrow> ss_status x = ''committed'')"
    and step_error: "step a s = (Inl e, s') \<Longrightarrow> history s' = history s"
    and step_sid: "step a s = (r, s') \<Longrightarrow> sid s' = sid s"
    and step_closed: "closed s \<Longrightarrow> \<exists>e. step a s = (Inl e, s)"
    and snapshot_def: "take_snapshot s =
      (if closed s then Inl (SessionClosedError ''ASL session has been destroyed'')
       else Inr \<lparr>sn_session_id = sid s, sn_step_count = int (length (history s)), sn_history_sha256 = digest (history s)\<rparr>)"
    and reset_closed: "closed s \<Longrightarrow> reset o' s = (Inl (SessionClosedError ''ASL session has been destroyed''), s)"
    and reset_to: "reset (Some sn) s = (Inr (), s') \<Longrightarrow>
      validate_snapshot digest (sid s) (history s) sn = Inr () \<and> history s' = take (nat (sn_step_count sn)) (history s)"
    and reset_all: "reset None s = (Inr (), s') \<Longrightarrow> history s' = []"
    and reset_refused: "\<not> closed s \<Longrightarrow> validate_snapshot digest (sid s) (history s) sn = Inl e \<Longrightarrow> reset (Some sn) s = (Inl e, s)"
    and destroy_closes: "closed (destroy s) \<and> history (destroy s) = history s"
begin

lemma steps_extend: "\<exists>t. history (foldl (\<lambda>s a. snd (step a s)) s as) = history s @ t"
proof (induction as arbitrary: s)
  case (Cons a as)
  obtain r s' where r: "step a s = (r, s')" by (cases "step a s")
  from step_history [OF r] obtain t where "history s' = history s @ t" by auto
  with Cons [of s'] r show ?case by auto
qed simp

lemma steps_sid: "sid (foldl (\<lambda>s a. snd (step a s)) s as) = sid s"
proof (induction as arbitrary: s)
  case (Cons a as)
  obtain r s' where r: "step a s = (r, s')" by (cases "step a s")
  with step_sid [OF r] Cons [of s'] show ?case by simp
qed simp

text \<open>A snapshot stays valid however many steps are tried after it.\<close>

lemma snapshot_stays_valid:
  assumes "take_snapshot s = Inr sn" and "s' = foldl (\<lambda>s a. snd (step a s)) s as"
  shows "validate_snapshot digest (sid s') (history s') sn = Inr () \<and> take (nat (sn_step_count sn)) (history s') = history s"
proof -
  from steps_extend obtain t where t: "history s' = history s @ t" using assms(2) by blast
  have "sid s' = sid s" using assms(2) steps_sid by simp
  with assms(1) t show ?thesis by (auto simp: snapshot_def validate_snapshot_def split: if_splits)
qed

lemma restore_after_steps:
  assumes "take_snapshot s = Inr sn" and "s' = foldl (\<lambda>s a. snd (step a s)) s as" and "reset (Some sn) s' = (Inr (), s'')"
  shows "history s'' = history s"
  using snapshot_stays_valid [OF assms(1,2)] reset_to [OF assms(3)] by simp

lemma foreign_snapshot_refused:
  assumes "\<not> closed s" and "sn_session_id sn \<noteq> sid s"
  shows "reset (Some sn) s = (Inl (SessionError ''snapshot belongs to a different ASL session''), s)"
  using assms by (intro reset_refused) (simp_all add: validate_snapshot_def)

lemma destroyed_refuses:
  "(\<exists>e. step a (destroy s) = (Inl e, destroy s)) \<and> take_snapshot (destroy s) = Inl (SessionClosedError ''ASL session has been destroyed'')
   \<and> reset o' (destroy s) = (Inl (SessionClosedError ''ASL session has been destroyed''), destroy s)"
  using step_closed reset_closed destroy_closes by (simp add: snapshot_def)

end

section \<open>Process sessions satisfy the contract\<close>

lemma process_step_cases:
  assumes "process_step E source label s = (r, s')"
  obtains (refused) e where "r = Inl e" "s' = s" "pa_closed s \<or> py_strip source = []"
  | (ran) rc out err where "\<not> pa_closed s" "py_strip source \<noteq> []"
      "process_run E (process_program s (pa_operations s @ [source])) = (rc, out, err)"
      "s' = (if rc = 0 then s\<lparr>pa_operations := pa_operations s @ [source], pa_labels := pa_labels s @ [label]\<rparr> else s)"
      "r = Inr \<lparr>ss_session_id = pa_session_id s, ss_step_index = int (length (pa_operations s')),
         ss_status = (if rc = 0 then ''committed'' else ''rejected''), ss_returncode = rc, ss_stdout = out,
         ss_stderr = err, ss_artifact = pa_artifact s\<rparr>"
proof -
  obtain rc out err where p: "process_run E (process_program s (pa_operations s @ [source])) = (rc, out, err)"
    by (rule prod_cases3)
  show thesis
  proof (cases "pa_closed s \<or> py_strip source = []")
    case True
    with assms obtain e where "r = Inl e" "s' = s" by (auto simp: process_step_def process_check_open_def split: if_splits)
    then show thesis using True by (rule refused)
  next
    case False
    with assms p show thesis
      by (intro ran [OF _ _ p]) (auto simp: process_step_def process_check_open_def Let_def)
  qed
qed

interpretation process: session_contract pa_operations pa_closed pa_session_id "process_digest E"
  "\<lambda>(source, label). process_step E source label" "process_snapshot E" "process_reset E" process_destroy
proof (unfold_locales, goal_cases)
  case (1 a s r s')
  then show ?case by (cases a) (auto elim!: process_step_cases split: if_splits)
next
  case (2 a s x s')
  then show ?case by (cases a) (auto elim!: process_step_cases split: if_splits)
next
  case (3 a s e s')
  then show ?case by (cases a) (auto elim!: process_step_cases split: if_splits)
next
  case (4 a s r s')
  then show ?case by (cases a) (auto elim!: process_step_cases split: if_splits)
next
  case (5 s a)
  then show ?case by (cases a) (simp add: process_step_def process_check_open_def)
qed (auto simp: process_snapshot_def process_check_open_def process_reset_def process_destroy_def
    split: sum.splits if_splits)

section \<open>Embedded sessions satisfy the contract\<close>

lemma shut_down_simps [simp]:
  "em_history (shut_down W w s) = em_history s" "em_closed (shut_down W w s)" "em_session_id (shut_down W w s) = em_session_id s"
  by (simp_all add: shut_down_def)

lemma embedded_step_cases:
  assumes "embedded_step_instruction shown W i n label s = (r, s')"
  obtains (refused) e where "r = Inl e" "s' = s" "em_closed s \<or> check_instruction i n = Inl e"
  | (broken) w e where "\<not> em_closed s" "check_instruction i n = Inr ()" "sw_step W i n (em_worker s) = (Inl e, w)" "is_worker_error e"
      "s' = shut_down W w s" "r = Inr (embedded_result s ''failed'' 2 [] (shown e))"
  | (raised) w e where "\<not> em_closed s" "check_instruction i n = Inr ()" "sw_step W i n (em_worker s) = (Inl e, w)" "\<not> is_worker_error e"
      "s' = s\<lparr>em_worker := w\<rparr>" "r = Inl e"
  | (committed) w where "\<not> em_closed s" "check_instruction i n = Inr ()" "sw_step W i n (em_worker s) = (Inr 0, w)"
      "s' = s\<lparr>em_worker := w, em_history := em_history s @ [(i, n, label)]\<rparr>"
      "r = Inr (embedded_result s' ''committed'' 0 (status_line 0) [])"
  | (rejected) status w w' where "\<not> em_closed s" "check_instruction i n = Inr ()" "sw_step W i n (em_worker s) = (Inr status, w)" "status \<noteq> 0"
      "restore_prefix W (em_history s) w = (Inr (), w')" "s' = s\<lparr>em_worker := w'\<rparr>"
      "r = Inr (embedded_result s ''rejected'' 1 (status_line status) [])"
  | (lost) status w e w' where "\<not> em_closed s" "check_instruction i n = Inr ()" "sw_step W i n (em_worker s) = (Inr status, w)" "status \<noteq> 0"
      "restore_prefix W (em_history s) w = (Inl e, w')" "is_restore_error e" "s' = shut_down W w' s"
      "\<exists>t. r = Inr (embedded_result s ''failed'' 2 (status_line status) t)"
  | (unrestored) status w e w' where "\<not> em_closed s" "check_instruction i n = Inr ()" "sw_step W i n (em_worker s) = (Inr status, w)" "status \<noteq> 0"
      "restore_prefix W (em_history s) w = (Inl e, w')" "\<not> is_restore_error e" "s' = s\<lparr>em_worker := w'\<rparr>" "r = Inl e"
proof (cases "rbind (embedded_check_open s) (\<lambda>_. check_instruction i n)")
  case (Inl e)
  with assms have "r = Inl e" "s' = s" by (simp_all add: embedded_step_instruction_def)
  moreover from Inl have "em_closed s \<or> check_instruction i n = Inl e"
    by (auto simp: embedded_check_open_def res_simps split: if_splits)
  ultimately show thesis by (rule refused)
next
  case (Inr u)
  then have o: "\<not> em_closed s" "check_instruction i n = Inr ()"
    by (auto simp: res_simps embedded_check_open_def split: if_splits)
  note eq = assms [unfolded embedded_step_instruction_def Inr sum.case]
  obtain q w where q: "sw_step W i n (em_worker s) = (q, w)" by (cases "sw_step W i n (em_worker s)")
  obtain q' w' where q': "restore_prefix W (em_history s) w = (q', w')" by (cases "restore_prefix W (em_history s) w")
  show thesis
  proof (cases q)
    case (Inl e)
    show thesis
    proof (cases "is_worker_error e")
      case True
      with eq q Inl o show thesis by (intro broken) auto
    next
      case False
      with eq q Inl o show thesis by (intro raised) auto
    qed
  next
    case (Inr status)
    show thesis
    proof (cases "status = 0")
      case True
      with eq q Inr o show thesis by (intro committed) (auto simp: Let_def)
    next
      case False
      show thesis
      proof (cases q')
        case (Inl e)
        show thesis
        proof (cases "is_restore_error e")
          case True
          with eq q \<open>q = Inr status\<close> False q' Inl o show thesis by (intro lost) auto
        next
          case nr: False
          with eq q \<open>q = Inr status\<close> False q' Inl o show thesis by (intro unrestored) auto
        qed
      next
        case (Inr v)
        with eq q \<open>q = Inr status\<close> False q' o show thesis by (intro rejected) auto
      qed
    qed
  qed
qed

lemma embedded_reset_cases:
  assumes "embedded_reset sha W snap s = (r, s')"
  obtains (refused) e where "r = Inl e" "s' = s"
      "rbind (embedded_check_open s) (\<lambda>_. case snap of None \<Rightarrow> Inr ()
        | Some sn \<Rightarrow> validate_snapshot (embedded_digest sha) (em_session_id s) (em_history s) sn) = Inl e"
  | (lost) e w where "\<not> em_closed s" "r = Inl e" "is_restore_error e" "s' = shut_down W w s"
  | (raised) e w prefix where "\<not> em_closed s"
      "prefix = (case snap of None \<Rightarrow> [] | Some sn \<Rightarrow> take (nat (sn_step_count sn)) (em_history s))"
      "restore_prefix W prefix (em_worker s) = (Inl e, w)" "r = Inl e"
      "\<not> is_restore_error e" "s' = s\<lparr>em_worker := w\<rparr>"
  | (restored) w prefix where "\<not> em_closed s" "r = Inr ()"
      "prefix = (case snap of None \<Rightarrow> [] | Some sn \<Rightarrow> take (nat (sn_step_count sn)) (em_history s))"
      "\<forall>sn. snap = Some sn \<longrightarrow> validate_snapshot (embedded_digest sha) (em_session_id s) (em_history s) sn = Inr ()"
      "restore_prefix W prefix (em_worker s) = (Inr (), w)" "s' = s\<lparr>em_worker := w, em_history := prefix\<rparr>"
proof -
  let ?v = "rbind (embedded_check_open s) (\<lambda>_. case snap of None \<Rightarrow> Inr ()
        | Some sn \<Rightarrow> validate_snapshot (embedded_digest sha) (em_session_id s) (em_history s) sn)"
  show thesis
  proof (cases ?v)
    case (Inl e)
    with assms have "r = Inl e" "s' = s" by (simp_all add: embedded_reset_def)
    then show thesis using Inl by (rule refused)
  next
    case (Inr u)
    then have o: "\<not> em_closed s"
      "\<forall>sn. snap = Some sn \<longrightarrow> validate_snapshot (embedded_digest sha) (em_session_id s) (em_history s) sn = Inr ()"
      by (auto simp: res_simps embedded_check_open_def split: if_splits option.splits)
    let ?p = "case snap of None \<Rightarrow> [] | Some sn \<Rightarrow> take (nat (sn_step_count sn)) (em_history s)"
    note eq = assms [unfolded embedded_reset_def Inr sum.case Let_def]
    obtain q w where q: "restore_prefix W ?p (em_worker s) = (q, w)" by (cases "restore_prefix W ?p (em_worker s)")
    show thesis
    proof (cases q)
      case (Inl e)
      show thesis
      proof (cases "is_restore_error e")
        case True
        with eq q Inl o show thesis by (intro lost) auto
      next
        case False
        with eq q Inl o show thesis by (intro raised) auto
      qed
    next
      case (Inr v)
      with eq q o show thesis by (intro restored) auto
    qed
  qed
qed

interpretation embedded: session_contract em_history em_closed em_session_id "embedded_digest sha"
  "\<lambda>(i, n, label). embedded_step_instruction shown W i n label" "embedded_snapshot sha" "embedded_reset sha W"
  "embedded_destroy W"
proof (unfold_locales, goal_cases)
  case (1 a s r s')
  then show ?case by (cases a) (auto elim!: embedded_step_cases)
next
  case (2 a s x s')
  then show ?case by (cases a) (auto elim!: embedded_step_cases simp: embedded_result_def)
next
  case (3 a s e s')
  then show ?case by (cases a) (auto elim!: embedded_step_cases)
next
  case (4 a s r s')
  then show ?case by (cases a) (auto elim!: embedded_step_cases)
next
  case (5 s a)
  then show ?case by (cases a) (simp add: embedded_step_instruction_def embedded_check_open_def)
next
  case (8 sn s s')
  then show ?case by (auto elim!: embedded_reset_cases)
next
  case (9 s s')
  then show ?case by (auto elim!: embedded_reset_cases)
qed (auto simp: embedded_snapshot_def embedded_check_open_def embedded_reset_def embedded_destroy_def)


section \<open>Histories\<close>

subsection \<open>What a digest is taken of\<close>

lemma unat_utf8_char:
  "map unat (utf8_char c) =
    (let n = of_char c :: nat in if n < 128 then [n] else [192 + n div 64, 128 + n mod 64])"
proof -
  have lt: "(of_char c :: nat) < 256" by simp
  have u: "unat (of_nat k :: byte) = k" if "k < 256" for k using that by (simp add: unat_of_nat)
  have "(of_char c :: nat) div 64 < 4" using lt by (simp add: less_mult_imp_div_less)
  moreover have "(of_char c :: nat) mod 64 < 64" by simp
  ultimately have "192 + (of_char c :: nat) div 64 < 256" "128 + (of_char c :: nat) mod 64 < 256" by linarith+
  with lt u show ?thesis by (simp add: utf8_char_def Let_def del: of_nat_add)
qed

lemma utf8_char_inj:
  assumes "utf8_char c @ xs = utf8_char d @ ys"
  shows "c = d \<and> xs = ys"
proof -
  let ?m = "of_char c :: nat" and ?n = "of_char d :: nat"
  have eq: "map unat (utf8_char c) @ map unat xs = map unat (utf8_char d) @ map unat ys"
    using assms by (metis map_append)
  then have "?m = ?n"
  proof (cases "?m < 128"; cases "?n < 128")
    assume a: "\<not> ?m < 128" "\<not> ?n < 128"
    with eq have "?m div 64 = ?n div 64" "?m mod 64 = ?n mod 64" by (simp_all add: unat_utf8_char Let_def)
    then show ?thesis by (metis div_mult_mod_eq)
  qed (simp_all add: unat_utf8_char Let_def)
  then have "c = d" by simp
  with assms show ?thesis by simp
qed

lemma utf8_encode_inj: "utf8_encode s = utf8_encode t \<longleftrightarrow> s = t"
proof
  have ne: "utf8_char c \<noteq> []" for c by (simp add: utf8_char_def Let_def)
  show "utf8_encode s = utf8_encode t \<Longrightarrow> s = t"
  proof (induction s arbitrary: t)
    case Nil
    then show ?case using ne by (cases t) (auto simp: utf8_encode_def)
  next
    case (Cons c s)
    then obtain d u where t: "t = d # u" using ne by (cases t) (auto simp: utf8_encode_def)
    with Cons.prems have "utf8_char c @ utf8_encode s = utf8_char d @ utf8_encode u" by (simp add: utf8_encode_def)
    from utf8_char_inj [OF this] Cons.IH t show ?case by simp
  qed
qed simp

lemma length_prefixed_inj:
  assumes "length_prefixed a @ xs = length_prefixed b @ ys" and "int (length a) < 2 ^ 64" and "int (length b) < 2 ^ 64"
  shows "a = b \<and> xs = ys"
proof -
  from assms(1) have "rev (le_bytes 8 (int (length a))) = rev (le_bytes 8 (int (length b)))" and
    rest: "a @ xs = b @ ys" by (simp_all add: length_prefixed_def append_eq_append_conv)
  then have "le_int (le_bytes 8 (int (length a))) = le_int (le_bytes 8 (int (length b)))" by simp
  then have "length a = length b" using assms(2,3) by (simp add: le_int_of_fitting)
  with rest show ?thesis by simp
qed

lemma prefixed_list_inj:
  assumes "concat (map (\<lambda>x. length_prefixed (f x)) xs) = concat (map (\<lambda>x. length_prefixed (f x)) ys)"
    and "\<forall>x \<in> set xs \<union> set ys. int (length (f x)) < 2 ^ 64"
  shows "map f xs = map f ys"
  using assms
proof (induction xs arbitrary: ys)
  have ne: "length_prefixed b \<noteq> []" for b
    using length_le_bytes [of 8 "int (length b)"] by (metis append_is_Nil_conv length_0_conv length_prefixed_def rev_is_Nil_conv zero_neq_numeral)
  {
    case Nil
    then show ?case using ne by (cases ys) auto
  next
    case (Cons x xs)
    then obtain y zs where y: "ys = y # zs" using ne by (cases ys) auto
    with Cons.prems have "length_prefixed (f x) @ concat (map (\<lambda>x. length_prefixed (f x)) xs)
      = length_prefixed (f y) @ concat (map (\<lambda>x. length_prefixed (f x)) zs)" by simp
    from length_prefixed_inj [OF this] Cons.prems(2) y have
      "f x = f y" "concat (map (\<lambda>x. length_prefixed (f x)) xs) = concat (map (\<lambda>x. length_prefixed (f x)) zs)" by simp_all
    with Cons.IH [of zs] Cons.prems(2) y show ?case by simp
  }
qed

lemma instruction_bytes_fields:
  "instruction_history_bytes history =
   concat (map (\<lambda>v. length_prefixed (utf8_encode (py_dec v))) (concat (map (\<lambda>(i, n, _). [i, n]) history)))"
  by (induction history) (auto simp: instruction_history_bytes_def)

lemma fields_inj: "concat (map (\<lambda>(i, n, _). [i, n]) h) = concat (map (\<lambda>(i, n, _). [i, n]) h') \<Longrightarrow>
   map (\<lambda>(i, n, _). (i, n)) h = map (\<lambda>(i, n, _). (i :: int, n :: int)) h'"
proof (induction h arbitrary: h')
  case Nil
  then show ?case by (cases h') auto
next
  case (Cons a h)
  then show ?case by (cases h'; cases a) auto
qed

lemma py_dec_inj: "py_dec i = py_dec j \<longleftrightarrow> i = j"
  by (metis py_int_dec sum.inject(2))

text \<open>The encoded decimal numbers of a history are far shorter than the length field allows.\<close>

lemma length_digits_of: "2 \<le> b \<Longrightarrow> n < b ^ k \<Longrightarrow> 0 < k \<Longrightarrow> length (digits_of b n) \<le> k"
proof (induction k arbitrary: n)
  case (Suc k)
  show ?case
  proof (cases "n < b")
    case True
    then show ?thesis by (simp add: digits_of.simps [of b n])
  next
    case False
    with Suc.prems have "0 < k" by (cases k) auto
    moreover have "n div b < b ^ k" using Suc.prems by (simp add: less_mult_imp_div_less mult.commute)
    ultimately have "length (digits_of b (n div b)) \<le> k" using Suc by blast
    with False Suc.prems show ?thesis by (simp add: digits_of.simps [of b n])
  qed
qed simp


lemma decimal_length: "0 \<le> v \<Longrightarrow> v < 2 ^ 64 \<Longrightarrow> int (length (utf8_encode (py_dec v))) < 2 ^ 64"
proof -
  assume v: "0 \<le> v" "v < 2 ^ 64"
  have two: "length (utf8_encode s) \<le> 2 * length s" for s
    by (induction s) (auto simp: utf8_encode_def utf8_char_def Let_def)
  have "length (py_dec v) \<le> 20"
    unfolding py_dec_def py_format_def using v length_digits_of [of 10 "nat v" 20] by (simp add: nat_less_iff)
  with two [of "py_dec v"] have "length (utf8_encode (py_dec v)) \<le> 40" by linarith
  then show ?thesis by simp
qed

lemma instruction_history_bytes_inj:
  assumes "instruction_history_bytes h = instruction_history_bytes h'"
    and "\<forall>(i, n, _) \<in> set h \<union> set h'. 0 \<le> i \<and> i < 2 ^ 64 \<and> 0 \<le> n \<and> n < 2 ^ 64"
  shows "map (\<lambda>(i, n, _). (i, n)) h = map (\<lambda>(i, n, _). (i, n)) h'"
proof -
  let ?f = "\<lambda>h. concat (map (\<lambda>(i, n, _). [i, n]) h)"
  have "map (\<lambda>v. utf8_encode (py_dec v)) (?f h) = map (\<lambda>v. utf8_encode (py_dec v)) (?f h')"
  proof (rule prefixed_list_inj)
    show "concat (map (\<lambda>v. length_prefixed (utf8_encode (py_dec v))) (?f h)) =
        concat (map (\<lambda>v. length_prefixed (utf8_encode (py_dec v))) (?f h'))"
      using assms(1) by (simp add: instruction_bytes_fields)
    have "0 \<le> v \<and> v < 2 ^ 64" if "v \<in> set (?f h) \<union> set (?f h')" for v
      using assms(2) that by (auto split: prod.splits)
    then show "\<forall>v \<in> set (?f h) \<union> set (?f h'). int (length (utf8_encode (py_dec v))) < 2 ^ 64"
      using decimal_length by blast
  qed
  moreover have "inj (\<lambda>v. utf8_encode (py_dec v))" by (rule injI) (simp add: utf8_encode_inj py_dec_inj)
  ultimately have "?f h = ?f h'" by (simp add: inj_map_eq_map)
  then show ?thesis by (rule fields_inj)
qed

subsection \<open>The machine behind an embedded session\<close>

text \<open>
  What the session relies on of a worker that runs, as \<open>running\<close> tells: a reset brings the machine
  back to its initial state, a step is a function of the machine's state and the instruction, both
  leave the worker running, and they fail with the worker's own exception. \<open>vm\<close> is the machine
  state inside a worker. Of a step this is asked only for instructions and widths that the session
  passes on: the worker answers the others with a \<open>ValueError\<close> (\<open>EmbeddedAslWorker.step\<close>). The theory
  \<open>Session_Worker\<close> proves it of the request loop of \<open>worker.py\<close>.
\<close>

definition replayable ::
  "'w session_worker \<Rightarrow> ('w \<Rightarrow> bool) \<Rightarrow> ('w \<Rightarrow> 'v) \<Rightarrow> ('v \<Rightarrow> int \<Rightarrow> int \<Rightarrow> int \<times> 'v) \<Rightarrow> 'v \<Rightarrow> bool" where
  "replayable W running vm exec init \<longleftrightarrow>
     (\<forall>w w'. running w \<longrightarrow> sw_reset W w = (Inr (), w') \<longrightarrow> running w' \<and> vm w' = init)
   \<and> (\<forall>w e w'. running w \<longrightarrow> sw_reset W w = (Inl e, w') \<longrightarrow> is_worker_error e)
   \<and> (\<forall>i n w st w'. running w \<longrightarrow> check_instruction i n = Inr () \<longrightarrow> sw_step W i n w = (Inr st, w') \<longrightarrow>
        running w' \<and> exec (vm w) i n = (st, vm w'))
   \<and> (\<forall>i n w e w'. running w \<longrightarrow> check_instruction i n = Inr () \<longrightarrow> sw_step W i n w = (Inl e, w') \<longrightarrow> is_worker_error e)"

text \<open>Every recorded instruction passed the check of \<open>step_instruction\<close>.\<close>

definition checked_history :: "instruction_history \<Rightarrow> bool" where
  "checked_history h \<longleftrightarrow> (\<forall>(i, n, _) \<in> set h. check_instruction i n = Inr ())"

fun vm_replay :: "('v \<Rightarrow> int \<Rightarrow> int \<Rightarrow> int \<times> 'v) \<Rightarrow> 'v \<Rightarrow> instruction_history \<Rightarrow> 'v" where
  "vm_replay exec v [] = v"
| "vm_replay exec v ((i, n, _) # h) = vm_replay exec (snd (exec v i n)) h"

fun vm_accepts :: "('v \<Rightarrow> int \<Rightarrow> int \<Rightarrow> int \<times> 'v) \<Rightarrow> 'v \<Rightarrow> instruction_history \<Rightarrow> bool" where
  "vm_accepts exec v [] = True"
| "vm_accepts exec v ((i, n, _) # h) = (fst (exec v i n) = 0 \<and> vm_accepts exec (snd (exec v i n)) h)"

datatype session_op =
    StepInstruction int int string
  | StepSource string string
  | Reset "session_snapshot option"
  | Destroy

definition embedded_apply ::
  "(byte list \<Rightarrow> string) \<Rightarrow> (py_error \<Rightarrow> string) \<Rightarrow> 'w session_worker \<Rightarrow> session_op \<Rightarrow> 'w embedded_session \<Rightarrow> 'w embedded_session" where
  "embedded_apply sha shown W op' s =
     (case op' of
        StepInstruction i n label \<Rightarrow> snd (embedded_step_instruction shown W i n label s)
      | StepSource source label \<Rightarrow> snd (embedded_step shown W source label s)
      | Reset snap \<Rightarrow> snd (embedded_reset sha W snap s)
      | Destroy \<Rightarrow> embedded_destroy W s)"

definition embedded_run ::
  "(byte list \<Rightarrow> string) \<Rightarrow> (py_error \<Rightarrow> string) \<Rightarrow> 'w session_worker \<Rightarrow> session_op list \<Rightarrow> 'w embedded_session \<Rightarrow> 'w embedded_session" where
  "embedded_run sha shown W ops s = foldl (\<lambda>s op'. embedded_apply sha shown W op' s) s ops"

definition process_apply :: "process_env \<Rightarrow> session_op \<Rightarrow> process_session \<Rightarrow> process_session" where
  "process_apply E op' s =
     (case op' of
        StepInstruction i n label \<Rightarrow> snd (process_step_instruction E i n label s)
      | StepSource source label \<Rightarrow> snd (process_step E source label s)
      | Reset snap \<Rightarrow> snd (process_reset E snap s)
      | Destroy \<Rightarrow> process_destroy s)"

definition process_ops :: "process_env \<Rightarrow> session_op list \<Rightarrow> process_session \<Rightarrow> process_session" where
  "process_ops E ops s = foldl (\<lambda>s op'. process_apply E op' s) s ops"

lemma vm_replay_append: "vm_replay exec v (h @ h') = vm_replay exec (vm_replay exec v h) h'"
  by (induction exec v h rule: vm_replay.induct) simp_all

lemma vm_accepts_append:
  "vm_accepts exec v (h @ h') \<longleftrightarrow> vm_accepts exec v h \<and> vm_accepts exec (vm_replay exec v h) h'"
  by (induction exec v h rule: vm_replay.induct) auto

lemma checked_history_simps [simp]:
  "checked_history []" "checked_history ((i, n, l) # h) \<longleftrightarrow> check_instruction i n = Inr () \<and> checked_history h"
  "checked_history (h @ h') \<longleftrightarrow> checked_history h \<and> checked_history h'"
  by (simp_all add: checked_history_def ball_Un)

lemma checked_history_take: "checked_history h \<Longrightarrow> checked_history (take k h)"
  by (auto simp: checked_history_def dest: in_set_takeD)

lemma replayableD:
  assumes "replayable W running vm exec init" and "running w"
  shows "sw_reset W w = (Inr (), w') \<Longrightarrow> running w' \<and> vm w' = init"
    and "sw_reset W w = (Inl e, w') \<Longrightarrow> is_worker_error e"
    and "check_instruction i n = Inr () \<Longrightarrow> sw_step W i n w = (Inr st, w') \<Longrightarrow> running w' \<and> exec (vm w) i n = (st, vm w')"
    and "check_instruction i n = Inr () \<Longrightarrow> sw_step W i n w = (Inl e, w') \<Longrightarrow> is_worker_error e"
  using assms unfolding replayable_def by blast+

lemma worker_error_restore [simp]: "is_worker_error e \<Longrightarrow> is_restore_error e"
  by (simp add: is_restore_error_def)

lemma replay_Inr:
  assumes "replayable W running vm exec init" and "running w" and "checked_history h" and "replay W h w = (Inr (), w')"
  shows "running w' \<and> vm w' = vm_replay exec (vm w) h \<and> vm_accepts exec (vm w) h"
  using assms(2-)
proof (induction h arbitrary: w)
  case (Cons a h)
  obtain i n l where a: "a = (i, n, l)" by (rule prod_cases3)
  obtain q w1 where q: "sw_step W i n w = (q, w1)" by (cases "sw_step W i n w")
  with Cons.prems a have "q = Inr 0" "replay W h w1 = (Inr (), w')" by (cases q; simp split: if_splits)+
  moreover from this q Cons.prems a replayableD(3) [OF assms(1), of w i n 0 w1]
  have "running w1" "exec (vm w) i n = (0, vm w1)" by simp_all
  ultimately show ?case using Cons.IH [of w1] Cons.prems a by simp
qed simp

lemma replay_Inl:
  assumes "replayable W running vm exec init" and "running w" and "checked_history h" and "replay W h w = (Inl e, w')"
  shows "is_worker_error e \<or> \<not> vm_accepts exec (vm w) h \<and> is_restore_error e"
  using assms(2-)
proof (induction h arbitrary: w)
  case (Cons a h)
  obtain i n l where a: "a = (i, n, l)" by (rule prod_cases3)
  with Cons.prems have c: "check_instruction i n = Inr ()" "checked_history h" by simp_all
  obtain q w1 where q: "sw_step W i n w = (q, w1)" by (cases "sw_step W i n w")
  show ?case
  proof (cases q)
    case (Inl e')
    with q c Cons.prems a replayableD(4) [OF assms(1), of w i n e' w1] show ?thesis by simp
  next
    case (Inr st)
    with q c Cons.prems replayableD(3) [OF assms(1), of w i n st w1] have r: "running w1" "exec (vm w) i n = (st, vm w1)"
      by simp_all
    show ?thesis
    proof (cases "st = 0")
      case True
      with q Inr r c a Cons.prems Cons.IH [of w1] show ?thesis by simp
    next
      case False
      with q Inr r a Cons.prems show ?thesis by (auto simp: is_restore_error_def)
    qed
  qed
qed simp

lemma restore_prefix_vm:
  assumes "replayable W running vm exec init" and "running w" and "checked_history h"
  shows "restore_prefix W h w = (Inr (), w') \<Longrightarrow> running w' \<and> vm w' = vm_replay exec init h \<and> vm_accepts exec init h"
    and "restore_prefix W h w = (Inl e, w') \<Longrightarrow> is_worker_error e \<or> \<not> vm_accepts exec init h \<and> is_restore_error e"
proof -
  obtain q w1 where q: "sw_reset W w = (q, w1)" by (cases "sw_reset W w")
  have i: "running w1 \<and> vm w1 = init" if "q = Inr ()" using q that replayableD(1) [OF assms(1,2)] by simp
  show "restore_prefix W h w = (Inr (), w') \<Longrightarrow> running w' \<and> vm w' = vm_replay exec init h \<and> vm_accepts exec init h"
    using q i replay_Inr [OF assms(1) _ assms(3), of w1 w'] by (cases q) (auto simp: restore_prefix_def)
  show "restore_prefix W h w = (Inl e, w') \<Longrightarrow> is_worker_error e \<or> \<not> vm_accepts exec init h \<and> is_restore_error e"
    using q i replay_Inl [OF assms(1) _ assms(3), of w1 e w'] replayableD(2) [OF assms(1,2), of e w1]
    by (cases q) (auto simp: restore_prefix_def)
qed

lemma EmbeddedAslSession_Inr:
  assumes "EmbeddedAslSession W w artifact sid source = Inr s0"
  obtains w1 where "sw_start W source w = (Inr (), w1)" "sw_ping W w1 = (Inr (), em_worker s0)" "em_history s0 = []"
    "\<not> em_closed s0"
proof -
  obtain q w1 where q: "sw_start W source w = (q, w1)" by (cases "sw_start W source w")
  obtain q2 w2 where q2: "sw_ping W w1 = (q2, w2)" by (cases "sw_ping W w1")
  from assms obtain a where a: "artifact = Inr a" by (auto simp: EmbeddedAslSession_def res_simps)
  note eq = assms [unfolded EmbeddedAslSession_def a rbind_simps q prod.case]
  from eq have qr: "q = Inr ()" by (cases q) simp_all
  note eq = eq [unfolded qr sum.case q2 prod.case]
  from eq have "q2 = Inr ()" by (cases q2) simp_all
  with eq q q2 qr show thesis by (intro that [of w1]) auto
qed

text \<open>
  Unless the session is closed, its worker runs, every recorded instruction was checked, and the
  machine is in the state that the committed history leads to.
\<close>

definition in_step ::
  "('w \<Rightarrow> bool) \<Rightarrow> ('w \<Rightarrow> 'v) \<Rightarrow> ('v \<Rightarrow> int \<Rightarrow> int \<Rightarrow> int \<times> 'v) \<Rightarrow> 'v \<Rightarrow> 'w embedded_session \<Rightarrow> bool" where
  "in_step running vm exec init s \<longleftrightarrow> em_closed s
     \<or> running (em_worker s) \<and> checked_history (em_history s)
       \<and> vm (em_worker s) = vm_replay exec init (em_history s) \<and> vm_accepts exec init (em_history s)"

lemma in_step_open:
  assumes "in_step running vm exec init s" and "\<not> em_closed s"
  shows "running (em_worker s)" "checked_history (em_history s)"
    "vm (em_worker s) = vm_replay exec init (em_history s)" "vm_accepts exec init (em_history s)"
  using assms by (simp_all add: in_step_def)

lemma in_step_step:
  assumes "replayable W running vm exec init" and "in_step running vm exec init s"
  shows "in_step running vm exec init (snd (embedded_step_instruction shown W i n label s))"
proof -
  obtain r s' where r: "embedded_step_instruction shown W i n label s = (r, s')"
    by (cases "embedded_step_instruction shown W i n label s")
  then have "in_step running vm exec init s'"
  proof (cases rule: embedded_step_cases)
    case (committed w)
    note s = in_step_open [OF assms(2) committed(1)]
    from replayableD(3) [OF assms(1) s(1) committed(2,3)] s committed show ?thesis
      by (simp add: in_step_def vm_replay_append vm_accepts_append)
  next
    case (rejected status w w')
    note s = in_step_open [OF assms(2) rejected(1)]
    from replayableD(3) [OF assms(1) s(1) rejected(2,3)] have "running w" by simp
    from restore_prefix_vm(1) [OF assms(1) this s(2) rejected(5)] s rejected show ?thesis by (simp add: in_step_def)
  next
    case (unrestored status w e w')
    note s = in_step_open [OF assms(2) unrestored(1)]
    from replayableD(3) [OF assms(1) s(1) unrestored(2,3)] have "running w" by simp
    from restore_prefix_vm(2) [OF assms(1) this s(2) unrestored(5)] s unrestored show ?thesis by auto
  next
    case (raised w e)
    from replayableD(4) [OF assms(1) in_step_open(1) [OF assms(2) raised(1)] raised(2,3)] raised show ?thesis by simp
  qed (use assms(2) in \<open>simp_all add: in_step_def\<close>)
  with r show ?thesis by simp
qed

lemma in_step_reset:
  assumes "replayable W running vm exec init" and "in_step running vm exec init s"
  shows "in_step running vm exec init (snd (embedded_reset sha W snap s))"
proof -
  obtain r s' where r: "embedded_reset sha W snap s = (r, s')" by (cases "embedded_reset sha W snap s")
  have p: "checked_history (case snap of None \<Rightarrow> [] | Some sn \<Rightarrow> take (nat (sn_step_count sn)) (em_history s))"
    if "\<not> em_closed s"
    using in_step_open(2) [OF assms(2) that] by (auto simp: checked_history_take split: option.splits)
  from r have "in_step running vm exec init s'"
  proof (cases rule: embedded_reset_cases)
    case (raised e w prefix)
    with restore_prefix_vm(2) [OF assms(1) in_step_open(1) [OF assms(2) raised(1)] p [OF raised(1)]] show ?thesis
      by auto
  next
    case (restored w prefix)
    with restore_prefix_vm(1) [OF assms(1) in_step_open(1) [OF assms(2) restored(1)] p [OF restored(1)], of w]
      p [OF restored(1)] show ?thesis by (simp add: in_step_def)
  qed (use assms(2) in \<open>simp_all add: in_step_def\<close>)
  with r show ?thesis by simp
qed

lemma in_step_apply:
  assumes "replayable W running vm exec init" and "in_step running vm exec init s"
  shows "in_step running vm exec init (embedded_apply sha shown W op' s)"
proof (cases op')
  case (StepSource source label)
  with in_step_step [OF assms] assms(2) show ?thesis
    by (auto simp: embedded_apply_def embedded_step_def split: sum.splits prod.splits)
next
  case Destroy
  with assms(2) show ?thesis by (simp add: embedded_apply_def embedded_destroy_def in_step_def)
qed (use in_step_step [OF assms] in_step_reset [OF assms] in \<open>simp_all add: embedded_apply_def\<close>)

lemma in_step_run:
  assumes "replayable W running vm exec init" and "in_step running vm exec init s"
  shows "in_step running vm exec init (embedded_run sha shown W ops s)"
  using assms(2) unfolding embedded_run_def
  by (induction ops arbitrary: s) (simp_all add: in_step_apply [OF assms(1)])

lemma in_step_attempts:
  assumes "replayable W running vm exec init" and "in_step running vm exec init s"
  shows "in_step running vm exec init
    (foldl (\<lambda>s a. snd (embedded_step_instruction shown W (fst a) (fst (snd a)) (snd (snd a)) s)) s attempts)"
  using assms(2) by (induction attempts arbitrary: s) (simp_all add: in_step_step [OF assms(1)])

lemma in_step_created:
  assumes "EmbeddedAslSession W w artifact sid source = Inr s0"
    and "\<And>w1 w2. sw_start W source w = (Inr (), w1) \<Longrightarrow> sw_ping W w1 = (Inr (), w2) \<Longrightarrow> running w2 \<and> vm w2 = init"
  shows "in_step running vm exec init s0"
proof -
  from assms(1) obtain w1 where "sw_start W source w = (Inr (), w1)" "sw_ping W w1 = (Inr (), em_worker s0)"
    "em_history s0 = []" by (rule EmbeddedAslSession_Inr)
  with assms(2) show ?thesis by (simp add: in_step_def)
qed

text \<open>
  Resetting an open session to a prefix of its history: it succeeds, or the worker itself failed and
  the session is closed. That a committed prefix is rejected on replay does not happen.
\<close>

lemma embedded_reset_to_prefix:
  assumes "replayable W running vm exec init" and "in_step running vm exec init s" and "\<not> em_closed s"
    and "validate_snapshot (embedded_digest sha) (em_session_id s) (em_history s) sn = Inr ()"
    and "take (nat (sn_step_count sn)) (em_history s) = h"
  shows "case embedded_reset sha W (Some sn) s of
      (Inr _, s') \<Rightarrow> \<not> em_closed s' \<and> em_history s' = h \<and> vm (em_worker s') = vm_replay exec init h
    | (Inl e, s') \<Rightarrow> is_worker_error e \<and> em_closed s'"
proof -
  note o' = in_step_open [OF assms(2,3)]
  have h: "checked_history h" using checked_history_take [OF o'(2)] assms(5) by blast
  have acc: "vm_accepts exec init h"
    using o'(4) vm_accepts_append [of exec init h "drop (nat (sn_step_count sn)) (em_history s)"] assms(5) by auto
  have eq: "embedded_reset sha W (Some sn) s = (case restore_prefix W h (em_worker s) of
      (Inl e, w) \<Rightarrow> (Inl e, if is_restore_error e then shut_down W w s else s\<lparr>em_worker := w\<rparr>)
    | (Inr _, w) \<Rightarrow> (Inr (), s\<lparr>em_worker := w, em_history := h\<rparr>))"
    using assms(3-5) by (simp add: embedded_reset_def embedded_check_open_def res_simps)
  obtain q w' where q: "restore_prefix W h (em_worker s) = (q, w')" by (cases "restore_prefix W h (em_worker s)")
  show ?thesis
  proof (cases q)
    case (Inl e)
    with restore_prefix_vm(2) [OF assms(1) o'(1) h, of e w'] q acc have "is_worker_error e" by simp
    with eq q Inl show ?thesis by simp
  next
    case (Inr u)
    with restore_prefix_vm(1) [OF assms(1) o'(1) h, of w'] q eq assms(3) show ?thesis by simp
  qed
qed

subsection \<open>The programs behind a process session\<close>

definition process_ok :: "process_env \<Rightarrow> process_session \<Rightarrow> bool" where
  "process_ok E s \<longleftrightarrow> length (pa_labels s) = length (pa_operations s)
     \<and> (\<forall>k < length (pa_operations s). fst (process_run E (process_program s (take (Suc k) (pa_operations s)))) = 0)
     \<and> (\<forall>x \<in> set (pa_operations s). py_strip x \<noteq> [])"

lemma process_program_cong:
  "pa_spec s' = pa_spec s \<Longrightarrow> pa_initial_source s' = pa_initial_source s \<Longrightarrow> process_program s' = process_program s"
  by (simp add: process_program_def fun_eq_iff)

lemma process_ok_step:
  assumes "process_ok E s"
  shows "process_ok E (snd (process_step E source label s))"
proof -
  obtain r s' where r: "process_step E source label s = (r, s')" by (cases "process_step E source label s")
  then have "process_ok E s'"
  proof (cases rule: process_step_cases)
    case (ran rc out err)
    show ?thesis
    proof (cases "rc = 0")
      case True
      with ran have "process_program s' = process_program s" by (intro process_program_cong) simp_all
      with True ran assms show ?thesis
        by (auto simp: process_ok_def less_Suc_eq Suc_leI)
    qed (use ran assms in simp)
  qed (use assms in simp)
  with r show ?thesis by simp
qed

lemma process_ok_reset:
  assumes "process_ok E s"
  shows "process_ok E (snd (process_reset E snap s))"
proof -
  have cut: "process_ok E (s\<lparr>pa_operations := take k (pa_operations s), pa_labels := take k (pa_labels s)\<rparr>)" for k
  proof -
    have "process_program (s\<lparr>pa_operations := take k (pa_operations s), pa_labels := take k (pa_labels s)\<rparr>) = process_program s"
      by (rule process_program_cong) simp_all
    with assms show ?thesis by (auto simp: process_ok_def min_def dest: in_set_takeD)
  qed
  from cut [of 0] cut show ?thesis using assms
    by (auto simp: process_reset_def process_check_open_def split: option.splits sum.splits)
qed

lemma process_ok_ops:
  assumes "process_ok E s"
  shows "process_ok E (process_ops E ops s)"
proof -
  have "process_ok E (process_apply E op' s)" if "process_ok E s" for op' s
  proof (cases op')
    case (StepInstruction i n label)
    with that process_ok_step [OF that] show ?thesis
      by (simp add: process_apply_def process_step_instruction_def split: sum.splits)
  next
    case Destroy
    have "process_program (s\<lparr>pa_closed := True\<rparr>) = process_program s" by (rule process_program_cong) simp_all
    with that Destroy show ?thesis by (simp add: process_apply_def process_destroy_def process_ok_def)
  qed (use that process_ok_step process_ok_reset in \<open>simp_all add: process_apply_def\<close>)
  then show ?thesis using assms unfolding process_ops_def by (induction ops arbitrary: s) simp_all
qed


lemma process_snapshot_open: "process_snapshot E p = Inr sn \<Longrightarrow> \<not> pa_closed p"
  by (auto simp: process_snapshot_def process_check_open_def split: if_splits)

lemma process_attempts_open:
  "\<not> pa_closed p \<Longrightarrow> \<not> pa_closed (foldl (\<lambda>s a. snd (process_step E (fst a) (snd a) s)) p ps)"
proof (induction ps arbitrary: p)
  case (Cons a ps)
  obtain r q where "process_step E (fst a) (snd a) p = (r, q)" by (cases "process_step E (fst a) (snd a) p")
  moreover from this Cons.prems have "\<not> pa_closed q" by (auto elim!: process_step_cases split: if_splits)
  ultimately show ?case using Cons.IH by simp
qed simp

subsection \<open>Printed instructions\<close>

lemma is_hex_digit: "d < 16 \<Longrightarrow> is_hex (digit_char d)"
  by (simp add: is_hex_def)

lemma hex_chars: "0 \<le> i \<Longrightarrow> c \<in> set (py_hex i) \<Longrightarrow> is_hex c \<and> \<not> is_space c \<and> c \<noteq> CHR ''_''"
  using digits_of_chars [of 16 c "nat i"] is_hex_digit digit_char_not_space digit_char_plain
  by (fastforce simp: py_hex_def py_format_def)

lemma hex_nonempty: "0 \<le> i \<Longrightarrow> py_hex i \<noteq> []"
  by (simp add: py_hex_def py_format_def)

lemma py_int0_hex:
  assumes "0 \<le> i"
  shows "py_int 0 (''0x'' @ py_hex i) = Inr i"
proof -
  obtain c cs where c: "py_hex i = c # cs" using hex_nonempty [OF assms] by (cases "py_hex i") auto
  have "last (''0x'' @ py_hex i) \<in> set (py_hex i)" using c by simp
  then have strip: "py_strip (''0x'' @ py_hex i) = ''0x'' @ py_hex i"
    using hex_chars [OF assms] by (intro py_strip_id) (auto simp: is_space_def)
  have "parse_digits 16 False 0 (py_hex i) = Some (nat i)"
    using assms parse_digits_digits_of [of 16 "nat i"] by (simp add: py_hex_def py_format_def)
  moreover have "c \<noteq> CHR ''_''" using hex_chars [OF assms, of c] c by simp
  ultimately show ?thesis
    using assms strip c by (simp add: py_int_def parse_int_def parse_unsigned_def parse_base0_def prefix_base_def)
qed

lemma source_number_hex:
  assumes "0 \<le> i" and "r = [] \<or> \<not> is_hex (hd r)"
  shows "source_number (''0x'' @ py_hex i @ r) = Some (''0x'' @ py_hex i, r)"
proof -
  obtain c cs where c: "py_hex i = c # cs" using hex_nonempty [OF assms(1)] by (cases "py_hex i") auto
  have h: "\<forall>x \<in> set (py_hex i). is_hex x" using hex_chars [OF assms(1)] by blast
  have "takeWhile is_hex (py_hex i @ r) = py_hex i" "dropWhile is_hex (py_hex i @ r) = r"
    using h assms(2) by (cases r; simp add: takeWhile_append2 dropWhile_append2)+
  with c h show ?thesis by (simp add: source_number_def)
qed

lemma widths: "n \<in> {16, 32, 48, 64 :: int} \<Longrightarrow> py_dec n \<in> {''16'', ''32'', ''48'', ''64''} \<and> py_int 10 (py_dec n) = Inr n"
proof -
  have "py_dec 16 = ''16''" "py_dec 32 = ''32''" "py_dec 48 = ''48''" "py_dec 64 = ''64''" by code_simp+
  then show "n \<in> {16, 32, 48, 64} \<Longrightarrow> ?thesis" by auto
qed

lemma skip_ws_id: "s = [] \<or> \<not> is_space (hd s) \<Longrightarrow> skip_ws s = s"
  by (cases s) (auto simp: skip_ws_def)

lemma drop_prefix_append [simp]: "drop_prefix p (p @ s) = Some s"
  by (simp add: drop_prefix_def py_startswith_def)

lemma drop_prefix_other: "c \<noteq> d \<Longrightarrow> drop_prefix (c # p) (d # s) = None"
  by (simp add: drop_prefix_def py_startswith_def)

lemma source_head_plain: "\<not> is_space (hd (r @ s)) \<Longrightarrow> r \<noteq> [] \<Longrightarrow> source_head (skip_ws (''instruction'' @ CHR '' '' # r @ s)) = Some (r @ s)"
proof -
  assume r: "\<not> is_space (hd (r @ s))" "r \<noteq> []"
  have i: "\<not> is_space CHR ''i''" by (simp add: is_space_def)
  have "skip_ws (''instruction'' @ CHR '' '' # r @ s) = ''instruction'' @ CHR '' '' # r @ s"
    by (rule skip_ws_id) (simp add: i)
  moreover have "skip_ws (CHR '' '' # r @ s) = r @ s" using r by (cases r) (simp_all add: skip_ws_def)
  ultimately show "source_head (skip_ws (''instruction'' @ CHR '' '' # r @ s)) = Some (r @ s)"
    unfolding source_head_def by (simp only: drop_prefix_append option.case list.case is_space_blank if_True)
qed

lemma source_head_call: "\<not> is_space (hd (r @ s)) \<Longrightarrow> r \<noteq> [] \<Longrightarrow> source_head (skip_ws (''ExecutePTOInstruction'' @ CHR ''('' # r @ s)) = Some (r @ s)"
proof -
  assume r: "\<not> is_space (hd (r @ s))" "r \<noteq> []"
  have i: "\<not> is_space CHR ''E''" "\<not> is_space CHR ''(''" by (simp_all add: is_space_def)
  have "skip_ws (''ExecutePTOInstruction'' @ CHR ''('' # r @ s) = ''ExecutePTOInstruction'' @ CHR ''('' # r @ s"
    by (rule skip_ws_id) (simp add: i)
  moreover have "skip_ws (CHR ''('' # r @ s) = CHR ''('' # r @ s" by (rule skip_ws_id) (simp add: i)
  moreover have "skip_ws (r @ s) = r @ s" by (rule skip_ws_id) (use r in simp)
  moreover have "drop_prefix ''instruction'' (''ExecutePTOInstruction'' @ CHR ''('' # r @ s) = None"
    unfolding append_Cons by (rule drop_prefix_other) simp
  ultimately show "source_head (skip_ws (''ExecutePTOInstruction'' @ CHR ''('' # r @ s)) = Some (r @ s)"
    unfolding source_head_def by (simp only: drop_prefix_append option.case list.case if_True refl)
qed

lemma py_strip_nonempty: "s \<noteq> [] \<Longrightarrow> \<not> is_space (hd s) \<Longrightarrow> py_strip s \<noteq> []"
  by (cases s) (auto simp: py_strip_def dropWhile_eq_Nil_conv)

text \<open>A number and a width, the separator between them and the end of the text.\<close>

lemma match_number_width:
  assumes "0 \<le> i" and "n \<in> {16, 32, 48, 64}"
    and "source_head (skip_ws source) = Some (''0x'' @ py_hex i @ sep @ py_dec n @ rest)"
    and "sep = '' '' \<or> sep = '', ''" and "rest = [] \<or> rest = '');''"
  shows "match_instruction source = Some (''0x'' @ py_hex i, py_dec n)"
proof -
  have num: "source_number (''0x'' @ py_hex i @ sep @ py_dec n @ rest) = Some (''0x'' @ py_hex i, sep @ py_dec n @ rest)"
    by (rule source_number_hex [OF assms(1)]) (use assms(4) in \<open>auto simp: is_hex_def digit_val_def\<close>)
  have sp: "source_separator (sep @ py_dec n @ rest) = Some (py_dec n @ rest)"
    using assms(4) widths [OF assms(2)] by (auto simp: source_separator_def skip_ws_def is_space_def)
  have "source_width (py_dec n @ rest) = Some (py_dec n)"
    using assms(5) widths [OF assms(2)] by (auto simp: source_width_def skip_optional_def skip_ws_def is_space_def)
  with num sp assms(3) show ?thesis by (simp add: match_instruction_def)
qed

section \<open>Properties\<close>

text \<open>
  C23: an embedded session keeps the machine and the history together. With a worker whose reset
  restores the initial machine and whose steps on checked instructions are a function of the machine,
  after every sequence of instruction steps, source steps, resets and destruction an open session's
  machine is in the state that the committed history leads to from the initial state, and every
  instruction of that history is accepted on the way: a rejected step leaves no trace.
\<close>

theorem embedded_session_replays_history:
  assumes "replayable W running vm exec init"
    and "\<And>w1 w2. sw_start W source w = (Inr (), w1) \<Longrightarrow> sw_ping W w1 = (Inr (), w2) \<Longrightarrow> running w2 \<and> vm w2 = init"
    and "EmbeddedAslSession W w artifact sid source = Inr s0"
    and "s = embedded_run sha shown W ops s0" and "\<not> em_closed s"
  shows "vm (em_worker s) = vm_replay exec init (em_history s) \<and> vm_accepts exec init (em_history s)"
proof -
  from in_step_run [OF assms(1) in_step_created [OF assms(3,2)]] have "in_step running vm exec init s"
    unfolding assms(4) .
  from in_step_open(3,4) [OF this assms(5)] show ?thesis ..
qed

text \<open>
  C24: a process session only ever holds a replayable history: after every sequence of operations
  each prefix of the recorded sources is a program that ASLRef ran to exit code zero, no source
  is blank and there is one label per source.
\<close>

theorem process_session_invariant:
  assumes "ProcessAslSession launcher timeout artifact spec sid source = Inr s0" and "s = process_ops E ops s0"
  shows "length (pa_labels s) = length (pa_operations s)
    \<and> (\<forall>k < length (pa_operations s). fst (process_run E (process_program s (take (Suc k) (pa_operations s)))) = 0)
    \<and> (\<forall>x \<in> set (pa_operations s). py_strip x \<noteq> [])"
proof -
  have "process_ok E s0" using assms(1)
    by (auto simp: ProcessAslSession_def process_ok_def res_simps split: if_splits)
  from process_ok_ops [OF this] show ?thesis unfolding assms(2) process_ok_def .
qed

text \<open>
  C25: a snapshot is a restore point of both kinds of session. However many steps are tried after it
  was taken, committed or not, the session still accepts it as one of its own states. A process
  session that is reset to it always gets exactly the sources it was taken of. An embedded session
  that the steps did not close gets back the history it was taken of with the machine in the state it
  had then; the only other outcome is that the worker itself fails, which closes the session, and
  never that a committed instruction is rejected on replay.
\<close>

theorem snapshot_restores_history:
  assumes "process_snapshot E p = Inr sn" and "p' = foldl (\<lambda>s a. snd (process_step E (fst a) (snd a) s)) p ps"
    and "replayable W running vm exec init"
    and "\<And>w1 w2. sw_start W source w = (Inr (), w1) \<Longrightarrow> sw_ping W w1 = (Inr (), w2) \<Longrightarrow> running w2 \<and> vm w2 = init"
    and "EmbeddedAslSession W w artifact sid source = Inr s0" and "m = embedded_run sha shown W ops s0"
    and "embedded_snapshot sha m = Inr sm"
    and "m' = foldl (\<lambda>s a. snd (embedded_step_instruction shown W (fst a) (fst (snd a)) (snd (snd a)) s)) m ms"
  shows "validate_snapshot (process_digest E) (pa_session_id p') (pa_operations p') sn = Inr ()
    \<and> (\<exists>p''. process_reset E (Some sn) p' = (Inr (), p'') \<and> pa_operations p'' = pa_operations p)
    \<and> validate_snapshot (embedded_digest sha) (em_session_id m') (em_history m') sm = Inr ()
    \<and> (\<not> em_closed m' \<longrightarrow> (case embedded_reset sha W (Some sm) m' of
          (Inr _, m'') \<Rightarrow> \<not> em_closed m'' \<and> em_history m'' = em_history m \<and> vm (em_worker m'') = vm (em_worker m)
        | (Inl e, m'') \<Rightarrow> is_worker_error e \<and> em_closed m''))"
proof (intro conjI impI)
  from process.snapshot_stays_valid [of E p sn p' ps] assms(1,2)
  have v: "validate_snapshot (process_digest E) (pa_session_id p') (pa_operations p') sn = Inr ()"
    "take (nat (sn_step_count sn)) (pa_operations p') = pa_operations p" by (simp_all add: case_prod_beta)
  then show "validate_snapshot (process_digest E) (pa_session_id p') (pa_operations p') sn = Inr ()" by simp
  have "\<not> pa_closed p'" unfolding assms(2) using process_snapshot_open [OF assms(1)] by (rule process_attempts_open)
  with v show "\<exists>p''. process_reset E (Some sn) p' = (Inr (), p'') \<and> pa_operations p'' = pa_operations p"
    by (simp add: process_reset_def process_check_open_def)
next
  from embedded.snapshot_stays_valid [of sha m sm m' shown W ms] assms(7,8)
  have v: "validate_snapshot (embedded_digest sha) (em_session_id m') (em_history m') sm = Inr ()"
    "take (nat (sn_step_count sm)) (em_history m') = em_history m" by (simp_all add: case_prod_beta)
  then show "validate_snapshot (embedded_digest sha) (em_session_id m') (em_history m') sm = Inr ()" by simp
  have m: "in_step running vm exec init m"
    using in_step_run [OF assms(3) in_step_created [OF assms(5,4)]] unfolding assms(6) .
  from in_step_attempts [OF assms(3) m] have m': "in_step running vm exec init m'" unfolding assms(8) .
  have "\<not> em_closed m" using assms(7) by (auto simp: embedded_snapshot_def embedded_check_open_def split: if_splits)
  from in_step_open(3) [OF m this] have vm: "vm_replay exec init (em_history m) = vm (em_worker m)" ..
  assume "\<not> em_closed m'"
  from embedded_reset_to_prefix [OF assms(3) m' this v, unfolded vm]
  show "case embedded_reset sha W (Some sm) m' of
      (Inr _, m'') \<Rightarrow> \<not> em_closed m'' \<and> em_history m'' = em_history m \<and> vm (em_worker m'') = vm (em_worker m)
    | (Inl e, m'') \<Rightarrow> is_worker_error e \<and> em_closed m''"
    by blast
qed

text \<open>
  C26: what is hashed determines the history: two histories of sources, or of instructions, have
  the same hash input only when they are the same sources, or the same instructions and widths.
\<close>

theorem history_encoding_injective:
  assumes "\<forall>x \<in> set xs \<union> set ys. int (length (utf8_encode x)) < 2 ^ 64"
    and "\<forall>(i, n, _) \<in> set h \<union> set h'. 0 \<le> i \<and> i < 2 ^ 64 \<and> n \<in> {16, 32, 48, 64}"
  shows "(source_history_bytes xs = source_history_bytes ys \<longrightarrow> xs = ys)
    \<and> (instruction_history_bytes h = instruction_history_bytes h' \<longrightarrow>
       map (\<lambda>(i, n, _). (i, n)) h = map (\<lambda>(i, n, _). (i, n)) h')"
proof (intro conjI impI)
  assume "source_history_bytes xs = source_history_bytes ys"
  from prefixed_list_inj [OF this [unfolded source_history_bytes_def] assms(1)]
  have "map utf8_encode xs = map utf8_encode ys" .
  moreover have "inj utf8_encode" by (rule injI) (simp add: utf8_encode_inj)
  ultimately show "xs = ys" by (simp add: inj_map_eq_map)
next
  assume "instruction_history_bytes h = instruction_history_bytes h'"
  then show "map (\<lambda>(i, n, _). (i, n)) h = map (\<lambda>(i, n, _). (i, n)) h'"
  proof (rule instruction_history_bytes_inj, intro ballI)
    fix q assume "q \<in> set h \<union> set h'"
    with assms(2) have "case q of (i, n, _) \<Rightarrow> 0 \<le> i \<and> i < 2 ^ 64 \<and> n \<in> {16, 32, 48, 64}" by blast
    then show "case q of (i, n, _) \<Rightarrow> 0 \<le> i \<and> i < 2 ^ 64 \<and> 0 \<le> n \<and> n < 2 ^ 64" by (cases q) auto
  qed
qed

text \<open>
  The two source forms of an instruction that an embedded session accepts are read back
  exactly: the encoding and the width that were printed.
\<close>

theorem instruction_source_roundtrip:
  assumes "0 \<le> i" and "n \<in> {16, 32, 48, 64}"
  shows "parse_instruction_source (''instruction 0x'' @ py_hex i @ '' '' @ py_dec n) = Inr (i, n)
    \<and> parse_instruction_source (''ExecutePTOInstruction(0x'' @ py_hex i @ '', '' @ py_dec n @ '');'') = Inr (i, n)"
proof -
  let ?a = "''instruction 0x'' @ py_hex i @ '' '' @ py_dec n"
    and ?b = "''ExecutePTOInstruction(0x'' @ py_hex i @ '', '' @ py_dec n @ '');''"
  have z: "\<not> is_space (hd (''0x'' @ s))" for s by (simp add: is_space_def)
  have eq: "?a = ''instruction'' @ CHR '' '' # ''0x'' @ py_hex i @ '' '' @ py_dec n @ []"
    "?b = ''ExecutePTOInstruction'' @ CHR ''('' # ''0x'' @ py_hex i @ '', '' @ py_dec n @ '');''" by simp_all
  have a: "match_instruction ?a = Some (''0x'' @ py_hex i, py_dec n)" unfolding eq(1)
    by (rule match_number_width [OF assms source_head_plain [OF z]]) simp_all
  have b: "match_instruction ?b = Some (''0x'' @ py_hex i, py_dec n)" unfolding eq(2)
    by (rule match_number_width [OF assms source_head_call [OF z]]) simp_all
  have ne: "py_strip ?a \<noteq> []" "py_strip ?b \<noteq> []" by (rule py_strip_nonempty; simp add: is_space_def)+
  show ?thesis
    using a b ne py_int0_hex [OF assms(1)] widths [OF assms(2)] by (simp add: parse_instruction_source_def)
qed


section \<open>Witnesses\<close>

text \<open>
  A counting worker: an instruction adds itself to the machine, and an odd one is rejected after it
  did; an instruction or width out of range raises, as in \<open>EmbeddedAslWorker.step\<close>.
\<close>

definition count_worker :: "int session_worker" where
  "count_worker = \<lparr>sw_start = (\<lambda>src w. (Inr (), w)), sw_ping = (\<lambda>w. (Inr (), w)),
     sw_step = (\<lambda>i n w. case check_instruction i n of Inl e \<Rightarrow> (Inl e, w) | Inr _ \<Rightarrow> (Inr (i mod 2), w + i)), sw_reset = (\<lambda>w. (Inr (), 0)), sw_stop = (\<lambda>w. w)\<rparr>"

definition count_exec :: "int \<Rightarrow> int \<Rightarrow> int \<Rightarrow> int \<times> int" where
  "count_exec v i n = (i mod 2, v + i)"

definition count_session :: "int embedded_session" where
  "count_session = \<lparr>em_artifact = [], em_session_id = ''s'', em_initial_source = [], em_worker = 0, em_history = [],
     em_closed = False\<rparr>"

definition count_ops :: "session_op list" where
  "count_ops = [StepInstruction 4 16 [], StepInstruction 3 16 [], StepInstruction 6 32 []]"

lemma count_worker_replayable: "replayable count_worker (\<lambda>_. True) id count_exec 0"
  by (simp add: replayable_def count_worker_def count_exec_def)

lemma count_worker_fresh:
  "sw_start count_worker [] 0 = (Inr (), w1) \<Longrightarrow> sw_ping count_worker w1 = (Inr (), w2) \<Longrightarrow> True \<and> id w2 = 0"
  by (simp add: count_worker_def)

lemma count_session_new: "EmbeddedAslSession count_worker 0 (Inr []) ''s'' [] = Inr count_session"
  by (simp add: EmbeddedAslSession_def count_worker_def count_session_def)

theorem embedded_session_replays_history_witness:
  "let s = embedded_run (\<lambda>_. []) (\<lambda>_. []) count_worker count_ops count_session in
   em_history s = [(4, 16, []), (6, 32, [])] \<and> em_worker s = vm_replay count_exec 0 (em_history s)
   \<and> vm_accepts count_exec 0 (em_history s)"
proof -
  let ?s = "embedded_run (\<lambda>_. []) (\<lambda>_. []) count_worker count_ops count_session"
  have op: "\<not> em_closed ?s" "em_history ?s = [(4, 16, []), (6, 32, [])]" by code_simp+
  from embedded_session_replays_history [OF count_worker_replayable count_worker_fresh count_session_new refl op(1)] op(2) show ?thesis by (simp only: Let_def id_apply)
qed

definition even_env :: process_env where
  "even_env = \<lparr>pe_aslref = (\<lambda>program. Exited (if CHR ''!'' \<in> set program then 1 else 0) [] []), pe_sha256 = (\<lambda>_. []),
     pe_timeout_text = ''120''\<rparr>"

definition even_session :: process_session where
  "even_session = \<lparr>pa_artifact = [], pa_spec = [], pa_session_id = ''s'', pa_initial_source = [], pa_operations = [],
     pa_labels = [], pa_closed = False\<rparr>"

theorem process_session_invariant_witness:
  "let s = process_ops even_env [StepSource ''a;'' [], StepSource ''!'' [], StepSource ''b;'' []] even_session in
   pa_operations s = [''a;'', ''b;''] \<and> fst (process_run even_env (process_program s (take 1 (pa_operations s)))) = 0"
proof -
  let ?s = "process_ops even_env [StepSource ''a;'' [], StepSource ''!'' [], StepSource ''b;'' []] even_session"
  have "ProcessAslSession True True (Inr []) (Inr []) ''s'' [] = Inr even_session"
    by (simp add: ProcessAslSession_def even_session_def)
  moreover have "pa_operations ?s = [''a;'', ''b;'']" by code_simp
  ultimately show ?thesis
    using process_session_invariant [of True True "Inr []" "Inr []" "''s''" "[]" even_session ?s even_env]
    by (fastforce simp: Let_def)
qed

theorem snapshot_restores_history_witness:
  "let m = embedded_run (\<lambda>_. []) (\<lambda>_. []) count_worker count_ops count_session;
       sm = \<lparr>sn_session_id = ''s'', sn_step_count = 2, sn_history_sha256 = []\<rparr>;
       m' = foldl (\<lambda>s a. snd (embedded_step_instruction (\<lambda>_. []) count_worker (fst a) (fst (snd a)) (snd (snd a)) s)) m
              [(8, 16, []), (5, 16, []), (2, 7, [])] in
   (\<exists>p''. process_reset even_env (Some \<lparr>sn_session_id = ''s'', sn_step_count = 0, sn_history_sha256 = []\<rparr>)
     (snd (process_step even_env ''a;'' [] even_session)) = (Inr (), p'') \<and> pa_operations p'' = [])
   \<and> embedded_snapshot (\<lambda>_. []) m = Inr sm \<and> em_worker m = 10 \<and> em_worker m' = 18 \<and> \<not> em_closed m'
   \<and> (\<exists>m''. embedded_reset (\<lambda>_. []) count_worker (Some sm) m' = (Inr (), m'') \<and> em_history m'' = em_history m
        \<and> em_worker m'' = em_worker m)"
proof -
  let ?m = "embedded_run (\<lambda>_. []) (\<lambda>_. []) count_worker count_ops count_session"
    and ?sm = "\<lparr>sn_session_id = ''s'', sn_step_count = 2, sn_history_sha256 = []\<rparr>"
  let ?ms = "[(8, 16, []), (5, 16, []), (2, 7, [])] :: instruction_history"
  let ?m' = "foldl (\<lambda>s a. snd (embedded_step_instruction (\<lambda>_. []) count_worker (fst a) (fst (snd a)) (snd (snd a)) s)) ?m ?ms"
  let ?sn = "\<lparr>sn_session_id = ''s'', sn_step_count = 0, sn_history_sha256 = []\<rparr>"
  let ?p' = "foldl (\<lambda>s a. snd (process_step even_env (fst a) (snd a) s)) even_session [(''a;'', [])]"
  let ?valid = "validate_snapshot (process_digest even_env) (pa_session_id ?p') (pa_operations ?p') ?sn = Inr ()"
    and ?validm = "validate_snapshot (embedded_digest (\<lambda>_. [])) (em_session_id ?m') (em_history ?m') ?sm = Inr ()"
  have ps: "process_snapshot even_env even_session = Inr ?sn" by code_simp
  have ms: "embedded_snapshot (\<lambda>_. []) ?m = Inr ?sm" by code_simp
  have vals: "em_worker ?m = 10" "em_worker ?m' = 18" "\<not> em_closed ?m'" by code_simp+
  have ok: "fst (embedded_reset (\<lambda>_. []) count_worker (Some ?sm) ?m') = Inr ()" by code_simp
  have "?valid \<and> (\<exists>p''. process_reset even_env (Some ?sn) ?p' = (Inr (), p'') \<and> pa_operations p'' = pa_operations even_session)
    \<and> ?validm \<and> (\<not> em_closed ?m' \<longrightarrow> (case embedded_reset (\<lambda>_. []) count_worker (Some ?sm) ?m' of
          (Inr _, m'') \<Rightarrow> \<not> em_closed m'' \<and> em_history m'' = em_history ?m \<and> id (em_worker m'') = id (em_worker ?m)
        | (Inl e, m'') \<Rightarrow> is_worker_error e \<and> em_closed m''))"
    by (rule snapshot_restores_history [OF ps refl count_worker_replayable _ count_session_new refl ms refl])
      (rule count_worker_fresh)
  note all = this [THEN conjunct2]
  define m'' where "m'' = snd (embedded_reset (\<lambda>_. []) count_worker (Some ?sm) ?m')"
  have m'': "embedded_reset (\<lambda>_. []) count_worker (Some ?sm) ?m' = (Inr (), m'')"
    unfolding m''_def ok [symmetric] by (rule prod.collapse [symmetric])
  have none: "pa_operations even_session = []" by (simp add: even_session_def)
  have "em_history m'' = em_history ?m" "em_worker m'' = em_worker ?m"
    using all [THEN conjunct2, THEN conjunct2, rule_format, OF vals(3), unfolded m'' prod.case sum.case id_apply]
    by blast+
  moreover have "\<exists>p''. process_reset even_env (Some \<lparr>sn_session_id = ''s'', sn_step_count = 0, sn_history_sha256 = []\<rparr>)
     (snd (process_step even_env ''a;'' [] even_session)) = (Inr (), p'') \<and> pa_operations p'' = []"
    by (rule all [THEN conjunct1, unfolded foldl_Cons foldl_Nil fst_conv snd_conv none])
  ultimately show ?thesis using ms vals m'' unfolding Let_def by blast
qed

theorem history_encoding_injective_witness:
  "source_history_bytes [''ab'', ''c''] \<noteq> source_history_bytes [''a'', ''bc'']
   \<and> instruction_history_bytes [(1, 16, [])] \<noteq> instruction_history_bytes [(11, 16, [])]"
proof -
  have "\<forall>x \<in> set [''ab'', ''c''] \<union> set [''a'', ''bc'']. int (length (utf8_encode x)) < 2 ^ 64"
    by (simp add: utf8_encode_def utf8_char_def)
  with history_encoding_injective [of "[''ab'', ''c'']" "[''a'', ''bc'']" "[(1, 16, [])]" "[(11, 16, [])]"]
  show ?thesis by auto
qed

theorem instruction_source_roundtrip_witness:
  "parse_instruction_source (''instruction 0x'' @ py_hex 171 @ '' '' @ py_dec 16) = Inr (171, 16)"
  using instruction_source_roundtrip [of 171 16] by simp

end
