(* ===== verification/Session_Worker.thy ===== *)
theory Session_Worker
  imports Sessions Worker_Protocol
begin

text \<open>
  The embedded session of \<open>asl_model/session.py\<close> on the worker of \<open>asl_model/embedded/worker.py\<close>.
  \<open>EmbeddedAslSession\<close> creates its worker without memory callbacks, so that one turn of the request
  loop settles every request: the process answers, or it asks for memory that nobody attached. The
  methods of \<open>Worker_Protocol\<close> are put in the place of the worker interface of \<open>Sessions\<close>, and what
  the session relies on, \<open>replayable\<close>, is proved of them from what the worker process does with a
  line. The process is a parameter, with the protocol of \<open>Worker.ml\<close> as hypotheses.
\<close>

section \<open>The worker as the session uses it\<close>

text \<open>
  A method call without memory callbacks. The last case does not occur for the calls of a session
  (\<open>request_returns\<close> below).
\<close>

definition session_call :: "('p, 'a) wres \<Rightarrow> ('p embedded_worker, 'a) act" where
  "session_call m w = (case m of MDone (Some r) \<Rightarrow> r | _ \<Rightarrow> (Inl (EmbeddedWorkerError ''no answer''), w))"

definition asl_worker :: "'p process_ops \<Rightarrow> 'p embedded_worker session_worker" where
  "asl_worker P = \<lparr>sw_start = worker_start P, sw_ping = (\<lambda>w. session_call (ping P 1 w) w),
     sw_step = (\<lambda>i n w. session_call (worker_step P 1 i n w) w), sw_reset = (\<lambda>w. session_call (worker_reset P 1 w) w),
     sw_stop = worker_stop\<rparr>"

text \<open>A worker without callbacks, and one whose process runs.\<close>

definition plain_worker :: "'p embedded_worker \<Rightarrow> bool" where
  "plain_worker w \<longleftrightarrow> \<not> ew_has_read w \<and> \<not> ew_has_read_chunk w \<and> \<not> ew_has_write w"

definition connected :: "'p embedded_worker \<Rightarrow> bool" where
  "connected w \<longleftrightarrow> plain_worker w \<and> ew_process w \<noteq> None \<and> ew_initial_source w \<noteq> None"

definition process_vm :: "('p \<Rightarrow> 'v) \<Rightarrow> 'p embedded_worker \<Rightarrow> 'v" where
  "process_vm mach w = mach (the (ew_process w))"

text \<open>The command line of \<open>step\<close>.\<close>

definition step_command :: "int \<Rightarrow> int \<Rightarrow> string" where
  "step_command instruction length_bits = ''step 0x'' @ py_hex instruction @ '' '' @ py_dec length_bits"

text \<open>
  What the process does with a line, for a machine \<open>mach\<close> that it holds: it starts in the initial
  state of the source, \<open>ping\<close> leaves the machine alone, \<open>reset\<close> brings it back, and \<open>step\<close> executes the
  instruction and reports its status. Reading a line fails only by a timeout. Nothing is asked of
  what happens when the process does not answer in this way: the methods refuse such answers.
\<close>

definition speaks ::
  "'p process_ops \<Rightarrow> ('p \<Rightarrow> 'v) \<Rightarrow> ('v \<Rightarrow> int \<Rightarrow> int \<Rightarrow> int \<times> 'v) \<Rightarrow> string \<Rightarrow> 'v \<Rightarrow> bool" where
  "speaks P mach exec source init \<longleftrightarrow>
     (\<forall>p. po_spawn P source = Inr p \<longrightarrow> mach p = init)
   \<and> (\<forall>p e p'. po_readline P p = (Inl e, p') \<longrightarrow> is_worker_error e)
   \<and> (\<forall>p p1 p2. po_write P (''ping'' @ nl) p = (Inr (), p1) \<longrightarrow>
        po_readline P p1 = (Inr (Some ''status 0''), p2) \<longrightarrow> mach p2 = mach p)
   \<and> (\<forall>p p1 p2. po_write P (''reset'' @ nl) p = (Inr (), p1) \<longrightarrow>
        po_readline P p1 = (Inr (Some ''status 0''), p2) \<longrightarrow> mach p2 = init)
   \<and> (\<forall>i n p p1 l st p2. check_instruction i n = Inr () \<longrightarrow> po_write P (step_command i n @ nl) p = (Inr (), p1) \<longrightarrow>
        po_readline P p1 = (Inr (Some l), p2) \<longrightarrow> fst (partition_space l) = ''status'' \<longrightarrow>
        py_int 10 (snd (partition_space l)) = Inr st \<longrightarrow> exec (mach p) i n = (st, mach p2))"

lemma speaksD:
  assumes "speaks P mach exec source init"
  shows "po_spawn P source = Inr p \<Longrightarrow> mach p = init"
    and "po_readline P p = (Inl e, p') \<Longrightarrow> is_worker_error e"
    and "po_write P (''ping'' @ nl) p = (Inr (), p1) \<Longrightarrow> po_readline P p1 = (Inr (Some ''status 0''), p2) \<Longrightarrow> mach p2 = mach p"
    and "po_write P (''reset'' @ nl) p = (Inr (), p1) \<Longrightarrow> po_readline P p1 = (Inr (Some ''status 0''), p2) \<Longrightarrow> mach p2 = init"
    and "check_instruction i n = Inr () \<Longrightarrow> po_write P (step_command i n @ nl) p = (Inr (), p1) \<Longrightarrow>
      po_readline P p1 = (Inr (Some l), p2) \<Longrightarrow> fst (partition_space l) = ''status'' \<Longrightarrow>
      py_int 10 (snd (partition_space l)) = Inr st \<Longrightarrow> exec (mach p) i n = (st, mach p2)"
  using assms unfolding speaks_def by blast+

lemma speaks_readline:
  "speaks P mach exec source init \<Longrightarrow> \<forall>p e p'. po_readline P p = (Inl e, p') \<longrightarrow> is_worker_error e"
  unfolding speaks_def by blast

section \<open>Requests\<close>

text \<open>
  Every request of a worker without callbacks returns after one line: with an exception, which is
  the worker's own unless starting the process raised it, or with the line that was read.
\<close>

lemma serve_plain:
  assumes "plain_worker w" and "ew_process w = Some p"
  obtains (failed) e p' where "serve P (Suc f) w = MDone (Some (Inl e, set_process p' w))"
      "is_worker_error e \<or> po_readline P p = (Inl e, p')"
  | (line) l p' where "po_readline P p = (Inr (Some l), p')" "serve P (Suc f) w = MDone (Some (Inr l, set_process p' w))"
proof -
  obtain q p' where q: "po_readline P p = (q, p')" by (cases "po_readline P p")
  have plain: "\<not> ew_has_read (set_process p' w)" "\<not> ew_has_read_chunk (set_process p' w)" "\<not> ew_has_write (set_process p' w)"
    using assms(1) by (simp_all add: plain_worker_def set_process_def)
  show thesis
  proof (cases q)
    case (Inl e)
    with q assms(2) show thesis by (intro failed [of e p']) (simp_all add: wraise_def)
  next
    case (Inr r)
    show thesis
    proof (cases r)
      case None
      with q Inr assms(2) show thesis
        by (intro failed [of "EmbeddedWorkerError ''worker closed stdout''" p']) (simp_all add: wraise_def is_worker_error_def)
    next
      case (Some l)
      let ?w = "set_process p' w"
      let ?raises = "\<lambda>m :: ('a, string) wres. \<exists>msg. m = MDone (Some (Inl (EmbeddedWorkerError msg), ?w))"
      have refuse: thesis if "serve P (Suc f) w = m" "?raises m" for m
        using that by (auto simp: is_worker_error_def intro: failed)
      have c: "?raises (serve_chunk P p' l ?w k)" for k
        by (auto simp: serve_chunk_def wraise_def plain split: list.splits sum.splits)
      have r: "?raises (serve_read P p' l ?w k)" for k by (simp add: serve_read_def wraise_def plain)
      have wr: "?raises (serve_write P p' l ?w k)" for k by (simp add: serve_write_def wraise_def plain)
      have eq: "serve P (Suc f) w = (if py_startswith l ''mem_read_chunk '' then serve_chunk P p' l ?w (serve P f)
          else if py_startswith l ''mem_read '' then serve_read P p' l ?w (serve P f)
          else if py_startswith l ''mem_write '' then serve_write P p' l ?w (serve P f) else MDone (Some (Inr l, ?w)))"
        using q Inr Some assms(2) by (simp add: Let_def wret_def)
      consider "serve P (Suc f) w = serve_chunk P p' l ?w (serve P f)" | "serve P (Suc f) w = serve_read P p' l ?w (serve P f)"
        | "serve P (Suc f) w = serve_write P p' l ?w (serve P f)" | "serve P (Suc f) w = MDone (Some (Inr l, ?w))"
        using eq by presburger
      then show thesis
      proof cases
        case 4
        then show thesis using q Inr Some by (intro line [of l p']) simp_all
      qed (use refuse c r wr in blast)+
    qed
  qed
qed

lemma request_returns:
  assumes "plain_worker w"
  shows "\<exists>r w'. request P (Suc f) c w = MDone (Some (r, w')) \<and> plain_worker w'"
proof -
  obtain q w1 where q: "worker_start P (case ew_initial_source w of None \<Rightarrow> [] | Some s \<Rightarrow> s) w = (q, w1)"
    by (cases "worker_start P (case ew_initial_source w of None \<Rightarrow> [] | Some s \<Rightarrow> s) w")
  have w1: "plain_worker w1"
    using q assms by (auto simp: worker_start_def plain_worker_def split: option.splits if_splits sum.splits)
  show ?thesis
  proof (cases "\<exists>p. q = Inr () \<and> ew_process w1 = Some p \<and> po_alive P p")
    case True
    then obtain p where p: "q = Inr ()" "ew_process w1 = Some p" "po_alive P p" by blast
    obtain r p1 where r: "po_write P (rstrip_newlines c @ [CHR 0x0A]) p = (r, p1)"
      by (cases "po_write P (rstrip_newlines c @ [CHR 0x0A]) p")
    have w2: "plain_worker (set_process p' w1)" for p' using w1 by (simp add: plain_worker_def set_process_def)
    show ?thesis
    proof (cases r)
      case (Inr u)
      with q p r have eq: "request P (Suc f) c w = serve P (Suc f) (set_process p1 w1)" by (simp add: request_def)
      have "ew_process (set_process p1 w1) = Some p1" by (simp add: set_process_def)
      from serve_plain [OF w2 this, of P f] show ?thesis unfolding eq
        by cases (use w2 in \<open>auto simp: set_process_def\<close>)
    qed (use q p r w2 in \<open>simp add: request_def wraise_def\<close>)
  qed (use q w1 in \<open>auto simp: request_def wraise_def split: sum.splits option.splits\<close>)
qed

lemma request_connected:
  assumes "connected w" and "ew_process w = Some p" and "\<forall>p e p'. po_readline P p = (Inl e, p') \<longrightarrow> is_worker_error e"
  obtains (failed) e w' where "request P (Suc f) c w = MDone (Some (Inl e, w'))" "is_worker_error e"
  | (line) p1 l p2 w' where "po_write P (rstrip_newlines c @ nl) p = (Inr (), p1)" "po_readline P p1 = (Inr (Some l), p2)"
      "request P (Suc f) c w = MDone (Some (Inr l, w'))" "connected w'" "ew_process w' = Some p2"
proof -
  obtain src where src: "ew_initial_source w = Some src" using assms(1) by (auto simp: connected_def)
  have st: "worker_start P src w = (Inr (), w)" using assms(2) src by (simp add: worker_start_def)
  show thesis
  proof (cases "po_alive P p")
    case False
    with assms(2) src st show thesis
      by (intro failed [of "EmbeddedWorkerError ''worker exited''" w]) (simp_all add: request_def wraise_def is_worker_error_def)
  next
    case True
    obtain r p1 where r: "po_write P (rstrip_newlines c @ nl) p = (r, p1)" by (cases "po_write P (rstrip_newlines c @ nl) p")
    show thesis
    proof (cases r)
      case (Inl e)
      with r True assms(2) src st show thesis
        by (intro failed [of "EmbeddedWorkerError ''worker write failed''" "set_process p1 w"])
          (simp_all add: request_def wraise_def is_worker_error_def nl_def)
    next
      case (Inr u)
      with r True assms(2) src st have eq: "request P (Suc f) c w = serve P (Suc f) (set_process p1 w)"
        by (simp add: request_def nl_def)
      have "plain_worker (set_process p1 w)" "ew_process (set_process p1 w) = Some p1"
        using assms(1) by (simp_all add: connected_def plain_worker_def set_process_def)
      from serve_plain [OF this, of P f] show thesis
      proof cases
        case failed': (1 e p')
        show thesis by (rule failed [OF trans [OF eq failed'(1)]]) (use failed'(2) assms(3) in blast)
      next
        case line': (2 l p')
        with r Inr eq assms(1) show thesis
          by (intro line [of p1 l p' "set_process p' (set_process p1 w)"])
            (simp_all add: connected_def plain_worker_def set_process_def)
      qed
    qed
  qed
qed

section \<open>The worker is replayable\<close>

lemma session_call_simps [simp]: "session_call (MDone (Some r)) w = r"
  by (simp add: session_call_def)

lemma wbind_MDone [simp]:
  "wbind (MDone (Some (Inr x, w))) g = g x w" "wbind (MDone (Some (Inl e, w))) g = MDone (Some (Inl e, w))"
  by (simp_all add: wbind_def wraise_def)

lemma rstrip_commands:
  "rstrip_newlines ''ping'' = ''ping''" "rstrip_newlines ''reset'' = ''reset''"
  "check_instruction i n = Inr () \<Longrightarrow> rstrip_newlines (step_command i n) = step_command i n"
proof -
  show "rstrip_newlines ''ping'' = ''ping''" "rstrip_newlines ''reset'' = ''reset''" by code_simp+
  assume "check_instruction i n = Inr ()"
  then have "n \<in> {16, 32, 48, 64}" by (auto simp: check_instruction_def split: if_splits)
  then show "rstrip_newlines (step_command i n) = step_command i n"
    using widths [of n] by (auto simp: rstrip_newlines_def step_command_def)
qed

text \<open>A command whose only good answer is \<open>status 0\<close>.\<close>

lemma status0_call:
  assumes "speaks P mach exec source init" and "connected w" and "ew_process w = Some p" and "rstrip_newlines c = c"
    and "session_call (wbind (request P 1 c w) (expect_status0 msg)) w = (r, w')"
  shows "(case r of Inl e \<Rightarrow> is_worker_error e | Inr _ \<Rightarrow> connected w' \<and> (\<exists>p1 p2. po_write P (c @ nl) p = (Inr (), p1)
      \<and> po_readline P p1 = (Inr (Some ''status 0''), p2) \<and> ew_process w' = Some p2))"
proof -
  from request_connected [where P = P and f = 0 and c = c, OF assms(2,3) speaks_readline [OF assms(1)]] show ?thesis
  proof cases
    case (1 e v)
    with assms(5) show ?thesis by auto
  next
    case line: (2 p1 l p2 v)
    with assms(4,5) show ?thesis
      by (auto simp: expect_status0_def wraise_def wret_def is_worker_error_def split: if_splits)
  qed
qed

lemma step_call:
  assumes "speaks P mach exec source init" and "connected w" and "check_instruction i n = Inr ()"
    and "session_call (worker_step P 1 i n w) w = (r, w')"
  shows "(case r of Inl e \<Rightarrow> is_worker_error e
    | Inr st \<Rightarrow> connected w' \<and> exec (process_vm mach w) i n = (st, process_vm mach w'))"
proof -
  obtain p where p: "ew_process w = Some p" using assms(2) by (auto simp: connected_def)
  have ws: "worker_step P 1 i n w = wbind (request P 1 (step_command i n) w) (expect_int ''status'' ''step'')"
    using assms(3) by (auto simp: worker_step_def check_instruction_def step_command_def split: if_splits)
  from request_connected [where P = P and f = 0 and c = "step_command i n", OF assms(2) p speaks_readline [OF assms(1)]] show ?thesis
  proof cases
    case (1 e v)
    with assms(4) ws show ?thesis by auto
  next
    case line: (2 p1 l p2 v)
    obtain a b where ab: "partition_space l = (a, b)" by (cases "partition_space l")
    have ans: "expect_int ''status'' ''step'' l v = MDone (Some (r, w'))"
      using assms(4) ws line(3)
      by (auto simp: expect_int_def wraise_def wret_def session_call_def split: prod.splits if_splits sum.splits)
    show ?thesis
    proof (cases r)
      case (Inl e)
      with ans ab show ?thesis
        by (auto simp: expect_int_def wraise_def wret_def is_worker_error_def split: if_splits sum.splits)
    next
      case (Inr st)
      with ans ab have "a = ''status''" "py_int 10 b = Inr st" "w' = v"
        by (auto simp: expect_int_def wraise_def wret_def split: if_splits sum.splits)
      with speaksD(5) [OF assms(1,3), of p p1 l p2 st] line ab p Inr rstrip_commands(3) [OF assms(3)] show ?thesis
        by (simp add: process_vm_def)
    qed
  qed
qed

text \<open>
  The hypothesis of the session theorems, for the worker of the repository: on checked instructions
  its methods raise nothing but its own exceptions.
\<close>

lemma asl_worker_replayable:
  assumes "speaks P mach exec source init"
  shows "replayable (asl_worker P) connected (process_vm mach) exec init"
proof -
  have reset: "case r of Inl e \<Rightarrow> is_worker_error e | Inr _ \<Rightarrow> connected w' \<and> process_vm mach w' = init"
    if con: "connected w" and call: "session_call (worker_reset P 1 w) w = (r, w')" for w r w'
  proof -
    obtain p where p: "ew_process w = Some p" using con by (auto simp: connected_def)
    from status0_call [OF assms con p rstrip_commands(2) call [unfolded worker_reset_def]] speaksD(4) [OF assms, of p]
    show ?thesis by (auto simp: process_vm_def split: sum.splits)
  qed
  have sel: "sw_reset (asl_worker P) = (\<lambda>w. session_call (worker_reset P 1 w) w)"
    "sw_step (asl_worker P) = (\<lambda>i n w. session_call (worker_step P 1 i n w) w)" by (simp_all add: asl_worker_def)
  show ?thesis unfolding replayable_def sel
  proof (intro conjI allI impI)
    fix w w' assume "connected w" "session_call (worker_reset P 1 w) w = (Inr (), w')"
    from reset [OF this] show "connected w'" "process_vm mach w' = init" by simp_all
  next
    fix w w' e assume "connected w" "session_call (worker_reset P 1 w) w = (Inl e, w')"
    from reset [OF this] show "is_worker_error e" by simp
  next
    fix i n w st w' assume "connected w" "check_instruction i n = Inr ()" "session_call (worker_step P 1 i n w) w = (Inr st, w')"
    from step_call [OF assms this] show "connected w'" "exec (process_vm mach w) i n = (st, process_vm mach w')" by simp_all
  next
    fix i n w e w' assume "connected w" "check_instruction i n = Inr ()" "session_call (worker_step P 1 i n w) w = (Inl e, w')"
    from step_call [OF assms this] show "is_worker_error e" by simp
  qed
qed

lemma asl_worker_fresh:
  assumes "speaks P mach exec source init"
    and "sw_start (asl_worker P) source (EmbeddedAslWorker False False False) = (Inr (), w1)"
    and "sw_ping (asl_worker P) w1 = (Inr (), w2)"
  shows "connected w2 \<and> process_vm mach w2 = init"
proof -
  from assms(2) obtain p where p: "po_spawn P source = Inr p"
    "w1 = (EmbeddedAslWorker False False False)\<lparr>ew_process := Some p, ew_initial_source := Some source\<rparr>"
    by (auto simp: asl_worker_def worker_start_def EmbeddedAslWorker_def split: sum.splits)
  then have c: "connected w1" "ew_process w1 = Some p"
    by (simp_all add: connected_def plain_worker_def EmbeddedAslWorker_def)
  from assms(3) have "session_call (wbind (request P 1 ''ping'' w1) (expect_status0 ''unexpected ping response'')) w1 = (Inr (), w2)"
    by (simp add: asl_worker_def ping_def)
  from status0_call [OF assms(1) c rstrip_commands(1) this] speaksD(3) [OF assms(1), of p] speaksD(1) [OF assms(1) p(1)]
  show ?thesis by (auto simp: process_vm_def)
qed

section \<open>A closed session has no process\<close>

definition stopped :: "'p embedded_worker embedded_session \<Rightarrow> bool" where
  "stopped s \<longleftrightarrow> (em_closed s \<longrightarrow> ew_process (em_worker s) = None)"

lemma stopped_shut_down [simp]: "stopped (shut_down (asl_worker P) w s)"
  by (simp add: stopped_def shut_down_def asl_worker_def worker_stop_def split: option.splits)

lemma stopped_open: "\<not> em_closed s \<Longrightarrow> stopped s"
  by (simp add: stopped_def)

lemma stopped_step: "stopped s \<Longrightarrow> stopped (snd (embedded_step_instruction shown (asl_worker P) i n label s))"
proof -
  assume s: "stopped s"
  obtain r s' where r: "embedded_step_instruction shown (asl_worker P) i n label s = (r, s')"
    by (cases "embedded_step_instruction shown (asl_worker P) i n label s")
  then have "stopped s'" by (cases rule: embedded_step_cases) (simp_all add: s stopped_open)
  with r show ?thesis by simp
qed

lemma stopped_apply: "stopped s \<Longrightarrow> stopped (embedded_apply sha shown (asl_worker P) op' s)"
proof (cases op')
  case (StepSource source label)
  assume "stopped s"
  with StepSource stopped_step [of s] show ?thesis
    by (auto simp: embedded_apply_def embedded_step_def split: sum.splits prod.splits)
next
  case (Reset snap)
  assume s: "stopped s"
  obtain r s' where r: "embedded_reset sha (asl_worker P) snap s = (r, s')" by (cases "embedded_reset sha (asl_worker P) snap s")
  then have "stopped s'" by (cases rule: embedded_reset_cases) (simp_all add: s stopped_open)
  with r Reset show ?thesis by (simp add: embedded_apply_def)
qed (simp_all add: stopped_step embedded_apply_def embedded_destroy_def)

lemma stopped_run: "stopped s \<Longrightarrow> stopped (embedded_run sha shown (asl_worker P) ops s)"
  unfolding embedded_run_def by (induction ops arbitrary: s) (simp_all add: stopped_apply)

section \<open>Properties\<close>

text \<open>
  CN: an embedded session on the repository's own worker and request loop keeps the worker process
  and the committed history together. Whatever sequence of instruction steps, source steps, resets
  and destruction was applied since the session was created, and however the process or its pipe
  failed on the way: when the session is open, its process runs and holds the machine that the
  committed history leads to from the initial state, every instruction of it accepted; when the
  session is closed, no process is left behind. The process is any one that follows the line
  protocol for some machine.
\<close>

theorem embedded_session_process:
  assumes "speaks P mach exec source init"
    and "EmbeddedAslSession (asl_worker P) (EmbeddedAslWorker False False False) artifact sid source = Inr s0"
    and "s = embedded_run sha shown (asl_worker P) ops s0"
  shows "if em_closed s then ew_process (em_worker s) = None
    else \<exists>p. ew_process (em_worker s) = Some p \<and> mach p = vm_replay exec init (em_history s)
      \<and> vm_accepts exec init (em_history s)"
proof -
  have "in_step connected (process_vm mach) exec init s0"
    by (rule in_step_created [OF assms(2)]) (rule asl_worker_fresh [OF assms(1)])
  from in_step_run [OF asl_worker_replayable [OF assms(1)] this]
  have st: "in_step connected (process_vm mach) exec init s" unfolding assms(3) .
  from assms(2) have "\<not> em_closed s0" by (rule EmbeddedAslSession_Inr)
  from stopped_run [OF stopped_open [OF this]] have "stopped s" unfolding assms(3) .
  then show ?thesis
    using in_step_open [OF st] by (auto simp: stopped_def connected_def process_vm_def)
qed

section \<open>Witnesses\<close>

text \<open>A process that keeps the step lines it executed; a line with the digit \<open>f\<close> is rejected.\<close>

definition log_process :: "(string list \<times> string) process_ops" where
  "log_process = \<lparr>po_spawn = (\<lambda>src. Inr ([], [])), po_write = (\<lambda>line p. (Inr (), (fst p, line))),
     po_readline = (\<lambda>p.
       if snd p = ''ping'' @ nl then (Inr (Some ''status 0''), (fst p, []))
       else if snd p = ''reset'' @ nl then (Inr (Some ''status 0''), ([], []))
       else (Inr (Some (if CHR ''f'' \<in> set (snd p) then ''status 1'' else ''status 0'')), (fst p @ [snd p], []))),
     po_alive = (\<lambda>p. True)\<rparr>"

definition log_exec :: "string list \<Rightarrow> int \<Rightarrow> int \<Rightarrow> int \<times> string list" where
  "log_exec v i n = (if CHR ''f'' \<in> set (step_command i n @ nl) then 1 else 0, v @ [step_command i n @ nl])"

lemma log_process_speaks: "speaks log_process fst log_exec source []"
proof -
  have ps: "partition_space ''status 0'' = (''status'', ''0'')" "partition_space ''status 1'' = (''status'', ''1'')"
    "py_int 10 ''0'' = Inr 0" "py_int 10 ''1'' = Inr 1" by code_simp+
  have ne: "step_command i n \<noteq> ''ping''" "step_command i n \<noteq> ''reset''" for i n
    by (simp_all add: step_command_def)
  show ?thesis unfolding speaks_def log_process_def process_ops.simps
    by (intro conjI allI impI) (auto simp: ps ne log_exec_def split: if_splits)
qed

definition log_session :: "(string list \<times> string) embedded_worker embedded_session" where
  "log_session = \<lparr>em_artifact = [], em_session_id = ''s'', em_initial_source = [],
     em_worker = (EmbeddedAslWorker False False False)\<lparr>ew_process := Some ([], []), ew_initial_source := Some []\<rparr>,
     em_history = [], em_closed = False\<rparr>"

definition log_ops :: "session_op list" where
  "log_ops = [StepInstruction 4 16 [], StepInstruction 15 16 [], StepSource ''instruction 6 32'' []]"

lemma log_session_new:
  "EmbeddedAslSession (asl_worker log_process) (EmbeddedAslWorker False False False) (Inr []) ''s'' [] = Inr log_session"
  by code_simp

theorem embedded_session_process_witness:
  "let s = embedded_run (\<lambda>_. []) (\<lambda>_. []) (asl_worker log_process) log_ops log_session in
   em_history s = [(4, 16, []), (6, 32, [])]
   \<and> (\<exists>p. ew_process (em_worker s) = Some p \<and> fst p = vm_replay log_exec [] [(4, 16, []), (6, 32, [])])
   \<and> ew_process (em_worker (embedded_run (\<lambda>_. []) (\<lambda>_. []) (asl_worker log_process) (log_ops @ [Destroy]) log_session)) = None"
proof -
  let ?s = "embedded_run (\<lambda>_. []) (\<lambda>_. []) (asl_worker log_process) log_ops log_session"
    and ?t = "embedded_run (\<lambda>_. []) (\<lambda>_. []) (asl_worker log_process) (log_ops @ [Destroy]) log_session"
  have vals: "\<not> em_closed ?s" "em_history ?s = [(4, 16, []), (6, 32, [])]" "em_closed ?t" by code_simp+
  note use = embedded_session_process [OF log_process_speaks log_session_new refl]
  have "\<exists>p. ew_process (em_worker ?s) = Some p \<and> fst p = vm_replay log_exec [] [(4, 16, []), (6, 32, [])]"
    using use [of "\<lambda>_. []" "\<lambda>_. []" log_ops, unfolded if_not_P [OF vals(1)] vals(2)] by blast
  moreover have "ew_process (em_worker ?t) = None"
    by (rule use [of "\<lambda>_. []" "\<lambda>_. []" "log_ops @ [Destroy]", unfolded if_P [OF vals(3)]])
  ultimately show ?thesis using vals(2) unfolding Let_def by blast
qed

end
