(* ===== verification/Profile_Text.thy ===== *)
theory Profile_Text
  imports Model_Profile Sessions "HOL-Library.Multiset" "HOL-Library.Sublist" "HOL-Library.List_Lexorder" "HOL-Library.Char_ord"
begin

text \<open>
  The projection of a model profile on the generated ASL text: \<open>materialize_profile\<close> and
  \<open>AslModelProfile.materialize\<close> of \<open>asl_model/runtime/profile.py\<close>. The regular expression of the
  configuration declarations is a matcher of its own; where it backtracks (the type of a
  declaration, the white space at its end) the matcher decides directly. Text is a list of 8-bit
  characters.
\<close>

section \<open>Declarations\<close>

definition newline :: char where "newline = CHR 0x0A"

fun skip_literal :: "string \<Rightarrow> string \<Rightarrow> string option" where
  "skip_literal [] s = Some s"
| "skip_literal (p # ps) [] = None"
| "skip_literal (p # ps) (c # cs) = (if p = c then skip_literal ps cs else None)"

definition skip_space :: "string \<Rightarrow> string" where "skip_space = dropWhile is_space"

definition is_digit :: "char \<Rightarrow> bool" where "is_digit c = (let n = of_char c :: nat in 48 \<le> n \<and> n \<le> 57)"

definition name_char :: "char \<Rightarrow> bool" where
  "name_char c = (is_digit c \<or> c = CHR ''_'' \<or> (let n = of_char c :: nat in 65 \<le> n \<and> n \<le> 90))"

text \<open>\<open>\s*[^=\n]+?\s*\<close> up to the equals sign.\<close>

definition type_text :: "string \<Rightarrow> bool" where
  "type_text t = (list_ex (\<lambda>c. c \<noteq> newline) t \<and> newline \<notin> set (py_strip t))"

text \<open>\<open>TRUE|FALSE|-?[0-9]+\<close>: the text of the value.\<close>

definition match_value :: "string \<Rightarrow> string option" where
  "match_value s =
     (if skip_literal ''TRUE'' s \<noteq> None then Some ''TRUE''
      else if skip_literal ''FALSE'' s \<noteq> None then Some ''FALSE''
      else let sign = (if take 1 s = ''-'' then ''-'' else []); ds = takeWhile is_digit (drop (length sign) s) in
        if ds = [] then None else Some (sign @ ds))"

text \<open>\<open>\s*$\<close>: all of the white space at the end of the text, otherwise up to the last line end in it.\<close>

definition match_line_end :: "string \<Rightarrow> nat option" where
  "match_line_end s =
     (let w = takeWhile is_space s in
      if length w = length s then Some (length w)
      else if newline \<in> set w then Some (length w - Suc (length (takeWhile (\<lambda>c. c \<noteq> newline) (rev w))))
      else None)"

record config_match =
  cm_name :: string
  cm_value :: string
  cm_start :: nat          \<comment> \<open>\<open>match.start("value")\<close>\<close>
  cm_end :: nat            \<comment> \<open>the end of the whole match\<close>

text \<open>The pattern at the beginning of a line, positions relative to it.\<close>

definition match_decl :: "string \<Rightarrow> config_match option" where
  "match_decl s =
     Option.bind (skip_literal ''config'' (skip_space s)) (\<lambda>s2.
     let s3 = skip_space s2 in
     if s3 = s2 then None else
     Option.bind (skip_literal ''PTO_MODEL_'' s3) (\<lambda>s4.
     let tail_name = takeWhile name_char s4 in
     if tail_name = [] then None else
     Option.bind (skip_literal '':'' (skip_space (dropWhile name_char s4))) (\<lambda>s6.
     if \<not> type_text (takeWhile (\<lambda>c. c \<noteq> CHR ''='') s6) then None else
     Option.bind (skip_literal ''='' (dropWhile (\<lambda>c. c \<noteq> CHR ''='') s6)) (\<lambda>s7.
     let s8 = skip_space s7 in
     Option.bind (match_value s8) (\<lambda>value.
     Option.bind (skip_literal '';'' (skip_space (drop (length value) s8))) (\<lambda>s10.
     Option.bind (match_line_end s10) (\<lambda>n.
       Some \<lparr>cm_name = ''PTO_MODEL_'' @ tail_name, cm_value = value,
             cm_start = length s - length s8, cm_end = length s - length s10 + n\<rparr>)))))))"

text \<open>
  \<open>finditer\<close>: the matches from left to right, none of them overlapping; \<open>bol\<close> tells whether the position is at
  the beginning of a line.
\<close>

function finditer :: "nat \<Rightarrow> bool \<Rightarrow> string \<Rightarrow> config_match list" where
  "finditer pos bol [] = []"
| "finditer pos bol (c # cs) =
     (case (if bol then match_decl (c # cs) else None) of
        Some m \<Rightarrow>
          let k = cm_end m - 1 in
          m\<lparr>cm_start := pos + cm_start m, cm_end := pos + cm_end m\<rparr>
          # finditer (pos + Suc k) (last (c # take k cs) = newline) (drop k cs)
      | None \<Rightarrow> finditer (Suc pos) (c = newline) cs)"
  by pat_completeness auto
termination by (relation "measure (\<lambda>(_, _, s). length s)") auto

section \<open>The projection\<close>

definition known_symbols :: "string list" where
  "known_symbols = map fst (the (map_of known_profiles ''linx-runtime''))"

definition portable_values :: "(string \<times> string) list" where
  "portable_values =
     [(''PTO_MODEL_LINX_RUNTIME_COMPAT'', ''FALSE''),
      (''PTO_MODEL_ALLOW_SYSTEM_OPS_IN_NON_SYS_BLOCK'', ''FALSE''),
      (''PTO_MODEL_HOST_MEMORY'', ''FALSE''),
      (''PTO_MODEL_FRAME_SP_INDEX'', ''1''),
      (''PTO_MODEL_LINX_LEGACY_C_BSTOP'', ''FALSE''),
      (''PTO_MODEL_LINX_TRACE_BOUNDARY_COMPAT'', ''FALSE''),
      (''PTO_MODEL_MSET_MAX_BYTES'', ''262144'')]"

text \<open>The loop over the matches: the first symbol that is declared again raises.\<close>

fun collect_matches :: "config_match list \<Rightarrow> (string, config_match) dict \<Rightarrow> (string, config_match) dict res" where
  "collect_matches [] d = Inr d"
| "collect_matches (m # ms) d =
     (if map_of d (cm_name m) \<noteq> None
      then Inl (ProfileError (''ASL artifact declares profile config more than once: '' @ cm_name m))
      else collect_matches ms (d @ [(cm_name m, m)]))"

fun comma_join :: "string list \<Rightarrow> string" where
  "comma_join [] = []"
| "comma_join [t] = t"
| "comma_join (t # ts) = t @ '', '' @ comma_join ts"

definition replacement :: "(string, config_match) dict \<Rightarrow> string \<times> string \<Rightarrow> nat \<times> nat \<times> string" where
  "replacement d sv =
     (let m = the (map_of d (fst sv)) in (cm_start m, cm_start m + length (cm_value m), snd sv))"

definition replace_text :: "nat \<times> nat \<times> string \<Rightarrow> string \<Rightarrow> string" where
  "replace_text r source = (case r of (start, stop, value) \<Rightarrow> take start source @ value @ drop stop source)"

definition materialize_profile :: "string \<Rightarrow> string \<Rightarrow> string res" where
  "materialize_profile source model_profile =
     (if source = [] then Inl (ProfileError ''ASL model profile requires a non-empty artifact'')
      else rbind (profile_select model_profile) (\<lambda>profile.
        rbind (collect_matches (finditer 0 True source) []) (\<lambda>matches.
          let missing = filter (\<lambda>k. map_of matches k = None) known_symbols in
          if missing \<noteq> [] then Inl (ProfileError (''ASL artifact is missing profile config(s): '' @ comma_join (sort missing)))
          else if mp_name profile = ''portable'' then
            (case find (\<lambda>sv. cm_value (the (map_of matches (fst sv))) \<noteq> snd sv) portable_values of
               Some sv \<Rightarrow> Inl (ProfileError (''portable ASL profile requires '' @ fst sv @ ''='' @ snd sv))
             | None \<Rightarrow> Inr source)
          else
            Inr (fold replace_text
                   (sort_key (\<lambda>r. - int (fst r)) (map (replacement matches) (mp_switches profile))) source))))"

text \<open>
  \<open>AslModelProfile.materialize\<close>: the file to use, its name relative to the cache, and the cache of
  profile files; \<open>None\<close> stands for the generated file itself.
\<close>

definition projected_text :: "string \<Rightarrow> string \<Rightarrow> string" where
  "projected_text nm t =
     ''// Generated profile projection; source semantics remain in pto-spec/asl.'' @ [newline]
     @ ''// profile: '' @ nm @ [newline] @ t"

definition materialize ::
  "(byte list \<Rightarrow> string) \<Rightarrow> model_profile \<Rightarrow> string option \<Rightarrow> (string \<Rightarrow> string option) \<Rightarrow>
   string option res \<times> (string \<Rightarrow> string option)" where
  "materialize sha profile source cache =
     (case source of
        None \<Rightarrow> (Inl (FileNotFoundError ''missing generated ASL artifact''), cache)
      | Some s \<Rightarrow>
          (case materialize_profile s (mp_name profile) of
             Inl e \<Rightarrow> (Inl e, cache)
           | Inr t \<Rightarrow>
               if mp_switches profile = [] then (Inr None, cache)
               else
                 let target = ''profiles/'' @ mp_name profile @ ''/'' @ sha (utf8_encode t) @ ''.asl''; projected = projected_text (mp_name profile) t in
                 (Inr (Some target), if cache target = Some projected then cache else cache(target := Some projected))))"

section \<open>Matches\<close>

lemma skip_literal_append: "skip_literal p s = Some r \<longleftrightarrow> s = p @ r"
  by (induction p s rule: skip_literal.induct) auto

lemma skip_space_suffix: "suffix (skip_space s) s"
  by (simp add: skip_space_def suffix_dropWhile)

lemma skip_after: "skip_literal p t = Some r \<Longrightarrow> suffix t s \<Longrightarrow> suffix r s"
  by (auto simp: skip_literal_append suffix_def)

lemma skip_space_after: "suffix t s \<Longrightarrow> suffix (skip_space t) s"
  using skip_space_suffix suffix_order.trans by blast

lemma dropWhile_after: "suffix t s \<Longrightarrow> suffix (dropWhile P t) s"
  using suffix_dropWhile suffix_order.trans by blast

lemma match_value_prefix:
  assumes "match_value s = Some v"
  shows "take (length v) s = v" and "v \<noteq> []"
proof -
  have sign: "s = ''-'' @ drop 1 s" if "take 1 s = ''-''" using that append_take_drop_id [of 1 s] by simp
  have ds: "take (length (takeWhile is_digit t)) t = takeWhile is_digit t" for t
    by (metis takeWhile_eq_take length_takeWhile_le min.absorb2 min.commute length_take)
  show "v \<noteq> []"
    using assms by (auto simp: match_value_def Let_def split: if_splits)
  show "take (length v) s = v"
  proof (cases "take 1 s = ''-''")
    case True
    then obtain t where "s = CHR ''-'' # t" using sign by auto
    then show ?thesis using assms ds by (auto simp: match_value_def Let_def split: if_splits)
  next
    case False
    then show ?thesis
      using assms ds by (auto simp: match_value_def Let_def skip_literal_append split: if_splits)
  qed
qed

lemma match_line_end_le: "match_line_end s = Some n \<Longrightarrow> n \<le> length s"
  using length_takeWhile_le [of is_space s] by (auto simp: match_line_end_def Let_def split: if_splits)

lemma drop_suffix: "suffix t s \<Longrightarrow> drop (length s - length t) s = t"
  by (auto simp: suffix_def)

text \<open>Where a match lies: its value is the text at its start, inside the match.\<close>

lemma match_decl_lies:
  assumes "match_decl s = Some m"
  shows "take (length (cm_value m)) (drop (cm_start m) s) = cm_value m" "cm_value m \<noteq> []"
    "cm_start m + length (cm_value m) \<le> cm_end m" "cm_end m \<le> length s"
proof -
  obtain s2 s4 s6 s7 s10 vt n where
    1: "skip_literal ''config'' (skip_space s) = Some s2" and 2: "skip_literal ''PTO_MODEL_'' (skip_space s2) = Some s4"
    and 3: "skip_literal '':'' (skip_space (dropWhile name_char s4)) = Some s6"
    and 4: "skip_literal ''='' (dropWhile (\<lambda>c. c \<noteq> CHR ''='') s6) = Some s7"
    and 5: "match_value (skip_space s7) = Some vt" and 6: "skip_literal '';'' (skip_space (drop (length vt) (skip_space s7))) = Some s10"
    and 7: "match_line_end s10 = Some n" and m: "cm_value m = vt" "cm_start m = length s - length (skip_space s7)" "cm_end m = length s - length s10 + n"
    using assms by (auto simp: match_decl_def Let_def bind_eq_Some_conv split: if_splits)
  let ?s8 = "skip_space s7"
  have "suffix s2 s" by (rule skip_after [OF 1 skip_space_suffix])
  then have "suffix s4 s" by (rule skip_after [OF 2 skip_space_after])
  then have "suffix s6 s" by (rule skip_after [OF 3 skip_space_after [OF dropWhile_after]])
  then have "suffix s7 s" by (rule skip_after [OF 4 dropWhile_after])
  then have s8: "suffix ?s8 s" by (rule skip_space_after)
  have v: "take (length vt) ?s8 = vt" "vt \<noteq> []"
    using match_value_prefix [OF 5] by auto
  have s10: "length s10 < length (drop (length vt) ?s8)"
    using 6 suffix_length_le [OF skip_space_suffix [of "drop (length vt) ?s8"]] by (auto simp: skip_literal_append)
  have l8: "length vt \<le> length ?s8"
    using v by (metis length_take min.bounded_iff order_refl)
  show "take (length (cm_value m)) (drop (cm_start m) s) = cm_value m" "cm_value m \<noteq> []"
    using v by (simp_all add: m drop_suffix [OF s8])
  have "length s10 < length ?s8 - length vt" "length ?s8 \<le> length s"
    using s10 suffix_length_le [OF s8] by simp_all
  then show "cm_start m + length (cm_value m) \<le> cm_end m" "cm_end m \<le> length s"
    using match_line_end_le [OF 7] l8 by (simp_all add: m)
qed

definition cm_stop :: "config_match \<Rightarrow> nat" where "cm_stop m = cm_start m + length (cm_value m)"

lemma finditer_lies:
  "m \<in> set (finditer pos bol s) \<Longrightarrow>
   pos \<le> cm_start m \<and> cm_stop m \<le> pos + length s \<and> cm_value m \<noteq> []
   \<and> take (length (cm_value m)) (drop (cm_start m - pos) s) = cm_value m"
proof (induction pos bol s rule: finditer.induct)
  case (2 pos bol c cs)
  show ?case
  proof (cases "if bol then match_decl (c # cs) else None")
    case None
    then have m: "m \<in> set (finditer (Suc pos) (c = newline) cs)" using 2(3) by simp
    note ih = 2(1) [OF None m]
    then have "cm_start m - pos = Suc (cm_start m - Suc pos)" by arith
    then have "drop (cm_start m - pos) (c # cs) = drop (cm_start m - Suc pos) cs" by simp
    then show ?thesis
      using ih by auto
  next
    case (Some d)
    then have d: "match_decl (c # cs) = Some d" by (simp split: if_splits)
    note l = match_decl_lies [OF d]
    let ?k = "cm_end d - 1"
    have k: "Suc ?k = cm_end d" "cm_end d \<le> Suc (length cs)"
      using l(2,3,4) by (cases "cm_value d"; simp)+
    consider "m = d\<lparr>cm_start := pos + cm_start d, cm_end := pos + cm_end d\<rparr>"
      | "m \<in> set (finditer (pos + Suc ?k) (last (c # take ?k cs) = newline) (drop ?k cs))"
      using 2(3) Some by (auto simp: Let_def)
    then show ?thesis
    proof cases
      case 1
      then show ?thesis using l k by (simp add: cm_stop_def)
    next
      case 2
      note ih = "2.IH"(2) [OF Some refl 2]
      have "drop (cm_start m - (pos + Suc ?k)) (drop ?k cs) = drop (cm_start m - pos) (c # cs)"
        using ih by (simp add: drop_Cons')
      then show ?thesis
        using ih k by (auto simp: cm_stop_def)
    qed
  qed
qed simp

lemma finditer_apart: "sorted_wrt (\<lambda>m m'. cm_stop m \<le> cm_start m') (finditer pos bol s)"
proof (induction pos bol s rule: finditer.induct)
  case (2 pos bol c cs)
  show ?case
  proof (cases "if bol then match_decl (c # cs) else None")
    case None
    then show ?thesis using 2(1) by simp
  next
    case (Some d)
    then have d: "match_decl (c # cs) = Some d" by (simp split: if_splits)
    note l = match_decl_lies [OF d]
    let ?k = "cm_end d - 1"
    have k: "Suc ?k = cm_end d" using l(2,3) by (cases "cm_value d"; simp)
    have "pos + cm_end d \<le> cm_start m" if "m \<in> set (finditer (pos + Suc ?k) (last (c # take ?k cs) = newline) (drop ?k cs))" for m
      using finditer_lies [OF that] k by simp
    then show ?thesis
      using 2(2) [OF Some refl] Some l(3) by (fastforce simp: Let_def cm_stop_def)
  qed
qed simp

section \<open>Replacement\<close>

text \<open>The text with the values at the given places replaced, from left to right.\<close>

fun replace_at :: "nat \<Rightarrow> string \<Rightarrow> (nat \<times> nat \<times> string) list \<Rightarrow> string" where
  "replace_at pos s [] = s"
| "replace_at pos s ((start, stop, v) # rs) = take (start - pos) s @ v @ replace_at stop (drop (stop - pos) s) rs"

definition places :: "string \<Rightarrow> (nat \<times> nat \<times> string) list \<Rightarrow> bool" where
  "places s rs \<longleftrightarrow> (\<forall>(start, stop, v) \<in> set rs. start < stop \<and> stop \<le> length s)
     \<and> sorted_wrt (\<lambda>(start, stop, v) (start', stop', v'). stop \<le> start') rs"

lemma replace_text_eq: "replace_text (start, stop, v) s = take start s @ v @ drop stop s"
  by (simp add: replace_text_def)

lemma replace_right_to_left:
  assumes "places s rs" and "\<forall>(start, stop, v) \<in> set rs. pos \<le> start" and "pos \<le> length s"
  shows "fold replace_text (rev rs) s = take pos s @ replace_at pos (drop pos s) rs"
  using assms
proof (induction rs arbitrary: pos)
  case (Cons r rs)
  obtain start stop v where r: "r = (start, stop, v)" by (cases r)
  have le: "pos \<le> start" "start < stop" "stop \<le> length s" and rs: "places s rs" "\<forall>(a, b, v) \<in> set rs. stop \<le> a"
    using Cons(2,3) by (auto simp: places_def r)
  have "fold replace_text (rev rs) s = take stop s @ replace_at stop (drop stop s) rs"
    using Cons(1) [OF rs] le by simp
  moreover have "take start s = take pos s @ take (start - pos) (drop pos s)"
    using le by (metis take_add le_add_diff_inverse)
  ultimately show ?case
    using le by (simp add: r replace_text_eq)
qed (simp add: places_def)

lemma sort_places:
  assumes "places s rs" and "mset qs = mset rs"
  shows "sort_key (\<lambda>r. - int (fst r)) qs = rev rs"
proof -
  have st: "sorted_wrt (\<lambda>r r'. fst r < fst r') rs"
    using assms(1) unfolding places_def
    by (auto intro!: sorted_wrt_mono_rel [of rs "\<lambda>(start, stop, v) (start', stop', v'). stop \<le> start'"] simp: case_prod_beta)
  then have "inj_on (\<lambda>r. - int (fst r)) (set rs)"
    by (induction rs) (fastforce simp: inj_on_def)+
  moreover have "sorted (map (\<lambda>r. - int (fst r)) (rev rs))"
    using st by (induction rs) (auto simp: sorted_append intro: less_imp_le)
  ultimately show ?thesis
    using assms(2) by (intro sort_key_inj_key_eq) (auto dest: mset_eq_setD)
qed

lemma collect_matches_Inr:
  assumes "collect_matches ms d = Inr d'"
  shows "d' = d @ map (\<lambda>m. (cm_name m, m)) ms \<and> (\<forall>m \<in> set ms. map_of d (cm_name m) = None) \<and> distinct (map cm_name ms)"
  using assms
proof (induction ms arbitrary: d)
  case (Cons m ms)
  have "collect_matches ms (d @ [(cm_name m, m)]) = Inr d'" and m: "map_of d (cm_name m) = None"
    using Cons(2) by (simp_all split: if_splits)
  note ih = Cons(1) [OF this(1)]
  have "\<forall>x \<in> set ms. map_of d (cm_name x) = None \<and> cm_name x \<noteq> cm_name m"
    using ih by (auto simp: map_add_Some_iff split: if_splits option.splits)
  then show ?case
    using ih m by auto
qed simp

text \<open>The replacements of the profile are the declarations it names, in the order of the text.\<close>

lemma replacements_mset:
  fixes ms :: "config_match list" and sw :: "(string \<times> string) list"
  assumes ms: "distinct (map cm_name ms)" and sw: "distinct (map fst sw)" and all: "fst ` set sw \<subseteq> cm_name ` set ms"
  shows "mset (map (replacement (map (\<lambda>m. (cm_name m, m)) ms)) sw)
       = mset (map (\<lambda>m. (cm_start m, cm_stop m, the (map_of sw (cm_name m)))) (filter (\<lambda>m. map_of sw (cm_name m) \<noteq> None) ms))"
proof -
  let ?d = "map (\<lambda>m. (cm_name m, m)) ms" and ?R = "filter (\<lambda>m. map_of sw (cm_name m) \<noteq> None) ms"
  have look: "map_of ?d (cm_name m) = Some m" if "m \<in> set ms" for m
    using that ms by (intro map_of_is_SomeI) (auto simp: comp_def)
  have inj: "distinct (map (\<lambda>m. (cm_name m, the (map_of sw (cm_name m)))) ?R)"
    using distinct_filter ms by (auto simp: distinct_map inj_on_def)
  have "set (map (\<lambda>m. (cm_name m, the (map_of sw (cm_name m)))) ?R) = set sw"
  proof (intro set_eqI iffI)
    fix kv assume kv: "kv \<in> set sw"
    then obtain m where "m \<in> set ms" "cm_name m = fst kv" using all by force
    moreover have "map_of sw (fst kv) = Some (snd kv)" using map_of_is_SomeI [OF sw] kv by simp
    ultimately show "kv \<in> set (map (\<lambda>m. (cm_name m, the (map_of sw (cm_name m)))) ?R)"
      by (auto simp: image_iff intro!: bexI [of _ m])
  qed (auto dest: map_of_SomeD)
  then have "mset (map (\<lambda>m. (cm_name m, the (map_of sw (cm_name m)))) ?R) = mset sw"
    using inj sw by (intro set_eq_iff_mset_eq_distinct [THEN iffD1]) (auto simp: distinct_map)
  then have "mset (map (replacement ?d) sw) = mset (map (replacement ?d) (map (\<lambda>m. (cm_name m, the (map_of sw (cm_name m)))) ?R))"
    by (simp only: mset_map)
  also have "map (replacement ?d) (map (\<lambda>m. (cm_name m, the (map_of sw (cm_name m)))) ?R)
      = map (\<lambda>m. (cm_start m, cm_stop m, the (map_of sw (cm_name m)))) ?R"
    by (auto simp: replacement_def Let_def look cm_stop_def)
  finally show ?thesis .
qed

lemma replacements_places:
  assumes "\<forall>m \<in> set ms. cm_value m \<noteq> [] \<and> cm_stop m \<le> length s" and "sorted_wrt (\<lambda>m m'. cm_stop m \<le> cm_start m') ms"
  shows "places s (map (\<lambda>m. (cm_start m, cm_stop m, f m)) (filter P ms))"
  using assms by (auto simp: places_def sorted_wrt_map cm_stop_def intro: sorted_wrt_filter)

lemma profile_switches_distinct: "profile_select nm = Inr p \<Longrightarrow> mp_name p = nm \<and> distinct (map fst (mp_switches p)) \<and> set (map fst (mp_switches p)) \<subseteq> set known_symbols"
  by (auto simp: profile_select_def known_profiles_def known_symbols_def split: if_splits)

text \<open>
  C30: What \<open>materialize_profile\<close> returns for a profile other than \<open>portable\<close>: the declarations of
  the model switches are found in the text, each at most once and every known one of them; the result
  is the text with the value of each declaration that the profile names replaced by the value of the
  profile, and everything else as it was. The replacement of the slices from right to left, by
  positions in the original text, hits exactly these values.
\<close>

theorem materialize_profile_exact:
  assumes "materialize_profile source nm = Inr t" and "profile_select nm = Inr p" and "nm \<noteq> ''portable''"
  shows "distinct (map cm_name (finditer 0 True source)) \<and> set known_symbols \<subseteq> cm_name ` set (finditer 0 True source)
    \<and> (\<forall>m \<in> set (finditer 0 True source). take (length (cm_value m)) (drop (cm_start m) source) = cm_value m)
    \<and> t = replace_at 0 source (map (\<lambda>m. (cm_start m, cm_stop m, the (map_of (mp_switches p) (cm_name m))))
            (filter (\<lambda>m. map_of (mp_switches p) (cm_name m) \<noteq> None) (finditer 0 True source)))"
proof -
  let ?ms = "finditer 0 True source" and ?sw = "mp_switches p"
  let ?d = "map (\<lambda>m. (cm_name m, m)) ?ms"
  let ?rs = "map (\<lambda>m. (cm_start m, cm_stop m, the (map_of ?sw (cm_name m)))) (filter (\<lambda>m. map_of ?sw (cm_name m) \<noteq> None) ?ms)"
  have p: "mp_name p = nm" "distinct (map fst ?sw)" "set (map fst ?sw) \<subseteq> set known_symbols"
    using profile_switches_distinct [OF assms(2)] by auto
  obtain d where d: "collect_matches ?ms [] = Inr d" and miss: "filter (\<lambda>k. map_of d k = None) known_symbols = []"
    and t: "t = fold replace_text (sort_key (\<lambda>r. - int (fst r)) (map (replacement d) ?sw)) source"
    using assms p(1) by (auto simp: materialize_profile_def rbind_def Let_def simp del: filter_empty_conv split: if_splits sum.splits)
  have dd: "d = ?d" "distinct (map cm_name ?ms)"
    using collect_matches_Inr [OF d] by auto
  have known: "set known_symbols \<subseteq> cm_name ` set ?ms"
    using miss by (force simp: dd(1) filter_empty_conv map_of_eq_None_iff)
  have lies: "\<forall>m \<in> set ?ms. cm_value m \<noteq> [] \<and> cm_stop m \<le> length source"
    using finditer_lies [of _ 0 True source] by auto
  have places: "places source ?rs"
    by (rule replacements_places [OF lies finditer_apart])
  have "mset (map (replacement d) ?sw) = mset ?rs"
    unfolding dd(1) using replacements_mset [OF dd(2) p(2)] known p(3) by auto
  then have "t = replace_at 0 source ?rs"
    using t sort_places [OF places] replace_right_to_left [OF places, of 0] by simp
  then show ?thesis
    using dd(2) known finditer_lies [of _ 0 True source] by auto
qed

text \<open>The portable profile changes nothing and is accepted exactly for the portable values.\<close>

theorem materialize_portable:
  assumes "source \<noteq> []" and "collect_matches (finditer 0 True source) [] = Inr d" and "\<forall>k \<in> set known_symbols. map_of d k \<noteq> None"
  shows "materialize_profile source ''portable'' = Inr source \<longleftrightarrow> (\<forall>(k, v) \<in> set portable_values. \<exists>m. map_of d k = Some m \<and> cm_value m = v)"
    and "materialize_profile source ''portable'' = Inr t \<Longrightarrow> t = source"
proof -
  have pk: "set (map fst portable_values) \<subseteq> set known_symbols"
    by (simp add: portable_values_def known_symbols_def known_profiles_def)
  have sel: "profile_select ''portable'' = Inr \<lparr>mp_name = ''portable'', mp_switches = []\<rparr>"
    by (simp add: profile_select_def known_profiles_def)
  have miss: "filter (\<lambda>k. map_of d k = None) known_symbols = []"
    using assms(3) by (auto simp: filter_empty_conv)
  have run: "materialize_profile source ''portable'' =
      (case find (\<lambda>sv. cm_value (the (map_of d (fst sv))) \<noteq> snd sv) portable_values of
         Some sv \<Rightarrow> Inl (ProfileError (''portable ASL profile requires '' @ fst sv @ ''='' @ snd sv))
       | None \<Rightarrow> Inr source)"
    using assms(1,2) miss by (simp add: materialize_profile_def sel rbind_def Let_def del: filter_empty_conv)
  show "materialize_profile source ''portable'' = Inr t \<Longrightarrow> t = source"
    by (simp add: run split: option.splits)
  have look: "cm_value (the (map_of d (fst sv))) = snd sv \<longleftrightarrow> (\<exists>m. map_of d (fst sv) = Some m \<and> cm_value m = snd sv)"
    if "sv \<in> set portable_values" for sv
  proof -
    have "fst sv \<in> set known_symbols" using that pk by (metis image_eqI list.set_map subsetD)
    then show ?thesis using assms(3) by auto
  qed
  have "materialize_profile source ''portable'' = Inr source \<longleftrightarrow> (\<forall>sv \<in> set portable_values. cm_value (the (map_of d (fst sv))) = snd sv)"
    by (auto simp: run find_None_iff find_Some_iff split: option.splits)
  also have "\<dots> \<longleftrightarrow> (\<forall>(k, v) \<in> set portable_values. \<exists>m. map_of d k = Some m \<and> cm_value m = v)"
    using look by (auto simp: case_prod_beta)
  finally show "materialize_profile source ''portable'' = Inr source \<longleftrightarrow> (\<forall>(k, v) \<in> set portable_values. \<exists>m. map_of d k = Some m \<and> cm_value m = v)" .
qed

text \<open>Whatever the cache held under that name, the file that \<open>materialize\<close> names has the projected text.\<close>

theorem materialize_file:
  assumes "materialize sha p (Some s) cache = (Inr (Some target), cache')"
  shows "\<exists>t. materialize_profile s (mp_name p) = Inr t \<and> cache' target = Some (projected_text (mp_name p) t)
           \<and> (\<forall>f. f \<noteq> target \<longrightarrow> cache' f = cache f)"
  using assms by (auto simp: materialize_def Let_def split: sum.splits if_splits)

section \<open>Example\<close>

definition profile_demo :: string where
  "profile_demo = concat (map (\<lambda>(k, v). ''config '' @ k @ '' : t = '' @ v @ '';'' @ [newline]) portable_values) @ ''end''"

definition profile_demo_linx :: string where
  "profile_demo_linx =
     concat (map (\<lambda>(k, v). ''config '' @ k @ '' : t = '' @ v @ '';'' @ [newline]) (the (map_of known_profiles ''linx-runtime''))) @ ''end''"

lemma profile_demo_projects: "materialize_profile profile_demo ''linx-runtime'' = Inr profile_demo_linx"
  by code_simp

theorem materialize_profile_exact_witness:
  "profile_demo_linx = replace_at 0 profile_demo
     (map (\<lambda>m. (cm_start m, cm_stop m, the (map_of (the (map_of known_profiles ''linx-runtime'')) (cm_name m))))
        (filter (\<lambda>m. map_of (the (map_of known_profiles ''linx-runtime'')) (cm_name m) \<noteq> None) (finditer 0 True profile_demo)))
   \<and> distinct (map cm_name (finditer 0 True profile_demo))"
proof -
  let ?p = "\<lparr>mp_name = ''linx-runtime'', mp_switches = the (map_of known_profiles ''linx-runtime'')\<rparr>"
  have sel: "profile_select ''linx-runtime'' = Inr ?p"
    by (simp add: profile_select_def known_profiles_def)
  have "''linx-runtime'' \<noteq> ''portable''" by simp
  from materialize_profile_exact [OF profile_demo_projects sel this] show ?thesis
    by simp
qed

end
