(* ===== verification/Worker_Build.thy ===== *)
theory Worker_Build
  imports Sessions
begin

text \<open>
  The cache of native executables: \<open>_ensure_built\<close> and \<open>_cached_identity\<close> of \<open>embedded/worker.py\<close>, and
  \<open>_host_memory_runner\<close> of \<open>pto_asl_model/runner.py\<close>. Both build an executable from the ASLRef checkout
  once and find it again under a digest of everything it was built from.

  The files of the checkouts, the answers of \<open>git\<close> and of the compiler, SHA-256, \<open>json.loads\<close> and the
  text that \<open>json.dumps\<close> writes are parameters. The embedded worker's cache is shared by processes:
  besides the sequential function, its critical section is a step relation of any number of
  processes that read the cache, wait for the file lock, build and publish, or die.
\<close>

section \<open>Identities\<close>

record worker_identity =
  wi_cache_key :: pyval
  wi_aslref_commit :: pyval
  wi_asllib_sha256 :: pyval
  wi_worker_sha256 :: pyval
  wi_spec_sha256 :: pyval
  wi_wrapper_sha256 :: pyval

definition identity_as_dict :: "worker_identity \<Rightarrow> (string, pyval) dict" where
  "identity_as_dict i =
     [(''cache_key'', wi_cache_key i), (''aslref_commit'', wi_aslref_commit i), (''asllib_sha256'', wi_asllib_sha256 i),
      (''worker_sha256'', wi_worker_sha256 i), (''spec_sha256'', wi_spec_sha256 i), (''wrapper_sha256'', wi_wrapper_sha256 i)]"

definition identity_fields :: "string list" where
  "identity_fields = [''cache_key'', ''aslref_commit'', ''asllib_sha256'', ''worker_sha256'', ''spec_sha256'', ''wrapper_sha256'']"

text \<open>\<open>WorkerIdentity(**value)\<close>: any mapping with exactly the fields.\<close>

definition WorkerIdentity :: "pyval \<Rightarrow> worker_identity res" where
  "WorkerIdentity v =
     (case v of
        PDict d \<Rightarrow>
          if list_ex (\<lambda>k. k \<notin> set identity_fields) (map fst d) \<or> list_ex (\<lambda>k. k \<notin> set (map fst d)) identity_fields
          then Inl (TypeError ''unexpected or missing argument'')
          else Inr \<lparr>wi_cache_key = dict_get d ''cache_key'' PNone, wi_aslref_commit = dict_get d ''aslref_commit'' PNone,
                    wi_asllib_sha256 = dict_get d ''asllib_sha256'' PNone, wi_worker_sha256 = dict_get d ''worker_sha256'' PNone,
                    wi_spec_sha256 = dict_get d ''spec_sha256'' PNone, wi_wrapper_sha256 = dict_get d ''wrapper_sha256'' PNone\<rparr>
      | _ \<Rightarrow> Inl (TypeError ''argument after ** must be a mapping''))"

section \<open>What a worker is built from\<close>

text \<open>A finished process: exit code, output, error output.\<close>

type_synonym process_result = "int \<times> string \<times> string"

definition run_git :: "process_result \<Rightarrow> string res" where
  "run_git p = (case p of (rc, out, err) \<Rightarrow>
     if rc \<noteq> 0 then Inl (EmbeddedWorkerError (''failed to inspect ASLRef checkout: '' @ py_strip err)) else Inr (py_strip out))"

definition run_tool :: "string \<Rightarrow> process_result \<Rightarrow> string res" where
  "run_tool tool p = (case p of (rc, out, err) \<Rightarrow>
     if rc \<noteq> 0 then Inl (EmbeddedWorkerError (''failed to run '' @ tool @ '': '' @ py_strip err)) else Inr out)"

text \<open>\<open>_find_tool\<close>: what \<open>shutil.which\<close> found, then the two conventional places.\<close>

definition find_tool :: "string \<Rightarrow> string option \<Rightarrow> string list \<Rightarrow> (string \<Rightarrow> bool) \<Rightarrow> string res" where
  "find_tool name which conventional runnable =
     (case find runnable ((case which of None \<Rightarrow> [] | Some p \<Rightarrow> if p = [] then [] else [p]) @ conventional) of
        None \<Rightarrow> Inl (EmbeddedWorkerError (''required tool is unavailable: '' @ name))
      | Some p \<Rightarrow> Inr p)"

record aslref_site =
  as_spec :: "byte list option"          \<comment> \<open>the ASL artifact\<close>
  as_pin :: "string option"              \<comment> \<open>\<open>.aslref-version\<close>\<close>
  as_has_git :: bool
  as_cmxa :: "byte list option"
  as_interfaces :: bool                  \<comment> \<open>both directories of compiled interfaces\<close>
  as_wrapper :: "byte list"              \<comment> \<open>\<open>Worker.ml\<close>\<close>
  as_which :: "string option"
  as_conventional :: "string list"
  as_runnable :: "string \<Rightarrow> bool"
  as_head :: process_result
  as_porcelain :: process_result
  as_origin :: process_result
  as_origin_pin :: "string option"       \<comment> \<open>\<open>.aslref-origin\<close>\<close>
  as_compiler_version :: "string \<Rightarrow> process_result"

record build_plan =
  bp_cache_key :: string
  bp_aslref_commit :: string
  bp_asllib_sha256 :: string
  bp_wrapper_sha256 :: string
  bp_spec_sha256 :: string
  bp_compiler :: string

definition WORKER_BUILD_SCHEMA :: string where "WORKER_BUILD_SCHEMA = ''pto-asl-embedded-worker-build-v3''"

definition digest_input :: "string list \<Rightarrow> byte list" where
  "digest_input parts = concat (map (\<lambda>part. length_prefixed (utf8_encode part)) parts)"

definition wguard :: "bool \<Rightarrow> string \<Rightarrow> unit res" where
  "wguard ok message = (if ok then Inr () else Inl (EmbeddedWorkerError message))"

definition expected_origin :: "aslref_site \<Rightarrow> string" where
  "expected_origin s = (case as_origin_pin s of None \<Rightarrow> ''https://github.com/herd/herdtools7.git'' | Some t \<Rightarrow> py_strip t)"

text \<open>The checks of \<open>_ensure_built\<close>, up to the cache key.\<close>

definition plan_build :: "(byte list \<Rightarrow> string) \<Rightarrow> aslref_site \<Rightarrow> build_plan res" where
  "plan_build sha s =
     (case (as_spec s, as_pin s) of
        (Some spec, Some pin) \<Rightarrow>
          rbind (wguard (as_has_git s) ''ASLRef checkout is not a Git worktree'') (\<lambda>_.
          (case as_cmxa s of
             None \<Rightarrow> Inl (EmbeddedWorkerError ''ASLRef native asllib artifacts are missing'')
           | Some cmxa \<Rightarrow>
               rbind (wguard (as_interfaces s) ''ASLRef native asllib artifacts are missing'') (\<lambda>_.
               rbind (find_tool ''ocamlopt'' (as_which s) (as_conventional s) (as_runnable s)) (\<lambda>compiler.
               rbind (run_git (as_head s)) (\<lambda>head.
               rbind (wguard (head = py_strip pin) (''ASLRef checkout does not match the pinned commit: expected '' @ py_strip pin @ '', got '' @ head)) (\<lambda>_.
               rbind (run_git (as_porcelain s)) (\<lambda>porcelain.
               rbind (wguard (porcelain = []) ''ASLRef checkout is not clean'') (\<lambda>_.
               rbind (run_git (as_origin s)) (\<lambda>origin.
               rbind (wguard (origin = expected_origin s) (''ASLRef checkout has an unexpected origin: expected '' @ expected_origin s @ '', got '' @ origin)) (\<lambda>_.
               rbind (run_tool compiler (as_compiler_version s compiler)) (\<lambda>version.
                 Inr \<lparr>bp_cache_key = sha (digest_input [WORKER_BUILD_SCHEMA, py_strip pin, sha cmxa, sha (as_wrapper s), sha spec, py_strip version]),
                      bp_aslref_commit = py_strip pin, bp_asllib_sha256 = sha cmxa, bp_wrapper_sha256 = sha (as_wrapper s),
                      bp_spec_sha256 = sha spec, bp_compiler = compiler\<rparr>))))))))))) 
      | _ \<Rightarrow> Inl (EmbeddedWorkerError ''generated ASL artifact or ASLRef pin is missing''))"

section \<open>The cache entry of a key\<close>

record cache_entry =
  en_executable :: "(byte list \<times> bool) option"   \<comment> \<open>content and execute permission\<close>
  en_metadata :: "string option"

definition no_entry :: cache_entry where
  "no_entry = \<lparr>en_executable = None, en_metadata = None\<rparr>"

text \<open>The files are there: the metadata text, to be compared with the executable.\<close>

definition entry_metadata :: "cache_entry \<Rightarrow> string option" where
  "entry_metadata e = (case en_executable e of Some (_, True) \<Rightarrow> en_metadata e | _ \<Rightarrow> None)"

text \<open>The comparison; every exception of the reader means no match.\<close>

definition match_identity ::
  "(byte list \<Rightarrow> string) \<Rightarrow> (string \<Rightarrow> pyval res) \<Rightarrow> string \<Rightarrow> string \<Rightarrow> byte list \<Rightarrow> worker_identity option" where
  "match_identity sha loads key metadata executable =
     (case rbind (loads metadata) WorkerIdentity of
        Inl _ \<Rightarrow> None
      | Inr i \<Rightarrow> if wi_cache_key i = PStr key \<and> wi_worker_sha256 i = PStr (sha executable) then Some i else None)"

definition cached_identity ::
  "(byte list \<Rightarrow> string) \<Rightarrow> (string \<Rightarrow> pyval res) \<Rightarrow> string \<Rightarrow> cache_entry \<Rightarrow> worker_identity option" where
  "cached_identity sha loads key e =
     (case (en_executable e, entry_metadata e) of
        (Some (bs, _), Some metadata) \<Rightarrow> match_identity sha loads key metadata bs
      | _ \<Rightarrow> None)"

definition built_identity :: "(byte list \<Rightarrow> string) \<Rightarrow> build_plan \<Rightarrow> byte list \<Rightarrow> worker_identity" where
  "built_identity sha p bs =
     \<lparr>wi_cache_key = PStr (bp_cache_key p), wi_aslref_commit = PStr (bp_aslref_commit p), wi_asllib_sha256 = PStr (bp_asllib_sha256 p),
      wi_worker_sha256 = PStr (sha bs), wi_spec_sha256 = PStr (bp_spec_sha256 p), wi_wrapper_sha256 = PStr (bp_wrapper_sha256 p)\<rparr>"

section \<open>Compiling\<close>

text \<open>
  The result of the compiler: whether the OCaml libraries are there, the process and the file it
  wrote. A failure reports the end of the error output, or of the output.
\<close>

record compilation =
  cm_libraries :: bool
  cm_process :: process_result
  cm_output :: "byte list option"

definition last_chars :: "nat \<Rightarrow> string \<Rightarrow> string" where
  "last_chars n s = drop (length s - n) s"

definition compile_detail :: "string \<Rightarrow> process_result \<Rightarrow> string" where
  "compile_detail message p = (case p of (rc, out, err) \<Rightarrow>
     let detail = py_strip (if err = [] then out else err) in
     message @ (if detail = [] then [] else '': '' @ last_chars 4000 detail))"

definition compile_worker :: "compilation \<Rightarrow> byte list res" where
  "compile_worker c =
     (if \<not> cm_libraries c then Inl (EmbeddedWorkerError ''OCaml zarith/menhirLib native libraries are missing'')
      else case (cm_output c, fst (cm_process c) = 0) of
             (Some bs, True) \<Rightarrow> Inr bs
           | _ \<Rightarrow> Inl (EmbeddedWorkerError (compile_detail ''failed to build embedded ASLRef worker'' (cm_process c))))"

text \<open>\<open>_gmp_library_dir\<close>: the first directory that has the library, else the system's.\<close>

definition gmp_library_dir :: "string \<Rightarrow> (string \<Rightarrow> bool) \<Rightarrow> string" where
  "gmp_library_dir local_lib has_gmp =
     (case find has_gmp [local_lib, ''/usr/lib/x86_64-linux-gnu'', ''/lib/x86_64-linux-gnu''] of
        None \<Rightarrow> ''/usr/lib/x86_64-linux-gnu''
      | Some d \<Rightarrow> d)"

text \<open>The command line, in order.\<close>

definition compile_command :: "string \<Rightarrow> string \<Rightarrow> bool \<Rightarrow> string list \<Rightarrow> string \<Rightarrow> string list \<Rightarrow> string \<Rightarrow> string \<Rightarrow> string list" where
  "compile_command compiler gmp_dir darwin includes executable dependencies cmxa source =
     [compiler, ''-ccopt'', ''-L'' @ gmp_dir]
     @ (if darwin then [''-cclib'', ''-Wl,-stack_size,0x20000000''] else [])
     @ concat (map (\<lambda>p. [''-I'', p]) includes)
     @ [''-o'', executable] @ dependencies @ [cmxa, source]"

text \<open>\<open>_ensure_built\<close> of one process alone; \<open>dumps\<close> is the metadata text.\<close>

definition ensure_built ::
  "(byte list \<Rightarrow> string) \<Rightarrow> (string \<Rightarrow> pyval res) \<Rightarrow> ((string, pyval) dict \<Rightarrow> string) \<Rightarrow> aslref_site \<Rightarrow> compilation \<Rightarrow>
   (string \<Rightarrow> cache_entry) \<Rightarrow> worker_identity res \<times> (string \<Rightarrow> cache_entry)" where
  "ensure_built sha loads dumps s compilation cache =
     (case plan_build sha s of
        Inl e \<Rightarrow> (Inl e, cache)
      | Inr p \<Rightarrow>
          let key = bp_cache_key p in
          (case cached_identity sha loads key (cache key) of
             Some i \<Rightarrow> (Inr i, cache)
           | None \<Rightarrow>
               (case compile_worker compilation of
                  Inl e \<Rightarrow> (Inl e, cache)
                | Inr bs \<Rightarrow>
                    let entry = \<lparr>en_executable = Some (bs, True), en_metadata = Some (dumps (identity_as_dict (built_identity sha p bs)))\<rparr> in
                    (case cached_identity sha loads key entry of
                       None \<Rightarrow> Inl (EmbeddedWorkerError ''published embedded worker identity does not match executable'')
                     | Some i \<Rightarrow> Inr i, cache(key := entry)))))"

section \<open>Processes that share a cache entry\<close>

text \<open>
  Where a process is in \<open>_ensure_built\<close>, for one key. \<open>_cached_identity\<close> is two steps, the look at the
  files with the metadata text and the hash of the executable; the two \<open>os.replace\<close> are one step
  each. \<open>Checking\<close> to \<open>Verifying\<close> hold the file lock. A process may die at any point, and the
  operating system then releases its lock.
\<close>

datatype build_phase =
    Looking
  | LookedAt string                  \<comment> \<open>the metadata text read outside the lock\<close>
  | Waiting
  | Checking
  | CheckedAt string
  | Building
  | Built "byte list"
  | Placed "byte list"               \<comment> \<open>executable replaced, metadata not yet\<close>
  | Publishing
  | Verifying string
  | Returned worker_identity
  | Raised
  | Dead

fun in_lock :: "build_phase \<Rightarrow> bool" where
  "in_lock Checking = True" | "in_lock (CheckedAt t) = True" | "in_lock Building = True" | "in_lock (Built bs) = True"
| "in_lock (Placed bs) = True" | "in_lock Publishing = True" | "in_lock (Verifying t) = True" | "in_lock _ = False"

record build_state =
  bs_entry :: cache_entry
  bs_lock :: "nat option"
  bs_phase :: "nat \<Rightarrow> build_phase"

definition move :: "nat \<Rightarrow> build_phase \<Rightarrow> build_state \<Rightarrow> build_state" where
  "move p ph s = s\<lparr>bs_phase := (bs_phase s)(p := ph)\<rparr>"

text \<open>Leave the lock.\<close>

definition leave :: "nat \<Rightarrow> build_phase \<Rightarrow> build_state \<Rightarrow> build_state" where
  "leave p ph s = (move p ph s)\<lparr>bs_lock := None\<rparr>"

definition hashed ::
  "(byte list \<Rightarrow> string) \<Rightarrow> (string \<Rightarrow> pyval res) \<Rightarrow> string \<Rightarrow> string \<Rightarrow> build_state \<Rightarrow> worker_identity option" where
  "hashed sha loads key text s =
     (case en_executable (bs_entry s) of None \<Rightarrow> None | Some (bs, _) \<Rightarrow> match_identity sha loads key text bs)"

inductive build_step ::
  "(byte list \<Rightarrow> string) \<Rightarrow> (string \<Rightarrow> pyval res) \<Rightarrow> ((string, pyval) dict \<Rightarrow> string) \<Rightarrow> build_plan \<Rightarrow> build_state \<Rightarrow> build_state \<Rightarrow> bool"
  for sha loads dumps plan where
  look_absent: "bs_phase s p = Looking \<Longrightarrow> entry_metadata (bs_entry s) = None \<Longrightarrow>
     build_step sha loads dumps plan s (move p Waiting s)"
| look: "bs_phase s p = Looking \<Longrightarrow> entry_metadata (bs_entry s) = Some t \<Longrightarrow>
     build_step sha loads dumps plan s (move p (LookedAt t) s)"
| hit: "bs_phase s p = LookedAt t \<Longrightarrow> hashed sha loads (bp_cache_key plan) t s = Some i \<Longrightarrow>
     build_step sha loads dumps plan s (move p (Returned i) s)"
| miss: "bs_phase s p = LookedAt t \<Longrightarrow> hashed sha loads (bp_cache_key plan) t s = None \<Longrightarrow>
     build_step sha loads dumps plan s (move p Waiting s)"
| lock: "bs_phase s p = Waiting \<Longrightarrow> bs_lock s = None \<Longrightarrow>
     build_step sha loads dumps plan s ((move p Checking s)\<lparr>bs_lock := Some p\<rparr>)"
| check_absent: "bs_phase s p = Checking \<Longrightarrow> entry_metadata (bs_entry s) = None \<Longrightarrow>
     build_step sha loads dumps plan s (move p Building s)"
| check: "bs_phase s p = Checking \<Longrightarrow> entry_metadata (bs_entry s) = Some t \<Longrightarrow>
     build_step sha loads dumps plan s (move p (CheckedAt t) s)"
| check_hit: "bs_phase s p = CheckedAt t \<Longrightarrow> hashed sha loads (bp_cache_key plan) t s = Some i \<Longrightarrow>
     build_step sha loads dumps plan s (leave p (Returned i) s)"
| check_miss: "bs_phase s p = CheckedAt t \<Longrightarrow> hashed sha loads (bp_cache_key plan) t s = None \<Longrightarrow>
     build_step sha loads dumps plan s (move p Building s)"
| compiled: "bs_phase s p = Building \<Longrightarrow> build_step sha loads dumps plan s (move p (Built bs) s)"
| compile_failed: "bs_phase s p = Building \<Longrightarrow> build_step sha loads dumps plan s (leave p Raised s)"
| place: "bs_phase s p = Built bs \<Longrightarrow>
     build_step sha loads dumps plan s ((move p (Placed bs) s)\<lparr>bs_entry := (bs_entry s)\<lparr>en_executable := Some (bs, True)\<rparr>\<rparr>)"
| publish: "bs_phase s p = Placed bs \<Longrightarrow>
     build_step sha loads dumps plan s ((move p Publishing s)\<lparr>bs_entry := (bs_entry s)\<lparr>en_metadata :=
        Some (dumps (identity_as_dict (built_identity sha plan bs)))\<rparr>\<rparr>)"
| verify: "bs_phase s p = Publishing \<Longrightarrow> entry_metadata (bs_entry s) = Some t \<Longrightarrow>
     build_step sha loads dumps plan s (move p (Verifying t) s)"
| verify_absent: "bs_phase s p = Publishing \<Longrightarrow> entry_metadata (bs_entry s) = None \<Longrightarrow>
     build_step sha loads dumps plan s (leave p Raised s)"
| verified: "bs_phase s p = Verifying t \<Longrightarrow> hashed sha loads (bp_cache_key plan) t s = Some i \<Longrightarrow>
     build_step sha loads dumps plan s (leave p (Returned i) s)"
| unverified: "bs_phase s p = Verifying t \<Longrightarrow> hashed sha loads (bp_cache_key plan) t s = None \<Longrightarrow>
     build_step sha loads dumps plan s (leave p Raised s)"
| die: "build_step sha loads dumps plan s (if bs_lock s = Some p then leave p Dead s else move p Dead s)"

definition initial_build :: "cache_entry \<Rightarrow> build_state" where
  "initial_build e = \<lparr>bs_entry = e, bs_lock = None, bs_phase = (\<lambda>_. Looking)\<rparr>"

section \<open>Lemmas\<close>

lemma WorkerIdentity_dict: "WorkerIdentity (PDict (identity_as_dict i)) = Inr i"
  by (simp add: WorkerIdentity_def identity_as_dict_def identity_fields_def dict_get_def)

text \<open>The text the builder writes is read back.\<close>

definition readable :: "(string \<Rightarrow> pyval res) \<Rightarrow> ((string, pyval) dict \<Rightarrow> string) \<Rightarrow> (byte list \<Rightarrow> string) \<Rightarrow> build_plan \<Rightarrow> bool" where
  "readable loads dumps sha p \<longleftrightarrow> (\<forall>bs. loads (dumps (identity_as_dict (built_identity sha p bs))) = Inr (PDict (identity_as_dict (built_identity sha p bs))))"

lemma match_built:
  "readable loads dumps sha p \<Longrightarrow>
   match_identity sha loads (bp_cache_key p) (dumps (identity_as_dict (built_identity sha p bs))) bs = Some (built_identity sha p bs)"
  by (simp add: match_identity_def readable_def rbind_def WorkerIdentity_dict) (simp add: built_identity_def)

lemma match_identity_Some:
  "match_identity sha loads key t bs = Some i \<Longrightarrow> wi_cache_key i = PStr key \<and> wi_worker_sha256 i = PStr (sha bs)"
  by (auto simp: match_identity_def split: sum.splits if_splits)

text \<open>An entry that a reader accepts.\<close>

definition valid_entry :: "(byte list \<Rightarrow> string) \<Rightarrow> (string \<Rightarrow> pyval res) \<Rightarrow> string \<Rightarrow> cache_entry \<Rightarrow> bool" where
  "valid_entry sha loads key e \<longleftrightarrow> cached_identity sha loads key e \<noteq> None"

text \<open>What is known of the entry from where one process is.\<close>

fun phase_ok :: "(byte list \<Rightarrow> string) \<Rightarrow> (string \<Rightarrow> pyval res) \<Rightarrow> string \<Rightarrow> cache_entry \<Rightarrow> build_phase \<Rightarrow> bool" where
  "phase_ok sha loads key e Building = (\<not> valid_entry sha loads key e)"
| "phase_ok sha loads key e (Built bs) = (\<not> valid_entry sha loads key e)"
| "phase_ok sha loads key e (LookedAt t) = (entry_metadata e = Some t \<or> valid_entry sha loads key e)"
| "phase_ok sha loads key e (CheckedAt t) = (entry_metadata e = Some t)"
| "phase_ok sha loads key e (Verifying t) = (entry_metadata e = Some t \<and> valid_entry sha loads key e)"
| "phase_ok sha loads key e (Placed bs) = (en_executable e = Some (bs, True))"
| "phase_ok sha loads key e Publishing = valid_entry sha loads key e"
| "phase_ok sha loads key e (Returned i) =
     (valid_entry sha loads key e \<and> wi_cache_key i = PStr key
      \<and> (\<exists>bs. en_executable e = Some (bs, True) \<and> wi_worker_sha256 i = PStr (sha bs)))"
| "phase_ok sha loads key e _ = True"

definition build_inv :: "(byte list \<Rightarrow> string) \<Rightarrow> (string \<Rightarrow> pyval res) \<Rightarrow> build_plan \<Rightarrow> build_state \<Rightarrow> bool" where
  "build_inv sha loads plan s \<longleftrightarrow>
     (\<forall>p. (in_lock (bs_phase s p) \<longrightarrow> bs_lock s = Some p) \<and> phase_ok sha loads (bp_cache_key plan) (bs_entry s) (bs_phase s p))"

lemma cached_identity_alt:
  "cached_identity sha loads key e =
     (case entry_metadata e of None \<Rightarrow> None | Some t \<Rightarrow> (case en_executable e of None \<Rightarrow> None | Some (bs, _) \<Rightarrow> match_identity sha loads key t bs))"
  by (auto simp: cached_identity_def split: option.splits)

lemma entry_metadata_Some: "entry_metadata e = Some t \<longleftrightarrow> en_metadata e = Some t \<and> (\<exists>bs. en_executable e = Some (bs, True))"
  by (auto simp: entry_metadata_def split: option.splits bool.splits)

lemma hashed_cached:
  "entry_metadata (bs_entry s) = Some t \<Longrightarrow> hashed sha loads key t s = cached_identity sha loads key (bs_entry s)"
  by (auto simp: hashed_def cached_identity_alt split: option.splits)

lemma hashed_Some:
  "hashed sha loads key t s = Some i \<Longrightarrow>
   wi_cache_key i = PStr key \<and> (\<exists>bs x. en_executable (bs_entry s) = Some (bs, x) \<and> wi_worker_sha256 i = PStr (sha bs))"
  by (auto simp: hashed_def dest!: match_identity_Some split: option.splits)

lemma valid_entry_executable: "valid_entry sha loads key e \<Longrightarrow> \<exists>bs. en_executable e = Some (bs, True)"
  by (auto simp: valid_entry_def cached_identity_alt entry_metadata_Some split: option.splits)

lemma valid_entry_hashed:
  "entry_metadata (bs_entry s) = Some t \<Longrightarrow> valid_entry sha loads key (bs_entry s) \<longleftrightarrow> hashed sha loads key t s \<noteq> None"
  by (simp add: valid_entry_def hashed_cached)

text \<open>An identity that was found is one of a valid entry.\<close>

lemma hit_returns:
  assumes "entry_metadata (bs_entry s) = Some t \<or> valid_entry sha loads key (bs_entry s)" and h: "hashed sha loads key t s = Some i"
  shows "phase_ok sha loads key (bs_entry s) (Returned i)"
proof -
  have V: "valid_entry sha loads key (bs_entry s)"
    using assms by (auto simp: valid_entry_hashed)
  show ?thesis
    using V valid_entry_executable [OF V] hashed_Some [OF h] by auto
qed

lemma no_metadata_not_cached: "entry_metadata e = None \<Longrightarrow> cached_identity sha loads key e = None"
  by (simp add: cached_identity_alt)

lemma initial_build_inv: "build_inv sha loads plan (initial_build e)"
  by (simp add: build_inv_def initial_build_def)

lemma inv_phase: "build_inv sha loads plan s \<Longrightarrow> bs_phase s p = ph \<Longrightarrow> phase_ok sha loads (bp_cache_key plan) (bs_entry s) ph"
  by (auto simp: build_inv_def)

lemma inv_lock: "build_inv sha loads plan s \<Longrightarrow> in_lock (bs_phase s p) \<Longrightarrow> bs_lock s = Some p"
  by (auto simp: build_inv_def)

lemma inv_alone: "build_inv sha loads plan s \<Longrightarrow> in_lock (bs_phase s p) \<Longrightarrow> q \<noteq> p \<Longrightarrow> \<not> in_lock (bs_phase s q)"
  by (metis inv_lock option.inject)

text \<open>The four ways a state changes: a process moves, takes the lock, leaves it, or writes the entry.\<close>

lemma move_inv:
  assumes "build_inv sha loads plan s" and "in_lock ph \<longrightarrow> in_lock (bs_phase s p)"
    and "phase_ok sha loads (bp_cache_key plan) (bs_entry s) ph"
  shows "build_inv sha loads plan (move p ph s)"
  using assms by (auto simp: build_inv_def move_def)

lemma take_inv:
  assumes "build_inv sha loads plan s" and "bs_lock s = None"
  shows "build_inv sha loads plan ((move p Checking s)\<lparr>bs_lock := Some p\<rparr>)"
  using assms by (auto simp: build_inv_def move_def)

lemma leave_inv:
  assumes "build_inv sha loads plan s" and "bs_lock s = Some p" and "\<not> in_lock ph"
    and "phase_ok sha loads (bp_cache_key plan) (bs_entry s) ph"
  shows "build_inv sha loads plan (leave p ph s)"
  using assms by (fastforce simp: build_inv_def leave_def move_def)

lemma write_inv:
  assumes inv: "build_inv sha loads plan s" and l: "in_lock (bs_phase s p)" "in_lock ph"
    and ph: "phase_ok sha loads (bp_cache_key plan) e ph"
    and others: "\<And>q. \<not> in_lock (bs_phase s q) \<Longrightarrow> phase_ok sha loads (bp_cache_key plan) e (bs_phase s q)"
  shows "build_inv sha loads plan ((move p ph s)\<lparr>bs_entry := e\<rparr>)"
proof -
  have "(in_lock (((bs_phase s)(p := ph)) q) \<longrightarrow> bs_lock s = Some q)
        \<and> phase_ok sha loads (bp_cache_key plan) e (((bs_phase s)(p := ph)) q)" for q
    using inv_lock [OF inv, of q] inv_lock [OF inv l(1)] inv_alone [OF inv l(1), of q] others [of q] ph
    by (cases "q = p") auto
  then show ?thesis
    by (simp add: build_inv_def move_def)
qed

text \<open>Replacing the executable of an entry that is not valid disturbs no process outside the lock.\<close>

lemma place_others:
  assumes "\<not> valid_entry sha loads key e" and "phase_ok sha loads key e ph" and "\<not> in_lock ph"
  shows "phase_ok sha loads key (e\<lparr>en_executable := Some (bs, True)\<rparr>) ph"
  using assms by (cases ph) (auto simp: entry_metadata_Some)

lemma published_valid:
  assumes "readable loads dumps sha plan" and "en_executable e = Some (bs, True)"
  shows "valid_entry sha loads (bp_cache_key plan)
           (e\<lparr>en_metadata := Some (dumps (identity_as_dict (built_identity sha plan bs)))\<rparr>)"
  using assms by (simp add: valid_entry_def cached_identity_alt entry_metadata_def match_built)

text \<open>Nor does publishing the metadata that belongs to the executable.\<close>

lemma publish_others:
  assumes "valid_entry sha loads key e'" and "en_executable e' = en_executable e"
    and "phase_ok sha loads key e ph" and "\<not> in_lock ph"
  shows "phase_ok sha loads key e' ph"
  using assms by (cases ph) auto

lemma build_step_inv:
  assumes "build_step sha loads dumps plan s s'" and r: "readable loads dumps sha plan" and inv: "build_inv sha loads plan s"
  shows "build_inv sha loads plan s'"
  using assms(1)
proof cases
  case (look_absent p)
  then show ?thesis by (simp add: move_inv [OF inv])
next
  case (look p t)
  then show ?thesis by (simp add: move_inv [OF inv])
next
  case (hit p t i)
  then show ?thesis using inv_phase [OF inv hit(2)] by (auto intro!: move_inv [OF inv] hit_returns simp del: phase_ok.simps(8))
next
  case (miss p t)
  then show ?thesis by (simp add: move_inv [OF inv])
next
  case (lock p)
  then show ?thesis by (simp add: take_inv [OF inv])
next
  case (check_absent p)
  then show ?thesis by (simp add: move_inv [OF inv] valid_entry_def no_metadata_not_cached)
next
  case (check p t)
  then show ?thesis by (simp add: move_inv [OF inv])
next
  case (check_hit p t i)
  then show ?thesis using inv_phase [OF inv check_hit(2)] inv_lock [OF inv, of p]
    by (auto intro!: leave_inv [OF inv] hit_returns simp del: phase_ok.simps(8))
next
  case (check_miss p t)
  then show ?thesis using inv_phase [OF inv check_miss(2)] by (simp add: move_inv [OF inv] valid_entry_hashed)
next
  case (compiled p bs)
  then show ?thesis using inv_phase [OF inv compiled(2)] by (simp add: move_inv [OF inv])
next
  case (compile_failed p)
  then show ?thesis using inv_lock [OF inv, of p] by (simp add: leave_inv [OF inv])
next
  case (place p bs)
  have V: "\<not> valid_entry sha loads (bp_cache_key plan) (bs_entry s)"
    using inv_phase [OF inv place(2)] by simp
  have "phase_ok sha loads (bp_cache_key plan) ((bs_entry s)\<lparr>en_executable := Some (bs, True)\<rparr>) (bs_phase s q)"
    if "\<not> in_lock (bs_phase s q)" for q
    using place_others [OF V inv_phase [OF inv refl] that] .
  then show ?thesis
    unfolding place(1) using place(2) by (intro write_inv [OF inv]) auto
next
  case (publish p bs)
  have e: "en_executable (bs_entry s) = Some (bs, True)"
    using inv_phase [OF inv publish(2)] by simp
  show ?thesis unfolding publish(1)
    using publish(2) published_valid [OF r e] inv_phase [OF inv]
    by (auto intro!: write_inv [OF inv] intro: publish_others [where e = "bs_entry s"])
next
  case (verify p t)
  then show ?thesis using inv_phase [OF inv verify(2)] by (simp add: move_inv [OF inv])
next
  case (verify_absent p)
  then show ?thesis using inv_lock [OF inv, of p] by (simp add: leave_inv [OF inv])
next
  case (verified p t i)
  then show ?thesis using inv_phase [OF inv verified(2)] inv_lock [OF inv, of p]
    by (auto intro!: leave_inv [OF inv] hit_returns simp del: phase_ok.simps(8))
next
  case (unverified p t)
  then show ?thesis using inv_lock [OF inv, of p] by (simp add: leave_inv [OF inv])
next
  case (die p)
  then show ?thesis by (simp add: leave_inv [OF inv] move_inv [OF inv])
qed

lemma build_steps_inv:
  assumes "(build_step sha loads dumps plan)\<^sup>*\<^sup>* s s'" and "readable loads dumps sha plan" and "build_inv sha loads plan s"
  shows "build_inv sha loads plan s'"
  using assms by (induction rule: rtranclp_induct) (auto intro: build_step_inv)

text \<open>A step that changes the executable changes one that no reader accepts.\<close>

lemma step_keeps_executable:
  assumes "build_step sha loads dumps plan s s'" and r: "readable loads dumps sha plan" and inv: "build_inv sha loads plan s"
    and V: "valid_entry sha loads (bp_cache_key plan) (bs_entry s)"
  shows "en_executable (bs_entry s') = en_executable (bs_entry s) \<and> valid_entry sha loads (bp_cache_key plan) (bs_entry s')"
  using assms(1)
proof cases
  case (place p bs)
  then show ?thesis using inv_phase [OF inv place(2)] V by simp
next
  case (publish p bs)
  then show ?thesis using inv_phase [OF inv publish(2)] published_valid [OF r] by (simp add: move_def)
qed (simp_all add: V move_def leave_def)

lemma steps_keep_executable:
  assumes "(build_step sha loads dumps plan)\<^sup>*\<^sup>* s s'" and r: "readable loads dumps sha plan" and inv: "build_inv sha loads plan s"
    and V: "valid_entry sha loads (bp_cache_key plan) (bs_entry s)"
  shows "en_executable (bs_entry s') = en_executable (bs_entry s) \<and> valid_entry sha loads (bp_cache_key plan) (bs_entry s')"
  using assms(1)
proof (induction rule: rtranclp_induct)
  case base
  then show ?case by (simp add: V)
next
  case (step t u)
  then show ?case
    using step_keeps_executable [OF step(2) r build_steps_inv [OF step(1) r inv]] by auto
qed

text \<open>No process that has published raises: the only failure is that of the compiler.\<close>

theorem verification_never_fails:
  assumes "(build_step sha loads dumps plan)\<^sup>*\<^sup>* (initial_build e) s" and r: "readable loads dumps sha plan"
  shows "bs_phase s p = Publishing \<Longrightarrow> entry_metadata (bs_entry s) \<noteq> None"
    and "bs_phase s p = Verifying t \<Longrightarrow> hashed sha loads (bp_cache_key plan) t s \<noteq> None"
proof -
  have inv: "build_inv sha loads plan s"
    by (rule build_steps_inv [OF assms initial_build_inv])
  show "bs_phase s p = Publishing \<Longrightarrow> entry_metadata (bs_entry s) \<noteq> None"
    using inv_phase [OF inv, of p Publishing] by (cases "entry_metadata (bs_entry s)") (auto simp: valid_entry_def cached_identity_alt)
  show "bs_phase s p = Verifying t \<Longrightarrow> hashed sha loads (bp_cache_key plan) t s \<noteq> None"
    using inv_phase [OF inv, of p "Verifying t"] by (auto simp: valid_entry_hashed)
qed

text \<open>
  C34: Any number of processes call \<open>_ensure_built\<close> for the same cache key, in any interleaving, and
  any of them may die at any point; the directory may hold anything at the start. Once one of them
  has returned an identity, the identity names the key and the hash of the executable that is
  there, and no later step of any process replaces that executable or makes a reader reject it:
  what a caller starts is what its identity describes.
\<close>

theorem published_worker_stable:
  assumes r: "readable loads dumps sha plan"
    and reach: "(build_step sha loads dumps plan)\<^sup>*\<^sup>* (initial_build e) s"
    and ret: "bs_phase s p = Returned i"
    and later: "(build_step sha loads dumps plan)\<^sup>*\<^sup>* s s'"
  shows "\<exists>bs. en_executable (bs_entry s) = Some (bs, True) \<and> en_executable (bs_entry s') = Some (bs, True)
           \<and> wi_cache_key i = PStr (bp_cache_key plan) \<and> wi_worker_sha256 i = PStr (sha bs)
           \<and> cached_identity sha loads (bp_cache_key plan) (bs_entry s') \<noteq> None"
proof -
  have inv: "build_inv sha loads plan s"
    by (rule build_steps_inv [OF reach r initial_build_inv])
  show ?thesis
    using inv_phase [OF inv ret] steps_keep_executable [OF later r inv] by (auto simp: valid_entry_def)
qed

text \<open>A process that runs alone on an entry no reader accepts, with a compiler that succeeds.\<close>

definition alone :: "nat \<Rightarrow> build_phase \<Rightarrow> cache_entry \<Rightarrow> bool \<Rightarrow> build_state" where
  "alone p ph e l = \<lparr>bs_entry = e, bs_lock = if l then Some p else None, bs_phase = (\<lambda>_. Looking)(p := ph)\<rparr>"

definition built_entry :: "(byte list \<Rightarrow> string) \<Rightarrow> ((string, pyval) dict \<Rightarrow> string) \<Rightarrow> build_plan \<Rightarrow> byte list \<Rightarrow> cache_entry" where
  "built_entry sha dumps plan bs =
     \<lparr>en_executable = Some (bs, True), en_metadata = Some (dumps (identity_as_dict (built_identity sha plan bs)))\<rparr>"

lemma initial_alone: "initial_build e = alone p Looking e False"
  by (auto simp: initial_build_def alone_def)

lemma alone_moves:
  "move p ph' (alone p ph e l) = alone p ph' e l"
  "(alone p ph e l)\<lparr>bs_lock := Some p\<rparr> = alone p ph e True"
  "leave p ph' (alone p ph e l) = alone p ph' e False"
  "(alone p ph e l)\<lparr>bs_entry := e'\<rparr> = alone p ph e' l"
  "bs_phase (alone p ph e l) p = ph" "bs_entry (alone p ph e l) = e" "bs_lock (alone p ph e l) = (if l then Some p else None)"
  by (auto simp: move_def leave_def alone_def)

lemma hashed_alone: "hashed sha loads key t (alone p ph e l) = (case en_executable e of None \<Rightarrow> None | Some (bs, _) \<Rightarrow> match_identity sha loads key t bs)"
  by (simp add: hashed_def alone_moves)

lemma hashed_alone_cached:
  "entry_metadata e = Some t \<Longrightarrow> hashed sha loads key t (alone p ph e l) = cached_identity sha loads key e"
  by (simp add: hashed_cached alone_moves)

lemmas alone_step_rules =
  build_step.look_absent [where s = "alone p Looking e False" and p = p for p e, simplified alone_moves]
  build_step.look [where s = "alone p Looking e False" and p = p for p e, simplified alone_moves]
  build_step.hit [where s = "alone p (LookedAt t) e False" and p = p and t = t for p e t, simplified alone_moves]
  build_step.miss [where s = "alone p (LookedAt t) e False" and p = p and t = t for p e t, simplified alone_moves]
  build_step.lock [where s = "alone p Waiting e False" and p = p for p e, simplified alone_moves]
  build_step.check_absent [where s = "alone p Checking e True" and p = p for p e, simplified alone_moves]
  build_step.check [where s = "alone p Checking e True" and p = p for p e, simplified alone_moves]
  build_step.check_miss [where s = "alone p (CheckedAt t) e True" and p = p and t = t for p e t, simplified alone_moves]
  build_step.compiled [where s = "alone p Building e True" and p = p for p e, simplified alone_moves]
  build_step.place [where s = "alone p (Built bs) e True" and p = p and bs = bs for p e bs, simplified alone_moves]
  build_step.publish [where s = "alone p (Placed bs) e True" and p = p and bs = bs for p e bs, simplified alone_moves]
  build_step.verify [where s = "alone p Publishing e True" and p = p for p e, simplified alone_moves]
  build_step.verified [where s = "alone p (Verifying t) e True" and p = p and t = t for p e t, simplified alone_moves]

lemma alone_hit:
  assumes "cached_identity sha loads (bp_cache_key plan) e = Some i"
  shows "(build_step sha loads dumps plan)\<^sup>*\<^sup>* (alone p Looking e False) (alone p (Returned i) e False)"
proof -
  obtain t where t: "entry_metadata e = Some t"
    using assms by (auto simp: cached_identity_alt split: option.splits)
  show ?thesis
    using alone_step_rules(2) [OF refl t] alone_step_rules(3) [OF refl] assms hashed_alone_cached [OF t]
    by (metis (no_types, lifting) converse_rtranclp_into_rtranclp r_into_rtranclp)
qed

lemma alone_to_building:
  assumes c: "cached_identity sha loads (bp_cache_key plan) e = None"
  shows "(build_step sha loads dumps plan)\<^sup>*\<^sup>* (alone p Looking e False) (alone p Building e True)"
proof (cases "entry_metadata e")
  case None
  have "build_step sha loads dumps plan (alone p Looking e False) (alone p Waiting e False)"
    "build_step sha loads dumps plan (alone p Waiting e False) (alone p Checking e True)"
    "build_step sha loads dumps plan (alone p Checking e True) (alone p Building e True)"
    using alone_step_rules(1) [OF refl None] alone_step_rules(5) [OF refl] alone_step_rules(6) [OF refl None] by simp_all
  then show ?thesis by (meson converse_rtranclp_into_rtranclp rtranclp.rtrancl_refl)
next
  case (Some t)
  have "build_step sha loads dumps plan (alone p Looking e False) (alone p (LookedAt t) e False)"
    "build_step sha loads dumps plan (alone p (LookedAt t) e False) (alone p Waiting e False)"
    "build_step sha loads dumps plan (alone p Waiting e False) (alone p Checking e True)"
    "build_step sha loads dumps plan (alone p Checking e True) (alone p (CheckedAt t) e True)"
    "build_step sha loads dumps plan (alone p (CheckedAt t) e True) (alone p Building e True)"
    using alone_step_rules(2) [OF refl Some] alone_step_rules(4) [OF refl] alone_step_rules(5) [OF refl]
      alone_step_rules(7) [OF refl Some] alone_step_rules(8) [OF refl] hashed_alone_cached [OF Some] c by simp_all
  then show ?thesis by (meson converse_rtranclp_into_rtranclp rtranclp.rtrancl_refl)
qed

lemma built_entry_updates:
  "e\<lparr>en_executable := Some (bs, True)\<rparr>\<lparr>en_metadata := Some (dumps (identity_as_dict (built_identity sha plan bs)))\<rparr>
   = built_entry sha dumps plan bs"
  by (simp add: built_entry_def)

lemma alone_build:
  assumes c: "cached_identity sha loads (bp_cache_key plan) e = None"
    and v: "cached_identity sha loads (bp_cache_key plan) (built_entry sha dumps plan bs) = Some i"
  shows "(build_step sha loads dumps plan)\<^sup>*\<^sup>* (alone p Looking e False) (alone p (Returned i) (built_entry sha dumps plan bs) False)"
proof -
  let ?S = "build_step sha loads dumps plan" and ?e = "e\<lparr>en_executable := Some (bs, True)\<rparr>" and ?b = "built_entry sha dumps plan bs"
  let ?t = "dumps (identity_as_dict (built_identity sha plan bs))"
  have t: "entry_metadata ?b = Some ?t"
    by (simp add: built_entry_def entry_metadata_def)
  have "?S (alone p Building e True) (alone p (Built bs) e True)"
    "?S (alone p (Built bs) e True) (alone p (Placed bs) ?e True)"
    "?S (alone p (Placed bs) ?e True) (alone p Publishing ?b True)"
    "?S (alone p Publishing ?b True) (alone p (Verifying ?t) ?b True)"
    "?S (alone p (Verifying ?t) ?b True) (alone p (Returned i) ?b False)"
    using alone_step_rules(9) [OF refl] alone_step_rules(10) [OF refl]
      alone_step_rules(11) [OF refl, where e = ?e and bs = bs and dumps = dumps and sha = sha and plan = plan]
      alone_step_rules(12) [OF refl t] alone_step_rules(13) [OF refl] hashed_alone_cached [OF t] v
    by (simp_all only: built_entry_updates refl)
  then have "?S\<^sup>*\<^sup>* (alone p Building e True) (alone p (Returned i) ?b False)"
    by (meson converse_rtranclp_into_rtranclp rtranclp.rtrancl_refl)
  then show ?thesis
    using alone_to_building [OF c] by (rule rtranclp_trans [rotated])
qed

text \<open>The sequential function is one run of the step relation.\<close>

theorem ensure_built_is_a_run:
  assumes "plan_build sha site = Inr plan" and "ensure_built sha loads dumps site compilation cache = (Inr i, cache')"
  shows "\<exists>s. (build_step sha loads dumps plan)\<^sup>*\<^sup>* (initial_build (cache (bp_cache_key plan))) s
             \<and> bs_phase s p = Returned i \<and> bs_entry s = cache' (bp_cache_key plan)"
proof (cases "cached_identity sha loads (bp_cache_key plan) (cache (bp_cache_key plan))")
  case (Some j)
  have "j = i" "cache' = cache"
    using assms Some by (simp_all add: ensure_built_def Let_def)
  then show ?thesis
    using alone_hit [OF Some, of dumps p] by (metis initial_alone alone_moves(5,6))
next
  case None
  obtain bs where v: "cached_identity sha loads (bp_cache_key plan) (built_entry sha dumps plan bs) = Some i"
    and c: "cache' = cache(bp_cache_key plan := built_entry sha dumps plan bs)"
    using assms None by (auto simp: ensure_built_def Let_def built_entry_def split: sum.splits option.splits)
  show ?thesis
    using alone_build [OF None v, of p] c by (metis initial_alone alone_moves(5,6) fun_upd_same)
qed

section \<open>The sequential function\<close>

lemma wguard_Inr [simp]: "wguard ok message = Inr u \<longleftrightarrow> ok"
  by (simp add: wguard_def)

lemma rbind_Inr_ex: "rbind m f = Inr y \<longleftrightarrow> (\<exists>x. m = Inr x \<and> f x = Inr y)"
  by (auto simp: rbind_def split: sum.splits)

text \<open>What a plan was made from.\<close>

lemma plan_build_Inr:
  assumes "plan_build sha s = Inr p"
  obtains spec pin cmxa version where
    "as_spec s = Some spec" "as_pin s = Some pin" "as_cmxa s = Some cmxa"
    "run_git (as_head s) = Inr (py_strip pin)" "run_git (as_porcelain s) = Inr []" "run_git (as_origin s) = Inr (expected_origin s)"
    "run_tool (bp_compiler p) (as_compiler_version s (bp_compiler p)) = Inr version"
    "bp_aslref_commit p = py_strip pin" "bp_asllib_sha256 p = sha cmxa" "bp_wrapper_sha256 p = sha (as_wrapper s)" "bp_spec_sha256 p = sha spec"
    "bp_cache_key p = sha (digest_input [WORKER_BUILD_SCHEMA, py_strip pin, sha cmxa, sha (as_wrapper s), sha spec, py_strip version])"
  using assms by (auto simp: plan_build_def rbind_Inr_ex split: option.splits)

lemma digest_input_inj:
  assumes "digest_input xs = digest_input ys" and "\<forall>x \<in> set xs \<union> set ys. int (length (utf8_encode x)) < 2 ^ 64"
  shows "xs = ys"
proof -
  have "map utf8_encode xs = map utf8_encode ys"
    using prefixed_list_inj [of utf8_encode xs ys] assms unfolding digest_input_def by simp
  moreover have "inj utf8_encode" by (rule injI) (simp add: utf8_encode_inj)
  ultimately show ?thesis by (simp add: inj_map_eq_map)
qed

text \<open>
  Two plans with the same key, for an ideal hash that does not collide: the same commit, library, wrapper
  and specification. Only texts longer than \<open>2\<^sup>6\<^sup>4\<close> bytes are excluded, whose length the prefix cannot hold.
\<close>

theorem cache_key_identifies_inputs:
  assumes p: "plan_build sha s = Inr p" and q: "plan_build sha t = Inr q" and key: "bp_cache_key p = bp_cache_key q"
    and sha: "inj sha" "\<forall>bs. int (length (utf8_encode (sha bs))) < 2 ^ 64"
    and short: "\<forall>c pin out err. as_pin s = Some pin \<or> as_pin t = Some pin \<or> as_compiler_version s c = (0, pin, err) \<or> as_compiler_version t c = (0, pin, err)
        \<longrightarrow> int (length (utf8_encode (py_strip pin))) < 2 ^ 64"
  shows "as_spec s = as_spec t \<and> as_cmxa s = as_cmxa t \<and> as_wrapper s = as_wrapper t \<and> bp_aslref_commit p = bp_aslref_commit q"
proof -
  obtain spec pin cmxa version where s: "as_spec s = Some spec" "as_pin s = Some pin" "as_cmxa s = Some cmxa"
    "run_tool (bp_compiler p) (as_compiler_version s (bp_compiler p)) = Inr version" "bp_aslref_commit p = py_strip pin"
    "bp_cache_key p = sha (digest_input [WORKER_BUILD_SCHEMA, py_strip pin, sha cmxa, sha (as_wrapper s), sha spec, py_strip version])"
    by (rule plan_build_Inr [OF p])
  obtain spec' pin' cmxa' version' where t: "as_spec t = Some spec'" "as_pin t = Some pin'" "as_cmxa t = Some cmxa'"
    "run_tool (bp_compiler q) (as_compiler_version t (bp_compiler q)) = Inr version'" "bp_aslref_commit q = py_strip pin'"
    "bp_cache_key q = sha (digest_input [WORKER_BUILD_SCHEMA, py_strip pin', sha cmxa', sha (as_wrapper t), sha spec', py_strip version'])"
    by (rule plan_build_Inr [OF q])
  have v: "int (length (utf8_encode (py_strip version))) < 2 ^ 64" "int (length (utf8_encode (py_strip version'))) < 2 ^ 64"
    "int (length (utf8_encode (py_strip pin))) < 2 ^ 64" "int (length (utf8_encode (py_strip pin'))) < 2 ^ 64"
    using s t short by (auto simp: run_tool_def split: prod.splits if_splits)
  have "int (length (utf8_encode WORKER_BUILD_SCHEMA)) < 2 ^ 64"
    by code_simp
  then have "[WORKER_BUILD_SCHEMA, py_strip pin, sha cmxa, sha (as_wrapper s), sha spec, py_strip version]
      = [WORKER_BUILD_SCHEMA, py_strip pin', sha cmxa', sha (as_wrapper t), sha spec', py_strip version']"
    using s(6) t(6) key sha v by (intro digest_input_inj) (auto dest: injD)
  then show ?thesis
    using s t sha(1) by (auto dest: injD)
qed

lemma cached_identity_Some:
  "cached_identity sha loads key e = Some i \<Longrightarrow>
   wi_cache_key i = PStr key \<and> (\<exists>bs. en_executable e = Some (bs, True) \<and> wi_worker_sha256 i = PStr (sha bs))"
  by (auto simp: cached_identity_alt entry_metadata_Some dest!: match_identity_Some split: option.splits)

text \<open>
  A call that returns: the checkout is the pinned commit, clean and of the expected origin, and the
  entry of the key holds an executable with the hash that the identity names; no other entry changes.
\<close>

theorem ensure_built_sound:
  assumes "ensure_built sha loads dumps s compilation cache = (Inr i, cache')"
  obtains p pin bs where
    "plan_build sha s = Inr p" "as_pin s = Some pin" "run_git (as_head s) = Inr (py_strip pin)" "run_git (as_porcelain s) = Inr []"
    "run_git (as_origin s) = Inr (expected_origin s)"
    "en_executable (cache' (bp_cache_key p)) = Some (bs, True)" "wi_worker_sha256 i = PStr (sha bs)" "wi_cache_key i = PStr (bp_cache_key p)"
    "\<And>k. k \<noteq> bp_cache_key p \<Longrightarrow> cache' k = cache k"
proof -
  obtain p where p: "plan_build sha s = Inr p"
    using assms by (auto simp: ensure_built_def split: sum.splits)
  have c: "cached_identity sha loads (bp_cache_key p) (cache' (bp_cache_key p)) = Some i \<and> (\<forall>k. k \<noteq> bp_cache_key p \<longrightarrow> cache' k = cache k)"
    using assms p by (auto simp: ensure_built_def Let_def split: sum.splits option.splits)
  then obtain bs where "en_executable (cache' (bp_cache_key p)) = Some (bs, True)" "wi_worker_sha256 i = PStr (sha bs)"
    "wi_cache_key i = PStr (bp_cache_key p)"
    using cached_identity_Some by blast
  moreover obtain pin where "as_pin s = Some pin" "run_git (as_head s) = Inr (py_strip pin)" "run_git (as_porcelain s) = Inr []"
    "run_git (as_origin s) = Inr (expected_origin s)"
    by (rule plan_build_Inr [OF p])
  ultimately show ?thesis
    using that p c by blast
qed

text \<open>A second call finds what the first one left, whatever the compiler would do.\<close>

theorem ensure_built_again:
  assumes "ensure_built sha loads dumps s compilation cache = (Inr i, cache')"
  shows "ensure_built sha loads dumps s compilation' cache' = (Inr i, cache')"
  using assms by (auto simp: ensure_built_def Let_def split: sum.splits option.splits)

text \<open>
  What a user of a build cache relies on: once a call has returned, every later one returns the
  same, whatever the compiler does meanwhile.
\<close>

locale build_cache =
  fixes ensure :: "'c \<Rightarrow> 's \<Rightarrow> 'i res \<times> 's"
  assumes again: "ensure c s = (Inr i, s') \<Longrightarrow> ensure c' s' = (Inr i, s')"
begin

fun calls :: "'c list \<Rightarrow> 's \<Rightarrow> 'i res list \<times> 's" where
  "calls [] s = ([], s)"
| "calls (c # cs) s = (case ensure c s of (r, s') \<Rightarrow> (case calls cs s' of (rs, s'') \<Rightarrow> (r # rs, s'')))"

lemma calls_reuse:
  assumes "ensure c s = (Inr i, s')"
  shows "calls cs s' = (replicate (length cs) (Inr i), s')"
  using again [OF assms] by (induction cs) auto

text \<open>The results of any sequence of calls: failures, then one identity.\<close>

lemma calls_form:
  "\<exists>es k i. fst (calls cs s) = map Inl es @ replicate k (Inr i)"
proof (induction cs arbitrary: s)
  case Nil
  show ?case by (intro exI [of _ "[]"] exI [of _ 0]) simp
next
  case (Cons c cs)
  obtain r s' where e: "ensure c s = (r, s')" by fastforce
  show ?case
  proof (cases r)
    case (Inl x)
    obtain es k i where "fst (calls cs s') = map Inl es @ replicate k (Inr i)" using Cons by blast
    then show ?thesis
      using e Inl by (intro exI [of _ "x # es"] exI [of _ k] exI [of _ i]) (auto split: prod.splits)
  next
    case (Inr i)
    show ?thesis
      using e Inr calls_reuse [of c s i s' cs] by (intro exI [of _ "[]"] exI [of _ "Suc (length cs)"] exI [of _ i]) auto
  qed
qed

end

interpretation worker_cache: build_cache "ensure_built sha loads dumps site" for sha loads dumps site
  by unfold_locales (rule ensure_built_again)

text \<open>However often the worker is asked for, all callers that get an identity get the same one.\<close>

theorem worker_identity_unique:
  assumes "Inr i \<in> set (fst (worker_cache.calls sha loads dumps site compilations cache))"
    and "Inr j \<in> set (fst (worker_cache.calls sha loads dumps site compilations cache))"
  shows "i = j"
  using worker_cache.calls_form [of sha loads dumps site compilations cache] assms by auto

text \<open>A failed call leaves every entry that a reader would accept.\<close>

theorem ensure_built_failure:
  assumes "ensure_built sha loads dumps s compilation cache = (Inl e, cache')"
  shows "cache' = cache \<or> (\<exists>p bs. plan_build sha s = Inr p \<and> compile_worker compilation = Inr bs \<and> \<not> readable loads dumps sha p)"
  using assms
  by (auto simp: ensure_built_def Let_def cached_identity_alt entry_metadata_def match_built split: sum.splits option.splits)

section \<open>Example\<close>

text \<open>A hash and a metadata format that can be read back: the hash is the content, the metadata its text.\<close>

definition build_demo_sha :: "byte list \<Rightarrow> string" where "build_demo_sha bs = map (\<lambda>b. char_of (unat b)) bs"

definition build_demo_plan :: build_plan where
  "build_demo_plan = \<lparr>bp_cache_key = ''k'', bp_aslref_commit = ''c'', bp_asllib_sha256 = ''l'', bp_wrapper_sha256 = ''w'', bp_spec_sha256 = ''s'', bp_compiler = ''ocamlopt''\<rparr>"

definition build_demo_dumps :: "(string, pyval) dict \<Rightarrow> string" where
  "build_demo_dumps d = (case dict_get d ''worker_sha256'' PNone of PStr t \<Rightarrow> t | _ \<Rightarrow> [])"

definition build_demo_loads :: "string \<Rightarrow> pyval res" where
  "build_demo_loads t = Inr (PDict (identity_as_dict ((built_identity build_demo_sha build_demo_plan [])\<lparr>wi_worker_sha256 := PStr t\<rparr>)))"

lemma build_demo_readable: "readable build_demo_loads build_demo_dumps build_demo_sha build_demo_plan"
  by (simp add: readable_def build_demo_loads_def build_demo_dumps_def identity_as_dict_def built_identity_def dict_get_def)

text \<open>One process has built a worker over a damaged entry and returned; a second one looks at it.\<close>

theorem published_worker_stable_witness:
  "\<exists>bs. en_executable (built_entry build_demo_sha build_demo_dumps build_demo_plan [7, 9]) = Some (bs, True)
      \<and> wi_worker_sha256 (built_identity build_demo_sha build_demo_plan [7, 9]) = PStr (build_demo_sha bs)
      \<and> cached_identity build_demo_sha build_demo_loads (bp_cache_key build_demo_plan) (built_entry build_demo_sha build_demo_dumps build_demo_plan [7, 9]) \<noteq> None"
proof -
  let ?e = "\<lparr>en_executable = Some ([1], True), en_metadata = Some ''torn''\<rparr>"
  let ?b = "built_entry build_demo_sha build_demo_dumps build_demo_plan [7, 9]" and ?i = "built_identity build_demo_sha build_demo_plan [7, 9]"
  let ?s = "alone 0 (Returned ?i) ?b False"
  have c: "cached_identity build_demo_sha build_demo_loads (bp_cache_key build_demo_plan) ?e = None"
    by code_simp
  have b: "cached_identity build_demo_sha build_demo_loads (bp_cache_key build_demo_plan) ?b = Some ?i"
    by code_simp
  have reach: "(build_step build_demo_sha build_demo_loads build_demo_dumps build_demo_plan)\<^sup>*\<^sup>* (initial_build ?e) ?s"
    using alone_build [OF c b, of 0] by (simp only: initial_alone [of ?e 0])
  have "bs_phase ?s 1 = Looking" "entry_metadata (bs_entry ?s) = Some (build_demo_sha [7, 9])"
    by (simp add: alone_def) code_simp
  then have "(build_step build_demo_sha build_demo_loads build_demo_dumps build_demo_plan)\<^sup>*\<^sup>* ?s (move 1 (LookedAt (build_demo_sha [7, 9])) ?s)"
    by (intro r_into_rtranclp build_step.look)
  from published_worker_stable [OF build_demo_readable reach alone_moves(5) this] show ?thesis
    by (auto simp: alone_moves move_def)
qed

end
