(* ===== verification/Arch_State.thy ===== *)
theory Arch_State
  imports Py_Text "HOL-Library.List_Lexorder" "HOL-Library.Char_ord"
begin

text \<open>
  The architectural-state objects of \<open>pto_asl_model/state.py\<close> and the execution results of
  \<open>asl_model/state.py\<close>: validated records, their conversion to and from JSON values, the canonical
  JSON text and the diff of two states.

  A raw value is a \<open>pyval\<close>: the JSON values, tuples, which a state may hold and which JSON turns
  into lists, and byte strings as the values that JSON cannot hold; floating-point numbers, and
  mappings other than \<open>dict\<close>, are not represented. A constructor takes raw values where the code
  validates them and typed values where it checks the class.
\<close>

section \<open>Validators\<close>

definition require_object :: "pyval \<Rightarrow> (string, pyval) dict res" where
  "require_object v = (case v of PDict d \<Rightarrow> Inr d | _ \<Rightarrow> Inl (ValueError ''must be an object''))"

definition require_exact_object :: "string list \<Rightarrow> pyval \<Rightarrow> (string, pyval) dict res" where
  "require_exact_object fields v =
     rbind (require_object v) (\<lambda>row.
       if list_ex (\<lambda>name. name \<notin> set (map fst row)) fields then Inl (ValueError ''is missing required fields'')
       else if list_ex (\<lambda>name. name \<notin> set fields) (map fst row) then Inl (ValueError ''has unexpected fields'')
       else Inr row)"

definition require_list :: "pyval \<Rightarrow> pyval list res" where
  "require_list v = (case v of PList xs \<Rightarrow> Inr xs | _ \<Rightarrow> Inl (ValueError ''must be an array''))"

definition require_string :: "pyval \<Rightarrow> string res" where
  "require_string v = (case v of PStr s \<Rightarrow> Inr s | _ \<Rightarrow> Inl (ValueError ''must be text''))"

definition require_integer :: "int option \<Rightarrow> pyval \<Rightarrow> int res" where
  "require_integer minimum v =
     (case v of
        PInt i \<Rightarrow> (case minimum of
                    Some m \<Rightarrow> if i < m then Inl (ValueError ''must be at least'') else Inr i
                  | None \<Rightarrow> Inr i)
      | _ \<Rightarrow> Inl (ValueError ''must be an integer''))"

definition require_optional_integer :: "pyval \<Rightarrow> int option res" where
  "require_optional_integer v = (if v = PNone then Inr None else rbind (require_integer None v) (\<lambda>i. Inr (Some i)))"

definition require_boolean :: "pyval \<Rightarrow> bool res" where
  "require_boolean v = (case v of PBool b \<Rightarrow> Inr b | _ \<Rightarrow> Inl (ValueError ''must be boolean''))"

text \<open>\<open>_json_value\<close>: lists and tuples become lists, a byte string anywhere inside is refused.\<close>

fun json_value :: "pyval \<Rightarrow> pyval res" and json_values :: "pyval list \<Rightarrow> pyval list res"
  and json_value_items :: "(string \<times> pyval) list \<Rightarrow> (string \<times> pyval) list res" where
  "json_value (PDict d) = rbind (json_value_items d) (\<lambda>e. Inr (PDict e))"
| "json_value (PList xs) = rbind (json_values xs) (\<lambda>ys. Inr (PList ys))"
| "json_value (PTuple xs) = rbind (json_values xs) (\<lambda>ys. Inr (PList ys))"
| "json_value (PBytes _) = Inl (TypeError ''value is not JSON serializable'')"
| "json_value v = Inr v"
| "json_values [] = Inr []"
| "json_values (x # xs) = rbind (json_value x) (\<lambda>y. rbind (json_values xs) (\<lambda>ys. Inr (y # ys)))"
| "json_value_items [] = Inr []"
| "json_value_items ((k, x) # d) = rbind (json_value x) (\<lambda>y. rbind (json_value_items d) (\<lambda>e. Inr ((k, y) # e)))"

text \<open>The values it accepts, and the value it gives for them.\<close>

fun json_plain :: "pyval \<Rightarrow> bool" and json_plains :: "pyval list \<Rightarrow> bool"
  and json_plain_items :: "(string \<times> pyval) list \<Rightarrow> bool" where
  "json_plain (PBytes _) = False"
| "json_plain (PList xs) = json_plains xs"
| "json_plain (PDict d) = json_plain_items d"
| "json_plain (PTuple xs) = json_plains xs"
| "json_plain _ = True"
| "json_plains [] = True"
| "json_plains (x # xs) = (json_plain x \<and> json_plains xs)"
| "json_plain_items [] = True"
| "json_plain_items ((k, x) # d) = (json_plain x \<and> json_plain_items d)"

fun json_norm :: "pyval \<Rightarrow> pyval" and json_norms :: "pyval list \<Rightarrow> pyval list"
  and json_norm_items :: "(string \<times> pyval) list \<Rightarrow> (string \<times> pyval) list" where
  "json_norm (PDict d) = PDict (json_norm_items d)"
| "json_norm (PList xs) = PList (json_norms xs)"
| "json_norm (PTuple xs) = PList (json_norms xs)"
| "json_norm v = v"
| "json_norms [] = []"
| "json_norms (x # xs) = json_norm x # json_norms xs"
| "json_norm_items [] = []"
| "json_norm_items ((k, x) # d) = (k, json_norm x) # json_norm_items d"

lemma json_value_eq:
  "json_value v = (if json_plain v then Inr (json_norm v) else Inl (TypeError ''value is not JSON serializable''))"
  "json_values xs = (if json_plains xs then Inr (json_norms xs) else Inl (TypeError ''value is not JSON serializable''))"
  "json_value_items d =
     (if json_plain_items d then Inr (json_norm_items d) else Inl (TypeError ''value is not JSON serializable''))"
  by (induction v and xs and d rule: json_value_json_values_json_value_items.induct) simp_all

declare json_value.simps [simp del] json_values.simps [simp del] json_value_items.simps [simp del]

definition require_json_object :: "pyval \<Rightarrow> (string, pyval) dict res" where
  "require_json_object v = rbind (require_object v) (\<lambda>d. rbind (json_value v) (\<lambda>_. Inr d))"

text \<open>\<open>for name, value in d.items(): check(value)\<close>, keeping the checked values.\<close>

definition check_items :: "(pyval \<Rightarrow> 'a res) \<Rightarrow> (string, pyval) dict \<Rightarrow> (string, 'a) dict res" where
  "check_items check d = rmap (\<lambda>(k, v). rbind (check v) (\<lambda>x. Inr (k, x))) d"

section \<open>Canonical JSON\<close>

definition hex4 :: "nat \<Rightarrow> string" where
  "hex4 n = [CHR ''0'', CHR ''0'', digit_char (n div 16), digit_char (n mod 16)]"

definition json_char :: "char \<Rightarrow> string" where
  "json_char c =
     (let n = of_char c :: nat in
      if n = 34 then [CHR 0x5C, CHR 0x22] else if n = 92 then [CHR 0x5C, CHR 0x5C]
      else if n = 10 then [CHR 0x5C, CHR ''n''] else if n = 13 then [CHR 0x5C, CHR ''r'']
      else if n = 9 then [CHR 0x5C, CHR ''t''] else if n = 12 then [CHR 0x5C, CHR ''f'']
      else if n = 8 then [CHR 0x5C, CHR ''b'']
      else if n < 32 then CHR 0x5C # CHR ''u'' # hex4 n else [c])"

definition json_string :: "string \<Rightarrow> string" where
  "json_string s = CHR 0x22 # concat (map json_char s) @ [CHR 0x22]"

text \<open>\<open>json.dumps(value, ensure_ascii=False, sort_keys=True, separators=(",", ":"))\<close>\<close>

fun comma_join :: "string list \<Rightarrow> string" where
  "comma_join [] = []"
| "comma_join [x] = x"
| "comma_join (x # y # ys) = x @ CHR '','' # comma_join (y # ys)"

fun json_dumps :: "pyval \<Rightarrow> string" and json_texts :: "pyval list \<Rightarrow> string list"
  and json_items :: "(string \<times> pyval) list \<Rightarrow> (string \<times> string) list" where
  "json_dumps PNone = ''null''"
| "json_dumps (PBool b) = (if b then ''true'' else ''false'')"
| "json_dumps (PInt i) = py_dec i"
| "json_dumps (PStr s) = json_string s"
| "json_dumps (PBytes _) = []"
| "json_dumps (PList xs) = CHR ''['' # comma_join (json_texts xs) @ '']''"
| "json_dumps (PTuple xs) = CHR ''['' # comma_join (json_texts xs) @ '']''"
| "json_dumps (PDict d) =
     CHR ''{'' # comma_join (map (\<lambda>(k, t). json_string k @ CHR '':'' # t) (sort_key fst (json_items d))) @ ''}''"
| "json_texts [] = []"
| "json_texts (x # xs) = json_dumps x # json_texts xs"
| "json_items [] = []"
| "json_items ((k, x) # d) = (k, json_dumps x) # json_items d"

definition canonical_json :: "pyval \<Rightarrow> string res" where
  "canonical_json v = rbind (json_value v) (\<lambda>w. Inr (json_dumps w))"

lemma json_dumps_norm [simp]:
  "json_dumps (json_norm v) = json_dumps v" "json_texts (json_norms xs) = json_texts xs"
  "json_items (json_norm_items d) = json_items d"
  by (induction v and xs and d rule: json_norm_json_norms_json_norm_items.induct) simp_all

lemma json_plain_norm [simp]:
  "json_plain (json_norm v) = json_plain v" "json_plains (json_norms xs) = json_plains xs"
  "json_plain_items (json_norm_items d) = json_plain_items d"
  by (induction v and xs and d rule: json_norm_json_norms_json_norm_items.induct) simp_all

lemma json_norm_norm [simp]:
  "json_norm (json_norm v) = json_norm v" "json_norms (json_norms xs) = json_norms xs"
  "json_norm_items (json_norm_items d) = json_norm_items d"
  by (induction v and xs and d rule: json_norm_json_norms_json_norm_items.induct) simp_all

lemma canonical_json_eq:
  "canonical_json v = (if json_plain v then Inr (json_dumps v) else Inl (TypeError ''value is not JSON serializable''))"
  by (simp add: canonical_json_def json_value_eq)

definition canonical_hash :: "(string \<Rightarrow> string) \<Rightarrow> pyval \<Rightarrow> string res" where
  "canonical_hash sha256_of v = rbind (canonical_json v) (\<lambda>t. Inr (sha256_of t))"

section \<open>Domains\<close>

record scalar_state =
  sca_registers :: "(string, int) dict"
  sca_pc :: int
  sca_tpc :: int
  sca_flags :: "(string, pyval) dict"
  sca_mode :: string
  sca_extensions :: "(string, pyval) dict"

definition require_flag :: "pyval \<Rightarrow> pyval res" where
  "require_flag v = (case v of PBool _ \<Rightarrow> Inr v | PInt _ \<Rightarrow> Inr v | _ \<Rightarrow> Inl (ValueError ''must be boolean or integer''))"

definition ScalarState :: "pyval \<Rightarrow> pyval \<Rightarrow> pyval \<Rightarrow> pyval \<Rightarrow> pyval \<Rightarrow> pyval \<Rightarrow> scalar_state res" where
  "ScalarState registers pc tpc flags mode extensions =
     rbind (require_object registers) (\<lambda>rs.
     rbind (check_items (require_integer None) rs) (\<lambda>rs.
     rbind (require_integer None pc) (\<lambda>pc.
     rbind (require_integer None tpc) (\<lambda>tpc.
     rbind (require_object flags) (\<lambda>fs.
     rbind (check_items require_flag fs) (\<lambda>fs.
     rbind (require_string mode) (\<lambda>mode.
     rbind (require_json_object extensions) (\<lambda>ex.
       Inr \<lparr>sca_registers = rs, sca_pc = pc, sca_tpc = tpc, sca_flags = fs, sca_mode = mode, sca_extensions = ex\<rparr>))))))))"

record block_state =
  blk_active :: bool
  blk_block_id :: "int option"
  blk_start_pc :: "int option"
  blk_instruction_count :: int
  blk_attributes :: "(string, pyval) dict"
  blk_extensions :: "(string, pyval) dict"

definition BlockState :: "pyval \<Rightarrow> pyval \<Rightarrow> pyval \<Rightarrow> pyval \<Rightarrow> pyval \<Rightarrow> pyval \<Rightarrow> block_state res" where
  "BlockState active block_id start_pc count attributes extensions =
     rbind (require_boolean active) (\<lambda>a.
     rbind (require_optional_integer block_id) (\<lambda>b.
     rbind (require_optional_integer start_pc) (\<lambda>p.
     rbind (require_integer (Some 0) count) (\<lambda>n.
     rbind (require_json_object attributes) (\<lambda>at.
     rbind (require_json_object extensions) (\<lambda>ex.
       Inr \<lparr>blk_active = a, blk_block_id = b, blk_start_pc = p, blk_instruction_count = n, blk_attributes = at,
            blk_extensions = ex\<rparr>))))))"

record tile_descriptor =
  td_dtype :: string
  td_layout :: string
  td_shape :: "int list"
  td_valid_shape :: "int list"
  td_strides :: "int list"
  td_extensions :: "(string, pyval) dict"

definition TileDescriptor :: "pyval \<Rightarrow> pyval \<Rightarrow> pyval \<Rightarrow> pyval \<Rightarrow> pyval \<Rightarrow> pyval \<Rightarrow> tile_descriptor res" where
  "TileDescriptor dtype layout shape valid_shape strides extensions =
     rbind (require_string dtype) (\<lambda>d.
     rbind (require_string layout) (\<lambda>l.
     rbind (require_list shape) (\<lambda>sh. rbind (rmap (require_integer (Some 0)) sh) (\<lambda>sh.
     rbind (require_list valid_shape) (\<lambda>vs. rbind (rmap (require_integer (Some 0)) vs) (\<lambda>vs.
     rbind (require_list strides) (\<lambda>st. rbind (rmap (require_integer None) st) (\<lambda>st.
     rbind (require_json_object extensions) (\<lambda>ex.
       Inr \<lparr>td_dtype = d, td_layout = l, td_shape = sh, td_valid_shape = vs, td_strides = st, td_extensions = ex\<rparr>)))))))))"

record tile_value =
  tv_descriptor :: tile_descriptor
  tv_data :: "pyval list"
  tv_defined :: "bool list"
  tv_generation :: int
  tv_extensions :: "(string, pyval) dict"

definition TileValue :: "tile_descriptor \<Rightarrow> pyval \<Rightarrow> pyval \<Rightarrow> pyval \<Rightarrow> pyval \<Rightarrow> tile_value res" where
  "TileValue descriptor payload defined generation extensions =
     rbind (require_list payload) (\<lambda>xs.
     rbind (json_value payload) (\<lambda>_.
     rbind (require_list defined) (\<lambda>ds. rbind (rmap require_boolean ds) (\<lambda>ds.
     rbind (require_integer (Some 0) generation) (\<lambda>g.
     rbind (require_json_object extensions) (\<lambda>ex.
       Inr \<lparr>tv_descriptor = descriptor, tv_data = xs, tv_defined = ds, tv_generation = g, tv_extensions = ex\<rparr>))))))"

record tile_state =
  ts_registers :: "(string, tile_value) dict"
  ts_extensions :: "(string, pyval) dict"

definition TileState :: "(string, tile_value) dict \<Rightarrow> pyval \<Rightarrow> tile_state res" where
  "TileState registers extensions =
     rbind (require_json_object extensions) (\<lambda>ex. Inr \<lparr>ts_registers = registers, ts_extensions = ex\<rparr>)"

record shared_tile =
  sht_descriptor :: tile_descriptor
  sht_data :: "pyval list"
  sht_defined :: "bool list"
  sht_generation :: int
  sht_allocation_mask :: int
  sht_extensions :: "(string, pyval) dict"

definition SharedTile :: "tile_descriptor \<Rightarrow> pyval \<Rightarrow> pyval \<Rightarrow> pyval \<Rightarrow> pyval \<Rightarrow> pyval \<Rightarrow> shared_tile res" where
  "SharedTile descriptor payload defined generation alloc extensions =
     rbind (require_list payload) (\<lambda>xs.
     rbind (json_value payload) (\<lambda>_.
     rbind (require_list defined) (\<lambda>ds. rbind (rmap require_boolean ds) (\<lambda>ds.
     rbind (require_integer (Some 0) generation) (\<lambda>g.
     rbind (require_integer (Some 0) alloc) (\<lambda>m.
     rbind (require_json_object extensions) (\<lambda>ex.
       Inr \<lparr>sht_descriptor = descriptor, sht_data = xs, sht_defined = ds, sht_generation = g,
            sht_allocation_mask = m, sht_extensions = ex\<rparr>)))))))"

record shared_state =
  shs_tiles :: "(string, shared_tile) dict"
  shs_generations :: "(string, int) dict"
  shs_extensions :: "(string, pyval) dict"

definition SharedState :: "(string, shared_tile) dict \<Rightarrow> pyval \<Rightarrow> pyval \<Rightarrow> shared_state res" where
  "SharedState tiles generations extensions =
     rbind (require_object generations) (\<lambda>gs.
     rbind (check_items (require_integer (Some 0)) gs) (\<lambda>gs.
     rbind (require_json_object extensions) (\<lambda>ex.
       Inr \<lparr>shs_tiles = tiles, shs_generations = gs, shs_extensions = ex\<rparr>)))"

record memory_region =
  mrg_base :: int
  mrg_size :: int
  mrg_permissions :: string
  mrg_name :: string
  mrg_extensions :: "(string, pyval) dict"

definition canonical_permissions :: "string list" where
  "canonical_permissions = [''r'', ''w'', ''x'', ''rw'', ''rx'', ''wx'', ''rwx'']"

definition MemoryRegion :: "pyval \<Rightarrow> pyval \<Rightarrow> pyval \<Rightarrow> pyval \<Rightarrow> pyval \<Rightarrow> memory_region res" where
  "MemoryRegion b sz permissions name extensions =
     rbind (require_integer (Some 0) b) (\<lambda>b.
     rbind (require_integer (Some 1) sz) (\<lambda>sz.
     rbind (case permissions of
              PStr p \<Rightarrow> if p \<in> set canonical_permissions then Inr p
                        else Inl (ValueError ''memory region permissions must be a canonical rwx subset'')
            | _ \<Rightarrow> Inl (ValueError ''memory region permissions must be a canonical rwx subset'')) (\<lambda>p.
     rbind (require_string name) (\<lambda>nm.
     rbind (require_json_object extensions) (\<lambda>ex.
       Inr \<lparr>mrg_base = b, mrg_size = sz, mrg_permissions = p, mrg_name = nm, mrg_extensions = ex\<rparr>)))))"

record memory_state =
  mem_cells :: "(string, int) dict"
  mem_regions :: "memory_region list"
  mem_extensions :: "(string, pyval) dict"

text \<open>\<open>^0x(?:0|[1-9a-f][0-9a-f]*)$\<close>, matched in full.\<close>

definition lower_hex :: "char \<Rightarrow> bool" where
  "lower_hex c = (let n = of_char c :: nat in (48 \<le> n \<and> n \<le> 57) \<or> (97 \<le> n \<and> n \<le> 102))"

definition canonical_address :: "string \<Rightarrow> bool" where
  "canonical_address s =
     (case s of
        z # x # d # ds \<Rightarrow> z = CHR ''0'' \<and> x = CHR ''x'' \<and> lower_hex d \<and> list_all lower_hex ds \<and> (d = CHR ''0'' \<longrightarrow> ds = [])
      | _ \<Rightarrow> False)"

definition check_cell :: "string \<times> pyval \<Rightarrow> (string \<times> int) res" where
  "check_cell kv =
     (if \<not> canonical_address (fst kv) then Inl (ValueError ''invalid canonical memory cell address'')
      else case snd kv of
             PInt b \<Rightarrow> if 0 \<le> b \<and> b \<le> 255 then Inr (fst kv, b) else Inl (ValueError ''memory cells require byte values'')
           | _ \<Rightarrow> Inl (ValueError ''memory cells require byte values''))"

definition regions_overlap :: "memory_region list \<Rightarrow> bool" where
  "regions_overlap rs =
     (let ordered = sort_key mrg_base rs in
      list_ex (\<lambda>(left, right). mrg_base left + mrg_size left > mrg_base right) (zip ordered (tl ordered)))"

definition MemoryState :: "pyval \<Rightarrow> memory_region list \<Rightarrow> pyval \<Rightarrow> memory_state res" where
  "MemoryState cells regions extensions =
     rbind (require_object cells) (\<lambda>cs.
     rbind (rmap check_cell cs) (\<lambda>cs.
       if regions_overlap regions then Inl (ValueError ''memory regions overlap'')
       else rbind (require_json_object extensions) (\<lambda>ex.
         Inr \<lparr>mem_cells = cs, mem_regions = regions, mem_extensions = ex\<rparr>)))"

record fault_state =
  flt_pending :: bool
  flt_kind :: string
  flt_code :: string
  flt_address :: "int option"
  flt_instruction :: string
  flt_message :: string
  flt_recoverable :: bool
  flt_extensions :: "(string, pyval) dict"

definition FaultState ::
  "pyval \<Rightarrow> pyval \<Rightarrow> pyval \<Rightarrow> pyval \<Rightarrow> pyval \<Rightarrow> pyval \<Rightarrow> pyval \<Rightarrow> pyval \<Rightarrow> fault_state res" where
  "FaultState pending kind code address instruction message recoverable extensions =
     rbind (require_boolean pending) (\<lambda>p.
     rbind (require_string kind) (\<lambda>k.
     rbind (require_string code) (\<lambda>c.
     rbind (require_optional_integer address) (\<lambda>a.
     rbind (require_string instruction) (\<lambda>i.
     rbind (require_string message) (\<lambda>m.
     rbind (require_boolean recoverable) (\<lambda>r.
     rbind (require_json_object extensions) (\<lambda>ex.
       Inr \<lparr>flt_pending = p, flt_kind = k, flt_code = c, flt_address = a, flt_instruction = i, flt_message = m,
            flt_recoverable = r, flt_extensions = ex\<rparr>))))))))"

record architecture_state =
  arch_scalar :: scalar_state
  arch_block :: block_state
  arch_tile :: tile_state
  arch_shared :: shared_state
  arch_memory :: memory_state
  arch_fault :: fault_state
  arch_pe_id :: int
  arch_thread_id :: int
  arch_cycle :: int
  arch_extensions :: "(string, pyval) dict"

section \<open>Conversion to JSON values\<close>

text \<open>\<open>dataclasses.asdict\<close>: the fields in declaration order, nested objects and containers included.\<close>

definition dict_val :: "('a \<Rightarrow> pyval) \<Rightarrow> (string, 'a) dict \<Rightarrow> pyval" where
  "dict_val f d = PDict (map (\<lambda>(k, v). (k, f v)) d)"

definition opt_int :: "int option \<Rightarrow> pyval" where
  "opt_int v = (case v of None \<Rightarrow> PNone | Some i \<Rightarrow> PInt i)"

definition scalar_dict :: "scalar_state \<Rightarrow> pyval" where
  "scalar_dict s = PDict
     [(''registers'', dict_val PInt (sca_registers s)), (''pc'', PInt (sca_pc s)), (''tpc'', PInt (sca_tpc s)),
      (''flags'', PDict (sca_flags s)), (''mode'', PStr (sca_mode s)), (''extensions'', PDict (sca_extensions s))]"

definition block_dict :: "block_state \<Rightarrow> pyval" where
  "block_dict b = PDict
     [(''active'', PBool (blk_active b)), (''block_id'', opt_int (blk_block_id b)),
      (''start_pc'', opt_int (blk_start_pc b)), (''instruction_count'', PInt (blk_instruction_count b)),
      (''attributes'', PDict (blk_attributes b)), (''extensions'', PDict (blk_extensions b))]"

definition descriptor_dict :: "tile_descriptor \<Rightarrow> pyval" where
  "descriptor_dict d = PDict
     [(''dtype'', PStr (td_dtype d)), (''layout'', PStr (td_layout d)), (''shape'', PList (map PInt (td_shape d))),
      (''valid_shape'', PList (map PInt (td_valid_shape d))), (''strides'', PList (map PInt (td_strides d))),
      (''extensions'', PDict (td_extensions d))]"

definition tile_value_dict :: "tile_value \<Rightarrow> pyval" where
  "tile_value_dict t = PDict
     [(''descriptor'', descriptor_dict (tv_descriptor t)), (''data'', PList (tv_data t)),
      (''defined'', PList (map PBool (tv_defined t))), (''generation'', PInt (tv_generation t)),
      (''extensions'', PDict (tv_extensions t))]"

definition tile_state_dict :: "tile_state \<Rightarrow> pyval" where
  "tile_state_dict t = PDict
     [(''registers'', dict_val tile_value_dict (ts_registers t)), (''extensions'', PDict (ts_extensions t))]"

definition shared_tile_dict :: "shared_tile \<Rightarrow> pyval" where
  "shared_tile_dict t = PDict
     [(''descriptor'', descriptor_dict (sht_descriptor t)), (''data'', PList (sht_data t)),
      (''defined'', PList (map PBool (sht_defined t))), (''generation'', PInt (sht_generation t)),
      (''allocation_mask'', PInt (sht_allocation_mask t)), (''extensions'', PDict (sht_extensions t))]"

definition shared_state_dict :: "shared_state \<Rightarrow> pyval" where
  "shared_state_dict s = PDict
     [(''tiles'', dict_val shared_tile_dict (shs_tiles s)), (''generations'', dict_val PInt (shs_generations s)),
      (''extensions'', PDict (shs_extensions s))]"

definition region_dict :: "memory_region \<Rightarrow> pyval" where
  "region_dict r = PDict
     [(''base'', PInt (mrg_base r)), (''size'', PInt (mrg_size r)), (''permissions'', PStr (mrg_permissions r)),
      (''name'', PStr (mrg_name r)), (''extensions'', PDict (mrg_extensions r))]"

definition memory_dict :: "memory_state \<Rightarrow> pyval" where
  "memory_dict m = PDict
     [(''cells'', dict_val PInt (mem_cells m)), (''regions'', PList (map region_dict (mem_regions m))),
      (''extensions'', PDict (mem_extensions m))]"

definition fault_dict :: "fault_state \<Rightarrow> pyval" where
  "fault_dict f = PDict
     [(''pending'', PBool (flt_pending f)), (''kind'', PStr (flt_kind f)), (''code'', PStr (flt_code f)),
      (''address'', opt_int (flt_address f)), (''instruction'', PStr (flt_instruction f)),
      (''message'', PStr (flt_message f)), (''recoverable'', PBool (flt_recoverable f)),
      (''extensions'', PDict (flt_extensions f))]"

definition architecture_dict :: "architecture_state \<Rightarrow> pyval" where
  "architecture_dict s = PDict
     [(''scalar'', scalar_dict (arch_scalar s)), (''block'', block_dict (arch_block s)),
      (''tile'', tile_state_dict (arch_tile s)), (''shared'', shared_state_dict (arch_shared s)),
      (''memory'', memory_dict (arch_memory s)), (''fault'', fault_dict (arch_fault s)),
      (''pe_id'', PInt (arch_pe_id s)), (''thread_id'', PInt (arch_thread_id s)), (''cycle'', PInt (arch_cycle s)),
      (''extensions'', PDict (arch_extensions s))]"

definition architecture_as_dict :: "architecture_state \<Rightarrow> pyval res" where
  "architecture_as_dict s = json_value (architecture_dict s)"

definition architecture_canonical_json :: "architecture_state \<Rightarrow> string res" where
  "architecture_canonical_json s = rbind (architecture_as_dict s) canonical_json"

definition architecture_sha256 :: "(string \<Rightarrow> string) \<Rightarrow> architecture_state \<Rightarrow> string res" where
  "architecture_sha256 sha256_of s = rbind (architecture_as_dict s) (canonical_hash sha256_of)"

definition ArchitectureState ::
  "scalar_state \<Rightarrow> block_state \<Rightarrow> tile_state \<Rightarrow> shared_state \<Rightarrow> memory_state \<Rightarrow> fault_state \<Rightarrow>
   pyval \<Rightarrow> pyval \<Rightarrow> pyval \<Rightarrow> pyval \<Rightarrow> architecture_state res" where
  "ArchitectureState scalar block tile shared memory fault pe_id thread_id cycle extensions =
     rbind (require_integer (Some 0) pe_id) (\<lambda>p.
     rbind (require_integer (Some 0) thread_id) (\<lambda>t.
     rbind (require_integer (Some 0) cycle) (\<lambda>c.
     rbind (require_json_object extensions) (\<lambda>ex.
       let s = \<lparr>arch_scalar = scalar, arch_block = block, arch_tile = tile, arch_shared = shared, arch_memory = memory,
                arch_fault = fault, arch_pe_id = p, arch_thread_id = t, arch_cycle = c, arch_extensions = ex\<rparr>
       in rbind (architecture_canonical_json s) (\<lambda>_. Inr s)))))"

section \<open>Conversion from JSON values\<close>

text \<open>A field of a row whose fields \<^const>\<open>require_exact_object\<close> has checked.\<close>

definition fld :: "(string, pyval) dict \<Rightarrow> string \<Rightarrow> pyval" where
  "fld row name = dict_get row name PNone"

definition descriptor_fields :: "string list" where
  "descriptor_fields = [''dtype'', ''layout'', ''shape'', ''valid_shape'', ''strides'', ''extensions'']"

definition tile_value_fields :: "string list" where
  "tile_value_fields = [''descriptor'', ''data'', ''defined'', ''generation'', ''extensions'']"

definition shared_tile_fields :: "string list" where
  "shared_tile_fields = [''descriptor'', ''data'', ''defined'', ''generation'', ''allocation_mask'', ''extensions'']"

definition scalar_fields :: "string list" where
  "scalar_fields = [''registers'', ''pc'', ''tpc'', ''flags'', ''mode'', ''extensions'']"

definition block_fields :: "string list" where
  "block_fields = [''active'', ''block_id'', ''start_pc'', ''instruction_count'', ''attributes'', ''extensions'']"

definition tile_fields :: "string list" where
  "tile_fields = [''registers'', ''extensions'']"

definition shared_fields :: "string list" where
  "shared_fields = [''tiles'', ''generations'', ''extensions'']"

definition region_fields :: "string list" where
  "region_fields = [''base'', ''size'', ''permissions'', ''name'', ''extensions'']"

definition memory_fields :: "string list" where
  "memory_fields = [''cells'', ''regions'', ''extensions'']"

definition architecture_fields :: "string list" where
  "architecture_fields = [''scalar'', ''block'', ''tile'', ''shared'', ''memory'', ''fault'', ''pe_id'', ''thread_id'', ''cycle'', ''extensions'']"

definition fault_fields :: "string list" where
  "fault_fields = [''pending'', ''kind'', ''code'', ''address'', ''instruction'', ''message'', ''recoverable'', ''extensions'']"

definition descriptor_from :: "pyval \<Rightarrow> tile_descriptor res" where
  "descriptor_from item =
     rbind (require_exact_object descriptor_fields item) (\<lambda>row.
       TileDescriptor (fld row ''dtype'') (fld row ''layout'') (fld row ''shape'') (fld row ''valid_shape'')
         (fld row ''strides'') (fld row ''extensions''))"

definition tile_value_from :: "pyval \<Rightarrow> tile_value res" where
  "tile_value_from item =
     rbind (require_exact_object tile_value_fields item) (\<lambda>row.
     rbind (descriptor_from (fld row ''descriptor'')) (\<lambda>d.
       TileValue d (fld row ''data'') (fld row ''defined'') (fld row ''generation'') (fld row ''extensions'')))"

definition shared_tile_from :: "pyval \<Rightarrow> shared_tile res" where
  "shared_tile_from item =
     rbind (require_exact_object shared_tile_fields item) (\<lambda>row.
     rbind (descriptor_from (fld row ''descriptor'')) (\<lambda>d.
       SharedTile d (fld row ''data'') (fld row ''defined'') (fld row ''generation'') (fld row ''allocation_mask'')
         (fld row ''extensions'')))"

definition scalar_from :: "pyval \<Rightarrow> scalar_state res" where
  "scalar_from item =
     rbind (require_exact_object scalar_fields item) (\<lambda>row.
       ScalarState (fld row ''registers'') (fld row ''pc'') (fld row ''tpc'') (fld row ''flags'') (fld row ''mode'')
         (fld row ''extensions''))"

definition block_from :: "pyval \<Rightarrow> block_state res" where
  "block_from item =
     rbind (require_exact_object block_fields item) (\<lambda>row.
       BlockState (fld row ''active'') (fld row ''block_id'') (fld row ''start_pc'') (fld row ''instruction_count'')
         (fld row ''attributes'') (fld row ''extensions''))"

definition tile_state_from :: "pyval \<Rightarrow> tile_state res" where
  "tile_state_from item =
     rbind (require_exact_object tile_fields item) (\<lambda>row.
       case fld row ''registers'' of
         PDict d \<Rightarrow> rbind (check_items tile_value_from d) (\<lambda>rs. TileState rs (fld row ''extensions''))
       | _ \<Rightarrow> Inl (ValueError ''architecture state tile registers must be an object''))"

definition shared_state_from :: "pyval \<Rightarrow> shared_state res" where
  "shared_state_from item =
     rbind (require_exact_object shared_fields item) (\<lambda>row.
       case fld row ''tiles'' of
         PDict d \<Rightarrow> rbind (check_items shared_tile_from d) (\<lambda>ts.
                      SharedState ts (fld row ''generations'') (fld row ''extensions''))
       | _ \<Rightarrow> Inl (ValueError ''architecture state shared tiles must be an object''))"

definition region_from :: "pyval \<Rightarrow> memory_region res" where
  "region_from item =
     rbind (require_exact_object region_fields item) (\<lambda>row.
       MemoryRegion (fld row ''base'') (fld row ''size'') (fld row ''permissions'') (fld row ''name'')
         (fld row ''extensions''))"

definition memory_from :: "pyval \<Rightarrow> memory_state res" where
  "memory_from item =
     rbind (require_exact_object memory_fields item) (\<lambda>row.
       case fld row ''regions'' of
         PList xs \<Rightarrow> rbind (rmap region_from xs) (\<lambda>rs. MemoryState (fld row ''cells'') rs (fld row ''extensions''))
       | _ \<Rightarrow> Inl (ValueError ''architecture state memory regions must be an array''))"

definition fault_of_row :: "(string, pyval) dict \<Rightarrow> fault_state res" where
  "fault_of_row row =
     FaultState (fld row ''pending'') (fld row ''kind'') (fld row ''code'') (fld row ''address'') (fld row ''instruction'')
       (fld row ''message'') (fld row ''recoverable'') (fld row ''extensions'')"

definition fault_from :: "pyval \<Rightarrow> fault_state res" where
  "fault_from item = rbind (require_exact_object fault_fields item) fault_of_row"

definition architecture_from_dict :: "pyval \<Rightarrow> architecture_state res" where
  "architecture_from_dict v =
     (case v of
        PDict _ \<Rightarrow>
          rbind (require_exact_object architecture_fields v) (\<lambda>row.
          rbind (scalar_from (fld row ''scalar'')) (\<lambda>scalar.
          rbind (block_from (fld row ''block'')) (\<lambda>block.
          rbind (tile_state_from (fld row ''tile'')) (\<lambda>tile.
          rbind (shared_state_from (fld row ''shared'')) (\<lambda>shared.
          rbind (memory_from (fld row ''memory'')) (\<lambda>memory.
          rbind (fault_from (fld row ''fault'')) (\<lambda>fault.
          rbind (require_object (fld row ''extensions'')) (\<lambda>ex.
            ArchitectureState scalar block tile shared memory fault (fld row ''pe_id'') (fld row ''thread_id'')
              (fld row ''cycle'') (PDict ex)))))))))
      | _ \<Rightarrow> Inl (TypeError ''architecture state must be an object''))"

section \<open>The objects the constructors accept\<close>

definition flag_ok :: "pyval \<Rightarrow> bool" where
  "flag_ok v = (case v of PBool _ \<Rightarrow> True | PInt _ \<Rightarrow> True | _ \<Rightarrow> False)"

definition scalar_ok :: "scalar_state \<Rightarrow> bool" where
  "scalar_ok s = (list_all (\<lambda>(_, v). flag_ok v) (sca_flags s) \<and> json_plain_items (sca_extensions s))"

definition block_ok :: "block_state \<Rightarrow> bool" where
  "block_ok b = (0 \<le> blk_instruction_count b \<and> json_plain_items (blk_attributes b) \<and> json_plain_items (blk_extensions b))"

definition descriptor_ok :: "tile_descriptor \<Rightarrow> bool" where
  "descriptor_ok d = (list_all ((\<le>) 0) (td_shape d) \<and> list_all ((\<le>) 0) (td_valid_shape d)
     \<and> json_plain_items (td_extensions d))"

definition tile_value_ok :: "tile_value \<Rightarrow> bool" where
  "tile_value_ok t = (descriptor_ok (tv_descriptor t) \<and> json_plains (tv_data t) \<and> 0 \<le> tv_generation t
     \<and> json_plain_items (tv_extensions t))"

definition tile_state_ok :: "tile_state \<Rightarrow> bool" where
  "tile_state_ok t = (list_all (\<lambda>(_, v). tile_value_ok v) (ts_registers t) \<and> json_plain_items (ts_extensions t))"

definition shared_tile_ok :: "shared_tile \<Rightarrow> bool" where
  "shared_tile_ok t = (descriptor_ok (sht_descriptor t) \<and> json_plains (sht_data t) \<and> 0 \<le> sht_generation t
     \<and> 0 \<le> sht_allocation_mask t \<and> json_plain_items (sht_extensions t))"

definition shared_state_ok :: "shared_state \<Rightarrow> bool" where
  "shared_state_ok s = (list_all (\<lambda>(_, v). shared_tile_ok v) (shs_tiles s)
     \<and> list_all (\<lambda>(_, v). 0 \<le> v) (shs_generations s) \<and> json_plain_items (shs_extensions s))"

definition passive_region_ok :: "memory_region \<Rightarrow> bool" where
  "passive_region_ok r = (0 \<le> mrg_base r \<and> 1 \<le> mrg_size r \<and> mrg_permissions r \<in> set canonical_permissions
     \<and> json_plain_items (mrg_extensions r))"

text \<open>An address lies in at most one region.\<close>

definition region_holds :: "int \<Rightarrow> memory_region \<Rightarrow> bool" where
  "region_holds a r \<longleftrightarrow> mrg_base r \<le> a \<and> a < mrg_base r + mrg_size r"

definition regions_disjoint :: "memory_region list \<Rightarrow> bool" where
  "regions_disjoint rs \<longleftrightarrow> (\<forall>a. length (filter (region_holds a) rs) \<le> 1)"

definition memory_ok :: "memory_state \<Rightarrow> bool" where
  "memory_ok m = (list_all (\<lambda>(a, b). canonical_address a \<and> 0 \<le> b \<and> b \<le> 255) (mem_cells m)
     \<and> list_all passive_region_ok (mem_regions m) \<and> \<not> regions_overlap (mem_regions m) \<and> json_plain_items (mem_extensions m))"

definition fault_ok :: "fault_state \<Rightarrow> bool" where
  "fault_ok f = json_plain_items (flt_extensions f)"

definition architecture_ok :: "architecture_state \<Rightarrow> bool" where
  "architecture_ok s = (scalar_ok (arch_scalar s) \<and> block_ok (arch_block s) \<and> tile_state_ok (arch_tile s)
     \<and> shared_state_ok (arch_shared s) \<and> memory_ok (arch_memory s) \<and> fault_ok (arch_fault s)
     \<and> 0 \<le> arch_pe_id s \<and> 0 \<le> arch_thread_id s \<and> 0 \<le> arch_cycle s \<and> json_plain_items (arch_extensions s))"

lemmas ok_defs = scalar_ok_def block_ok_def descriptor_ok_def tile_value_ok_def tile_state_ok_def shared_tile_ok_def
  shared_state_ok_def passive_region_ok_def memory_ok_def fault_ok_def

section \<open>What the validators accept\<close>

named_theorems accepts \<open>the values a validator accepts, with its result\<close>

lemma require_object_Inr [accepts]: "require_object v = Inr d \<longleftrightarrow> v = PDict d"
  by (auto simp: require_object_def split: pyval.splits)

lemma require_list_Inr [accepts]: "require_list v = Inr xs \<longleftrightarrow> v = PList xs"
  by (auto simp: require_list_def split: pyval.splits)

lemma require_string_Inr [accepts]: "require_string v = Inr s \<longleftrightarrow> v = PStr s"
  by (auto simp: require_string_def split: pyval.splits)

lemma require_boolean_Inr [accepts]: "require_boolean v = Inr b \<longleftrightarrow> v = PBool b"
  by (auto simp: require_boolean_def split: pyval.splits)

lemma require_integer_None_Inr [accepts]: "require_integer None v = Inr i \<longleftrightarrow> v = PInt i"
  by (auto simp: require_integer_def split: pyval.splits)

lemma require_integer_Some_Inr [accepts]: "require_integer (Some m) v = Inr i \<longleftrightarrow> v = PInt i \<and> m \<le> i"
  by (auto simp: require_integer_def split: pyval.splits if_splits)

lemma require_optional_integer_Inr [accepts]: "require_optional_integer v = Inr i \<longleftrightarrow> v = opt_int i"
  by (cases v; cases i) (auto simp: require_optional_integer_def opt_int_def require_integer_def)

lemma require_flag_Inr [accepts]: "require_flag v = Inr w \<longleftrightarrow> w = v \<and> flag_ok v"
  by (auto simp: require_flag_def flag_ok_def split: pyval.splits)

lemma json_value_Inr [accepts]: "json_value v = Inr w \<longleftrightarrow> w = json_norm v \<and> json_plain v"
  by (auto simp: json_value_eq)

lemma require_json_object_Inr [accepts]:
  "require_json_object v = Inr d \<longleftrightarrow> v = PDict d \<and> json_plain_items d"
  by (auto simp: require_json_object_def res_simps accepts)

definition has_fields :: "(string, pyval) dict \<Rightarrow> string list \<Rightarrow> bool" where
  "has_fields row names \<longleftrightarrow> set (map fst row) = set names"

lemma require_exact_object_Inr [accepts]:
  "require_exact_object names v = Inr row \<longleftrightarrow> v = PDict row \<and> has_fields row names"
  by (auto simp: has_fields_def require_exact_object_def res_simps accepts list_ex_iff simp del: set_map)

lemma rmap_Inr_map_iff:
  assumes "\<And>v x. f v = Inr x \<longleftrightarrow> v = g x \<and> P x"
  shows "rmap f vs = Inr xs \<longleftrightarrow> vs = map g xs \<and> list_all P xs"
  unfolding rmap_Inr_iff assms by (induction xs arbitrary: vs) (auto simp: list_all2_Cons2)

lemma rmap_naturals [accepts]:
  "rmap (require_integer (Some m)) vs = Inr xs \<longleftrightarrow> vs = map PInt xs \<and> list_all ((\<le>) m) xs"
  by (rule rmap_Inr_map_iff) (simp add: accepts)

lemma rmap_integers [accepts]: "rmap (require_integer None) vs = Inr xs \<longleftrightarrow> vs = map PInt xs"
  using rmap_Inr_map_iff [of "require_integer None" PInt "\<lambda>_. True" vs xs] by (simp add: accepts list_all_iff)

lemma rmap_booleans [accepts]: "rmap require_boolean vs = Inr xs \<longleftrightarrow> vs = map PBool xs"
  using rmap_Inr_map_iff [of require_boolean PBool "\<lambda>_. True" vs xs] by (simp add: accepts list_all_iff)

lemma check_items_Inr_iff:
  assumes "\<And>v x. check v = Inr x \<longleftrightarrow> v = g x \<and> P x"
  shows "check_items check d = Inr r \<longleftrightarrow> PDict d = dict_val g r \<and> list_all (\<lambda>(_, x). P x) r"
proof -
  have "(case kv of (k, v) \<Rightarrow> rbind (check v) (\<lambda>x. Inr (k, x))) = Inr kx \<longleftrightarrow>
      kv = (case kx of (k, x) \<Rightarrow> (k, g x)) \<and> (case kx of (_, x) \<Rightarrow> P x)" for kv :: "string \<times> pyval" and kx
    by (auto simp: res_simps assms split: prod.splits)
  then show ?thesis unfolding check_items_def dict_val_def by (subst rmap_Inr_map_iff) auto
qed

lemma check_items_integers [accepts]: "check_items (require_integer None) d = Inr r \<longleftrightarrow> PDict d = dict_val PInt r"
  using check_items_Inr_iff [of "require_integer None" PInt "\<lambda>_. True" d r] by (simp add: accepts list_all_iff)

lemma check_items_naturals [accepts]:
  "check_items (require_integer (Some m)) d = Inr r \<longleftrightarrow> PDict d = dict_val PInt r \<and> list_all (\<lambda>(_, v). m \<le> v) r"
  by (rule check_items_Inr_iff) (simp add: accepts)

lemma check_items_flags [accepts]:
  "check_items require_flag d = Inr r \<longleftrightarrow> r = d \<and> list_all (\<lambda>(_, v). flag_ok v) r"
  using check_items_Inr_iff [of require_flag id flag_ok d r] by (auto simp: accepts dict_val_def)

lemma check_cell_Inr: "check_cell kv = Inr kb \<longleftrightarrow>
    kv = (case kb of (a, b) \<Rightarrow> (a, PInt b)) \<and> (case kb of (a, b) \<Rightarrow> canonical_address a \<and> 0 \<le> b \<and> b \<le> 255)"
  by (cases kv; cases kb) (auto simp: check_cell_def split: pyval.splits if_splits)

lemma rmap_cells [accepts]:
  "rmap check_cell d = Inr cs \<longleftrightarrow>
   PDict d = dict_val PInt cs \<and> list_all (\<lambda>(a, b). canonical_address a \<and> 0 \<le> b \<and> b \<le> 255) cs"
  unfolding dict_val_def by (subst rmap_Inr_map_iff [OF check_cell_Inr]) auto

text \<open>The constructors: the accepted arguments are the fields of the object, which satisfies its invariant.\<close>

lemma TileDescriptor_Inr [accepts]:
  "TileDescriptor dt l sh vs st ex = Inr d \<longleftrightarrow>
   dt = PStr (td_dtype d) \<and> l = PStr (td_layout d) \<and> sh = PList (map PInt (td_shape d)) \<and>
   vs = PList (map PInt (td_valid_shape d)) \<and> st = PList (map PInt (td_strides d)) \<and> ex = PDict (td_extensions d) \<and>
   descriptor_ok d"
  by (cases d) (auto simp: TileDescriptor_def res_simps accepts ok_defs)

lemma TileValue_Inr [accepts]:
  "TileValue d xs ds g ex = Inr t \<longleftrightarrow>
   d = tv_descriptor t \<and> xs = PList (tv_data t) \<and> ds = PList (map PBool (tv_defined t)) \<and> g = PInt (tv_generation t) \<and>
   ex = PDict (tv_extensions t) \<and> json_plains (tv_data t) \<and> 0 \<le> tv_generation t \<and> json_plain_items (tv_extensions t)"
  by (cases t) (auto simp: TileValue_def res_simps accepts)

lemma SharedTile_Inr [accepts]:
  "SharedTile d xs ds g m ex = Inr t \<longleftrightarrow>
   d = sht_descriptor t \<and> xs = PList (sht_data t) \<and> ds = PList (map PBool (sht_defined t)) \<and>
   g = PInt (sht_generation t) \<and> m = PInt (sht_allocation_mask t) \<and> ex = PDict (sht_extensions t) \<and>
   json_plains (sht_data t) \<and> 0 \<le> sht_generation t \<and> 0 \<le> sht_allocation_mask t \<and> json_plain_items (sht_extensions t)"
  by (cases t) (auto simp: SharedTile_def res_simps accepts)

lemma ScalarState_Inr [accepts]:
  "ScalarState rs pc tpc fs mode ex = Inr s \<longleftrightarrow>
   rs = dict_val PInt (sca_registers s) \<and> pc = PInt (sca_pc s) \<and> tpc = PInt (sca_tpc s) \<and> fs = PDict (sca_flags s) \<and>
   mode = PStr (sca_mode s) \<and> ex = PDict (sca_extensions s) \<and> scalar_ok s"
  by (cases s) (auto simp: ScalarState_def res_simps accepts ok_defs dict_val_def)

lemma BlockState_Inr [accepts]:
  "BlockState a b p n at ex = Inr s \<longleftrightarrow>
   a = PBool (blk_active s) \<and> b = opt_int (blk_block_id s) \<and> p = opt_int (blk_start_pc s) \<and>
   n = PInt (blk_instruction_count s) \<and> at = PDict (blk_attributes s) \<and> ex = PDict (blk_extensions s) \<and> block_ok s"
  by (cases s) (auto simp: BlockState_def res_simps accepts ok_defs)

lemma TileState_Inr [accepts]:
  "TileState rs ex = Inr t \<longleftrightarrow> rs = ts_registers t \<and> ex = PDict (ts_extensions t) \<and> json_plain_items (ts_extensions t)"
  by (cases t) (auto simp: TileState_def res_simps accepts)

lemma SharedState_Inr [accepts]:
  "SharedState ts gs ex = Inr s \<longleftrightarrow>
   ts = shs_tiles s \<and> gs = dict_val PInt (shs_generations s) \<and> ex = PDict (shs_extensions s) \<and>
   list_all (\<lambda>(_, v). 0 \<le> v) (shs_generations s) \<and> json_plain_items (shs_extensions s)"
  by (cases s) (auto simp: SharedState_def res_simps accepts dict_val_def)

lemma MemoryRegion_Inr [accepts]:
  "MemoryRegion b n p nm ex = Inr r \<longleftrightarrow>
   b = PInt (mrg_base r) \<and> n = PInt (mrg_size r) \<and> p = PStr (mrg_permissions r) \<and> nm = PStr (mrg_name r) \<and>
   ex = PDict (mrg_extensions r) \<and> passive_region_ok r"
  by (cases r; cases p) (auto simp: MemoryRegion_def res_simps accepts ok_defs)

lemma MemoryState_Inr [accepts]:
  "MemoryState cs rs ex = Inr m \<longleftrightarrow>
   cs = dict_val PInt (mem_cells m) \<and> rs = mem_regions m \<and> ex = PDict (mem_extensions m) \<and>
   list_all (\<lambda>(a, b). canonical_address a \<and> 0 \<le> b \<and> b \<le> 255) (mem_cells m) \<and> \<not> regions_overlap (mem_regions m) \<and>
   json_plain_items (mem_extensions m)"
  by (cases m) (auto simp: MemoryState_def res_simps accepts dict_val_def)

lemma FaultState_Inr [accepts]:
  "FaultState p k c a i m r ex = Inr f \<longleftrightarrow>
   p = PBool (flt_pending f) \<and> k = PStr (flt_kind f) \<and> c = PStr (flt_code f) \<and> a = opt_int (flt_address f) \<and>
   i = PStr (flt_instruction f) \<and> m = PStr (flt_message f) \<and> r = PBool (flt_recoverable f) \<and>
   ex = PDict (flt_extensions f) \<and> fault_ok f"
  by (cases f) (auto simp: FaultState_def res_simps accepts ok_defs)

section \<open>Rows and their canonical text\<close>

text \<open>A row has exactly the given fields, with the given values, in any order.\<close>

definition row_like :: "pyval \<Rightarrow> (string, pyval) dict \<Rightarrow> bool" where
  "row_like v d \<longleftrightarrow> (\<exists>row. v = PDict row \<and> has_fields row (map fst d) \<and> (\<forall>(n, x) \<in> set d. fld row n = x))"

text \<open>No dictionary inside a value repeats a key.\<close>

fun keys_distinct :: "pyval \<Rightarrow> bool" and keys_distincts :: "pyval list \<Rightarrow> bool"
  and keys_distinct_items :: "(string \<times> pyval) list \<Rightarrow> bool" where
  "keys_distinct (PList xs) = keys_distincts xs"
| "keys_distinct (PTuple xs) = keys_distincts xs"
| "keys_distinct (PDict d) = (distinct (map fst d) \<and> keys_distinct_items d)"
| "keys_distinct _ = True"
| "keys_distincts [] = True"
| "keys_distincts (x # xs) = (keys_distinct x \<and> keys_distincts xs)"
| "keys_distinct_items [] = True"
| "keys_distinct_items ((k, x) # d) = (keys_distinct x \<and> keys_distinct_items d)"

lemma keys_distincts_iff: "keys_distincts xs \<longleftrightarrow> (\<forall>x \<in> set xs. keys_distinct x)"
  by (induction xs) auto

lemma keys_distinct_items_iff: "keys_distinct_items d \<longleftrightarrow> (\<forall>(k, x) \<in> set d. keys_distinct x)"
  by (induction d) auto

lemma json_texts_map: "json_texts xs = map json_dumps xs"
  by (induction xs) auto

lemma json_items_map: "json_items d = map (\<lambda>(k, x). (k, json_dumps x)) d"
  by (induction d) auto

text \<open>The canonical text of an object does not depend on the order of its fields.\<close>

lemma sort_key_same_set:
  assumes "set xs = set ys" and "distinct (map f xs)" and "distinct (map f ys)"
  shows "sort_key f xs = sort_key f ys"
proof (rule map_sorted_distinct_set_unique [of f])
  have i: "inj_on f (set xs)" using assms(2) by (simp add: distinct_map)
  then show "inj_on f (set (sort_key f xs) \<union> set (sort_key f ys))" using assms(1) by simp
  show "distinct (map f (sort_key f xs))" "distinct (map f (sort_key f ys))"
    using assms i by (simp_all add: distinct_map)
qed (use assms(1) in simp_all)

lemma json_dumps_same_set:
  assumes "set d = set e" and "distinct (map fst d)" and "distinct (map fst e)"
  shows "json_dumps (PDict d) = json_dumps (PDict e)"
proof -
  have "sort_key fst (json_items d) = sort_key fst (json_items e)"
    unfolding json_items_map
    by (rule sort_key_same_set) (use assms in \<open>auto simp: comp_def case_prod_beta distinct_map inj_on_def\<close>)
  then show ?thesis by simp
qed

lemma row_like_values:
  assumes "row_like v d" and "keys_distinct v"
  obtains row where "v = PDict row" and "distinct (map fst row)" and "set row = set d"
proof -
  from assms(1) obtain row where row: "v = PDict row" "set (map fst row) = set (map fst d)"
    and f: "\<And>n x. (n, x) \<in> set d \<Longrightarrow> fld row n = x"
    by (fastforce simp: row_like_def has_fields_def)
  with assms(2) have dist: "distinct (map fst row)" by simp
  have at: "fld row n = x" if "(n, x) \<in> set row" for n x
    using that dist by (simp add: fld_def dict_get_def)
  have "set row = set d"
  proof (intro set_eqI iffI)
    fix p assume p: "p \<in> set row"
    then have "fst p \<in> set (map fst d)" using row(2) by auto
    then obtain x where "(fst p, x) \<in> set d" by auto
    with f at p show "p \<in> set d" by (metis prod.collapse)
  next
    fix p assume p: "p \<in> set d"
    then have "fst p \<in> set (map fst row)" using row(2) by auto
    then obtain x where "(fst p, x) \<in> set row" by auto
    with f at p show "p \<in> set row" by (metis prod.collapse)
  qed
  with row dist that show ?thesis by blast
qed

lemma row_like_json:
  "row_like v d \<Longrightarrow> keys_distinct v \<Longrightarrow> distinct (map fst d) \<Longrightarrow> json_dumps v = json_dumps (PDict d)"
  by (metis json_dumps_same_set row_like_values)

lemma row_like_keys_distinct: "row_like v d \<Longrightarrow> keys_distinct v \<Longrightarrow> (n, x) \<in> set d \<Longrightarrow> keys_distinct x"
  by (erule row_like_values) (auto simp: keys_distinct_items_iff)

lemma row_like_refl: "distinct (map fst d) \<Longrightarrow> row_like (PDict d) d"
  by (auto simp: row_like_def has_fields_def fld_def dict_get_def)

lemma json_dumps_cong:
  "map fst d = map fst e \<Longrightarrow> map (json_dumps \<circ> snd) d = map (json_dumps \<circ> snd) e \<Longrightarrow>
   json_dumps (PDict d) = json_dumps (PDict e)"
proof -
  assume a: "map fst d = map fst e" "map (json_dumps \<circ> snd) d = map (json_dumps \<circ> snd) e"
  have "json_items d = zip (map fst d) (map (json_dumps \<circ> snd) d)" for d
    unfolding json_items_map by (induction d) auto
  with a show ?thesis by simp
qed

section \<open>The rows \<open>from_dict\<close> accepts\<close>

lemma case_dict_Inr:
  "(case v of PDict d \<Rightarrow> f d | _ \<Rightarrow> Inl e) = Inr x \<longleftrightarrow> (\<exists>d. v = PDict d \<and> f d = Inr x)"
  by (cases v) auto

lemma case_list_Inr:
  "(case v of PList xs \<Rightarrow> f xs | _ \<Rightarrow> Inl e) = Inr x \<longleftrightarrow> (\<exists>xs. v = PList xs \<and> f xs = Inr x)"
  by (cases v) auto

lemmas row_simps = res_simps accepts row_like_def case_dict_Inr case_list_Inr

lemma descriptor_from_Inr:
  "descriptor_from v = Inr d \<longleftrightarrow> (\<exists>it. descriptor_dict d = PDict it \<and> row_like v it) \<and> descriptor_ok d"
  by (auto simp: descriptor_from_def row_simps descriptor_fields_def descriptor_dict_def)

lemma descriptor_from_ok: "descriptor_from v = Inr d \<Longrightarrow> descriptor_ok d"
  by (simp add: descriptor_from_Inr)

lemma tile_value_from_Inr:
  "tile_value_from v = Inr t \<longleftrightarrow>
   (\<exists>w. row_like v [(''descriptor'', w), (''data'', PList (tv_data t)), (''defined'', PList (map PBool (tv_defined t))),
          (''generation'', PInt (tv_generation t)), (''extensions'', PDict (tv_extensions t))] \<and>
        descriptor_from w = Inr (tv_descriptor t)) \<and> tile_value_ok t"
  by (auto simp: tile_value_from_def row_simps tile_value_fields_def tile_value_ok_def dest: descriptor_from_ok)

lemma shared_tile_from_Inr:
  "shared_tile_from v = Inr t \<longleftrightarrow>
   (\<exists>w. row_like v [(''descriptor'', w), (''data'', PList (sht_data t)), (''defined'', PList (map PBool (sht_defined t))),
          (''generation'', PInt (sht_generation t)), (''allocation_mask'', PInt (sht_allocation_mask t)),
          (''extensions'', PDict (sht_extensions t))] \<and>
        descriptor_from w = Inr (sht_descriptor t)) \<and> shared_tile_ok t"
  by (auto simp: shared_tile_from_def row_simps shared_tile_fields_def shared_tile_ok_def dest: descriptor_from_ok)

lemma scalar_from_Inr:
  "scalar_from v = Inr s \<longleftrightarrow> (\<exists>it. scalar_dict s = PDict it \<and> row_like v it) \<and> scalar_ok s"
  by (auto simp: scalar_from_def row_simps scalar_fields_def scalar_dict_def)

lemma block_from_Inr:
  "block_from v = Inr b \<longleftrightarrow> (\<exists>it. block_dict b = PDict it \<and> row_like v it) \<and> block_ok b"
  by (auto simp: block_from_def row_simps block_fields_def block_dict_def)

lemma region_from_Inr:
  "region_from v = Inr r \<longleftrightarrow> (\<exists>it. region_dict r = PDict it \<and> row_like v it) \<and> passive_region_ok r"
  by (auto simp: region_from_def row_simps region_fields_def region_dict_def)

lemma fault_from_Inr:
  "fault_from v = Inr f \<longleftrightarrow> (\<exists>it. fault_dict f = PDict it \<and> row_like v it) \<and> fault_ok f"
  by (auto simp: fault_from_def fault_of_row_def row_simps fault_fields_def fault_dict_def)

lemma tile_state_from_Inr:
  "tile_state_from v = Inr t \<longleftrightarrow>
   (\<exists>d. row_like v [(''registers'', PDict d), (''extensions'', PDict (ts_extensions t))] \<and>
        check_items tile_value_from d = Inr (ts_registers t)) \<and> json_plain_items (ts_extensions t)"
  by (auto simp: tile_state_from_def row_simps tile_fields_def)

lemma shared_state_from_Inr:
  "shared_state_from v = Inr s \<longleftrightarrow>
   (\<exists>d. row_like v [(''tiles'', PDict d), (''generations'', dict_val PInt (shs_generations s)),
          (''extensions'', PDict (shs_extensions s))] \<and> check_items shared_tile_from d = Inr (shs_tiles s)) \<and>
   list_all (\<lambda>(_, v). 0 \<le> v) (shs_generations s) \<and> json_plain_items (shs_extensions s)"
  by (auto simp: shared_state_from_def row_simps shared_fields_def)

lemma memory_from_Inr:
  "memory_from v = Inr m \<longleftrightarrow>
   (\<exists>xs. row_like v [(''cells'', dict_val PInt (mem_cells m)), (''regions'', PList xs),
          (''extensions'', PDict (mem_extensions m))] \<and> rmap region_from xs = Inr (mem_regions m)) \<and>
   list_all (\<lambda>(a, b). canonical_address a \<and> 0 \<le> b \<and> b \<le> 255) (mem_cells m) \<and>
   \<not> regions_overlap (mem_regions m) \<and> json_plain_items (mem_extensions m)"
  by (auto simp: memory_from_def row_simps memory_fields_def)

lemma ArchitectureState_Inr:
  "ArchitectureState sc b t sh m f pe th cy ex = Inr s \<longleftrightarrow>
   sc = arch_scalar s \<and> b = arch_block s \<and> t = arch_tile s \<and> sh = arch_shared s \<and> m = arch_memory s \<and> f = arch_fault s \<and>
   pe = PInt (arch_pe_id s) \<and> th = PInt (arch_thread_id s) \<and> cy = PInt (arch_cycle s) \<and> ex = PDict (arch_extensions s) \<and>
   0 \<le> arch_pe_id s \<and> 0 \<le> arch_thread_id s \<and> 0 \<le> arch_cycle s \<and> json_plain_items (arch_extensions s) \<and>
   json_plain (architecture_dict s)"
  by (cases s) (auto simp: ArchitectureState_def architecture_canonical_json_def architecture_as_dict_def canonical_json_def
      res_simps accepts Let_def)

lemma architecture_from_dict_Inr:
  "architecture_from_dict v = Inr s \<longleftrightarrow>
   (\<exists>sc b t sh m f.
      row_like v [(''scalar'', sc), (''block'', b), (''tile'', t), (''shared'', sh), (''memory'', m), (''fault'', f),
        (''pe_id'', PInt (arch_pe_id s)), (''thread_id'', PInt (arch_thread_id s)), (''cycle'', PInt (arch_cycle s)),
        (''extensions'', PDict (arch_extensions s))] \<and>
      scalar_from sc = Inr (arch_scalar s) \<and> block_from b = Inr (arch_block s) \<and> tile_state_from t = Inr (arch_tile s) \<and>
      shared_state_from sh = Inr (arch_shared s) \<and> memory_from m = Inr (arch_memory s) \<and> fault_from f = Inr (arch_fault s)) \<and>
   0 \<le> arch_pe_id s \<and> 0 \<le> arch_thread_id s \<and> 0 \<le> arch_cycle s \<and> json_plain_items (arch_extensions s) \<and>
   json_plain (architecture_dict s)"
  by (auto simp: architecture_from_dict_def row_simps ArchitectureState_Inr architecture_fields_def)

section \<open>Accepted rows have the canonical text of the object\<close>

definition same_json :: "pyval \<Rightarrow> pyval \<Rightarrow> bool" where
  "same_json v w \<longleftrightarrow> json_dumps v = json_dumps w \<and> json_plain v = json_plain w"

lemma same_json_refl [simp]: "same_json v v"
  by (simp add: same_json_def)

lemma same_json_trans: "same_json u v \<Longrightarrow> same_json v w \<Longrightarrow> same_json u w"
  by (simp add: same_json_def)

lemma json_plains_iff: "json_plains xs \<longleftrightarrow> (\<forall>x \<in> set xs. json_plain x)"
  by (induction xs) auto

lemma json_plain_items_iff: "json_plain_items d \<longleftrightarrow> (\<forall>(k, x) \<in> set d. json_plain x)"
  by (induction d) auto

lemma same_json_row:
  "row_like v d \<Longrightarrow> keys_distinct v \<Longrightarrow> distinct (map fst d) \<Longrightarrow> same_json v (PDict d)"
  unfolding same_json_def by (metis row_like_json row_like_values json_plain.simps(3) json_plain_items_iff)

lemma same_json_dict:
  "list_all2 (\<lambda>(k, x) (l, y). k = l \<and> same_json x y) d e \<Longrightarrow> same_json (PDict d) (PDict e)"
proof -
  assume a: "list_all2 (\<lambda>(k, x) (l, y). k = l \<and> same_json x y) d e"
  then have "map fst d = map fst e \<and> map (json_dumps \<circ> snd) d = map (json_dumps \<circ> snd) e
      \<and> json_plain_items d = json_plain_items e"
  proof (induction rule: list_all2_induct)
    case (Cons x d y e)
    then show ?case by (cases x; cases y) (simp add: same_json_def)
  qed simp
  then show ?thesis using json_dumps_cong [of d e] by (simp add: same_json_def del: json_dumps.simps)
qed

lemma same_json_list: "list_all2 same_json xs ys \<Longrightarrow> same_json (PList xs) (PList ys)"
proof -
  assume a: "list_all2 same_json xs ys"
  then have "map json_dumps xs = map json_dumps ys \<and> json_plains xs = json_plains ys"
    by (induction rule: list_all2_induct) (simp_all add: same_json_def)
  then show ?thesis by (simp add: same_json_def json_texts_map)
qed

text \<open>A row with the fields of \<open>it\<close>, read field by field into \<open>it'\<close>.\<close>

lemma same_json_fields:
  assumes "row_like v d" and "keys_distinct v" and "distinct (map fst d)"
    and "list_all2 (\<lambda>(k, x) (l, y). k = l \<and> (keys_distinct x \<longrightarrow> same_json x y)) d e"
  shows "same_json v (PDict e)"
proof -
  have "keys_distinct x" if "(k, x) \<in> set d" for k x using row_like_keys_distinct assms(1,2) that by blast
  then have "list_all2 (\<lambda>(k, x) (l, y). k = l \<and> same_json x y) d e"
    by (intro list.rel_mono_strong [OF assms(4)]) auto
  with same_json_dict same_json_row [OF assms(1-3)] show ?thesis using same_json_trans by blast
qed

lemma same_json_items:
  assumes "check_items check d = Inr r" and "keys_distinct (PDict d)"
    and "\<And>v x. check v = Inr x \<Longrightarrow> keys_distinct v \<Longrightarrow> same_json v (g x)"
  shows "same_json (PDict d) (dict_val g r)"
proof -
  have kd: "\<forall>(k, x) \<in> set d. keys_distinct x" using assms(2) by (simp add: keys_distinct_items_iff)
  have "list_all2 (\<lambda>(k, x) (l, y). k = l \<and> same_json x y) d (map (\<lambda>(k, v). (k, g v)) r)"
    using assms(1) kd unfolding check_items_def rmap_Inr_iff
    by (induction d r rule: list_all2_induct) (auto simp: res_simps assms(3))
  then show ?thesis unfolding dict_val_def by (rule same_json_dict)
qed

lemma descriptor_same_json: "descriptor_from v = Inr d \<Longrightarrow> keys_distinct v \<Longrightarrow> same_json v (descriptor_dict d)"
  by (auto simp: descriptor_from_Inr descriptor_dict_def intro: same_json_row)

lemma scalar_same_json: "scalar_from v = Inr s \<Longrightarrow> keys_distinct v \<Longrightarrow> same_json v (scalar_dict s)"
  by (auto simp: scalar_from_Inr scalar_dict_def intro: same_json_row)

lemma block_same_json: "block_from v = Inr b \<Longrightarrow> keys_distinct v \<Longrightarrow> same_json v (block_dict b)"
  by (auto simp: block_from_Inr block_dict_def intro: same_json_row)

lemma region_same_json: "region_from v = Inr r \<Longrightarrow> keys_distinct v \<Longrightarrow> same_json v (region_dict r)"
  by (auto simp: region_from_Inr region_dict_def intro: same_json_row)

lemma fault_same_json: "fault_from v = Inr f \<Longrightarrow> keys_distinct v \<Longrightarrow> same_json v (fault_dict f)"
  by (auto simp: fault_from_Inr fault_dict_def intro: same_json_row)

lemma tile_value_same_json: "tile_value_from v = Inr t \<Longrightarrow> keys_distinct v \<Longrightarrow> same_json v (tile_value_dict t)"
  unfolding tile_value_from_Inr tile_value_dict_def
  by (elim conjE exE, erule same_json_fields) (simp_all add: descriptor_same_json)

lemma shared_tile_same_json: "shared_tile_from v = Inr t \<Longrightarrow> keys_distinct v \<Longrightarrow> same_json v (shared_tile_dict t)"
  unfolding shared_tile_from_Inr shared_tile_dict_def
  by (elim conjE exE, erule same_json_fields) (simp_all add: descriptor_same_json)

lemma tile_state_same_json: "tile_state_from v = Inr t \<Longrightarrow> keys_distinct v \<Longrightarrow> same_json v (tile_state_dict t)"
  unfolding tile_state_from_Inr tile_state_dict_def
  by (elim conjE exE, erule same_json_fields) (auto intro!: same_json_items dest: tile_value_same_json)

lemma shared_state_same_json: "shared_state_from v = Inr s \<Longrightarrow> keys_distinct v \<Longrightarrow> same_json v (shared_state_dict s)"
  unfolding shared_state_from_Inr shared_state_dict_def
  by (elim conjE exE, erule same_json_fields) (auto intro!: same_json_items dest: shared_tile_same_json)

lemma regions_same_json:
  "rmap region_from xs = Inr rs \<Longrightarrow> keys_distinct (PList xs) \<Longrightarrow> same_json (PList xs) (PList (map region_dict rs))"
  unfolding rmap_Inr_iff
  by (rule same_json_list, simp, induction xs rs rule: list_all2_induct) (auto simp: region_same_json)

lemma memory_same_json: "memory_from v = Inr m \<Longrightarrow> keys_distinct v \<Longrightarrow> same_json v (memory_dict m)"
  unfolding memory_from_Inr memory_dict_def
  by (elim conjE exE, erule same_json_fields) (auto dest: regions_same_json)

lemma architecture_same_json:
  "architecture_from_dict v = Inr s \<Longrightarrow> keys_distinct v \<Longrightarrow> same_json v (architecture_dict s)"
  unfolding architecture_from_dict_Inr architecture_dict_def
  by (elim conjE exE, erule same_json_fields)
    (simp_all add: scalar_same_json block_same_json tile_state_same_json shared_state_same_json memory_same_json
      fault_same_json)

section \<open>Accepted objects satisfy the invariant\<close>

lemma check_items_all:
  "check_items check d = Inr r \<Longrightarrow> (\<And>v x. check v = Inr x \<Longrightarrow> P x) \<Longrightarrow> list_all (\<lambda>(_, x). P x) r"
  unfolding check_items_def rmap_Inr_iff by (induction d r rule: list_all2_induct) (auto simp: res_simps)

lemma rmap_all: "rmap f xs = Inr ys \<Longrightarrow> (\<And>x y. f x = Inr y \<Longrightarrow> P y) \<Longrightarrow> list_all P ys"
  unfolding rmap_Inr_iff by (induction xs ys rule: list_all2_induct) auto

lemma from_ok:
  "scalar_from v = Inr s \<Longrightarrow> scalar_ok s" "block_from v = Inr b \<Longrightarrow> block_ok b" "fault_from v = Inr f \<Longrightarrow> fault_ok f"
  "tile_value_from v = Inr t \<Longrightarrow> tile_value_ok t" "shared_tile_from v = Inr u \<Longrightarrow> shared_tile_ok u"
  "region_from v = Inr r \<Longrightarrow> passive_region_ok r"
  by (simp_all add: scalar_from_Inr block_from_Inr fault_from_Inr tile_value_from_Inr shared_tile_from_Inr region_from_Inr)

lemma tile_state_from_ok: "tile_state_from v = Inr t \<Longrightarrow> tile_state_ok t"
  by (auto simp: tile_state_from_Inr tile_state_ok_def intro: check_items_all from_ok)

lemma shared_state_from_ok: "shared_state_from v = Inr s \<Longrightarrow> shared_state_ok s"
  by (auto simp: shared_state_from_Inr shared_state_ok_def intro: check_items_all from_ok)

lemma memory_from_ok: "memory_from v = Inr m \<Longrightarrow> memory_ok m"
  by (auto simp: memory_from_Inr memory_ok_def intro: rmap_all from_ok)

text \<open>The check of adjacent regions in address order is enough for all pairs.\<close>

lemma sorted_adjacent_pairwise:
  assumes "\<not> list_ex (\<lambda>(l, r). mrg_base l + mrg_size l > mrg_base r) (zip rs (tl rs))"
    and "list_all passive_region_ok rs"
  shows "sorted_wrt (\<lambda>l r. mrg_base l + mrg_size l \<le> mrg_base r) rs"
  using assms
proof (induction rs rule: induct_list012)
  case (3 x y zs)
  then have s: "sorted_wrt (\<lambda>l r. mrg_base l + mrg_size l \<le> mrg_base r) (y # zs)" by simp
  have "mrg_base x + mrg_size x \<le> mrg_base y" "0 \<le> mrg_size y" using 3 by (simp_all add: passive_region_ok_def)
  then have "mrg_base x + mrg_size x \<le> mrg_base z" if "z \<in> set zs" for z using s that by fastforce
  then show ?case using s 3(3) by auto
qed auto

lemma apart_disjoint:
  "sorted_wrt (\<lambda>l r. mrg_base l + mrg_size l \<le> mrg_base r) rs \<Longrightarrow> regions_disjoint rs"
proof (induction rs)
  case (Cons r rs)
  then have IH: "length (filter (region_holds a) rs) \<le> 1" for a by (simp add: regions_disjoint_def)
  have "filter (region_holds a) rs = []" if "region_holds a r" for a
    using Cons.prems that by (fastforce simp: filter_empty_conv region_holds_def)
  then show ?case using IH by (simp add: regions_disjoint_def)
qed (simp add: regions_disjoint_def)

lemma not_overlap_disjoint:
  assumes "\<not> regions_overlap rs" and "list_all passive_region_ok rs"
  shows "regions_disjoint rs"
proof -
  have "list_all passive_region_ok (sort_key mrg_base rs)" using assms(2) by (simp add: list_all_iff)
  with assms(1) have "regions_disjoint (sort_key mrg_base rs)"
    by (intro apart_disjoint sorted_adjacent_pairwise) (simp_all add: regions_overlap_def Let_def)
  then show ?thesis by (simp add: regions_disjoint_def filter_sort)
qed

lemma architecture_from_ok:
  assumes "architecture_from_dict v = Inr s"
  shows "architecture_ok s" and "regions_disjoint (mem_regions (arch_memory s))"
proof -
  show ok: "architecture_ok s" using assms
    by (auto simp: architecture_from_dict_Inr architecture_ok_def
        intro: from_ok tile_state_from_ok shared_state_from_ok memory_from_ok)
  show "regions_disjoint (mem_regions (arch_memory s))"
    using ok by (intro not_overlap_disjoint) (simp_all add: architecture_ok_def memory_ok_def)
qed

section \<open>Round trip\<close>

lemma check_items_dict_val:
  "list_all (\<lambda>(_, x). check (g x) = Inr x) r \<Longrightarrow> check_items check (map (\<lambda>(k, v). (k, g v)) r) = Inr r"
  by (induction r) (auto simp: check_items_def)

lemma leaf_roundtrip:
  "descriptor_ok d \<Longrightarrow> descriptor_from (descriptor_dict d) = Inr d"
  "scalar_ok s \<Longrightarrow> scalar_from (scalar_dict s) = Inr s"
  "block_ok b \<Longrightarrow> block_from (block_dict b) = Inr b"
  "passive_region_ok r \<Longrightarrow> region_from (region_dict r) = Inr r"
  "fault_ok f \<Longrightarrow> fault_from (fault_dict f) = Inr f"
  by (simp_all add: descriptor_from_Inr descriptor_dict_def scalar_from_Inr scalar_dict_def block_from_Inr block_dict_def
      region_from_Inr region_dict_def fault_from_Inr fault_dict_def row_like_refl)

lemma tile_value_roundtrip: "tile_value_ok t \<Longrightarrow> tile_value_from (tile_value_dict t) = Inr t"
  unfolding tile_value_from_Inr tile_value_dict_def
  by (intro conjI exI, rule row_like_refl) (simp_all add: leaf_roundtrip tile_value_ok_def)

lemma shared_tile_roundtrip: "shared_tile_ok t \<Longrightarrow> shared_tile_from (shared_tile_dict t) = Inr t"
  unfolding shared_tile_from_Inr shared_tile_dict_def
  by (intro conjI exI, rule row_like_refl) (simp_all add: leaf_roundtrip shared_tile_ok_def)

lemma tile_state_roundtrip: "tile_state_ok t \<Longrightarrow> tile_state_from (tile_state_dict t) = Inr t"
  unfolding tile_state_from_Inr tile_state_dict_def dict_val_def
  by (intro conjI exI, rule row_like_refl)
    (auto simp: tile_state_ok_def list_all_iff intro!: check_items_dict_val tile_value_roundtrip)

lemma shared_state_roundtrip: "shared_state_ok s \<Longrightarrow> shared_state_from (shared_state_dict s) = Inr s"
  unfolding shared_state_from_Inr shared_state_dict_def dict_val_def
  by (intro conjI exI, rule row_like_refl)
    (auto simp: shared_state_ok_def list_all_iff intro!: check_items_dict_val shared_tile_roundtrip)

lemma memory_roundtrip: "memory_ok m \<Longrightarrow> memory_from (memory_dict m) = Inr m"
  unfolding memory_from_Inr memory_dict_def
  by (intro conjI exI, rule row_like_refl)
    (auto simp: memory_ok_def list_all_iff leaf_roundtrip rmap_Inr_iff list_all2_map1 list.rel_refl_strong)

lemma dict_val_plain [simp]: "json_plain (dict_val PInt d)"
  by (auto simp: dict_val_def json_plain_items_iff)

lemma dict_val_all_plain: "list_all (\<lambda>(_, x). json_plain (g x)) d \<Longrightarrow> json_plain (dict_val g d)"
  by (auto simp: dict_val_def json_plain_items_iff list_all_iff)

lemma map_plain [simp]: "json_plains (map PInt is)" "json_plains (map PBool bs)"
  by (simp_all add: json_plains_iff)

lemma opt_int_plain [simp]: "json_plain (opt_int i)"
  by (cases i) (simp_all add: opt_int_def)

lemma flags_plain: "list_all (\<lambda>(_, v). flag_ok v) d \<Longrightarrow> json_plain_items d"
  by (induction d) (auto simp: flag_ok_def split: pyval.splits)

lemma descriptor_plain: "descriptor_ok d \<Longrightarrow> json_plain (descriptor_dict d)"
  by (simp add: descriptor_dict_def descriptor_ok_def)

lemma tile_plain: "tile_value_ok t \<Longrightarrow> json_plain (tile_value_dict t)" "shared_tile_ok u \<Longrightarrow> json_plain (shared_tile_dict u)"
  by (simp_all add: tile_value_dict_def tile_value_ok_def shared_tile_dict_def shared_tile_ok_def descriptor_plain)

lemma architecture_plain: "architecture_ok s \<Longrightarrow> json_plain (architecture_dict s)"
  by (auto simp: architecture_dict_def architecture_ok_def scalar_dict_def scalar_ok_def block_dict_def block_ok_def
      tile_state_dict_def tile_state_ok_def shared_state_dict_def shared_state_ok_def memory_dict_def memory_ok_def
      region_dict_def passive_region_ok_def fault_dict_def fault_ok_def flags_plain json_plains_iff list_all_iff
      intro!: dict_val_all_plain tile_plain)

lemma architecture_roundtrip: "architecture_ok s \<Longrightarrow> architecture_from_dict (architecture_dict s) = Inr s"
  unfolding architecture_from_dict_Inr
  by (subst architecture_dict_def, intro conjI exI, rule row_like_refl)
    (simp_all add: architecture_plain architecture_ok_def leaf_roundtrip tile_state_roundtrip shared_state_roundtrip
      memory_roundtrip)

subsection \<open>States that hold tuples\<close>

text \<open>
  The open fields of a state (data, attributes and extensions) may hold tuples. \<open>json_state\<close> is the
  state with every tuple replaced by the list of its items, which is what JSON keeps of it.
\<close>

fun holds_tuple :: "pyval \<Rightarrow> bool" and hold_tuples :: "pyval list \<Rightarrow> bool"
  and hold_tuple_items :: "(string \<times> pyval) list \<Rightarrow> bool" where
  "holds_tuple (PTuple _) = True"
| "holds_tuple (PList xs) = hold_tuples xs"
| "holds_tuple (PDict d) = hold_tuple_items d"
| "holds_tuple _ = False"
| "hold_tuples [] = False"
| "hold_tuples (x # xs) = (holds_tuple x \<or> hold_tuples xs)"
| "hold_tuple_items [] = False"
| "hold_tuple_items ((k, x) # d) = (holds_tuple x \<or> hold_tuple_items d)"

definition json_scalar :: "scalar_state \<Rightarrow> scalar_state" where
  "json_scalar s = s\<lparr>sca_flags := json_norm_items (sca_flags s), sca_extensions := json_norm_items (sca_extensions s)\<rparr>"

definition json_block :: "block_state \<Rightarrow> block_state" where
  "json_block b = b\<lparr>blk_attributes := json_norm_items (blk_attributes b), blk_extensions := json_norm_items (blk_extensions b)\<rparr>"

definition json_descriptor :: "tile_descriptor \<Rightarrow> tile_descriptor" where
  "json_descriptor d = d\<lparr>td_extensions := json_norm_items (td_extensions d)\<rparr>"

definition json_tile_value :: "tile_value \<Rightarrow> tile_value" where
  "json_tile_value t = t\<lparr>tv_descriptor := json_descriptor (tv_descriptor t), tv_data := json_norms (tv_data t),
     tv_extensions := json_norm_items (tv_extensions t)\<rparr>"

definition json_tile_state :: "tile_state \<Rightarrow> tile_state" where
  "json_tile_state t = t\<lparr>ts_registers := map (\<lambda>(k, v). (k, json_tile_value v)) (ts_registers t),
     ts_extensions := json_norm_items (ts_extensions t)\<rparr>"

definition json_shared_tile :: "shared_tile \<Rightarrow> shared_tile" where
  "json_shared_tile t = t\<lparr>sht_descriptor := json_descriptor (sht_descriptor t), sht_data := json_norms (sht_data t),
     sht_extensions := json_norm_items (sht_extensions t)\<rparr>"

definition json_shared_state :: "shared_state \<Rightarrow> shared_state" where
  "json_shared_state s = s\<lparr>shs_tiles := map (\<lambda>(k, v). (k, json_shared_tile v)) (shs_tiles s),
     shs_extensions := json_norm_items (shs_extensions s)\<rparr>"

definition json_region :: "memory_region \<Rightarrow> memory_region" where
  "json_region r = r\<lparr>mrg_extensions := json_norm_items (mrg_extensions r)\<rparr>"

definition json_memory :: "memory_state \<Rightarrow> memory_state" where
  "json_memory m = m\<lparr>mem_regions := map json_region (mem_regions m), mem_extensions := json_norm_items (mem_extensions m)\<rparr>"

definition json_fault :: "fault_state \<Rightarrow> fault_state" where
  "json_fault f = f\<lparr>flt_extensions := json_norm_items (flt_extensions f)\<rparr>"

definition json_state :: "architecture_state \<Rightarrow> architecture_state" where
  "json_state s = s\<lparr>arch_scalar := json_scalar (arch_scalar s), arch_block := json_block (arch_block s),
     arch_tile := json_tile_state (arch_tile s), arch_shared := json_shared_state (arch_shared s),
     arch_memory := json_memory (arch_memory s), arch_fault := json_fault (arch_fault s),
     arch_extensions := json_norm_items (arch_extensions s)\<rparr>"

lemmas json_field_defs = json_scalar_def json_block_def json_tile_state_def json_shared_state_def json_memory_def
  json_fault_def

lemma json_norm_id:
  "\<not> holds_tuple v \<Longrightarrow> json_norm v = v" "\<not> hold_tuples xs \<Longrightarrow> json_norms xs = xs"
  "\<not> hold_tuple_items d \<Longrightarrow> json_norm_items d = d"
  by (induction v and xs and d rule: holds_tuple_hold_tuples_hold_tuple_items.induct) simp_all

lemma json_norms_map: "json_norms xs = map json_norm xs"
  by (induction xs) simp_all

lemma json_norm_items_map: "json_norm_items d = map (\<lambda>(k, x). (k, json_norm x)) d"
  by (induction d) auto

lemma json_norm_leaves [simp]:
  "json_norm (dict_val PInt d) = dict_val PInt d" "json_norms (map PInt is) = map PInt is"
  "json_norms (map PBool bs) = map PBool bs" "json_norm (opt_int i) = opt_int i"
  by (simp_all add: dict_val_def json_norm_items_map json_norms_map opt_int_def comp_def case_prod_beta split: option.splits)

lemma json_norm_dict_val:
  "(\<And>x. json_norm (f x) = f (g x)) \<Longrightarrow> json_norm (dict_val f d) = dict_val f (map (\<lambda>(k, v). (k, g v)) d)"
  by (simp add: dict_val_def json_norm_items_map comp_def case_prod_beta)

lemma flags_norm: "list_all (\<lambda>(_, v). flag_ok v) (json_norm_items d) = list_all (\<lambda>(_, v). flag_ok v) d"
proof -
  have "flag_ok (json_norm v) = flag_ok v" for v by (cases v) (simp_all add: flag_ok_def)
  then show ?thesis by (simp add: json_norm_items_map list_all_iff case_prod_beta)
qed

lemma json_norm_descriptor [simp]: "json_norm (descriptor_dict d) = descriptor_dict (json_descriptor d)"
  by (simp add: descriptor_dict_def json_descriptor_def)

lemma json_norm_tiles:
  "json_norm (tile_value_dict t) = tile_value_dict (json_tile_value t)"
  "json_norm (shared_tile_dict u) = shared_tile_dict (json_shared_tile u)"
  by (simp_all add: tile_value_dict_def json_tile_value_def shared_tile_dict_def json_shared_tile_def)

lemma json_norm_regions: "json_norms (map region_dict rs) = map region_dict (map json_region rs)"
  by (induction rs) (simp_all add: region_dict_def json_region_def)

lemma json_norm_architecture:
  "json_norm (architecture_dict s) = architecture_dict (json_state s)"
  by (simp add: architecture_dict_def json_state_def scalar_dict_def block_dict_def tile_state_dict_def
      shared_state_dict_def memory_dict_def fault_dict_def json_field_defs
      json_norm_regions json_norm_dict_val [where g = json_tile_value and f = tile_value_dict]
      json_norm_dict_val [where g = json_shared_tile and f = shared_tile_dict] json_norm_tiles)

lemma json_state_tiles_ok:
  "tile_value_ok (json_tile_value t) = tile_value_ok t" "shared_tile_ok (json_shared_tile u) = shared_tile_ok u"
  by (simp_all add: tile_value_ok_def shared_tile_ok_def json_tile_value_def json_shared_tile_def descriptor_ok_def
      json_descriptor_def)

lemma sort_key_map: "sort_key f (map g xs) = map g (sort_key (f \<circ> g) xs)"
proof (induction xs)
  case (Cons x xs)
  have "insort_key f (g x) (map g ys) = map g (insort_key (f \<circ> g) x ys)" for ys
    by (induction ys) simp_all
  with Cons show ?case by (simp add: comp_def)
qed simp

lemma regions_overlap_json: "regions_overlap (map json_region rs) = regions_overlap rs"
proof -
  have "mrg_base \<circ> json_region = mrg_base" by (simp add: json_region_def fun_eq_iff)
  then have "sort_key mrg_base (map json_region rs) = map json_region (sort_key mrg_base rs)"
    by (simp add: sort_key_map)
  then show ?thesis
    by (simp add: regions_overlap_def Let_def zip_map_map list_ex_iff case_prod_beta json_region_def flip: map_tl)
qed

lemma architecture_ok_json [simp]: "architecture_ok (json_state s) = architecture_ok s"
  by (simp add: architecture_ok_def json_state_def json_field_defs scalar_ok_def block_ok_def tile_state_ok_def
      shared_state_ok_def memory_ok_def fault_ok_def list_all_iff case_prod_beta regions_overlap_json
      json_state_tiles_ok json_region_def passive_region_ok_def flags_norm [unfolded list_all_iff case_prod_beta])

lemma architecture_as_dict_eq: "architecture_ok s \<Longrightarrow> architecture_as_dict s = Inr (architecture_dict (json_state s))"
  by (simp add: architecture_as_dict_def json_value_eq architecture_plain json_norm_architecture)

lemma architecture_dict_inject: "architecture_ok s \<Longrightarrow> architecture_ok t \<Longrightarrow> architecture_dict s = architecture_dict t \<Longrightarrow> s = t"
  using architecture_roundtrip by (metis sum.inject(2))

lemma json_state_id: "architecture_ok s \<Longrightarrow> \<not> holds_tuple (architecture_dict s) \<Longrightarrow> json_state s = s"
  by (metis architecture_dict_inject architecture_ok_json json_norm_architecture json_norm_id(1))

lemma json_state_idem: "architecture_ok s \<Longrightarrow> json_state (json_state s) = json_state s"
  by (metis architecture_dict_inject architecture_ok_json json_norm_architecture json_norm_norm(1))

subsection \<open>Reading back what a state writes\<close>

text \<open>Whatever the reader gives for the dictionary of an object, it is that object.\<close>

lemma row_like_own:
  assumes "row_like (PDict d) e" and "map fst d = map fst e" and "distinct (map fst d)"
  shows "d = e"
proof -
  have "snd (d ! i) = snd (e ! i)" if i: "i < length e" for i
  proof -
    have i': "i < length d" using i assms(2) by (metis length_map)
    have "fld d (fst (d ! i)) = snd (d ! i)"
      using i' map_of_is_SomeI [OF assms(3), of "fst (d ! i)" "snd (d ! i)"] by (simp add: fld_def dict_get_def)
    moreover have "fld d (fst (e ! i)) = snd (e ! i)"
      using assms(1) nth_mem [OF i] by (fastforce simp: row_like_def)
    moreover have "fst (d ! i) = fst (e ! i)" using assms(2) i i' by (metis nth_map)
    ultimately show ?thesis by simp
  qed
  then show ?thesis
    using assms(2) by (metis length_map nth_equalityI nth_map prod.collapse)
qed

lemma map_PInt_inject [simp]: "map PInt xs = map PInt ys \<longleftrightarrow> xs = ys"
  by (simp add: inj_map_eq_map inj_def)

lemma map_PBool_inject [simp]: "map PBool xs = map PBool ys \<longleftrightarrow> xs = ys"
  by (simp add: inj_map_eq_map inj_def)

lemma opt_int_inject [simp]: "opt_int x = opt_int y \<longleftrightarrow> x = y"
  by (cases x; cases y) (simp_all add: opt_int_def)

lemma dict_val_inject [simp]: "dict_val PInt d = dict_val PInt e \<longleftrightarrow> d = e"
proof -
  have "inj (\<lambda>(k, v). (k :: string, PInt v))" by (auto simp: inj_def)
  then show ?thesis by (simp add: dict_val_def inj_map_eq_map)
qed

lemma leaf_own:
  "descriptor_from (descriptor_dict d) = Inr d' \<Longrightarrow> d' = d" "scalar_from (scalar_dict s) = Inr s' \<Longrightarrow> s' = s"
  "block_from (block_dict b) = Inr b' \<Longrightarrow> b' = b" "region_from (region_dict r) = Inr r' \<Longrightarrow> r' = r"
  "fault_from (fault_dict f) = Inr f' \<Longrightarrow> f' = f"
  by (auto simp: descriptor_from_Inr descriptor_dict_def scalar_from_Inr scalar_dict_def block_from_Inr block_dict_def
      region_from_Inr region_dict_def fault_from_Inr fault_dict_def dest!: row_like_own)

lemma tile_own:
  "tile_value_from (tile_value_dict t) = Inr t' \<Longrightarrow> t' = t" "shared_tile_from (shared_tile_dict u) = Inr u' \<Longrightarrow> u' = u"
  by (auto simp: tile_value_from_Inr tile_value_dict_def shared_tile_from_Inr shared_tile_dict_def
      dest!: row_like_own leaf_own(1))

lemma check_items_own:
  assumes "check_items check (map (\<lambda>(k, v). (k, g v)) r) = Inr r'" and "\<And>v x. check (g v) = Inr x \<Longrightarrow> x = v"
  shows "r' = r"
proof -
  from assms(1) have "list_all2 (\<lambda>kv kx. (case kv of (k, v) \<Rightarrow> rbind (check (g v)) (\<lambda>x. Inr (k, x))) = Inr kx) r r'"
    by (simp add: check_items_def rmap_Inr_iff list_all2_map1 case_prod_beta)
  then have "list_all2 (=) r r'"
    by (rule list_all2_mono) (auto simp: res_simps dest: assms(2))
  then show ?thesis by (simp add: list.rel_eq)
qed

lemma tile_state_own:
  "tile_state_from (tile_state_dict t) = Inr t' \<Longrightarrow> t' = t"
  "shared_state_from (shared_state_dict u) = Inr u' \<Longrightarrow> u' = u"
  by (auto simp: tile_state_from_Inr tile_state_dict_def shared_state_from_Inr shared_state_dict_def
      dict_val_def [of tile_value_dict] dict_val_def [of shared_tile_dict]
      dest!: row_like_own dest: check_items_own [OF _ tile_own(1)] check_items_own [OF _ tile_own(2)])

lemma memory_own: "memory_from (memory_dict m) = Inr m' \<Longrightarrow> m' = m"
proof -
  assume a: "memory_from (memory_dict m) = Inr m'"
  then have "mem_cells m' = mem_cells m" "mem_extensions m' = mem_extensions m"
    and rs: "rmap region_from (map region_dict (mem_regions m)) = Inr (mem_regions m')"
    by (auto simp: memory_from_Inr memory_dict_def dest!: row_like_own)
  moreover have "list_all2 (=) (mem_regions m) (mem_regions m')"
    using rs unfolding rmap_Inr_iff list_all2_map1 by (rule list_all2_mono) (auto dest: leaf_own(4))
  ultimately show "m' = m" by (simp add: list.rel_eq)
qed

lemma architecture_own: "architecture_from_dict (architecture_dict s) = Inr s' \<Longrightarrow> s' = s"
  by (auto simp: architecture_from_dict_Inr architecture_dict_def
      dest!: row_like_own leaf_own(2,3,5) tile_state_own memory_own)

text \<open>So the copy of a state succeeds exactly when the state is well formed.\<close>

lemma architecture_copy:
  "rbind (architecture_as_dict s) architecture_from_dict = Inr s' \<longleftrightarrow> architecture_ok s \<and> s' = json_state s"
proof
  assume a: "rbind (architecture_as_dict s) architecture_from_dict = Inr s'"
  then have "architecture_from_dict (architecture_dict (json_state s)) = Inr s'"
    by (auto simp: architecture_as_dict_def res_simps json_value_Inr json_norm_architecture)
  with architecture_own architecture_from_ok(1) show "architecture_ok s \<and> s' = json_state s" by fastforce
qed (simp add: architecture_as_dict_eq architecture_roundtrip)


text \<open>
  C29: What \<open>ArchitectureState.from_dict\<close> accepts from an untrusted document is a well-formed
  state: the invariant of every domain holds, memory cells are bytes at canonical addresses, and no
  address lies in two memory regions.
\<close>

theorem architecture_from_dict_valid:
  assumes "architecture_from_dict v = Inr s"
  shows "architecture_ok s \<and> regions_disjoint (mem_regions (arch_memory s)) \<and>
    (\<forall>(a, b) \<in> set (mem_cells (arch_memory s)). canonical_address a \<and> 0 \<le> b \<and> b \<le> 255)"
  using architecture_from_ok [OF assms] by (auto simp: architecture_ok_def memory_ok_def list_all_iff)

text \<open>
  C27: Reading a state keeps its canonical text, and so its hash: for an accepted document, in
  whatever order its fields come, the canonical JSON of the document is the canonical JSON of the
  state read from it. Nothing of the document is dropped or defaulted.
\<close>

theorem architecture_from_dict_canonical:
  assumes "architecture_from_dict v = Inr s" and "keys_distinct v"
  shows "canonical_json v = architecture_canonical_json s \<and>
    canonical_hash sha v = architecture_sha256 sha s \<and> canonical_json v = Inr (json_dumps v)"
proof -
  have "json_plain (architecture_dict s)" using architecture_from_ok(1) [OF assms(1)] by (rule architecture_plain)
  moreover have "json_dumps v = json_dumps (architecture_dict s)" "json_plain v = json_plain (architecture_dict s)"
    using architecture_same_json [OF assms] by (simp_all add: same_json_def)
  ultimately show ?thesis
    by (simp add: canonical_json_eq canonical_hash_def architecture_canonical_json_def architecture_sha256_def
        architecture_as_dict_def json_value_eq)
qed

subsection \<open>Witnesses\<close>

definition demo_state_json :: pyval where
  "demo_state_json = PDict
     [(''cycle'', PInt 3), (''pe_id'', PInt 0), (''thread_id'', PInt 0), (''extensions'', PDict []),
      (''scalar'', PDict [(''pc'', PInt 16), (''registers'', PDict [(''x1'', PInt 7)]), (''tpc'', PInt 0),
        (''flags'', PDict [(''z'', PBool True)]), (''mode'', PStr ''user''), (''extensions'', PDict [])]),
      (''block'', PDict [(''active'', PBool False), (''block_id'', PNone), (''start_pc'', PInt 4),
        (''instruction_count'', PInt 1), (''attributes'', PDict []), (''extensions'', PDict [])]),
      (''tile'', PDict [(''registers'', PDict []), (''extensions'', PDict [])]),
      (''shared'', PDict [(''tiles'', PDict []), (''generations'', PDict []), (''extensions'', PDict [])]),
      (''memory'', PDict [(''cells'', PDict [(''0x1f'', PInt 255)]),
        (''regions'', PList
          [PDict [(''base'', PInt 16), (''size'', PInt 8), (''permissions'', PStr ''rw''), (''name'', PStr ''b''), (''extensions'', PDict [])],
           PDict [(''base'', PInt 8), (''size'', PInt 8), (''permissions'', PStr ''r''), (''name'', PStr ''a''), (''extensions'', PDict [])]]),
        (''extensions'', PDict [])]),
      (''fault'', PDict [(''pending'', PBool False), (''kind'', PStr []), (''code'', PStr []), (''address'', PNone),
        (''instruction'', PStr []), (''message'', PStr []), (''recoverable'', PBool False), (''extensions'', PDict [])])]"

lemma demo_state_accepted: "\<not> isl (architecture_from_dict demo_state_json)"
  by code_simp

definition demo_state :: architecture_state where
  "demo_state = projr (architecture_from_dict demo_state_json)"

lemma demo_state_from: "architecture_from_dict demo_state_json = Inr demo_state"
  using demo_state_accepted by (simp add: demo_state_def)

definition demo_tuple_state :: architecture_state where
  "demo_tuple_state = demo_state\<lparr>arch_extensions := [(''pair'', PTuple [PInt 1, PList [PTuple []]])]\<rparr>"


theorem architecture_from_dict_valid_witness:
  "architecture_from_dict demo_state_json = Inr demo_state \<and> length (mem_regions (arch_memory demo_state)) = 2 \<and>
   regions_disjoint (mem_regions (arch_memory demo_state))"
proof -
  have "length (mem_regions (arch_memory demo_state)) = 2" by code_simp
  with architecture_from_dict_valid [OF demo_state_from] demo_state_from show ?thesis by blast
qed

theorem architecture_from_dict_canonical_witness:
  "canonical_json demo_state_json = architecture_canonical_json demo_state \<and>
   architecture_dict demo_state \<noteq> demo_state_json"
proof -
  have "keys_distinct demo_state_json" by code_simp
  moreover have "architecture_dict demo_state \<noteq> demo_state_json" by code_simp
  ultimately show ?thesis using architecture_from_dict_canonical [OF demo_state_from] by blast
qed

end
