(* ===== verification/State_Envelopes.thy ===== *)
theory State_Envelopes
  imports Arch_State
begin

text \<open>
  The versioned envelopes around an architectural state: \<open>StateEnvelope\<close> and \<open>state_diff\<close> of
  \<open>pto_asl_model/state.py\<close>, \<open>MemoryEffect\<close> and \<open>ExecutionResult\<close> of \<open>asl_model/state.py\<close>. The
  theorems show that what the readers accept satisfies the constructors' invariants, that writing
  and reading are inverse, and that the diff of two states is empty exactly when they are equal.
\<close>

section \<open>State envelopes\<close>

definition SCHEMA_ID :: string where
  "SCHEMA_ID = ''pto.asl-model.arch-state.v1''"

record state_envelope =
  env_kind :: string
  env_state :: architecture_state
  env_artifact :: "(string, pyval) dict"
  env_metadata :: "(string, pyval) dict"
  env_schema :: string

definition envelope_kinds :: "string list" where
  "envelope_kinds = [''initial_state'', ''state_snapshot'']"

definition envelope_dict :: "state_envelope \<Rightarrow> pyval" where
  "envelope_dict e = PDict
     [(''kind'', PStr (env_kind e)), (''state'', architecture_dict (env_state e)), (''artifact'', PDict (env_artifact e)),
      (''metadata'', PDict (env_metadata e)), (''schema'', PStr (env_schema e))]"

definition envelope_as_dict :: "state_envelope \<Rightarrow> pyval res" where
  "envelope_as_dict e = json_value (envelope_dict e)"

definition envelope_canonical_json :: "state_envelope \<Rightarrow> string res" where
  "envelope_canonical_json e = rbind (envelope_as_dict e) canonical_json"

definition envelope_sha256 :: "(string \<Rightarrow> string) \<Rightarrow> state_envelope \<Rightarrow> string res" where
  "envelope_sha256 sha256_of e = rbind (envelope_as_dict e) (canonical_hash sha256_of)"

text \<open>\<open>x in {...}\<close>: an unhashable value raises, any other value that is not one of the texts is not in the set.\<close>

definition in_text_set :: "string list \<Rightarrow> pyval \<Rightarrow> bool res" where
  "in_text_set xs v =
     (if py_hashable v then Inr (case v of PStr s \<Rightarrow> s \<in> set xs | _ \<Rightarrow> False)
      else Inl (TypeError ''unhashable type''))"

definition require_kind :: "string list \<Rightarrow> pyval \<Rightarrow> string res" where
  "require_kind kinds v =
     rbind (in_text_set kinds v) (\<lambda>known.
       case v of
         PStr k \<Rightarrow> if known then Inr k else Inl (ValueError ''unsupported state envelope kind'')
       | _ \<Rightarrow> Inl (ValueError ''unsupported state envelope kind''))"

definition require_schema :: "string \<Rightarrow> string \<Rightarrow> pyval \<Rightarrow> string res" where
  "require_schema message expected v = (if v = PStr expected then Inr expected else Inl (ValueError message))"

definition StateEnvelope :: "pyval \<Rightarrow> architecture_state \<Rightarrow> pyval \<Rightarrow> pyval \<Rightarrow> pyval \<Rightarrow> state_envelope res" where
  "StateEnvelope kind state artifact metadata schema =
     rbind (require_schema ''unsupported state envelope schema'' SCHEMA_ID schema) (\<lambda>sc.
     rbind (require_kind envelope_kinds kind) (\<lambda>k.
     rbind (require_json_object artifact) (\<lambda>a.
     rbind (require_json_object metadata) (\<lambda>m.
       let e = \<lparr>env_kind = k, env_state = state, env_artifact = a, env_metadata = m, env_schema = sc\<rparr>
       in rbind (envelope_canonical_json e) (\<lambda>_. Inr e)))))"

definition envelope_initial :: "architecture_state \<Rightarrow> pyval \<Rightarrow> pyval \<Rightarrow> state_envelope res" where
  "envelope_initial state artifact metadata = StateEnvelope (PStr ''initial_state'') state artifact metadata (PStr SCHEMA_ID)"

definition envelope_fields :: "string list" where
  "envelope_fields = [''schema'', ''kind'', ''state'', ''artifact'', ''metadata'']"

definition envelope_from_dict :: "pyval \<Rightarrow> state_envelope res" where
  "envelope_from_dict v =
     (case v of
        PDict _ \<Rightarrow>
          rbind (require_exact_object envelope_fields v) (\<lambda>row.
          rbind (require_schema ''unsupported state envelope schema'' SCHEMA_ID (fld row ''schema'')) (\<lambda>_.
          rbind (require_kind envelope_kinds (fld row ''kind'')) (\<lambda>kind.
            case fld row ''state'' of
              PDict sd \<Rightarrow>
                rbind (require_object (fld row ''artifact'')) (\<lambda>artifact.
                rbind (require_object (fld row ''metadata'')) (\<lambda>metadata.
                rbind (architecture_from_dict (PDict sd)) (\<lambda>state.
                  StateEnvelope (PStr kind) state (PDict artifact) (PDict metadata) (PStr SCHEMA_ID))))
            | _ \<Rightarrow> Inl (ValueError ''state envelope must contain an object state''))))
      | _ \<Rightarrow> Inl (TypeError ''state envelope must be an object''))"

section \<open>Differences of two states\<close>

text \<open>
  Python's \<open>==\<close>: booleans are the integers 0 and 1, dictionaries are compared without regard to
  order, and a tuple differs from a list.
\<close>

fun py_eq :: "pyval \<Rightarrow> pyval \<Rightarrow> bool" and py_eqs :: "pyval list \<Rightarrow> pyval list \<Rightarrow> bool"
  and py_eq_items :: "(string \<times> pyval) list \<Rightarrow> (string \<times> pyval) list \<Rightarrow> bool" where
  "py_eq (PList xs) (PList ys) = py_eqs xs ys"
| "py_eq (PTuple xs) (PTuple ys) = py_eqs xs ys"
| "py_eq (PDict d) (PDict e) = (length d = length e \<and> py_eq_items d e)"
| "py_eq (PBool b) (PInt i) = ((if b then 1 else 0) = i)"
| "py_eq (PInt i) (PBool b) = ((if b then 1 else 0) = i)"
| "py_eq (PInt i) (PInt j) = (i = j)"
| "py_eq (PBool b) (PBool c) = (b = c)"
| "py_eq (PStr s) (PStr t) = (s = t)"
| "py_eq (PBytes s) (PBytes t) = (s = t)"
| "py_eq PNone PNone = True"
| "py_eq _ _ = False"
| "py_eqs [] [] = True"
| "py_eqs (x # xs) (y # ys) = (py_eq x y \<and> py_eqs xs ys)"
| "py_eqs _ _ = False"
| "py_eq_items [] e = True"
| "py_eq_items ((k, x) # d) e = ((case map_of e k of None \<Rightarrow> False | Some y \<Rightarrow> py_eq x y) \<and> py_eq_items d e)"

definition state_diff :: "architecture_state \<Rightarrow> architecture_state \<Rightarrow> (string, pyval) dict res" where
  "state_diff before after =
     rbind (rbind (architecture_as_dict before) require_object) (\<lambda>left.
     rbind (rbind (architecture_as_dict after) require_object) (\<lambda>right.
       Inr (map (\<lambda>key. (key, PDict [(''before'', fld left key), (''after'', fld right key)]))
              (filter (\<lambda>key. \<not> py_eq (fld left key) (fld right key))
                 (sort (remdups (map fst left @ map fst right)))))))"

section \<open>Execution results\<close>

definition EXECUTION_RESULT_SCHEMA_ID :: string where
  "EXECUTION_RESULT_SCHEMA_ID = ''pto.asl-model.execution-result.v1''"

definition exact_object :: "string list \<Rightarrow> pyval \<Rightarrow> (string, pyval) dict res" where
  "exact_object names v =
     (case v of
        PDict row \<Rightarrow>
          if list_ex (\<lambda>name. name \<notin> set (map fst row)) names then Inl (ValueError ''is missing required fields'')
          else if list_ex (\<lambda>name. name \<notin> set names) (map fst row) then Inl (ValueError ''has unexpected fields'')
          else Inr row
      | _ \<Rightarrow> Inl (ValueError ''must be an object''))"

record memory_effect =
  mef_kind :: string
  mef_address :: int
  mef_size :: int
  mef_data :: "int list"
  mef_extensions :: "(string, pyval) dict"

definition effect_byte :: "pyval \<Rightarrow> int res" where
  "effect_byte v =
     rbind (require_integer (Some 0) v) (\<lambda>b.
       if b > 255 then Inl (ValueError ''memory effect data values must be bytes'') else Inr b)"

definition MemoryEffect :: "pyval \<Rightarrow> pyval \<Rightarrow> pyval \<Rightarrow> pyval \<Rightarrow> pyval \<Rightarrow> memory_effect res" where
  "MemoryEffect kind address sz payload extensions =
     rbind (case kind of
              PStr k \<Rightarrow> if k = [] then Inl (ValueError ''memory effect kind must be non-empty text'') else Inr k
            | _ \<Rightarrow> Inl (ValueError ''memory effect kind must be non-empty text'')) (\<lambda>k.
     rbind (require_integer (Some 0) address) (\<lambda>a.
     rbind (require_integer (Some 0) sz) (\<lambda>n.
     rbind (require_list payload) (\<lambda>xs.
     rbind (rmap effect_byte xs) (\<lambda>bs.
       if int (length bs) > n then Inl (ValueError ''memory effect data exceeds the declared size'')
       else rbind (require_json_object extensions) (\<lambda>ex.
         Inr \<lparr>mef_kind = k, mef_address = a, mef_size = n, mef_data = bs, mef_extensions = ex\<rparr>))))))"

definition effect_fields :: "string list" where
  "effect_fields = [''kind'', ''address'', ''size'', ''data'', ''extensions'']"

definition effect_from_dict :: "pyval \<Rightarrow> memory_effect res" where
  "effect_from_dict v =
     rbind (exact_object effect_fields v) (\<lambda>row.
       MemoryEffect (fld row ''kind'') (fld row ''address'') (fld row ''size'') (fld row ''data'') (fld row ''extensions''))"

definition effect_dict :: "memory_effect \<Rightarrow> pyval" where
  "effect_dict e = PDict
     [(''kind'', PStr (mef_kind e)), (''address'', PInt (mef_address e)), (''size'', PInt (mef_size e)),
      (''data'', PList (map PInt (mef_data e))), (''extensions'', PDict (mef_extensions e))]"

record execution_result =
  exr_instruction :: string
  exr_status :: string
  exr_initial_state :: state_envelope
  exr_final_state :: architecture_state
  exr_memory_effects :: "memory_effect list"
  exr_fault :: fault_state
  exr_pc_before :: "int option"
  exr_pc_after :: "int option"
  exr_artifact :: "(string, pyval) dict"
  exr_metadata :: "(string, pyval) dict"
  exr_schema :: string
  exr_kind :: string

definition result_dict :: "execution_result \<Rightarrow> pyval" where
  "result_dict r = PDict
     [(''instruction'', PStr (exr_instruction r)), (''status'', PStr (exr_status r)),
      (''initial_state'', envelope_dict (exr_initial_state r)), (''final_state'', architecture_dict (exr_final_state r)),
      (''memory_effects'', PList (map effect_dict (exr_memory_effects r))), (''fault'', fault_dict (exr_fault r)),
      (''pc_before'', opt_int (exr_pc_before r)), (''pc_after'', opt_int (exr_pc_after r)),
      (''artifact'', PDict (exr_artifact r)), (''metadata'', PDict (exr_metadata r)),
      (''schema'', PStr (exr_schema r)), (''kind'', PStr (exr_kind r))]"

definition result_canonical_json :: "execution_result \<Rightarrow> string res" where
  "result_canonical_json r = canonical_json (result_dict r)"

definition result_sha256 :: "(string \<Rightarrow> string) \<Rightarrow> execution_result \<Rightarrow> string res" where
  "result_sha256 sha256_of r = canonical_hash sha256_of (result_dict r)"

definition optional_pc :: "pyval \<Rightarrow> int option res" where
  "optional_pc v = (if v = PNone then Inr None else rbind (require_integer (Some 0) v) (\<lambda>i. Inr (Some i)))"

definition ExecutionResult ::
  "pyval \<Rightarrow> pyval \<Rightarrow> state_envelope \<Rightarrow> architecture_state \<Rightarrow> memory_effect list \<Rightarrow> fault_state \<Rightarrow> pyval \<Rightarrow> pyval \<Rightarrow>
   pyval \<Rightarrow> pyval \<Rightarrow> pyval \<Rightarrow> pyval \<Rightarrow> execution_result res" where
  "ExecutionResult instruction status initial_state final_state effects fault pc_before pc_after artifact metadata schema kind =
     rbind (require_schema ''unsupported execution result schema'' EXECUTION_RESULT_SCHEMA_ID schema) (\<lambda>sc.
     rbind (require_schema ''unsupported execution result kind'' ''execution_result'' kind) (\<lambda>k.
     rbind (require_string instruction) (\<lambda>i.
     rbind (require_string status) (\<lambda>st.
     rbind (optional_pc pc_before) (\<lambda>b.
     rbind (optional_pc pc_after) (\<lambda>a.
     rbind (require_json_object artifact) (\<lambda>art.
     rbind (require_json_object metadata) (\<lambda>md.
       let r = \<lparr>exr_instruction = i, exr_status = st, exr_initial_state = initial_state, exr_final_state = final_state,
                exr_memory_effects = effects, exr_fault = fault, exr_pc_before = b, exr_pc_after = a, exr_artifact = art,
                exr_metadata = md, exr_schema = sc, exr_kind = k\<rparr>
       in rbind (result_canonical_json r) (\<lambda>_. Inr r)))))))))"

definition result_fields :: "string list" where
  "result_fields = [''instruction'', ''status'', ''initial_state'', ''final_state'', ''memory_effects'', ''fault'',
     ''pc_before'', ''pc_after'', ''artifact'', ''metadata'', ''schema'', ''kind'']"

definition result_from_dict :: "pyval \<Rightarrow> execution_result res" where
  "result_from_dict v =
     rbind (exact_object result_fields v) (\<lambda>row.
     rbind (envelope_from_dict (fld row ''initial_state'')) (\<lambda>initial.
     rbind (architecture_from_dict (fld row ''final_state'')) (\<lambda>final.
       case fld row ''memory_effects'' of
         PList xs \<Rightarrow>
           rbind (rmap effect_from_dict xs) (\<lambda>effects.
           rbind (rbind (exact_object fault_fields (fld row ''fault'')) fault_of_row) (\<lambda>fault.
             ExecutionResult (fld row ''instruction'') (fld row ''status'') initial final effects fault
               (fld row ''pc_before'') (fld row ''pc_after'') (fld row ''artifact'') (fld row ''metadata'')
               (fld row ''schema'') (fld row ''kind'')))
       | _ \<Rightarrow> Inl (ValueError ''execution result memory_effects must be an array''))))"

section \<open>What the readers accept\<close>

lemma require_schema_Inr [accepts]: "require_schema message expected v = Inr s \<longleftrightarrow> s = expected \<and> v = PStr expected"
  by (auto simp: require_schema_def)

lemma require_kind_Inr [accepts]: "require_kind kinds v = Inr k \<longleftrightarrow> v = PStr k \<and> k \<in> set kinds"
  by (cases v) (auto simp: require_kind_def in_text_set_def)

lemma exact_object_Inr [accepts]: "exact_object names v = Inr row \<longleftrightarrow> v = PDict row \<and> has_fields row names"
  by (cases v) (auto simp: exact_object_def has_fields_def list_ex_iff simp del: set_map)

lemma exact_object_same: "exact_object = require_exact_object"
  by (intro ext) (auto simp: exact_object_def require_exact_object_def require_object_def split: pyval.splits)

lemma fault_row: "rbind (exact_object fault_fields v) fault_of_row = fault_from v"
  by (simp add: fault_from_def exact_object_same)

lemma optional_pc_Inr [accepts]: "optional_pc v = Inr i \<longleftrightarrow> v = opt_int i \<and> (\<forall>p. i = Some p \<longrightarrow> 0 \<le> p)"
  by (cases v; cases i) (auto simp: optional_pc_def opt_int_def require_integer_def)

lemma effect_byte_Inr: "effect_byte v = Inr b \<longleftrightarrow> v = PInt b \<and> 0 \<le> b \<and> b \<le> 255"
  by (auto simp: effect_byte_def res_simps accepts)

lemma rmap_effect_bytes [accepts]:
  "rmap effect_byte vs = Inr bs \<longleftrightarrow> vs = map PInt bs \<and> list_all (\<lambda>b. 0 \<le> b \<and> b \<le> 255) bs"
  by (rule rmap_Inr_map_iff) (rule effect_byte_Inr)

definition effect_ok :: "memory_effect \<Rightarrow> bool" where
  "effect_ok e = (mef_kind e \<noteq> [] \<and> 0 \<le> mef_address e \<and> list_all (\<lambda>b. 0 \<le> b \<and> b \<le> 255) (mef_data e)
     \<and> int (length (mef_data e)) \<le> mef_size e \<and> json_plain_items (mef_extensions e))"

definition envelope_ok :: "state_envelope \<Rightarrow> bool" where
  "envelope_ok e = (env_kind e \<in> set envelope_kinds \<and> env_schema e = SCHEMA_ID \<and> architecture_ok (env_state e)
     \<and> json_plain_items (env_artifact e) \<and> json_plain_items (env_metadata e))"

definition result_ok :: "execution_result \<Rightarrow> bool" where
  "result_ok r = (envelope_ok (exr_initial_state r) \<and> architecture_ok (exr_final_state r) \<and> list_all effect_ok (exr_memory_effects r)
     \<and> fault_ok (exr_fault r) \<and> (\<forall>p. exr_pc_before r = Some p \<longrightarrow> 0 \<le> p) \<and> (\<forall>p. exr_pc_after r = Some p \<longrightarrow> 0 \<le> p)
     \<and> json_plain_items (exr_artifact r) \<and> json_plain_items (exr_metadata r)
     \<and> exr_schema r = EXECUTION_RESULT_SCHEMA_ID \<and> exr_kind r = ''execution_result'')"

lemma MemoryEffect_Inr [accepts]:
  "MemoryEffect k a n xs ex = Inr e \<longleftrightarrow>
   k = PStr (mef_kind e) \<and> a = PInt (mef_address e) \<and> n = PInt (mef_size e) \<and> xs = PList (map PInt (mef_data e)) \<and>
   ex = PDict (mef_extensions e) \<and> effect_ok e"
  by (cases e; cases k) (auto simp: MemoryEffect_def res_simps accepts effect_ok_def)

lemma effect_from_Inr:
  "effect_from_dict v = Inr e \<longleftrightarrow> (\<exists>it. effect_dict e = PDict it \<and> row_like v it) \<and> effect_ok e"
  by (auto simp: effect_from_dict_def row_simps accepts effect_fields_def effect_dict_def)

lemma StateEnvelope_Inr:
  "StateEnvelope k s a m sc = Inr e \<longleftrightarrow>
   k = PStr (env_kind e) \<and> s = env_state e \<and> a = PDict (env_artifact e) \<and> m = PDict (env_metadata e) \<and>
   sc = PStr (env_schema e) \<and> env_schema e = SCHEMA_ID \<and> env_kind e \<in> set envelope_kinds \<and>
   json_plain_items (env_artifact e) \<and> json_plain_items (env_metadata e) \<and> json_plain (envelope_dict e)"
  by (cases e) (auto simp: StateEnvelope_def envelope_canonical_json_def envelope_as_dict_def canonical_json_def
      res_simps accepts Let_def)

lemma architecture_from_dict_object: "architecture_from_dict v = Inr s \<Longrightarrow> \<exists>d. v = PDict d"
  by (cases v) (simp_all add: architecture_from_dict_def)

lemma envelope_from_Inr:
  "envelope_from_dict v = Inr e \<longleftrightarrow>
   (\<exists>w. row_like v [(''kind'', PStr (env_kind e)), (''state'', w), (''artifact'', PDict (env_artifact e)),
          (''metadata'', PDict (env_metadata e)), (''schema'', PStr (env_schema e))] \<and>
        architecture_from_dict w = Inr (env_state e)) \<and>
   env_schema e = SCHEMA_ID \<and> env_kind e \<in> set envelope_kinds \<and>
   json_plain_items (env_artifact e) \<and> json_plain_items (env_metadata e) \<and> json_plain (envelope_dict e)"
  (is "?L \<longleftrightarrow> ?R")
proof -
  have f: "has_fields row envelope_fields \<longleftrightarrow> has_fields row [''kind'', ''state'', ''artifact'', ''metadata'', ''schema'']" for row
    by (simp add: has_fields_def envelope_fields_def insert_commute)
  show ?thesis unfolding envelope_from_dict_def
    by (auto simp: row_simps accepts f StateEnvelope_Inr )
      (metis architecture_from_dict_object)
qed

lemma ExecutionResult_Inr:
  "ExecutionResult i st ini fin es f b a art md sc k = Inr r \<longleftrightarrow>
   i = PStr (exr_instruction r) \<and> st = PStr (exr_status r) \<and> ini = exr_initial_state r \<and> fin = exr_final_state r \<and>
   es = exr_memory_effects r \<and> f = exr_fault r \<and> b = opt_int (exr_pc_before r) \<and> a = opt_int (exr_pc_after r) \<and>
   art = PDict (exr_artifact r) \<and> md = PDict (exr_metadata r) \<and> sc = PStr (exr_schema r) \<and> k = PStr (exr_kind r) \<and>
   exr_schema r = EXECUTION_RESULT_SCHEMA_ID \<and> exr_kind r = ''execution_result'' \<and>
   (\<forall>p. exr_pc_before r = Some p \<longrightarrow> 0 \<le> p) \<and> (\<forall>p. exr_pc_after r = Some p \<longrightarrow> 0 \<le> p) \<and>
   json_plain_items (exr_artifact r) \<and> json_plain_items (exr_metadata r) \<and> json_plain (result_dict r)"
  by (cases r) (auto simp: ExecutionResult_def result_canonical_json_def canonical_json_def res_simps accepts Let_def)

lemma result_from_Inr:
  "result_from_dict v = Inr r \<longleftrightarrow>
   (\<exists>ini fin es f.
      row_like v [(''instruction'', PStr (exr_instruction r)), (''status'', PStr (exr_status r)), (''initial_state'', ini),
        (''final_state'', fin), (''memory_effects'', PList es), (''fault'', f), (''pc_before'', opt_int (exr_pc_before r)),
        (''pc_after'', opt_int (exr_pc_after r)), (''artifact'', PDict (exr_artifact r)), (''metadata'', PDict (exr_metadata r)),
        (''schema'', PStr (exr_schema r)), (''kind'', PStr (exr_kind r))] \<and>
      envelope_from_dict ini = Inr (exr_initial_state r) \<and> architecture_from_dict fin = Inr (exr_final_state r) \<and>
      rmap effect_from_dict es = Inr (exr_memory_effects r) \<and> fault_from f = Inr (exr_fault r)) \<and>
   exr_schema r = EXECUTION_RESULT_SCHEMA_ID \<and> exr_kind r = ''execution_result'' \<and>
   (\<forall>p. exr_pc_before r = Some p \<longrightarrow> 0 \<le> p) \<and> (\<forall>p. exr_pc_after r = Some p \<longrightarrow> 0 \<le> p) \<and>
   json_plain_items (exr_artifact r) \<and> json_plain_items (exr_metadata r) \<and> json_plain (result_dict r)"
  unfolding result_from_dict_def fault_row
  by (auto simp: row_simps accepts ExecutionResult_Inr result_fields_def)

section \<open>Canonical text and invariants\<close>

lemma envelope_same_json: "envelope_from_dict v = Inr e \<Longrightarrow> keys_distinct v \<Longrightarrow> same_json v (envelope_dict e)"
  unfolding envelope_from_Inr envelope_dict_def
  by (elim conjE exE, erule same_json_fields) (simp_all add: architecture_same_json)

lemma effect_same_json: "effect_from_dict v = Inr e \<Longrightarrow> keys_distinct v \<Longrightarrow> same_json v (effect_dict e)"
  by (auto simp: effect_from_Inr effect_dict_def intro: same_json_row)

lemma effects_same_json:
  "rmap effect_from_dict xs = Inr es \<Longrightarrow> keys_distinct (PList xs) \<Longrightarrow> same_json (PList xs) (PList (map effect_dict es))"
  unfolding rmap_Inr_iff
  by (rule same_json_list, simp, induction xs es rule: list_all2_induct) (auto simp: effect_same_json)

lemma result_same_json: "result_from_dict v = Inr r \<Longrightarrow> keys_distinct v \<Longrightarrow> same_json v (result_dict r)"
  unfolding result_from_Inr result_dict_def
  by (elim conjE exE, erule same_json_fields)
    (simp_all add: envelope_same_json architecture_same_json effects_same_json fault_same_json del: keys_distinct.simps)

lemma envelope_from_ok: "envelope_from_dict v = Inr e \<Longrightarrow> envelope_ok e"
  by (auto simp: envelope_from_Inr envelope_ok_def intro: architecture_from_ok(1))

lemma effect_from_ok: "effect_from_dict v = Inr e \<Longrightarrow> effect_ok e"
  by (simp add: effect_from_Inr)

lemma result_from_ok: "result_from_dict v = Inr r \<Longrightarrow> result_ok r"
  by (auto simp: result_from_Inr result_ok_def intro: envelope_from_ok architecture_from_ok(1) from_ok(3)
      rmap_all [OF _ effect_from_ok])

section \<open>Round trips\<close>

lemma envelope_plain: "envelope_ok e \<Longrightarrow> json_plain (envelope_dict e)"
  by (simp add: envelope_ok_def envelope_dict_def architecture_plain)

lemma effect_plain: "effect_ok e \<Longrightarrow> json_plain (effect_dict e)"
  by (simp add: effect_ok_def effect_dict_def)

lemma result_plain: "result_ok r \<Longrightarrow> json_plain (result_dict r)"
  by (simp add: result_ok_def result_dict_def envelope_plain architecture_plain fault_ok_def fault_dict_def json_plains_iff
      list_all_iff effect_plain)

lemma envelope_roundtrip: "envelope_ok e \<Longrightarrow> envelope_from_dict (envelope_dict e) = Inr e"
  unfolding envelope_from_Inr
  by (subst envelope_dict_def, intro conjI exI, rule row_like_refl)
    (simp_all add: envelope_ok_def envelope_plain architecture_roundtrip)

lemma effect_roundtrip: "effect_ok e \<Longrightarrow> effect_from_dict (effect_dict e) = Inr e"
  by (simp add: effect_from_Inr effect_dict_def row_like_refl)

lemma result_roundtrip: "result_ok r \<Longrightarrow> result_from_dict (result_dict r) = Inr r"
  unfolding result_from_Inr
  by (subst result_dict_def, intro conjI exI, rule row_like_refl)
    (simp_all add: result_ok_def result_plain envelope_roundtrip architecture_roundtrip leaf_roundtrip rmap_Inr_iff
      list_all2_map1 list.rel_refl_strong effect_roundtrip list_all_iff)

text \<open>
  Execution results survive their JSON form. What \<open>ExecutionResult.from_dict\<close> accepts
  satisfies the invariants of the result, its two states, its effects and its fault, its canonical
  text is that of the document, and reading back what \<open>as_dict\<close> writes gives the same result.
\<close>

theorem execution_result_roundtrip:
  assumes "result_from_dict v = Inr r" and "keys_distinct v"
  shows "result_ok r \<and> canonical_json v = result_canonical_json r \<and> result_from_dict (result_dict r) = Inr r"
proof -
  have ok: "result_ok r" using result_from_ok [OF assms(1)] .
  then have "canonical_json v = result_canonical_json r"
    using result_same_json [OF assms] result_plain [OF ok]
    by (simp add: same_json_def canonical_json_eq result_canonical_json_def)
  with ok result_roundtrip [OF ok] show ?thesis by blast
qed

definition demo_result :: execution_result where
  "demo_result =
     \<lparr>exr_instruction = ''add'', exr_status = ''ok'',
      exr_initial_state = \<lparr>env_kind = ''initial_state'', env_state = demo_state, env_artifact = [], env_metadata = [],
        env_schema = SCHEMA_ID\<rparr>,
      exr_final_state = demo_state,
      exr_memory_effects = [\<lparr>mef_kind = ''store'', mef_address = 16, mef_size = 2, mef_data = [7, 255], mef_extensions = []\<rparr>],
      exr_fault = arch_fault demo_state, exr_pc_before = Some 16, exr_pc_after = None, exr_artifact = [],
      exr_metadata = [(''seed'', PInt 1)], exr_schema = EXECUTION_RESULT_SCHEMA_ID, exr_kind = ''execution_result''\<rparr>"

lemma demo_result_ok: "result_ok demo_result"
  using architecture_from_ok(1) [OF demo_state_from]
  by (simp add: demo_result_def result_ok_def envelope_ok_def effect_ok_def envelope_kinds_def architecture_ok_def)

theorem execution_result_roundtrip_witness:
  "canonical_json (result_dict demo_result) = result_canonical_json demo_result \<and>
   result_from_dict (result_dict demo_result) = Inr demo_result"
proof -
  have "keys_distinct (result_dict demo_result)" by code_simp
  with execution_result_roundtrip [OF result_roundtrip [OF demo_result_ok]] show ?thesis by blast
qed

section \<open>The diff\<close>

lemma py_eq_refl: "keys_distinct v \<Longrightarrow> py_eq v v"
  and py_eqs_refl: "keys_distincts xs \<Longrightarrow> py_eqs xs xs"
  and py_eq_items_refl: "keys_distinct_items d \<Longrightarrow> distinct (map fst d) \<Longrightarrow> set d \<subseteq> set e \<Longrightarrow> distinct (map fst e) \<Longrightarrow> py_eq_items d e"
  by (induction v and xs and d arbitrary: and and e rule: keys_distinct_keys_distincts_keys_distinct_items.induct) auto

text \<open>
  The diff of two well-formed states lists, in field order, exactly the top-level fields on which
  the states differ; it is empty exactly when Python finds their JSON dictionaries equal.
\<close>

lemma py_eq_dict_fields:
  assumes "map fst d = map fst e" and "distinct (map fst e)"
  shows "py_eq (PDict d) (PDict e) \<longleftrightarrow> (\<forall>k \<in> set (map fst d). py_eq (fld d k) (fld e k))"
proof -
  have items: "py_eq_items d' e \<longleftrightarrow> (\<forall>(k, x) \<in> set d'. py_eq x (fld e k))" if "set (map fst d') \<subseteq> set (map fst e)" for d'
    using that
  proof (induction d')
    case (Cons p d')
    obtain k x where p: "p = (k, x)" by (cases p)
    from Cons.prems p obtain y where "map_of e k = Some y" by (auto dest: weak_map_of_SomeI)
    then show ?case using Cons p by (simp add: fld_def dict_get_def)
  qed simp
  have len: "length d = length e" using assms(1) by (metis length_map)
  have at: "fld d (fst p) = snd p" if "p \<in> set d" for p
  proof -
    have "map_of d (fst p) = Some (snd p)" using that assms by (intro map_of_is_SomeI) simp_all
    then show ?thesis by (simp add: fld_def dict_get_def)
  qed
  have "py_eq (PDict d) (PDict e) \<longleftrightarrow> (\<forall>p \<in> set d. py_eq (snd p) (fld e (fst p)))"
    using items [of d] assms(1) len by (simp add: case_prod_beta)
  also have "\<dots> \<longleftrightarrow> (\<forall>k \<in> set (map fst d). py_eq (fld d k) (fld e k))" using at by simp
  finally show ?thesis .
qed

lemma state_diff_exact:
  assumes "architecture_ok before" and "architecture_ok after"
  obtains d where "state_diff before after = Inr d" and "sorted (map fst d)"
    and "d = [] \<longleftrightarrow> py_eq (architecture_dict (json_state before)) (architecture_dict (json_state after))"
proof -
  obtain l where l: "architecture_dict (json_state before) = PDict l" "map fst l = architecture_fields"
    by (simp add: architecture_dict_def architecture_fields_def)
  obtain r where r: "architecture_dict (json_state after) = PDict r" "map fst r = architecture_fields"
    by (simp add: architecture_dict_def architecture_fields_def)
  let ?keys = "filter (\<lambda>k. \<not> py_eq (fld l k) (fld r k)) (sort (remdups (map fst l @ map fst r)))"
  let ?d = "map (\<lambda>k. (k, PDict [(''before'', fld l k), (''after'', fld r k)])) ?keys"
  have "state_diff before after = Inr ?d"
    using l(1) r(1) assms by (simp add: state_diff_def architecture_as_dict_eq require_object_def)
  moreover have "sorted (map fst ?d)" by (simp add: comp_def sorted_wrt_filter)
  moreover have "?d = [] \<longleftrightarrow> py_eq (architecture_dict (json_state before)) (architecture_dict (json_state after))"
  proof -
    have dist: "distinct architecture_fields" by (simp add: architecture_fields_def)
    have "?d = [] \<longleftrightarrow> (\<forall>k \<in> set architecture_fields. py_eq (fld l k) (fld r k))"
      using l(2) r(2) by (simp add: filter_empty_conv del: py_eq.simps)
    then show ?thesis using py_eq_dict_fields [of l r] l r dist by simp
  qed
  ultimately show ?thesis using that by blast
qed

end
