(* ===== verification/Closure_Artifacts.thy ===== *)
theory Closure_Artifacts
  imports State_Envelopes
begin

text \<open>
  The validators of \<open>pto_asl_model/closure_artifacts.py\<close>: the release identity, closure requests
  and locks, the semantic payload of a closure run, its run envelope and the test cases. A document
  is a JSON value; text is held as its UTF-8 encoding, one character per byte, which keeps the
  order of strings. SHA-256 is a parameter. Labels of error messages are left out. The validators of
  the lock and of the payload return the document they were given; here they return the lists of
  it that the later checks compare.

  The theorems show what an accepted payload guarantees: every selected case and obligation
  completed and passed, nothing failed, was skipped, timed out or is unknown, and the digests bind
  the envelope, the payload and the lock to each other.
\<close>

section \<open>Constants\<close>

definition REQUEST_SCHEMA :: string where "REQUEST_SCHEMA = ''pto-closure-request-v1''"
definition LOCK_SCHEMA :: string where "LOCK_SCHEMA = ''pto-closure-lock-v1''"
definition SEMANTIC_PAYLOAD_SCHEMA :: string where "SEMANTIC_PAYLOAD_SCHEMA = ''pto-closure-semantic-payload-v1''"
definition RUN_ENVELOPE_SCHEMA :: string where "RUN_ENVELOPE_SCHEMA = ''pto-closure-run-envelope-v1''"
definition CASE_SCHEMA :: string where "CASE_SCHEMA = ''pto-avs-case-v1''"
definition RELEASE :: string where "RELEASE = ''0.58.7''"
definition PUBLICATION_VERSION :: string where "PUBLICATION_VERSION = ''0.58.7.0''"
definition ENCODING_ABI :: string where "ENCODING_ABI = ''pto-isa-0.58.7-mode-function-v1''"
definition ENCODING_PROJECTION_SHA256 :: string where
  "ENCODING_PROJECTION_SHA256 = ''9c49cdfa79a4eda6b27c1548bfd06ef681b6189f7d02d466ddfd43f59993b93d''"
definition NDF_COMMIT :: string where "NDF_COMMIT = ''ed356980ce7ecb2e8482902988d5012fb54058b3''"
definition ASLREF_COMMIT :: string where "ASLREF_COMMIT = ''5873cbb69312d92b4b97131cff840ec621b12ddf''"

section \<open>Text patterns\<close>

text \<open>\<open>[0-9a-f]{n}\<close>\<close>

definition hex_text :: "nat \<Rightarrow> string \<Rightarrow> bool" where
  "hex_text n s = (length s = n \<and> list_all lower_hex s)"

definition char_in :: "(nat \<times> nat) list \<Rightarrow> char \<Rightarrow> bool" where
  "char_in ranges c = list_ex (\<lambda>(lo, hi). lo \<le> (of_char c :: nat) \<and> (of_char c :: nat) \<le> hi) ranges"

text \<open>\<open>[A-Za-z0-9_.-]\<close>\<close>

definition repo_char :: "char \<Rightarrow> bool" where
  "repo_char = char_in [(65, 90), (97, 122), (48, 57), (95, 95), (45, 46)]"

definition github_prefix :: string where "github_prefix = ''https://github.com/''"

text \<open>The owner and the name of \<open>https://github.com/owner/name\<close>, both non-empty.\<close>

definition github_name :: "string \<Rightarrow> string option" where
  "github_name s =
     (if take (length github_prefix) s \<noteq> github_prefix then None
      else
        let rest = drop (length github_prefix) s;
            owner = takeWhile repo_char rest;
            tail = drop (length owner) rest in
        if owner = [] \<or> tail = [] \<or> hd tail \<noteq> CHR ''/'' then None
        else if tl tail \<noteq> [] \<and> list_all repo_char (tl tail) then Some (tl tail) else None)"

definition repository_re :: "string \<Rightarrow> bool" where
  "repository_re s =
     (case github_name s of
        None \<Rightarrow> False
      | Some nm \<Rightarrow> length nm > 4 \<and> drop (length nm - 4) nm = ''.git'')"

definition hosted_repository_re :: "string \<Rightarrow> bool" where
  "hosted_repository_re s = (github_name s \<noteq> None)"

text \<open>\<open>[a-z0-9]+(?:[._-][a-z0-9]+)*\<close>: words joined by single separators.\<close>

definition word_char :: "char \<Rightarrow> bool" where "word_char = char_in [(97, 122), (48, 57)]"
definition separator_char :: "char \<Rightarrow> bool" where "separator_char = char_in [(45, 46), (95, 95)]"

fun case_id_from :: "bool \<Rightarrow> string \<Rightarrow> bool" where
  "case_id_from in_word [] = in_word"
| "case_id_from in_word (c # cs) =
     (if word_char c then case_id_from True cs
      else if separator_char c \<and> in_word then case_id_from False cs
      else False)"

definition case_id_re :: "string \<Rightarrow> bool" where "case_id_re = case_id_from False"

definition digit_c :: "char \<Rightarrow> bool" where "digit_c = char_in [(48, 57)]"

text \<open>\<open>dddd-dd-ddTdd:dd:ddZ\<close>, where a template character 0 stands for a digit.\<close>

definition timestamp_re :: "string \<Rightarrow> bool" where
  "timestamp_re s = list_all2 (\<lambda>t c. if t = CHR ''0'' then digit_c c else t = c) ''0000-00-00T00:00:00Z'' s"

section \<open>Canonical bytes\<close>

definition text_bytes :: "string \<Rightarrow> byte list" where
  "text_bytes s = map (\<lambda>c. of_nat (of_char c)) s"

definition canonical_json_bytes :: "pyval \<Rightarrow> byte list res" where
  "canonical_json_bytes v = rbind (canonical_json v) (\<lambda>t. Inr (text_bytes t))"

definition canonical_sha256 :: "(byte list \<Rightarrow> string) \<Rightarrow> pyval \<Rightarrow> string res" where
  "canonical_sha256 sha v = rbind (canonical_json_bytes v) (\<lambda>bs. Inr (sha bs))"

definition canonical_repository_url :: "string \<Rightarrow> string res" where
  "canonical_repository_url r =
     (if repository_re r then Inr r
      else if hosted_repository_re r then Inr (r @ ''.git'')
      else Inl (ValueError ''repository origin is not a canonical GitHub HTTPS URL''))"

section \<open>Field validators\<close>

definition guard :: "bool \<Rightarrow> string \<Rightarrow> unit res" where
  "guard ok message = (if ok then Inr () else Inl (ValueError message))"

definition c_object :: "pyval \<Rightarrow> (string, pyval) dict res" where
  "c_object v = (case v of PDict d \<Rightarrow> Inr d | _ \<Rightarrow> Inl (ValueError ''must be an object''))"

definition exact_fields :: "string list \<Rightarrow> (string, pyval) dict \<Rightarrow> unit res" where
  "exact_fields names row =
     (let missing = filter (\<lambda>n. n \<notin> set (map fst row)) names; extra = filter (\<lambda>n. n \<notin> set names) (map fst row)
      in guard (missing = [] \<and> extra = []) ''fields invalid'')"

text \<open>\<open>_object\<close> followed by \<open>_exact_fields\<close>.\<close>

definition row_of :: "string list \<Rightarrow> pyval \<Rightarrow> (string, pyval) dict res" where
  "row_of names v = rbind (c_object v) (\<lambda>row. rbind (exact_fields names row) (\<lambda>_. Inr row))"

definition c_text :: "pyval \<Rightarrow> string res" where
  "c_text v = (case v of PStr s \<Rightarrow> if s = [] then Inl (ValueError ''must be non-empty text'') else Inr s
               | _ \<Rightarrow> Inl (ValueError ''must be non-empty text''))"

definition text_list :: "pyval \<Rightarrow> string list res" where
  "text_list v = (case v of PList xs \<Rightarrow> rmap c_text xs | _ \<Rightarrow> Inl (ValueError ''must be a string array''))"

definition string_list :: "bool \<Rightarrow> pyval \<Rightarrow> string list res" where
  "string_list nonempty v =
     rbind (case text_list v of Inl _ \<Rightarrow> Inl (ValueError ''must be a string array'') | Inr xs \<Rightarrow> Inr xs) (\<lambda>xs.
     rbind (guard (xs = sort (remdups xs)) ''must be sorted and unique'') (\<lambda>_.
     rbind (guard (\<not> (nonempty \<and> xs = [])) ''must not be empty'') (\<lambda>_. Inr xs)))"

definition arguments :: "pyval \<Rightarrow> string list res" where
  "arguments v = (case text_list v of Inl _ \<Rightarrow> Inl (ValueError ''must be a non-empty-string array'') | Inr xs \<Rightarrow> Inr xs)"

definition c_digest :: "pyval \<Rightarrow> string res" where
  "c_digest v = rbind (c_text v) (\<lambda>t. rbind (guard (hex_text 64 t) ''must be a lowercase SHA-256'') (\<lambda>_. Inr t))"

definition git_id :: "pyval \<Rightarrow> string res" where
  "git_id v = rbind (c_text v) (\<lambda>t. rbind (guard (hex_text 40 t) ''must be a full lowercase git object ID'') (\<lambda>_. Inr t))"

definition canonical_repository :: "pyval \<Rightarrow> string res" where
  "canonical_repository v = rbind (c_text v) (\<lambda>t.
     rbind (guard (repository_re t) ''repository must be a canonical GitHub HTTPS URL ending in .git'') (\<lambda>_. Inr t))"

definition positive_int :: "int \<Rightarrow> pyval \<Rightarrow> int res" where
  "positive_int least v =
     (case v of PInt i \<Rightarrow> if i < least then Inl (ValueError ''must be positive'') else Inr i
      | _ \<Rightarrow> Inl (ValueError ''must be positive''))"

definition one_of :: "string list \<Rightarrow> pyval \<Rightarrow> unit res" where
  "one_of xs v = rbind (in_text_set xs v) (\<lambda>ok. guard ok ''unsupported value'')"

definition has_value :: "string \<Rightarrow> pyval \<Rightarrow> unit res" where
  "has_value s v = guard (v = PStr s) ''value mismatch''"

definition repository_identity :: "pyval \<Rightarrow> (string, pyval) dict res" where
  "repository_identity v =
     rbind (row_of [''repository'', ''commit'', ''tree''] v) (\<lambda>item.
     rbind (canonical_repository (fld item ''repository'')) (\<lambda>_.
     rbind (git_id (fld item ''commit'')) (\<lambda>_.
     rbind (git_id (fld item ''tree'')) (\<lambda>_. Inr item))))"

section \<open>Identity, request and lock\<close>

definition release_identity :: pyval where
  "release_identity = PDict
     [(''release'', PStr RELEASE), (''publication_version'', PStr PUBLICATION_VERSION),
      (''encoding_abi'', PStr ENCODING_ABI), (''encoding_projection_sha256'', PStr ENCODING_PROJECTION_SHA256)]"

definition validate_identity :: "pyval \<Rightarrow> (string, pyval) dict res" where
  "validate_identity v =
     rbind (row_of [''release'', ''publication_version'', ''encoding_abi'', ''encoding_projection_sha256''] v) (\<lambda>identity.
     rbind (guard (py_eq (PDict identity) release_identity) ''does not equal the PTO release identity'') (\<lambda>_. Inr identity))"

definition validate_candidate :: "pyval \<Rightarrow> unit res" where
  "validate_candidate item =
     rbind (row_of [''repository'', ''commit'', ''path''] item) (\<lambda>c.
     rbind (canonical_repository (fld c ''repository'')) (\<lambda>_.
     rbind (git_id (fld c ''commit'')) (\<lambda>_.
     rbind (c_text (fld c ''path'')) (\<lambda>_. Inr ()))))"

definition validate_request :: "pyval \<Rightarrow> (string, pyval) dict res" where
  "validate_request v =
     rbind (row_of [''schema'', ''identity'', ''repositories'', ''policy''] v) (\<lambda>rq.
     rbind (has_value REQUEST_SCHEMA (fld rq ''schema'')) (\<lambda>_.
     rbind (validate_identity (fld rq ''identity'')) (\<lambda>_.
     rbind (row_of [''pto_spec'', ''llvm'', ''asl_model''] (fld rq ''repositories'')) (\<lambda>repositories.
     rbind (rmap (\<lambda>(name, item). validate_candidate item) repositories) (\<lambda>_.
     rbind (row_of [''affected_pto_ids'', ''mandatory_case_ids''] (fld rq ''policy'')) (\<lambda>policy.
     rbind (string_list False (fld policy ''affected_pto_ids'')) (\<lambda>_.
     rbind (string_list False (fld policy ''mandatory_case_ids'')) (\<lambda>_. Inr rq))))))))"

definition validate_repository :: "string \<times> pyval \<Rightarrow> unit res" where
  "validate_repository ni =
     rbind (repository_identity (snd ni)) (\<lambda>identity.
     rbind (guard (\<not> (fst ni = ''normative_language'' \<and> fld identity ''commit'' \<noteq> PStr NDF_COMMIT))
              ''normative_language commit mismatch'') (\<lambda>_.
     guard (\<not> (fst ni = ''aslref'' \<and> fld identity ''commit'' \<noteq> PStr ASLREF_COMMIT)) ''ASLRef commit mismatch''))"

definition validate_tool :: "string \<times> pyval \<Rightarrow> unit res" where
  "validate_tool ni =
     rbind (row_of [''path'', ''sha256''] (snd ni)) (\<lambda>tool.
     rbind (c_text (fld tool ''path'')) (\<lambda>_.
     rbind (c_digest (fld tool ''sha256'')) (\<lambda>_. Inr ())))"

definition validate_model :: "pyval \<Rightarrow> unit res" where
  "validate_model v =
     rbind (row_of [''abi'', ''worker_protocol'', ''backend'', ''profile''] v) (\<lambda>model.
     rbind (rmap (\<lambda>(field, x). c_text x) model) (\<lambda>_.
     rbind (has_value ''pto-asl-model-experimental-v2'' (fld model ''abi'')) (\<lambda>_.
     rbind (has_value ''pto-asl-worker-v1'' (fld model ''worker_protocol'')) (\<lambda>_.
     rbind (one_of [''host-sparse'', ''reference-array''] (fld model ''backend'')) (\<lambda>_.
     has_value ''bounded-reference-v1'' (fld model ''profile''))))))"

text \<open>The lists a lock pins, and the digest of the selected obligations.\<close>

record lock_lists =
  ll_case_ids :: "string list"
  ll_affected :: "string list"
  ll_selected :: "string list"

definition strings_val :: "string list \<Rightarrow> pyval" where
  "strings_val xs = PList (map PStr xs)"

definition lock_obligations :: "(byte list \<Rightarrow> string) \<Rightarrow> pyval \<Rightarrow> (string list \<times> string list) res" where
  "lock_obligations sha v =
     rbind (row_of [''affected_pto_ids'', ''selected'', ''sha256''] v) (\<lambda>obligations.
     rbind (string_list False (fld obligations ''affected_pto_ids'')) (\<lambda>affected.
     rbind (string_list True (fld obligations ''selected'')) (\<lambda>selected.
     rbind (c_digest (fld obligations ''sha256'')) (\<lambda>d.
     rbind (canonical_sha256 sha (strings_val selected)) (\<lambda>actual.
     rbind (guard (d = actual) ''obligations.sha256 mismatch'') (\<lambda>_. Inr (affected, selected)))))))"

definition lock_corpus :: "pyval \<Rightarrow> string list res" where
  "lock_corpus v =
     rbind (row_of [''sha256'', ''case_ids''] v) (\<lambda>corpus.
     rbind (c_digest (fld corpus ''sha256'')) (\<lambda>_. string_list True (fld corpus ''case_ids'')))"

definition lock_fields :: "string list" where
  "lock_fields = [''schema'', ''identity'', ''repositories'', ''tools'', ''target'', ''model'', ''corpus'', ''obligations'']"

definition validate_lock :: "(byte list \<Rightarrow> string) \<Rightarrow> pyval \<Rightarrow> lock_lists res" where
  "validate_lock sha v =
     rbind (row_of lock_fields v) (\<lambda>lock.
     rbind (has_value LOCK_SCHEMA (fld lock ''schema'')) (\<lambda>_.
     rbind (validate_identity (fld lock ''identity'')) (\<lambda>_.
     rbind (row_of [''pto_spec'', ''llvm'', ''asl_model'', ''normative_language'', ''aslref''] (fld lock ''repositories'')) (\<lambda>rs.
     rbind (rmap validate_repository rs) (\<lambda>_.
     rbind (row_of [''clang'', ''llvm_mc'', ''ld_lld'', ''aslref''] (fld lock ''tools'')) (\<lambda>ts.
     rbind (rmap validate_tool ts) (\<lambda>_.
     rbind (row_of [''triple''] (fld lock ''target'')) (\<lambda>target.
     rbind (c_text (fld target ''triple'')) (\<lambda>_.
     rbind (validate_model (fld lock ''model'')) (\<lambda>_.
     rbind (lock_corpus (fld lock ''corpus'')) (\<lambda>case_ids.
     rbind (lock_obligations sha (fld lock ''obligations'')) (\<lambda>(affected, selected).
       Inr \<lparr>ll_case_ids = case_ids, ll_affected = affected, ll_selected = selected\<rparr>))))))))))))"

section \<open>Semantic payload and run envelope\<close>

record payload_lists =
  pl_obligations :: "string \<Rightarrow> string list"
  pl_cases :: "string \<Rightarrow> string list"
  pl_manifests :: "(string \<times> string) list"

definition payload_fields :: "string list" where
  "payload_fields = [''schema'', ''closure_lock'', ''closure_lock_sha256'', ''ndf_impact'', ''obligations'', ''cases'',
     ''case_manifests'']"

definition case_statuses :: "string list" where
  "case_statuses = [''selected'', ''completed'', ''passed'', ''failed'', ''skipped'', ''timeout'', ''unknown'']"

text \<open>\<open>{name: _string_list(row[name]) for name in names}\<close>, read as a function of the name.\<close>

definition string_lists :: "string list \<Rightarrow> (string, pyval) dict \<Rightarrow> (string \<Rightarrow> string list) res" where
  "string_lists names row =
     rbind (rmap (\<lambda>n. string_list False (fld row n)) names) (\<lambda>xss.
       Inr (\<lambda>n. dict_get (zip names xss) n []))"

definition case_manifest :: "pyval \<Rightarrow> (string \<times> string) res" where
  "case_manifest v =
     rbind (row_of [''case_id'', ''sha256''] v) (\<lambda>item.
     rbind (c_text (fld item ''case_id'')) (\<lambda>i.
     rbind (c_digest (fld item ''sha256'')) (\<lambda>d. Inr (i, d))))"

definition payload_impact :: "lock_lists \<Rightarrow> pyval \<Rightarrow> unit res" where
  "payload_impact lock v =
     rbind (row_of [''sha256'', ''affected_pto_ids''] v) (\<lambda>impact.
     rbind (c_digest (fld impact ''sha256'')) (\<lambda>_.
     rbind (string_list False (fld impact ''affected_pto_ids'')) (\<lambda>affected.
     guard (affected = ll_affected lock) ''NDF affected PTO IDs do not match closure lock'')))"

definition payload_obligations :: "lock_lists \<Rightarrow> pyval \<Rightarrow> (string \<Rightarrow> string list) res" where
  "payload_obligations lock v =
     rbind (row_of [''selected'', ''completed'', ''passed'', ''failed''] v) (\<lambda>row.
     rbind (string_lists (map fst row) row) (\<lambda>sets.
     rbind (guard (sets ''selected'' = ll_selected lock) ''selected obligations do not match closure lock'') (\<lambda>_.
     rbind (guard (sets ''selected'' = sets ''completed'' \<and> sets ''completed'' = sets ''passed'' \<and> sets ''failed'' = [])
              ''closure obligations are not completely passing'') (\<lambda>_. Inr sets))))"

definition payload_cases :: "lock_lists \<Rightarrow> pyval \<Rightarrow> (string \<Rightarrow> string list) res" where
  "payload_cases lock v =
     rbind (row_of case_statuses v) (\<lambda>row.
     rbind (string_lists case_statuses row) (\<lambda>sets.
     rbind (guard (sets ''selected'' = ll_case_ids lock) ''selected cases do not match closure lock'') (\<lambda>_.
     rbind (guard (sets ''selected'' = sets ''completed'' \<and> sets ''completed'' = sets ''passed'' \<and>
                   list_all (\<lambda>n. sets n = []) [''failed'', ''skipped'', ''timeout'', ''unknown''])
              ''closure cases are not completely passing'') (\<lambda>_. Inr sets))))"

definition payload_manifests :: "string list \<Rightarrow> pyval \<Rightarrow> (string \<times> string) list res" where
  "payload_manifests completed v =
     (case v of
        PList xs \<Rightarrow>
          rbind (rmap case_manifest xs) (\<lambda>ms.
          rbind (guard (ms = sort (remdups ms)) ''case_manifests must be sorted and unique'') (\<lambda>_.
          rbind (guard (map fst ms = completed) ''case manifests do not equal completed cases'') (\<lambda>_. Inr ms)))
      | _ \<Rightarrow> Inl (ValueError ''case_manifests must be an array''))"

definition validate_semantic_payload :: "(byte list \<Rightarrow> string) \<Rightarrow> pyval \<Rightarrow> payload_lists res" where
  "validate_semantic_payload sha v =
     rbind (row_of payload_fields v) (\<lambda>payload.
     rbind (has_value SEMANTIC_PAYLOAD_SCHEMA (fld payload ''schema'')) (\<lambda>_.
     rbind (validate_lock sha (fld payload ''closure_lock'')) (\<lambda>lock.
     rbind (c_digest (fld payload ''closure_lock_sha256'')) (\<lambda>d.
     rbind (canonical_sha256 sha (fld payload ''closure_lock'')) (\<lambda>actual.
     rbind (guard (d = actual) ''closure_lock_sha256 mismatch'') (\<lambda>_.
     rbind (payload_impact lock (fld payload ''ndf_impact'')) (\<lambda>_.
     rbind (payload_obligations lock (fld payload ''obligations'')) (\<lambda>obligations.
     rbind (payload_cases lock (fld payload ''cases'')) (\<lambda>cases.
     rbind (payload_manifests (cases ''completed'') (fld payload ''case_manifests'')) (\<lambda>manifests.
       Inr \<lparr>pl_obligations = obligations, pl_cases = cases, pl_manifests = manifests\<rparr>))))))))))"

definition envelope_run :: "pyval \<Rightarrow> unit res" where
  "envelope_run v =
     rbind (row_of [''id'', ''attempt'', ''timestamp''] v) (\<lambda>run.
     rbind (c_text (fld run ''id'')) (\<lambda>_.
     rbind (positive_int 1 (fld run ''attempt'')) (\<lambda>_.
     rbind (c_text (fld run ''timestamp'')) (\<lambda>t.
     guard (timestamp_re t) ''run.timestamp must be whole-second UTC ending in Z''))))"

definition envelope_workflow :: "pyval \<Rightarrow> unit res" where
  "envelope_workflow v =
     rbind (row_of [''repository'', ''path'', ''commit''] v) (\<lambda>w.
     rbind (c_text (fld w ''repository'')) (\<lambda>_.
     rbind (c_text (fld w ''path'')) (\<lambda>_.
     rbind (git_id (fld w ''commit'')) (\<lambda>_. Inr ()))))"

definition envelope_runner :: "pyval \<Rightarrow> unit res" where
  "envelope_runner v =
     rbind (row_of [''image'', ''builder_identity''] v) (\<lambda>r.
     rbind (c_text (fld r ''image'')) (\<lambda>_.
     rbind (c_text (fld r ''builder_identity'')) (\<lambda>_. Inr ())))"

definition run_envelope_fields :: "string list" where
  "run_envelope_fields = [''schema'', ''semantic_payload_sha256'', ''workflow'', ''run'', ''runner'', ''artifact_sha256'',
     ''attestation'']"

definition validate_run_envelope :: "(byte list \<Rightarrow> string) \<Rightarrow> pyval \<Rightarrow> pyval \<Rightarrow> (string, pyval) dict res" where
  "validate_run_envelope sha v semantic_payload =
     rbind (row_of run_envelope_fields v) (\<lambda>envelope.
     rbind (has_value RUN_ENVELOPE_SCHEMA (fld envelope ''schema'')) (\<lambda>_.
     rbind (validate_semantic_payload sha semantic_payload) (\<lambda>_.
     rbind (canonical_sha256 sha semantic_payload) (\<lambda>expected.
     rbind (c_digest (fld envelope ''semantic_payload_sha256'')) (\<lambda>d.
     rbind (guard (d = expected) ''semantic payload digest mismatch'') (\<lambda>_.
     rbind (envelope_workflow (fld envelope ''workflow'')) (\<lambda>_.
     rbind (envelope_run (fld envelope ''run'')) (\<lambda>_.
     rbind (envelope_runner (fld envelope ''runner'')) (\<lambda>_.
     rbind (c_digest (fld envelope ''artifact_sha256'')) (\<lambda>_.
     rbind (case fld envelope ''attestation'' of PNone \<Rightarrow> Inr () | PDict _ \<Rightarrow> Inr ()
            | _ \<Rightarrow> Inl (ValueError ''attestation must be an object or null'')) (\<lambda>_.
       Inr envelope)))))))))))"

section \<open>Cases\<close>

definition in_int_set :: "int list \<Rightarrow> pyval \<Rightarrow> bool res" where
  "in_int_set xs v =
     (case v of PInt i \<Rightarrow> Inr (i \<in> set xs)
      | PBool b \<Rightarrow> Inr ((if b then 1 else 0) \<in> set xs)
      | _ \<Rightarrow> if py_hashable v then Inr False else Inl (TypeError ''unhashable type''))"

fun all_lengths :: "pyval list \<Rightarrow> unit res" where
  "all_lengths [] = Inr ()"
| "all_lengths (x # xs) =
     rbind (in_int_set [16, 32, 48, 64] x) (\<lambda>ok.
       if ok then all_lengths xs
       else Inl (ValueError ''expected_length_sequence contains an unsupported instruction length''))"

definition case_lengths :: "pyval \<Rightarrow> unit res" where
  "case_lengths v =
     (case v of PList xs \<Rightarrow> all_lengths xs
      | _ \<Rightarrow> Inl (ValueError ''expected_length_sequence contains an unsupported instruction length''))"

definition case_command :: "pyval \<Rightarrow> unit res" where
  "case_command v =
     rbind (row_of [''tool'', ''arguments''] v) (\<lambda>command.
     rbind (one_of [''clang'', ''llvm_mc'', ''ld_lld''] (fld command ''tool'')) (\<lambda>_.
     rbind (arguments (fld command ''arguments'')) (\<lambda>_. Inr ())))"

definition case_host_request :: "pyval \<Rightarrow> unit res" where
  "case_host_request v =
     (if v = PNone then Inr ()
      else rbind (row_of [''number'', ''argument0'', ''service_request_type''] v) (\<lambda>rq.
           rbind (rmap (\<lambda>(field, x). positive_int 0 x) rq) (\<lambda>_. Inr ())))"

definition execution_fields :: "string list" where
  "execution_fields = [''start_acr'', ''start_symbol'', ''return_symbol'', ''stop_symbol'', ''result_symbol'',
     ''result_size_symbol'', ''stop_after_hits'', ''max_steps'', ''stack_top'', ''host_request'']"

definition case_execution :: "pyval \<Rightarrow> unit res" where
  "case_execution v =
     rbind (row_of execution_fields v) (\<lambda>e.
     rbind (rmap (\<lambda>n. c_text (fld e n))
              [''start_symbol'', ''return_symbol'', ''stop_symbol'', ''result_symbol'', ''result_size_symbol'']) (\<lambda>_.
     rbind (rmap (\<lambda>n. positive_int 1 (fld e n)) [''stop_after_hits'', ''max_steps'', ''stack_top'']) (\<lambda>_.
     rbind (positive_int 0 (fld e ''start_acr'')) (\<lambda>acr.
     rbind (guard (acr \<le> 15) ''execution.start_acr must be an integer from 0 through 15'') (\<lambda>_.
     case_host_request (fld e ''host_request''))))))"

definition case_model :: "pyval \<Rightarrow> unit res" where
  "case_model v =
     rbind (row_of [''memory_bytes'', ''tile_elements'', ''runtime_typecheck'', ''backend''] v) (\<lambda>model.
     rbind (one_of [''strict'', ''minimal''] (fld model ''runtime_typecheck'')) (\<lambda>_.
     rbind (one_of [''reference-array'', ''host-sparse''] (fld model ''backend'')) (\<lambda>_.
     rbind (rmap (\<lambda>n. positive_int 1 (fld model n)) [''memory_bytes'', ''tile_elements'']) (\<lambda>_. Inr ()))))"

definition case_golden :: "pyval \<Rightarrow> unit res" where
  "case_golden v =
     rbind (row_of [''policy'', ''encoding'', ''path'', ''sha256'', ''provenance''] v) (\<lambda>golden.
     rbind (has_value ''exact'' (fld golden ''policy'')) (\<lambda>_.
     rbind (one_of [''raw'', ''hex''] (fld golden ''encoding'')) (\<lambda>_.
     rbind (c_text (fld golden ''path'')) (\<lambda>_.
     rbind (c_digest (fld golden ''sha256'')) (\<lambda>_.
     rbind (row_of [''source'', ''rationale'', ''model_generated''] (fld golden ''provenance'')) (\<lambda>provenance.
     rbind (c_text (fld provenance ''source'')) (\<lambda>_.
     rbind (c_text (fld provenance ''rationale'')) (\<lambda>_.
     guard (fld provenance ''model_generated'' = PBool False) ''golden provenance must state model_generated=false''))))))))"

definition case_fields :: "string list" where
  "case_fields = [''schema'', ''case_id'', ''lane'', ''source'', ''linker_script'', ''pto_ids'', ''obligation_ids'',
     ''features'', ''avs_ids'', ''expected_length_sequence'', ''compile'', ''link'', ''execution'', ''model'', ''golden'',
     ''profile'', ''resource_class'', ''timeout_seconds'']"

definition validate_case :: "pyval \<Rightarrow> (string, pyval) dict res" where
  "validate_case v =
     rbind (row_of case_fields v) (\<lambda>c.
     rbind (has_value CASE_SCHEMA (fld c ''schema'')) (\<lambda>_.
     rbind (c_text (fld c ''case_id'')) (\<lambda>case_id.
     rbind (guard (case_id_re case_id) ''case_id is not stable lowercase identifier syntax'') (\<lambda>_.
     rbind (one_of [''c'', ''cxx'', ''ir'', ''intrinsic'', ''asm''] (fld c ''lane'')) (\<lambda>_.
     rbind (c_text (fld c ''source'')) (\<lambda>_.
     rbind (c_text (fld c ''linker_script'')) (\<lambda>_.
     rbind (string_list True (fld c ''pto_ids'')) (\<lambda>_.
     rbind (string_list True (fld c ''obligation_ids'')) (\<lambda>_.
     rbind (string_list False (fld c ''features'')) (\<lambda>_.
     rbind (string_list False (fld c ''avs_ids'')) (\<lambda>_.
     rbind (case_lengths (fld c ''expected_length_sequence'')) (\<lambda>_.
     rbind (rmap (\<lambda>n. case_command (fld c n)) [''compile'', ''link'']) (\<lambda>_.
     rbind (case_execution (fld c ''execution'')) (\<lambda>_.
     rbind (case_model (fld c ''model'')) (\<lambda>_.
     rbind (case_golden (fld c ''golden'')) (\<lambda>_.
     rbind (c_text (fld c ''profile'')) (\<lambda>_.
     rbind (c_text (fld c ''resource_class'')) (\<lambda>_.
     rbind (positive_int 1 (fld c ''timeout_seconds'')) (\<lambda>_. Inr c)))))))))))))))))))"

section \<open>What the validators accept\<close>

lemma guard_Inr [accepts]: "guard ok message = Inr u \<longleftrightarrow> ok"
  by (simp add: guard_def)

lemma c_object_Inr [accepts]: "c_object v = Inr d \<longleftrightarrow> v = PDict d"
  by (auto simp: c_object_def split: pyval.splits)

lemma exact_fields_Inr [accepts]: "exact_fields names row = Inr u \<longleftrightarrow> has_fields row names"
  by (auto simp: exact_fields_def guard_def has_fields_def Let_def filter_empty_conv simp del: set_map)

lemma row_of_Inr [accepts]: "row_of names v = Inr row \<longleftrightarrow> v = PDict row \<and> has_fields row names"
  by (auto simp: row_of_def res_simps accepts)

lemma c_text_Inr [accepts]: "c_text v = Inr s \<longleftrightarrow> v = PStr s \<and> s \<noteq> []"
  by (auto simp: c_text_def split: pyval.splits)

lemma c_digest_Inr [accepts]: "c_digest v = Inr s \<longleftrightarrow> v = PStr s \<and> s \<noteq> [] \<and> hex_text 64 s"
  by (auto simp: c_digest_def res_simps accepts)

lemma git_id_Inr [accepts]: "git_id v = Inr s \<longleftrightarrow> v = PStr s \<and> s \<noteq> [] \<and> hex_text 40 s"
  by (auto simp: git_id_def res_simps accepts)

lemma has_value_Inr [accepts]: "has_value s v = Inr u \<longleftrightarrow> v = PStr s"
  by (simp add: has_value_def guard_Inr)

lemma text_list_Inr [accepts]: "text_list v = Inr xs \<longleftrightarrow> v = strings_val xs \<and> [] \<notin> set xs"
proof -
  have "rmap c_text vs = Inr xs \<longleftrightarrow> vs = map PStr xs \<and> list_all (\<lambda>s. s \<noteq> []) xs" for vs
    by (rule rmap_Inr_map_iff) (rule c_text_Inr)
  then show ?thesis by (cases v) (auto simp: text_list_def strings_val_def list_all_iff)
qed

text \<open>A list equal to its sorted deduplication is sorted without repetition.\<close>

lemma sorted_unique_iff: "xs = sort (remdups xs) \<longleftrightarrow> sorted xs \<and> distinct xs"
proof
  assume xs: "xs = sort (remdups xs)"
  then show "sorted xs \<and> distinct xs" by (metis distinct_remdups distinct_sort sorted_sort)
next
  assume "sorted xs \<and> distinct xs"
  then show "xs = sort (remdups xs)" by (simp add: distinct_remdups_id sorted_sort_id)
qed

lemma string_list_Inr [accepts]:
  "string_list ne v = Inr xs \<longleftrightarrow>
   v = strings_val xs \<and> [] \<notin> set xs \<and> sorted xs \<and> distinct xs \<and> (ne \<longrightarrow> xs \<noteq> [])"
proof -
  have "(case text_list v of Inl _ \<Rightarrow> Inl (ValueError ''must be a string array'') | Inr ys \<Rightarrow> Inr ys) = Inr ys \<longleftrightarrow>
      text_list v = Inr ys" for ys by (cases "text_list v") auto
  then show ?thesis by (auto simp: string_list_def res_simps accepts sorted_unique_iff)
qed

lemma case_manifest_Inr:
  "case_manifest v = Inr m \<Longrightarrow> hex_text 64 (snd m)"
  by (auto simp: case_manifest_def res_simps accepts)

text \<open>The value at a path of field names.\<close>

fun at_path :: "string list \<Rightarrow> pyval \<Rightarrow> pyval" where
  "at_path [] v = v"
| "at_path (k # ks) v = (case v of PDict d \<Rightarrow> at_path ks (fld d k) | _ \<Rightarrow> PNone)"

lemma string_lists_Inr:
  assumes "string_lists names row = Inr sets" and "n \<in> set names"
  shows "fld row n = strings_val (sets n)"
proof -
  from assms(1) obtain xss where xss: "rmap (\<lambda>n. string_list False (fld row n)) names = Inr xss"
    and sets: "sets = (\<lambda>n. dict_get (zip names xss) n [])" by (auto simp: string_lists_def res_simps)
  have len: "length names = length xss" using xss unfolding rmap_Inr_iff by (simp add: list_all2_lengthD)
  have ex: "n \<in> dom (map_of (zip names xss))" using assms(2) len by (simp add: dom_map_of_zip)
  then obtain xs where xs: "map_of (zip names xss) n = Some xs" by auto
  then have "(n, xs) \<in> set (zip names xss)" by (rule map_of_SomeD)
  with xss have "string_list False (fld row n) = Inr xs" unfolding rmap_Inr_iff list_all2_iff by auto
  then show ?thesis using xs by (simp add: sets dict_get_def string_list_Inr)
qed

lemma payload_cases_Inr:
  assumes "payload_cases lock v = Inr sets"
  shows "\<forall>s \<in> set case_statuses. at_path [s] v =
      strings_val (if s \<in> set [''selected'', ''completed'', ''passed''] then ll_case_ids lock else [])"
    and "sets ''completed'' = ll_case_ids lock"
proof -
  obtain row where v: "v = PDict row" and sl: "string_lists case_statuses row = Inr sets"
    and eq: "sets ''selected'' = ll_case_ids lock" "sets ''completed'' = ll_case_ids lock" "sets ''passed'' = ll_case_ids lock"
    "sets ''failed'' = []" "sets ''skipped'' = []" "sets ''timeout'' = []" "sets ''unknown'' = []"
    using assms by (auto simp: payload_cases_def res_simps accepts)
  have "sets s = (if s \<in> set [''selected'', ''completed'', ''passed''] then ll_case_ids lock else [])"
    if "s \<in> set case_statuses" for s
    using that eq by (auto simp: case_statuses_def)
  then show "\<forall>s \<in> set case_statuses. at_path [s] v =
      strings_val (if s \<in> set [''selected'', ''completed'', ''passed''] then ll_case_ids lock else [])"
    using string_lists_Inr [OF sl] v by simp
  show "sets ''completed'' = ll_case_ids lock" by (rule eq(2))
qed

lemma payload_obligations_Inr:
  assumes "payload_obligations lock v = Inr sets"
  shows "at_path [''selected''] v = strings_val (ll_selected lock) \<and> at_path [''completed''] v = strings_val (ll_selected lock) \<and>
    at_path [''passed''] v = strings_val (ll_selected lock) \<and> at_path [''failed''] v = strings_val []"
proof -
  obtain row where v: "v = PDict row" "has_fields row [''selected'', ''completed'', ''passed'', ''failed'']"
    and sl: "string_lists (map fst row) row = Inr sets"
    and eq: "sets ''selected'' = ll_selected lock" "sets ''completed'' = ll_selected lock" "sets ''passed'' = ll_selected lock"
    "sets ''failed'' = []"
    using assms by (auto simp: payload_obligations_def res_simps accepts)
  have "n \<in> set (map fst row)" if "n \<in> set [''selected'', ''completed'', ''passed'', ''failed'']" for n
    using v(2) that by (simp only: has_fields_def)
  then show ?thesis using string_lists_Inr [OF sl] eq v(1) by simp
qed

lemma payload_manifests_Inr:
  assumes "payload_manifests completed v = Inr ms"
  shows "map fst ms = completed \<and> list_all (\<lambda>m. hex_text 64 (snd m)) ms \<and> (\<exists>xs. v = PList xs \<and> rmap case_manifest xs = Inr ms)"
  using assms by (auto simp: payload_manifests_def res_simps accepts case_list_Inr intro: rmap_all case_manifest_Inr)

definition lock_lists_ok :: "(byte list \<Rightarrow> string) \<Rightarrow> pyval \<Rightarrow> lock_lists \<Rightarrow> bool" where
  "lock_lists_ok sha v l \<longleftrightarrow>
     at_path [''corpus'', ''case_ids''] v = strings_val (ll_case_ids l) \<and> ll_case_ids l \<noteq> [] \<and> sorted (ll_case_ids l) \<and>
     distinct (ll_case_ids l) \<and> at_path [''obligations'', ''selected''] v = strings_val (ll_selected l) \<and> ll_selected l \<noteq> [] \<and>
     distinct (ll_selected l) \<and> at_path [''obligations'', ''affected_pto_ids''] v = strings_val (ll_affected l) \<and>
     (\<exists>d. at_path [''obligations'', ''sha256''] v = PStr d \<and> canonical_sha256 sha (strings_val (ll_selected l)) = Inr d)"

lemma lock_corpus_Inr:
  "lock_corpus v = Inr ids \<Longrightarrow> at_path [''case_ids''] v = strings_val ids \<and> ids \<noteq> [] \<and> sorted ids \<and> distinct ids"
  by (auto simp: lock_corpus_def res_simps accepts)

lemma lock_obligations_Inr:
  "lock_obligations sha v = Inr (aff, sel) \<Longrightarrow>
   at_path [''selected''] v = strings_val sel \<and> sel \<noteq> [] \<and> distinct sel \<and> at_path [''affected_pto_ids''] v = strings_val aff \<and>
   (\<exists>d. at_path [''sha256''] v = PStr d \<and> canonical_sha256 sha (strings_val sel) = Inr d)"
  by (auto simp: lock_obligations_def res_simps accepts)

lemma validate_lock_Inr:
  assumes "validate_lock sha v = Inr l"
  shows "lock_lists_ok sha v l"
proof -
  obtain lock ids aff sel where v: "v = PDict lock" and l: "l = \<lparr>ll_case_ids = ids, ll_affected = aff, ll_selected = sel\<rparr>"
    and c: "lock_corpus (fld lock ''corpus'') = Inr ids" and ob: "lock_obligations sha (fld lock ''obligations'') = Inr (aff, sel)"
    using assms by (auto simp: validate_lock_def res_simps accepts split: prod.splits)
  show ?thesis using lock_corpus_Inr [OF c] lock_obligations_Inr [OF ob] v l by (simp add: lock_lists_ok_def)
qed

section \<open>Theorems\<close>

text \<open>
  C36: A closure payload is accepted only for a complete, passing run. The cases its lock pins are a
  non-empty list without repetition; exactly these are selected, completed and passed, no case
  failed, was skipped, timed out or is unknown, and there is one manifest digest per case, in the
  same order. The same holds for the obligations, and the payload holds the digest of the lock.
\<close>

theorem semantic_payload_fails_closed:
  assumes "validate_semantic_payload sha v = Inr p"
  shows "\<exists>ids obs. ids \<noteq> [] \<and> distinct ids \<and> obs \<noteq> [] \<and> distinct obs \<and>
    at_path [''closure_lock'', ''corpus'', ''case_ids''] v = strings_val ids \<and>
    at_path [''closure_lock'', ''obligations'', ''selected''] v = strings_val obs \<and>
    (\<forall>s \<in> set case_statuses. at_path [''cases'', s] v =
       strings_val (if s \<in> set [''selected'', ''completed'', ''passed''] then ids else [])) \<and>
    (\<forall>s \<in> set [''selected'', ''completed'', ''passed'']. at_path [''obligations'', s] v = strings_val obs) \<and>
    at_path [''obligations'', ''failed''] v = strings_val [] \<and>
    map fst (pl_manifests p) = ids \<and> list_all (\<lambda>m. hex_text 64 (snd m)) (pl_manifests p) \<and>
    (\<exists>xs. at_path [''case_manifests''] v = PList xs \<and> rmap case_manifest xs = Inr (pl_manifests p)) \<and>
    (\<exists>d. at_path [''closure_lock_sha256''] v = PStr d \<and>
         canonical_sha256 sha (at_path [''closure_lock''] v) = Inr d)"
proof -
  obtain payload lock obl cas ms d where v: "v = PDict payload"
    and p: "p = \<lparr>pl_obligations = obl, pl_cases = cas, pl_manifests = ms\<rparr>"
    and lock: "validate_lock sha (fld payload ''closure_lock'') = Inr lock"
    and d: "fld payload ''closure_lock_sha256'' = PStr d" "canonical_sha256 sha (fld payload ''closure_lock'') = Inr d"
    and obl: "payload_obligations lock (fld payload ''obligations'') = Inr obl"
    and cas: "payload_cases lock (fld payload ''cases'') = Inr cas"
    and ms: "payload_manifests (cas ''completed'') (fld payload ''case_manifests'') = Inr ms"
    using assms by (auto simp: validate_semantic_payload_def res_simps accepts)
  note l = validate_lock_Inr [OF lock, unfolded lock_lists_ok_def]
  note o = payload_obligations_Inr [OF obl]
  note c = payload_cases_Inr [OF cas]
  note m = payload_manifests_Inr [OF ms, unfolded c(2)]
  show ?thesis
    by (rule exI [of _ "ll_case_ids lock"], rule exI [of _ "ll_selected lock"]) (use l o c(1) m d v p in simp)
qed

text \<open>A run envelope binds its payload: two accepted payloads differ only if SHA-256 collides on them.\<close>

lemma run_envelope_binds_payload:
  assumes "validate_run_envelope sha env p = Inr row" and "validate_run_envelope sha env q = Inr row'"
    and "\<And>x y. sha x = sha y \<Longrightarrow> x = y"
  shows "canonical_json_bytes p = canonical_json_bytes q"
proof -
  obtain d where d: "at_path [''semantic_payload_sha256''] env = PStr d" "canonical_sha256 sha p = Inr d"
    using assms(1) by (auto simp: validate_run_envelope_def res_simps accepts)
  obtain d' where d': "at_path [''semantic_payload_sha256''] env = PStr d'" "canonical_sha256 sha q = Inr d'"
    using assms(2) by (auto simp: validate_run_envelope_def res_simps accepts)
  from d d' assms(3) show ?thesis by (auto simp: canonical_sha256_def res_simps)
qed

text \<open>A normalised repository URL has the form the locks require, and normalising it again keeps it.\<close>

lemma github_name_git:
  assumes "github_name s = Some nm"
  shows "github_name (s @ ''.git'') = Some (nm @ ''.git'')"
proof -
  let ?n = "length github_prefix"
  let ?rest = "drop ?n s"
  let ?owner = "takeWhile repo_char ?rest"
  let ?tail = "drop (length ?owner) ?rest"
  have a: "take ?n s = github_prefix" "?owner \<noteq> []" "?tail \<noteq> []" "hd ?tail = CHR ''/''" "tl ?tail \<noteq> []"
    "list_all repo_char (tl ?tail)" "nm = tl ?tail"
    using assms by (auto simp: github_name_def Let_def split: if_splits)
  have len: "?n \<le> length s" using a(1) by (metis length_take min.absorb_iff2 min.commute)
  have split: "?rest = ?owner @ CHR ''/'' # tl ?tail" using a(3,4)
    by (metis append_take_drop_id list.collapse takeWhile_eq_take)
  have slash: "\<not> repo_char CHR ''/''" by code_simp
  have own: "list_all repo_char ?owner" by (auto simp: list_all_iff dest: set_takeWhileD)
  have dropped: "drop ?n (s @ ''.git'') = ?owner @ CHR ''/'' # tl ?tail @ ''.git''"
    using len split by simp
  have owner': "takeWhile repo_char (?owner @ CHR ''/'' # tl ?tail @ ''.git'') = ?owner"
    using own slash by (simp add: takeWhile_append2 list_all_iff)
  have git: "list_all repo_char ''.git''" by code_simp
  show ?thesis
    unfolding github_name_def Let_def dropped owner' using a len git by simp
qed

lemma canonical_repository_url_canonical:
  assumes "canonical_repository_url r = Inr u"
  shows "repository_re u \<and> canonical_repository_url u = Inr u"
proof -
  have "repository_re u"
  proof (cases "repository_re r")
    case False
    with assms obtain nm where "github_name r = Some nm" "u = r @ ''.git''"
      by (auto simp: canonical_repository_url_def hosted_repository_re_def split: if_splits)
    moreover from this have "nm \<noteq> []" by (auto simp: github_name_def Let_def split: if_splits)
    ultimately show ?thesis using github_name_git [of r nm] by (simp add: repository_re_def)
  qed (use assms in \<open>simp add: canonical_repository_url_def\<close>)
  then show ?thesis by (simp add: canonical_repository_url_def)
qed

subsection \<open>Witness\<close>

definition demo_sha :: "byte list \<Rightarrow> string" where
  "demo_sha bs = replicate 64 CHR ''a''"

definition demo_repository :: "string \<Rightarrow> pyval" where
  "demo_repository commit = PDict [(''repository'', PStr ''https://github.com/o/r.git''), (''commit'', PStr commit),
     (''tree'', PStr (replicate 40 CHR ''b''))]"

definition demo_digest :: pyval where "demo_digest = PStr (replicate 64 CHR ''a'')"

definition demo_tool :: pyval where
  "demo_tool = PDict [(''path'', PStr ''bin''), (''sha256'', demo_digest)]"

definition demo_lock :: pyval where
  "demo_lock = PDict
     [(''schema'', PStr LOCK_SCHEMA), (''identity'', release_identity),
      (''repositories'', PDict [(''pto_spec'', demo_repository NDF_COMMIT), (''llvm'', demo_repository NDF_COMMIT),
         (''asl_model'', demo_repository NDF_COMMIT), (''normative_language'', demo_repository NDF_COMMIT),
         (''aslref'', demo_repository ASLREF_COMMIT)]),
      (''tools'', PDict [(''clang'', demo_tool), (''llvm_mc'', demo_tool), (''ld_lld'', demo_tool), (''aslref'', demo_tool)]),
      (''target'', PDict [(''triple'', PStr ''pto'')]),
      (''model'', PDict [(''abi'', PStr ''pto-asl-model-experimental-v2''), (''worker_protocol'', PStr ''pto-asl-worker-v1''),
         (''backend'', PStr ''host-sparse''), (''profile'', PStr ''bounded-reference-v1'')]),
      (''corpus'', PDict [(''sha256'', demo_digest), (''case_ids'', strings_val [''a'', ''b''])]),
      (''obligations'', PDict [(''affected_pto_ids'', PList []), (''selected'', strings_val [''x'']), (''sha256'', demo_digest)])]"

definition demo_ids :: pyval where "demo_ids = strings_val [''a'', ''b'']"

definition demo_obligations :: pyval where
  "demo_obligations = PDict [(''selected'', strings_val [''x'']), (''completed'', strings_val [''x'']),
     (''passed'', strings_val [''x'']), (''failed'', PList [])]"

definition demo_cases :: pyval where
  "demo_cases = PDict [(''selected'', demo_ids), (''completed'', demo_ids), (''passed'', demo_ids), (''failed'', PList []),
     (''skipped'', PList []), (''timeout'', PList []), (''unknown'', PList [])]"

definition demo_impact :: pyval where
  "demo_impact = PDict [(''sha256'', demo_digest), (''affected_pto_ids'', PList [])]"

definition demo_manifests :: pyval where
  "demo_manifests = PList [PDict [(''case_id'', PStr ''a''), (''sha256'', demo_digest)],
     PDict [(''case_id'', PStr ''b''), (''sha256'', demo_digest)]]"

definition demo_payload_row :: "(string, pyval) dict" where
  "demo_payload_row =
     [(''schema'', PStr SEMANTIC_PAYLOAD_SCHEMA), (''closure_lock'', demo_lock), (''closure_lock_sha256'', demo_digest),
      (''ndf_impact'', demo_impact), (''obligations'', demo_obligations), (''cases'', demo_cases),
      (''case_manifests'', demo_manifests)]"

lemma demo_payload_accepted: "\<not> isl (validate_semantic_payload demo_sha (PDict demo_payload_row))"
proof -
  define l where "l = \<lparr>ll_case_ids = [''a'', ''b''], ll_affected = [], ll_selected = [''x'']\<rparr>"
  have lock: "validate_lock demo_sha demo_lock = Inr l" unfolding l_def by code_simp
  have "json_plain demo_lock" by code_simp
  then have sha: "canonical_sha256 demo_sha demo_lock = Inr (replicate 64 CHR ''a'')"
    by (simp add: canonical_sha256_def canonical_json_bytes_def canonical_json_eq demo_sha_def)
  have row: "row_of payload_fields (PDict demo_payload_row) = Inr demo_payload_row"
    by (simp add: row_of_Inr has_fields_def payload_fields_def demo_payload_row_def)
  have f: "fld demo_payload_row ''schema'' = PStr SEMANTIC_PAYLOAD_SCHEMA" "fld demo_payload_row ''closure_lock'' = demo_lock"
    "fld demo_payload_row ''closure_lock_sha256'' = demo_digest" "fld demo_payload_row ''ndf_impact'' = demo_impact"
    "fld demo_payload_row ''obligations'' = demo_obligations" "fld demo_payload_row ''cases'' = demo_cases"
    "fld demo_payload_row ''case_manifests'' = demo_manifests"
    by (simp_all add: demo_payload_row_def fld_def dict_get_def)
  have d: "c_digest demo_digest = Inr (replicate 64 CHR ''a'')" by code_simp
  have i: "payload_impact l demo_impact = Inr ()" unfolding l_def by code_simp
  have "\<not> isl (payload_obligations l demo_obligations)" unfolding l_def by code_simp
  then obtain obl where ob: "payload_obligations l demo_obligations = Inr obl" using sum.collapse(2) by metis
  have "\<not> isl (payload_cases l demo_cases)" unfolding l_def by code_simp
  then obtain cas where c: "payload_cases l demo_cases = Inr cas" using sum.collapse(2) by metis
  have "\<not> isl (payload_manifests [''a'', ''b''] demo_manifests)" by code_simp
  then obtain ms where m: "payload_manifests [''a'', ''b''] demo_manifests = Inr ms" using sum.collapse(2) by metis
  have "cas ''completed'' = [''a'', ''b'']" using payload_cases_Inr(2) [OF c] by (simp add: l_def)
  then show ?thesis
    by (simp add: validate_semantic_payload_def row f lock sha d i ob c m has_value_def guard_def)
qed

theorem semantic_payload_fails_closed_witness:
  "\<exists>p. validate_semantic_payload demo_sha (PDict demo_payload_row) = Inr p \<and>
     list_all (\<lambda>m. hex_text 64 (snd m)) (pl_manifests p)"
proof -
  obtain p where p: "validate_semantic_payload demo_sha (PDict demo_payload_row) = Inr p"
    using demo_payload_accepted sum.collapse(2) by metis
  with semantic_payload_fails_closed [OF p] show ?thesis by blast
qed

end
