(* ===== verification/Hosted_Elf.thy ===== *)
theory Hosted_Elf
  imports Elf_Loader Closure_Artifacts
begin

text \<open>
  The strict ELF reader of the hosted runner: \<open>parse_pto_isa_note\<close> of \<open>pto_asl_model/elf_note.py\<close>
  and \<open>parse_elf\<close> of \<open>pto_asl_model/runner.py\<close>. The file content is a parameter, as are SHA-256 and
  \<open>json.loads\<close> (\<open>None\<close> for a decoding error). Text is its UTF-8 encoding, one character per byte.

  The theorems show that an accepted image fits the memory, without overlap and with an executable
  entry; that it agrees with what the runtime loader (\<open>Elf_Loader\<close>) reads from the same file; and
  that an accepted compatibility note is byte for byte the one of the release.
\<close>

section \<open>The compatibility note\<close>

record pto_isa_note =
  pn_release :: string
  pn_encoding_abi :: string
  pn_encoding_projection_sha256 :: string
  pn_descriptor_sha256 :: string

definition note_as_dict :: "pto_isa_note \<Rightarrow> (string, pyval) dict" where
  "note_as_dict n = [(''release'', PStr (pn_release n)), (''encoding_abi'', PStr (pn_encoding_abi n)),
     (''encoding_projection_sha256'', PStr (pn_encoding_projection_sha256 n))]"

definition nguard :: "bool \<Rightarrow> string \<Rightarrow> unit res" where
  "nguard ok message = (if ok then Inr () else Inl (PTOISANoteError message))"

definition ELF_MAGIC :: "byte list" where "ELF_MAGIC = [0x7F, 0x45, 0x4C, 0x46]"
definition PTO_NOTE_OWNER :: "byte list" where "PTO_NOTE_OWNER = [0x50, 0x54, 0x4F, 0]"
definition note_section_name :: string where "note_section_name = ''.note.pto.isa''"

definition section_name :: "byte list \<Rightarrow> int \<Rightarrow> string res" where
  "section_name strings offset =
     (if offset \<ge> int (length strings) then Inl (PTOISANoteError ''section name is outside the section string table'')
      else
        let stop = find_zero strings offset in
        if stop < 0 then Inl (PTOISANoteError ''unterminated section name'')
        else
          let nm = py_slice strings offset stop in
          if utf8_valid nm then Inr (map byte_char nm) else Inl (PTOISANoteError ''section name is not UTF-8''))"

definition read_headers :: "byte list \<Rightarrow> int \<Rightarrow> nat \<Rightarrow> int list list res" where
  "read_headers content shoff count = rmap (\<lambda>i. unpack_from SECTION_HEADER content (shoff + int i * 64)) [0..<count]"

text \<open>\<open>offset > len(content) or size > len(content) - offset\<close>\<close>

definition outside :: "byte list \<Rightarrow> int \<Rightarrow> int \<Rightarrow> bool" where
  "outside content offset sz = (offset > int (length content) \<or> sz > int (length content) - offset)"

text \<open>The one section of the given name.\<close>

definition find_note :: "byte list \<Rightarrow> int list list \<Rightarrow> int list res" where
  "find_note strings sections =
     rbind (rmap (\<lambda>s. section_name strings (s ! 0)) sections) (\<lambda>names.
       case map snd (filter (\<lambda>(nm, s). nm = note_section_name) (zip names sections)) of
         [s] \<Rightarrow> Inr s
       | _ \<Rightarrow> Inl (PTOISANoteError ''ELF must contain exactly one .note.pto.isa section''))"

text \<open>The record inside the section: header, owner, descriptor, zero padding.\<close>

definition note_descriptor :: "byte list \<Rightarrow> byte list res" where
  "note_descriptor d =
     (if length d < 16 then Inl (PTOISANoteError ''.note.pto.isa record is truncated'')
      else
        let f = unpack_le [4, 4, 4] d; namesz = f ! 0; descsz = f ! 1; note_type = f ! 2;
            expected_size = (16 + descsz + 3) AND NOT 3 in
        rbind (nguard (\<not> (namesz \<noteq> 4 \<or> note_type \<noteq> 1 \<or> int (length d) \<noteq> expected_size))
                 ''.note.pto.isa must contain one canonical type-1 record'') (\<lambda>_.
        rbind (nguard (py_slice d 12 16 = PTO_NOTE_OWNER) ''.note.pto.isa owner must be PTO'') (\<lambda>_.
        rbind (nguard (list_all (\<lambda>b. b = 0) (drop (nat (16 + descsz)) d)) ''.note.pto.isa padding must be zero'') (\<lambda>_.
          Inr (py_slice d 16 (16 + descsz))))))"

text \<open>The identity check of the descriptor; a \<open>ValueError\<close> of \<open>validate_identity\<close> is converted.\<close>

definition note_identity :: "(string, pyval) dict \<Rightarrow> unit res" where
  "note_identity row =
     (case validate_identity (PDict
             [(''release'', fld row ''release''), (''publication_version'', PStr PUBLICATION_VERSION),
              (''encoding_abi'', fld row ''encoding_abi''),
              (''encoding_projection_sha256'', fld row ''encoding_projection_sha256'')]) of
        Inr _ \<Rightarrow> Inr ()
      | Inl (ValueError m) \<Rightarrow> Inl (PTOISANoteError m)
      | Inl e \<Rightarrow> Inl e)"

definition note_fields :: "string list" where
  "note_fields = [''release'', ''encoding_abi'', ''encoding_projection_sha256'']"

definition text_of :: "pyval \<Rightarrow> string" where
  "text_of v = (case v of PStr s \<Rightarrow> s | _ \<Rightarrow> [])"

definition note_of_descriptor ::
  "(byte list \<Rightarrow> pyval option) \<Rightarrow> (byte list \<Rightarrow> string) \<Rightarrow> byte list \<Rightarrow> pto_isa_note res" where
  "note_of_descriptor json_loads sha descriptor =
     (case (if utf8_valid descriptor then json_loads descriptor else None) of
        None \<Rightarrow> Inl (PTOISANoteError ''.note.pto.isa descriptor is not UTF-8 JSON'')
      | Some (PDict row) \<Rightarrow>
          rbind (canonical_json_bytes (PDict row)) (\<lambda>canonical.
          rbind (nguard (descriptor = canonical) ''.note.pto.isa descriptor is not canonical compact JSON'') (\<lambda>_.
          rbind (note_identity row) (\<lambda>_.
          rbind (nguard (set (map fst row) = set note_fields) ''.note.pto.isa descriptor fields mismatch'') (\<lambda>_.
            Inr \<lparr>pn_release = text_of (fld row ''release''), pn_encoding_abi = text_of (fld row ''encoding_abi''),
                 pn_encoding_projection_sha256 = text_of (fld row ''encoding_projection_sha256''),
                 pn_descriptor_sha256 = sha descriptor\<rparr>))))
      | Some _ \<Rightarrow> Inl (PTOISANoteError ''.note.pto.isa descriptor must be an object''))"

definition note_section :: "byte list \<Rightarrow> int list \<Rightarrow> byte list res" where
  "note_section content section =
     rbind (nguard (section ! 1 = 7) ''.note.pto.isa section type must be SHT_NOTE'') (\<lambda>_.
     rbind (nguard (section ! 2 = 2) ''.note.pto.isa flags must be exactly SHF_ALLOC'') (\<lambda>_.
     rbind (nguard (section ! 8 = 4) ''.note.pto.isa alignment must be 4'') (\<lambda>_.
     rbind (nguard (section ! 4 mod 4 = 0) ''.note.pto.isa file offset must be 4-byte aligned'') (\<lambda>_.
     rbind (nguard (\<not> outside content (section ! 4) (section ! 5)) ''.note.pto.isa payload is truncated'') (\<lambda>_.
       Inr (py_slice content (section ! 4) (section ! 4 + section ! 5)))))))"

definition parse_pto_isa_note ::
  "(byte list \<Rightarrow> pyval option) \<Rightarrow> (byte list \<Rightarrow> string) \<Rightarrow> byte list \<Rightarrow> pto_isa_note res" where
  "parse_pto_isa_note json_loads sha content =
     (if length content < ELF_HEADER_SIZE then Inl (PTOISANoteError ''ELF header is truncated'')
      else
        rbind (unpack_header content) (\<lambda>h.
        rbind (nguard (take 4 (eh_ident h) = ELF_MAGIC) ''ELF magic mismatch'') (\<lambda>_.
        rbind (nguard (py_slice (eh_ident h) 4 7 = [2, 1, 1])
                 ''PTO identity parser requires ELF64 little-endian version 1'') (\<lambda>_.
        rbind (nguard (eh_shnum h \<noteq> 0 \<and> eh_shentsize h = 64) ''ELF section table is required'') (\<lambda>_.
        rbind (nguard (\<not> outside content (eh_shoff h) (eh_shentsize h * eh_shnum h))
                 ''section-header table is truncated'') (\<lambda>_.
        rbind (nguard (eh_shstrndx h < eh_shnum h) ''invalid section-name string-table index'') (\<lambda>_.
        rbind (read_headers content (eh_shoff h) (nat (eh_shnum h))) (\<lambda>sections.
        let strs = sections ! nat (eh_shstrndx h) in
        rbind (nguard (strs ! 1 = 3) ''section-name table is not SHT_STRTAB'') (\<lambda>_.
        rbind (nguard (\<not> outside content (strs ! 4) (strs ! 5)) ''section-name string table is truncated'') (\<lambda>_.
        rbind (find_note (py_slice content (strs ! 4) (strs ! 4 + strs ! 5)) sections) (\<lambda>section.
        rbind (note_section content section) (\<lambda>d.
        rbind (note_descriptor d) (note_of_descriptor json_loads sha)))))))))))))"

section \<open>The hosted ELF image\<close>

record load_segment_rec =
  ls_address :: int
  ls_data :: "byte list"
  ls_memory_size :: int
  ls_flags :: int
  ls_alignment :: int

definition ls_end :: "load_segment_rec \<Rightarrow> int" where
  "ls_end s = ls_address s + ls_memory_size s"

record hosted_symbol =
  sy_name :: string
  sy_value :: int
  sy_size :: int
  sy_section_index :: int

record hosted_image =
  hi_entry :: int
  hi_segments :: "load_segment_rec list"
  hi_symbols :: "hosted_symbol list"
  hi_sha256 :: string
  hi_pto_isa_note :: "pto_isa_note option"

definition eguard :: "bool \<Rightarrow> string \<Rightarrow> unit res" where
  "eguard ok message = (if ok then Inr () else Inl (ElfError message))"

definition checked_range :: "int \<Rightarrow> int \<Rightarrow> int \<Rightarrow> (int \<times> int) res" where
  "checked_range start sz lim =
     (if start < 0 \<or> sz < 0 \<or> start > lim \<or> sz > lim - start then
        Inl (ElfError ''range is outside reference memory'')
      else Inr (start, start + sz))"

definition MAX_HOSTED_MEMORY_BYTES :: int where "MAX_HOSTED_MEMORY_BYTES = 16777216"
definition PTO_ELF_MACHINE :: int where "PTO_ELF_MACHINE = 0xE9"
definition PROGRAM_FLAG_EXECUTE :: int where "PROGRAM_FLAG_EXECUTE = 1"

text \<open>One program header; \<open>loaded\<close> are the segments kept so far, which are the ranges kept so far.\<close>

definition hosted_segment ::
  "byte list \<Rightarrow> int \<Rightarrow> int \<Rightarrow> nat \<Rightarrow> load_segment_rec list \<Rightarrow> load_segment_rec list res" where
  "hosted_segment content phoff memory_bytes index loaded =
     rbind (unpack_from PROGRAM_HEADER content (phoff + int index * 56)) (\<lambda>f.
       let kind = f ! 0; flags = f ! 1; file_offset = f ! 2; virtual_address = f ! 3; physical_address = f ! 4;
           file_size = f ! 5; memory_size = f ! 6; alignment = f ! 7 in
       if kind \<noteq> PT_LOAD then Inr loaded
       else
         rbind (eguard (flags AND NOT 7 = 0) ''PT_LOAD contains unknown permission bits'') (\<lambda>_.
         rbind (eguard (file_size \<le> memory_size) ''PT_LOAD file size exceeds memory size'') (\<lambda>_.
         rbind (eguard (\<not> outside content file_offset file_size) ''PT_LOAD file range is truncated'') (\<lambda>_.
         rbind (eguard (virtual_address = physical_address)
                  ''initial profile requires identical virtual and physical addresses'') (\<lambda>_.
         rbind (checked_range virtual_address memory_size memory_bytes) (\<lambda>(start, stop).
         rbind (eguard (alignment \<in> {0, 1} \<or> virtual_address mod alignment = file_offset mod alignment)
                  ''PT_LOAD alignment congruence failed'') (\<lambda>_.
         rbind (eguard (\<not> list_ex (\<lambda>s. start < ls_end s \<and> ls_address s < stop) loaded) ''PT_LOAD ranges overlap'') (\<lambda>_.
           Inr (loaded @ [\<lparr>ls_address = start, ls_data = py_slice content file_offset (file_offset + file_size),
                           ls_memory_size = memory_size, ls_flags = flags, ls_alignment = alignment\<rparr>])))))))))"

text \<open>One entry of a symbol table: nothing for an empty name.\<close>

definition hosted_symbol_at :: "byte list \<Rightarrow> byte list \<Rightarrow> int \<Rightarrow> hosted_symbol list res" where
  "hosted_symbol_at content strings offset =
     rbind (unpack_from SYMBOL content offset) (\<lambda>f.
       let name_offset = f ! 0 in
       rbind (eguard (name_offset < int (length strings)) ''ELF symbol name is outside its string table'') (\<lambda>_.
       let stop = find_zero strings name_offset in
       rbind (eguard (\<not> stop < 0) ''ELF symbol name is unterminated'') (\<lambda>_.
       let nm = py_slice strings name_offset stop in
       if \<not> utf8_valid nm then Inl UnicodeDecodeError
       else Inr (if nm = [] then []
                 else [\<lparr>sy_name = map byte_char nm, sy_value = f ! 4, sy_size = f ! 5, sy_section_index = f ! 3\<rparr>]))))"

definition hosted_section_symbols :: "byte list \<Rightarrow> int list list \<Rightarrow> int list \<Rightarrow> hosted_symbol list res" where
  "hosted_section_symbols content sections s =
     (if s ! 1 \<notin> {2, 11} then Inr []
      else
        rbind (eguard (\<not> (s ! 9 \<noteq> 24 \<or> s ! 6 \<ge> int (length sections))) ''invalid ELF symbol table metadata'') (\<lambda>_.
        let strs = sections ! nat (s ! 6) in
        rbind (eguard (\<not> (outside content (s ! 4) (s ! 5) \<or> outside content (strs ! 4) (strs ! 5)))
                 ''ELF symbol or string table is truncated'') (\<lambda>_.
        rbind (eguard (s ! 5 mod 24 = 0) ''ELF symbol table has a partial entry'') (\<lambda>_.
        rbind (rmap (\<lambda>i. hosted_symbol_at content (py_slice content (strs ! 4) (strs ! 4 + strs ! 5)) (s ! 4 + int i * 24))
                 [0..<nat (s ! 5 div 24)]) (\<lambda>xss. Inr (concat xss))))))"

definition hosted_symbols :: "byte list \<Rightarrow> elf_header \<Rightarrow> hosted_symbol list res" where
  "hosted_symbols content h =
     (if eh_shnum h = 0 then Inr []
      else
        rbind (eguard (\<not> outside content (eh_shoff h) (eh_shentsize h * eh_shnum h))
                 ''section-header table is truncated'') (\<lambda>_.
        rbind (read_headers content (eh_shoff h) (nat (eh_shnum h))) (\<lambda>sections.
        rbind (rmap (hosted_section_symbols content sections) sections) (\<lambda>xss. Inr (concat xss)))))"

definition check_hosted_header :: "byte list \<Rightarrow> unit res" where
  "check_hosted_header content =
     rbind (eguard (length content \<ge> ELF_HEADER_SIZE) ''ELF header is truncated'') (\<lambda>_.
     rbind (unpack_header content) (\<lambda>h.
     let ident = eh_ident h in
     rbind (eguard (take 4 ident = ELF_MAGIC) ''ELF magic mismatch'') (\<lambda>_.
     rbind (eguard (ident ! 4 = 2 \<and> ident ! 5 = 1) ''requires ELF64 little-endian input'') (\<lambda>_.
     rbind (eguard (ident ! 6 = 1) ''unsupported ELF identification version'') (\<lambda>_.
     rbind (eguard (eh_type h = 2) ''requires static ET_EXEC input'') (\<lambda>_.
     rbind (eguard (eh_machine h = PTO_ELF_MACHINE) ''unexpected ELF machine'') (\<lambda>_.
     rbind (eguard (eh_version h = 1 \<and> eh_ehsize h = 64) ''unsupported ELF header version or size'') (\<lambda>_.
     rbind (eguard (eh_phentsize h = 56) ''unexpected program-header size'') (\<lambda>_.
     rbind (eguard (\<not> (eh_shnum h \<noteq> 0 \<and> eh_shentsize h \<noteq> 64)) ''unexpected section-header size'') (\<lambda>_.
     eguard (\<not> outside content (eh_phoff h) (eh_phentsize h * eh_phnum h)) ''program-header table is truncated''))))))))))"

definition executable_at :: "load_segment_rec list \<Rightarrow> int \<Rightarrow> bool" where
  "executable_at segs pc =
     list_ex (\<lambda>s. ls_address s \<le> pc \<and> pc < ls_end s \<and> ls_flags s AND PROGRAM_FLAG_EXECUTE \<noteq> 0) segs"

definition parse_elf ::
  "(byte list \<Rightarrow> pyval option) \<Rightarrow> (byte list \<Rightarrow> string) \<Rightarrow> byte list \<Rightarrow> int \<Rightarrow> bool \<Rightarrow> hosted_image res" where
  "parse_elf json_loads sha content memory_bytes require_pto_identity =
     rbind (eguard (\<not> (memory_bytes < 256 \<or> memory_bytes > MAX_HOSTED_MEMORY_BYTES))
              ''hosted memory bound is outside the supported model profile'') (\<lambda>_.
     rbind (check_hosted_header content) (\<lambda>_.
     rbind (unpack_header content) (\<lambda>h.
     rbind (rfold (hosted_segment content (eh_phoff h) memory_bytes) [0..<nat (eh_phnum h)] []) (\<lambda>segs.
     rbind (eguard (segs \<noteq> []) ''ELF contains no PT_LOAD segments'') (\<lambda>_.
     rbind (eguard (executable_at segs (eh_entry h)) ''ELF entry is outside an executable PT_LOAD'') (\<lambda>_.
     rbind (hosted_symbols content h) (\<lambda>symbols.
     rbind (if require_pto_identity then rbind (parse_pto_isa_note json_loads sha content) (\<lambda>n. Inr (Some n)) else Inr None) (\<lambda>note.
       Inr \<lparr>hi_entry = eh_entry h, hi_segments = sort_key ls_address segs, hi_symbols = symbols, hi_sha256 = sha content,
            hi_pto_isa_note = note\<rparr>))))))))"

section \<open>Accepted segments\<close>

lemma eguard_Inr [accepts]: "eguard ok message = Inr u \<longleftrightarrow> ok"
  by (simp add: eguard_def)

lemma nguard_Inr [accepts]: "nguard ok message = Inr u \<longleftrightarrow> ok"
  by (simp add: nguard_def)

lemma checked_range_Inr [accepts]:
  "checked_range start sz lim = Inr r \<longleftrightarrow> r = (start, start + sz) \<and> 0 \<le> start \<and> 0 \<le> sz \<and> start + sz \<le> lim"
  by (auto simp: checked_range_def)

definition ls_holds :: "int \<Rightarrow> load_segment_rec \<Rightarrow> bool" where
  "ls_holds a s \<longleftrightarrow> ls_address s \<le> a \<and> a < ls_end s"

text \<open>The segment lies in the memory, and its data is the named slice of the file.\<close>

definition hosted_segment_ok :: "byte list \<Rightarrow> int \<Rightarrow> load_segment_rec \<Rightarrow> bool" where
  "hosted_segment_ok content memory_bytes s \<longleftrightarrow>
     0 \<le> ls_address s \<and> ls_end s \<le> memory_bytes \<and> int (length (ls_data s)) \<le> ls_memory_size s \<and> ls_flags s AND NOT 7 = 0 \<and>
     (\<exists>o'. 0 \<le> o' \<and> o' + int (length (ls_data s)) \<le> int (length content) \<and>
           ls_data s = py_slice content o' (o' + int (length (ls_data s))))"

definition apart :: "load_segment_rec \<Rightarrow> load_segment_rec \<Rightarrow> bool" where
  "apart s t \<longleftrightarrow> \<not> (ls_address t < ls_end s \<and> ls_address s < ls_end t)"

text \<open>What a header contributes.\<close>

lemma hosted_segment_cases:
  assumes "hosted_segment content phoff mb i loaded = Inr loaded'" and "0 \<le> phoff"
  obtains f where "unpack_from PROGRAM_HEADER content (phoff + int i * 56) = Inr f" and "f ! 0 \<noteq> PT_LOAD" and "loaded' = loaded"
  | f s where "unpack_from PROGRAM_HEADER content (phoff + int i * 56) = Inr f" and "f ! 0 = PT_LOAD"
      and "s = \<lparr>ls_address = f ! 3, ls_data = py_slice content (f ! 2) (f ! 2 + f ! 5), ls_memory_size = f ! 6, ls_flags = f ! 1,
               ls_alignment = f ! 7\<rparr>"
      and "loaded' = loaded @ [s]" and "hosted_segment_ok content mb s" and "\<forall>t \<in> set loaded. apart t s"
proof -
  let ?f = "unpack_le PROGRAM_HEADER (drop (nat (phoff + int i * 56)) content)"
  obtain f where f: "unpack_from PROGRAM_HEADER content (phoff + int i * 56) = Inr f"
    using assms(1) by (auto simp: hosted_segment_def res_simps)
  have ff: "f = ?f" using f by (simp add: unpack_from_def split: if_splits)
  have nn: "0 \<le> f ! 2" "0 \<le> f ! 5" unfolding ff by (simp_all add: unpack_le_bounds)
  show ?thesis
  proof (cases "f ! 0 = PT_LOAD")
    case False
    with assms(1) f that(1) show ?thesis by (simp add: hosted_segment_def Let_def)
  next
    case True
    define s where "s = \<lparr>ls_address = f ! 3, ls_data = py_slice content (f ! 2) (f ! 2 + f ! 5), ls_memory_size = f ! 6,
        ls_flags = f ! 1, ls_alignment = f ! 7\<rparr>"
    have g: "f ! 1 AND NOT 7 = 0" "f ! 5 \<le> f ! 6" "\<not> outside content (f ! 2) (f ! 5)" "0 \<le> f ! 3" "f ! 3 + f ! 6 \<le> mb"
      "\<not> list_ex (\<lambda>t. f ! 3 < ls_end t \<and> ls_address t < f ! 3 + f ! 6) loaded" "loaded' = loaded @ [s]"
      using assms(1) True f by (auto simp: hosted_segment_def Let_def res_simps accepts s_def simp del: list_ex_iff)
    have len: "int (length (ls_data s)) = f ! 5"
      using nn g(3) by (simp add: s_def outside_def length_py_slice)
    have "hosted_segment_ok content mb s"
      using g len nn by (auto simp: hosted_segment_ok_def s_def ls_end_def outside_def intro!: exI [of _ "f ! 2"])
    moreover have "\<forall>t \<in> set loaded. apart t s"
      using g(6) by (auto simp: apart_def s_def ls_end_def list_ex_iff)
    ultimately show ?thesis using that(2) [OF f True s_def g(7)] by blast
  qed
qed

definition segments_ok :: "byte list \<Rightarrow> int \<Rightarrow> load_segment_rec list \<Rightarrow> bool" where
  "segments_ok content mb segs \<longleftrightarrow> (\<forall>s \<in> set segs. hosted_segment_ok content mb s) \<and> sorted_wrt apart segs"

lemma hosted_segments_ok:
  assumes "rfold (hosted_segment content phoff mb) is' [] = Inr segs" and "0 \<le> phoff"
  shows "segments_ok content mb segs"
proof (rule rfold_invariant [OF assms(1)])
  show "segments_ok content mb []" by (simp add: segments_ok_def)
next
  fix i loaded loaded'
  assume "segments_ok content mb loaded" and "hosted_segment content phoff mb i loaded = Inr loaded'"
  then show "segments_ok content mb loaded'"
    by (elim hosted_segment_cases [OF _ assms(2)]) (auto simp: segments_ok_def sorted_wrt_append)
qed

lemma apart_one_holder:
  "sorted_wrt apart segs \<Longrightarrow> length (filter (ls_holds a) segs) \<le> 1"
proof (induction segs)
  case (Cons s segs)
  have "filter (ls_holds a) segs = []" if "ls_holds a s"
    using Cons.prems that by (fastforce simp: filter_empty_conv ls_holds_def apart_def)
  with Cons show ?case by simp
qed simp

lemma parse_elf_Inr:
  assumes "parse_elf json_loads sha content mb ident = Inr h"
  obtains segs where "256 \<le> mb" and "mb \<le> MAX_HOSTED_MEMORY_BYTES" and "check_hosted_header content = Inr ()"
    and "rfold (hosted_segment content (eh_phoff (header_record content)) mb) [0..<nat (eh_phnum (header_record content))] [] = Inr segs"
    and "segs \<noteq> []" and "executable_at segs (eh_entry (header_record content))" and "hi_entry h = eh_entry (header_record content)"
    and "hi_segments h = sort_key ls_address segs" and "hi_sha256 h = sha content"
    and "ident \<Longrightarrow> \<exists>n. hi_pto_isa_note h = Some n \<and> parse_pto_isa_note json_loads sha content = Inr n"
  using assms by (auto simp: parse_elf_def Let_def res_simps accepts split: if_splits)

lemma header_nonneg: "0 \<le> eh_phoff (header_record content)"
  by (simp add: header_record_def Let_def unpack_le_bounds HEADER_FIELDS_def)

section \<open>Agreement with the runtime loader\<close>

definition same_segment :: "load_segment_rec \<Rightarrow> program_segment \<Rightarrow> bool" where
  "same_segment s t \<longleftrightarrow> ls_address s = ps_address t \<and> ls_data s = ps_data t \<and> ls_memory_size s = ps_memory_size t \<and>
     segment_permissions (ls_flags s) = ps_permissions t"

lemma header_agrees:
  assumes "hosted_segment content phoff mb i loaded = Inr loaded'" and "0 \<le> phoff"
    and "load_segment content phoff 56 i = Inr seg"
  shows "(seg = None \<and> loaded' = loaded) \<or> (\<exists>s t. seg = Some t \<and> loaded' = loaded @ [s] \<and> same_segment s t)"
  using assms(1,2)
proof (cases rule: hosted_segment_cases)
  case (1 f)
  with assms(3) show ?thesis by (auto simp: load_segment_def Let_def split: if_splits)
next
  case (2 f s)
  from assms(3) 2 obtain t where t: "seg = Some t"
    "ProgramSegment (f ! 3) (py_slice content (f ! 2) (f ! 2 + f ! 5)) (f ! 6) (segment_permissions (f ! 1))
       (if f ! 7 = 0 then 1 else f ! 7) (''PT_LOAD['' @ py_dec (int i) @ '']'') = Inr t"
    by (auto simp: load_segment_def Let_def res_simps split: if_splits)
  from ProgramSegment_segment_ok(2) [OF t(2)] 2 t(1) show ?thesis by (auto simp: same_segment_def)
qed

lemma some_values_Cons [simp]: "some_values (None # xs) = some_values xs" "some_values (Some x # xs) = x # some_values xs"
  by (simp_all add: some_values_def)

lemma some_values_Nil [simp]: "some_values [] = []"
  by (simp add: some_values_def)

lemma headers_agree:
  assumes "rfold (hosted_segment content phoff mb) is' loaded = Inr segs" and "0 \<le> phoff"
    and "rmap (load_segment content phoff 56) is' = Inr os"
  shows "\<exists>new. segs = loaded @ new \<and> list_all2 same_segment new (some_values os)"
  using assms
proof (induction is' arbitrary: loaded os)
  case (Cons i is')
  from Cons.prems obtain mid seg os' where mid: "hosted_segment content phoff mb i loaded = Inr mid"
    "rfold (hosted_segment content phoff mb) is' mid = Inr segs" and seg: "load_segment content phoff 56 i = Inr seg"
    "rmap (load_segment content phoff 56) is' = Inr os'" "os = seg # os'" by (auto simp: res_simps)
  from Cons.IH [OF mid(2) assms(2) seg(2)] obtain new where new: "segs = mid @ new" "list_all2 same_segment new (some_values os')"
    by blast
  from header_agrees [OF mid(1) assms(2) seg(1)] new seg(3) show ?case by auto
qed simp

lemma insort_related:
  assumes "list_all2 R xs ys" and "R x y" and "\<And>x y. R x y \<Longrightarrow> f x = g y"
  shows "list_all2 R (insort_key f x xs) (insort_key g y ys)"
  using assms(1) by (induction rule: list_all2_induct) (auto simp: assms(2) assms(3) [OF assms(2)] assms(3))

lemma sort_related:
  assumes "list_all2 R xs ys" and "\<And>x y. R x y \<Longrightarrow> f x = g y"
  shows "list_all2 R (sort_key f xs) (sort_key g ys)"
  using assms(1) by (induction rule: list_all2_induct) (auto simp: sort_key_def intro: insort_related assms(2))

section \<open>The accepted note\<close>

definition release_note_json :: pyval where
  "release_note_json = PDict
     [(''encoding_abi'', PStr ENCODING_ABI), (''encoding_projection_sha256'', PStr ENCODING_PROJECTION_SHA256),
      (''release'', PStr RELEASE)]"

text \<open>The descriptor of the release: compact JSON with sorted keys.\<close>

definition release_descriptor :: "byte list" where
  "release_descriptor = text_bytes (json_dumps release_note_json)"

lemma py_eq_text: "py_eq v (PStr t) \<longleftrightarrow> v = PStr t"
  by (cases v) auto

lemma note_identity_Inr:
  assumes "note_identity row = Inr ()"
  shows "fld row ''release'' = PStr RELEASE" and "fld row ''encoding_abi'' = PStr ENCODING_ABI"
    and "fld row ''encoding_projection_sha256'' = PStr ENCODING_PROJECTION_SHA256"
proof -
  obtain r where "validate_identity (PDict
             [(''release'', fld row ''release''), (''publication_version'', PStr PUBLICATION_VERSION),
              (''encoding_abi'', fld row ''encoding_abi''),
              (''encoding_projection_sha256'', fld row ''encoding_projection_sha256'')]) = Inr r"
    using assms by (auto simp: note_identity_def split: sum.splits py_error.splits)
  then show "fld row ''release'' = PStr RELEASE" "fld row ''encoding_abi'' = PStr ENCODING_ABI"
    "fld row ''encoding_projection_sha256'' = PStr ENCODING_PROJECTION_SHA256"
    by (auto simp: validate_identity_def release_identity_def res_simps accepts py_eq_text)
qed

text \<open>\<open>json.loads\<close> builds dictionaries, which do not repeat a key.\<close>

definition loads_dicts :: "(byte list \<Rightarrow> pyval option) \<Rightarrow> bool" where
  "loads_dicts json_loads \<longleftrightarrow> (\<forall>bs d. json_loads bs = Some (PDict d) \<longrightarrow> distinct (map fst d))"

lemma note_of_descriptor_Inr:
  assumes "note_of_descriptor json_loads sha d = Inr n" and "loads_dicts json_loads"
  shows "d = release_descriptor \<and>
    n = \<lparr>pn_release = RELEASE, pn_encoding_abi = ENCODING_ABI, pn_encoding_projection_sha256 = ENCODING_PROJECTION_SHA256,
         pn_descriptor_sha256 = sha d\<rparr>"
proof -
  obtain row where row: "json_loads d = Some (PDict row)" "canonical_json_bytes (PDict row) = Inr d"
    "note_identity row = Inr ()" "set (map fst row) = set note_fields"
    and n: "n = \<lparr>pn_release = text_of (fld row ''release''), pn_encoding_abi = text_of (fld row ''encoding_abi''),
                 pn_encoding_projection_sha256 = text_of (fld row ''encoding_projection_sha256''), pn_descriptor_sha256 = sha d\<rparr>"
    using assms(1) by (auto simp: note_of_descriptor_def res_simps accepts split: option.splits pyval.splits if_splits)
  note f = note_identity_Inr [OF row(3)]
  define items where "items = [(''encoding_abi'', PStr ENCODING_ABI),
      (''encoding_projection_sha256'', PStr ENCODING_PROJECTION_SHA256), (''release'', PStr RELEASE)]"
  have keys: "set (map fst row) = set (map fst items)"
    unfolding row(4) by (auto simp: note_fields_def items_def)
  have dist: "distinct (map fst row)" using row(1) assms(2) by (auto simp: loads_dicts_def)
  have "row_like (PDict row) items"
    using keys f by (auto simp: row_like_def has_fields_def items_def)
  moreover have "keys_distinct_items row"
  proof -
    have "x \<in> {PStr ENCODING_ABI, PStr ENCODING_PROJECTION_SHA256, PStr RELEASE}" if "(k, x) \<in> set row" for k x
    proof -
      have "k \<in> set note_fields" using that row(4) by force
      moreover have "fld row k = x" using that dist by (simp add: fld_def dict_get_def)
      ultimately show ?thesis using f by (auto simp: note_fields_def)
    qed
    then show ?thesis by (fastforce simp: keys_distinct_items_iff)
  qed
  ultimately have "json_dumps (PDict row) = json_dumps (PDict items)"
    using dist by (intro row_like_json) (auto simp: items_def)
  then have "d = release_descriptor"
    using row(2) by (auto simp: canonical_json_bytes_def canonical_json_eq release_descriptor_def
        release_note_json_def items_def res_simps split: if_splits)
  then show ?thesis using n f by (simp add: text_of_def)
qed

lemma slice_inside: "0 \<le> a \<Longrightarrow> 0 \<le> n \<Longrightarrow> \<exists>pre suf. xs = pre @ py_slice xs a (a + n) @ suf"
proof -
  assume "0 \<le> a" "0 \<le> n"
  then have "xs = take (nat a) xs @ py_slice xs a (a + n) @ drop (nat n) (drop (nat a) xs)"
    by (simp add: py_slice_nonneg nat_add_distrib del: drop_drop)
  then show ?thesis by blast
qed

lemma note_descriptor_Inr:
  assumes "note_descriptor d = Inr desc"
  shows "\<exists>pre suf. d = pre @ desc @ suf"
proof -
  let ?n = "unpack_le [4, 4, 4] d ! 1"
  have "desc = py_slice d 16 (16 + ?n)"
    using assms by (auto simp: note_descriptor_def Let_def res_simps accepts split: if_splits)
  moreover have "0 \<le> ?n" using unpack_le_bounds [of 1 "[4, 4, 4]" d] by simp
  ultimately show ?thesis using slice_inside [of 16 ?n d] by simp
qed

lemma note_section_Inr:
  assumes "note_section content sec = Inr d" and "0 \<le> sec ! 4" and "0 \<le> sec ! 5"
  shows "\<exists>pre suf. content = pre @ d @ suf"
proof -
  have "d = py_slice content (sec ! 4) (sec ! 4 + sec ! 5)"
    using assms(1) by (auto simp: note_section_def res_simps accepts)
  then show ?thesis using slice_inside [OF assms(2,3)] by simp
qed

lemma case_singleton: "(case xs of [x] \<Rightarrow> Inr x | _ \<Rightarrow> Inl e) = Inr t \<longleftrightarrow> xs = [t]"
  by (cases xs; cases "tl xs") auto

lemma find_note_in: "find_note strings sections = Inr sec \<Longrightarrow> sec \<in> set sections"
proof -
  assume a: "find_note strings sections = Inr sec"
  then obtain names x where "filter (\<lambda>(nm, s). nm = note_section_name) (zip names sections) = [(x, sec)]"
    by (auto simp: find_note_def res_simps case_singleton)
  then have "(x, sec) \<in> set (filter (\<lambda>(nm, s). nm = note_section_name) (zip names sections))" by simp
  then show ?thesis by (auto dest: set_zip_rightD)
qed

lemma read_headers_nonneg:
  "read_headers content shoff n = Inr sections \<Longrightarrow> sec \<in> set sections \<Longrightarrow> j < 10 \<Longrightarrow> 0 \<le> sec ! j"
proof -
  assume a: "read_headers content shoff n = Inr sections" "sec \<in> set sections" "j < 10"
  then obtain o' where "unpack_from SECTION_HEADER content o' = Inr sec"
    by (auto simp: read_headers_def rmap_Inr_iff list_all2_conv_all_nth in_set_conv_nth)
  then have "sec = unpack_le SECTION_HEADER (drop (nat o') content)" by (simp add: unpack_from_def split: if_splits)
  then show ?thesis using a(3) unpack_le_bounds [of j SECTION_HEADER "drop (nat o') content"]
    by (simp add: SECTION_HEADER_def del: unpack_le.simps)
qed

lemma parse_elf_segments:
  assumes "parse_elf json_loads sha content mb ident = Inr h"
  shows "\<forall>s \<in> set (hi_segments h). hosted_segment_ok content mb s" and "length (filter (ls_holds a) (hi_segments h)) \<le> 1"
    and "sorted (map ls_address (hi_segments h))"
proof -
  from parse_elf_Inr [OF assms] obtain segs where
    segs: "rfold (hosted_segment content (eh_phoff (header_record content)) mb) [0..<nat (eh_phnum (header_record content))] [] = Inr segs"
    and h: "hi_segments h = sort_key ls_address segs" by metis
  have ok: "segments_ok content mb segs" by (rule hosted_segments_ok [OF segs header_nonneg])
  show "\<forall>s \<in> set (hi_segments h). hosted_segment_ok content mb s" using ok h by (simp add: segments_ok_def)
  show "length (filter (ls_holds a) (hi_segments h)) \<le> 1"
    using apart_one_holder [of segs a] ok by (simp add: segments_ok_def h filter_sort)
  show "sorted (map ls_address (hi_segments h))" by (simp add: h)
qed

section \<open>Theorems\<close>

text \<open>
  An image that the hosted ELF reader accepts fits the model memory: every segment lies between
  0 and the memory bound, its data is a slice of the file no longer than the segment, no address
  lies in two segments, the segments are sorted, and the entry point is in an executable segment.
\<close>

theorem hosted_elf_sound:
  assumes "parse_elf json_loads sha content mb ident = Inr h"
  shows "256 \<le> mb \<and> mb \<le> MAX_HOSTED_MEMORY_BYTES \<and> hi_segments h \<noteq> [] \<and>
    (\<forall>s \<in> set (hi_segments h). hosted_segment_ok content mb s) \<and>
    (\<forall>a. length (filter (ls_holds a) (hi_segments h)) \<le> 1) \<and>
    sorted (map ls_address (hi_segments h)) \<and> executable_at (hi_segments h) (hi_entry h)"
proof -
  from parse_elf_Inr [OF assms] obtain segs where mb: "256 \<le> mb" "mb \<le> MAX_HOSTED_MEMORY_BYTES"
    and segs: "rfold (hosted_segment content (eh_phoff (header_record content)) mb) [0..<nat (eh_phnum (header_record content))] [] = Inr segs"
      "segs \<noteq> []" "executable_at segs (eh_entry (header_record content))"
    and h: "hi_entry h = eh_entry (header_record content)" "hi_segments h = sort_key ls_address segs" by metis
  have "executable_at (sort_key ls_address segs) pc = executable_at segs pc" for pc
    by (simp add: executable_at_def list_ex_iff)
  then show ?thesis using mb segs h parse_elf_segments [OF assms] by (auto dest: arg_cong [of _ _ length])
qed

text \<open>
  C33: The two ELF readers of the repository agree. A file that both the hosted reader and the
  runtime loader (at the file's own addresses) accept has the same entry point in both, and the
  same segments in address order: same addresses, bytes, memory sizes and permissions.
\<close>

theorem elf_readers_agree:
  assumes "parse_elf json_loads sha content mb ident = Inr h"
    and "el_path rq = Some path" and "rd path = Inr content" and "el_requested_base rq = None" and "elf_load rd rq = Inr i"
  shows "hi_entry h = pi_entry_point i \<and>
    list_all2 same_segment (hi_segments h) (sort_key ps_address (pi_segments i))"
proof -
  from parse_elf_Inr [OF assms(1)] obtain segs where
    segs: "rfold (hosted_segment content (eh_phoff (header_record content)) mb) [0..<nat (eh_phnum (header_record content))] [] = Inr segs"
    and h: "hi_entry h = eh_entry (header_record content)" "hi_segments h = sort_key ls_address segs" by metis
  from elf_load_Inr [OF assms(5)] assms(2-4) obtain ss where
    ss: "rmap (load_segment content (eh_phoff (header_record content)) 56) [0..<nat (eh_phnum (header_record content))] = Inr ss"
    and i: "elf_image content path (header_record content) None (some_values ss) = Inr i" by (metis option.inject sum.inject(2))
  have ok: "\<forall>s \<in> set (some_values ss). segment_ok s"
    using loaded_segments_ok [OF ss] load_segment_Some(1) by blast
  have img: "pi_segments i = some_values ss" "pi_entry_point i = eh_entry (header_record content)"
    using elf_image_Inr(2,3) [OF i ok] by (simp_all add: load_delta_def)
  from headers_agree [OF segs header_nonneg ss] have "list_all2 same_segment segs (some_values ss)" by simp
  then have "list_all2 same_segment (sort_key ls_address segs) (sort_key ps_address (some_values ss))"
    by (rule sort_related) (simp add: same_segment_def)
  with h img show ?thesis by simp
qed

text \<open>
  C35: An accepted compatibility note is the note of the release. Whatever the file, if its note is
  accepted then the file contains, byte for byte, the canonical descriptor of the release, and the
  note returned holds the release, the encoding ABI and the projection digest of the development's
  constants, with the digest of that descriptor.
\<close>

theorem pto_note_is_release:
  assumes "parse_pto_isa_note json_loads sha content = Inr n" and "loads_dicts json_loads"
  shows "n = \<lparr>pn_release = RELEASE, pn_encoding_abi = ENCODING_ABI,
      pn_encoding_projection_sha256 = ENCODING_PROJECTION_SHA256, pn_descriptor_sha256 = sha release_descriptor\<rparr> \<and>
    (\<exists>pre suf. content = pre @ release_descriptor @ suf)"
proof -
  obtain sections strings sec d desc where
    h: "read_headers content (eh_shoff (header_record content)) (nat (eh_shnum (header_record content))) = Inr sections"
    and s: "find_note strings sections = Inr sec" "note_section content sec = Inr d" "note_descriptor d = Inr desc"
    "note_of_descriptor json_loads sha desc = Inr n"
    using assms(1) by (auto simp: parse_pto_isa_note_def Let_def res_simps accepts split: if_splits)
  note n = note_of_descriptor_Inr [OF s(4) assms(2)]
  have "0 \<le> sec ! 4" "0 \<le> sec ! 5" using read_headers_nonneg [OF h find_note_in [OF s(1)]] by simp_all
  from note_section_Inr [OF s(2) this] note_descriptor_Inr [OF s(3)] obtain a b p q where
    "content = a @ d @ b" "d = p @ desc @ q" by blast
  then have "content = (a @ p) @ release_descriptor @ (q @ b)" using n by simp
  with n show ?thesis by blast
qed

subsection \<open>Witnesses\<close>

lemma demo_hosted: "\<not> isl (parse_elf (\<lambda>_. None) (\<lambda>_. []) demo_elf 256 False)"
  by code_simp

theorem hosted_elf_sound_witness:
  "\<exists>h. parse_elf (\<lambda>_. None) (\<lambda>_. []) demo_elf 256 False = Inr h \<and> executable_at (hi_segments h) (hi_entry h)"
proof -
  obtain h where h: "parse_elf (\<lambda>_. None) (\<lambda>_. []) demo_elf 256 False = Inr h" using demo_hosted sum.collapse(2) by metis
  from hosted_elf_sound [OF h] h show ?thesis by blast
qed

theorem elf_readers_agree_witness:
  "\<exists>h i. parse_elf (\<lambda>_. None) (\<lambda>_. []) demo_elf 256 False = Inr h \<and>
     elf_load (\<lambda>_. Inr demo_elf) demo_elf_request = Inr i \<and> hi_entry h = pi_entry_point i"
proof -
  obtain h where h: "parse_elf (\<lambda>_. None) (\<lambda>_. []) demo_elf 256 False = Inr h" using demo_hosted sum.collapse(2) by metis
  obtain i where i: "elf_load (\<lambda>_. Inr demo_elf) demo_elf_request = Inr i" using demo_elf_result by metis
  have "el_path demo_elf_request = Some ''a.elf''" "el_requested_base demo_elf_request = None"
    by (simp_all add: demo_elf_request_def)
  from elf_readers_agree [OF h this(1) _ this(2) i] h i show ?thesis by blast
qed

text \<open>The descriptor as bytes, evaluated once.\<close>

lemma release_descriptor_bytes [code]:
  "release_descriptor = [
      123, 34, 101, 110, 99, 111, 100, 105, 110, 103, 95, 97, 98, 105, 34, 58, 34, 112, 116, 111, 45, 105, 115, 97, 45, 48, 46, 53,
      56, 46, 55, 45, 109, 111, 100, 101, 45, 102, 117, 110, 99, 116, 105, 111, 110, 45, 118, 49, 34, 44, 34, 101, 110, 99, 111, 100,
      105, 110, 103, 95, 112, 114, 111, 106, 101, 99, 116, 105, 111, 110, 95, 115, 104, 97, 50, 53, 54, 34, 58, 34, 57, 99, 52, 57,
      99, 100, 102, 97, 55, 57, 97, 52, 101, 100, 97, 54, 98, 50, 55, 99, 49, 53, 52, 56, 98, 102, 100, 48, 54, 101, 102, 54,
      56, 49, 98, 54, 49, 56, 57, 102, 55, 100, 48, 50, 100, 52, 54, 54, 100, 100, 102, 100, 52, 51, 102, 53, 57, 57, 57, 51,
      98, 57, 51, 100, 34, 44, 34, 114, 101, 108, 101, 97, 115, 101, 34, 58, 34, 48, 46, 53, 56, 46, 55, 34, 125]"
  by code_simp

text \<open>A file with a string table and the note section, and a decoder that knows the descriptor.\<close>

definition demo_section :: "int list \<Rightarrow> byte list" where
  "demo_section f = pack_le SECTION_HEADER f"

definition demo_note_record :: "byte list" where
  "demo_note_record = pack_le [4, 4, 4] [4, int (length release_descriptor), 1] @ PTO_NOTE_OWNER @ release_descriptor
     @ replicate ((4 - length release_descriptor mod 4) mod 4) 0"

definition demo_note_file :: "byte list" where
  "demo_note_file =
     [0x7F, 0x45, 0x4C, 0x46, 2, 1, 1] @ replicate 9 0 @ pack_le HEADER_FIELDS [2, 233, 1, 0, 0, 64, 0, 64, 56, 0, 64, 2, 0]
     @ demo_section [0, 3, 0, 0, 192, 16, 0, 0, 1, 0]
     @ demo_section [1, 7, 2, 0, 208, int (length demo_note_record), 0, 0, 4, 0]
     @ (0 # text_bytes note_section_name @ [0, 0]) @ demo_note_record"

definition demo_loads :: "byte list \<Rightarrow> pyval option" where
  "demo_loads bs = (if bs = release_descriptor then Some release_note_json else None)"

lemma demo_note_accepted: "\<not> isl (parse_pto_isa_note demo_loads (\<lambda>_. []) demo_note_file)"
  by code_simp

theorem pto_note_is_release_witness:
  "\<exists>n. parse_pto_isa_note demo_loads (\<lambda>_. []) demo_note_file = Inr n \<and> pn_release n = RELEASE \<and>
     (\<exists>pre suf. demo_note_file = pre @ release_descriptor @ suf)"
proof -
  obtain n where n: "parse_pto_isa_note demo_loads (\<lambda>_. []) demo_note_file = Inr n"
    using demo_note_accepted sum.collapse(2) by metis
  have "loads_dicts demo_loads" by (auto simp: loads_dicts_def demo_loads_def release_note_json_def)
  from pto_note_is_release [OF n this] n show ?thesis by auto
qed

end
