(* ===== verification/Hosted_Run.thy ===== *)
theory Hosted_Run
  imports Hosted_Elf
begin

text \<open>
  A hosted run of \<open>pto_asl_model/runner.py\<close>: the sidecar document and its validation against the
  ELF image, the model lock and the checkout identity, the checks and the memory initialisation of
  the generated harness, the markers in the output of ASLRef and the verdict of the run.

  Files, \<open>git\<close> queries, SHA-256, \<open>json.loads\<close> and the ASLRef process are parameters; the process
  is its exit code and its output. The text of the harness other than its memory writes, the
  command lines and the wall-clock times are not modelled; the native runner is built in \<open>Runner_Build\<close>.
\<close>

section \<open>Configuration\<close>

record run_configuration =
  rc_elf_name :: string
  rc_stop_pc :: "int option"
  rc_max_steps :: int
  rc_result_address :: int
  rc_result_size :: int
  rc_memory_bytes :: int
  rc_tile_elements :: int
  rc_runtime_typecheck :: string
  rc_stop_after_hits :: int
  rc_start_pc :: int
  rc_start_acr :: int
  rc_return_pc :: int
  rc_stack_top :: int
  rc_memory_backend :: string
  rc_host_request_number :: "int option"
  rc_host_request_argument0 :: "int option"
  rc_service_request_type :: "int option"

section \<open>The model lock and the checkout\<close>

definition lock_release :: "(string \<times> string) list" where
  "lock_release = [(''architecture_version'', RELEASE), (''publication_version'', PUBLICATION_VERSION),
     (''encoding_abi'', ENCODING_ABI), (''encoding_projection_sha256'', ENCODING_PROJECTION_SHA256)]"

text \<open>\<open>_load_lock\<close> for the parsed document, an object; \<open>None\<close> when no lock was given.\<close>

definition load_lock :: "(string, pyval) dict option \<Rightarrow> (string, pyval) dict res" where
  "load_lock doc =
     (case doc of
        None \<Rightarrow> Inl (ValueError ''an exact model lock is required'')
      | Some row \<Rightarrow>
          rbind (guard (fld row ''schema'' = PStr ''pto-asl-model-lock-v1'') ''model lock schema mismatch'') (\<lambda>_.
          rbind (rmap (\<lambda>(field, expected). guard (fld row field = PStr expected) ''model lock field mismatch'') lock_release) (\<lambda>_.
            Inr row)))"

record checkout =
  co_pto_commit :: string
  co_pto_tree :: string
  co_pto_origin :: string
  co_aslref_commit :: string
  co_aslref_origin :: string
  co_aslref_pin :: string

definition verify_identity :: "checkout \<Rightarrow> (string, pyval) dict \<Rightarrow> unit res" where
  "verify_identity co lock =
     rbind (canonical_repository_url (co_pto_origin co)) (\<lambda>pto_repository.
     rbind (canonical_repository_url (co_aslref_origin co)) (\<lambda>aslref_repository.
     rbind (rmap (\<lambda>(field, actual). guard (fld lock field = PStr actual) ''model identity mismatch'')
              [(''pto_commit'', co_pto_commit co), (''pto_tree'', co_pto_tree co), (''pto_repository'', pto_repository),
               (''aslref_commit'', co_aslref_commit co), (''aslref_repository'', aslref_repository)]) (\<lambda>_.
     guard (fld lock ''aslref_commit'' = PStr (py_strip (co_aslref_pin co))) ''PTO ASLRef pin does not match model lock'')))"

section \<open>The sidecar\<close>

definition natural :: "bool \<Rightarrow> pyval \<Rightarrow> int res" where
  "natural positive v =
     (case v of
        PInt i \<Rightarrow> if i < 0 then Inl (ValueError ''must be a non-negative integer'')
                  else if positive \<and> i = 0 then Inl (ValueError ''must be positive'') else Inr i
      | _ \<Rightarrow> Inl (ValueError ''must be a non-negative integer''))"

definition SIDECAR_SCHEMA :: string where "SIDECAR_SCHEMA = ''pto-asl-elf-sidecar-v1''"

definition host_request_fields :: "pyval \<Rightarrow> (int option \<times> int option \<times> int option) res" where
  "host_request_fields v =
     (if v = PNone then Inr (None, None, None)
      else
        rbind (c_object v) (\<lambda>rq.
        rbind (natural False (fld rq ''number'')) (\<lambda>n.
        rbind (natural False (fld rq ''argument0'')) (\<lambda>a.
        rbind (natural False (fld rq ''service_request_type'')) (\<lambda>t. Inr (Some n, Some a, Some t))))))"

text \<open>\<open>_load_sidecar\<close> for a parsed document: the configuration it selects.\<close>

definition load_sidecar :: "run_configuration \<Rightarrow> pyval \<Rightarrow> run_configuration res" where
  "load_sidecar c v =
     rbind (c_object v) (\<lambda>doc.
     rbind (guard (fld doc ''schema'' = PStr SIDECAR_SCHEMA) ''sidecar schema mismatch'') (\<lambda>_.
     rbind (c_object (fld doc ''model'')) (\<lambda>model.
     rbind (c_object (fld doc ''execution'')) (\<lambda>execution.
     rbind (c_object (fld doc ''start'')) (\<lambda>start.
     rbind (c_object (fld doc ''result'')) (\<lambda>result.
     rbind (if fld execution ''host_request'' = PNone then Inr () else rbind (c_object (fld execution ''host_request'')) (\<lambda>_. Inr ())) (\<lambda>_.
     rbind (natural True (fld model ''memory_bytes'')) (\<lambda>memory_bytes.
     rbind (natural True (fld model ''tile_elements'')) (\<lambda>tile_elements.
     rbind (c_text (dict_get model ''runtime_typecheck'' (PStr ''minimal''))) (\<lambda>typecheck.
     rbind (natural False (fld execution ''stop_pc'')) (\<lambda>stop_pc.
     rbind (natural True (fld execution ''stop_after_hits'')) (\<lambda>hits.
     rbind (natural True (fld execution ''max_steps'')) (\<lambda>max_steps.
     rbind (natural False (fld execution ''stack_top'')) (\<lambda>stack_top.
     rbind (natural False (fld start ''pc'')) (\<lambda>start_pc.
     rbind (natural False (dict_get start ''acr'' (PInt 0))) (\<lambda>start_acr.
     rbind (natural False (fld start ''return_pc'')) (\<lambda>return_pc.
     rbind (natural False (fld result ''address'')) (\<lambda>address.
     rbind (natural True (fld result ''size'')) (\<lambda>sz.
     rbind (host_request_fields (fld execution ''host_request'')) (\<lambda>(number, argument0, service).
       Inr (c\<lparr>rc_memory_bytes := memory_bytes, rc_tile_elements := tile_elements, rc_runtime_typecheck := typecheck,
              rc_stop_pc := Some stop_pc, rc_stop_after_hits := hits, rc_max_steps := max_steps, rc_stack_top := stack_top,
              rc_start_pc := start_pc, rc_start_acr := start_acr, rc_return_pc := return_pc, rc_result_address := address,
              rc_result_size := sz, rc_host_request_number := number, rc_host_request_argument0 := argument0,
              rc_service_request_type := service\<rparr>)))))))))))))))))))))"

definition unique_symbol :: "hosted_image \<Rightarrow> string \<Rightarrow> hosted_symbol res" where
  "unique_symbol img nm =
     (case filter (\<lambda>s. sy_name s = nm) (hi_symbols img) of
        [s] \<Rightarrow> Inr s
      | _ \<Rightarrow> Inl (ValueError ''ELF must contain exactly one such symbol''))"

definition segment_record :: "load_segment_rec \<Rightarrow> pyval" where
  "segment_record s = PDict [(''address'', PInt (ls_address s)), (''filesz'', PInt (int (length (ls_data s)))),
     (''memsz'', PInt (ls_memory_size s)), (''flags'', PInt (ls_flags s))]"

definition PROGRAM_FLAG_WRITE :: int where "PROGRAM_FLAG_WRITE = 2"
definition SECTION_INDEX_ABSOLUTE :: int where "SECTION_INDEX_ABSOLUTE = 0xFFF1"

text \<open>\<open>pathlib.Path(p).name\<close>: the last component.\<close>

definition path_name :: "string \<Rightarrow> string" where
  "path_name p = (let parts = path_parts p in if parts = [] then [] else last parts)"

definition sidecar_elf :: "run_configuration \<Rightarrow> hosted_image \<Rightarrow> pyval \<Rightarrow> unit res" where
  "sidecar_elf c img v =
     rbind (c_object v) (\<lambda>elf.
     rbind (c_text (fld elf ''path'')) (\<lambda>p.
     rbind (guard (path_name p = rc_elf_name c) ''sidecar ELF path does not match the selected ELF'') (\<lambda>_.
     rbind (c_text (fld elf ''sha256'')) (\<lambda>d.
     rbind (guard (d = hi_sha256 img) ''sidecar ELF hash mismatch'') (\<lambda>_.
     rbind (natural False (fld elf ''machine'')) (\<lambda>m.
     rbind (guard (m = PTO_ELF_MACHINE) ''sidecar ELF machine mismatch'') (\<lambda>_.
     rbind (natural False (fld elf ''entry'')) (\<lambda>e.
     rbind (guard (e = hi_entry img) ''sidecar ELF entry mismatch'') (\<lambda>_.
     guard (py_eq (fld elf ''segments'') (PList (map segment_record (hi_segments img))))
       ''sidecar PT_LOAD records mismatch'')))))))))"

definition sidecar_symbol :: "hosted_image \<Rightarrow> pyval \<Rightarrow> int \<Rightarrow> unit res" where
  "sidecar_symbol img nm address =
     rbind (c_text nm) (\<lambda>t. rbind (unique_symbol img t) (\<lambda>s. guard (sy_value s = address) ''sidecar symbol mismatch''))"

definition writable_result :: "run_configuration \<Rightarrow> hosted_image \<Rightarrow> bool" where
  "writable_result c img =
     list_ex (\<lambda>s. ls_address s \<le> rc_result_address c \<and> rc_result_address c + rc_result_size c \<le> ls_end s \<and>
                  ls_flags s AND PROGRAM_FLAG_WRITE \<noteq> 0) (hi_segments img)"

definition sidecar_result :: "run_configuration \<Rightarrow> hosted_image \<Rightarrow> (string, pyval) dict \<Rightarrow> unit res" where
  "sidecar_result c img result =
     rbind (c_text (fld result ''symbol'')) (\<lambda>nm.
     rbind (c_text (fld result ''size_symbol'')) (\<lambda>size_nm.
     rbind (unique_symbol img nm) (\<lambda>s.
     rbind (unique_symbol img size_nm) (\<lambda>z.
     rbind (guard (sy_value s = rc_result_address c \<and> sy_size s = rc_result_size c) ''sidecar result symbol mismatch'') (\<lambda>_.
     rbind (guard (sy_section_index z = SECTION_INDEX_ABSOLUTE \<and> sy_value z = rc_result_size c)
              ''sidecar result-size symbol mismatch'') (\<lambda>_.
     guard (writable_result c img) ''sidecar result range is not in one writable PT_LOAD''))))))"

definition sidecar_golden ::
  "(string \<Rightarrow> byte list res) \<Rightarrow> (byte list \<Rightarrow> string) \<Rightarrow> run_configuration \<Rightarrow> pyval \<Rightarrow> unit res" where
  "sidecar_golden read_beside sha c v =
     rbind (c_object v) (\<lambda>golden.
     rbind (c_text (fld golden ''path'')) (\<lambda>p.
     rbind (read_beside p) (\<lambda>content.
     rbind (guard (int (length content) = rc_result_size c) ''golden result size mismatch'') (\<lambda>_.
     rbind (c_text (fld golden ''sha256'')) (\<lambda>d.
     guard (sha content = d) ''golden result hash mismatch'')))))"

definition validate_sidecar ::
  "(string \<Rightarrow> byte list res) \<Rightarrow> (byte list \<Rightarrow> string) \<Rightarrow> run_configuration \<Rightarrow> hosted_image \<Rightarrow> (string, pyval) dict \<Rightarrow>
   (string, pyval) dict \<Rightarrow> unit res" where
  "validate_sidecar read_beside sha c img lock doc =
     rbind (sidecar_elf c img (fld doc ''elf'')) (\<lambda>_.
     rbind (c_object (fld doc ''identity'')) (\<lambda>identity.
     rbind (guard (py_eq (fld identity ''pto_commit'') (fld lock ''pto_commit'')) ''sidecar PTO identity mismatch'') (\<lambda>_.
     rbind (c_object (fld doc ''model'')) (\<lambda>model.
     rbind (guard (fld model ''profile'' = PStr ''bounded-reference-v1'' \<and> py_eq (fld model ''pe_count'') (PInt 1))
              ''unsupported sidecar model profile or PE count'') (\<lambda>_.
     rbind (c_object (fld doc ''start'')) (\<lambda>start.
     rbind (c_text (fld start ''symbol'')) (\<lambda>_.
     rbind (c_text (fld start ''return_symbol'')) (\<lambda>_.
     rbind (sidecar_symbol img (fld start ''symbol'') (rc_start_pc c)) (\<lambda>_.
     rbind (sidecar_symbol img (fld start ''return_symbol'') (rc_return_pc c)) (\<lambda>_.
     rbind (c_object (fld doc ''execution'')) (\<lambda>execution.
     rbind (c_text (fld execution ''stop_symbol'')) (\<lambda>_.
     rbind (case rc_stop_pc c of
              None \<Rightarrow> Inl (ValueError ''sidecar declares a stop symbol but no stop PC was requested'')
            | Some pc \<Rightarrow> sidecar_symbol img (fld execution ''stop_symbol'') pc) (\<lambda>_.
     rbind (c_object (fld doc ''result'')) (\<lambda>result.
     rbind (sidecar_result c img result) (\<lambda>_.
     sidecar_golden read_beside sha c (fld result ''golden''))))))))))))))))"

section \<open>The harness\<close>

definition checked_word :: "int \<Rightarrow> unit res" where
  "checked_word v = guard (0 \<le> v \<and> v < 2 ^ 64) ''word value is outside 64 bits''"

text \<open>\<open>segment.data + bytes(segment.memory_size - len(segment.data))\<close>\<close>

definition initialized :: "load_segment_rec \<Rightarrow> byte list" where
  "initialized s = ls_data s @ replicate (nat (ls_memory_size s - int (length (ls_data s)))) 0"

text \<open>The bytes the harness writes after the reset, in order: the non-zero ones.\<close>

definition segment_writes :: "load_segment_rec \<Rightarrow> (int \<times> byte) list" where
  "segment_writes s = filter (\<lambda>w. snd w \<noteq> 0) (zip (map (\<lambda>i. ls_address s + int i) [0..<length (initialized s)]) (initialized s))"

definition harness_writes :: "hosted_image \<Rightarrow> (int \<times> byte) list" where
  "harness_writes img = concat (map segment_writes (hi_segments img))"

definition harness_start_pc :: "hosted_image \<Rightarrow> run_configuration \<Rightarrow> int" where
  "harness_start_pc img c = (if rc_start_pc c \<noteq> 0 then rc_start_pc c else hi_entry img)"

definition host_request_policy :: "run_configuration \<Rightarrow> unit res" where
  "host_request_policy c =
     (case rc_host_request_number c of
        None \<Rightarrow> Inr ()
      | Some _ \<Rightarrow>
          (case (rc_host_request_argument0 c, rc_service_request_type c) of
             (Some _, Some t) \<Rightarrow>
               rbind (guard (rc_return_pc c \<noteq> 0) ''host request terminal policy is incomplete'') (\<lambda>_.
               rbind (guard (t \<le> 15) ''service request type is outside four bits'') (\<lambda>_. checked_word (rc_return_pc c)))
           | _ \<Rightarrow> Inl (ValueError ''host request terminal policy is incomplete'')))"

record harness =
  ha_start_pc :: int
  ha_writes :: "(int \<times> byte) list"

text \<open>
  Every check of \<open>build_harness\<close>, in its order; the result is what the text of the harness takes from
  the image. The rest of the text is determined by the configuration (\<open>harness_main\<close> below).
\<close>

definition build_harness :: "hosted_image \<Rightarrow> run_configuration \<Rightarrow> harness res" where
  "build_harness img c =
     rbind (guard (rc_max_steps c > 0) ''max_steps must be positive'') (\<lambda>_.
     rbind (guard (rc_stop_after_hits c > 0) ''stop_after_hits must be positive'') (\<lambda>_.
     rbind (guard (0 \<le> rc_start_acr c \<and> rc_start_acr c \<le> 15) ''start_acr must be a four-bit access-control ring'') (\<lambda>_.
     rbind (checked_range (rc_result_address c) (rc_result_size c) (rc_memory_bytes c)) (\<lambda>_.
     rbind (rmap (\<lambda>s. checked_range (ls_address s) (ls_memory_size s) (rc_memory_bytes c)) (hi_segments img)) (\<lambda>_.
     rbind (eguard (executable_at (hi_segments img) (harness_start_pc img c)) ''hosted start PC is outside an executable PT_LOAD'') (\<lambda>_.
     rbind (checked_word (harness_start_pc img c)) (\<lambda>_.
     rbind (if rc_return_pc c \<noteq> 0 then checked_word (rc_return_pc c) else Inr ()) (\<lambda>_.
     rbind (if rc_stack_top c \<noteq> 0 then checked_word (rc_stack_top c) else Inr ()) (\<lambda>_.
     rbind (rmap (\<lambda>w. checked_word (fst w)) (harness_writes img)) (\<lambda>_.
     rbind (if rc_stack_top c \<noteq> 0
            then rbind (checked_word (rc_stack_top c - 8)) (\<lambda>_. checked_word (rc_stack_top c - 16)) else Inr ()) (\<lambda>_.
     rbind (host_request_policy c) (\<lambda>_.
     rbind (if rc_host_request_number c \<noteq> None \<and> rc_result_size c \<noteq> 0 then checked_word (rc_result_address c) else Inr ()) (\<lambda>_.
     rbind (case rc_stop_pc c of
              None \<Rightarrow> Inr ()
            | Some pc \<Rightarrow> rbind (checked_word pc) (\<lambda>_. if rc_result_size c \<noteq> 0 then checked_word (rc_result_address c) else Inr ())) (\<lambda>_.
       Inr \<lparr>ha_start_pc = harness_start_pc img c, ha_writes = harness_writes img\<rparr>))))))))))))))"

text \<open>
  What the generated \<open>main\<close> uses of the PTO model: the instruction step (\<open>True\<close> when it was not
  rejected), the registers and memory it sets up, and the state it inspects after a step.
\<close>

record 's hart =
  h_reset :: "'s \<Rightarrow> 's"
  h_set_acr :: "int \<Rightarrow> 's \<Rightarrow> 's"
  h_write_tpc :: "64 word \<Rightarrow> 's \<Rightarrow> 's"
  h_set_return_address :: "64 word \<Rightarrow> 's \<Rightarrow> 's"
  h_write_gpr :: "int \<Rightarrow> 64 word \<Rightarrow> 's \<Rightarrow> 's"
  h_write_byte :: "64 word \<Rightarrow> byte \<Rightarrow> 's \<Rightarrow> 's"
  h_execute :: "'s \<Rightarrow> bool \<times> 's"
  h_tpc :: "'s \<Rightarrow> 64 word"
  h_read_byte :: "64 word \<Rightarrow> 's \<Rightarrow> byte"
  h_gpr :: "int \<Rightarrow> 's \<Rightarrow> 64 word"
  h_service_fault :: "'s \<Rightarrow> bool"
  h_request_operand :: "'s \<Rightarrow> 64 word"
  h_trap_tpc :: "'s \<Rightarrow> 64 word"
  h_diagnostics :: "'s \<Rightarrow> string list"

definition PTO_HOSTED_SP_GPR :: int where "PTO_HOSTED_SP_GPR = 1"
definition PTO_HOSTED_RA_GPR :: int where "PTO_HOSTED_RA_GPR = 10"

definition harness_init :: "'s hart \<Rightarrow> harness \<Rightarrow> run_configuration \<Rightarrow> 's \<Rightarrow> 's" where
  "harness_init m h c s =
     (let s1 = h_write_tpc m (word_of_int (ha_start_pc h)) (h_set_acr m (rc_start_acr c) (h_reset m s));
          ra = word_of_int (rc_return_pc c);
          s2 = (if rc_return_pc c \<noteq> 0 then h_write_gpr m PTO_HOSTED_RA_GPR ra (h_set_return_address m ra s1) else s1);
          s3 = (if rc_stack_top c \<noteq> 0 then h_write_gpr m PTO_HOSTED_SP_GPR (word_of_int (rc_stack_top c)) s2 else s2)
      in fold (\<lambda>(a, b). h_write_byte m (word_of_int a) b) (ha_writes h) s3)"

datatype 's finish = Stopped 's | Requested 's | Rejected 's | StepLimit 's

definition host_request_met :: "'s hart \<Rightarrow> run_configuration \<Rightarrow> 's \<Rightarrow> bool" where
  "host_request_met m c s =
     (case rc_host_request_number c of
        None \<Rightarrow> False
      | Some number \<Rightarrow>
          h_service_fault m s \<and> Some (uint (h_request_operand m s) mod 16) = rc_service_request_type c \<and>
          h_trap_tpc m s = word_of_int (rc_return_pc c) \<and> uint (h_gpr m 9 s) = number \<and>
          Some (uint (h_gpr m 2 s)) = rc_host_request_argument0 c)"

text \<open>The \<open>for model_step\<close> loop: the steps left, the stop hits so far and the state.\<close>

fun harness_loop :: "'s hart \<Rightarrow> run_configuration \<Rightarrow> nat \<Rightarrow> int \<Rightarrow> 's \<Rightarrow> 's finish" where
  "harness_loop m c 0 hits s = StepLimit s"
| "harness_loop m c (Suc k) hits s =
     (case h_execute m s of
        (accepted, s') \<Rightarrow>
          if \<not> accepted then (if host_request_met m c s' then Requested s' else Rejected s')
          else if map_option word_of_int (rc_stop_pc c) = Some (h_tpc m s') then
            (if hits + 1 = rc_stop_after_hits c then Stopped s' else harness_loop m c k (hits + 1) s')
          else harness_loop m c k hits s')"

definition result_byte :: "'s hart \<Rightarrow> run_configuration \<Rightarrow> 's \<Rightarrow> nat \<Rightarrow> byte" where
  "result_byte m c s i = h_read_byte m (word_of_int (rc_result_address c) + word_of_int (int i)) s"

definition report_line :: "nat \<Rightarrow> byte \<Rightarrow> string" where
  "report_line i b = unwords [''PTO_RESULT_BYTE'', py_dec (int i), py_dec (uint b)]"

definition tpc_line :: "64 word \<Rightarrow> string" where
  "tpc_line t = unwords [''PTO_FINAL_TPC'', py_dec (uint t)]"

definition report_lines :: "'s hart \<Rightarrow> run_configuration \<Rightarrow> 's \<Rightarrow> 64 word \<Rightarrow> string list" where
  "report_lines m c s tpc =
     map (\<lambda>i. report_line i (result_byte m c s i)) [0..<nat (rc_result_size c)] @ [tpc_line tpc]"

text \<open>The value \<open>main\<close> returns and the lines it prints.\<close>

definition harness_main :: "'s hart \<Rightarrow> harness \<Rightarrow> run_configuration \<Rightarrow> 's \<Rightarrow> int \<times> string list" where
  "harness_main m h c s =
     (case harness_loop m c (nat (rc_max_steps c)) 0 (harness_init m h c s) of
        Stopped s' \<Rightarrow> (0, report_lines m c s' (h_tpc m s'))
      | Requested s' \<Rightarrow> (0, report_lines m c s' (h_trap_tpc m s'))
      | Rejected s' \<Rightarrow> (2, h_diagnostics m s')
      | StepLimit s' \<Rightarrow> (3, [''PTO_STEP_LIMIT'']))"

definition unlines :: "string list \<Rightarrow> string" where
  "unlines ls = concat (map (\<lambda>l. l @ [CHR 0x0A]) ls)"

text \<open>The ASLRef process: the exit code it gives for the value of \<open>main\<close>, and the printed text.\<close>

definition harness_process :: "(int \<Rightarrow> int) \<Rightarrow> 's hart \<Rightarrow> 's \<Rightarrow> harness \<Rightarrow> run_configuration \<Rightarrow> int \<times> string" where
  "harness_process exit_of m s h c = (case harness_main m h c s of (v, ls) \<Rightarrow> (exit_of v, unlines ls))"

section \<open>Specialising the PTO specification\<close>

text \<open>A pattern \<open>literal [0-9]+ literal [0-9]+ literal\<close> at the start of a text: the length it matches.\<close>

fun match_literal :: "string \<Rightarrow> string \<Rightarrow> string option" where
  "match_literal [] s = Some s"
| "match_literal (p # ps) [] = None"
| "match_literal (p # ps) (c # cs) = (if p = c then match_literal ps cs else None)"

definition match_number :: "string \<Rightarrow> string option" where
  "match_number s =
     (let rest = dropWhile (\<lambda>c. 48 \<le> (of_char c :: nat) \<and> (of_char c :: nat) \<le> 57) s in if rest = s then None else Some rest)"

definition match_config :: "string \<Rightarrow> string \<Rightarrow> nat option" where
  "match_config p s =
     map_option (\<lambda>rest. length s - length rest)
       (Option.bind (match_literal p s) (\<lambda>s1. Option.bind (match_number s1) (\<lambda>s2. Option.bind (match_literal ''} = '' s2) (\<lambda>s3.
          Option.bind (match_number s3) (match_literal '';'')))))"

definition MEMORY_CONFIG :: string where "MEMORY_CONFIG = ''config PTO_MODEL_MEMORY_BYTES : integer {256..''"
definition TILE_CONFIG :: string where "TILE_CONFIG = ''config PTO_MODEL_TILE_ELEMENTS : integer {1..''"

definition MEMORY_RESET_LOOP :: string where
  "MEMORY_RESET_LOOP =
     ''    for index = 0 to PTO_MODEL_MEMORY_BYTES - 1 do'' @ [CHR 0x0A] @
     ''        _Memory[[index]] = Zeros{8};'' @ [CHR 0x0A] @ ''    end;''"

definition match_reset_loop :: "string \<Rightarrow> nat option" where
  "match_reset_loop s = map_option (\<lambda>_. length MEMORY_RESET_LOOP) (match_literal MEMORY_RESET_LOOP s)"

text \<open>\<open>re.subn\<close>: the leftmost matches replaced, and their number.\<close>

function subn :: "(string \<Rightarrow> nat option) \<Rightarrow> string \<Rightarrow> string \<Rightarrow> string \<times> nat" where
  "subn m rep [] = ([], 0)"
| "subn m rep (c # cs) =
     (case m (c # cs) of
        Some (Suc n) \<Rightarrow> (case subn m rep (drop n cs) of (t, k) \<Rightarrow> (rep @ t, Suc k))
      | _ \<Rightarrow> (case subn m rep cs of (t, k) \<Rightarrow> (c # t, k)))"
  by pat_completeness auto
termination by (relation "measure (\<lambda>(_, _, s). length s)") auto

definition REFERENCE_TILE_ELEMENTS :: int where "REFERENCE_TILE_ELEMENTS = 32768"

definition memory_config :: "int \<Rightarrow> string" where
  "memory_config memory_bytes = MEMORY_CONFIG @ py_dec memory_bytes @ ''} = '' @ py_dec memory_bytes @ '';''"

definition tile_config :: "int \<Rightarrow> string" where
  "tile_config tile_elements = TILE_CONFIG @ py_dec REFERENCE_TILE_ELEMENTS @ ''} = '' @ py_dec tile_elements @ '';''"

definition reset_note :: string where
  "reset_note =
     ''    // The hosted runner executes one ELF in a fresh ASLRef process.'' @ [CHR 0x0A] @
     ''    // Fresh interpreter storage is already zero; retain full reset for'' @ [CHR 0x0A] @
     ''    // every architectural state domain except the redundant memory sweep.'' @ [CHR 0x0A] @
     ''    pass;''"

definition sub_once :: "(string \<Rightarrow> nat option) \<Rightarrow> string \<Rightarrow> string \<Rightarrow> string \<Rightarrow> string res" where
  "sub_once m rep message s = (case subn m rep s of (t, k) \<Rightarrow> rbind (guard (k = 1) message) (\<lambda>_. Inr t))"

definition specialize_reference_profile :: "string \<Rightarrow> int \<Rightarrow> int \<Rightarrow> bool \<Rightarrow> string res" where
  "specialize_reference_profile asl_spec memory_bytes tile_elements fresh_process_reset =
     rbind (guard (256 \<le> memory_bytes \<and> memory_bytes \<le> MAX_HOSTED_MEMORY_BYTES)
              ''hosted memory bound is outside the supported model profile'') (\<lambda>_.
     rbind (guard (1 \<le> tile_elements \<and> tile_elements \<le> REFERENCE_TILE_ELEMENTS)
              ''hosted Tile bound is outside the supported model profile'') (\<lambda>_.
     rbind (sub_once (match_config MEMORY_CONFIG) (memory_config memory_bytes)
              ''PTO ASL memory configuration was not found exactly once'' asl_spec) (\<lambda>s1.
     rbind (sub_once (match_config TILE_CONFIG) (tile_config tile_elements)
              ''PTO ASL Tile configuration was not found exactly once'' s1) (\<lambda>s2.
     if fresh_process_reset
     then sub_once match_reset_loop reset_note ''PTO ASL memory reset loop was not found exactly once'' s2
     else Inr s2))))"

section \<open>The output of ASLRef\<close>

definition dec_digits :: "string \<Rightarrow> bool" where
  "dec_digits s = (s \<noteq> [] \<and> list_all (\<lambda>c. 48 \<le> (of_char c :: nat) \<and> (of_char c :: nat) \<le> 57) s)"

definition dec_value :: "string \<Rightarrow> int" where
  "dec_value s = foldl (\<lambda>acc c. acc * 10 + int (of_char c - 48)) 0 s"

text \<open>\<open>^PTO_RESULT_BYTE\s+(\d+)\s+(\d+)\s*$\<close> and \<open>^PTO_FINAL_TPC\s+(\d+)\s*$\<close> on a stripped line.\<close>

definition result_mark :: "string \<Rightarrow> (int \<times> int) option" where
  "result_mark line =
     (case py_split line of
        [k, a, b] \<Rightarrow> if k = ''PTO_RESULT_BYTE'' \<and> dec_digits a \<and> dec_digits b then Some (dec_value a, dec_value b) else None
      | _ \<Rightarrow> None)"

definition tpc_mark :: "string \<Rightarrow> int option" where
  "tpc_mark line =
     (case py_split line of
        [k, a] \<Rightarrow> if k = ''PTO_FINAL_TPC'' \<and> dec_digits a then Some (dec_value a) else None
      | _ \<Rightarrow> None)"

record parse_state =
  st_result :: "int list"
  st_seen :: "int list"
  st_tpc :: "int option"

definition note_result :: "int \<Rightarrow> string \<Rightarrow> parse_state \<Rightarrow> parse_state res" where
  "note_result n line st =
     (case result_mark line of
        None \<Rightarrow> Inr st
      | Some (index, v) \<Rightarrow>
          if index \<ge> n \<or> v > 255 \<or> index \<in> set (st_seen st) then Inl (ValueError ''malformed or duplicate result byte'')
          else Inr (st\<lparr>st_result := (st_result st)[nat index := v], st_seen := st_seen st @ [index]\<rparr>))"

definition note_tpc :: "string \<Rightarrow> parse_state \<Rightarrow> parse_state res" where
  "note_tpc line st =
     (case tpc_mark line of
        None \<Rightarrow> Inr st
      | Some t \<Rightarrow> if st_tpc st \<noteq> None then Inl (ValueError ''duplicate final TPC marker'') else Inr (st\<lparr>st_tpc := Some t\<rparr>))"

definition parse_line :: "int \<Rightarrow> string \<Rightarrow> parse_state \<Rightarrow> parse_state res" where
  "parse_line n line st = rbind (note_result n (py_strip line) st) (note_tpc (py_strip line))"

definition parse_result :: "string \<Rightarrow> int \<Rightarrow> (byte list \<times> int) res" where
  "parse_result stdout n =
     (if n < 0 then Inl (ValueError ''negative count'')
      else
        rbind (rfold (parse_line n) (splitlines stdout) \<lparr>st_result = replicate (nat n) 0, st_seen = [], st_tpc = None\<rparr>) (\<lambda>st.
          case st_tpc st of
            None \<Rightarrow> Inl (ValueError ''ASLRef output is missing result markers'')
          | Some t \<Rightarrow>
              if int (length (st_seen st)) \<noteq> n then Inl (ValueError ''ASLRef output is missing result markers'')
              else rbind (py_bytes (st_result st)) (\<lambda>bs. Inr (bs, t))))"

section \<open>The run\<close>

record run_outcome =
  ro_status :: string
  ro_stop_reached :: bool
  ro_result :: "byte list"
  ro_final_tpc :: "int option"

definition run_verdict :: "run_configuration \<Rightarrow> int \<Rightarrow> string \<Rightarrow> run_outcome res" where
  "run_verdict c returncode stdout =
     (if returncode \<noteq> 0 then Inl (RuntimeError ''ASLRef execution failed'')
      else if list_ex (\<lambda>l. py_strip l = ''PTO_STEP_LIMIT'') (splitlines stdout) then
        (if rc_result_size c < 0 then Inl (ValueError ''negative count'')
         else Inr \<lparr>ro_status = ''unfinished'', ro_stop_reached = False, ro_result = replicate (nat (rc_result_size c)) 0,
                   ro_final_tpc = None\<rparr>)
      else
        rbind (parse_result stdout (rc_result_size c)) (\<lambda>(bs, t).
          let reached = rc_stop_pc c \<noteq> None in
          Inr \<lparr>ro_status = (if reached then ''passed'' else ''failed''), ro_stop_reached = reached, ro_result = bs,
               ro_final_tpc = Some t\<rparr>))"

record run_inputs =
  in_elf :: "byte list"
  in_sidecar :: "pyval option"
  in_lock :: "(string, pyval) dict option"
  in_checkout :: checkout
  in_host_runner :: "(string, pyval) dict res"
  in_asl_spec :: string
  in_aslref_sha256 :: string
  in_runner_sha256 :: string
  in_sidecar_name :: string
  in_sidecar_sha256 :: string

definition manifest_elf :: "run_configuration \<Rightarrow> hosted_image \<Rightarrow> pyval" where
  "manifest_elf c img = PDict
     [(''path'', PStr (rc_elf_name c)), (''sha256'', PStr (hi_sha256 img)), (''entry'', PInt (hi_entry img)),
      (''pto_isa_identity'', case hi_pto_isa_note img of None \<Rightarrow> PNone | Some n \<Rightarrow> PDict (note_as_dict n)),
      (''pto_isa_descriptor_sha256'', case hi_pto_isa_note img of None \<Rightarrow> PNone | Some n \<Rightarrow> PStr (pn_descriptor_sha256 n)),
      (''segments'', PList (map segment_record (hi_segments img)))]"

definition manifest_policies :: "run_configuration \<Rightarrow> hosted_image \<Rightarrow> (string, pyval) dict" where
  "manifest_policies c img =
     [(''stop_policy'', PDict [(''stop_pc'', opt_int (rc_stop_pc c)), (''stop_after_hits'', PInt (rc_stop_after_hits c)),
         (''max_steps'', PInt (rc_max_steps c)),
         (''host_request'', if rc_host_request_number c = None then PNone
            else PDict [(''number'', opt_int (rc_host_request_number c)), (''argument0'', opt_int (rc_host_request_argument0 c)),
                        (''service_request_type'', opt_int (rc_service_request_type c))])]),
      (''start_policy'', PDict [(''start_pc'', PInt (harness_start_pc img c)), (''start_acr'', PInt (rc_start_acr c)),
         (''return_pc'', PInt (rc_return_pc c)), (''mode'', PStr (if rc_start_pc c \<noteq> 0 then ''direct-boot'' else ''elf-entry''))])]"

definition HOST_MEMORY_RUNNER_SCHEMA :: string where "HOST_MEMORY_RUNNER_SCHEMA = ''pto-aslref-host-memory-runner-v1''"

definition manifest_profile :: "run_configuration \<Rightarrow> bool \<Rightarrow> pyval" where
  "manifest_profile c native = PDict
     [(''memory_bytes'', PInt (rc_memory_bytes c)), (''tile_elements'', PInt (rc_tile_elements c)),
      (''memory_storage'', PStr (if native then ''host-sparse-byte-map'' else ''bounded-reference-array'')),
      (''runner_backend'', PStr (if native then HOST_MEMORY_RUNNER_SCHEMA else ''aslref-reference-array-v1'')),
      (''runtime_typecheck'', PStr (rc_runtime_typecheck c)), (''reset_policy'', PStr ''fresh-process-zero-initial-memory'')]"

text \<open>
  The manifest of a run without its wall-clock times; \<open>runner\<close> is the identity of the native runner
  when it was used.
\<close>

definition run_manifest ::
  "(byte list \<Rightarrow> string) \<Rightarrow> run_inputs \<Rightarrow> (string, pyval) dict \<Rightarrow> run_configuration \<Rightarrow> hosted_image \<Rightarrow>
   (string, pyval) dict option \<Rightarrow> string option \<Rightarrow> run_outcome \<Rightarrow> (string, pyval) dict" where
  "run_manifest sha inp lock c img runner case_id r =
     [(''schema'', PStr ''pto-asl-model-run-v1''), (''status'', PStr (ro_status r)), (''stop_reached'', PBool (ro_stop_reached r)),
      (''elf'', manifest_elf c img)] @ manifest_policies c img @
     [(''model_profile'', manifest_profile c (runner \<noteq> None)), (''final_tpc'', opt_int (ro_final_tpc r)),
      (''result'', PDict [(''address'', PInt (rc_result_address c)), (''size'', PInt (rc_result_size c)),
         (''bytes_hex'', PStr (bytes_hex (ro_result r))), (''sha256'', PStr (sha (ro_result r)))]),
      (''identity'', PDict lock),
      (''provenance'', PDict [(''pto_asl_sha256'', PStr (sha (text_bytes (in_asl_spec inp)))),
         (''aslref_binary_sha256'', PStr (in_aslref_sha256 inp)), (''model_runner_sha256'', PStr (in_runner_sha256 inp))])] @
     (case case_id of None \<Rightarrow> []
      | Some t \<Rightarrow> [(''sidecar'', PDict [(''path'', PStr (in_sidecar_name inp)), (''sha256'', PStr (in_sidecar_sha256 inp)), (''case_id'', PStr t)])]) @
     (case runner of None \<Rightarrow> [] | Some row \<Rightarrow> [(''runner_identity'', PDict row)])"
text \<open>
  \<open>run\<close>: the outcome and the manifest it returns. The building of the native runner may fail
  (\<open>in_host_runner\<close>); ASLRef reads the specialised specification followed by the harness.
\<close>

definition hosted_run ::
  "(byte list \<Rightarrow> pyval option) \<Rightarrow> (byte list \<Rightarrow> string) \<Rightarrow> (string \<Rightarrow> byte list res) \<Rightarrow>
   (string \<Rightarrow> harness \<Rightarrow> run_configuration \<Rightarrow> (int \<times> string) res) \<Rightarrow> run_inputs \<Rightarrow> run_configuration \<Rightarrow>
   (run_outcome \<times> (string, pyval) dict) res" where
  "hosted_run json_loads sha read_beside aslref inp configuration =
     rbind (case in_sidecar inp of None \<Rightarrow> Inr configuration | Some doc \<Rightarrow> load_sidecar configuration doc) (\<lambda>c.
     rbind (load_lock (in_lock inp)) (\<lambda>lock.
     rbind (parse_elf json_loads sha (in_elf inp) (rc_memory_bytes c) True) (\<lambda>img.
     rbind (verify_identity (in_checkout inp) lock) (\<lambda>_.
     rbind (case in_sidecar inp of
              Some (PDict doc) \<Rightarrow> validate_sidecar read_beside sha c img lock doc
            | _ \<Rightarrow> Inr ()) (\<lambda>_.
     rbind (build_harness img c) (\<lambda>h.
     rbind (guard (rc_runtime_typecheck c \<in> {''strict'', ''minimal''}) ''runtime_typecheck must be strict or minimal'') (\<lambda>_.
     rbind (guard (rc_memory_backend c \<in> {''host-sparse'', ''reference-array''})
              ''memory_backend must be host-sparse or reference-array'') (\<lambda>_.
     rbind (if rc_memory_backend c = ''host-sparse'' \<and> rc_runtime_typecheck c = ''minimal'' 
            then rbind (in_host_runner inp) (\<lambda>row. Inr (Some row)) else Inr None) (\<lambda>runner.
     rbind (specialize_reference_profile (in_asl_spec inp) (rc_memory_bytes c) (rc_tile_elements c) True) (\<lambda>spec.
     rbind (aslref spec h c) (\<lambda>(returncode, stdout).
     rbind (run_verdict c returncode stdout) (\<lambda>outcome.
     rbind (case in_sidecar inp of
              Some (PDict doc) \<Rightarrow> rbind (c_text (fld doc ''case_id'')) (\<lambda>t. Inr (Some t))
            | _ \<Rightarrow> Inr None) (\<lambda>case_id. Inr (outcome, run_manifest sha inp lock c img runner case_id outcome))))))))))))))"

section \<open>Markers\<close>

definition result_marks :: "string \<Rightarrow> (int \<times> int) list" where
  "result_marks stdout = List.map_filter (\<lambda>l. result_mark (py_strip l)) (splitlines stdout)"

definition tpc_marks :: "string \<Rightarrow> int list" where
  "tpc_marks stdout = List.map_filter (\<lambda>l. tpc_mark (py_strip l)) (splitlines stdout)"

lemma dec_value_nonneg: "0 \<le> dec_value s"
proof -
  have "0 \<le> acc \<Longrightarrow> 0 \<le> foldl (\<lambda>acc c. acc * 10 + int (of_char c - 48)) acc s" for acc :: int
    by (induction s arbitrary: acc) auto
  then show ?thesis by (simp add: dec_value_def)
qed

lemma result_mark_nonneg: "result_mark l = Some (i, v) \<Longrightarrow> 0 \<le> i \<and> 0 \<le> v"
  by (auto simp: result_mark_def dec_value_nonneg split: list.splits if_splits)

definition set_byte :: "int list \<Rightarrow> int \<times> int \<Rightarrow> int list" where
  "set_byte r m = r[nat (fst m) := snd m]"

lemma parse_line_Inr:
  assumes "parse_line n l st = Inr st'"
  shows "(case result_mark (py_strip l) of
      None \<Rightarrow> st_seen st' = st_seen st \<and> st_result st' = st_result st
    | Some m \<Rightarrow> st_seen st' = st_seen st @ [fst m] \<and> st_result st' = set_byte (st_result st) m \<and> fst m \<notin> set (st_seen st) \<and>
        fst m < n \<and> snd m \<le> 255) \<and>
    (case tpc_mark (py_strip l) of None \<Rightarrow> st_tpc st' = st_tpc st | Some t \<Rightarrow> st_tpc st = None \<and> st_tpc st' = Some t)"
proof -
  obtain mid where mid: "note_result n (py_strip l) st = Inr mid" "note_tpc (py_strip l) mid = Inr st'"
    using assms by (auto simp: parse_line_def res_simps)
  have "case result_mark (py_strip l) of
      None \<Rightarrow> st_seen mid = st_seen st \<and> st_result mid = st_result st
    | Some m \<Rightarrow> st_seen mid = st_seen st @ [fst m] \<and> st_result mid = set_byte (st_result st) m \<and> fst m \<notin> set (st_seen st) \<and>
        fst m < n \<and> snd m \<le> 255" and "st_tpc mid = st_tpc st"
    using mid(1) by (cases "result_mark (py_strip l)"; auto simp: note_result_def set_byte_def split: if_splits)+
  moreover have "st_seen st' = st_seen mid" "st_result st' = st_result mid"
    "case tpc_mark (py_strip l) of None \<Rightarrow> st_tpc st' = st_tpc mid | Some t \<Rightarrow> st_tpc mid = None \<and> st_tpc st' = Some t"
    using mid(2) by (cases "tpc_mark (py_strip l)"; auto simp: note_tpc_def split: if_splits)+
  ultimately show ?thesis by (auto split: option.splits)
qed

lemma parse_lines_Inr:
  assumes "rfold (parse_line n) ls st = Inr st'" and "distinct (st_seen st)"
  shows "st_seen st' = st_seen st @ map fst (List.map_filter (\<lambda>l. result_mark (py_strip l)) ls) \<and> distinct (st_seen st') \<and>
    st_result st' = foldl set_byte (st_result st) (List.map_filter (\<lambda>l. result_mark (py_strip l)) ls) \<and>
    (\<forall>m \<in> set (List.map_filter (\<lambda>l. result_mark (py_strip l)) ls). 0 \<le> fst m \<and> fst m < n \<and> 0 \<le> snd m \<and> snd m \<le> 255) \<and>
    (case List.map_filter (\<lambda>l. tpc_mark (py_strip l)) ls of
       [] \<Rightarrow> st_tpc st' = st_tpc st | [t] \<Rightarrow> st_tpc st = None \<and> st_tpc st' = Some t | _ \<Rightarrow> False)"
  using assms
proof (induction ls arbitrary: st)
  case (Cons l ls)
  from Cons.prems(1) obtain mid where mid: "parse_line n l st = Inr mid" "rfold (parse_line n) ls mid = Inr st'"
    by (auto simp: res_simps)
  note p = parse_line_Inr [OF mid(1)]
  have d: "distinct (st_seen mid)" using p Cons.prems(2) by (auto split: option.splits)
  note ih = Cons.IH [OF mid(2) d]
  have t: "case tpc_mark (py_strip l) of None \<Rightarrow> True | Some t \<Rightarrow> List.map_filter (\<lambda>l. tpc_mark (py_strip l)) ls = []"
    using p ih by (auto split: option.splits list.splits)
  show ?case using p ih t
    by (cases "result_mark (py_strip l)"; cases "tpc_mark (py_strip l)")
      (auto simp: List.map_filter_simps dest: result_mark_nonneg split: list.splits)
qed (simp add: List.map_filter_simps)

lemma foldl_set_byte:
  assumes "distinct (map (nat \<circ> fst) ms)" and "m \<in> set ms" and "\<forall>m \<in> set ms. nat (fst m) < length r"
  shows "foldl set_byte r ms ! nat (fst m) = snd m"
  using assms
proof (induction ms arbitrary: r)
  case (Cons x ms)
  show ?case
  proof (cases "m \<in> set ms")
    case True
    with Cons show ?thesis by (simp add: set_byte_def)
  next
    case False
    have keep: "foldl set_byte r' ms ! k = r' ! k" if "k \<notin> set (map (nat \<circ> fst) ms)" for r' k
      using that by (induction ms arbitrary: r') (auto simp: set_byte_def)
    from False Cons.prems have "m = x" by simp
    moreover have "set_byte r x ! nat (fst x) = snd x" using Cons.prems by (simp add: set_byte_def)
    ultimately show ?thesis using Cons.prems keep [of "nat (fst x)" "set_byte r x"] by simp
  qed
qed simp

lemma length_foldl_set_byte [simp]: "length (foldl set_byte r ms) = length r"
  by (induction ms arbitrary: r) (simp_all add: set_byte_def)

text \<open>An accepted output has one marker per result byte and one final TPC.\<close>

lemma parse_result_sound:
  assumes "parse_result stdout n = Inr (bs, t)"
  shows "int (length bs) = n" and "distinct (map fst (result_marks stdout))" and "int (length (result_marks stdout)) = n"
    and "\<forall>(i, v) \<in> set (result_marks stdout). 0 \<le> i \<and> i < n \<and> uint (bs ! nat i) = v" and "tpc_marks stdout = [t]"
proof -
  let ?st0 = "\<lparr>st_result = replicate (nat n) 0, st_seen = [], st_tpc = None\<rparr>"
  obtain st where st: "rfold (parse_line n) (splitlines stdout) ?st0 = Inr st" "st_tpc st = Some t"
    "int (length (st_seen st)) = n" "py_bytes (st_result st) = Inr bs" and n: "0 \<le> n"
    using assms by (auto simp: parse_result_def res_simps split: if_splits option.splits)
  note p = parse_lines_Inr [OF st(1), simplified, folded result_marks_def tpc_marks_def]
  have seen: "st_seen st = map fst (result_marks stdout)" and dist: "distinct (map fst (result_marks stdout))"
    and res: "st_result st = foldl set_byte (replicate (nat n) 0) (result_marks stdout)"
    and rng: "\<forall>m \<in> set (result_marks stdout). 0 \<le> fst m \<and> fst m < n \<and> 0 \<le> snd m \<and> snd m \<le> 255" using p by auto
  have bs: "bs = map word_of_int (st_result st)" using st(4) by (auto simp: py_bytes_def split: if_splits)
  show "int (length bs) = n" using n by (simp add: bs res)
  show "distinct (map fst (result_marks stdout))" by (rule dist)
  show "int (length (result_marks stdout)) = n" using st(3) seen by simp
  show "tpc_marks stdout = [t]" using p st(2) by (auto split: list.splits)
  have nd: "distinct (map (nat \<circ> fst) (result_marks stdout))"
    using dist rng by (auto simp: distinct_map inj_on_def eq_nat_nat_iff)
  have "uint (bs ! nat (fst m)) = snd m" if m: "m \<in> set (result_marks stdout)" for m
  proof -
    have "st_result st ! nat (fst m) = snd m"
      unfolding res using nd m rng n by (intro foldl_set_byte) auto
    moreover have "nat (fst m) < length (st_result st)" using rng m n by (auto simp: res)
    moreover have "uint (word_of_int (snd m) :: byte) = snd m" using rng m by (intro uint_word_of_int_byte) force+
    ultimately show ?thesis by (simp add: bs)
  qed
  with rng show "\<forall>(i, v) \<in> set (result_marks stdout). 0 \<le> i \<and> i < n \<and> uint (bs ! nat i) = v" by fastforce
qed


section \<open>Reading the output back\<close>

lemma dec_char:
  assumes "c \<in> set (digits_of 10 n)"
  shows "48 \<le> (of_char c :: nat)" and "(of_char c :: nat) \<le> 57" and "the (digit_val c) = of_char c - 48"
proof -
  obtain d where d: "d < 10" "c = digit_char d" using digits_of_chars [of 10 c n] assms by auto
  then have "(of_char c :: nat) = 48 + d" by (simp add: digit_char_def)
  with d show "48 \<le> (of_char c :: nat)" "(of_char c :: nat) \<le> 57" "the (digit_val c) = of_char c - 48" by simp_all
qed

lemma dec_digits_dec [simp]: "0 \<le> v \<Longrightarrow> dec_digits (py_dec v)"
  using dec_char(1,2) by (auto simp: dec_digits_def py_dec_def py_format_def list_all_iff)

lemma dec_value_dec [simp]:
  assumes "0 \<le> v"
  shows "dec_value (py_dec v) = v"
proof -
  have "int (foldl (\<lambda>a c. a * 10 + the (digit_val c)) k s) = foldl (\<lambda>acc c. acc * 10 + int (of_char c - 48)) (int k) s"
    if "\<forall>c \<in> set s. the (digit_val c) = of_char c - 48" for k :: nat and s
    using that by (induction s arbitrary: k) simp_all
  from this [of "digits_of 10 (nat v)" 0] show ?thesis
    using dec_char(3) foldl_digits_of [of 10 "nat v"] assms by (simp add: dec_value_def py_dec_def py_format_def)
qed

lemma line_end_space: "is_line_end c \<Longrightarrow> is_space c"
  by (auto simp: is_line_end_def is_space_def Let_def)

lemma splitlines_unlines:
  assumes "\<forall>l \<in> set ls. \<forall>c \<in> set l. \<not> is_line_end c"
  shows "splitlines (unlines ls) = ls"
  using assms
proof (induction ls)
  case (Cons l ls)
  have e: "is_line_end CHR 0x0A" by code_simp
  have t: "takeWhile (\<lambda>c. \<not> is_line_end c) (l @ CHR 0x0A # unlines ls) = l" using Cons.prems e by simp
  have "splitlines (unlines (l # ls)) = l # splitlines (unlines ls)"
    by (subst splitlines.simps) (simp add: unlines_def t [unfolded unlines_def] Let_def)
  with Cons show ?case by simp
qed (simp add: unlines_def splitlines.simps)

text \<open>Lines that are words separated by blanks.\<close>

definition plain_line :: "string list \<Rightarrow> bool" where
  "plain_line ws \<longleftrightarrow> ws \<noteq> [] \<and> list_all word_ok ws"

lemma unwords_chars: "c \<in> set (unwords ws) \<Longrightarrow> c = CHR '' '' \<or> (\<exists>w \<in> set ws. c \<in> set w)"
  by (induction ws rule: unwords.induct) auto

lemma plain_line_no_end: "plain_line ws \<Longrightarrow> c \<in> set (unwords ws) \<Longrightarrow> \<not> is_line_end c"
proof -
  assume p: "plain_line ws" and c: "c \<in> set (unwords ws)"
  have "\<not> is_line_end CHR '' ''" by code_simp
  with unwords_chars [OF c] p show ?thesis by (auto simp: plain_line_def word_ok_def list_all_iff dest: line_end_space)
qed

lemma plain_line_ends:
  assumes "plain_line ws"
  shows "unwords ws \<noteq> [] \<and> \<not> is_space (hd (unwords ws)) \<and> \<not> is_space (last (unwords ws))"
  using assms unfolding plain_line_def
  by (induction ws rule: unwords.induct) (auto simp: word_ok_def)

lemma plain_line_strip: "plain_line ws \<Longrightarrow> py_strip (unwords ws) = unwords ws"
  using plain_line_ends py_strip_id by blast

lemma plain_line_split: "plain_line ws \<Longrightarrow> py_split (unwords ws) = ws"
  by (simp add: plain_line_def py_split_unwords list_all_iff)

lemma keyword_ok: "word_ok ''PTO_RESULT_BYTE''" "word_ok ''PTO_FINAL_TPC''" "word_ok ''PTO_STEP_LIMIT''"
  by (simp_all add: word_ok_def is_space_def Let_def)

lemma report_plain:
  "plain_line [''PTO_RESULT_BYTE'', py_dec i, py_dec v]" "plain_line [''PTO_FINAL_TPC'', py_dec v]"
  by (simp_all add: plain_line_def keyword_ok)

lemma report_line_facts [simp]:
  "py_strip (report_line i b) = report_line i b" "result_mark (report_line i b) = Some (int i, uint b)"
  "tpc_mark (report_line i b) = None" "report_line i b \<noteq> ''PTO_STEP_LIMIT''" "\<forall>c \<in> set (report_line i b). \<not> is_line_end c"
proof -
  note p = report_plain(1) [of "int i" "uint b"]
  have sp: "py_split (report_line i b) = [''PTO_RESULT_BYTE'', py_dec (int i), py_dec (uint b)]"
    unfolding report_line_def by (rule plain_line_split [OF p])
  show "result_mark (report_line i b) = Some (int i, uint b)" "tpc_mark (report_line i b) = None"
    by (simp_all add: result_mark_def tpc_mark_def sp)
  show "report_line i b \<noteq> ''PTO_STEP_LIMIT''" by (simp add: report_line_def)
  show "py_strip (report_line i b) = report_line i b" unfolding report_line_def by (rule plain_line_strip [OF p])
  show "\<forall>c \<in> set (report_line i b). \<not> is_line_end c" unfolding report_line_def using plain_line_no_end [OF p] by blast
qed

lemma tpc_line_facts [simp]:
  "py_strip (tpc_line t) = tpc_line t" "result_mark (tpc_line t) = None" "tpc_mark (tpc_line t) = Some (uint t)"
  "tpc_line t \<noteq> ''PTO_STEP_LIMIT''" "\<forall>c \<in> set (tpc_line t). \<not> is_line_end c"
proof -
  note p = report_plain(2) [of "uint t"]
  have sp: "py_split (tpc_line t) = [''PTO_FINAL_TPC'', py_dec (uint t)]"
    unfolding tpc_line_def by (rule plain_line_split [OF p])
  show "result_mark (tpc_line t) = None" "tpc_mark (tpc_line t) = Some (uint t)"
    by (simp_all add: result_mark_def tpc_mark_def sp)
  show "tpc_line t \<noteq> ''PTO_STEP_LIMIT''" by (simp add: tpc_line_def)
  show "py_strip (tpc_line t) = tpc_line t" unfolding tpc_line_def by (rule plain_line_strip [OF p])
  show "\<forall>c \<in> set (tpc_line t). \<not> is_line_end c" unfolding tpc_line_def using plain_line_no_end [OF p] by blast
qed

lemma parse_report_line:
  "parse_line n (report_line i b) st =
     (if int i \<ge> n \<or> int i \<in> set (st_seen st) then Inl (ValueError ''malformed or duplicate result byte'')
      else Inr (st\<lparr>st_result := (st_result st)[i := uint b], st_seen := st_seen st @ [int i]\<rparr>))"
proof -
  have "uint b \<le> 255" using uint_lt2p [of b] by simp
  then show ?thesis
    by (simp add: parse_line_def note_result_def note_tpc_def rbind_def)
qed

lemma parse_report_lines:
  assumes "k \<le> length bs" and "int (length bs) = n"
  shows "rfold (parse_line n) (map (\<lambda>i. report_line i (bs ! i)) [0..<k]) \<lparr>st_result = replicate (nat n) 0, st_seen = [], st_tpc = None\<rparr> =
    Inr \<lparr>st_result = map uint (take k bs) @ replicate (nat n - k) 0, st_seen = map int [0..<k], st_tpc = None\<rparr>"
  using assms
proof (induction k)
  case (Suc k)
  have r: "replicate (nat n - k) 0 = (0 :: int) # replicate (nat n - Suc k) 0"
    using Suc.prems by (simp add: Suc_diff_Suc [symmetric] flip: replicate_Suc)
  have "(map uint (take k bs) @ replicate (nat n - k) 0)[k := uint (bs ! k)] =
    map uint (take (Suc k) bs) @ replicate (nat n - Suc k) 0"
    using Suc.prems by (simp add: r list_update_append take_Suc_conv_app_nth)
  with Suc show ?case by (simp add: rfold_append parse_report_line image_iff)
qed simp

lemma report_split:
  "splitlines (unlines (map (\<lambda>i. report_line i (b i)) xs @ [tpc_line t])) = map (\<lambda>i. report_line i (b i)) xs @ [tpc_line t]"
  using report_line_facts(5) tpc_line_facts(5) by (intro splitlines_unlines) auto

lemma report_read_back:
  assumes "n = int (length bs)"
  shows "parse_result (unlines (map (\<lambda>i. report_line i (bs ! i)) [0..<length bs] @ [tpc_line t])) n = Inr (bs, uint t)"
  using assms parse_report_lines [of "length bs" bs n]
  by (simp add: parse_result_def report_split rfold_append parse_line_def note_result_def note_tpc_def)


section \<open>The memory the harness sets up\<close>

definition written :: "(int \<times> byte) list \<Rightarrow> int \<Rightarrow> byte" where
  "written ws = fold (\<lambda>(a, b) mem. mem(a := b)) ws (\<lambda>_. 0)"

lemma fold_written:
  "(\<forall>(x, y) \<in> set ws. x = a \<longrightarrow> y = b) \<Longrightarrow>
   fold (\<lambda>(a, b) mem. mem(a := b)) ws mem0 a = (if a \<in> fst ` set ws then b else mem0 a)"
  by (induction ws arbitrary: mem0) (auto split: prod.splits)

lemma segment_writes_iff:
  "(a, b) \<in> set (segment_writes s) \<longleftrightarrow>
   (\<exists>i < length (initialized s). a = ls_address s + int i \<and> b = initialized s ! i \<and> b \<noteq> 0)"
proof
  assume "\<exists>i < length (initialized s). a = ls_address s + int i \<and> b = initialized s ! i \<and> b \<noteq> 0"
  then obtain i where "i < length (initialized s)" "a = ls_address s + int i" "b = initialized s ! i" "b \<noteq> 0" by blast
  then show "(a, b) \<in> set (segment_writes s)" by (auto simp: segment_writes_def in_set_zip intro!: exI [of _ i])
qed (auto simp: segment_writes_def in_set_zip)

lemma length_initialized: "int (length (ls_data s)) \<le> ls_memory_size s \<Longrightarrow> int (length (initialized s)) = ls_memory_size s"
  by (simp add: initialized_def)

lemma one_holder_eq:
  assumes "length (filter P xs) \<le> 1" and "x \<in> set xs" and "y \<in> set xs" and "P x" and "P y"
  shows "x = y"
proof -
  have "x \<in> set (filter P xs)" "y \<in> set (filter P xs)" using assms by simp_all
  with assms(1) show ?thesis by (cases "filter P xs") (auto simp del: set_filter)
qed

lemma written_image:
  assumes one: "\<forall>a. length (filter (ls_holds a) (hi_segments img)) \<le> 1"
    and fits: "\<forall>s \<in> set (hi_segments img). int (length (ls_data s)) \<le> ls_memory_size s"
    and s: "s \<in> set (hi_segments img)" and i: "i < length (initialized s)"
  shows "written (harness_writes img) (ls_address s + int i) = initialized s ! i"
proof -
  let ?a = "ls_address s + int i"
  have holds: "ls_holds (ls_address t + int j) t" if "t \<in> set (hi_segments img)" "j < length (initialized t)" for t j
    using that fits length_initialized [of t] by (simp add: ls_holds_def ls_end_def)
  have "y = initialized s ! i" if w: "(?a, y) \<in> set (harness_writes img)" for y
  proof -
    from w obtain t j where t: "t \<in> set (hi_segments img)" "j < length (initialized t)" "?a = ls_address t + int j" "y = initialized t ! j"
      by (auto simp: harness_writes_def segment_writes_iff)
    have "t = s" using one_holder_eq [OF one [rule_format, of ?a] t(1) s] holds [OF t(1,2)] holds [OF s i] t(3) by simp
    with t show ?thesis by simp
  qed
  then have "written (harness_writes img) ?a = (if ?a \<in> fst ` set (harness_writes img) then initialized s ! i else 0)"
    unfolding written_def by (intro fold_written) blast
  moreover have "?a \<in> fst ` set (harness_writes img)" if "initialized s ! i \<noteq> 0"
  proof -
    have "(?a, initialized s ! i) \<in> set (segment_writes s)" using i that segment_writes_iff by blast
    then have "(?a, initialized s ! i) \<in> set (harness_writes img)" using s by (auto simp: harness_writes_def)
    then show ?thesis by (rule image_eqI [rotated]) simp
  qed
  ultimately show ?thesis by auto
qed

lemma written_outside:
  assumes "\<forall>s \<in> set (hi_segments img). int (length (ls_data s)) \<le> ls_memory_size s \<and> \<not> ls_holds a s"
  shows "written (harness_writes img) a = 0"
proof -
  have "a \<notin> fst ` set (harness_writes img)"
    using assms length_initialized by (fastforce simp: harness_writes_def segment_writes_iff ls_holds_def ls_end_def)
  then show ?thesis using fold_written [of "harness_writes img" a 0 "\<lambda>_. 0"] by (force simp: written_def)
qed

section \<open>The verdict of a run\<close>

lemma harness_loop_Stopped:
  "harness_loop m c k hits s = Stopped s' \<Longrightarrow> \<exists>pc. rc_stop_pc c = Some pc \<and> h_tpc m s' = word_of_int pc"
  by (induction k arbitrary: hits s) (auto split: prod.splits if_splits)

lemma harness_loop_Requested:
  "harness_loop m c k hits s = Requested s' \<Longrightarrow> host_request_met m c s'"
  by (induction k arbitrary: hits s) (auto split: prod.splits if_splits)

lemma marker_verdict:
  assumes "0 \<le> rc_result_size c"
  shows "run_verdict c 0 (unlines (report_lines m c s t)) =
    Inr \<lparr>ro_status = (if rc_stop_pc c \<noteq> None then ''passed'' else ''failed''), ro_stop_reached = (rc_stop_pc c \<noteq> None),
         ro_result = map (result_byte m c s) [0..<nat (rc_result_size c)], ro_final_tpc = Some (uint t)\<rparr>"
proof -
  let ?bs = "map (result_byte m c s) [0..<nat (rc_result_size c)]"
  have ls: "report_lines m c s t = map (\<lambda>i. report_line i (?bs ! i)) [0..<length ?bs] @ [tpc_line t]"
    by (simp add: report_lines_def)
  have "parse_result (unlines (report_lines m c s t)) (rc_result_size c) = Inr (?bs, uint t)"
    unfolding ls by (rule report_read_back) (simp add: assms)
  moreover have "\<not> list_ex (\<lambda>l. py_strip l = ''PTO_STEP_LIMIT'') (splitlines (unlines (report_lines m c s t)))"
    unfolding ls report_split by (simp add: list_ex_iff)
  ultimately show ?thesis by (simp add: run_verdict_def Let_def)
qed

lemma verdict_nonzero: "returncode \<noteq> 0 \<Longrightarrow> run_verdict c returncode stdout = Inl (RuntimeError ''ASLRef execution failed'')"
  by (simp add: run_verdict_def)

text \<open>ASLRef exits with zero exactly when \<open>main\<close> returns zero.\<close>

definition exit_faithful :: "(int \<Rightarrow> int) \<Rightarrow> bool" where
  "exit_faithful exit_of \<longleftrightarrow> (\<forall>v. exit_of v = 0 \<longleftrightarrow> v = 0)"

lemma process_verdict:
  assumes "exit_faithful exit_of" and "0 \<le> rc_result_size c"
  shows "run_verdict c (fst (harness_process exit_of m s0 h c)) (snd (harness_process exit_of m s0 h c)) =
    (case harness_loop m c (nat (rc_max_steps c)) 0 (harness_init m h c s0) of
       Stopped s \<Rightarrow> Inr \<lparr>ro_status = ''passed'', ro_stop_reached = True,
         ro_result = map (result_byte m c s) [0..<nat (rc_result_size c)], ro_final_tpc = Some (uint (h_tpc m s))\<rparr>
     | Requested s \<Rightarrow> Inr \<lparr>ro_status = (if rc_stop_pc c \<noteq> None then ''passed'' else ''failed''), ro_stop_reached = (rc_stop_pc c \<noteq> None),
         ro_result = map (result_byte m c s) [0..<nat (rc_result_size c)], ro_final_tpc = Some (uint (h_trap_tpc m s))\<rparr>
     | _ \<Rightarrow> Inl (RuntimeError ''ASLRef execution failed''))"
proof -
  have e: "exit_of 0 = 0" "exit_of 2 \<noteq> 0" "exit_of 3 \<noteq> 0" using assms(1) by (simp_all add: exit_faithful_def)
  show ?thesis
  proof (cases "harness_loop m c (nat (rc_max_steps c)) 0 (harness_init m h c s0)")
    case (Stopped s)
    with harness_loop_Stopped [OF this] show ?thesis
      by (auto simp: harness_process_def harness_main_def e(1) marker_verdict [OF assms(2)])
  qed (simp_all add: harness_process_def harness_main_def e marker_verdict [OF assms(2)] verdict_nonzero)
qed


text \<open>
  A run that ends through the host-request policy is reported as a stop that was reached as soon as
  the caller also asked for a stop address, whether or not the model ever reached that address.
\<close>

lemma host_request_reported_as_stop:
  assumes "exit_faithful exit_of" and "0 \<le> rc_result_size c" and "rc_stop_pc c = Some pc"
    and "harness_loop m c (nat (rc_max_steps c)) 0 (harness_init m h c s0) = Requested s"
  shows "\<exists>r. run_verdict c (fst (harness_process exit_of m s0 h c)) (snd (harness_process exit_of m s0 h c)) = Inr r \<and>
    ro_status r = ''passed'' \<and> ro_stop_reached r"
  using assms by (simp add: process_verdict)

text \<open>A run that uses up its steps raises, so that the status \<open>unfinished\<close> is never reported.\<close>

lemma step_limit_raises:
  assumes "exit_faithful exit_of" and "0 \<le> rc_result_size c"
    and "harness_loop m c (nat (rc_max_steps c)) 0 (harness_init m h c s0) = StepLimit s"
  shows "run_verdict c (fst (harness_process exit_of m s0 h c)) (snd (harness_process exit_of m s0 h c)) =
    Inl (RuntimeError ''ASLRef execution failed'')"
  using assms by (simp add: process_verdict)

section \<open>What specialisation changes\<close>

lemma subn_none: "subn m rep s = (t, 0) \<Longrightarrow> t = s"
  by (induction m rep s arbitrary: t rule: subn.induct) (auto split: option.splits nat.splits prod.splits)

lemma subn_once:
  assumes "subn m rep s = (t, 1)" and "\<forall>s n. m s = Some n \<longrightarrow> n \<le> length s"
  shows "\<exists>pre old post. s = pre @ old @ post \<and> m (old @ post) = Some (length old) \<and> t = pre @ rep @ post"
  using assms(1)
proof (induction s arbitrary: t)
  case (Cons c cs)
  show ?case
  proof (cases "\<exists>n. m (c # cs) = Some (Suc n)")
    case True
    then obtain n where n: "m (c # cs) = Some (Suc n)" by blast
    with Cons.prems obtain u where "subn m rep (drop n cs) = (u, 0)" "t = rep @ u" by (auto split: prod.splits)
    then have "t = rep @ drop n cs" using subn_none by blast
    with n assms(2) [rule_format, OF n] show ?thesis
      by (intro exI [of _ "[]"] exI [of _ "c # take n cs"] exI [of _ "drop n cs"]) simp
  next
    case False
    with Cons.prems obtain u where u: "subn m rep cs = (u, 1)" "t = c # u" by (auto split: prod.splits option.splits nat.splits)
    from Cons.IH [OF u(1)] obtain pre old post where
      "cs = pre @ old @ post" "m (old @ post) = Some (length old)" "u = pre @ rep @ post" by blast
    with u show ?thesis by (intro exI [of _ "c # pre"] exI [of _ old] exI [of _ post]) simp
  qed
qed simp

lemma match_literal_shrinks: "match_literal p s = Some rest \<Longrightarrow> length rest \<le> length s"
  by (induction p s rule: match_literal.induct) (auto split: if_splits)

lemma match_config_bound: "\<forall>s n. match_config p s = Some n \<longrightarrow> n \<le> length s"
  by (auto simp: match_config_def)

text \<open>
  The specialised specification differs from the given one in the memory and tile declarations
  and, for a fresh process, in the reset loop; each of them occurs and is replaced once.
\<close>

lemma specialize_replaces:
  assumes "specialize_reference_profile s mb te False = Inr t"
  shows "\<exists>a m b mid c d e. s = a @ m @ b \<and> match_config MEMORY_CONFIG (m @ b) = Some (length m) \<and> mid = a @ memory_config mb @ b \<and>
    mid = c @ d @ e \<and> match_config TILE_CONFIG (d @ e) = Some (length d) \<and> t = c @ tile_config te @ e"
proof -
  obtain mid where u: "subn (match_config MEMORY_CONFIG) (memory_config mb) s = (mid, 1)"
    "subn (match_config TILE_CONFIG) (tile_config te) mid = (t, 1)"
    using assms by (auto simp: specialize_reference_profile_def sub_once_def guard_def res_simps split: prod.splits if_splits)
  obtain a m b where "s = a @ m @ b" "match_config MEMORY_CONFIG (m @ b) = Some (length m)" "mid = a @ memory_config mb @ b"
    using subn_once [OF u(1) match_config_bound] by metis
  moreover obtain c d e where "mid = c @ d @ e" "match_config TILE_CONFIG (d @ e) = Some (length d)" "t = c @ tile_config te @ e"
    using subn_once [OF u(2) match_config_bound] by metis
  ultimately show ?thesis by metis
qed

lemma hosted_run_Inr:
  assumes "hosted_run json_loads sha read_beside aslref inp conf = Inr (r, man)"
  obtains c img h spec rc out where
    "(case in_sidecar inp of None \<Rightarrow> Inr conf | Some doc \<Rightarrow> load_sidecar conf doc) = Inr c"
    and "parse_elf json_loads sha (in_elf inp) (rc_memory_bytes c) True = Inr img"
    and "build_harness img c = Inr h"
    and "specialize_reference_profile (in_asl_spec inp) (rc_memory_bytes c) (rc_tile_elements c) True = Inr spec"
    and "aslref spec h c = Inr (rc, out)" and "run_verdict c rc out = Inr r"
  using assms by (auto simp: hosted_run_def res_simps)

lemma build_harness_Inr:
  assumes "build_harness img c = Inr h"
  shows "ha_writes h = harness_writes img" and "ha_start_pc h = harness_start_pc img c" and "0 \<le> rc_result_size c"
    and "executable_at (hi_segments img) (ha_start_pc h)" and "0 < rc_max_steps c"
  using assms by (auto simp: build_harness_def checked_range_def eguard_def guard_def res_simps split: if_splits)

text \<open>The states of the machine after each executed step, and how often they are at the stop address.\<close>

definition hart_state :: "'s hart \<Rightarrow> nat \<Rightarrow> 's \<Rightarrow> 's" where
  "hart_state m n s = ((\<lambda>s. snd (h_execute m s)) ^^ n) s"

definition stop_visits :: "'s hart \<Rightarrow> int \<Rightarrow> nat \<Rightarrow> 's \<Rightarrow> int" where
  "stop_visits m pc n s = int (length (filter (\<lambda>i. h_tpc m (hart_state m i s) = word_of_int pc) [1..<Suc n]))"

lemma hart_state_Suc: "hart_state m (Suc n) s = hart_state m n (snd (h_execute m s))"
  by (simp add: hart_state_def funpow_swap1 [of "\<lambda>s. snd (h_execute m s)"])

lemma hart_state_0 [simp]: "hart_state m 0 s = s"
  by (simp add: hart_state_def)

lemma stop_visits_Suc:
  "stop_visits m pc (Suc n) s =
     (if h_tpc m (snd (h_execute m s)) = word_of_int pc then 1 else 0) + stop_visits m pc n (snd (h_execute m s))"
proof -
  have "[1..<Suc (Suc n)] = 1 # map Suc [1..<Suc n]" by (simp add: upt_conv_Cons map_Suc_upt del: upt_Suc)
  then show ?thesis
    unfolding stop_visits_def using hart_state_Suc [of m 0 s] by (simp add: filter_map comp_def hart_state_Suc)
qed

lemma harness_loop_visits:
  "harness_loop m c k hits s = Stopped s' \<Longrightarrow> rc_stop_pc c = Some pc \<Longrightarrow>
   \<exists>n \<le> k. 0 < n \<and> s' = hart_state m n s \<and> (\<forall>i < n. fst (h_execute m (hart_state m i s))) \<and>
     hits + stop_visits m pc n s = rc_stop_after_hits c"
proof (induction k arbitrary: hits s)
  case (Suc k)
  obtain acc t where ex: "h_execute m s = (acc, t)" by (cases "h_execute m s")
  have acc: "acc" using Suc.prems(1) ex by (auto split: if_splits)
  show ?case
  proof (cases "h_tpc m t = word_of_int pc \<and> hits + 1 = rc_stop_after_hits c")
    case True
    then have "s' = t" using Suc.prems ex acc by simp
    then show ?thesis
      using True acc ex hart_state_Suc [of m 0 s] stop_visits_Suc [of m pc 0 s]
      by (intro exI [of _ 1]) (simp add: stop_visits_def [of m pc 0])
  next
    case False
    then have "harness_loop m c k (if h_tpc m t = word_of_int pc then hits + 1 else hits) t = Stopped s'"
      using Suc.prems ex acc by (auto split: if_splits)
    from Suc.IH [OF this Suc.prems(2)] obtain n where n: "n \<le> k" "0 < n" "s' = hart_state m n t"
      "\<forall>i < n. fst (h_execute m (hart_state m i t))"
      "(if h_tpc m t = word_of_int pc then hits + 1 else hits) + stop_visits m pc n t = rc_stop_after_hits c" by blast
    have "fst (h_execute m (hart_state m i s))" if "i < Suc n" for i
      using that n(4) acc ex by (cases i) (simp_all add: hart_state_Suc)
    with n ex show ?thesis
      by (intro exI [of _ "Suc n"]) (auto simp: hart_state_Suc stop_visits_Suc)
  qed
qed simp

text \<open>The memory of the image: the bytes of its segments, zero elsewhere.\<close>

definition image_byte :: "hosted_image \<Rightarrow> int \<Rightarrow> byte" where
  "image_byte img a = (case find (ls_holds a) (hi_segments img) of
     None \<Rightarrow> 0 | Some seg \<Rightarrow> initialized seg ! nat (a - ls_address seg))"

lemma parsed_image_written:
  assumes "parse_elf json_loads sha content mb True = Inr img"
  shows "written (harness_writes img) a = image_byte img a"
    and "a \<in> fst ` set (harness_writes img) \<Longrightarrow> \<exists>seg \<in> set (hi_segments img). ls_holds a seg"
proof -
  have fits: "\<forall>s \<in> set (hi_segments img). int (length (ls_data s)) \<le> ls_memory_size s"
    using parse_elf_segments(1) [OF assms] by (auto simp: hosted_segment_ok_def)
  show "written (harness_writes img) a = image_byte img a"
  proof (cases "find (ls_holds a) (hi_segments img)")
    case None
    then have "\<forall>s \<in> set (hi_segments img). \<not> ls_holds a s" by (auto simp: find_None_iff)
    with None written_outside fits show ?thesis by (simp add: image_byte_def)
  next
    case (Some seg)
    then have seg: "seg \<in> set (hi_segments img)" "ls_holds a seg" by (auto simp: find_Some_iff)
    then have "nat (a - ls_address seg) < length (initialized seg)"
      using length_initialized [of seg] fits by (auto simp: ls_holds_def ls_end_def)
    from written_image [OF _ fits seg(1) this] parse_elf_segments(2) [OF assms] seg(2) Some show ?thesis
      by (simp add: image_byte_def ls_holds_def)
  qed
  show "\<exists>seg \<in> set (hi_segments img). ls_holds a seg" if w: "a \<in> fst ` set (harness_writes img)"
  proof -
    obtain seg i where seg: "seg \<in> set (hi_segments img)" "i < length (initialized seg)" "a = ls_address seg + int i"
      using w by (auto simp: harness_writes_def segment_writes_iff)
    then have "ls_holds a seg" using length_initialized [of seg] fits by (auto simp: ls_holds_def ls_end_def)
    with seg(1) show ?thesis by blast
  qed
qed



subsection \<open>Witness\<close>

text \<open>
  A PTO ELF with one executable segment and the note of the release, a lock and a checkout that
  agree, and a machine whose state is its TPC and which advances it by four.
\<close>

definition demo_pto_elf :: "byte list" where
  "demo_pto_elf =
     [0x7F, 0x45, 0x4C, 0x46, 2, 1, 1] @ replicate 9 0 @ pack_le HEADER_FIELDS [2, 233, 1, 16, 64, 120, 0, 64, 56, 1, 64, 2, 0]
     @ pack_le PROGRAM_HEADER [1, 5, 0, 16, 16, 2, 3, 1]
     @ demo_section [0, 3, 0, 0, 248, 16, 0, 0, 1, 0]
     @ demo_section [1, 7, 2, 0, 264, int (length demo_note_record), 0, 0, 4, 0]
     @ (0 # text_bytes note_section_name @ [0, 0]) @ demo_note_record"

definition demo_commit :: string where "demo_commit = ''a''"

definition demo_run_lock :: "(string, pyval) dict" where
  "demo_run_lock =
     [(''schema'', PStr ''pto-asl-model-lock-v1'')] @ map (\<lambda>(k, v). (k, PStr v)) lock_release @
     [(''pto_commit'', PStr demo_commit), (''pto_tree'', PStr demo_commit), (''pto_repository'', PStr ''https://github.com/o/r.git''),
      (''aslref_commit'', PStr demo_commit), (''aslref_repository'', PStr ''https://github.com/o/r.git'')]"

definition demo_spec :: string where
  "demo_spec = MEMORY_CONFIG @ ''512} = 512;'' @ TILE_CONFIG @ ''1} = 1;'' @ MEMORY_RESET_LOOP"

lemma tile_config_code [code]: "tile_config t = TILE_CONFIG @ ''32768} = '' @ py_dec t @ '';''"
  by (simp add: tile_config_def REFERENCE_TILE_ELEMENTS_def py_dec_def py_format_def digits_of.simps digit_char_def, code_simp)

definition demo_inputs :: run_inputs where
  "demo_inputs = \<lparr>in_elf = demo_pto_elf, in_sidecar = None, in_lock = Some demo_run_lock,
     in_checkout = \<lparr>co_pto_commit = demo_commit, co_pto_tree = demo_commit, co_pto_origin = ''https://github.com/o/r.git'',
       co_aslref_commit = demo_commit, co_aslref_origin = ''https://github.com/o/r.git'', co_aslref_pin = demo_commit\<rparr>,
     in_host_runner = Inr [], in_asl_spec = demo_spec, in_aslref_sha256 = [], in_runner_sha256 = [], in_sidecar_name = [],
     in_sidecar_sha256 = []\<rparr>"

definition demo_run_configuration :: run_configuration where
  "demo_run_configuration = \<lparr>rc_elf_name = ''a.elf'', rc_stop_pc = Some 20, rc_max_steps = 2, rc_result_address = 16, rc_result_size = 1,
     rc_memory_bytes = 256, rc_tile_elements = 1, rc_runtime_typecheck = ''strict'', rc_stop_after_hits = 1, rc_start_pc = 0,
     rc_start_acr = 0, rc_return_pc = 0, rc_stack_top = 0, rc_memory_backend = ''host-sparse'', rc_host_request_number = None,
     rc_host_request_argument0 = None, rc_service_request_type = None\<rparr>"

definition demo_hart :: "64 word hart" where
  "demo_hart = \<lparr>h_reset = (\<lambda>_. 0), h_set_acr = (\<lambda>_ s. s), h_write_tpc = (\<lambda>t _. t), h_set_return_address = (\<lambda>_ s. s),
     h_write_gpr = (\<lambda>_ _ s. s), h_write_byte = (\<lambda>_ _ s. s), h_execute = (\<lambda>s. (True, s + 4)), h_tpc = (\<lambda>s. s),
     h_read_byte = (\<lambda>_ _. 7), h_gpr = (\<lambda>_ _. 0), h_service_fault = (\<lambda>_. False), h_request_operand = (\<lambda>_. 0),
     h_trap_tpc = (\<lambda>_. 0), h_diagnostics = (\<lambda>_. [])\<rparr>"

definition demo_hosted_run :: "(run_outcome \<times> (string, pyval) dict) res" where
  "demo_hosted_run = hosted_run demo_loads (\<lambda>_. []) (\<lambda>_. Inr []) (\<lambda>spec h c. Inr (harness_process (\<lambda>v. v) demo_hart 0 h c))
     demo_inputs demo_run_configuration"

text \<open>The stages of the run, evaluated one by one.\<close>

definition demo_segments :: "load_segment_rec list" where
  "demo_segments = [\<lparr>ls_address = 16, ls_data = [0x7F, 0x45], ls_memory_size = 3, ls_flags = 5, ls_alignment = 1\<rparr>]"

lemma demo_pto_header:
  "check_hosted_header demo_pto_elf = Inr ()" "eh_phoff (header_record demo_pto_elf) = 64" "eh_phnum (header_record demo_pto_elf) = 1"
  "eh_entry (header_record demo_pto_elf) = 16" "64 \<le> length demo_pto_elf"
  by code_simp+

lemma demo_pto_segment: "hosted_segment demo_pto_elf 64 256 0 [] = Inr demo_segments"
  by code_simp

lemma demo_pto_symbols: "hosted_symbols demo_pto_elf (header_record demo_pto_elf) = Inr []"
  by code_simp

lemma demo_pto_note: "\<not> isl (parse_pto_isa_note demo_loads (\<lambda>_. []) demo_pto_elf)"
  by code_simp

lemma demo_pto_image:
  "\<exists>img. parse_elf demo_loads (\<lambda>_. []) demo_pto_elf 256 True = Inr img \<and> hi_segments img = demo_segments \<and> hi_entry img = 16"
proof -
  obtain n where n: "parse_pto_isa_note demo_loads (\<lambda>_. []) demo_pto_elf = Inr n" using demo_pto_note sum.collapse(2) by metis
  have x: "executable_at demo_segments 16" "demo_segments \<noteq> []" "sort_key ls_address demo_segments = demo_segments" by code_simp+
  show ?thesis
    by (simp add: parse_elf_def eguard_def MAX_HOSTED_MEMORY_BYTES_def demo_pto_header unpack_header_ok demo_pto_segment
        demo_pto_symbols n x)
qed

lemma demo_identity: "verify_identity (in_checkout demo_inputs) demo_run_lock = Inr ()" "load_lock (Some demo_run_lock) = Inr demo_run_lock"
  by code_simp+

lemma demo_specialized: "\<not> isl (specialize_reference_profile demo_spec 256 1 True)"
  by code_simp

definition demo_harness :: harness where
  "demo_harness = \<lparr>ha_start_pc = 16, ha_writes = [(16, 0x7F), (17, 0x45)]\<rparr>"

lemma demo_build:
  assumes "hi_segments img = demo_segments" and "hi_entry img = 16"
  shows "build_harness img demo_run_configuration = Inr demo_harness"
proof -
  let ?img = "\<lparr>hi_entry = 16, hi_segments = demo_segments, hi_symbols = [], hi_sha256 = [], hi_pto_isa_note = None\<rparr>"
  have "build_harness img demo_run_configuration = build_harness ?img demo_run_configuration"
    using assms by (simp add: build_harness_def harness_writes_def harness_start_pc_def)
  also have "\<dots> = Inr demo_harness" by code_simp
  finally show ?thesis .
qed

lemma demo_verdict:
  "(case harness_process (\<lambda>v. v) demo_hart 0 demo_harness demo_run_configuration of (rc, out) \<Rightarrow> run_verdict demo_run_configuration rc out) =
     Inr \<lparr>ro_status = ''passed'', ro_stop_reached = True, ro_result = [7], ro_final_tpc = Some 20\<rparr>"
  by code_simp

lemma demo_run_passed:
  "\<exists>man. demo_hosted_run = Inr (\<lparr>ro_status = ''passed'', ro_stop_reached = True, ro_result = [7], ro_final_tpc = Some 20\<rparr>, man)"
proof -
  obtain img where img: "parse_elf demo_loads (\<lambda>_. []) demo_pto_elf 256 True = Inr img"
    and h: "build_harness img demo_run_configuration = Inr demo_harness"
    using demo_pto_image demo_build by blast
  obtain spec where spec: "specialize_reference_profile demo_spec 256 1 True = Inr spec" using demo_specialized sum.collapse(2) by metis
  have inp: "in_elf demo_inputs = demo_pto_elf" "in_sidecar demo_inputs = None" "in_lock demo_inputs = Some demo_run_lock"
    "in_asl_spec demo_inputs = demo_spec" by (simp_all add: demo_inputs_def)
  have conf: "rc_memory_bytes demo_run_configuration = 256" "rc_tile_elements demo_run_configuration = 1"
    "rc_runtime_typecheck demo_run_configuration = ''strict''" "rc_memory_backend demo_run_configuration = ''host-sparse''"
    by (simp_all add: demo_run_configuration_def)
  show ?thesis
    using demo_verdict by (simp add: demo_hosted_run_def hosted_run_def inp conf img h spec demo_identity guard_def split: prod.splits)
qed


end
