(* ===== verification/Runner_Build.thy ===== *)
theory Runner_Build
  imports Worker_Build Hosted_Run
begin

text \<open>
  The cache of the native host-memory runner: \<open>_host_memory_runner\<close> of \<open>pto_asl_model/runner.py\<close> with
  \<open>_git_root\<close>, \<open>_git_value\<close> and \<open>_required_path\<close>. As for the embedded worker, files, \<open>git\<close>, the compiler,
  SHA-256 and JSON are parameters. This cache has no lock and no hash of the executable: a second
  step relation, with the copy of the executable in its two observable parts, shows what that costs.
\<close>

section \<open>Queries\<close>

text \<open>\<open>_git_root\<close>, over the directory of the path and its parents.\<close>

definition git_root :: "string \<Rightarrow> (string \<Rightarrow> bool) \<Rightarrow> string list \<Rightarrow> string res" where
  "git_root path has_git directories =
     (case find has_git directories of
        None \<Rightarrow> Inl (ValueError (''cannot resolve a git checkout for '' @ path))
      | Some d \<Rightarrow> Inr d)"

definition git_value :: "process_result \<Rightarrow> string res" where
  "git_value p = (case p of (rc, out, err) \<Rightarrow>
     if rc \<noteq> 0 then Inl (ValueError (if py_strip err = [] then ''git identity query failed'' else py_strip err)) else Inr (py_strip out))"

definition opam_prefix :: "process_result \<Rightarrow> string res" where
  "opam_prefix p = (case p of (rc, out, err) \<Rightarrow>
     if rc \<noteq> 0 then Inl (ValueError (if py_strip err = [] then ''cannot resolve the opam prefix'' else py_strip err)) else Inr (py_strip out))"

text \<open>\<open>_required_path\<close>: the content of the file, if it is one.\<close>

definition required_path :: "string \<Rightarrow> string \<Rightarrow> 'a option \<Rightarrow> 'a res" where
  "required_path path label content =
     (case content of None \<Rightarrow> Inl (ValueError (''missing '' @ label @ '': '' @ path)) | Some c \<Rightarrow> Inr c)"

record host_site =
  hs_aslref :: string                            \<comment> \<open>the path of the ASLRef executable\<close>
  hs_directories :: "string list"                \<comment> \<open>its directory and the parents\<close>
  hs_has_git :: "string \<Rightarrow> bool"
  hs_file :: "string \<Rightarrow> byte list option"
  hs_directory :: "string \<Rightarrow> bool"
  hs_source :: string                            \<comment> \<open>\<open>HOST_MEMORY_RUNNER_SOURCE\<close>\<close>
  hs_opam :: "process_result option"             \<comment> \<open>\<open>opam var prefix\<close>, when there is an \<open>opam\<close>\<close>
  hs_compiler_version :: "string \<Rightarrow> string res"  \<comment> \<open>raises when the compiler fails\<close>
  hs_head :: "string \<Rightarrow> process_result"

definition host_identity :: "string \<Rightarrow> string \<Rightarrow> string \<Rightarrow> string \<Rightarrow> (string, pyval) dict" where
  "host_identity commit asllib source version =
     [(''schema'', PStr HOST_MEMORY_RUNNER_SCHEMA), (''aslref_commit'', PStr commit), (''asllib_sha256'', PStr asllib),
      (''source_sha256'', PStr source), (''ocaml_version'', PStr version)]"

text \<open>The part up to the identity.\<close>

definition host_runner_identity :: "(byte list \<Rightarrow> string) \<Rightarrow> host_site \<Rightarrow> (string, pyval) dict res" where
  "host_runner_identity sha s =
     rbind (git_root (hs_aslref s) (hs_has_git s) (hs_directories s)) (\<lambda>root.
     let asllib = root @ ''/_build/default/asllib'' in
     rbind (required_path (asllib @ ''/asllib.cmxa'') ''ASLRef asllib.cmxa'' (hs_file s (asllib @ ''/asllib.cmxa''))) (\<lambda>cmxa.
     if \<not> hs_directory s (asllib @ ''/.asllib.objs/byte'') \<or> \<not> hs_directory s (asllib @ ''/.asllib.objs/native'')
     then Inl (ValueError ''missing ASLRef native interface directories'')
     else
     rbind (required_path (hs_source s) ''host-memory runner source'' (hs_file s (hs_source s))) (\<lambda>source.
     case hs_opam s of
       None \<Rightarrow> Inl (ValueError ''opam is required to build the host-memory runner'')
     | Some query \<Rightarrow>
         rbind (opam_prefix query) (\<lambda>prefix.
         let ocamlopt = prefix @ ''/bin/ocamlopt''; zarith = prefix @ ''/lib/zarith/zarith.cmxa''; menhir = prefix @ ''/lib/menhirLib/menhirLib.cmxa'' in
         rbind (required_path ocamlopt ''opam ocamlopt'' (hs_file s ocamlopt)) (\<lambda>_.
         rbind (required_path zarith ''zarith.cmxa'' (hs_file s zarith)) (\<lambda>_.
         rbind (required_path menhir ''menhirLib.cmxa'' (hs_file s menhir)) (\<lambda>_.
         rbind (hs_compiler_version s ocamlopt) (\<lambda>version.
         rbind (git_value (hs_head s root)) (\<lambda>commit.
           Inr (host_identity commit (sha cmxa) (sha source) (py_strip version))))))))))) "

section \<open>Building or reusing\<close>

text \<open>
  The look at the cache: the exceptions of the file system and of the JSON reader mean that there
  is no entry; invalid UTF-8 is neither and is raised.
\<close>

definition host_cached :: "(string \<Rightarrow> pyval res) \<Rightarrow> (string, pyval) dict \<Rightarrow> cache_entry \<Rightarrow> bool res" where
  "host_cached loads identity e =
     (case entry_metadata e of
        None \<Rightarrow> Inr False
      | Some t \<Rightarrow> (case loads t of
            Inl UnicodeDecodeError \<Rightarrow> Inl UnicodeDecodeError
          | Inl _ \<Rightarrow> Inr False
          | Inr v \<Rightarrow> Inr (py_eq v (PDict identity))))"

text \<open>The include path of the first directory that has GMP, if any, then as for the worker.\<close>

definition host_compile_command :: "string \<Rightarrow> string \<Rightarrow> (string \<Rightarrow> bool) \<Rightarrow> bool \<Rightarrow> string list \<Rightarrow> string \<Rightarrow> string list \<Rightarrow> string \<Rightarrow> string \<Rightarrow> string list" where
  "host_compile_command compiler local_lib has_gmp darwin includes executable dependencies cmxa source =
     [compiler]
     @ (case find has_gmp [''/opt/homebrew/lib'', local_lib, ''/usr/lib/x86_64-linux-gnu''] of None \<Rightarrow> [] | Some d \<Rightarrow> [''-ccopt'', ''-L'' @ d])
     @ (if darwin then [''-cclib'', ''-Wl,-stack_size,0x20000000''] else [])
     @ concat (map (\<lambda>p. [''-I'', p]) includes)
     @ [''-o'', executable] @ dependencies @ [cmxa, source]"

definition host_compile :: "process_result \<Rightarrow> byte list option \<Rightarrow> byte list res" where
  "host_compile p output =
     (case (output, fst p = 0) of
        (Some bs, True) \<Rightarrow> Inr bs
      | _ \<Rightarrow> Inl (ValueError (compile_detail ''failed to build the host-memory runner'' p)))"

text \<open>
  \<open>_host_memory_runner\<close>: \<open>compact\<close> is the JSON text that is hashed, \<open>pretty\<close> the one that is written.
\<close>

definition host_memory_runner ::
  "(byte list \<Rightarrow> string) \<Rightarrow> (string \<Rightarrow> pyval res) \<Rightarrow> ((string, pyval) dict \<Rightarrow> string) \<Rightarrow> ((string, pyval) dict \<Rightarrow> string) \<Rightarrow>
   host_site \<Rightarrow> process_result \<Rightarrow> byte list option \<Rightarrow> (string \<Rightarrow> cache_entry) \<Rightarrow>
   (string \<times> (string, pyval) dict) res \<times> (string \<Rightarrow> cache_entry)" where
  "host_memory_runner sha loads compact pretty s process output cache =
     (case host_runner_identity sha s of
        Inl e \<Rightarrow> (Inl e, cache)
      | Inr identity \<Rightarrow>
          let key = sha (utf8_encode (compact identity)) in
          (case host_cached loads identity (cache key) of
             Inl e \<Rightarrow> (Inl e, cache)
           | Inr True \<Rightarrow> (Inr (key, identity), cache)
           | Inr False \<Rightarrow>
               (case host_compile process output of
                  Inl e \<Rightarrow> (Inl e, cache)
                | Inr bs \<Rightarrow> (Inr (key, identity), cache(key := \<lparr>en_executable = Some (bs, True), en_metadata = Some (pretty identity)\<rparr>)))))"

section \<open>Processes that share the entry\<close>

text \<open>
  \<open>shutil.copy2\<close> empties the target before it fills it, and keeps the file that other processes may
  be about to start. Nothing excludes a second process here.
\<close>

datatype host_phase = HLooking | HBuilding | HCompiled "byte list" | HCopying "byte list" | HCopied | HReturned

record host_state =
  ht_entry :: cache_entry
  ht_phase :: "nat \<Rightarrow> host_phase"

definition hmove :: "nat \<Rightarrow> host_phase \<Rightarrow> cache_entry \<Rightarrow> host_state \<Rightarrow> host_state" where
  "hmove p ph e s = \<lparr>ht_entry = e, ht_phase = (ht_phase s)(p := ph)\<rparr>"

definition keep_mode :: "cache_entry \<Rightarrow> bool" where
  "keep_mode e = (case en_executable e of None \<Rightarrow> False | Some (_, x) \<Rightarrow> x)"

inductive host_step ::
  "(string \<Rightarrow> pyval res) \<Rightarrow> ((string, pyval) dict \<Rightarrow> string) \<Rightarrow> (string, pyval) dict \<Rightarrow> host_state \<Rightarrow> host_state \<Rightarrow> bool"
  for loads pretty identity where
  found: "ht_phase s p = HLooking \<Longrightarrow> host_cached loads identity (ht_entry s) = Inr True \<Longrightarrow>
     host_step loads pretty identity s (hmove p HReturned (ht_entry s) s)"
| absent: "ht_phase s p = HLooking \<Longrightarrow> host_cached loads identity (ht_entry s) = Inr False \<Longrightarrow>
     host_step loads pretty identity s (hmove p HBuilding (ht_entry s) s)"
| compile: "ht_phase s p = HBuilding \<Longrightarrow> host_step loads pretty identity s (hmove p (HCompiled bs) (ht_entry s) s)"
| open_copy: "ht_phase s p = HCompiled bs \<Longrightarrow>
     host_step loads pretty identity s (hmove p (HCopying bs) ((ht_entry s)\<lparr>en_executable := Some ([], keep_mode (ht_entry s))\<rparr>) s)"
| end_copy: "ht_phase s p = HCopying bs \<Longrightarrow>
     host_step loads pretty identity s (hmove p HCopied ((ht_entry s)\<lparr>en_executable := Some (bs, True)\<rparr>) s)"
| describe: "ht_phase s p = HCopied \<Longrightarrow>
     host_step loads pretty identity s (hmove p HReturned ((ht_entry s)\<lparr>en_metadata := Some (pretty identity)\<rparr>) s)"

section \<open>Theorems\<close>

text \<open>The metadata that is written is read back.\<close>

definition host_readable :: "(string \<Rightarrow> pyval res) \<Rightarrow> ((string, pyval) dict \<Rightarrow> string) \<Rightarrow> (string, pyval) dict \<Rightarrow> bool" where
  "host_readable loads pretty identity \<longleftrightarrow> loads (pretty identity) = Inr (PDict identity)"

lemma host_runner_identity_form:
  assumes "host_runner_identity sha s = Inr identity"
  shows "\<exists>commit cmxa source version. identity = host_identity commit (sha cmxa) (sha source) version"
  using assms by (auto simp: host_runner_identity_def Let_def rbind_Inr_ex split: option.splits if_splits) blast

lemma host_identity_eq: "py_eq (PDict (host_identity c a s v)) (PDict (host_identity c a s v))"
  by (simp add: host_identity_def)

text \<open>A call that returns leaves an executable under the key of its inputs.\<close>

theorem host_runner_sound:
  assumes "host_memory_runner sha loads compact pretty s process output cache = (Inr (key, identity), cache')"
  shows "host_runner_identity sha s = Inr identity \<and> key = sha (utf8_encode (compact identity))
         \<and> (\<exists>bs. en_executable (cache' key) = Some (bs, True)) \<and> (\<forall>k. k \<noteq> key \<longrightarrow> cache' k = cache k)"
  using assms
  by (auto simp: host_memory_runner_def host_cached_def Let_def entry_metadata_Some split: sum.splits bool.splits option.splits)

text \<open>A second call reuses it, and does not need the compiler.\<close>

theorem host_runner_again:
  assumes r: "host_readable loads pretty identity"
    and first: "host_memory_runner sha loads compact pretty s process output cache = (Inr (key, identity), cache')"
  shows "host_memory_runner sha loads compact pretty s process' output' cache' = (Inr (key, identity), cache')"
proof -
  have i: "host_runner_identity sha s = Inr identity" and key: "key = sha (utf8_encode (compact identity))"
    using host_runner_sound [OF first] by simp_all
  have "py_eq (PDict identity) (PDict identity)"
    using host_runner_identity_form [OF i] host_identity_eq by auto
  then have "host_cached loads identity (cache' key) = Inr True"
    using first i key r
    by (auto simp: host_memory_runner_def Let_def host_cached_def host_readable_def entry_metadata_def split: sum.splits bool.splits)
  then show ?thesis
    using i key by (simp add: host_memory_runner_def Let_def)
qed

text \<open>Any executable content passes when the metadata is right.\<close>

theorem host_cached_ignores_content:
  "host_cached loads identity (e\<lparr>en_executable := Some (bs, True)\<rparr>) = host_cached loads identity (e\<lparr>en_executable := Some (bs', True)\<rparr>)"
  by (simp add: host_cached_def entry_metadata_def)

text \<open>
  Two processes that both found no entry: the first one builds, publishes and returns the path, and
  then the second one empties the file the first is about to start, with the metadata in place that
  makes any third process accept it.
\<close>

definition two_lookers :: host_state where
  "two_lookers = \<lparr>ht_entry = no_entry, ht_phase = (\<lambda>_. HLooking)\<rparr>"

lemma host_step_at:
  "host_step loads pretty identity s s' \<Longrightarrow> s' = t \<Longrightarrow> host_step loads pretty identity s t"
  by simp

lemma no_entry_absent: "host_cached loads identity no_entry = Inr False"
  by (simp add: host_cached_def entry_metadata_def no_entry_def)

definition race_entry :: "((string, pyval) dict \<Rightarrow> string) \<Rightarrow> (string, pyval) dict \<Rightarrow> byte list \<Rightarrow> cache_entry" where
  "race_entry pretty identity bs = \<lparr>en_executable = Some (bs, True), en_metadata = Some (pretty identity)\<rparr>"

lemma race_first:
  "(host_step loads pretty identity)\<^sup>*\<^sup>* two_lookers
     \<lparr>ht_entry = race_entry pretty identity bs, ht_phase = ((\<lambda>_. HLooking)(0 := HBuilding, 1 := HBuilding))(0 := HReturned)\<rparr>"
proof -
  let ?S = "host_step loads pretty identity" and ?H = "(\<lambda>_. HLooking)(0 := HBuilding, Suc 0 := HBuilding)"
  let ?e = "\<lambda>b. no_entry\<lparr>en_executable := Some b\<rparr>"
  have "?S two_lookers (hmove 0 HBuilding no_entry two_lookers)"
    using host_step.absent [of two_lookers 0 loads identity pretty] no_entry_absent by (simp add: two_lookers_def)
  moreover have "?S (hmove 0 HBuilding no_entry two_lookers) \<lparr>ht_entry = no_entry, ht_phase = ?H\<rparr>"
    using host_step.absent [of "hmove 0 HBuilding no_entry two_lookers" 1 loads identity pretty] no_entry_absent
    by (simp add: two_lookers_def hmove_def)
  moreover have "?S \<lparr>ht_entry = no_entry, ht_phase = ?H\<rparr> \<lparr>ht_entry = no_entry, ht_phase = ?H(0 := HCompiled bs)\<rparr>"
    by (rule host_step_at [OF host_step.compile [of _ 0 _ _ _ bs]]) (simp_all add: hmove_def)
  moreover have "?S \<lparr>ht_entry = no_entry, ht_phase = ?H(0 := HCompiled bs)\<rparr> \<lparr>ht_entry = ?e ([], False), ht_phase = ?H(0 := HCopying bs)\<rparr>"
    by (rule host_step_at [OF host_step.open_copy [of _ 0 bs]]) (simp_all add: hmove_def keep_mode_def no_entry_def)
  moreover have "?S \<lparr>ht_entry = ?e ([], False), ht_phase = ?H(0 := HCopying bs)\<rparr> \<lparr>ht_entry = ?e (bs, True), ht_phase = ?H(0 := HCopied)\<rparr>"
    by (rule host_step_at [OF host_step.end_copy [of _ 0 bs]]) (simp_all add: hmove_def)
  moreover have "?S \<lparr>ht_entry = ?e (bs, True), ht_phase = ?H(0 := HCopied)\<rparr> \<lparr>ht_entry = race_entry pretty identity bs, ht_phase = ?H(0 := HReturned)\<rparr>"
    by (rule host_step_at [OF host_step.describe [of _ 0]]) (simp_all add: hmove_def race_entry_def no_entry_def)
  ultimately show ?thesis
    unfolding One_nat_def by (meson converse_rtranclp_into_rtranclp rtranclp.rtrancl_refl)
qed

theorem host_runner_emptied_after_return:
  assumes "host_readable loads pretty (host_identity c a r v)"
  shows "\<exists>s s'. (host_step loads pretty (host_identity c a r v))\<^sup>*\<^sup>* two_lookers s \<and> ht_phase s 0 = HReturned
           \<and> en_executable (ht_entry s) = Some (bs, True)
           \<and> (host_step loads pretty (host_identity c a r v))\<^sup>*\<^sup>* s s' \<and> en_executable (ht_entry s') = Some ([], True)
           \<and> host_cached loads (host_identity c a r v) (ht_entry s') = Inr True"
proof -
  let ?i = "host_identity c a r v"
  let ?S = "host_step loads pretty ?i" and ?H = "(\<lambda>_. HLooking)(0 := HReturned, Suc 0 := HBuilding)"
  let ?s = "\<lparr>ht_entry = race_entry pretty ?i bs, ht_phase = ?H\<rparr>" and ?u = "\<lparr>ht_entry = race_entry pretty ?i [], ht_phase = ?H(Suc 0 := HCopying [])\<rparr>"
  have reach: "?S\<^sup>*\<^sup>* two_lookers ?s"
    using race_first [of loads pretty ?i bs] by (simp add: fun_upd_twist)
  have "?S ?s (hmove 1 (HCompiled []) (race_entry pretty ?i bs) ?s)"
    using host_step.compile [of ?s 1 loads pretty ?i "[]"] by simp
  moreover have "?S (hmove 1 (HCompiled []) (race_entry pretty ?i bs) ?s) ?u"
    by (rule host_step_at [OF host_step.open_copy [of _ 1 "[]"]]) (simp_all add: hmove_def keep_mode_def race_entry_def)
  ultimately have later: "?S\<^sup>*\<^sup>* ?s ?u"
    by (meson converse_rtranclp_into_rtranclp rtranclp.rtrancl_refl)
  have "host_cached loads ?i (race_entry pretty ?i []) = Inr True"
    using assms host_identity_eq [of c a r v] by (simp add: host_cached_def entry_metadata_def race_entry_def host_readable_def)
  then show ?thesis
    using reach later by (intro exI [of _ ?s] exI [of _ ?u]) (simp add: race_entry_def)
qed

end
