(* ===== verification/Runtime_Adapter.thy ===== *)
theory Runtime_Adapter
  imports Guest_Memory Program_Image State_Envelopes
begin

text \<open>
  The runtime adapter of \<open>runtime/adapter.py\<close>, with the mock host and the callback backend of
  \<open>runtime/mock.py\<close>: loading, snapshots, fetch and transactional instruction steps.

  The architectural state is a Python object that \<open>load\<close> changes in place and that a snapshot
  refers to. The adapter therefore keeps a store of state objects, and \<open>_state\<close> and the state of
  a snapshot are references into it; every other operation stores a fresh object. The memory of the
  host is part of the adapter. A transaction is open exactly while it is \<open>_active\<close>, so the
  operations of a transaction act on the active one.

  The host's \<open>load\<close> and the backend's \<open>execute\<close> are parameters. A backend gets the request, a copy
  of the state and the open memory transaction, and leaves behind a transaction and a memory.
\<close>

section \<open>State of the adapter\<close>

record instruction_transaction =
  it_request :: instruction_request
  it_initial_state :: architecture_state
  it_state :: architecture_state
  it_memory :: memory_transaction

record 'h runtime_adapter =
  ra_host :: 'h
  ra_memory :: guest_memory
  ra_artifact :: "(string, pyval) dict"
  ra_objects :: "architecture_state list"
  ra_state :: nat
  ra_initial_state :: architecture_state
  ra_initial_memory :: memory_snapshot
  ra_image :: "program_image option"
  ra_instruction_count :: int
  ra_closed :: bool
  ra_active :: "instruction_transaction option"

type_synonym execute_fun =
  "instruction_request \<Rightarrow> architecture_state \<Rightarrow> memory_transaction \<times> guest_memory \<Rightarrow>
   execution_result option res \<times> memory_transaction \<times> guest_memory"

text \<open>The default \<open>ArchitectureState()\<close>.\<close>

definition default_architecture_state :: architecture_state where
  "default_architecture_state =
     \<lparr>arch_scalar = \<lparr>sca_registers = [], sca_pc = 0, sca_tpc = 0, sca_flags = [], sca_mode = [], sca_extensions = []\<rparr>,
      arch_block = \<lparr>blk_active = False, blk_block_id = None, blk_start_pc = None, blk_instruction_count = 0,
        blk_attributes = [], blk_extensions = []\<rparr>,
      arch_tile = \<lparr>ts_registers = [], ts_extensions = []\<rparr>,
      arch_shared = \<lparr>shs_tiles = [], shs_generations = [], shs_extensions = []\<rparr>,
      arch_memory = \<lparr>mem_cells = [], mem_regions = [], mem_extensions = []\<rparr>,
      arch_fault = \<lparr>flt_pending = False, flt_kind = [], flt_code = [], flt_address = None, flt_instruction = [],
        flt_message = [], flt_recoverable = False, flt_extensions = []\<rparr>,
      arch_pe_id = 0, arch_thread_id = 0, arch_cycle = 0, arch_extensions = []\<rparr>"

definition RuntimeAdapter :: "'h \<Rightarrow> guest_memory \<Rightarrow> (string, pyval) dict \<Rightarrow> 'h runtime_adapter" where
  "RuntimeAdapter host memory artifact =
     \<lparr>ra_host = host, ra_memory = memory, ra_artifact = artifact, ra_objects = [default_architecture_state], ra_state = 0,
      ra_initial_state = default_architecture_state, ra_initial_memory = guest_snapshot memory, ra_image = None,
      ra_instruction_count = 0, ra_closed = False, ra_active = None\<rparr>"

definition ra_current :: "'h runtime_adapter \<Rightarrow> architecture_state" where
  "ra_current a = ra_objects a ! ra_state a"

text \<open>\<open>ArchitectureState.from_dict(state.as_dict())\<close>\<close>

definition copy_state :: "architecture_state \<Rightarrow> architecture_state res" where
  "copy_state s = rbind (architecture_as_dict s) architecture_from_dict"

text \<open>\<open>self._state = state\<close> for a new object.\<close>

definition set_state :: "architecture_state \<Rightarrow> 'h runtime_adapter \<Rightarrow> 'h runtime_adapter" where
  "set_state s a = a\<lparr>ra_objects := ra_objects a @ [s], ra_state := length (ra_objects a)\<rparr>"

text \<open>An operation of an open adapter; \<open>liftr\<close> raises without changing the adapter.\<close>

definition when_open :: "('h runtime_adapter, 'a) act \<Rightarrow> ('h runtime_adapter, 'a) act" where
  "when_open m a = (if ra_closed a then (Inl (RuntimeClosedError ''runtime adapter is closed''), a) else m a)"

definition liftr :: "'a res \<Rightarrow> ('s, 'a) act" where
  "liftr r s = (r, s)"

section \<open>Operations\<close>

definition adapter_get_state :: "('h runtime_adapter, architecture_state) act" where
  "adapter_get_state = when_open (\<lambda>a. liftr (copy_state (ra_current a)) a)"

definition map_segment :: "program_segment \<Rightarrow> ('h runtime_adapter, unit) act" where
  "map_segment seg a =
     (case guest_map_region (ra_memory a) (ps_address seg) (ps_memory_size seg) (ps_permissions seg) (ps_name seg) (ps_data seg) of
        Inl e \<Rightarrow> (Inl e, a)
      | Inr (_, m) \<Rightarrow> (Inr (), a\<lparr>ra_memory := m\<rparr>))"

text \<open>The in-place changes of \<open>load\<close> to the current state object.\<close>

definition enter_image :: "program_image \<Rightarrow> architecture_state \<Rightarrow> architecture_state" where
  "enter_image img s =
     (let sc = (arch_scalar s)\<lparr>sca_pc := pi_entry_point img, sca_tpc := pi_entry_point img\<rparr>
      in s\<lparr>arch_scalar :=
            (case pi_stack_pointer img of
               None \<Rightarrow> sc
             | Some sp \<Rightarrow> sc\<lparr>sca_registers := AList.update ''sp'' sp (sca_registers sc)\<rparr>)\<rparr>)"

definition adapter_load ::
  "(elf_load_request \<Rightarrow> ('h, program_image) act) \<Rightarrow> elf_load_request \<Rightarrow> ('h runtime_adapter, program_image) act" where
  "adapter_load host_load req = when_open (\<lambda>a.
     if ra_active a \<noteq> None then
       (Inl (RuntimeErrorBase ''cannot load a program during an instruction transaction''), a)
     else
       case host_load req (ra_host a) of
         (Inl e, h) \<Rightarrow> (Inl e, a\<lparr>ra_host := h\<rparr>)
       | (Inr img, h) \<Rightarrow>
           let a1 = a\<lparr>ra_host := h, ra_memory := guest_restore (ra_memory a) (guest_snapshot GuestMemory)\<rparr> in
           (case amap map_segment (pi_segments img) a1 of
              (Inl e, a2) \<Rightarrow> (Inl e, a2)
            | (Inr _, a2) \<Rightarrow>
                let a3 = a2\<lparr>ra_image := Some img,
                            ra_objects := (ra_objects a2)[ra_state a2 := enter_image img (ra_current a2)]\<rparr> in
                (case copy_state (ra_current a3) of
                   Inl e \<Rightarrow> (Inl e, a3)
                 | Inr s \<Rightarrow> (Inr img, a3\<lparr>ra_initial_state := s, ra_initial_memory := guest_snapshot (ra_memory a3),
                                       ra_instruction_count := 0\<rparr>))))"

definition adapter_reset :: "architecture_state option \<Rightarrow> ('h runtime_adapter, unit) act" where
  "adapter_reset initial = when_open (\<lambda>a.
     if ra_active a \<noteq> None then (Inl (RuntimeErrorBase ''cannot reset during an instruction transaction''), a)
     else
       case copy_state (case initial of None \<Rightarrow> ra_initial_state a | Some s \<Rightarrow> s) of
         Inl e \<Rightarrow> (Inl e, a)
       | Inr s \<Rightarrow> (Inr (), (set_state s a)\<lparr>ra_memory := guest_restore (ra_memory a) (ra_initial_memory a),
                                       ra_instruction_count := 0\<rparr>))"

record runtime_snapshot =
  rsn_state :: nat
  rsn_artifact :: "(string, pyval) dict"
  rsn_metadata :: "(string, pyval) dict"
  rsn_memory :: memory_snapshot
  rsn_image :: "program_image option"
  rsn_instruction_count :: int

definition adapter_snapshot :: "('h runtime_adapter, runtime_snapshot) act" where
  "adapter_snapshot = when_open (\<lambda>a.
     let md = [(''instruction_count'', PInt (ra_instruction_count a))] in
     case StateEnvelope (PStr ''state_snapshot'') (ra_current a) (PDict (ra_artifact a)) (PDict md) (PStr SCHEMA_ID) of
       Inl e \<Rightarrow> (Inl e, a)
     | Inr _ \<Rightarrow> (Inr \<lparr>rsn_state = ra_state a, rsn_artifact = ra_artifact a, rsn_metadata = md,
                     rsn_memory = guest_snapshot (ra_memory a), rsn_image = ra_image a,
                     rsn_instruction_count = ra_instruction_count a\<rparr>, a))"

definition adapter_restore :: "runtime_snapshot \<Rightarrow> ('h runtime_adapter, unit) act" where
  "adapter_restore snap = when_open (\<lambda>a.
     if ra_active a \<noteq> None then (Inl (RuntimeErrorBase ''cannot restore during an instruction transaction''), a)
     else
       case copy_state (ra_objects a ! rsn_state snap) of
         Inl e \<Rightarrow> (Inl e, a)
       | Inr s \<Rightarrow> (Inr (), (set_state s a)\<lparr>ra_memory := guest_restore (ra_memory a) (rsn_memory snap),
                       ra_image := rsn_image snap, ra_instruction_count := rsn_instruction_count snap\<rparr>))"

definition adapter_fetch :: "int option \<Rightarrow> int \<Rightarrow> ('h runtime_adapter, instruction_request) act" where
  "adapter_fetch pc sz = when_open (\<lambda>a.
     let s = ra_current a; address = (case pc of None \<Rightarrow> sca_pc (arch_scalar s) | Some p \<Rightarrow> p) in
     if sz \<le> 0 then (Inl (ValueError ''instruction fetch size must be positive''), a)
     else (rbind (guest_read (ra_memory a) address sz) (\<lambda>bs.
             InstructionRequest address bs None (arch_pe_id s) (arch_thread_id s) None []), a))"

definition adapter_begin :: "instruction_request \<Rightarrow> ('h runtime_adapter, instruction_transaction) act" where
  "adapter_begin req = when_open (\<lambda>a.
     if ra_active a \<noteq> None then (Inl (TransactionError ''only one instruction transaction may be active''), a)
     else if ir_pc req \<noteq> sca_pc (arch_scalar (ra_current a)) then
       (Inl (TransactionError ''instruction pc does not match runtime pc''), a)
     else
       case rbind (copy_state (ra_current a)) (\<lambda>before. rbind (copy_state before) (\<lambda>s. Inr (before, s))) of
         Inl e \<Rightarrow> (Inl e, a)
       | Inr (before, s) \<Rightarrow>
           let t = \<lparr>it_request = req, it_initial_state = before, it_state = s, it_memory = guest_begin\<rparr>
           in (Inr t, a\<lparr>ra_active := Some t\<rparr>))"

definition success_statuses :: "string list" where
  "success_statuses = [''committed'', ''passed'', ''executed'']"

definition closed_transaction :: py_error where
  "closed_transaction = TransactionError ''instruction transaction is closed''"

text \<open>
  \<open>InstructionTransaction.commit\<close>: the staged writes reach the memory before the final state is
  checked and copied.
\<close>

definition transaction_commit :: "execution_result \<Rightarrow> ('h runtime_adapter, execution_result) act" where
  "transaction_commit result a =
     (case ra_active a of
        None \<Rightarrow> (Inl closed_transaction, a)
      | Some t \<Rightarrow>
          if exr_status result \<notin> set success_statuses then
            (Inl (TransactionError ''only a successful execution result can commit''), a)
          else
            let final = (exr_final_state result)\<lparr>arch_pe_id := ir_pe_id (it_request t),
                          arch_thread_id := ir_thread_id (it_request t)\<rparr>;
                result' = result\<lparr>exr_final_state := final\<rparr> in
            (case tx_commit (ra_memory a) (it_memory t) of
               Inl e \<Rightarrow> (Inl e, a)
             | Inr (_, tx, m) \<Rightarrow>
                 let a1 = a\<lparr>ra_memory := m, ra_active := Some (t\<lparr>it_memory := tx\<rparr>)\<rparr> in
                 (case copy_state final of
                    Inl e \<Rightarrow> (Inl e, a1)
                  | Inr s \<Rightarrow> (Inr result', (set_state s a1)\<lparr>ra_instruction_count := ra_instruction_count a1 + 1,
                                                         ra_active := None\<rparr>))))"

definition transaction_abort :: "('h runtime_adapter, unit) act" where
  "transaction_abort a =
     (case ra_active a of
        None \<Rightarrow> (Inl closed_transaction, a)
      | Some t \<Rightarrow>
          (case tx_abort (it_memory t) of
             Inl e \<Rightarrow> (Inl e, a)
           | Inr _ \<Rightarrow> (Inr (), a\<lparr>ra_active := None\<rparr>)))"

text \<open>The \<open>except Exception\<close> clause of \<open>step\<close>.\<close>

definition step_recover :: "py_error \<Rightarrow> ('h runtime_adapter, 'a) act" where
  "step_recover e a =
     (if ra_active a = None then (Inl e, a)
      else case transaction_abort a of
             (Inl e', a') \<Rightarrow> (Inl e', a')
           | (Inr _, a') \<Rightarrow> (Inl e, a'))"

text \<open>The \<open>try\<close> clause of \<open>step\<close> after the backend returned.\<close>

definition step_settle :: "execution_result \<Rightarrow> ('h runtime_adapter, execution_result) act" where
  "step_settle result a =
     (case ra_active a of
        None \<Rightarrow> (Inl closed_transaction, a)
      | Some t \<Rightarrow>
          (case envelope_initial (it_initial_state t) (PDict (ra_artifact a)) (PDict []) of
             Inl e \<Rightarrow> (Inl e, a)
           | Inr env \<Rightarrow>
               let r = result\<lparr>exr_initial_state := env, exr_artifact := ra_artifact a\<rparr> in
               if exr_status r \<in> set success_statuses then transaction_commit r a
               else (case transaction_abort a of (Inl e, a') \<Rightarrow> (Inl e, a') | (Inr _, a') \<Rightarrow> (Inr r, a'))))"

definition adapter_step ::
  "execute_fun option \<Rightarrow> instruction_request \<Rightarrow> ('h runtime_adapter, execution_result) act" where
  "adapter_step backend req = when_open (\<lambda>a.
     case backend of
       None \<Rightarrow> (Inl (RuntimeErrorBase ''runtime has no semantic backend''), a)
     | Some exec \<Rightarrow>
         (case adapter_begin req a of
            (Inl e, a1) \<Rightarrow> (Inl e, a1)
          | (Inr t, a1) \<Rightarrow>
              (case exec req (it_state t) (it_memory t, ra_memory a1) of
                 (outcome, tx, m) \<Rightarrow>
                   let a2 = a1\<lparr>ra_memory := m, ra_active := Some (t\<lparr>it_memory := tx\<rparr>)\<rparr> in
                   (case outcome of
                      Inl e \<Rightarrow> step_recover e a2
                    | Inr None \<Rightarrow> step_recover (TypeError ''semantic backend must return ExecutionResult'') a2
                    | Inr (Some result) \<Rightarrow>
                        (case step_settle result a2 of
                           (Inl e, a3) \<Rightarrow> step_recover e a3
                         | (Inr r, a3) \<Rightarrow> (Inr r, a3\<lparr>ra_active := None\<rparr>))))))"

definition adapter_close :: "('h runtime_adapter, unit) act" where
  "adapter_close a =
     (if ra_closed a then (Inr (), a)
      else if ra_active a = None then (Inr (), a\<lparr>ra_closed := True\<rparr>)
      else case transaction_abort a of
             (Inl e, a') \<Rightarrow> (Inl e, a')
           | (Inr _, a') \<Rightarrow> (Inr (), a'\<lparr>ra_closed := True\<rparr>))"

section \<open>The mock host and the callback backend\<close>

record mock_host =
  mh_image :: "program_image option"
  mh_syscall_result :: "int option"
  mh_events :: "(string, pyval) dict list"

definition MockHostAdapter :: "program_image option \<Rightarrow> int option \<Rightarrow> mock_host" where
  "MockHostAdapter img syscall_result = \<lparr>mh_image = img, mh_syscall_result = syscall_result, mh_events = []\<rparr>"

definition mock_load :: "elf_load_request \<Rightarrow> (mock_host, program_image) act" where
  "mock_load req h =
     (case mh_image h of
        None \<Rightarrow> (Inl (RuntimeError ''MockHostAdapter requires a prebuilt ProgramImage''), h)
      | Some img \<Rightarrow>
          (Inr img, h\<lparr>mh_events := mh_events h @ [[(''event'', PStr ''load''),
             (''path'', case el_path req of None \<Rightarrow> PNone | Some p \<Rightarrow> PStr p)]]\<rparr>))"

definition mock_read_syscall_result :: "mock_host \<Rightarrow> int option" where
  "mock_read_syscall_result = mh_syscall_result"

section \<open>Well-formed adapters\<close>

definition snapshot_of_wf :: "memory_snapshot \<Rightarrow> bool" where
  "snapshot_of_wf s \<longleftrightarrow> (\<exists>m. mem_wf m \<and> s = guest_snapshot m)"

text \<open>
  The states the adapter holds are well formed and hold no tuple: they are the default state or
  copies, on which \<^const>\<open>json_state\<close> changes nothing.
\<close>

definition state_ok :: "architecture_state \<Rightarrow> bool" where
  "state_ok s \<longleftrightarrow> architecture_ok s \<and> json_state s = s"

definition adapter_wf :: "'h runtime_adapter \<Rightarrow> bool" where
  "adapter_wf a \<longleftrightarrow> ra_state a < length (ra_objects a) \<and> list_all state_ok (ra_objects a) \<and>
     state_ok (ra_initial_state a) \<and> mem_wf (ra_memory a) \<and> snapshot_of_wf (ra_initial_memory a) \<and>
     json_plain_items (ra_artifact a)"

text \<open>What a client of the adapter can see of it.\<close>

definition observe :: "'h runtime_adapter \<Rightarrow> architecture_state \<times> guest_memory \<times> program_image option \<times> int" where
  "observe a = (ra_current a, ra_memory a, ra_image a, ra_instruction_count a)"

text \<open>
  The contract of a semantic backend: it changes the memory only by staging checked writes in the
  transaction, which it leaves open. Its result is not restricted.
\<close>

definition backend_stages :: "execute_fun \<Rightarrow> bool" where
  "backend_stages exec \<longleftrightarrow> (\<forall>req s m. architecture_ok s \<longrightarrow>
     (case exec req s (guest_begin, m) of (outcome, tx, m') \<Rightarrow> m' = m \<and> \<not> tx_closed tx \<and> tx_ok m tx))"

lemma copy_state_iff: "copy_state s = Inr s' \<longleftrightarrow> architecture_ok s \<and> s' = json_state s"
  by (simp add: copy_state_def architecture_copy)

lemma copy_state_ok: "state_ok s \<Longrightarrow> copy_state s = Inr s"
  by (simp add: copy_state_iff state_ok_def)

lemma state_ok_json: "architecture_ok s \<Longrightarrow> state_ok (json_state s)"
  by (simp add: state_ok_def json_state_idem)

lemma copy_state_Inr: "copy_state s = Inr s' \<Longrightarrow> state_ok s'"
  by (simp add: copy_state_iff state_ok_json)

lemma adapter_wf_current: "adapter_wf a \<Longrightarrow> state_ok (ra_current a)"
  by (simp add: adapter_wf_def ra_current_def list_all_length)

lemma set_state_simps [simp]:
  "ra_current (set_state s a) = s" "ra_memory (set_state s a) = ra_memory a" "ra_image (set_state s a) = ra_image a"
  "ra_instruction_count (set_state s a) = ra_instruction_count a" "ra_active (set_state s a) = ra_active a"
  "ra_closed (set_state s a) = ra_closed a" "ra_artifact (set_state s a) = ra_artifact a"
  "ra_objects (set_state s a) = ra_objects a @ [s]" "ra_host (set_state s a) = ra_host a"
  "ra_initial_memory (set_state s a) = ra_initial_memory a" "ra_initial_state (set_state s a) = ra_initial_state a"
  by (simp_all add: set_state_def ra_current_def)

lemma ra_current_simps [simp]:
  "ra_current (a\<lparr>ra_memory := m\<rparr>) = ra_current a" "ra_current (a\<lparr>ra_active := t\<rparr>) = ra_current a"
  "ra_current (a\<lparr>ra_instruction_count := n\<rparr>) = ra_current a" "ra_current (a\<lparr>ra_image := i\<rparr>) = ra_current a"
  "ra_current (a\<lparr>ra_host := h\<rparr>) = ra_current a"
  by (simp_all add: ra_current_def)

lemma adapter_wf_set_state: "adapter_wf a \<Longrightarrow> state_ok s \<Longrightarrow> adapter_wf (set_state s a)"
  by (simp add: adapter_wf_def set_state_def)

lemma adapter_wf_simps [simp]:
  "adapter_wf (a\<lparr>ra_active := t\<rparr>) = adapter_wf a" "adapter_wf (a\<lparr>ra_instruction_count := n\<rparr>) = adapter_wf a"
  "adapter_wf (a\<lparr>ra_image := i\<rparr>) = adapter_wf a" "adapter_wf (a\<lparr>ra_host := h\<rparr>) = adapter_wf a"
  by (simp_all add: adapter_wf_def)

lemma adapter_wf_memory: "adapter_wf a \<Longrightarrow> mem_wf m \<Longrightarrow> adapter_wf (a\<lparr>ra_memory := m\<rparr>)"
  by (simp add: adapter_wf_def)

lemma envelope_initial_ok:
  "architecture_ok s \<Longrightarrow> json_plain_items art \<Longrightarrow>
   envelope_initial s (PDict art) (PDict []) =
     Inr \<lparr>env_kind = ''initial_state'', env_state = s, env_artifact = art, env_metadata = [], env_schema = SCHEMA_ID\<rparr>"
  by (simp add: envelope_initial_def StateEnvelope_Inr envelope_kinds_def envelope_dict_def architecture_plain)

section \<open>Steps are atomic\<close>

lemma adapter_begin_ok:
  assumes "adapter_wf a" and "\<not> ra_closed a" and "ra_active a = None" and "ir_pc req = sca_pc (arch_scalar (ra_current a))"
    and "t = \<lparr>it_request = req, it_initial_state = ra_current a, it_state = ra_current a, it_memory = guest_begin\<rparr>"
  shows "adapter_begin req a = (Inr t, a\<lparr>ra_active := Some t\<rparr>)"
  using assms copy_state_ok [OF adapter_wf_current [OF assms(1)]] by (simp add: adapter_begin_def when_open_def Let_def)

lemma adapter_begin_pc:
  assumes "\<not> ra_closed a" and "ra_active a = None" and "ir_pc req \<noteq> sca_pc (arch_scalar (ra_current a))"
  shows "adapter_begin req a = (Inl (TransactionError ''instruction pc does not match runtime pc''), a)"
  using assms by (simp add: adapter_begin_def when_open_def)

text \<open>Settling a result while a transaction is active whose memory transaction is open.\<close>

definition settled_env :: "instruction_transaction \<Rightarrow> 'h runtime_adapter \<Rightarrow> state_envelope" where
  "settled_env t a = \<lparr>env_kind = ''initial_state'', env_state = it_initial_state t, env_artifact = ra_artifact a,
     env_metadata = [], env_schema = SCHEMA_ID\<rparr>"

definition settled_final :: "instruction_transaction \<Rightarrow> execution_result \<Rightarrow> architecture_state" where
  "settled_final t r = (exr_final_state r)\<lparr>arch_pe_id := ir_pe_id (it_request t), arch_thread_id := ir_thread_id (it_request t)\<rparr>"

lemma envelope_initial_settled:
  "adapter_wf a \<Longrightarrow> architecture_ok (it_initial_state t) \<Longrightarrow>
   envelope_initial (it_initial_state t) (PDict (ra_artifact a)) (PDict []) = Inr (settled_env t a)"
  unfolding settled_env_def by (rule envelope_initial_ok) (simp_all add: adapter_wf_def)

lemma step_settle_failure:
  assumes "adapter_wf a" and "ra_active a = Some t" and "\<not> tx_closed (it_memory t)" and "architecture_ok (it_initial_state t)"
    and "exr_status r \<notin> set success_statuses"
  shows "step_settle r a =
    (Inr (r\<lparr>exr_initial_state := settled_env t a, exr_artifact := ra_artifact a\<rparr>), a\<lparr>ra_active := None\<rparr>)"
  using assms(2,3,5) envelope_initial_settled [OF assms(1,4)]
  by (simp add: step_settle_def transaction_abort_def tx_abort_def tx_check_open_def Let_def)

lemma step_settle_success:
  assumes "adapter_wf a" and "ra_active a = Some t" and "\<not> tx_closed (it_memory t)" and "architecture_ok (it_initial_state t)"
    and "exr_status r \<in> set success_statuses" and "architecture_ok (settled_final t r)"
  obtains a' where "step_settle r a =
      (Inr (r\<lparr>exr_initial_state := settled_env t a, exr_artifact := ra_artifact a, exr_final_state := settled_final t r\<rparr>), a')"
    and "observe a' = (json_state (settled_final t r), foldl apply_write (ra_memory a) (tx_writes (it_memory t)), ra_image a,
      ra_instruction_count a + 1)"
    and "ra_active a' = None" and "tx_ok (ra_memory a) (it_memory t) \<longrightarrow> adapter_wf a'"
proof -
  let ?m = "foldl apply_write (ra_memory a) (tx_writes (it_memory t))"
  let ?a = "(set_state (json_state (settled_final t r))
      (a\<lparr>ra_memory := ?m, ra_active := Some (t\<lparr>it_memory := (it_memory t)\<lparr>tx_closed := True\<rparr>\<rparr>)\<rparr>))
      \<lparr>ra_instruction_count := ra_instruction_count a + 1, ra_active := None\<rparr>"
  have commit: "tx_commit (ra_memory a) (it_memory t) = Inr (tx_writes (it_memory t), (it_memory t)\<lparr>tx_closed := True\<rparr>, ?m)"
    using assms(3) by (simp add: tx_commit_def tx_check_open_def)
  have copied: "copy_state (settled_final t r) = Inr (json_state (settled_final t r))"
    using assms(6) by (simp add: copy_state_iff)
  have "step_settle r a =
      (Inr (r\<lparr>exr_initial_state := settled_env t a, exr_artifact := ra_artifact a, exr_final_state := settled_final t r\<rparr>), ?a)"
    using assms(2,5) envelope_initial_settled [OF assms(1,4)] commit copied
    by (simp add: step_settle_def transaction_commit_def Let_def settled_final_def)
  moreover have "adapter_wf ?a" if "tx_ok (ra_memory a) (it_memory t)"
    using assms(1) state_ok_json [OF assms(6)] mem_wf_tx_commit [OF _ that commit]
    by (simp add: adapter_wf_set_state adapter_wf_memory adapter_wf_def [of a])
  ultimately show ?thesis using that by (simp add: observe_def)
qed

text \<open>
  A successful result whose final state the copy refuses: the writes are committed, the exception
  of the copy is replaced by that of the abort, and the transaction stays active.
\<close>

lemma step_settle_torn:
  assumes "adapter_wf a" and "ra_active a = Some t" and "\<not> tx_closed (it_memory t)" and "architecture_ok (it_initial_state t)"
    and "exr_status r \<in> set success_statuses" and "\<not> architecture_ok (settled_final t r)"
  obtains e where "step_settle r a = (Inl e,
      a\<lparr>ra_memory := foldl apply_write (ra_memory a) (tx_writes (it_memory t)),
        ra_active := Some (t\<lparr>it_memory := (it_memory t)\<lparr>tx_closed := True\<rparr>\<rparr>)\<rparr>)"
proof -
  obtain e where "copy_state (settled_final t r) = Inl e"
    using assms(6) copy_state_iff [of "settled_final t r"] by (cases "copy_state (settled_final t r)") auto
  then show ?thesis
    using that [of e] assms(2,3,5) envelope_initial_settled [OF assms(1,4)]
    by (simp add: step_settle_def transaction_commit_def Let_def settled_final_def tx_commit_def tx_check_open_def)
qed

text \<open>An instruction request that passed its constructor.\<close>

definition request_ok :: "instruction_request \<Rightarrow> bool" where
  "request_ok req \<longleftrightarrow> 0 \<le> ir_pc req \<and> ir_encoding req \<noteq> [] \<and> 0 \<le> ir_pe_id req \<and> 0 \<le> ir_thread_id req"

lemma step_recover_open:
  "ra_active a = Some t \<Longrightarrow> \<not> tx_closed (it_memory t) \<Longrightarrow> step_recover e a = (Inl e, a\<lparr>ra_active := None\<rparr>)"
  by (simp add: step_recover_def transaction_abort_def tx_abort_def tx_check_open_def)

lemma step_recover_closed:
  "ra_active a = Some t \<Longrightarrow> tx_closed (it_memory t) \<Longrightarrow>
   step_recover e a = (Inl (RuntimeError ''memory transaction is closed''), a)"
  by (simp add: step_recover_def transaction_abort_def tx_abort_def tx_check_open_def)

text \<open>
  A step is torn when it starts and the backend reports success with a final state that is not well
  formed once it carries the PE and the thread of the request.
\<close>

definition step_torn ::
  "'h runtime_adapter \<Rightarrow> instruction_request \<Rightarrow> execution_result option res \<Rightarrow> bool" where
  "step_torn a req outcome \<longleftrightarrow> \<not> ra_closed a \<and> ir_pc req = sca_pc (arch_scalar (ra_current a)) \<and>
     (case outcome of
        Inr (Some r) \<Rightarrow> exr_status r \<in> set success_statuses \<and>
          \<not> architecture_ok ((exr_final_state r)\<lparr>arch_pe_id := ir_pe_id req, arch_thread_id := ir_thread_id req\<rparr>)
      | _ \<Rightarrow> False)"

text \<open>The outcome of a step that is not torn, and of one that is.\<close>

definition step_result_ok ::
  "'h runtime_adapter \<Rightarrow> instruction_request \<Rightarrow> memory_transaction \<Rightarrow> execution_result res \<Rightarrow> 'h runtime_adapter \<Rightarrow> bool" where
  "step_result_ok a req tx res a' \<longleftrightarrow>
     ra_active a' = None \<and> adapter_wf a' \<and>
     (case res of
        Inl _ \<Rightarrow> observe a' = observe a
      | Inr r \<Rightarrow> env_state (exr_initial_state r) = ra_current a \<and>
          (if exr_status r \<in> set success_statuses
           then arch_pe_id (exr_final_state r) = ir_pe_id req \<and> arch_thread_id (exr_final_state r) = ir_thread_id req \<and>
                observe a' = (json_state (exr_final_state r), foldl apply_write (ra_memory a) (tx_writes tx), ra_image a,
                  ra_instruction_count a + 1)
           else observe a' = observe a))"

definition step_result_torn ::
  "'h runtime_adapter \<Rightarrow> memory_transaction \<Rightarrow> execution_result res \<Rightarrow> 'h runtime_adapter \<Rightarrow> bool" where
  "step_result_torn a tx res a' \<longleftrightarrow>
     res = Inl (RuntimeError ''memory transaction is closed'') \<and> ra_active a' \<noteq> None \<and>
     observe a' = (ra_current a, foldl apply_write (ra_memory a) (tx_writes tx), ra_image a, ra_instruction_count a)"

lemma adapter_step_unstarted:
  assumes "adapter_wf a" and "ra_active a = None" and "adapter_step (Some exec) req a = (res, a')"
    and "ra_closed a \<or> ir_pc req \<noteq> sca_pc (arch_scalar (ra_current a))"
  shows "a' = a \<and> isl res"
  using assms(2-4) adapter_begin_pc [of a req]
  by (cases "ra_closed a") (auto simp: adapter_step_def when_open_def)

lemma adapter_step_started:
  assumes wf: "adapter_wf a" and idle: "ra_active a = None" "\<not> ra_closed a"
    and pc: "ir_pc req = sca_pc (arch_scalar (ra_current a))" and req: "request_ok req" and be: "backend_stages exec"
    and ex: "exec req (ra_current a) (guest_begin, ra_memory a) = (outcome, tx, m)"
    and st: "adapter_step (Some exec) req a = (res, a')"
  shows "if step_torn a req outcome then step_result_torn a tx res a' else step_result_ok a req tx res a'"
proof -
  define t where "t = \<lparr>it_request = req, it_initial_state = ra_current a, it_state = ra_current a, it_memory = tx\<rparr>"
  have begun: "adapter_begin req a = (Inr (t\<lparr>it_memory := guest_begin\<rparr>), a\<lparr>ra_active := Some (t\<lparr>it_memory := guest_begin\<rparr>)\<rparr>)"
    by (rule adapter_begin_ok [OF wf idle(2,1) pc]) (simp add: t_def)
  have cur: "architecture_ok (ra_current a)" using adapter_wf_current [OF wf] by (simp add: state_ok_def)
  with be have "case exec req (ra_current a) (guest_begin, ra_memory a) of (outcome, tx, m') \<Rightarrow>
        m' = ra_memory a \<and> \<not> tx_closed tx \<and> tx_ok (ra_memory a) tx"
    unfolding backend_stages_def by (elim allE impE) assumption+
  then have m: "m = ra_memory a" and opn: "\<not> tx_closed tx" and tx: "tx_ok (ra_memory a) tx" unfolding ex by simp_all
  define b where "b = a\<lparr>ra_active := Some t\<rparr>"
  have b: "adapter_wf b" "ra_active b = Some t" "\<not> tx_closed (it_memory t)" "architecture_ok (it_initial_state t)"
    "observe b = observe a" "b\<lparr>ra_active := None\<rparr> = a" "ra_memory b = ra_memory a" "it_memory t = tx" "it_request t = req"
    using wf opn cur idle by (simp_all add: b_def t_def observe_def)
  have t: "t\<lparr>it_memory := tx\<rparr> = t" "it_state t = ra_current a" by (simp_all add: t_def)
  have "adapter_step (Some exec) req a =
      (case outcome of
         Inl e \<Rightarrow> step_recover e b
       | Inr None \<Rightarrow> step_recover (TypeError ''semantic backend must return ExecutionResult'') b
       | Inr (Some r) \<Rightarrow> (case step_settle r b of
            (Inl e, a3) \<Rightarrow> step_recover e a3 | (Inr r, a3) \<Rightarrow> (Inr r, a3\<lparr>ra_active := None\<rparr>)))"
    using idle ex by (simp add: adapter_step_def when_open_def begun m Let_def t b_def cong: sum.case_cong option.case_cong)
  note step = this [unfolded st]
  have recover: "step_recover e b = (Inl e :: execution_result res, a)" for e
    using step_recover_open [OF b(2,3), of e] b(6) by simp
  consider (raised) e where "outcome = Inl e" | (other) "outcome = Inr None"
    | (failed) r where "outcome = Inr (Some r)" "exr_status r \<notin> set success_statuses"
    | (torn) r where "outcome = Inr (Some r)" "exr_status r \<in> set success_statuses" "\<not> architecture_ok (settled_final t r)"
    | (fine) r where "outcome = Inr (Some r)" "exr_status r \<in> set success_statuses" "architecture_ok (settled_final t r)"
    by (metis not_None_eq obj_sumE)
  then show ?thesis
  proof cases
    case raised
    with step recover wf idle show ?thesis by (simp add: step_result_ok_def step_torn_def)
  next
    case other
    with step recover wf idle show ?thesis by (simp add: step_result_ok_def step_torn_def)
  next
    case failed
    have "a\<lparr>ra_active := None\<rparr> = a" using idle by (cases a) simp
    then have "a' = a" "res = Inr (r\<lparr>exr_initial_state := settled_env t b, exr_artifact := ra_artifact b\<rparr>)"
      using step failed b(6) step_settle_failure [OF b(1-4) failed(2)] by simp_all
    with failed wf idle show ?thesis by (simp add: step_result_ok_def step_torn_def settled_env_def t_def)
  next
    case torn
    obtain e where "step_settle r b = (Inl e, b\<lparr>ra_memory := foldl apply_write (ra_memory b) (tx_writes (it_memory t)),
        ra_active := Some (t\<lparr>it_memory := (it_memory t)\<lparr>tx_closed := True\<rparr>\<rparr>)\<rparr>)"
      by (rule step_settle_torn [OF b(1-4) torn(2,3)])
    with step torn(1) have "(res, a') = step_recover e (b\<lparr>ra_memory := foldl apply_write (ra_memory a) (tx_writes tx),
        ra_active := Some (t\<lparr>it_memory := tx\<lparr>tx_closed := True\<rparr>\<rparr>)\<rparr>)" by (simp add: b(7,8))
    then have "step_result_torn a tx res a'"
      by (subst (asm) step_recover_closed) (auto simp: step_result_torn_def observe_def b_def)
    moreover have "step_torn a req outcome"
      using torn idle pc b(9) by (simp add: step_torn_def settled_final_def)
    ultimately show ?thesis by simp
  next
    case fine
    have final: "architecture_ok (settled_final t r)" using fine(3) .
    have no: "\<not> step_torn a req outcome" using fine b(9) by (simp add: step_torn_def settled_final_def)
    obtain c where c: "step_settle r b =
        (Inr (r\<lparr>exr_initial_state := settled_env t b, exr_artifact := ra_artifact b, exr_final_state := settled_final t r\<rparr>), c)"
      "observe c = (json_state (settled_final t r), foldl apply_write (ra_memory b) (tx_writes (it_memory t)), ra_image b, ra_instruction_count b + 1)"
      "ra_active c = None" "tx_ok (ra_memory b) (it_memory t) \<longrightarrow> adapter_wf c"
      by (rule step_settle_success [OF b(1-4) fine(2) final])
    have "a' = c\<lparr>ra_active := None\<rparr>"
      "res = Inr (r\<lparr>exr_initial_state := settled_env t b, exr_artifact := ra_artifact b, exr_final_state := settled_final t r\<rparr>)"
      using step fine(1) c(1) by simp_all
    with c(2-4) fine(2) tx no show ?thesis
      by (simp add: step_result_ok_def settled_env_def settled_final_def t_def b_def observe_def)
  qed
qed

section \<open>Snapshots\<close>

text \<open>The operations of a client between a snapshot and its restore; a raised exception is caught.\<close>

datatype adapter_op =
    OpReset "architecture_state option"
  | OpRestore runtime_snapshot
  | OpFetch "int option" int
  | OpStep instruction_request
  | OpBegin instruction_request
  | OpCommit execution_result
  | OpAbort

fun apply_op :: "execute_fun option \<Rightarrow> adapter_op \<Rightarrow> 'h runtime_adapter \<Rightarrow> 'h runtime_adapter" where
  "apply_op backend (OpReset s) a = snd (adapter_reset s a)"
| "apply_op backend (OpRestore snap) a = snd (adapter_restore snap a)"
| "apply_op backend (OpFetch pc n) a = snd (adapter_fetch pc n a)"
| "apply_op backend (OpStep req) a = snd (adapter_step backend req a)"
| "apply_op backend (OpBegin req) a = snd (adapter_begin req a)"
| "apply_op backend (OpCommit r) a = snd (transaction_commit r a)"
| "apply_op backend OpAbort a = snd (transaction_abort a)"

definition run_ops :: "execute_fun option \<Rightarrow> adapter_op list \<Rightarrow> 'h runtime_adapter \<Rightarrow> 'h runtime_adapter" where
  "run_ops backend ops a = fold (apply_op backend) ops a"

text \<open>These operations only add state objects, and do not close the adapter.\<close>

definition extends :: "'h runtime_adapter \<Rightarrow> 'h runtime_adapter \<Rightarrow> bool" where
  "extends a b \<longleftrightarrow> (\<exists>xs. ra_objects b = ra_objects a @ xs) \<and> ra_closed b = ra_closed a"

lemma extends_refl [simp]: "extends a a"
  by (simp add: extends_def)

lemma extends_trans: "extends a b \<Longrightarrow> extends b c \<Longrightarrow> extends a c"
  by (auto simp: extends_def)

lemma extends_simps [simp]:
  "extends a (b\<lparr>ra_memory := m\<rparr>) = extends a b" "extends a (b\<lparr>ra_active := t\<rparr>) = extends a b"
  "extends a (b\<lparr>ra_instruction_count := n\<rparr>) = extends a b" "extends a (b\<lparr>ra_image := i\<rparr>) = extends a b"
  by (simp_all add: extends_def)

lemma extends_set_state: "extends a b \<Longrightarrow> extends a (set_state s b)"
  by (auto simp: extends_def)

lemma extends_commit: "extends a (snd (transaction_commit r a))"
  by (auto simp: transaction_commit_def Let_def intro!: extends_set_state split: option.splits sum.splits prod.splits)

lemma extends_abort: "extends a (snd (transaction_abort a))"
  by (auto simp: transaction_abort_def split: option.splits sum.splits)

lemma extends_begin: "extends a (snd (adapter_begin req a))"
  by (auto simp: adapter_begin_def when_open_def Let_def split: sum.splits prod.splits)

lemma extends_recover: "extends a (snd (step_recover e a))"
  using extends_abort [of a] by (auto simp: step_recover_def split: sum.splits prod.splits)

lemma extends_settle: "extends a (snd (step_settle r a))"
  using extends_abort [of a] extends_commit [of a]
  by (auto simp: step_settle_def Let_def split: sum.splits prod.splits option.splits)

lemma extends_step: "extends a (snd (adapter_step backend req a))"
proof (cases "ra_closed a")
  case False
  show ?thesis
  proof (cases backend)
    case (Some exec)
    obtain b a1 where b: "adapter_begin req a = (b, a1)" by (cases "adapter_begin req a")
    then have e1: "extends a a1" using extends_begin [of a req] by simp
    show ?thesis
    proof (cases b)
      case (Inr t)
      obtain out tx m where ex: "exec req (it_state t) (it_memory t, ra_memory a1) = (out, tx, m)"
        by (rule prod_cases3)
      define a2 where "a2 = a1\<lparr>ra_memory := m, ra_active := Some (t\<lparr>it_memory := tx\<rparr>)\<rparr>"
      have e2: "extends a a2" using e1 by (simp add: a2_def)
      have rec: "extends a (snd (step_recover e c))" if "extends a c" for e and c :: "'a runtime_adapter"
        using extends_trans [OF that extends_recover] .
      have "adapter_step backend req a = (case out of
             Inl e \<Rightarrow> step_recover e a2
           | Inr None \<Rightarrow> step_recover (TypeError ''semantic backend must return ExecutionResult'') a2
           | Inr (Some result) \<Rightarrow> (case step_settle result a2 of
               (Inl e, a3) \<Rightarrow> step_recover e a3 | (Inr r, a3) \<Rightarrow> (Inr r, a3\<lparr>ra_active := None\<rparr>)))"
        using Some False b Inr ex by (simp add: adapter_step_def when_open_def a2_def Let_def cong: sum.case_cong option.case_cong)
      moreover have "extends a (snd (step_settle r a2))" for r using extends_trans [OF e2 extends_settle] .
      ultimately show ?thesis using rec e2
        by (auto split: sum.splits option.splits prod.splits) (metis snd_conv)+
    qed (use Some False b e1 in \<open>simp add: adapter_step_def when_open_def\<close>)
  qed (simp add: adapter_step_def when_open_def)
qed (simp add: adapter_step_def when_open_def)

lemma extends_op: "extends a (apply_op backend op a)"
proof (cases op)
  case (OpReset s)
  then show ?thesis
    by (auto simp: adapter_reset_def when_open_def intro!: extends_set_state split: sum.splits)
next
  case (OpRestore snap)
  then show ?thesis
    by (auto simp: adapter_restore_def when_open_def intro!: extends_set_state split: sum.splits)
next
  case (OpFetch pc n)
  then show ?thesis by (auto simp: adapter_fetch_def when_open_def Let_def)
qed (simp_all add: extends_step extends_begin extends_commit extends_abort)

lemma extends_run: "extends a (run_ops backend ops a)"
  unfolding run_ops_def by (induction ops arbitrary: a) (auto intro: extends_trans extends_op)

lemma restore_extended:
  assumes wf: "adapter_wf a" and opn: "\<not> ra_closed a" and ext: "extends a b" and idle: "ra_active b = None"
    and snap: "rsn_state snap = ra_state a"
  shows "adapter_restore snap b = (Inr (), (set_state (ra_current a) b)\<lparr>ra_memory := guest_restore (ra_memory b) (rsn_memory snap),
     ra_image := rsn_image snap, ra_instruction_count := rsn_instruction_count snap\<rparr>)"
proof -
  have "ra_state a < length (ra_objects a)" using wf by (simp add: adapter_wf_def)
  with ext have "ra_objects b ! rsn_state snap = ra_current a"
    by (auto simp: extends_def ra_current_def snap nth_append)
  moreover have "\<not> ra_closed b" using ext opn by (simp add: extends_def)
  ultimately show ?thesis
    using idle copy_state_ok [OF adapter_wf_current [OF wf]] by (simp add: adapter_restore_def when_open_def)
qed

lemma adapter_snapshot_Inr:
  "adapter_snapshot a = (Inr snap, a1) \<Longrightarrow> a1 = a \<and> \<not> ra_closed a \<and> rsn_state snap = ra_state a \<and>
     rsn_memory snap = guest_snapshot (ra_memory a) \<and> rsn_image snap = ra_image a \<and>
     rsn_instruction_count snap = ra_instruction_count a"
  by (auto simp: adapter_snapshot_def when_open_def Let_def split: if_splits sum.splits)

section \<open>Theorems\<close>


text \<open>
  C32: A snapshot restores exactly. After any sequence of resets, restores, fetches, steps and
  transactions, successful or not, restoring a snapshot brings back the state, the image and the
  count of the moment it was taken, and a memory with the same regions and the same result of
  every read. (Loading another program in between is excluded: it changes the state object the
  snapshot refers to.)
\<close>

theorem adapter_snapshot_restores:
  assumes wf: "adapter_wf a" and snap: "adapter_snapshot a = (Inr snap, a1)"
    and ran: "a2 = run_ops backend ops a1" and idle: "ra_active a2 = None"
  shows "\<exists>a3. adapter_restore snap a2 = (Inr (), a3) \<and> ra_current a3 = ra_current a \<and> ra_image a3 = ra_image a \<and>
    ra_instruction_count a3 = ra_instruction_count a \<and> gm_regions (ra_memory a3) = gm_regions (ra_memory a) \<and>
    (\<forall>addr n. guest_read (ra_memory a3) addr n = guest_read (ra_memory a) addr n)"
proof -
  note s = adapter_snapshot_Inr [OF snap]
  have "extends a a2" using extends_run [of a1 backend ops] s ran by simp
  from restore_extended [OF wf _ this idle] s wf show ?thesis
    by (auto simp: adapter_wf_def restore_snapshot_same) (simp_all add: guest_restore_def guest_snapshot_def)
qed

subsection \<open>Witnesses\<close>

text \<open>A backend that stores one byte at address 16 and moves the program counter by 4.\<close>

definition demo_result_for :: "string \<Rightarrow> architecture_state \<Rightarrow> architecture_state \<Rightarrow> execution_result" where
  "demo_result_for status before after =
     \<lparr>exr_instruction = ''store'', exr_status = status,
      exr_initial_state = \<lparr>env_kind = ''initial_state'', env_state = before, env_artifact = [], env_metadata = [],
        env_schema = SCHEMA_ID\<rparr>,
      exr_final_state = after, exr_memory_effects = [], exr_fault = arch_fault before, exr_pc_before = None,
      exr_pc_after = None, exr_artifact = [], exr_metadata = [], exr_schema = EXECUTION_RESULT_SCHEMA_ID,
      exr_kind = ''execution_result''\<rparr>"

definition advance :: "architecture_state \<Rightarrow> architecture_state" where
  "advance s = s\<lparr>arch_scalar := (arch_scalar s)\<lparr>sca_pc := sca_pc (arch_scalar s) + 4\<rparr>\<rparr>"

definition demo_execute :: "(architecture_state \<Rightarrow> architecture_state) \<Rightarrow> execute_fun" where
  "demo_execute f req s = (\<lambda>(tx, m).
     case tx_write m tx 16 [7] of
       Inl e \<Rightarrow> (Inl e, tx, m)
     | Inr tx' \<Rightarrow> (Inr (Some (demo_result_for ''committed'' s (f s))), tx', m))"

lemma demo_execute_stages: "backend_stages (demo_execute f)"
proof -
  have "\<not> tx_closed tx" if "tx_write m guest_begin 16 [7] = Inr tx" for m tx
    using that by (auto simp: tx_write_def guest_begin_def res_simps)
  then show ?thesis
    by (auto simp: backend_stages_def demo_execute_def split: sum.splits intro: tx_ok_write [OF tx_ok_begin])
      (simp_all add: guest_begin_def tx_ok_def)
qed

definition demo_memory :: guest_memory where
  "demo_memory = \<lparr>gm_regions = [\<lparr>gr_base = 0, gr_size = 32, gr_permissions = ''rwx'', gr_name = []\<rparr>], gm_bytes = []\<rparr>"

lemma demo_memory_wf: "mem_wf demo_memory"
  by (simp add: demo_memory_def mem_wf_def regions_wf_def region_ok_def)

definition demo_image :: program_image where
  "demo_image = \<lparr>pi_entry_point = 8, pi_segments = [\<lparr>ps_address = 0, ps_data = [1, 2], ps_memory_size = 32,
      ps_permissions = ''rwx'', ps_alignment = 1, ps_name = ''text''\<rparr>],
     pi_stack_pointer = None, pi_symbols = [], pi_metadata = [], pi_format = ''elf''\<rparr>"

definition demo_adapter :: "mock_host runtime_adapter" where
  "demo_adapter = RuntimeAdapter (MockHostAdapter (Some demo_image) None) demo_memory []"

definition demo_request :: instruction_request where
  "demo_request = \<lparr>ir_pc = 0, ir_encoding = [1, 2, 3, 4], ir_mnemonic = None, ir_pe_id = 1, ir_thread_id = 0,
     ir_block_id = None, ir_metadata = []\<rparr>"

lemma demo_adapter_wf: "adapter_wf demo_adapter"
proof -
  have "state_ok default_architecture_state" by code_simp
  then show ?thesis
    using demo_memory_wf by (auto simp: adapter_wf_def demo_adapter_def RuntimeAdapter_def snapshot_of_wf_def)
qed

definition spoil :: "architecture_state \<Rightarrow> architecture_state" where
  "spoil s = s\<lparr>arch_cycle := - 1\<rparr>"

definition demo_outcome :: "(architecture_state \<Rightarrow> architecture_state) \<Rightarrow> execution_result option res" where
  "demo_outcome f = Inr (Some (demo_result_for ''committed'' (ra_current demo_adapter) (f (ra_current demo_adapter))))"


definition demo_ops :: "adapter_op list" where
  "demo_ops = [OpStep demo_request, OpReset None, OpBegin demo_request, OpAbort]"

theorem adapter_snapshot_restores_witness:
  "\<exists>snap a3. adapter_snapshot demo_adapter = (Inr snap, demo_adapter) \<and>
     adapter_restore snap (run_ops (Some (demo_execute advance)) demo_ops demo_adapter) = (Inr (), a3) \<and>
     ra_current a3 = ra_current demo_adapter"
proof -
  have "\<not> isl (fst (adapter_snapshot demo_adapter))" by code_simp
  then obtain snap a1 where snap: "adapter_snapshot demo_adapter = (Inr snap, a1)"
    by (cases "adapter_snapshot demo_adapter"; cases "fst (adapter_snapshot demo_adapter)") auto
  have a1: "a1 = demo_adapter" using adapter_snapshot_Inr [OF snap] by simp
  have "ra_active (run_ops (Some (demo_execute advance)) demo_ops demo_adapter) = None" by code_simp
  with adapter_snapshot_restores [OF demo_adapter_wf snap refl, of "Some (demo_execute advance)" demo_ops] snap a1
  show ?thesis by auto
qed

section \<open>Two limits of the adapter\<close>

text \<open>
  Loading a program between a snapshot and its restore changes the snapshot: the program counter
  of the demo adapter is 0 when the snapshot is taken, and 8, the entry point of the loaded image,
  after the restore.
\<close>

definition demo_load_request :: elf_load_request where
  "demo_load_request = \<lparr>el_path = Some ''a.elf'', el_image = None, el_requested_base = None, el_expected_machine = None,
     el_metadata = []\<rparr>"

lemma load_changes_snapshot:
  "(case adapter_snapshot demo_adapter of
      (Inr snap, a1) \<Rightarrow>
        (case adapter_load mock_load demo_load_request a1 of
           (Inr _, a2) \<Rightarrow> (case adapter_restore snap a2 of
              (Inr _, a3) \<Rightarrow> Some (sca_pc (arch_scalar (ra_current demo_adapter)), sca_pc (arch_scalar (ra_current a3)))
            | _ \<Rightarrow> None)
         | _ \<Rightarrow> None)
    | _ \<Rightarrow> None) = Some (0, 8)"
  by code_simp

text \<open>
  A backend whose final state is not well formed breaks the atomicity of the step: the staged byte
  reaches the memory, the state and the count do not change, and the transaction stays active, so
  that every later step is refused.
\<close>

lemma malformed_final_state_tears_step:
  "(case adapter_step (Some (demo_execute spoil)) demo_request demo_adapter of
      (res, a) \<Rightarrow> (isl res, mem_val (ra_memory a) 16, ra_instruction_count a, ra_active a = None,
                  fst (adapter_step (Some (demo_execute advance)) demo_request a))) =
   (True, 7, 0, False, Inl (TransactionError ''only one instruction transaction may be active''))"
  by code_simp

end
