(* ===== verification/Closure_Run.thy ===== *)
theory Closure_Run
  imports Hosted_Run
begin

text \<open>
  The closure orchestration of \<open>pto_asl_model/closure.py\<close>: identities of the checkouts, the AVS
  corpus and its digest, the impact report, the selection of cases, the sidecar written for a case,
  the execution of a case and the payload and envelope of a whole closure.

  The answers of \<open>git\<close>, the files of a case directory, the compiler and linker processes,
  \<open>str.format_map\<close>, the identities of the tools, SHA-256 and ASLRef are parameters. Wall-clock
  deadlines are answers of the environment: a stage may find its deadline expired.
\<close>

section \<open>Identities\<close>

definition MODEL_ABI :: string where "MODEL_ABI = ''pto-asl-model-experimental-v2''"
definition WORKER_PROTOCOL :: string where "WORKER_PROTOCOL = ''pto-asl-worker-v1''"
definition CASE_FILE :: string where "CASE_FILE = ''case.yaml''"

record git_identity =
  gi_repository :: string
  gi_commit :: string
  gi_tree :: string

definition git_identity_val :: "git_identity \<Rightarrow> pyval" where
  "git_identity_val g = PDict [(''repository'', PStr (gi_repository g)), (''commit'', PStr (gi_commit g)), (''tree'', PStr (gi_tree g))]"

definition model_run_lock :: "(string, pyval) dict \<Rightarrow> git_identity \<Rightarrow> git_identity \<Rightarrow> (string, pyval) dict" where
  "model_run_lock identity pto_identity aslref_identity =
     [(''schema'', PStr ''pto-asl-model-lock-v1''), (''pto_repository'', PStr (gi_repository pto_identity)),
      (''pto_ref'', PStr (gi_commit pto_identity)), (''pto_commit'', PStr (gi_commit pto_identity)),
      (''pto_tree'', PStr (gi_tree pto_identity)), (''aslref_repository'', PStr (gi_repository aslref_identity)),
      (''aslref_commit'', PStr (gi_commit aslref_identity)), (''architecture_version'', fld identity ''release''),
      (''publication_version'', fld identity ''publication_version''), (''encoding_abi'', fld identity ''encoding_abi''),
      (''encoding_projection_sha256'', fld identity ''encoding_projection_sha256''),
      (''model_abi'', PStr MODEL_ABI), (''worker_protocol'', PStr WORKER_PROTOCOL)]"

text \<open>What \<open>git\<close> answers in a directory; every query may fail.\<close>

record git_checkout =
  gc_present :: bool
  gc_status :: "string res"
  gc_head :: "string res"
  gc_origin :: "string res"
  gc_tree :: "string res"

definition checkout_identity :: "git_checkout \<Rightarrow> (string, pyval) dict \<Rightarrow> git_identity res" where
  "checkout_identity g candidate =
     rbind (guard (gc_present g) ''is not a git checkout'') (\<lambda>_.
     rbind (gc_status g) (\<lambda>status.
     rbind (guard (status = []) ''checkout is dirty'') (\<lambda>_.
     rbind (gc_head g) (\<lambda>commit.
     rbind (guard (fld candidate ''commit'' = PStr commit) ''commit mismatch'') (\<lambda>_.
     rbind (gc_origin g) (\<lambda>origin.
     rbind (canonical_repository_url origin) (\<lambda>repository.
     rbind (guard (fld candidate ''repository'' = PStr repository) ''origin mismatch'') (\<lambda>_.
     rbind (gc_tree g) (\<lambda>tree.
       Inr \<lparr>gi_repository = repository, gi_commit = commit, gi_tree = tree\<rparr>)))))))))"

definition dependency_identity :: "git_checkout \<Rightarrow> string \<Rightarrow> string \<Rightarrow> git_identity res" where
  "dependency_identity g repository commit =
     rbind (guard (gc_present g) ''missing checkout'') (\<lambda>_.
     rbind (gc_head g) (\<lambda>actual_commit.
     rbind (gc_origin g) (\<lambda>origin.
     rbind (canonical_repository_url origin) (\<lambda>actual_repository.
     rbind (guard (actual_commit = commit \<and> actual_repository = repository) ''checkout identity mismatch'') (\<lambda>_.
     rbind (gc_status g) (\<lambda>status.
     rbind (guard (status = []) ''checkout is dirty'') (\<lambda>_.
     rbind (gc_tree g) (\<lambda>tree.
       Inr \<lparr>gi_repository = repository, gi_commit = commit, gi_tree = tree\<rparr>))))))))"

section \<open>The corpus\<close>

text \<open>A directory with a case file: its name, the parsed case file and the files in it.\<close>

record case_dir =
  cd_name :: string
  cd_document :: pyval
  cd_file :: "string \<Rightarrow> byte list option"

type_synonym corpus = "(string, case_dir \<times> (string, pyval) dict) dict"

definition row_val :: "pyval \<Rightarrow> (string, pyval) dict" where
  "row_val v = (case v of PDict d \<Rightarrow> d | _ \<Rightarrow> [])"

definition texts_of :: "pyval \<Rightarrow> string list" where
  "texts_of v = (case v of PList xs \<Rightarrow> map text_of xs | _ \<Rightarrow> [])"

definition golden_name :: "(string, pyval) dict \<Rightarrow> string" where
  "golden_name c = text_of (fld (row_val (fld c ''golden'')) ''path'')"

definition load_case :: "(byte list \<Rightarrow> string) \<Rightarrow> case_dir \<Rightarrow> corpus \<Rightarrow> corpus res" where
  "load_case sha d cases =
     rbind (c_object (cd_document d)) (\<lambda>_.
     rbind (validate_case (cd_document d)) (\<lambda>c.
     let case_id = text_of (fld c ''case_id'') in
     rbind (guard (cd_name d = case_id) ''directory and case_id differ'') (\<lambda>_.
     rbind (guard (case_id \<notin> set (map fst cases)) ''duplicate AVS case_id'') (\<lambda>_.
     (case (cd_file d (text_of (fld c ''source'')), cd_file d (text_of (fld c ''linker_script'')), cd_file d (golden_name c)) of
        (Some _, Some _, Some golden) \<Rightarrow>
          rbind (guard (fld (row_val (fld c ''golden'')) ''sha256'' = PStr (sha golden)) ''independent golden digest mismatch'') (\<lambda>_.
            Inr (cases @ [(case_id, (d, c))]))
      | _ \<Rightarrow> Inl (ValueError ''source, linker script, or golden file is missing''))))))"

text \<open>\<open>root.glob\<close> sorted: the directories by name.\<close>

definition load_cases :: "(byte list \<Rightarrow> string) \<Rightarrow> case_dir list \<Rightarrow> corpus res" where
  "load_cases sha dirs =
     rbind (rfold (load_case sha) (sort_key cd_name dirs) []) (\<lambda>cases.
     rbind (guard (cases \<noteq> []) ''AVS corpus contains no cases'') (\<lambda>_. Inr cases))"

definition file_sha256 :: "(byte list \<Rightarrow> string) \<Rightarrow> case_dir \<Rightarrow> string \<Rightarrow> string res" where
  "file_sha256 sha d name = (case cd_file d name of None \<Rightarrow> Inl (FileNotFoundError name) | Some bs \<Rightarrow> Inr (sha bs))"

definition case_files :: "(string, pyval) dict \<Rightarrow> string list" where
  "case_files c = [CASE_FILE, text_of (fld c ''source''), text_of (fld c ''linker_script''), golden_name c]"

definition project_file ::
  "(byte list \<Rightarrow> string) \<Rightarrow> string \<times> case_dir \<times> string \<Rightarrow> (string, pyval) dict \<Rightarrow> (string, pyval) dict res" where
  "project_file sha e projection =
     (case e of (case_id, d, name) \<Rightarrow>
        rbind (file_sha256 sha d name) (\<lambda>h. Inr (AList.update (case_id @ ''/'' @ name) (PStr h) projection)))"

definition corpus_digest :: "(byte list \<Rightarrow> string) \<Rightarrow> corpus \<Rightarrow> string res" where
  "corpus_digest sha cases =
     rbind (rfold (project_file sha)
              (concat (map (\<lambda>(case_id, d, c). map (\<lambda>name. (case_id, d, name)) (case_files c)) (sort_key fst cases))) []) (\<lambda>projection.
       canonical_sha256 sha (PDict projection))"

section \<open>Impact and selection\<close>

definition removeprefix :: "string \<Rightarrow> string \<Rightarrow> string" where
  "removeprefix p s = (if py_startswith s p then drop (length p) s else s)"

definition conformance_target :: "pyval \<Rightarrow> string list" where
  "conformance_target v =
     (case v of
        PDict item \<Rightarrow>
          (case (fld item ''consumer_uri'', fld item ''target_uri'') of
             (PStr consumer, PStr target) \<Rightarrow> if py_startswith consumer ''ndf://asl-model/'' then [target] else []
           | _ \<Rightarrow> [])
      | _ \<Rightarrow> [])"

definition impact_change :: "string list \<Rightarrow> pyval \<Rightarrow> string list \<Rightarrow> string list res" where
  "impact_change targets v affected =
     (case v of
        PDict item \<Rightarrow>
          (case fld item ''uri'' of
             PStr uri \<Rightarrow>
               rbind (if uri \<in> set targets then Inr True
                      else if py_startswith uri ''ndf://pto-spec/PTO-INST-''
                      then in_text_set [''added'', ''modified'', ''moved''] (fld item ''kind'') else Inr False) (\<lambda>hit.
                 Inr (if hit \<and> uri \<notin> set affected then affected @ [uri] else affected))
           | _ \<Rightarrow> Inl (ValueError ''NDF impact contains a malformed change''))
      | _ \<Rightarrow> Inl (ValueError ''NDF impact contains a malformed change''))"

definition impact_document_clean :: "(string, pyval) dict \<Rightarrow> bool" where
  "impact_document_clean d \<longleftrightarrow>
     fld d ''schema_version'' = PStr ''0.1'' \<and> fld d ''command'' = PStr ''impact pto-release'' \<and> fld d ''ok'' = PBool True \<and>
     fld d ''diagnostics'' = PList []"

definition load_impact :: "(byte list \<Rightarrow> string) \<Rightarrow> pyval \<Rightarrow> (string \<times> string list) res" where
  "load_impact sha v =
     rbind (c_object v) (\<lambda>document.
     rbind (guard (impact_document_clean document) ''NDF impact command did not produce a clean v0.1 result'') (\<lambda>_.
     rbind (case fld document ''data'' of
              PDict report \<Rightarrow> rbind (guard (fld report ''schema_version'' = PStr ''1'') ''NDF PTO release impact report schema mismatch'') (\<lambda>_. Inr report)
            | _ \<Rightarrow> Inl (ValueError ''NDF PTO release impact report schema mismatch'')) (\<lambda>report.
     (case (fld report ''changes'', fld report ''conformance_targets'') of
        (PList changes, PList targets) \<Rightarrow>
          rbind (rfold (impact_change (concat (map conformance_target targets))) changes []) (\<lambda>affected_uris.
          rbind (canonical_sha256 sha (PDict report)) (\<lambda>digest.
            Inr (digest, sort (map (removeprefix ''ndf://pto-spec/'') affected_uris))))
      | _ \<Rightarrow> Inl (ValueError ''NDF impact changes or conformance targets are missing'')))))"

text \<open>\<open>pto_id in case["pto_ids"]\<close>\<close>

definition listed :: "string \<Rightarrow> pyval \<Rightarrow> bool" where
  "listed t v = (case v of PList xs \<Rightarrow> PStr t \<in> set xs | _ \<Rightarrow> False)"

definition matching_cases :: "corpus \<Rightarrow> string \<Rightarrow> string list" where
  "matching_cases cases pto_id = concat (map (\<lambda>(case_id, _, c). if listed pto_id (fld c ''pto_ids'') then [case_id] else []) cases)"

definition case_obligations :: "corpus \<Rightarrow> string \<Rightarrow> string list" where
  "case_obligations cases case_id =
     (case map_of cases case_id of None \<Rightarrow> [] | Some (_, c) \<Rightarrow> texts_of (fld c ''obligation_ids''))"

text \<open>Sets of identifiers are kept as lists without repetition; \<open>set.update\<close> adds what is missing.\<close>

fun set_update :: "string list \<Rightarrow> string list \<Rightarrow> string list" where
  "set_update selected [] = selected"
| "set_update selected (x # xs) = set_update (if x \<in> set selected then selected else selected @ [x]) xs"

text \<open>The loop over the affected identities, with \<open>selected\<close> and \<open>uncovered\<close>.\<close>

fun select_loop :: "corpus \<Rightarrow> string list \<Rightarrow> string list \<Rightarrow> string list \<Rightarrow> string list \<times> string list" where
  "select_loop cases [] selected uncovered = (selected, uncovered)"
| "select_loop cases (pto_id # affected) selected uncovered =
     (let matches = matching_cases cases pto_id in
      if matches = [] then select_loop cases affected selected (uncovered @ [pto_id])
      else select_loop cases affected (set_update selected matches) uncovered)"

definition select_cases :: "corpus \<Rightarrow> string list \<Rightarrow> string list \<Rightarrow> (string list \<times> string list) res" where
  "select_cases cases affected mandatory =
     (let unknown_mandatory = filter (\<lambda>i. i \<notin> set (map fst cases)) mandatory in
      rbind (guard (unknown_mandatory = []) ''unknown mandatory cases'') (\<lambda>_.
      case select_loop cases affected (set_update [] mandatory) [] of
        (selected, uncovered) \<Rightarrow>
          rbind (guard (uncovered = []) ''affected PTO identities have no AVS case'') (\<lambda>_.
          rbind (guard (selected \<noteq> []) ''closure selected no AVS cases'') (\<lambda>_.
          let obligations = sort (set_update [] (concat (map (case_obligations cases) selected))) in
          rbind (guard (obligations \<noteq> []) ''selected cases provide no obligations'') (\<lambda>_.
            Inr (sort selected, obligations))))))"


section \<open>The sidecar of a case\<close>

definition case_symbols :: "string list" where
  "case_symbols = [''start_symbol'', ''return_symbol'', ''stop_symbol'', ''result_symbol'', ''result_size_symbol'']"

text \<open>\<open>_sidecar\<close> for a parsed ELF; the golden file is given by its name and digest.\<close>

definition sidecar_row ::
  "string \<Rightarrow> (string, pyval) dict \<Rightarrow> string \<Rightarrow> hosted_image \<Rightarrow> string \<Rightarrow> string \<Rightarrow> string \<Rightarrow> (string \<Rightarrow> hosted_symbol) \<Rightarrow> (string, pyval) dict" where
  "sidecar_row case_id c elf_name img golden_file golden_sha pto_commit symbols =
     (let execution = row_val (fld c ''execution''); model = row_val (fld c ''model'');
          result = symbols ''result_symbol''; sz = symbols ''result_size_symbol''
      in [(''schema'', PStr SIDECAR_SCHEMA), (''case_id'', PStr case_id), (''identity'', PDict [(''pto_commit'', PStr pto_commit)]),
          (''elf'', PDict [(''path'', PStr elf_name), (''sha256'', PStr (hi_sha256 img)), (''machine'', PInt PTO_ELF_MACHINE),
             (''entry'', PInt (hi_entry img)), (''segments'', PList (map segment_record (hi_segments img)))]),
          (''model'', PDict [(''profile'', PStr ''bounded-reference-v1''), (''pe_count'', PInt 1),
             (''memory_bytes'', fld model ''memory_bytes''), (''tile_elements'', fld model ''tile_elements''),
             (''runtime_typecheck'', fld model ''runtime_typecheck'')]),
          (''start'', PDict [(''symbol'', fld execution ''start_symbol''), (''pc'', PInt (sy_value (symbols ''start_symbol''))),
             (''acr'', fld execution ''start_acr''), (''return_symbol'', fld execution ''return_symbol''),
             (''return_pc'', PInt (sy_value (symbols ''return_symbol'')))]),
          (''execution'', PDict [(''stop_symbol'', fld execution ''stop_symbol''), (''stop_pc'', PInt (sy_value (symbols ''stop_symbol''))),
             (''stop_after_hits'', fld execution ''stop_after_hits''), (''max_steps'', fld execution ''max_steps''),
             (''stack_top'', fld execution ''stack_top''), (''host_request'', fld execution ''host_request'')]),
          (''result'', PDict [(''symbol'', fld execution ''result_symbol''), (''size_symbol'', fld execution ''result_size_symbol''),
             (''address'', PInt (sy_value result)), (''size'', PInt (sy_value sz)),
             (''segments'', PList [PDict [(''offset'', PInt 0), (''size'', PInt (sy_value sz)), (''dtype'', PStr ''opaque-bytes''),
                (''shape'', PList [PInt (sy_value sz)]), (''comparison'', PStr ''exact'')]]),
             (''golden'', PDict [(''path'', PStr golden_file), (''sha256'', PStr golden_sha)])])])"

definition symbol_table :: "hosted_image \<Rightarrow> (string, pyval) dict \<Rightarrow> (string \<Rightarrow> hosted_symbol) res" where
  "symbol_table img execution =
     rbind (rmap (\<lambda>name. unique_symbol img (text_of (fld execution name))) case_symbols) (\<lambda>ss.
       Inr (\<lambda>name. the (map_of (zip case_symbols ss) name)))"

definition REFERENCE_MEMORY_BYTES :: int where "REFERENCE_MEMORY_BYTES = 65536"

definition sidecar ::
  "(byte list \<Rightarrow> pyval option) \<Rightarrow> (byte list \<Rightarrow> string) \<Rightarrow> string \<Rightarrow> (string, pyval) dict \<Rightarrow> string \<Rightarrow> byte list \<Rightarrow> string \<Rightarrow>
   byte list \<Rightarrow> string \<Rightarrow> (string, pyval) dict res" where
  "sidecar json_loads sha case_id c elf_name elf golden_file golden pto_commit =
     rbind (parse_elf json_loads sha elf REFERENCE_MEMORY_BYTES False) (\<lambda>img.
     rbind (symbol_table img (row_val (fld c ''execution''))) (\<lambda>symbols.
       Inr (sidecar_row case_id c elf_name img golden_file (sha golden) pto_commit symbols)))"

section \<open>Executing a case\<close>

definition expand :: "(string \<Rightarrow> (string, string) dict \<Rightarrow> string option) \<Rightarrow> string list \<Rightarrow> (string, string) dict \<Rightarrow> string list res" where
  "expand format_map args values =
     rmap (\<lambda>a. case format_map a values of None \<Rightarrow> Inl (ValueError ''unknown command placeholder'') | Some t \<Rightarrow> Inr t) args"

datatype command_outcome = TimedOut | Exited int

definition run_command :: "command_outcome \<Rightarrow> unit res" where
  "run_command r =
     (case r of TimedOut \<Rightarrow> Inl (RuntimeError ''deadline exceeded'')
      | Exited code \<Rightarrow> if code \<noteq> 0 then Inl (RuntimeError ''stage failed'') else Inr ())"

definition remaining_timeout :: "bool \<Rightarrow> unit res" where
  "remaining_timeout expired = (if expired then Inl (RuntimeError ''deadline exceeded'') else Inr ())"

definition hex_space :: "char \<Rightarrow> bool" where
  "hex_space c = (let n = of_char c :: nat in n = 32 \<or> (9 \<le> n \<and> n \<le> 13))"

text \<open>\<open>bytes.fromhex\<close>: pairs of hexadecimal digits, with white space between the bytes.\<close>

fun fromhex :: "string \<Rightarrow> byte list option" where
  "fromhex [] = Some []"
| "fromhex [c] = (if hex_space c then Some [] else None)"
| "fromhex (c # d # cs) =
     (if hex_space c then fromhex (d # cs)
      else (case hex_decode [c, d] of Some [b] \<Rightarrow> map_option (\<lambda>bs. b # bs) (fromhex cs) | _ \<Rightarrow> None))"

definition golden_bytes :: "byte list \<Rightarrow> (string, pyval) dict \<Rightarrow> byte list res" where
  "golden_bytes content c =
     (if fld (row_val (fld c ''golden'')) ''encoding'' = PStr ''raw'' then Inr content
      else if list_ex (\<lambda>b. b \<ge> 128) content then Inl (ValueError ''invalid hexadecimal golden data'')
      else (case fromhex (map byte_char content) of
              None \<Rightarrow> Inl (ValueError ''invalid hexadecimal golden data'') | Some bs \<Rightarrow> Inr bs))"

text \<open>
  What a case meets outside the program: the outcome of a command, the object and the ELF it leaves,
  expired deadlines, the paths the commands are given, and the inputs of the hosted run other than ELF, sidecar and lock.
\<close>

record case_world =
  cw_values :: "(string, string) dict"
  cw_tools :: "string \<Rightarrow> string"
  cw_command :: "string list \<Rightarrow> command_outcome"
  cw_object :: "byte list"
  cw_elf :: "byte list"
  cw_expired :: "string \<Rightarrow> bool"
  cw_inputs :: run_inputs
  cw_aslref :: "string \<Rightarrow> harness \<Rightarrow> run_configuration \<Rightarrow> (int \<times> string) res"

definition case_configuration :: "(string, pyval) dict \<Rightarrow> run_configuration" where
  "case_configuration c = \<lparr>rc_elf_name = ''case.elf'', rc_stop_pc = Some 0, rc_max_steps = 0, rc_result_address = 0, rc_result_size = 0,
     rc_memory_bytes = REFERENCE_MEMORY_BYTES, rc_tile_elements = REFERENCE_TILE_ELEMENTS, rc_runtime_typecheck = ''strict'',
     rc_stop_after_hits = 1, rc_start_pc = 0, rc_start_acr = 0, rc_return_pc = 0, rc_stack_top = 0,
     rc_memory_backend = text_of (fld (row_val (fld c ''model'')) ''backend''), rc_host_request_number = None,
     rc_host_request_argument0 = None, rc_service_request_type = None\<rparr>"

text \<open>The tool and the expanded arguments of a command of the case.\<close>

definition case_commandline ::
  "(string \<Rightarrow> (string, string) dict \<Rightarrow> string option) \<Rightarrow> (string \<Rightarrow> string) \<Rightarrow> (string, string) dict \<Rightarrow> pyval \<Rightarrow> string list res" where
  "case_commandline format_map tools values v =
     (let spec = row_val v in
      rbind (expand format_map (texts_of (fld spec ''arguments'')) values) (\<lambda>args.
        Inr (tools (text_of (fld spec ''tool'')) # args)))"

definition read_golden :: "byte list \<Rightarrow> string \<Rightarrow> byte list res" where
  "read_golden golden name = (if name = ''golden.bin'' then Inr golden else Inl (FileNotFoundError name))"

text \<open>The content \<open>write_canonical_json\<close> gives a file.\<close>

definition canonical_file :: "pyval \<Rightarrow> byte list res" where
  "canonical_file v = rbind (canonical_json_bytes v) (\<lambda>bs. Inr (bs @ [10]))"

text \<open>
  The run of a case through the sidecar. The runner reads back the document that was written, so the
  sidecar is passed as a value.
\<close>

definition hosted_case ::
  "(byte list \<Rightarrow> pyval option) \<Rightarrow> (byte list \<Rightarrow> string) \<Rightarrow> case_world \<Rightarrow> (string, pyval) dict \<Rightarrow> (string, pyval) dict \<Rightarrow>
   (string, pyval) dict \<Rightarrow> byte list \<Rightarrow> (run_outcome \<times> (string, pyval) dict) res" where
  "hosted_case json_loads sha w c run_lock doc golden =
     rbind (canonical_file (PDict doc)) (\<lambda>content.
     hosted_run json_loads sha (read_golden golden) (cw_aslref w)
       ((cw_inputs w)\<lparr>in_elf := cw_elf w, in_sidecar := Some (PDict doc), in_lock := Some run_lock,
                      in_sidecar_name := ''case.sidecar.json'', in_sidecar_sha256 := sha content\<rparr>) (case_configuration c))"

definition case_digests ::
  "(byte list \<Rightarrow> string) \<Rightarrow> case_dir \<Rightarrow> (string, pyval) dict \<Rightarrow> case_world \<Rightarrow> string \<Rightarrow> (string, pyval) dict \<Rightarrow> byte list \<Rightarrow>
   byte list \<Rightarrow> (string, pyval) dict \<Rightarrow> pyval res" where
  "case_digests sha d c w descriptor doc golden result man =
     rbind (file_sha256 sha d (text_of (fld c ''source''))) (\<lambda>source.
     rbind (file_sha256 sha d (text_of (fld c ''linker_script''))) (\<lambda>linker.
     rbind (file_sha256 sha d (golden_name c)) (\<lambda>golden_source.
     rbind (canonical_file (PDict doc)) (\<lambda>sidecar_bytes.
     rbind (canonical_sha256 sha (PDict man)) (\<lambda>semantic.
       Inr (PDict [(''source'', PStr source), (''object'', PStr (sha (cw_object w))), (''elf'', PStr (sha (cw_elf w))),
         (''elf_note_descriptor'', PStr descriptor), (''linker_script'', PStr linker), (''golden_source'', PStr golden_source),
         (''golden'', PStr (sha golden)), (''result'', PStr (sha result)), (''sidecar'', PStr (sha sidecar_bytes)),
         (''model_run_semantic'', PStr semantic)]))))))"

definition case_manifest_row ::
  "string \<Rightarrow> (string, pyval) dict \<Rightarrow> (string, pyval) dict \<Rightarrow> string \<Rightarrow> pyval \<Rightarrow> pyval \<Rightarrow> (string, pyval) dict" where
  "case_manifest_row case_id c closure_lock lock_sha digests final_tpc =
     (let command = (\<lambda>n. let spec = row_val (fld c n) in PDict [(''tool'', fld spec ''tool''), (''arguments'', fld spec ''arguments'')]) in
      [(''schema'', PStr ''pto-closure-case-manifest-v1''), (''case_id'', PStr case_id)] @
      map (\<lambda>n. (n, fld c n)) [''pto_ids'', ''obligation_ids'', ''avs_ids'', ''expected_length_sequence'', ''lane'', ''profile'',
        ''resource_class'', ''timeout_seconds''] @
      [(''execution_policy'', fld c ''execution''), (''closure_lock_sha256'', PStr lock_sha),
       (''repositories'', fld closure_lock ''repositories''), (''tools'', fld closure_lock ''tools''), (''target'', fld closure_lock ''target''),
       (''commands'', PDict [(''compile'', command ''compile''), (''link'', command ''link''),
          (''run'', PDict [(''tool'', PStr ''pto-asl-run''),
             (''arguments'', strings_val [''--sidecar'', ''case.sidecar.json'', ''--elf'', ''case.elf''])])]),
       (''digests'', digests), (''golden_provenance'', fld (row_val (fld c ''golden'')) ''provenance''),
       (''terminal'', PDict [(''status'', PStr ''passed''), (''failure_class'', PStr ''none''), (''final_tpc'', final_tpc)]),
       (''model'', fld c ''model'')])"


definition execute_case ::
  "(byte list \<Rightarrow> pyval option) \<Rightarrow> (byte list \<Rightarrow> string) \<Rightarrow> (string \<Rightarrow> (string, string) dict \<Rightarrow> string option) \<Rightarrow> case_world \<Rightarrow>
   string \<Rightarrow> case_dir \<Rightarrow> (string, pyval) dict \<Rightarrow> (string, pyval) dict \<Rightarrow> string \<Rightarrow> (string, pyval) dict \<Rightarrow> (string, pyval) dict res" where
  "execute_case json_loads sha format_map w case_id d c run_lock pto_commit closure_lock =
     rbind (case_commandline format_map (cw_tools w) (cw_values w) (fld c ''compile'')) (\<lambda>compile_command.
     rbind (case_commandline format_map (cw_tools w) (cw_values w) (fld c ''link'')) (\<lambda>link_command.
     rbind (remaining_timeout (cw_expired w ''compile'')) (\<lambda>_.
     rbind (run_command (cw_command w compile_command)) (\<lambda>_.
     rbind (parse_pto_isa_note json_loads sha (cw_object w)) (\<lambda>object_note.
     rbind (remaining_timeout (cw_expired w ''link'')) (\<lambda>_.
     rbind (run_command (cw_command w link_command)) (\<lambda>_.
     rbind (parse_pto_isa_note json_loads sha (cw_elf w)) (\<lambda>elf_note.
     rbind (guard (note_as_dict object_note = note_as_dict elf_note) ''final ELF identity drift'') (\<lambda>_.
     rbind (case cd_file d (golden_name c) of None \<Rightarrow> Inl (FileNotFoundError (golden_name c)) | Some g \<Rightarrow> golden_bytes g c) (\<lambda>golden.
     rbind (sidecar json_loads sha case_id c ''case.elf'' (cw_elf w) ''golden.bin'' golden pto_commit) (\<lambda>doc.
     rbind (hosted_case json_loads sha w c run_lock doc golden) (\<lambda>(outcome, man).
     rbind (if ro_result outcome = golden then Inr () else Inl (AssertionError ''result differs from independent golden'')) (\<lambda>_.
     rbind (canonical_sha256 sha (PDict closure_lock)) (\<lambda>lock_sha.
     rbind (case_digests sha d c w (pn_descriptor_sha256 elf_note) doc golden (ro_result outcome) man) (\<lambda>digests.
       Inr (case_manifest_row case_id c closure_lock lock_sha digests (fld man ''final_tpc'')))))))))))))))))"

section \<open>The closure\<close>

record closure_arguments =
  ca_backend :: string
  ca_target :: string
  ca_workflow_repository :: string
  ca_workflow_path :: string
  ca_workflow_commit :: string
  ca_run_id :: string
  ca_run_attempt :: int
  ca_timestamp :: string
  ca_runner_image :: string
  ca_builder_identity :: string

text \<open>Checkouts, pins, tools, corpus and impact report the closure finds, and the world of each case.\<close>

record closure_world =
  cl_checkout :: "string \<Rightarrow> git_checkout"
  cl_running_checkout :: bool
  cl_ndf_pin :: string
  cl_aslref_pin :: string
  cl_ndf :: git_checkout
  cl_aslref :: git_checkout
  cl_tool :: "string \<Rightarrow> (string \<times> string) res"
  cl_dirs :: "case_dir list"
  cl_impact :: pyval
  cl_case :: "string \<Rightarrow> case_world"

definition py_contains :: "string \<Rightarrow> string \<Rightarrow> bool" where
  "py_contains p s = list_ex (\<lambda>i. py_startswith (drop i s) p) [0..<Suc (length s)]"

definition NDF_REPOSITORY :: string where "NDF_REPOSITORY = ''https://github.com/PTO-ISA/normative_language.git''"
definition ASLREF_REPOSITORY :: string where "ASLREF_REPOSITORY = ''https://github.com/PTO-ISA/herdtools7.git''"

definition tool_identities :: "closure_world \<Rightarrow> (string, pyval) dict res" where
  "tool_identities w =
     rmap (\<lambda>n. rbind (cl_tool w n) (\<lambda>(path, digest). Inr (n, PDict [(''path'', PStr path), (''sha256'', PStr digest)])))
       [''clang'', ''llvm_mc'', ''ld_lld'', ''aslref'']"

definition case_of :: "corpus \<Rightarrow> string \<Rightarrow> case_dir \<times> (string, pyval) dict" where
  "case_of cases case_id = the (map_of cases case_id)"

definition case_backend :: "corpus \<Rightarrow> string \<Rightarrow> string" where
  "case_backend cases case_id = text_of (fld (row_val (fld (snd (case_of cases case_id)) ''model'')) ''backend'')"

definition closure_lock ::
  "closure_arguments \<Rightarrow> (string, pyval) dict \<Rightarrow> (string \<times> git_identity) list \<Rightarrow> git_identity \<Rightarrow> git_identity \<Rightarrow> (string, pyval) dict \<Rightarrow>
   string \<Rightarrow> string list \<Rightarrow> string list \<Rightarrow> string list \<Rightarrow> string \<Rightarrow> (string, pyval) dict" where
  "closure_lock a rq identities ndf aslref tools corpus_sha selected affected obligations obligations_sha =
     [(''schema'', PStr LOCK_SCHEMA), (''identity'', fld rq ''identity''),
      (''repositories'', PDict (map (\<lambda>(n, g). (n, git_identity_val g)) identities @
         [(''normative_language'', git_identity_val ndf), (''aslref'', git_identity_val aslref)])),
      (''tools'', PDict tools), (''target'', PDict [(''triple'', PStr (ca_target a))]),
      (''model'', PDict [(''abi'', PStr MODEL_ABI), (''worker_protocol'', PStr WORKER_PROTOCOL), (''backend'', PStr (ca_backend a)),
         (''profile'', PStr ''bounded-reference-v1'')]),
      (''corpus'', PDict [(''sha256'', PStr corpus_sha), (''case_ids'', strings_val selected)]),
      (''obligations'', PDict [(''affected_pto_ids'', strings_val affected), (''selected'', strings_val obligations),
         (''sha256'', PStr obligations_sha)])]"

definition closure_payload ::
  "(string, pyval) dict \<Rightarrow> string \<Rightarrow> string \<Rightarrow> string list \<Rightarrow> string list \<Rightarrow> string list \<Rightarrow> (string \<times> string) list \<Rightarrow> (string, pyval) dict" where
  "closure_payload lock lock_sha impact_sha affected selected obligations manifests =
     [(''schema'', PStr SEMANTIC_PAYLOAD_SCHEMA), (''closure_lock'', PDict lock), (''closure_lock_sha256'', PStr lock_sha),
      (''ndf_impact'', PDict [(''sha256'', PStr impact_sha), (''affected_pto_ids'', strings_val affected)]),
      (''obligations'', PDict [(''selected'', strings_val obligations), (''completed'', strings_val obligations),
         (''passed'', strings_val obligations), (''failed'', PList [])]),
      (''cases'', PDict [(''selected'', strings_val selected), (''completed'', strings_val selected), (''passed'', strings_val selected),
         (''failed'', PList []), (''skipped'', PList []), (''timeout'', PList []), (''unknown'', PList [])]),
      (''case_manifests'', PList (map (\<lambda>(i, h). PDict [(''case_id'', PStr i), (''sha256'', PStr h)]) manifests))]"

definition closure_artifact ::
  "(byte list \<Rightarrow> string) \<Rightarrow> (string, pyval) dict \<Rightarrow> (string, pyval) dict \<Rightarrow> (string \<times> string) list \<Rightarrow> string res" where
  "closure_artifact sha lock payload manifests =
     rbind (canonical_file (PDict lock)) (\<lambda>lock_file.
     rbind (canonical_file (PDict payload)) (\<lambda>payload_file.
       canonical_sha256 sha (PDict (dict_of (
         [(''closure-lock.json'', PStr (sha lock_file)), (''closure-semantic-payload.json'', PStr (sha payload_file))] @
         map (\<lambda>(i, h). (''cases/'' @ i @ ''/case-manifest.json'', PStr h)) manifests)))))"

definition closure_envelope :: "closure_arguments \<Rightarrow> string \<Rightarrow> string \<Rightarrow> (string, pyval) dict" where
  "closure_envelope a payload_sha artifact_sha =
     [(''schema'', PStr RUN_ENVELOPE_SCHEMA), (''semantic_payload_sha256'', PStr payload_sha),
      (''workflow'', PDict [(''repository'', PStr (ca_workflow_repository a)), (''path'', PStr (ca_workflow_path a)),
         (''commit'', PStr (ca_workflow_commit a))]),
      (''run'', PDict [(''id'', PStr (ca_run_id a)), (''attempt'', PInt (ca_run_attempt a)), (''timestamp'', PStr (ca_timestamp a))]),
      (''runner'', PDict [(''image'', PStr (ca_runner_image a)), (''builder_identity'', PStr (ca_builder_identity a))]),
      (''artifact_sha256'', PStr artifact_sha), (''attestation'', PNone)]"

text \<open>One case of the selection: its manifest and the digest of it.\<close>

definition selected_case ::
  "(byte list \<Rightarrow> pyval option) \<Rightarrow> (byte list \<Rightarrow> string) \<Rightarrow> (string \<Rightarrow> (string, string) dict \<Rightarrow> string option) \<Rightarrow> closure_world \<Rightarrow>
   corpus \<Rightarrow> (string, pyval) dict \<Rightarrow> string \<Rightarrow> (string, pyval) dict \<Rightarrow> string \<Rightarrow> (string \<times> (string, pyval) dict) res" where
  "selected_case json_loads sha format_map w cases run_lock pto_commit lock case_id =
     (case case_of cases case_id of (d, c) \<Rightarrow>
        rbind (execute_case json_loads sha format_map (cl_case w case_id) case_id d c run_lock pto_commit lock) (\<lambda>m. Inr (case_id, m)))"

definition closure_identities ::
  "closure_world \<Rightarrow> (string, pyval) dict \<Rightarrow> ((string \<times> git_identity) list \<times> git_identity \<times> git_identity \<times> (string, pyval) dict) res" where
  "closure_identities w rq =
     rbind (rmap (\<lambda>(n, candidate). rbind (checkout_identity (cl_checkout w n) (row_val candidate)) (\<lambda>g. Inr (n, g)))
              (row_val (fld rq ''repositories''))) (\<lambda>identities.
     rbind (guard (cl_running_checkout w) ''running ASL-MODEL checkout differs from closure request'') (\<lambda>_.
     rbind (guard (py_contains NDF_COMMIT (cl_ndf_pin w)) ''PTO-SPEC ndf.lock does not pin the closure NDF commit'') (\<lambda>_.
     rbind (guard (py_strip (cl_aslref_pin w) = ASLREF_COMMIT) ''PTO-SPEC ASLRef pin mismatch'') (\<lambda>_.
     rbind (dependency_identity (cl_ndf w) NDF_REPOSITORY NDF_COMMIT) (\<lambda>ndf.
     rbind (dependency_identity (cl_aslref w) ASLREF_REPOSITORY ASLREF_COMMIT) (\<lambda>aslref.
     rbind (tool_identities w) (\<lambda>tools. Inr (identities, ndf, aslref, tools))))))))"

definition run_closure ::
  "(byte list \<Rightarrow> pyval option) \<Rightarrow> (byte list \<Rightarrow> string) \<Rightarrow> (string \<Rightarrow> (string, string) dict \<Rightarrow> string option) \<Rightarrow> closure_world \<Rightarrow>
   closure_arguments \<Rightarrow> pyval \<Rightarrow> ((string, pyval) dict \<times> (string, pyval) dict) res" where
  "run_closure json_loads sha format_map w a rqv =
     rbind (c_object rqv) (\<lambda>_.
     rbind (validate_request rqv) (\<lambda>rq.
     rbind (closure_identities w rq) (\<lambda>(identities, ndf, aslref, tools).
     rbind (load_cases sha (cl_dirs w)) (\<lambda>cases.
     rbind (load_impact sha (cl_impact w)) (\<lambda>(impact_sha, affected).
     let policy = row_val (fld rq ''policy'') in
     rbind (guard (fld policy ''affected_pto_ids'' = strings_val affected) ''request and NDF impact affected PTO IDs differ'') (\<lambda>_.
     rbind (select_cases cases affected (texts_of (fld policy ''mandatory_case_ids''))) (\<lambda>(selected, obligations).
     rbind (guard (remdups (map (case_backend cases) selected) = [ca_backend a])
              ''selected case backends do not equal the requested closure backend'') (\<lambda>_.
     rbind (corpus_digest sha cases) (\<lambda>corpus_sha.
     rbind (canonical_sha256 sha (strings_val obligations)) (\<lambda>obligations_sha.
     let lock = closure_lock a rq identities ndf aslref tools corpus_sha selected affected obligations obligations_sha;
         pto = the (map_of identities ''pto_spec'') in
     rbind (validate_lock sha (PDict lock)) (\<lambda>_.
     rbind (rmap (selected_case json_loads sha format_map w cases
                    (model_run_lock (row_val (fld rq ''identity'')) pto aslref) (gi_commit pto) lock) selected) (\<lambda>ms.
     rbind (rmap (\<lambda>(i, m). rbind (canonical_sha256 sha (PDict m)) (\<lambda>h. Inr (i, h))) ms) (\<lambda>manifests.
     rbind (canonical_sha256 sha (PDict lock)) (\<lambda>lock_sha.
     let payload = closure_payload lock lock_sha impact_sha affected selected obligations manifests in
     rbind (validate_semantic_payload sha (PDict payload)) (\<lambda>_.
     rbind (closure_artifact sha lock payload manifests) (\<lambda>artifact_sha.
     rbind (canonical_sha256 sha (PDict payload)) (\<lambda>payload_sha.
     let envelope = closure_envelope a payload_sha artifact_sha in
     rbind (validate_run_envelope sha (PDict envelope) (PDict payload)) (\<lambda>_.
       Inr (payload, envelope)))))))))))))))))))"


section \<open>Selection\<close>

lemma set_set_update [simp]: "set (set_update s xs) = set s \<union> set xs"
  by (induction s xs rule: set_update.induct) auto

lemma distinct_set_update: "distinct s \<Longrightarrow> distinct (set_update s xs)"
  by (induction s xs rule: set_update.induct) auto

lemma select_loop_eq:
  "select_loop cases affected s u = (s', u') \<Longrightarrow>
   set s' = set s \<union> (\<Union>p \<in> set affected. set (matching_cases cases p)) \<and> (distinct s \<longrightarrow> distinct s') \<and>
   u' = u @ filter (\<lambda>p. matching_cases cases p = []) affected"
  by (induction cases affected s u rule: select_loop.induct)
    (auto simp: Let_def distinct_set_update split: if_splits)

lemma listed_iff: "listed t v \<longleftrightarrow> (\<exists>xs. v = PList xs \<and> PStr t \<in> set xs)"
  by (cases v) (simp_all add: listed_def)

lemma in_matching_cases:
  "i \<in> set (matching_cases cases p) \<longleftrightarrow>
   (\<exists>d c xs. (i, d, c) \<in> set cases \<and> fld c ''pto_ids'' = PList xs \<and> PStr p \<in> set xs)"
proof -
  have "i \<in> set (matching_cases cases p) \<longleftrightarrow> (\<exists>d c. (i, d, c) \<in> set cases \<and> listed p (fld c ''pto_ids''))"
    unfolding matching_cases_def by (induction cases) auto
  then show ?thesis by (simp add: listed_iff)
qed

lemma matching_cases_known: "i \<in> set (matching_cases cases pto_id) \<Longrightarrow> i \<in> fst ` set cases"
  by (force simp: in_matching_cases)

text \<open>What \<open>load_cases\<close> accepts: one entry per directory, under its name, with its validated case file.\<close>

lemma validate_case_lists:
  assumes "validate_case v = Inr c"
  shows "v = PDict c" and "\<exists>xs. fld c ''obligation_ids'' = strings_val xs"
proof -
  from assms have "row_of case_fields v = Inr c" and o: "\<exists>xs. string_list True (fld c ''obligation_ids'') = Inr xs"
    by (auto simp: validate_case_def res_simps)
  then show "v = PDict c" by (auto simp: row_of_def res_simps c_object_Inr)
  show "\<exists>xs. fld c ''obligation_ids'' = strings_val xs" using o by (auto simp: string_list_Inr)
qed

lemma load_case_Inr:
  assumes "load_case sha d cases = Inr cases'"
  shows "\<exists>c. cases' = cases @ [(cd_name d, d, c)] \<and> cd_document d = PDict c \<and> cd_name d \<notin> fst ` set cases \<and>
    (\<exists>xs. fld c ''obligation_ids'' = strings_val xs)"
proof -
  from assms obtain c where v: "validate_case (cd_document d) = Inr c" and n: "cd_name d = text_of (fld c ''case_id'')"
    "cd_name d \<notin> fst ` set cases" and r: "cases' = cases @ [(text_of (fld c ''case_id''), d, c)]"
    unfolding load_case_def Let_def by (auto simp: res_simps accepts split: option.splits)
  from validate_case_lists [OF v] n r show ?thesis by auto
qed

definition corpus_of :: "case_dir list \<Rightarrow> (string \<times> case_dir \<times> (string, pyval) dict) set" where
  "corpus_of dirs = {(cd_name d, d, c) | d c. d \<in> set dirs \<and> cd_document d = PDict c}"

lemma load_dirs_Inr:
  "rfold (load_case sha) dirs cases = Inr cases' \<Longrightarrow> distinct (map fst cases) \<Longrightarrow>
   \<forall>(i, d, c) \<in> set cases. \<exists>xs. fld c ''obligation_ids'' = strings_val xs \<Longrightarrow>
   distinct (map fst cases') \<and> set cases' = set cases \<union> corpus_of dirs \<and>
   (\<forall>(i, d, c) \<in> set cases'. \<exists>xs. fld c ''obligation_ids'' = strings_val xs)"
proof (induction dirs arbitrary: cases)
  case (Cons d dirs)
  from Cons.prems(1) obtain mid where mid: "load_case sha d cases = Inr mid" "rfold (load_case sha) dirs mid = Inr cases'"
    by (auto simp: res_simps)
  obtain c where c: "mid = cases @ [(cd_name d, d, c)]" "cd_document d = PDict c" "cd_name d \<notin> fst ` set cases"
    "\<exists>xs. fld c ''obligation_ids'' = strings_val xs"
    using load_case_Inr [OF mid(1)] by blast
  have "corpus_of (d # dirs) = insert (cd_name d, d, c) (corpus_of dirs)" using c(2) by (auto simp: corpus_of_def)
  moreover have "distinct (map fst cases') \<and> set cases' = set mid \<union> corpus_of dirs \<and>
      (\<forall>(i, d, c) \<in> set cases'. \<exists>xs. fld c ''obligation_ids'' = strings_val xs)"
    by (rule Cons.IH [OF mid(2)]) (use Cons.prems(2,3) c in auto)
  ultimately show ?case using c(1) by auto
qed (simp add: corpus_of_def)

lemma load_cases_Inr:
  assumes "load_cases sha dirs = Inr cases"
  shows "distinct (map fst cases)" and "set cases = corpus_of dirs"
    and "(i, d, c) \<in> set cases \<Longrightarrow> \<exists>xs. fld c ''obligation_ids'' = strings_val xs"
proof -
  from assms have "rfold (load_case sha) (sort_key cd_name dirs) [] = Inr cases" by (auto simp: load_cases_def res_simps)
  from load_dirs_Inr [OF this] have r: "distinct (map fst cases) \<and> set cases = corpus_of (sort_key cd_name dirs) \<and>
      (\<forall>(i, d, c) \<in> set cases. \<exists>xs. fld c ''obligation_ids'' = strings_val xs)" by simp
  then show "distinct (map fst cases)" "set cases = corpus_of dirs" by (simp_all add: corpus_of_def)
  show "\<exists>xs. fld c ''obligation_ids'' = strings_val xs" if "(i, d, c) \<in> set cases" using r that by blast
qed

lemma in_case_obligations:
  assumes "load_cases sha dirs = Inr cases"
  shows "b \<in> set (case_obligations cases i) \<longleftrightarrow>
    (\<exists>d c xs. (i, d, c) \<in> set cases \<and> fld c ''obligation_ids'' = PList xs \<and> PStr b \<in> set xs)"
proof (cases "map_of cases i")
  case None
  then have "i \<notin> fst ` set cases" by (simp add: map_of_eq_None_iff)
  then show ?thesis using None by (force simp: case_obligations_def)
next
  case (Some dc)
  obtain d c where dc: "dc = (d, c)" by (cases dc)
  have mem: "(i, e) \<in> set cases \<longleftrightarrow> e = (d, c)" for e
    using map_of_SomeD [OF Some] dc eq_key_imp_eq_value [OF load_cases_Inr(1) [OF assms]] by blast
  then obtain xs where "fld c ''obligation_ids'' = strings_val xs" using load_cases_Inr(3) [OF assms] by blast
  then show ?thesis using Some dc mem by (auto simp: case_obligations_def texts_of_def strings_val_def text_of_def)
qed

text \<open>
  C39: The closure selects exactly the cases it needs. For a corpus that \<open>load_cases\<close> accepted, an
  accepted selection is sorted and without repetition; it consists of the mandatory cases and of
  every directory whose case file lists an affected identity under \<open>pto_ids\<close>; every mandatory case
  is in the corpus, every affected identity is listed by a selected case, and the obligations are
  exactly what the case files of the selected directories list under \<open>obligation_ids\<close>.
\<close>

theorem select_cases_exact:
  assumes "load_cases sha dirs = Inr cases" and "select_cases cases affected mandatory = Inr (selected, obligations)"
  shows "sorted selected \<and> distinct selected \<and> selected \<noteq> [] \<and> set selected \<subseteq> cd_name ` set dirs \<and>
    set selected = set mandatory \<union> {i. \<exists>d c xs p. d \<in> set dirs \<and> cd_name d = i \<and> cd_document d = PDict c \<and>
      fld c ''pto_ids'' = PList xs \<and> p \<in> set affected \<and> PStr p \<in> set xs} \<and>
    (\<forall>p \<in> set affected. \<exists>d c xs. d \<in> set dirs \<and> cd_name d \<in> set selected \<and> cd_document d = PDict c \<and>
      fld c ''pto_ids'' = PList xs \<and> PStr p \<in> set xs) \<and>
    sorted obligations \<and> distinct obligations \<and> obligations \<noteq> [] \<and>
    set obligations = {b. \<exists>d c xs. d \<in> set dirs \<and> cd_name d \<in> set selected \<and> cd_document d = PDict c \<and>
      fld c ''obligation_ids'' = PList xs \<and> PStr b \<in> set xs}"
proof -
  obtain sel unc where loop: "select_loop cases affected (set_update [] mandatory) [] = (sel, unc)"
    by (cases "select_loop cases affected (set_update [] mandatory) []")
  note l = select_loop_eq [OF loop] and corpus = load_cases_Inr(2) [OF assms(1), unfolded corpus_of_def]
  have known: "set mandatory \<subseteq> fst ` set cases" and cov: "unc = []" and ne: "sel \<noteq> []" "obligations \<noteq> []"
    and sel: "selected = sort sel"
    and obs: "obligations = sort (set_update [] (concat (map (case_obligations cases) sel)))"
    using assms(2) by (auto simp: select_cases_def loop Let_def res_simps accepts filter_empty_conv)
  have m: "i \<in> set (matching_cases cases p) \<longleftrightarrow> (\<exists>d c xs. d \<in> set dirs \<and> cd_name d = i \<and> cd_document d = PDict c \<and>
      fld c ''pto_ids'' = PList xs \<and> PStr p \<in> set xs)" for i p
    unfolding in_matching_cases corpus by blast
  have set_sel: "set selected = set mandatory \<union> {i. \<exists>p \<in> set affected. i \<in> set (matching_cases cases p)}"
    using l by (auto simp: sel)
  have "fst ` set cases \<subseteq> cd_name ` set dirs" unfolding corpus by auto
  then have sub: "set selected \<subseteq> cd_name ` set dirs" using known matching_cases_known by (fastforce simp: set_sel)
  have covered: "\<exists>i \<in> set selected. i \<in> set (matching_cases cases p)" if "p \<in> set affected" for p
  proof -
    have "filter (\<lambda>p. matching_cases cases p = []) affected = []" using l cov by simp
    then have "matching_cases cases p \<noteq> []" using that by (auto simp: filter_empty_conv)
    then obtain i where "i \<in> set (matching_cases cases p)" by (meson last_in_set)
    with that show ?thesis unfolding set_sel by blast
  qed
  have "set obligations = {b. \<exists>i \<in> set selected. b \<in> set (case_obligations cases i)}" unfolding obs sel by auto
  then have "set obligations = {b. \<exists>d c xs. d \<in> set dirs \<and> cd_name d \<in> set selected \<and> cd_document d = PDict c \<and>
      fld c ''obligation_ids'' = PList xs \<and> PStr b \<in> set xs}"
    unfolding in_case_obligations [OF assms(1)] corpus by blast
  moreover have "selected \<noteq> []" using ne(1) sel by (metis set_empty set_sort)
  moreover have "sorted selected" "distinct selected" "sorted obligations" "distinct obligations"
    using l by (simp_all add: sel obs distinct_set_update)
  moreover have "set selected = set mandatory \<union> {i. \<exists>d c xs p. d \<in> set dirs \<and> cd_name d = i \<and> cd_document d = PDict c \<and>
      fld c ''pto_ids'' = PList xs \<and> p \<in> set affected \<and> PStr p \<in> set xs}"
    unfolding set_sel m by blast
  moreover have "\<forall>p \<in> set affected. \<exists>d c xs. d \<in> set dirs \<and> cd_name d \<in> set selected \<and> cd_document d = PDict c \<and>
      fld c ''pto_ids'' = PList xs \<and> PStr p \<in> set xs"
    using covered unfolding m by blast
  ultimately show ?thesis using sub ne(2) by blast
qed

section \<open>What a certified case means\<close>

lemma execute_case_Inr:
  assumes "execute_case json_loads sha format_map w case_id d c run_lock pto_commit lock = Inr m"
  obtains src_file golden doc outcome man where "cd_file d (golden_name c) = Some src_file" and "golden_bytes src_file c = Inr golden"
    and "sidecar json_loads sha case_id c ''case.elf'' (cw_elf w) ''golden.bin'' golden pto_commit = Inr doc"
    and "hosted_case json_loads sha w c run_lock doc golden = Inr (outcome, man)" and "ro_result outcome = golden"
    and "fld m ''terminal'' = PDict [(''status'', PStr ''passed''), (''failure_class'', PStr ''none''), (''final_tpc'', fld man ''final_tpc'')]"
proof -
  obtain src_file golden doc outcome man lock_sha digests where
    "cd_file d (golden_name c) = Some src_file" "golden_bytes src_file c = Inr golden"
    "sidecar json_loads sha case_id c ''case.elf'' (cw_elf w) ''golden.bin'' golden pto_commit = Inr doc"
    "hosted_case json_loads sha w c run_lock doc golden = Inr (outcome, man)" "ro_result outcome = golden"
    "m = case_manifest_row case_id c lock lock_sha digests (fld man ''final_tpc'')"
    using assms unfolding execute_case_def
    by (auto simp: res_simps accepts split: option.splits if_splits prod.splits)
  moreover from this have "fld m ''terminal'' = PDict [(''status'', PStr ''passed''), (''failure_class'', PStr ''none''), (''final_tpc'', fld man ''final_tpc'')]"
    by (simp add: case_manifest_row_def fld_def dict_get_def)
  ultimately show ?thesis using that by blast
qed

text \<open>The hosted run of a case returned the bytes of its independent golden file.\<close>

definition case_certified ::
  "(byte list \<Rightarrow> pyval option) \<Rightarrow> (byte list \<Rightarrow> string) \<Rightarrow> closure_world \<Rightarrow> corpus \<Rightarrow> (string, pyval) dict \<Rightarrow> string \<Rightarrow> string \<Rightarrow> bool" where
  "case_certified json_loads sha w cases run_lock pto_commit i \<longleftrightarrow>
     (case case_of cases i of (d, c) \<Rightarrow>
        \<exists>src_file golden doc outcome man. cd_file d (golden_name c) = Some src_file \<and> golden_bytes src_file c = Inr golden \<and>
          sidecar json_loads sha i c ''case.elf'' (cw_elf (cl_case w i)) ''golden.bin'' golden pto_commit = Inr doc \<and>
          hosted_case json_loads sha (cl_case w i) c run_lock doc golden = Inr (outcome, man) \<and> ro_result outcome = golden)"

text \<open>
  A closure that returns certifies only what it ran: the payload lists as passed exactly the cases
  of the selection for the impact report, and each of them was run by the hosted runner with the
  bytes of its independent golden file as the result.
\<close>

theorem run_closure_certifies:
  assumes "run_closure json_loads sha format_map w a rq = Inr (payload, envelope)"
  shows "\<exists>cases impact_sha affected mandatory selected obligations run_lock pto_commit.
    load_cases sha (cl_dirs w) = Inr cases \<and> load_impact sha (cl_impact w) = Inr (impact_sha, affected) \<and>
    select_cases cases affected mandatory = Inr (selected, obligations) \<and>
    at_path [''cases'', ''passed''] (PDict payload) = strings_val selected \<and>
    at_path [''obligations'', ''passed''] (PDict payload) = strings_val obligations \<and>
    list_all (case_certified json_loads sha w cases run_lock pto_commit) selected"
proof -
  obtain cases impact_sha affected mandatory selected obligations run_lock pto_commit lock ms lock_sha manifests where
    h: "load_cases sha (cl_dirs w) = Inr cases" "load_impact sha (cl_impact w) = Inr (impact_sha, affected)"
    "select_cases cases affected mandatory = Inr (selected, obligations)"
    and ms: "rmap (selected_case json_loads sha format_map w cases run_lock pto_commit lock) selected = Inr ms"
    and p: "payload = closure_payload lock lock_sha impact_sha affected selected obligations manifests"
    using assms unfolding run_closure_def Let_def by (auto simp: res_simps split: prod.splits)
  have "case_certified json_loads sha w cases run_lock pto_commit i" if i: "i \<in> set selected" for i
  proof -
    obtain d c where dc: "case_of cases i = (d, c)" by fastforce
    from i obtain j where "j < length selected" "i = selected ! j" by (metis in_set_conv_nth)
    with ms have "selected_case json_loads sha format_map w cases run_lock pto_commit lock i = Inr (ms ! j)"
      by (simp add: rmap_Inr_iff list_all2_conv_all_nth)
    then obtain m where "execute_case json_loads sha format_map (cl_case w i) i d c run_lock pto_commit lock = Inr m"
      by (auto simp: selected_case_def dc res_simps)
    then show ?thesis unfolding case_certified_def dc by (elim execute_case_Inr) auto
  qed
  then have "list_all (case_certified json_loads sha w cases run_lock pto_commit) selected" by (simp add: list_all_iff)
  moreover have "at_path [''cases'', ''passed''] (PDict payload) = strings_val selected"
    "at_path [''obligations'', ''passed''] (PDict payload) = strings_val obligations"
    by (simp_all add: p closure_payload_def fld_def dict_get_def)
  ultimately show ?thesis using h by blast
qed

section \<open>The sidecar and the runner\<close>

lemma fld_Cons [simp]: "fld ((k, v) # d) n = (if k = n then v else fld d n)"
  by (simp add: fld_def dict_get_def)

lemma dict_get_Cons [simp]: "dict_get ((k, v) # d) n z = (if k = n then v else dict_get d n z)"
  by (simp add: dict_get_def)

lemma symbol_table_Inr:
  assumes "symbol_table img e = Inr symbols" and "n \<in> set case_symbols"
  shows "unique_symbol img (text_of (fld e n)) = Inr (symbols n)"
proof -
  obtain ss where ss: "rmap (\<lambda>name. unique_symbol img (text_of (fld e name))) case_symbols = Inr ss"
    and s: "symbols = (\<lambda>name. the (map_of (zip case_symbols ss) name))"
    using assms(1) by (auto simp: symbol_table_def res_simps)
  have a2: "list_all2 (\<lambda>name s. unique_symbol img (text_of (fld e name)) = Inr s) case_symbols ss" using ss by (simp add: rmap_Inr_iff)
  then have len: "length case_symbols = length ss" by (rule list_all2_lengthD)
  then obtain y where y: "map_of (zip case_symbols ss) n = Some y" using assms(2) by (metis map_of_zip_is_Some)
  then have "(n, y) \<in> set (zip case_symbols ss)" by (rule map_of_SomeD)
  with a2 have "unique_symbol img (text_of (fld e n)) = Inr y" by (auto simp: list_all2_iff)
  with y s show ?thesis by simp
qed

text \<open>The parts of an accepted case that the sidecar uses.\<close>

lemma validate_case_Inr:
  assumes "validate_case v = Inr c"
  obtains e m where "fld c ''execution'' = PDict e" and "fld c ''model'' = PDict m" and "case_execution (PDict e) = Inr ()"
    and "case_model (PDict m) = Inr ()"
proof -
  have "case_execution (fld c ''execution'') = Inr ()" "case_model (fld c ''model'') = Inr ()"
    using assms by (auto simp: validate_case_def res_simps)
  moreover from this obtain e m where "fld c ''execution'' = PDict e" "fld c ''model'' = PDict m"
    by (auto simp: case_execution_def case_model_def res_simps accepts)
  ultimately show ?thesis using that by simp
qed


lemma positive_int_Inr [accepts]: "positive_int least v = Inr i \<longleftrightarrow> v = PInt i \<and> least \<le> i"
  by (auto simp: positive_int_def split: pyval.splits)

lemma natural_PInt [simp]: "0 \<le> i \<Longrightarrow> \<not> (positive \<and> i = 0) \<Longrightarrow> natural positive (PInt i) = Inr i"
  by (auto simp: natural_def)

lemma rmap_unit_Inr: "rmap f xs = Inr ys \<Longrightarrow> x \<in> set xs \<Longrightarrow> \<exists>y. f x = Inr y"
  by (auto simp: rmap_Inr_iff list_all2_conv_all_nth in_set_conv_nth)

lemma one_of_Inr: "one_of xs v = Inr u \<Longrightarrow> [] \<notin> set xs \<Longrightarrow> \<exists>s. v = PStr s \<and> s \<noteq> []"
  by (cases v) (auto simp: one_of_def in_text_set_def res_simps accepts split: if_splits)

lemma case_execution_values:
  assumes "case_execution (PDict e) = Inr ()"
  obtains hits steps stack acr where "\<forall>n \<in> set case_symbols. \<exists>s. fld e n = PStr s \<and> s \<noteq> []"
    and "fld e ''stop_after_hits'' = PInt hits" "1 \<le> hits" and "fld e ''max_steps'' = PInt steps" "1 \<le> steps"
    and "fld e ''stack_top'' = PInt stack" "1 \<le> stack" and "fld e ''start_acr'' = PInt acr" "0 \<le> acr"
    and "case_host_request (fld e ''host_request'') = Inr ()"
proof -
  obtain texts ints acr where t: "rmap (\<lambda>n. c_text (fld e n)) case_symbols = Inr texts"
    and i: "rmap (\<lambda>n. positive_int 1 (fld e n)) [''stop_after_hits'', ''max_steps'', ''stack_top''] = Inr ints"
    and a: "fld e ''start_acr'' = PInt acr" "0 \<le> acr" and h: "case_host_request (fld e ''host_request'') = Inr ()"
    using assms unfolding case_execution_def case_symbols_def by (auto simp: res_simps accepts)
  have "\<forall>n \<in> set case_symbols. \<exists>s. fld e n = PStr s \<and> s \<noteq> []" using rmap_unit_Inr [OF t] by (auto simp: accepts)
  moreover have "\<exists>k. fld e n = PInt k \<and> 1 \<le> k" if "n \<in> set [''stop_after_hits'', ''max_steps'', ''stack_top'']" for n
    using rmap_unit_Inr [OF i that] by (auto simp: accepts)
  from this [of "''stop_after_hits''"] this [of "''max_steps''"] this [of "''stack_top''"] obtain x y z where
    "fld e ''stop_after_hits'' = PInt x" "1 \<le> x" "fld e ''max_steps'' = PInt y" "1 \<le> y" "fld e ''stack_top'' = PInt z" "1 \<le> z"
    by auto
  ultimately show ?thesis using that a h by blast
qed

lemma case_model_values:
  assumes "case_model (PDict m) = Inr ()"
  obtains mb te tc where "fld m ''memory_bytes'' = PInt mb" "1 \<le> mb" and "fld m ''tile_elements'' = PInt te" "1 \<le> te"
    and "fld m ''runtime_typecheck'' = PStr tc" "tc \<noteq> []"
proof -
  obtain ints u where i: "rmap (\<lambda>n. positive_int 1 (fld m n)) [''memory_bytes'', ''tile_elements''] = Inr ints"
    and t: "one_of [''strict'', ''minimal''] (fld m ''runtime_typecheck'') = Inr u"
    using assms unfolding case_model_def by (auto simp: res_simps accepts)
  have "\<exists>k. fld m n = PInt k \<and> 1 \<le> k" if "n \<in> set [''memory_bytes'', ''tile_elements'']" for n
    using rmap_unit_Inr [OF i that] by (auto simp: accepts)
  from this [of "''memory_bytes''"] this [of "''tile_elements''"] one_of_Inr [OF t] that show ?thesis by auto
qed

lemma case_host_request_natural:
  assumes "case_host_request v = Inr ()"
  shows "\<exists>r. host_request_fields v = Inr r" and "v = PNone \<or> (\<exists>rq. v = PDict rq)"
proof -
  have *: "v = PNone \<or> (\<exists>rq us. v = PDict rq \<and> has_fields rq [''number'', ''argument0'', ''service_request_type''] \<and>
      rmap (\<lambda>(field, x). positive_int 0 x) rq = Inr us)"
    using assms by (auto simp: case_host_request_def res_simps accepts split: if_splits)
  then show "v = PNone \<or> (\<exists>rq. v = PDict rq)" by blast
  show "\<exists>r. host_request_fields v = Inr r"
  proof (cases "v = PNone")
    case False
    with * obtain rq us where v: "v = PDict rq" and hf: "has_fields rq [''number'', ''argument0'', ''service_request_type'']"
      and us: "rmap (\<lambda>(field, x). positive_int 0 x) rq = Inr us" by blast
    have "\<exists>i. fld rq n = PInt i \<and> 0 \<le> i" if "n \<in> set [''number'', ''argument0'', ''service_request_type'']" for n
    proof -
      have "n \<in> set (map fst rq)" using hf that by (simp only: has_fields_def)
      then obtain x where x: "map_of rq n = Some x" by (metis map_of_eq_None_iff not_Some_eq set_map)
      then have "(n, x) \<in> set rq" by (rule map_of_SomeD)
      from rmap_unit_Inr [OF us this] x show ?thesis by (auto simp: accepts fld_def dict_get_def)
    qed
    from this [of "''number''"] this [of "''argument0''"] this [of "''service_request_type''"] v show ?thesis
      by (auto simp: host_request_fields_def c_object_def)
  qed (simp add: host_request_fields_def)
qed


text \<open>What the runner asks of the symbols of the image and of the golden bytes.\<close>

definition result_symbols_fit :: "hosted_image \<Rightarrow> (string \<Rightarrow> hosted_symbol) \<Rightarrow> byte list \<Rightarrow> bool" where
  "result_symbols_fit img symbols golden \<longleftrightarrow>
     (let result = symbols ''result_symbol''; sz = symbols ''result_size_symbol'' in
      sy_size result = sy_value sz \<and> sy_section_index sz = SECTION_INDEX_ABSOLUTE \<and> 1 \<le> sy_value sz \<and>
      int (length golden) = sy_value sz \<and>
      list_ex (\<lambda>s. ls_address s \<le> sy_value result \<and> sy_value result + sy_value sz \<le> ls_end s \<and> ls_flags s AND PROGRAM_FLAG_WRITE \<noteq> 0)
        (hi_segments img)) \<and>
     list_all (\<lambda>n. 0 \<le> sy_value (symbols n)) case_symbols"

lemma segment_records_eq: "py_eq (PList (map segment_record ss)) (PList (map segment_record ss))"
proof -
  have "py_eq (segment_record s) (segment_record s)" for s by (simp add: segment_record_def)
  then have "py_eqs (map segment_record ss) (map segment_record ss)" by (induction ss) simp_all
  then show ?thesis by simp
qed

lemma sidecar_loads:
  assumes e: "fld c ''execution'' = PDict e" "case_execution (PDict e) = Inr ()" and m: "fld c ''model'' = PDict m" "case_model (PDict m) = Inr ()"
    and fit: "result_symbols_fit img symbols golden"
    and doc: "doc = sidecar_row case_id c elf img gname gsha commit symbols"
  shows "\<exists>k. load_sidecar conf (PDict doc) = Inr k \<and> rc_elf_name k = rc_elf_name conf \<and>
    rc_start_pc k = sy_value (symbols ''start_symbol'') \<and> rc_return_pc k = sy_value (symbols ''return_symbol'') \<and>
    rc_stop_pc k = Some (sy_value (symbols ''stop_symbol'')) \<and> rc_result_address k = sy_value (symbols ''result_symbol'') \<and>
    rc_result_size k = sy_value (symbols ''result_size_symbol'')"
proof -
  obtain hits steps stack acr where ev: "fld e ''stop_after_hits'' = PInt hits" "1 \<le> hits" "fld e ''max_steps'' = PInt steps" "1 \<le> steps"
    "fld e ''stack_top'' = PInt stack" "1 \<le> stack" "fld e ''start_acr'' = PInt acr" "0 \<le> acr"
    "case_host_request (fld e ''host_request'') = Inr ()" by (rule case_execution_values [OF e(2)])
  obtain mb te tc where mv: "fld m ''memory_bytes'' = PInt mb" "1 \<le> mb" "fld m ''tile_elements'' = PInt te" "1 \<le> te"
    "fld m ''runtime_typecheck'' = PStr tc" "tc \<noteq> []" by (rule case_model_values [OF m(2)])
  obtain number argument0 service where h: "host_request_fields (fld e ''host_request'') = Inr (number, argument0, service)"
    using case_host_request_natural(1) [OF ev(9)] by auto
  have hobj: "fld e ''host_request'' \<noteq> PNone \<Longrightarrow> rbind (c_object (fld e ''host_request'')) (\<lambda>_. Inr ()) = Inr ()"
    using case_host_request_natural(2) [OF ev(9)] by (auto simp: c_object_def)
  have pos: "0 \<le> sy_value (symbols ''start_symbol'')" "0 \<le> sy_value (symbols ''return_symbol'')" "0 \<le> sy_value (symbols ''stop_symbol'')"
    "0 \<le> sy_value (symbols ''result_symbol'')" "1 \<le> sy_value (symbols ''result_size_symbol'')"
    using fit by (simp_all add: result_symbols_fit_def case_symbols_def Let_def)
  have rows: "c_object (PDict d) = Inr d" for d by (simp add: c_object_def)
  have ctc: "c_text (PStr tc) = Inr tc" using mv(6) by (simp add: c_text_def)
  show ?thesis
    unfolding load_sidecar_def doc sidecar_row_def Let_def row_val_def e(1) m(1)
    using pos ev(2,4,6,8) mv(2,4) by (simp add: rows guard_def mv(1,3,5) ctc ev(1,3,5,7) hobj h)
qed


lemma sidecar_validates:
  assumes e: "fld c ''execution'' = PDict e" "case_execution (PDict e) = Inr ()"
    and sym: "symbol_table img e = Inr symbols" and fit: "result_symbols_fit img symbols golden"
    and doc: "doc = sidecar_row case_id c elf img gname (sha golden) commit symbols"
    and names: "path_name elf = elf" "elf \<noteq> []" "gname \<noteq> []" "hi_sha256 img \<noteq> []" "sha golden \<noteq> []" "0 \<le> hi_entry img"
    and rb: "read_beside gname = Inr golden" and lock: "fld lock ''pto_commit'' = PStr commit"
    and k: "rc_elf_name k = elf" "rc_start_pc k = sy_value (symbols ''start_symbol'')" "rc_return_pc k = sy_value (symbols ''return_symbol'')"
      "rc_stop_pc k = Some (sy_value (symbols ''stop_symbol''))" "rc_result_address k = sy_value (symbols ''result_symbol'')"
      "rc_result_size k = sy_value (symbols ''result_size_symbol'')"
  shows "validate_sidecar read_beside sha k img lock doc = Inr ()"
proof -
  have texts: "\<forall>n \<in> set case_symbols. \<exists>s. fld e n = PStr s \<and> s \<noteq> []"
    by (rule case_execution_values [OF e(2)]) assumption
  have sy: "c_text (fld e n) = Inr (text_of (fld e n))" "unique_symbol img (text_of (fld e n)) = Inr (symbols n)"
    if "n \<in> set case_symbols" for n
    using texts that symbol_table_Inr [OF sym that] by (auto simp: c_text_def text_of_def)
  note at = sy [of "''start_symbol''", unfolded case_symbols_def, simplified] sy [of "''return_symbol''", unfolded case_symbols_def, simplified]
    sy [of "''stop_symbol''", unfolded case_symbols_def, simplified] sy [of "''result_symbol''", unfolded case_symbols_def, simplified]
    sy [of "''result_size_symbol''", unfolded case_symbols_def, simplified]
  have rows: "c_object (PDict d) = Inr d" for d by (simp add: c_object_def)
  have "c_text (PStr elf) = Inr elf" "c_text (PStr gname) = Inr gname" "c_text (PStr (hi_sha256 img)) = Inr (hi_sha256 img)"
    "c_text (PStr (sha golden)) = Inr (sha golden)" using names by (simp_all add: c_text_def)
  note ct = this
  have mach: "0 \<le> PTO_ELF_MACHINE" by (simp add: PTO_ELF_MACHINE_def)
  have elf: "sidecar_elf k img (fld doc ''elf'') = Inr ()"
    unfolding doc sidecar_row_def Let_def sidecar_elf_def using names mach segment_records_eq [of "hi_segments img"]
    by (simp add: rows ct guard_def k(1) del: py_eq.simps)
  have res: "sidecar_result k img (row_val (fld doc ''result'')) = Inr ()"
    unfolding doc sidecar_row_def Let_def sidecar_result_def using fit
    by (simp add: row_val_def e(1) at guard_def k writable_result_def result_symbols_fit_def Let_def)
  have gold: "sidecar_golden read_beside sha k (fld (row_val (fld doc ''result'')) ''golden'') = Inr ()"
    unfolding doc sidecar_row_def Let_def sidecar_golden_def using fit
    by (simp add: row_val_def rows ct rb guard_def k result_symbols_fit_def Let_def)
  have parts: "fld doc ''identity'' = PDict [(''pto_commit'', PStr commit)]" "fld doc ''result'' = PDict (row_val (fld doc ''result''))"
    by (simp_all add: doc sidecar_row_def Let_def row_val_def)
  show ?thesis
    unfolding validate_sidecar_def elf parts(1) using res gold parts(2)
    by (simp add: rows lock guard_def sidecar_symbol_def at k) (simp add: doc sidecar_row_def Let_def row_val_def e(1) rows at k guard_def)
qed


text \<open>
  C38: The closure and the runner agree on sidecars. For every accepted case and every image whose
  symbols the case names uniquely, with a result symbol of the size of the golden bytes in a
  writable segment, the runner loads the sidecar the closure writes, validates it against the
  image, the lock and the golden file, and takes start, return, stop and result from the symbols.
\<close>

theorem closure_sidecar_accepted:
  assumes "validate_case v = Inr c" and "symbol_table img (row_val (fld c ''execution'')) = Inr symbols"
    and "result_symbols_fit img symbols golden" and "hi_sha256 img \<noteq> []" and "0 \<le> hi_entry img" and "sha golden \<noteq> []"
    and "fld lock ''pto_commit'' = PStr commit"
  shows "\<exists>k. load_sidecar (case_configuration c)
        (PDict (sidecar_row case_id c ''case.elf'' img ''golden.bin'' (sha golden) commit symbols)) = Inr k \<and>
      validate_sidecar (read_golden golden) sha k img lock
        (sidecar_row case_id c ''case.elf'' img ''golden.bin'' (sha golden) commit symbols) = Inr () \<and>
      rc_start_pc k = sy_value (symbols ''start_symbol'') \<and> rc_return_pc k = sy_value (symbols ''return_symbol'') \<and>
      rc_stop_pc k = Some (sy_value (symbols ''stop_symbol'')) \<and> rc_result_address k = sy_value (symbols ''result_symbol'') \<and>
      rc_result_size k = int (length golden)"
proof -
  obtain e m where e: "fld c ''execution'' = PDict e" "case_execution (PDict e) = Inr ()"
    and m: "fld c ''model'' = PDict m" "case_model (PDict m) = Inr ()" by (rule validate_case_Inr [OF assms(1)])
  have sym: "symbol_table img e = Inr symbols" using assms(2) e(1) by (simp add: row_val_def)
  have nm: "path_name ''case.elf'' = ''case.elf''" by code_simp
  let ?doc = "sidecar_row case_id c ''case.elf'' img ''golden.bin'' (sha golden) commit symbols"
  have "rc_elf_name (case_configuration c) = ''case.elf''" by (simp add: case_configuration_def)
  then obtain k where k: "load_sidecar (case_configuration c) (PDict ?doc) = Inr k" "rc_elf_name k = ''case.elf''"
      "rc_start_pc k = sy_value (symbols ''start_symbol'')" "rc_return_pc k = sy_value (symbols ''return_symbol'')"
      "rc_stop_pc k = Some (sy_value (symbols ''stop_symbol''))" "rc_result_address k = sy_value (symbols ''result_symbol'')"
      "rc_result_size k = sy_value (symbols ''result_size_symbol'')"
    using sidecar_loads [OF e m assms(3), of ?doc case_id "''case.elf''" "''golden.bin''" "sha golden" commit "case_configuration c"] by auto
  have "validate_sidecar (read_golden golden) sha k img lock ?doc = Inr ()"
    by (rule sidecar_validates [where golden = golden and sha = sha and symbols = symbols, OF e sym assms(3) refl])
      (simp_all add: read_golden_def nm assms(4-7) k)
  moreover have "sy_value (symbols ''result_size_symbol'') = int (length golden)"
    using assms(3) by (simp add: result_symbols_fit_def Let_def)
  ultimately show ?thesis using k by auto
qed

subsection \<open>Witnesses\<close>

definition demo_case_execution :: "(string, pyval) dict" where
  "demo_case_execution = [(''start_acr'', PInt 0), (''start_symbol'', PStr ''s''), (''return_symbol'', PStr ''r''), (''stop_symbol'', PStr ''t''),
     (''result_symbol'', PStr ''o''), (''result_size_symbol'', PStr ''z''), (''stop_after_hits'', PInt 1), (''max_steps'', PInt 9),
     (''stack_top'', PInt 64), (''host_request'', PNone)]"

definition demo_case :: "(string, pyval) dict" where
  "demo_case = [(''schema'', PStr CASE_SCHEMA), (''case_id'', PStr ''a''), (''lane'', PStr ''c''), (''source'', PStr ''a.c''),
     (''linker_script'', PStr ''a.ld''), (''pto_ids'', strings_val [''P'']), (''obligation_ids'', strings_val [''x'']), (''features'', PList []),
     (''avs_ids'', PList []), (''expected_length_sequence'', PList [PInt 32]),
     (''compile'', PDict [(''tool'', PStr ''clang''), (''arguments'', PList [])]), (''link'', PDict [(''tool'', PStr ''ld_lld''), (''arguments'', PList [])]),
     (''execution'', PDict demo_case_execution),
     (''model'', PDict [(''memory_bytes'', PInt 256), (''tile_elements'', PInt 1), (''runtime_typecheck'', PStr ''strict''), (''backend'', PStr ''host-sparse'')]),
     (''golden'', PDict [(''policy'', PStr ''exact''), (''encoding'', PStr ''raw''), (''path'', PStr ''g''), (''sha256'', demo_digest),
        (''provenance'', PDict [(''source'', PStr ''hand''), (''rationale'', PStr ''r''), (''model_generated'', PBool False)])]),
     (''profile'', PStr ''p''), (''resource_class'', PStr ''small''), (''timeout_seconds'', PInt 5)]"

lemma demo_case_accepted: "validate_case (PDict demo_case) = Inr demo_case"
  by code_simp

definition demo_case_image :: hosted_image where
  "demo_case_image = \<lparr>hi_entry = 16, hi_segments = [\<lparr>ls_address = 16, ls_data = [], ls_memory_size = 16, ls_flags = 7, ls_alignment = 1\<rparr>],
     hi_symbols = map (\<lambda>(n, v, z, i). \<lparr>sy_name = n, sy_value = v, sy_size = z, sy_section_index = i\<rparr>)
       [(''s'', 16, 0, 1), (''r'', 20, 0, 1), (''t'', 24, 0, 1), (''o'', 28, 2, 1), (''z'', 2, 0, SECTION_INDEX_ABSOLUTE)],
     hi_sha256 = ''h'', hi_pto_isa_note = None\<rparr>"

definition demo_symbols :: "string \<Rightarrow> hosted_symbol" where
  "demo_symbols name = the (map_of (zip case_symbols (hi_symbols demo_case_image)) name)"

lemma demo_symbol_table: "symbol_table demo_case_image demo_case_execution = Inr demo_symbols"
proof -
  have "rmap (\<lambda>name. unique_symbol demo_case_image (text_of (fld demo_case_execution name))) case_symbols = Inr (hi_symbols demo_case_image)"
    by code_simp
  then show ?thesis by (simp add: symbol_table_def fun_eq_iff demo_symbols_def)
qed

theorem closure_sidecar_accepted_witness:
  "\<exists>k. load_sidecar (case_configuration demo_case)
      (PDict (sidecar_row ''a'' demo_case ''case.elf'' demo_case_image ''golden.bin'' (demo_sha [1, 2]) ''d'' demo_symbols)) = Inr k \<and>
    rc_result_size k = 2"
proof -
  have s: "symbol_table demo_case_image (row_val (fld demo_case ''execution'')) = Inr demo_symbols"
    using demo_symbol_table by (simp add: demo_case_def row_val_def)
  have f: "result_symbols_fit demo_case_image demo_symbols [1, 2]" by code_simp
  have "hi_sha256 demo_case_image \<noteq> []" "0 \<le> hi_entry demo_case_image" "demo_sha [1, 2] \<noteq> []"
    "fld [(''pto_commit'', PStr ''d'')] ''pto_commit'' = PStr ''d''" by (simp_all add: demo_case_image_def demo_sha_def)
  from closure_sidecar_accepted [where sha = demo_sha, OF demo_case_accepted s f this, of "''a''"] show ?thesis by auto
qed

definition demo_case_dir :: case_dir where
  "demo_case_dir = \<lparr>cd_name = ''a'', cd_document = PDict demo_case, cd_file = (\<lambda>_. Some [])\<rparr>"

theorem select_cases_exact_witness:
  "load_cases demo_sha [demo_case_dir] = Inr [(''a'', demo_case_dir, demo_case)] \<and>
   (\<exists>sel obs. select_cases [(''a'', demo_case_dir, demo_case)] [''P''] [] = Inr (sel, obs) \<and> sel = [''a''] \<and> set obs = {''x''} \<and> distinct obs)"
proof -
  have v: "validate_case (PDict demo_case) = Inr demo_case" by (rule demo_case_accepted)
  have f: "text_of (fld demo_case ''case_id'') = ''a''" "fld (row_val (fld demo_case ''golden'')) ''sha256'' = demo_digest"
    "fld demo_case ''pto_ids'' = PList [PStr ''P'']" "fld demo_case ''obligation_ids'' = PList [PStr ''x'']"
    by (simp_all add: demo_case_def text_of_def row_val_def strings_val_def)
  have l: "load_cases demo_sha [demo_case_dir] = Inr [(''a'', demo_case_dir, demo_case)]"
    by (simp add: load_cases_def load_case_def demo_case_dir_def v f c_object_def Let_def guard_def demo_digest_def demo_sha_def)
  have r: "select_cases [(''a'', demo_case_dir, demo_case)] [''P''] [] = Inr ([''a''], [''x''])"
    by (simp add: select_cases_def Let_def matching_cases_def listed_def case_obligations_def texts_of_def text_of_def f guard_def)
  have "set [''x''] = {''x''}" by simp
  with select_cases_exact [OF l r] l r show ?thesis by blast
qed

end
