(* ===== verification/Backends.thy ===== *)
theory Backends
  imports Closure_Artifacts
begin

text \<open>
  The functional backends of \<open>asl_model\<close>: the case registry (\<open>cases.py\<close>), the identity of the ASL
  build (\<open>artifact.py\<close>), the ASL, native and differential backends (\<open>backend.py\<close>) and the batch runner
  (\<open>runner.py\<close>). A locale states what the batch runner relies on; each backend interprets it.

  The files of the checkout, \<open>json.loads\<close>, SHA-256, \<open>git\<close> and the ASLRef process are parameters.
\<close>

section \<open>Cases\<close>

text \<open>\<open>pathlib.Path(p)\<close> in its normal form, and \<open>is_absolute\<close>.\<close>

definition py_path :: "string \<Rightarrow> string" where
  "py_path p =
     (let parts = path_parts p;
          root = (if py_startswith p ''//'' \<and> \<not> py_startswith p ''///'' then ''//'' else if py_startswith p ''/'' then ''/'' else []);
          body = concat (case parts of [] \<Rightarrow> [] | x # xs \<Rightarrow> x # map (\<lambda>y. ''/'' @ y) xs)
      in if root = [] \<and> parts = [] then ''.'' else root @ body)"

definition path_is_absolute :: "string \<Rightarrow> bool" where
  "path_is_absolute p = py_startswith p ''/''"

record model_case =
  mc_case_id :: string
  mc_instruction :: string
  mc_instruction_class :: string
  mc_source :: string
  mc_test :: string

type_synonym registry = "(string, model_case) dict"

definition case_string :: "(string, pyval) dict \<Rightarrow> string \<Rightarrow> string res" where
  "case_string row field =
     (case fld row field of
        PStr s \<Rightarrow> if s = [] then Inl (ValueError ''case field must be a non-empty string'') else Inr s
      | _ \<Rightarrow> Inl (ValueError ''case field must be a non-empty string''))"

definition register_case :: "pyval \<Rightarrow> registry \<Rightarrow> registry res" where
  "register_case v cases =
     (case v of
        PDict row \<Rightarrow>
          rbind (case_string row ''id'') (\<lambda>case_id.
          rbind (guard (case_id \<notin> set (map fst cases)) ''duplicate case ID'') (\<lambda>_.
          rbind (case_string row ''instruction'') (\<lambda>instruction.
          rbind (case_string row ''class'') (\<lambda>instruction_class.
          rbind (case_string row ''source'') (\<lambda>source.
          rbind (case_string row ''test'') (\<lambda>test.
            Inr (cases @ [(case_id, \<lparr>mc_case_id = case_id, mc_instruction = instruction, mc_instruction_class = instruction_class,
              mc_source = py_path source, mc_test = py_path test\<rparr>)])))))))
      | _ \<Rightarrow> Inl (ValueError ''case entry must be an object''))"

text \<open>\<open>CaseRegistry.__init__\<close> for the parsed document.\<close>

definition CaseRegistry :: "pyval \<Rightarrow> registry res" where
  "CaseRegistry v =
     (case v of
        PDict data \<Rightarrow>
          rbind (guard (fld data ''schema'' = PStr ''pto.asl-model-cases.v2'') ''unsupported case registry schema'') (\<lambda>_.
          (case fld data ''cases'' of
             PList rows \<Rightarrow> if rows = [] then Inl (ValueError ''case registry must contain cases'') else rfold register_case rows []
           | _ \<Rightarrow> Inl (ValueError ''case registry must contain cases'')))
      | _ \<Rightarrow> Inl (AttributeError ''get''))"

definition registry_ids :: "registry \<Rightarrow> string list" where
  "registry_ids cases = sort (map fst cases)"

definition registry_get :: "registry \<Rightarrow> string \<Rightarrow> model_case res" where
  "registry_get cases case_id = (case map_of cases case_id of None \<Rightarrow> Inl (KeyError case_id) | Some c \<Rightarrow> Inr c)"

definition test_prefix :: string where "test_prefix = ''// PTO-TEST: ''"

text \<open>The checkout: the text of a file by its path, \<open>None\<close> when there is no such file.\<close>

type_synonym checkout_files = "string \<Rightarrow> string option"

definition test_records :: "(string \<Rightarrow> pyval res) \<Rightarrow> string \<Rightarrow> pyval list res" where
  "test_records json_loads text =
     rmap (\<lambda>line. json_loads (drop (length test_prefix) line)) (filter (\<lambda>line. py_startswith line test_prefix) (splitlines text))"

definition validate_registered :: "(string \<Rightarrow> pyval res) \<Rightarrow> checkout_files \<Rightarrow> model_case \<Rightarrow> unit res" where
  "validate_registered json_loads files c =
     rbind (guard (\<not> path_is_absolute (mc_source c) \<and> \<not> path_is_absolute (mc_test c)) ''case paths must be relative'') (\<lambda>_.
     rbind (if files (mc_source c) = None then Inl (FileNotFoundError (mc_source c)) else Inr ()) (\<lambda>_.
     (case files (mc_test c) of
        None \<Rightarrow> Inl (FileNotFoundError (mc_test c))
      | Some text \<Rightarrow>
          rbind (test_records json_loads text) (\<lambda>records.
            case records of
              [PDict record] \<Rightarrow>
                rbind (guard (fld record ''kind'' = PStr ''execution'') ''case test must have one execution PTO-TEST'') (\<lambda>_.
                guard (fld record ''source'' = PStr (mc_source c)) ''case source mismatch'')
            | [_] \<Rightarrow> Inl (AttributeError ''get'')
            | _ \<Rightarrow> Inl (ValueError ''case test must have one execution PTO-TEST'')))))"

definition registry_validate :: "(string \<Rightarrow> pyval res) \<Rightarrow> checkout_files \<Rightarrow> registry \<Rightarrow> unit res" where
  "registry_validate json_loads files cases =
     rbind (rmap (\<lambda>(_, c). validate_registered json_loads files c) cases) (\<lambda>_. Inr ())"

section \<open>Artifact and results\<close>

record asl_artifact =
  aa_pto_spec_commit :: string
  aa_spec_sha256 :: string
  aa_decoder_sha256 :: string
  aa_source_order_sha256 :: string

definition artifact_paths :: "string list" where
  "artifact_paths = [''build/pto-spec.asl'', ''build/decoders.asl'', ''build/asl-source-order.txt'']"

definition artifact_load :: "(string \<Rightarrow> string) \<Rightarrow> checkout_files \<Rightarrow> string res \<Rightarrow> asl_artifact res" where
  "artifact_load sha files commit =
     (case map files artifact_paths of
        [Some spec, Some decoders, Some order] \<Rightarrow>
          rbind commit (\<lambda>c. Inr \<lparr>aa_pto_spec_commit = py_strip c, aa_spec_sha256 = sha spec, aa_decoder_sha256 = sha decoders,
            aa_source_order_sha256 = sha order\<rparr>)
      | _ \<Rightarrow> Inl (FileNotFoundError ''missing ASL build artifacts''))"

definition artifact_as_dict :: "asl_artifact \<Rightarrow> (string, string) dict" where
  "artifact_as_dict a = [(''pto_spec_commit'', aa_pto_spec_commit a), (''spec_sha256'', aa_spec_sha256 a),
     (''decoder_sha256'', aa_decoder_sha256 a), (''source_order_sha256'', aa_source_order_sha256 a)]"

record backend_result =
  br_backend :: string
  br_case_id :: string
  br_instruction :: string
  br_status :: string
  br_returncode :: int
  br_artifact :: "(string, string) dict"
  br_observations :: "(string, pyval) dict option"
  br_error :: "string option"
  br_comparable :: bool

definition text_dict :: "(string, string) dict \<Rightarrow> pyval" where
  "text_dict d = PDict (map (\<lambda>(k, v). (k, PStr v)) d)"

text \<open>\<open>dict(self.observations or {})\<close>\<close>

definition observed :: "backend_result \<Rightarrow> (string, pyval) dict" where
  "observed r = (case br_observations r of None \<Rightarrow> [] | Some d \<Rightarrow> d)"

definition result_as_dict :: "backend_result \<Rightarrow> (string, pyval) dict" where
  "result_as_dict r =
     [(''backend'', PStr (br_backend r)), (''case_id'', PStr (br_case_id r)), (''instruction'', PStr (br_instruction r)),
      (''status'', PStr (br_status r)), (''returncode'', PInt (br_returncode r)), (''artifact'', text_dict (br_artifact r)),
      (''observations'', PDict (observed r)), (''error'', case br_error r of None \<Rightarrow> PNone | Some e \<Rightarrow> PStr e),
      (''comparable'', PBool (br_comparable r))]"

definition succeeded :: "backend_result \<Rightarrow> bool" where
  "succeeded r \<longleftrightarrow> br_returncode r = 0 \<and> (br_status r = ''passed'' \<or> br_status r = ''executed'')"

record backend_availability =
  ba_backend :: string
  ba_available :: bool
  ba_reason :: "string option"

section \<open>Backends\<close>

subsection \<open>ASL\<close>

record asl_backend =
  ab_registry :: registry
  ab_artifact :: asl_artifact

definition AslBackend ::
  "(string \<Rightarrow> pyval res) \<Rightarrow> (string \<Rightarrow> string) \<Rightarrow> checkout_files \<Rightarrow> string res \<Rightarrow> registry \<Rightarrow> asl_backend res" where
  "AslBackend json_loads sha files commit cases =
     rbind (registry_validate json_loads files cases) (\<lambda>_.
     rbind (artifact_load sha files commit) (\<lambda>artifact.
     if files ''scripts/aslref'' = None then Inl (FileNotFoundError ''missing ASLRef launcher'')
     else Inr \<lparr>ab_registry = cases, ab_artifact = artifact\<rparr>))"

definition read_text :: "checkout_files \<Rightarrow> string \<Rightarrow> string res" where
  "read_text files p = (case files p of None \<Rightarrow> Inl (FileNotFoundError p) | Some t \<Rightarrow> Inr t)"

definition case_program :: "string \<Rightarrow> string \<Rightarrow> string \<Rightarrow> string" where
  "case_program spec case_id test = spec @ [CHR 0x0A] @ ''// ASL model case: '' @ case_id @ [CHR 0x0A] @ test"

text \<open>\<open>aslref\<close>: the exit code and the error output for a program.\<close>

definition asl_execute ::
  "checkout_files \<Rightarrow> (string \<Rightarrow> int \<times> string) \<Rightarrow> asl_backend \<Rightarrow> model_case \<Rightarrow> backend_result res" where
  "asl_execute files aslref b c =
     rbind (registry_get (ab_registry b) (mc_case_id c)) (\<lambda>registered.
     rbind (guard (registered = c) ''case does not match registry'') (\<lambda>_.
     rbind (read_text files ''build/pto-spec.asl'') (\<lambda>spec.
     rbind (read_text files (mc_test c)) (\<lambda>test.
     case aslref (case_program spec (mc_case_id c) test) of (returncode, stderr) \<Rightarrow>
       Inr \<lparr>br_backend = ''asl'', br_case_id = mc_case_id c, br_instruction = mc_instruction c,
            br_status = (if returncode = 0 then ''passed'' else ''failed''), br_returncode = returncode,
            br_artifact = artifact_as_dict (ab_artifact b), br_observations = None,
            br_error = (if returncode \<noteq> 0 \<and> py_strip stderr \<noteq> [] then Some (py_strip stderr) else None),
            br_comparable = False\<rparr>))))"

definition asl_availability :: backend_availability where
  "asl_availability = \<lparr>ba_backend = ''asl'', ba_available = True, ba_reason = None\<rparr>"

subsection \<open>Native\<close>

definition native_reason :: string where
  "native_reason = ''native backend is reserved for the future high-throughput implementation''"

definition native_availability :: "(model_case \<Rightarrow> backend_result res) option \<Rightarrow> backend_availability" where
  "native_availability executor =
     (case executor of
        None \<Rightarrow> \<lparr>ba_backend = ''native'', ba_available = False, ba_reason = Some native_reason\<rparr>
      | Some _ \<Rightarrow> \<lparr>ba_backend = ''native'', ba_available = True, ba_reason = None\<rparr>)"

definition native_execute ::
  "(model_case \<Rightarrow> backend_result res) option \<Rightarrow> (string, string) dict \<Rightarrow> model_case \<Rightarrow> backend_result res" where
  "native_execute executor artifact c =
     (case executor of
        None \<Rightarrow> Inr \<lparr>br_backend = ''native'', br_case_id = mc_case_id c, br_instruction = mc_instruction c, br_status = ''unavailable'',
           br_returncode = 3, br_artifact = artifact, br_observations = None, br_error = ba_reason (native_availability executor),
           br_comparable = False\<rparr>
      | Some f \<Rightarrow> rbind (f c) (\<lambda>r. Inr (r\<lparr>br_backend := ''native''\<rparr>)))"

subsection \<open>Differential\<close>

definition join_reasons :: "string list \<Rightarrow> string" where
  "join_reasons rs = concat (case rs of [] \<Rightarrow> [] | x # xs \<Rightarrow> x # map (\<lambda>y. ''; '' @ y) xs)"

definition differential_availability :: "backend_availability \<Rightarrow> backend_availability \<Rightarrow> backend_availability" where
  "differential_availability reference candidate =
     (if ba_available reference \<and> ba_available candidate
      then \<lparr>ba_backend = ''differential'', ba_available = True, ba_reason = None\<rparr>
      else
        let reasons = concat (map (\<lambda>a. case ba_reason a of None \<Rightarrow> [] | Some t \<Rightarrow> if t = [] then [] else [t]) [reference, candidate])
        in \<lparr>ba_backend = ''differential'', ba_available = False,
            ba_reason = Some (if join_reasons reasons = [] then ''backend unavailable'' else join_reasons reasons)\<rparr>)"

definition differential_result ::
  "model_case \<Rightarrow> (string, string) dict \<Rightarrow> (string, pyval) dict \<Rightarrow> string \<Rightarrow> int \<Rightarrow> string option \<Rightarrow> bool \<Rightarrow> backend_result" where
  "differential_result c artifact details status returncode error comparable =
     \<lparr>br_backend = ''differential'', br_case_id = mc_case_id c, br_instruction = mc_instruction c, br_status = status,
      br_returncode = returncode, br_artifact = artifact, br_observations = Some details, br_error = error, br_comparable = comparable\<rparr>"

definition differential_compare :: "model_case \<Rightarrow> backend_result \<Rightarrow> backend_result \<Rightarrow> backend_result" where
  "differential_compare c reference candidate =
     (let artifact = (if br_artifact reference \<noteq> [] then br_artifact reference else br_artifact candidate);
          details = [(''reference'', PDict (result_as_dict reference)), (''candidate'', PDict (result_as_dict candidate))];
          result = differential_result c artifact details
      in if \<not> succeeded reference \<or> \<not> succeeded candidate then
           (if br_status reference = ''unavailable'' \<or> br_status candidate = ''unavailable''
            then result ''unavailable'' 3 (Some ''both backends must complete successfully before comparison'') False
            else result ''failed'' 1 (Some ''both backends must complete successfully before comparison'') False)
         else if \<not> br_comparable reference \<or> \<not> br_comparable candidate then
           result ''inconclusive'' 4 (Some ''backend result lacks a comparable architectural snapshot'') False
         else if \<not> py_eq (text_dict (br_artifact reference)) (text_dict (br_artifact candidate)) then
           result ''mismatch'' 1 (Some ''backend artifact identities differ'') False
         else if \<not> py_eq (PDict (observed reference)) (PDict (observed candidate)) then
           result ''mismatch'' 1 (Some ''architectural observations differ'') False
         else result ''passed'' 0 None True)"

definition differential_execute ::
  "(model_case \<Rightarrow> backend_result res) \<Rightarrow> (model_case \<Rightarrow> backend_result res) \<Rightarrow> model_case \<Rightarrow> backend_result res" where
  "differential_execute reference candidate c =
     rbind (reference c) (\<lambda>a. rbind (candidate c) (\<lambda>b. Inr (differential_compare c a b)))"

section \<open>Batches\<close>

record batch_report =
  rep_backend :: string
  rep_results :: "backend_result list"

definition rep_passed :: "batch_report \<Rightarrow> nat" where
  "rep_passed r = length (filter succeeded (rep_results r))"

definition rep_failed :: "batch_report \<Rightarrow> int" where
  "rep_failed r = int (length (rep_results r)) - int (rep_passed r)"

definition report_as_dict :: "batch_report \<Rightarrow> (string, pyval) dict" where
  "report_as_dict r =
     [(''schema'', PStr ''pto.asl-model-batch-report.v1''), (''backend'', PStr (rep_backend r)),
      (''summary'', PDict [(''total'', PInt (int (length (rep_results r)))), (''passed'', PInt (int (rep_passed r))),
         (''failed'', PInt (rep_failed r))]),
      (''results'', PList (map (\<lambda>x. PDict (result_as_dict x)) (rep_results r)))]"

definition run_cases ::
  "string \<Rightarrow> (model_case \<Rightarrow> backend_result res) \<Rightarrow> registry \<Rightarrow> string list option \<Rightarrow> batch_report res" where
  "run_cases name execute_backend cases case_ids =
     (let selected = (case case_ids of None \<Rightarrow> registry_ids cases | Some xs \<Rightarrow> xs) in
      rbind (rmap (\<lambda>i. rbind (registry_get cases i) execute_backend) selected) (\<lambda>results.
        Inr \<lparr>rep_backend = name, rep_results = results\<rparr>))"


section \<open>The registry\<close>

definition registry_ok :: "registry \<Rightarrow> bool" where
  "registry_ok cases \<longleftrightarrow> distinct (map fst cases) \<and> list_all (\<lambda>(i, c). mc_case_id c = i \<and> i \<noteq> []) cases"

lemma case_string_Inr: "case_string row n = Inr s \<longleftrightarrow> fld row n = PStr s \<and> s \<noteq> []"
  by (auto simp: case_string_def split: pyval.splits if_splits)

lemma register_case_ok:
  assumes "register_case v cases = Inr cases'" and "registry_ok cases"
  shows "registry_ok cases'"
  using assms by (cases v) (auto simp: register_case_def registry_ok_def res_simps accepts case_string_Inr)

lemma CaseRegistry_ok:
  assumes "CaseRegistry v = Inr cases"
  shows "registry_ok cases"
proof -
  obtain rows where "rfold register_case rows [] = Inr cases"
    using assms by (auto simp: CaseRegistry_def res_simps accepts split: pyval.splits if_splits)
  then show ?thesis by (rule rfold_invariant) (auto simp: registry_ok_def [of "[]"] intro: register_case_ok)
qed

lemma registry_get_Inr: "registry_ok cases \<Longrightarrow> registry_get cases i = Inr c \<Longrightarrow> mc_case_id c = i"
  by (auto simp: registry_get_def registry_ok_def list_all_iff split: option.splits dest: map_of_SomeD)

section \<open>What the batch runner relies on\<close>

text \<open>A backend reports on the case it was given, and an exit code of zero only for a success.\<close>

locale functional_backend =
  fixes execute_backend :: "model_case \<Rightarrow> backend_result res"
  assumes reports_case: "execute_backend c = Inr r \<Longrightarrow> br_case_id r = mc_case_id c \<and> br_instruction r = mc_instruction c"
    and zero_is_success: "execute_backend c = Inr r \<Longrightarrow> br_returncode r = 0 \<Longrightarrow> succeeded r"
begin

lemma success_iff_zero: "execute_backend c = Inr r \<Longrightarrow> succeeded r \<longleftrightarrow> br_returncode r = 0"
  using zero_is_success by (auto simp: succeeded_def)

lemma batch_exact:
  assumes "registry_ok cases" and "run_cases name execute_backend cases ids = Inr rep"
  shows "map br_case_id (rep_results rep) = (case ids of None \<Rightarrow> registry_ids cases | Some xs \<Rightarrow> xs) \<and>
    rep_failed rep = int (length (filter (\<lambda>r. br_returncode r \<noteq> 0) (rep_results rep)))"
proof -
  let ?sel = "case ids of None \<Rightarrow> registry_ids cases | Some xs \<Rightarrow> xs"
  obtain rs where "rmap (\<lambda>i. rbind (registry_get cases i) execute_backend) ?sel = Inr rs" and rep: "rep_results rep = rs"
    using assms(2) by (auto simp: run_cases_def Let_def res_simps)
  then have a2: "list_all2 (\<lambda>i r. \<exists>c. registry_get cases i = Inr c \<and> execute_backend c = Inr r) ?sel rs"
    by (simp add: rmap_Inr_iff res_simps)
  then have "list_all2 (\<lambda>i r. br_case_id r = i \<and> (succeeded r \<longleftrightarrow> br_returncode r = 0)) ?sel rs"
    by (rule list_all2_mono) (use registry_get_Inr [OF assms(1)] reports_case success_iff_zero in blast)
  then have ids: "map br_case_id rs = ?sel" and iff: "\<forall>r \<in> set rs. succeeded r \<longleftrightarrow> br_returncode r = 0"
    by (auto simp: list_all2_conv_all_nth in_set_conv_nth intro!: nth_equalityI)
  have "length (filter succeeded rs) + length (filter (\<lambda>r. \<not> succeeded r) rs) = length rs" by (rule sum_length_filter_compl)
  moreover have "filter (\<lambda>r. \<not> succeeded r) rs = filter (\<lambda>r. br_returncode r \<noteq> 0) rs" using iff by (auto intro: filter_cong)
  ultimately show ?thesis using ids rep by (simp add: rep_failed_def rep_passed_def)
qed

end

lemma asl_execute_Inr:
  assumes "asl_execute files aslref b c = Inr r"
  shows "br_case_id r = mc_case_id c" "br_instruction r = mc_instruction c" "\<not> br_comparable r"
    and "br_status r = (if br_returncode r = 0 then ''passed'' else ''failed'')"
proof -
  obtain spec test where "(case aslref (case_program spec (mc_case_id c) test) of (returncode, stderr) \<Rightarrow>
       Inr \<lparr>br_backend = ''asl'', br_case_id = mc_case_id c, br_instruction = mc_instruction c,
            br_status = (if returncode = 0 then ''passed'' else ''failed''), br_returncode = returncode,
            br_artifact = artifact_as_dict (ab_artifact b), br_observations = None,
            br_error = (if returncode \<noteq> 0 \<and> py_strip stderr \<noteq> [] then Some (py_strip stderr) else None),
            br_comparable = False\<rparr>) = (Inr r :: backend_result res)"
    using assms unfolding asl_execute_def rbind_eq_Inr by blast
  then show "br_case_id r = mc_case_id c" "br_instruction r = mc_instruction c" "\<not> br_comparable r"
    "br_status r = (if br_returncode r = 0 then ''passed'' else ''failed'')"
    by (cases "aslref (case_program spec (mc_case_id c) test)"; force)+
qed

lemma differential_compare_fields:
  "br_case_id (differential_compare c x y) = mc_case_id c" "br_instruction (differential_compare c x y) = mc_instruction c"
  "br_returncode (differential_compare c x y) = 0 \<longleftrightarrow> br_status (differential_compare c x y) = ''passed''"
  "br_status (differential_compare c x y) \<noteq> ''executed''"
  by (simp_all add: differential_compare_def differential_result_def Let_def)

lemma differential_compare_passed:
  "br_status (differential_compare c x y) = ''passed'' \<longleftrightarrow> succeeded x \<and> succeeded y \<and> br_comparable x \<and> br_comparable y \<and>
     py_eq (text_dict (br_artifact x)) (text_dict (br_artifact y)) \<and> py_eq (PDict (observed x)) (PDict (observed y))"
  by (simp add: differential_compare_def differential_result_def Let_def del: py_eq.simps) blast

lemma differential_compare_unavailable:
  assumes "br_status x = ''unavailable'' \<or> br_status y = ''unavailable''"
  shows "br_status (differential_compare c x y) = ''unavailable''"
proof -
  have "\<not> succeeded x \<or> \<not> succeeded y" using assms by (auto simp: succeeded_def)
  then show ?thesis using assms by (simp add: differential_compare_def differential_result_def Let_def)
qed

interpretation asl: functional_backend "asl_execute files aslref b" for files aslref b
  by unfold_locales (auto simp: succeeded_def dest: asl_execute_Inr)

interpretation native_stub: functional_backend "native_execute None artifact" for artifact
  by unfold_locales (auto simp: native_execute_def)

interpretation differential: functional_backend "differential_execute reference candidate" for reference candidate
  by unfold_locales (auto simp: differential_execute_def res_simps succeeded_def differential_compare_fields)

section \<open>Theorems\<close>

text \<open>
  A batch over the ASL backend reports one result per requested case, in the requested order (the
  sorted identifiers of the registry by default), and its failure count is the number of programs
  for which ASLRef did not exit with zero.
\<close>

theorem asl_batch_exact:
  assumes "CaseRegistry doc = Inr cases" and "run_cases ''asl'' (asl_execute files aslref b) cases ids = Inr rep"
  shows "map br_case_id (rep_results rep) = (case ids of None \<Rightarrow> registry_ids cases | Some xs \<Rightarrow> xs) \<and>
    rep_failed rep = int (length (filter (\<lambda>r. br_returncode r \<noteq> 0) (rep_results rep)))"
  using asl.batch_exact [OF CaseRegistry_ok [OF assms(1)] assms(2)] .

text \<open>
  C40: The differential backend fails closed. It reports a success exactly when both backends completed
  successfully with comparable results for the same artifacts and the same observations; a backend
  that is unavailable, and the ASL backend with its empty observations, never make it pass.
\<close>

theorem differential_passes_iff:
  assumes "differential_execute reference candidate c = Inr r"
  shows "(succeeded r \<longleftrightarrow> (\<exists>x y. reference c = Inr x \<and> candidate c = Inr y \<and> succeeded x \<and> succeeded y \<and>
      br_comparable x \<and> br_comparable y \<and> py_eq (text_dict (br_artifact x)) (text_dict (br_artifact y)) \<and>
      py_eq (PDict (observed x)) (PDict (observed y)))) \<and>
    (\<forall>x. reference c = Inr x \<or> candidate c = Inr x \<longrightarrow> br_status x = ''unavailable'' \<longrightarrow> br_status r = ''unavailable'') \<and>
    (\<forall>files aslref b. reference = asl_execute files aslref b \<longrightarrow> \<not> succeeded r)"
proof -
  obtain x y where xy: "reference c = Inr x" "candidate c = Inr y" "r = differential_compare c x y"
    using assms by (auto simp: differential_execute_def res_simps)
  have iff: "succeeded r \<longleftrightarrow> succeeded x \<and> succeeded y \<and> br_comparable x \<and> br_comparable y \<and>
      py_eq (text_dict (br_artifact x)) (text_dict (br_artifact y)) \<and> py_eq (PDict (observed x)) (PDict (observed y))"
    using differential_compare_fields(3,4) [of c x y] differential_compare_passed [of c x y] xy(3) by (auto simp: succeeded_def)
  have "\<not> br_comparable x" if "reference = asl_execute files aslref b" for files aslref b
    using xy(1) that asl_execute_Inr(3) by blast
  with iff xy(1,2) differential_compare_unavailable [of x y c] show ?thesis unfolding xy(3) by auto
qed


subsection \<open>Witnesses\<close>

definition demo_registry_document :: pyval where
  "demo_registry_document = PDict [(''schema'', PStr ''pto.asl-model-cases.v2''),
     (''cases'', PList [PDict [(''id'', PStr ''b''), (''instruction'', PStr ''ADD''), (''class'', PStr ''int''), (''source'', PStr ''s/add.asl''),
        (''test'', PStr ''t/./add.asl'')]])]"

definition demo_model_case :: model_case where
  "demo_model_case = \<lparr>mc_case_id = ''b'', mc_instruction = ''ADD'', mc_instruction_class = ''int'', mc_source = ''s/add.asl'',
     mc_test = ''t/add.asl''\<rparr>"

lemma demo_registry: "CaseRegistry demo_registry_document = Inr [(''b'', demo_model_case)]"
  by code_simp

definition demo_backend :: asl_backend where
  "demo_backend = \<lparr>ab_registry = [(''b'', demo_model_case)],
     ab_artifact = \<lparr>aa_pto_spec_commit = [], aa_spec_sha256 = [], aa_decoder_sha256 = [], aa_source_order_sha256 = []\<rparr>\<rparr>"

theorem asl_batch_exact_witness:
  "\<exists>rep. run_cases ''asl'' (asl_execute (\<lambda>_. Some ''x'') (\<lambda>_. (1, ''e'')) demo_backend) [(''b'', demo_model_case)] None = Inr rep \<and>
     map br_case_id (rep_results rep) = [''b''] \<and> rep_failed rep = int (length (filter (\<lambda>r. br_returncode r \<noteq> 0) (rep_results rep)))"
proof -
  have "\<not> isl (run_cases ''asl'' (asl_execute (\<lambda>_. Some ''x'') (\<lambda>_. (1, ''e'')) demo_backend) [(''b'', demo_model_case)] None)"
    by code_simp
  then obtain rep where rep: "run_cases ''asl'' (asl_execute (\<lambda>_. Some ''x'') (\<lambda>_. (1, ''e'')) demo_backend) [(''b'', demo_model_case)] None = Inr rep"
    using sum.collapse(2) by metis
  from asl_batch_exact [OF demo_registry rep] rep show ?thesis by (auto simp: registry_ids_def)
qed

definition demo_backend_result :: backend_result where
  "demo_backend_result = \<lparr>br_backend = ''x'', br_case_id = ''b'', br_instruction = ''ADD'', br_status = ''executed'', br_returncode = 0,
     br_artifact = [(''spec_sha256'', ''a'')], br_observations = Some [(''pc'', PInt 4)], br_error = None, br_comparable = True\<rparr>"

theorem differential_passes_iff_witness:
  "\<exists>r. differential_execute (\<lambda>_. Inr demo_backend_result) (\<lambda>_. Inr demo_backend_result) demo_model_case = Inr r \<and> succeeded r"
proof -
  obtain r where r: "differential_execute (\<lambda>_. Inr demo_backend_result) (\<lambda>_. Inr demo_backend_result) demo_model_case = Inr r"
    by (simp add: differential_execute_def)
  have "succeeded demo_backend_result" "br_comparable demo_backend_result"
    "py_eq (text_dict (br_artifact demo_backend_result)) (text_dict (br_artifact demo_backend_result))"
    "py_eq (PDict (observed demo_backend_result)) (PDict (observed demo_backend_result))" by code_simp+
  with differential_passes_iff [OF r] r show ?thesis by blast
qed

end
