(* ===== verification/Demo_Tool.thy ===== *)
theory Demo_Tool
  imports Backends
begin

text \<open>
  The demonstration runner \<open>tools/asl_backed_demo.py\<close>: the inventory of instruction tests, its check
  against the test files, the artifact manifest and the execution of one test. It reads the case
  registry on its own; the theorems relate its check to the registry of \<open>Backends\<close>.

  The decoded registry document, the files of the checkout by their path under its root, the answer
  of \<open>git\<close>, SHA-256 and ASLRef (its exit code) are parameters.
\<close>

section \<open>The inventory\<close>

definition schema_known :: "pyval \<Rightarrow> bool res" where
  "schema_known v =
     (case v of
        PStr s \<Rightarrow> Inr (s = ''pto.asl-model-cases.v1'' \<or> s = ''pto.asl-model-cases.v2'')
      | _ \<Rightarrow> if py_hashable v then Inr False else Inl (TypeError ''unhashable type''))"

definition add_test :: "pyval \<Rightarrow> (string, string) dict \<Rightarrow> (string, string) dict res" where
  "add_test v tests =
     (case v of
        PDict row \<Rightarrow>
          (case fld row ''instruction'' of
             PStr instruction \<Rightarrow>
               (case fld row ''test'' of
                  PStr test \<Rightarrow>
                    if instruction \<in> set (map fst tests) then Inl (RuntimeError ''invalid or duplicate case'')
                    else Inr (tests @ [(instruction, py_path test)])
                | _ \<Rightarrow> Inl (RuntimeError ''invalid or duplicate case''))
           | _ \<Rightarrow> Inl (RuntimeError ''invalid case entry''))
      | _ \<Rightarrow> Inl (RuntimeError ''invalid case entry''))"

definition canonical_tests :: "pyval \<Rightarrow> (string, string) dict res" where
  "canonical_tests v =
     (case v of
        PDict data \<Rightarrow>
          rbind (schema_known (fld data ''schema'')) (\<lambda>known.
            if \<not> known then Inl (RuntimeError ''unsupported case registry schema'')
            else (case fld data ''cases'' of
                    PList rows \<Rightarrow> rfold add_test rows []
                  | _ \<Rightarrow> Inl (RuntimeError ''invalid case registry'')))
      | _ \<Rightarrow> Inl (AttributeError ''get''))"

section \<open>The artifact and the execution of a test\<close>

definition artifact_manifest :: "(string \<Rightarrow> string) \<Rightarrow> checkout_files \<Rightarrow> string res \<Rightarrow> (string, pyval) dict res" where
  "artifact_manifest sha files commit =
     (case map files artifact_paths of
        [Some spec, Some decoders, Some order] \<Rightarrow>
          if files ''scripts/aslref'' = None then Inl (RuntimeError ''missing ASLRef launcher'')
          else rbind commit (\<lambda>c.
            Inr [(''schema'', PStr ''pto.asl-backed-demo.v2''), (''pto_spec_commit'', PStr (py_strip c)),
                 (''spec_sha256'', PStr (sha spec)), (''decoder_sha256'', PStr (sha decoders)),
                 (''source_order_sha256'', PStr (sha order)), (''semantic_entry'', PStr ''ExecutePTOInstruction''),
                 (''runtime_abi'', PStr ''aslref-process-v1'')])
      | _ \<Rightarrow> Inl (RuntimeError ''missing generated PTO ASL inputs''))"

definition demo_program :: "string \<Rightarrow> string \<Rightarrow> string \<Rightarrow> string" where
  "demo_program spec test_path test = spec @ [CHR 0x0A] @ ''// Canonical ASL test: '' @ test_path @ [CHR 0x0A] @ test"

definition execute_test ::
  "(string \<Rightarrow> string) \<Rightarrow> checkout_files \<Rightarrow> string res \<Rightarrow> (string \<Rightarrow> int) \<Rightarrow> pyval \<Rightarrow> string \<Rightarrow> (int \<times> (string, pyval) dict) res" where
  "execute_test sha files commit aslref v instruction =
     rbind (canonical_tests v) (\<lambda>tests.
     case map_of tests instruction of
       None \<Rightarrow> Inl (ValueError ''unsupported demo instruction'')
     | Some test_path \<Rightarrow>
         (case files test_path of
            None \<Rightarrow> Inl (RuntimeError ''missing canonical ASL test'')
          | Some test \<Rightarrow>
              rbind (artifact_manifest sha files commit) (\<lambda>manifest.
              rbind (read_text files ''build/pto-spec.asl'') (\<lambda>spec.
                let returncode = aslref (demo_program spec test_path test) in
                Inr (returncode,
                  [(''instruction'', PStr instruction), (''test_source'', PStr test_path),
                   (''status'', PStr (if returncode = 0 then ''executed'' else ''rejected_or_failed'')),
                   (''returncode'', PInt returncode), (''manifest'', PDict manifest)])))))"

section \<open>Checking the inventory\<close>

text \<open>The names and the sources the check reads from the document; a later row replaces an earlier one.\<close>

definition registered_names :: "pyval list \<Rightarrow> pyval list" where
  "registered_names rows = concat (map (\<lambda>v. case v of PDict row \<Rightarrow> [fld row ''instruction''] | _ \<Rightarrow> []) rows)"

definition registry_sources :: "pyval list \<Rightarrow> (string, string) dict" where
  "registry_sources rows = dict_of (concat (map (\<lambda>v. case v of
       PDict row \<Rightarrow> (case (fld row ''instruction'', fld row ''source'') of (PStr i, PStr s) \<Rightarrow> [(i, s)] | _ \<Rightarrow> [])
     | _ \<Rightarrow> []) rows))"

definition check_test ::
  "(string \<Rightarrow> pyval res) \<Rightarrow> checkout_files \<Rightarrow> (string, string) dict \<Rightarrow> string \<times> string \<Rightarrow> unit res" where
  "check_test json_loads files sources it =
     (case files (snd it) of
        None \<Rightarrow> Inl (RuntimeError ''missing canonical ASL test'')
      | Some text \<Rightarrow>
          rbind (test_records json_loads text) (\<lambda>records.
            case records of
              [PDict record] \<Rightarrow>
                if fld record ''kind'' \<noteq> PStr ''execution'' then Inl (RuntimeError ''case test must contain one execution PTO-TEST record'')
                else (case map_of sources (fst it) of
                        None \<Rightarrow> Inl (KeyError (fst it))
                      | Some s \<Rightarrow> if fld record ''source'' \<noteq> PStr s then Inl (RuntimeError ''case source mismatch'') else Inr ())
            | [_] \<Rightarrow> Inl (AttributeError ''get'')
            | _ \<Rightarrow> Inl (RuntimeError ''case test must contain one execution PTO-TEST record'')))"

definition check_cases ::
  "(string \<Rightarrow> pyval res) \<Rightarrow> (string \<Rightarrow> string) \<Rightarrow> checkout_files \<Rightarrow> string res \<Rightarrow> pyval \<Rightarrow> (string, string) dict res" where
  "check_cases json_loads sha files commit v =
     rbind (canonical_tests v) (\<lambda>tests.
       let rows = (case v of PDict data \<Rightarrow> (case fld data ''cases'' of PList rows \<Rightarrow> rows | _ \<Rightarrow> []) | _ \<Rightarrow> []) in
       if set (registered_names rows) \<noteq> set (map (\<lambda>it. PStr (fst it)) tests) then
         Inl (RuntimeError ''case registry and ASL execution-test inventory disagree'')
       else rbind (rmap (check_test json_loads files (registry_sources rows)) tests) (\<lambda>_.
            rbind (artifact_manifest sha files commit) (\<lambda>_. Inr tests)))"

section \<open>Lemmas\<close>

lemma add_test_Inr:
  "add_test v tests = Inr tests' \<longleftrightarrow>
     (\<exists>row i t. v = PDict row \<and> fld row ''instruction'' = PStr i \<and> fld row ''test'' = PStr t \<and> i \<notin> set (map fst tests)
        \<and> tests' = tests @ [(i, py_path t)])"
  by (auto simp: add_test_def split: pyval.splits)

lemma registered_names_Cons:
  "fld row ''instruction'' = x \<Longrightarrow> registered_names (PDict row # rows) = x # registered_names rows"
  by (simp add: registered_names_def)

lemma rfold_add_test:
  "rfold add_test rows tests = Inr tests' \<Longrightarrow> distinct (map fst tests) \<Longrightarrow>
   (\<exists>new. tests' = tests @ new \<and> registered_names rows = map (\<lambda>it. PStr (fst it)) new) \<and> distinct (map fst tests')"
proof (induction rows arbitrary: tests)
  case Nil
  then show ?case by (simp add: registered_names_def)
next
  case (Cons v rows)
  from Cons.prems(1) obtain row i t where v: "v = PDict row" "fld row ''instruction'' = PStr i" "i \<notin> set (map fst tests)"
    and rest: "rfold add_test rows (tests @ [(i, py_path t)]) = Inr tests'"
    by (auto simp: res_simps add_test_Inr)
  have "distinct (map fst (tests @ [(i, py_path t)]))" using Cons.prems(2) v(3) by simp
  from Cons.IH [OF rest this] show ?case using v by (auto simp: registered_names_Cons)
qed

lemma canonical_tests_Inr:
  assumes "canonical_tests v = Inr tests"
  obtains data rows where "v = PDict data" "fld data ''cases'' = PList rows" "rfold add_test rows [] = Inr tests"
  using assms by (auto simp: canonical_tests_def res_simps split: pyval.splits if_splits)

text \<open>The comparison of the inventory with itself never fails.\<close>

lemma inventory_agrees:
  assumes "canonical_tests v = Inr tests"
  shows "check_cases json_loads sha files commit v =
      rbind (rmap (check_test json_loads files (registry_sources
        (case v of PDict data \<Rightarrow> (case fld data ''cases'' of PList rows \<Rightarrow> rows | _ \<Rightarrow> []) | _ \<Rightarrow> []))) tests) (\<lambda>_.
      rbind (artifact_manifest sha files commit) (\<lambda>_. Inr tests))"
    and "distinct (map fst tests)"
proof -
  from canonical_tests_Inr [OF assms] obtain data rows where
    v: "v = PDict data" "fld data ''cases'' = PList rows" "rfold add_test rows [] = Inr tests" .
  from rfold_add_test [OF v(3)] show "distinct (map fst tests)" by simp
  have "registered_names rows = map (\<lambda>it. PStr (fst it)) tests" using rfold_add_test [OF v(3)] by simp
  then show "check_cases json_loads sha files commit v =
      rbind (rmap (check_test json_loads files (registry_sources
        (case v of PDict data \<Rightarrow> (case fld data ''cases'' of PList rows \<Rightarrow> rows | _ \<Rightarrow> []) | _ \<Rightarrow> []))) tests) (\<lambda>_.
      rbind (artifact_manifest sha files commit) (\<lambda>_. Inr tests))"
    using assms v by (simp add: check_cases_def rbind_def Let_def)
qed

lemma rmap_member: "rmap f xs = Inr ys \<Longrightarrow> x \<in> set xs \<Longrightarrow> \<exists>y. f x = Inr y"
  by (induction xs arbitrary: ys) (auto simp: res_simps)

lemma single_object_Inr:
  "(case records of [PDict r] \<Rightarrow> f r | [_] \<Rightarrow> Inl e1 | _ \<Rightarrow> Inl e2) = Inr y \<longleftrightarrow> (\<exists>r. records = [PDict r] \<and> f r = Inr y)"
  by (cases records; cases "tl records"; cases "hd records") auto

lemma check_test_Inr:
  "check_test json_loads files sources (i, p) = Inr () \<longleftrightarrow>
     (\<exists>text record s. files p = Some text \<and> test_records json_loads text = Inr [PDict record]
        \<and> fld record ''kind'' = PStr ''execution'' \<and> map_of sources i = Some s \<and> fld record ''source'' = PStr s)"
  by (auto simp: check_test_def res_simps single_object_Inr split: option.splits if_splits)

section \<open>The check and the case registry\<close>

text \<open>A row of the document and the case the registry makes of it.\<close>

definition row_case :: "pyval \<Rightarrow> model_case \<Rightarrow> bool" where
  "row_case v c \<longleftrightarrow> (\<exists>row s t. v = PDict row \<and> fld row ''instruction'' = PStr (mc_instruction c) \<and> fld row ''source'' = PStr s
     \<and> fld row ''test'' = PStr t \<and> mc_source c = py_path s \<and> mc_test c = py_path t)"

lemma register_case_row:
  "register_case v cases = Inr cases' \<Longrightarrow> \<exists>c. cases' = cases @ [(mc_case_id c, c)] \<and> row_case v c"
  by (force simp: register_case_def row_case_def res_simps guard_def case_string_Inr split: pyval.splits if_splits)

lemma rfold_register_rows:
  "rfold register_case rows cases = Inr cases' \<Longrightarrow> \<exists>new. cases' = cases @ new \<and> list_all2 row_case rows (map snd new)"
proof (induction rows arbitrary: cases)
  case (Cons v rows)
  then obtain c1 where r: "register_case v cases = Inr c1" "rfold register_case rows c1 = Inr cases'" by (auto simp: res_simps)
  from register_case_row [OF r(1)] obtain c where c: "c1 = cases @ [(mc_case_id c, c)]" "row_case v c" by blast
  from Cons.IH [OF r(2)] obtain new where "cases' = c1 @ new" "list_all2 row_case rows (map snd new)" by blast
  with c show ?case by (intro exI [of _ "(mc_case_id c, c) # new"]) simp
qed auto

lemma rfold_add_cases:
  "list_all2 row_case rows cs \<Longrightarrow> distinct (map fst tests @ map mc_instruction cs) \<Longrightarrow>
   rfold add_test rows tests = Inr (tests @ map (\<lambda>c. (mc_instruction c, mc_test c)) cs)"
proof (induction rows cs arbitrary: tests rule: list_all2_induct)
  case (Cons v rows c cs)
  have "add_test v tests = Inr (tests @ [(mc_instruction c, mc_test c)])"
    using Cons(1,4) by (auto simp: add_test_Inr row_case_def)
  with Cons(3) [of "tests @ [(mc_instruction c, mc_test c)]"] Cons(4) show ?case by (simp add: rbind_def)
qed simp

lemma registry_sources_cases:
  assumes "list_all2 row_case rows cs" and "distinct (map mc_instruction cs)" and "c \<in> set cs"
    and "\<forall>row s. PDict row \<in> set rows \<longrightarrow> fld row ''source'' = PStr s \<longrightarrow> py_path s = s"
  shows "map_of (registry_sources rows) (mc_instruction c) = Some (mc_source c)"
proof -
  have "concat (map (\<lambda>v. case v of PDict row \<Rightarrow> (case (fld row ''instruction'', fld row ''source'') of (PStr i, PStr s) \<Rightarrow> [(i, s)] | _ \<Rightarrow> []) | _ \<Rightarrow> []) rows)
      = map (\<lambda>c. (mc_instruction c, mc_source c)) cs"
    using assms(1,4) by (induction rows cs rule: list_all2_induct) (force simp: row_case_def)+
  then have "registry_sources rows = dict_of (map (\<lambda>c. (mc_instruction c, mc_source c)) cs)" by (simp add: registry_sources_def)
  moreover have "map_of (map (\<lambda>c. (mc_instruction c, mc_source c)) cs) (mc_instruction c) = Some (mc_source c)"
    using assms(2,3) by (intro map_of_is_SomeI) (auto simp: comp_def)
  ultimately show ?thesis using assms(2) by (simp add: map_of_dict_of_distinct comp_def)
qed

lemma validate_registered_Inr:
  assumes "validate_registered json_loads files c = Inr ()"
  shows "\<exists>text record. files (mc_test c) = Some text \<and> test_records json_loads text = Inr [PDict record]
    \<and> fld record ''kind'' = PStr ''execution'' \<and> fld record ''source'' = PStr (mc_source c)"
  using assms by (auto simp: validate_registered_def guard_def res_simps single_object_Inr split: option.splits if_splits)

text \<open>
  What the check guarantees: every listed instruction has one test file, with one execution record
  that names the source of the registry.
\<close>

theorem check_cases_sound:
  assumes "check_cases json_loads sha files commit v = Inr tests" and "(i, p) \<in> set tests"
  shows "\<exists>text record s. files p = Some text \<and> test_records json_loads text = Inr [PDict record]
    \<and> fld record ''kind'' = PStr ''execution'' \<and> fld record ''source'' = PStr s"
proof -
  from assms(1) obtain ts where ts: "canonical_tests v = Inr ts" by (auto simp: check_cases_def res_simps)
  define sources where "sources = registry_sources
      (case v of PDict data \<Rightarrow> (case fld data ''cases'' of PList rows \<Rightarrow> rows | _ \<Rightarrow> []) | _ \<Rightarrow> [])"
  have "check_cases json_loads sha files commit v =
      rbind (rmap (check_test json_loads files sources) ts) (\<lambda>_. rbind (artifact_manifest sha files commit) (\<lambda>_. Inr ts))"
    unfolding sources_def by (rule inventory_agrees(1) [OF ts])
  with assms(1) obtain us where "ts = tests" "rmap (check_test json_loads files sources) ts = Inr us" by (auto simp: res_simps)
  with rmap_member [OF this(2), of "(i, p)"] assms(2) have "check_test json_loads files sources (i, p) = Inr ()" by auto
  then show ?thesis unfolding check_test_Inr by blast
qed

text \<open>
  The two readers of the registry agree: a registry that the model accepts and validates, with one
  case per instruction and source paths in normal form, passes the check of the demonstration
  runner, which lists its cases in order.
\<close>

theorem demo_check_agrees:
  assumes reg: "CaseRegistry v = Inr cases" and val: "registry_validate json_loads files cases = Inr ()"
    and art: "artifact_load sha files commit = Inr artifact" "files ''scripts/aslref'' \<noteq> None"
    and dist: "distinct (map (\<lambda>c. mc_instruction (snd c)) cases)"
    and norm: "\<forall>data rows row s. v = PDict data \<longrightarrow> fld data ''cases'' = PList rows \<longrightarrow> PDict row \<in> set rows \<longrightarrow>
      fld row ''source'' = PStr s \<longrightarrow> py_path s = s"
  shows "check_cases json_loads sha files commit v = Inr (map (\<lambda>c. (mc_instruction (snd c), mc_test (snd c))) cases)"
proof -
  from reg obtain data rows where v: "v = PDict data" "fld data ''schema'' = PStr ''pto.asl-model-cases.v2''"
    "fld data ''cases'' = PList rows" "rfold register_case rows [] = Inr cases"
    by (auto simp: CaseRegistry_def guard_def res_simps split: pyval.splits if_splits)
  let ?cs = "map snd cases" and ?tests = "map (\<lambda>c. (mc_instruction (snd c), mc_test (snd c))) cases"
  have rc: "list_all2 row_case rows ?cs" using rfold_register_rows [OF v(4)] by auto
  have di: "distinct (map mc_instruction ?cs)" using dist by (simp add: comp_def)
  have "rfold add_test rows [] = Inr ?tests" using rfold_add_cases [OF rc, of "[]"] di by (simp add: comp_def)
  then have ct: "canonical_tests v = Inr ?tests" using v by (simp add: canonical_tests_def schema_known_def rbind_def)
  have ok: "check_test json_loads files (registry_sources rows) t = Inr ()" if t: "t \<in> set ?tests" for t
  proof -
    from t obtain k c where c: "(k, c) \<in> set cases" "t = (mc_instruction c, mc_test c)" by auto
    have vr: "validate_registered json_loads files c = Inr ()"
      using val by (auto simp: registry_validate_def res_simps dest!: rmap_member [OF _ c(1)])
    have src: "map_of (registry_sources rows) (mc_instruction c) = Some (mc_source c)"
      by (rule registry_sources_cases [OF rc di]) (use c(1) norm v in force)+
    show ?thesis using validate_registered_Inr [OF vr] src unfolding c(2) check_test_Inr by blast
  qed
  have "rmap (check_test json_loads files (registry_sources rows)) ?tests = Inr (map (\<lambda>_. ()) ?tests)"
    by (rule rmap_total) (use ok in auto)
  moreover have "\<exists>d. artifact_manifest sha files commit = Inr d"
    using art by (auto simp: artifact_load_def artifact_manifest_def res_simps split: list.splits option.splits)
  ultimately show ?thesis using inventory_agrees(1) [OF ct, of json_loads sha files commit] v by (auto simp: res_simps)
qed

end
