(* ===== verification/Catalog_Tools.thy ===== *)
theory Catalog_Tools
  imports Multi_Runner Elf_Loader "HOL-Library.List_Lexorder" "HOL-Library.Char_ord" "HOL-Library.Multiset"
begin

text \<open>
  The tools that read the instruction catalog of the PTO specification: the generator of the smoke
  ELF (\<open>tools/generate_smoke_elf.py\<close>) and the generator of the model manifest
  (\<open>tools/generate_asl_model_manifest.py\<close>), with \<open>AslMultiPeElfRunner.run\<close>, which loads and runs an ELF.

  The decoded catalog, \<open>json.loads\<close>, the files of the checkout in path order, the commit and the
  digest of the case registry are parameters. A form identifier that is not a string is kept as the
  value; the tool prints it with \<open>str\<close>.
\<close>

section \<open>The smoke ELF\<close>

text \<open>\<open>len(value)\<close> and \<open>value[0]\<close>.\<close>

definition json_len :: "pyval \<Rightarrow> nat res" where
  "json_len v =
     (case v of
        PList xs \<Rightarrow> Inr (length xs) | PTuple xs \<Rightarrow> Inr (length xs) | PDict d \<Rightarrow> Inr (length d) | PStr s \<Rightarrow> Inr (length s) | PBytes bs \<Rightarrow> Inr (length bs)
      | _ \<Rightarrow> Inl (TypeError ''object has no len()''))"

definition json_head :: "pyval \<Rightarrow> pyval res" where
  "json_head v =
     (case v of
        PList (x # _) \<Rightarrow> Inr x | PTuple (x # _) \<Rightarrow> Inr x | PTuple [] \<Rightarrow> Inl IndexError | PStr (c # _) \<Rightarrow> Inr (PStr [c]) | PBytes (b # _) \<Rightarrow> Inr (PInt (uint b))
      | PDict _ \<Rightarrow> Inl (KeyError ''0'') | PList [] \<Rightarrow> Inl IndexError | PStr [] \<Rightarrow> Inl IndexError | PBytes [] \<Rightarrow> Inl IndexError
      | _ \<Rightarrow> Inl (TypeError ''not subscriptable''))"

text \<open>The condition of the comprehension, with its short-circuit evaluation.\<close>

definition smoke_form :: "string \<Rightarrow> pyval \<Rightarrow> bool res" where
  "smoke_form mnemonic form =
     rbind (json_get form ''mnemonic'' PNone) (\<lambda>mn.
       if mn \<noteq> PStr mnemonic then Inr False
       else rbind (json_get form ''status'' PNone) (\<lambda>st.
         if st \<noteq> PStr ''accepted'' then Inr False
         else rbind (json_get form ''constraints'' PNone) (\<lambda>cs.
           if cs \<noteq> PList [] then Inr False
           else rbind (json_get form ''encoding'' (PList [])) (\<lambda>es. rbind (json_len es) (\<lambda>n. Inr (n = 1))))))"

fun smoke_forms :: "string \<Rightarrow> pyval list \<Rightarrow> pyval list res" where
  "smoke_forms mnemonic [] = Inr []"
| "smoke_forms mnemonic (form # forms) =
     rbind (smoke_form mnemonic form) (\<lambda>keep.
     rbind (smoke_forms mnemonic forms) (\<lambda>rest. Inr (if keep then form # rest else rest)))"

text \<open>\<open>width not in {16, 32, 48, 64}\<close>\<close>

definition smoke_width :: "pyval \<Rightarrow> int res" where
  "smoke_width v =
     (case v of
        PInt w \<Rightarrow> if w \<in> {16, 32, 48, 64} then Inr w else Inl (ValueError ''unsupported smoke encoding width'')
      | _ \<Rightarrow> if py_hashable v then Inl (ValueError ''unsupported smoke encoding width'')
             else Inl (TypeError ''unhashable type''))"

text \<open>The encoding of the selected form.\<close>

definition smoke_encoding :: "pyval \<Rightarrow> (int \<times> int \<times> pyval) res" where
  "smoke_encoding form =
     rbind (json_item form ''encoding'') (\<lambda>es.
     rbind (json_head es) (\<lambda>encoding.
     rbind (json_get encoding ''width_bits'' PNone) (\<lambda>w.
     rbind (smoke_width w) (\<lambda>width.
     rbind (rbind (json_item encoding ''mask'') json_int0) (\<lambda>mask.
     rbind (rbind (json_item encoding ''match'') json_int0) (\<lambda>mtch.
       if mtch AND mask \<noteq> mtch \<or> mtch \<ge> 2 ^ nat width then
         Inl (ValueError ''catalog match is outside its declared mask or width'')
       else rbind (json_item form ''form_id'') (\<lambda>form_id. Inr (mtch, width, form_id))))))))"

definition catalog_encoding :: "pyval \<Rightarrow> string \<Rightarrow> (int \<times> int \<times> pyval) res" where
  "catalog_encoding catalog mnemonic =
     rbind (json_get catalog ''forms'' (PList [])) (\<lambda>fs.
     rbind (json_iter fs) (\<lambda>forms.
     rbind (smoke_forms mnemonic forms) (\<lambda>matches.
       if length matches \<noteq> 1 then Inl (ValueError ''expected one unconstrained accepted form'')
       else smoke_encoding (hd matches))))"

text \<open>\<open>f"0x{value:0{digits}x}"\<close> of a value that is not negative.\<close>

definition padded_hex :: "nat \<Rightarrow> int \<Rightarrow> string" where
  "padded_hex digits v = ''0x'' @ replicate (digits - length (py_hex v)) CHR ''0'' @ py_hex v"

definition smoke_entry :: int where "smoke_entry = 0x1000"

text \<open>The bytes written; \<open>ELF_HEADER.size\<close> is 64 and \<open>PROGRAM_HEADER.size\<close> is 56.\<close>

definition smoke_file :: "byte list \<Rightarrow> byte list" where
  "smoke_file code =
     [0x7F, 0x45, 0x4C, 0x46, 2, 1, 1] @ replicate 9 0
     @ pack_le HEADER_FIELDS [2, 0xE9, 1, smoke_entry, 64, 0, 0, 64, 56, 1, 0, 0, 0]
     @ pack_le PROGRAM_HEADER [1, 5, 64 + 56, smoke_entry, smoke_entry, int (length code), int (length code), 0x1000]
     @ code"

definition build_smoke :: "pyval \<Rightarrow> string \<Rightarrow> string \<Rightarrow> (byte list \<times> (string, pyval) dict) res" where
  "build_smoke catalog out_path mnemonic =
     rbind (catalog_encoding catalog mnemonic) (\<lambda>(instruction, width, form_id).
     rbind (to_le_bytes (nat (width div 8)) instruction) (\<lambda>code.
       Inr (smoke_file code,
         [(''output'', PStr out_path), (''mnemonic'', PStr mnemonic), (''form_id'', form_id),
          (''encoding'', PStr (padded_hex (nat (width div 4)) instruction)), (''width_bits'', PInt width),
          (''entry_point'', PInt smoke_entry), (''machine'', PInt 0xE9)])))"

section \<open>Running an ELF file\<close>

definition multi_elf_run ::
  "(string \<Rightarrow> byte list res) \<Rightarrow> int option \<Rightarrow> int option \<Rightarrow> runner_config \<Rightarrow> 'w worker_ops \<Rightarrow> run_policies \<Rightarrow> string \<Rightarrow> int \<Rightarrow> int \<Rightarrow>
   int option \<Rightarrow> 'b host_bridge \<Rightarrow> (multi_result res \<times> 'b host_bridge) option" where
  "multi_elf_run read_file model_base expected_machine R W P elf_path pe_count max_instructions length_bits h =
     (case rbind (ElfLoadRequest (Some elf_path) None model_base expected_machine
                    [(''model_profile'', PStr (mp_name (xc_profile (rc_executor R))))]) (elf_load read_file) of
        Inl e \<Rightarrow> Some (Inl e, h)
      | Inr img \<Rightarrow> run_image R W P img pe_count max_instructions length_bits h)"

section \<open>The model manifest\<close>

text \<open>\<open>record.get(key, value.get(key))\<close>\<close>

definition form_field :: "(string, pyval) dict \<Rightarrow> (string, pyval) dict \<Rightarrow> string \<Rightarrow> string \<times> pyval" where
  "form_field v r k = (k, dict_get r k (dict_get v k PNone))"

definition form_keys :: "string list" where
  "form_keys = [''semantic_handler'', ''semantic_family'', ''length_bits'', ''status'', ''form_id'']"

definition manifest_form :: "(string, pyval) dict \<Rightarrow> string \<Rightarrow> (string, pyval) dict \<Rightarrow> pyval res" where
  "manifest_form v mnemonic r =
     (if dict_get r ''mnemonic'' (PStr mnemonic) \<noteq> PStr mnemonic then
        Inl (ValueError ''catalog records disagree on mnemonic'')
      else Inr (PDict (map (form_field v r) form_keys)))"

record manifest_record =
  mf_mnemonic :: string
  mf_source :: string
  mf_forms :: "pyval list"

definition as_object :: "pyval \<Rightarrow> (string, pyval) dict res" where
  "as_object v = (case v of PDict d \<Rightarrow> Inr d | _ \<Rightarrow> Inl (ValueError ''catalog records must be objects''))"

text \<open>The record of the objects of one instruction, named by the given value.\<close>

definition named_record :: "string \<Rightarrow> (string, pyval) dict \<Rightarrow> (string, pyval) dict list \<Rightarrow> pyval \<Rightarrow> manifest_record res" where
  "named_record source row records name =
     (case name of
        PStr mnemonic \<Rightarrow>
          if mnemonic = [] then Inl (ValueError ''catalog record has no mnemonic'')
          else rbind (rmap (manifest_form row mnemonic) records) (\<lambda>forms.
                 Inr \<lparr>mf_mnemonic = mnemonic, mf_source = source, mf_forms = forms\<rparr>)
      | _ \<Rightarrow> Inl (ValueError ''catalog record has no mnemonic''))"

text \<open>One \<open>PTO-INSTRUCTION\<close> object of the file \<open>source\<close>.\<close>

definition instruction_record :: "string \<Rightarrow> pyval \<Rightarrow> manifest_record res" where
  "instruction_record source v =
     (case v of
        PDict row \<Rightarrow>
          (case dict_get row ''catalog_records'' (PList []) of
             PList rs \<Rightarrow>
               rbind (rmap as_object (if rs = [] then [v] else rs)) (\<lambda>records.
                 named_record source row records (dict_get row ''mnemonic'' (dict_get (hd records) ''mnemonic'' PNone)))
           | _ \<Rightarrow> Inl (ValueError ''catalog_records must be an array''))
      | _ \<Rightarrow> Inl (ValueError ''PTO-INSTRUCTION must be an object''))"

text \<open>\<open>parse_instruction\<close>: the first record of the file, if it has one.\<close>

definition instruction_prefix :: string where "instruction_prefix = ''// PTO-INSTRUCTION: ''"

fun parse_instruction :: "(string \<Rightarrow> pyval res) \<Rightarrow> string \<Rightarrow> string list \<Rightarrow> manifest_record option res" where
  "parse_instruction loads source [] = Inr None"
| "parse_instruction loads source (line # ls) =
     (if py_startswith line instruction_prefix then
        rbind (loads (drop (length instruction_prefix) line)) (\<lambda>v. rbind (instruction_record source v) (\<lambda>r. Inr (Some r)))
      else parse_instruction loads source ls)"

definition duplicate_mnemonics :: "manifest_record list \<Rightarrow> string list" where
  "duplicate_mnemonics rs = sort (filter (\<lambda>m. 1 < length (filter (\<lambda>r. mf_mnemonic r = m) rs)) (remdups (map mf_mnemonic rs)))"

record model_manifest =
  mm_pto_spec_commit :: string
  mm_case_registry_sha256 :: string
  mm_instruction_count :: nat
  mm_instructions :: "manifest_record list"
  mm_duplicate_mnemonics :: "string list"

text \<open>\<open>generate\<close>, with the \<open>*.asl\<close> files in path order, each with its relative path and its text.\<close>

definition generate_manifest ::
  "(string \<Rightarrow> pyval res) \<Rightarrow> bool \<Rightarrow> (string \<times> string) list \<Rightarrow> string res \<Rightarrow> string \<Rightarrow> model_manifest res" where
  "generate_manifest loads has_asl_root files commit cases_sha256 =
     (if \<not> has_asl_root then Inl (RuntimeError ''missing ASL root'')
      else rbind (rmap (\<lambda>(source, txt_of). parse_instruction loads source (splitlines txt_of)) files) (\<lambda>rs.
        let instructions = sort_key (\<lambda>r. (mf_mnemonic r, mf_source r)) (some_values rs) in
        rbind commit (\<lambda>c.
          Inr \<lparr>mm_pto_spec_commit = c, mm_case_registry_sha256 = cases_sha256, mm_instruction_count = length instructions,
               mm_instructions = instructions, mm_duplicate_mnemonics = duplicate_mnemonics instructions\<rparr>)))"

section \<open>Lemmas: the smoke ELF\<close>

lemma smoke_header:
  "header_record (smoke_file code) =
    \<lparr>eh_ident = [0x7F, 0x45, 0x4C, 0x46, 2, 1, 1] @ replicate 9 0, eh_type = 2, eh_machine = 0xE9, eh_version = 1,
     eh_entry = smoke_entry, eh_phoff = 64, eh_shoff = 0, eh_flags = 0, eh_ehsize = 64, eh_phentsize = 56,
     eh_phnum = 1, eh_shentsize = 0, eh_shnum = 0, eh_shstrndx = 0\<rparr>"
proof -
  let ?vs = "[2, 0xE9, 1, smoke_entry, 64, 0, 0, 64, 56, 1, 0, 0, 0]"
  have "list_all2 (\<lambda>n v. 0 \<le> v \<and> v < 256 ^ n) HEADER_FIELDS ?vs" by (simp add: HEADER_FIELDS_def smoke_entry_def)
  then have "unpack_le HEADER_FIELDS (drop 16 (smoke_file code)) = ?vs"
    using unpack_pack_le by (simp add: smoke_file_def)
  then show ?thesis by (simp add: header_record_def Let_def smoke_file_def)
qed

definition smoke_segment :: "byte list \<Rightarrow> program_segment" where
  "smoke_segment code = \<lparr>ps_address = smoke_entry, ps_data = code, ps_memory_size = int (length code), ps_permissions = ''rx'',
     ps_alignment = 0x1000, ps_name = ''PT_LOAD[0]''\<rparr>"

lemma smoke_load_segment:
  assumes "code \<noteq> []" and "int (length code) < 2 ^ 64"
  shows "load_segment (smoke_file code) 64 56 0 = Inr (Some (smoke_segment code))"
proof -
  let ?bs = "smoke_file code" and ?n = "int (length code)"
  let ?vs = "[1, 5, 120, smoke_entry, smoke_entry, ?n, ?n, 0x1000]"
  obtain hdr where hdr: "length hdr = 64" "?bs = hdr @ pack_le PROGRAM_HEADER ?vs @ code"
    by (rule that [of "[0x7F, 0x45, 0x4C, 0x46, 2, 1, 1] @ replicate 9 0
          @ pack_le HEADER_FIELDS [2, 0xE9, 1, smoke_entry, 64, 0, 0, 64, 56, 1, 0, 0, 0]"])
      (simp_all add: length_pack_le HEADER_FIELDS_def smoke_file_def)
  have lp: "length (pack_le PROGRAM_HEADER ?vs) = 56" by (simp add: length_pack_le)
  have len: "length ?bs = 120 + length code" using hdr lp by simp
  have "list_all2 (\<lambda>n v. 0 \<le> v \<and> v < 256 ^ n) PROGRAM_HEADER ?vs"
    using assms(2) by (simp add: PROGRAM_HEADER_def smoke_entry_def)
  then have "unpack_le PROGRAM_HEADER (drop 64 ?bs) = ?vs" using unpack_pack_le hdr by simp
  then have un: "unpack_from PROGRAM_HEADER ?bs 64 = Inr ?vs" using len by (simp add: unpack_from_Inr)
  have "drop 120 ?bs = code" using hdr lp by simp
  then have sl: "py_slice ?bs 120 (120 + ?n) = code" by (simp add: py_slice_nonneg nat_add_distrib)
  have perm: "segment_permissions 5 = ''rx''" by (simp add: segment_permissions_def Let_def)
  have nm: "''PT_LOAD['' @ py_dec (int 0) @ '']'' = ''PT_LOAD[0]''" by code_simp
  have ps: "ProgramSegment smoke_entry code ?n ''rx'' 0x1000 ''PT_LOAD[0]'' = Inr (smoke_segment code)"
    using assms(1) by (simp add: ProgramSegment_def smoke_segment_def smoke_entry_def)
  show ?thesis
    using un sl perm nm ps len by (simp add: load_segment_def Let_def PT_LOAD_def)
qed

lemma smoke_elf_load:
  assumes "code \<noteq> []" and "int (length code) < 2 ^ 64" and "ElfLoadRequest (Some path) None None (Some 0xE9) md = Inr rq"
  shows "\<exists>j. elf_load (\<lambda>_. Inr (smoke_file code)) rq = Inr j \<and> pi_entry_point j = smoke_entry \<and> pi_segments j = [smoke_segment code]
    \<and> map_of (pi_metadata j) ''machine'' = Some (PInt 0xE9)"
proof -
  have rq: "rq = \<lparr>el_path = Some path, el_image = None, el_requested_base = None, el_expected_machine = Some 0xE9, el_metadata = md\<rparr>"
    using assms(3) by (simp add: ElfLoadRequest_def split: if_splits)
  have len: "64 \<le> length (smoke_file code)"
    by (simp add: smoke_file_def length_pack_le HEADER_FIELDS_def)
  have img: "ProgramImage smoke_entry [smoke_segment code] None [] md f =
      Inr \<lparr>pi_entry_point = smoke_entry, pi_segments = [smoke_segment code], pi_stack_pointer = None, pi_symbols = [], pi_metadata = md, pi_format = f\<rparr>" for md f
    by (simp add: ProgramImage_def smoke_entry_def adjacent_overlap_def)
  show ?thesis
    using len unfolding rq by (simp add: elf_load_def ELF_HEADER_SIZE_def Let_def unpack_header_ok smoke_header
        smoke_load_segment [OF assms(1,2)] res_simps some_values_def List.map_filter_def elf_image_def img elf_symbols_def)
qed

lemma catalog_encoding_Inr:
  assumes "catalog_encoding catalog mnemonic = Inr (v, width, fid)"
  shows "width \<in> {16, 32, 48, 64}" and "v < 2 ^ nat width"
proof -
  have w: "smoke_width x = Inr w \<Longrightarrow> w \<in> {16, 32, 48, 64}" for x w
    by (auto simp: smoke_width_def split: pyval.splits if_splits)
  show "width \<in> {16, 32, 48, 64}" "v < 2 ^ nat width"
    using assms by (auto simp: catalog_encoding_def smoke_encoding_def res_simps split: if_splits dest!: w)
qed

section \<open>Properties\<close>

text \<open>
  C17: the smoke ELF runs. Whatever the catalog holds, when the generator writes a file, the runtime
  loader accepts it for the PTO machine: the image enters at its single executable segment, whose
  bytes are the little-endian form of the catalog's encoding at the catalog's width, and the fetch
  at the entry point finds that segment.
\<close>

theorem smoke_elf_loads:
  assumes "build_smoke catalog out_path mnemonic = Inr (bs, report)" and "ElfLoadRequest (Some path) None None (Some 0xE9) md = Inr rq"
  shows "\<exists>instruction width form_id j seg. catalog_encoding catalog mnemonic = Inr (instruction, width, form_id)
    \<and> elf_load (\<lambda>_. Inr bs) rq = Inr j \<and> pi_segments j = [seg] \<and> pi_entry_point j = ps_address seg
    \<and> segment_for_pc j (pi_entry_point j) = Some seg \<and> map_of (pi_metadata j) ''machine'' = Some (PInt 0xE9)
    \<and> le_int (ps_data seg) = instruction \<and> int (length (ps_data seg)) * 8 = width
    \<and> map_of report ''width_bits'' = Some (PInt width) \<and> map_of report ''entry_point'' = Some (PInt (pi_entry_point j))"
proof -
  from assms(1) obtain v width fid code where c: "catalog_encoding catalog mnemonic = Inr (v, width, fid)"
    and code: "to_le_bytes (nat (width div 8)) v = Inr code" and bs: "bs = smoke_file code"
    and rep: "map_of report ''width_bits'' = Some (PInt width)" "map_of report ''entry_point'' = Some (PInt smoke_entry)"
    by (auto simp: build_smoke_def res_simps)
  have w: "width \<in> {16, 32, 48, 64}" using catalog_encoding_Inr [OF c] by simp
  have cd: "code = le_bytes (nat (width div 8)) v" "0 \<le> v" "v < 256 ^ nat (width div 8)"
    using code by (auto simp: to_le_bytes_def split: if_splits)
  then have len: "length code = nat (width div 8)" by simp
  with w have ne: "code \<noteq> []" "int (length code) < 2 ^ 64" "int (length code) * 8 = width" by auto
  from smoke_elf_load [OF ne(1,2) assms(2)] obtain j where j: "elf_load (\<lambda>_. Inr bs) rq = Inr j" "pi_entry_point j = smoke_entry"
    "pi_segments j = [smoke_segment code]" "map_of (pi_metadata j) ''machine'' = Some (PInt 0xE9)" unfolding bs by blast
  have "segment_for_pc j smoke_entry = Some (smoke_segment code)"
    using j(3) ne(1) by (simp add: segment_for_pc_def smoke_segment_def)
  moreover have "le_int code = v" using le_int_of_fitting [of v "nat (width div 8)"] cd by simp
  ultimately show ?thesis using c j rep ne(3)
    by (intro exI [of _ v] exI [of _ width] exI [of _ fid] exI [of _ j] exI [of _ "smoke_segment code"]) (simp add: smoke_segment_def)
qed

text \<open>A catalog with one accepted form.\<close>

definition demo_catalog :: pyval where
  "demo_catalog = PDict [(''forms'', PList
     [PDict [(''mnemonic'', PStr ''ADD''), (''status'', PStr ''reserved'')],
      PDict [(''mnemonic'', PStr ''ADD''), (''status'', PStr ''accepted''), (''constraints'', PList []), (''form_id'', PStr ''add''),
        (''encoding'', PList [PDict [(''width_bits'', PInt 16), (''mask'', PStr ''0xff''), (''match'', PStr ''0x15'')]])]])]"

lemma demo_catalog_encoding: "catalog_encoding demo_catalog ''ADD'' = Inr (0x15, 16, PStr ''add'')"
  by code_simp

lemma demo_smoke: "\<exists>report. build_smoke demo_catalog ''out.elf'' ''ADD'' = Inr (smoke_file [0x15, 0], report)"
proof -
  have "to_le_bytes (nat (16 div 8)) 0x15 = Inr [0x15, 0]" by code_simp
  then show ?thesis by (simp add: build_smoke_def demo_catalog_encoding rbind_def)
qed

theorem smoke_elf_loads_witness:
  "\<exists>j seg. elf_load (\<lambda>_. Inr (smoke_file [0x15, 0])) \<lparr>el_path = Some ''out.elf'', el_image = None, el_requested_base = None,
       el_expected_machine = Some 0xE9, el_metadata = []\<rparr> = Inr j
     \<and> pi_segments j = [seg] \<and> le_int (ps_data seg) = 0x15 \<and> segment_for_pc j (pi_entry_point j) = Some seg"
proof -
  obtain report where r: "build_smoke demo_catalog ''out.elf'' ''ADD'' = Inr (smoke_file [0x15, 0], report)" using demo_smoke by blast
  have "ElfLoadRequest (Some ''out.elf'') None None (Some 0xE9) [] = Inr \<lparr>el_path = Some ''out.elf'', el_image = None,
      el_requested_base = None, el_expected_machine = Some 0xE9, el_metadata = []\<rparr>" by (simp add: ElfLoadRequest_def)
  from smoke_elf_loads [OF r this] show ?thesis by (auto simp: demo_catalog_encoding)
qed

section \<open>The manifest is a projection of the catalog\<close>

lemma named_record_Inr: "named_record source row rs n = Inr r \<Longrightarrow> mf_source r = source \<and> mf_mnemonic r \<noteq> []"
  by (auto simp: named_record_def res_simps split: pyval.splits if_splits)

lemma instruction_record_Inr:
  "instruction_record source v = Inr r \<Longrightarrow> mf_source r = source \<and> mf_mnemonic r \<noteq> []"
  by (auto simp: instruction_record_def res_simps split: pyval.splits dest: named_record_Inr)

lemma parse_instruction_Some:
  "parse_instruction loads source ls = Inr (Some r) \<Longrightarrow> mf_source r = source \<and> mf_mnemonic r \<noteq> []
     \<and> (\<exists>line \<in> set ls. py_startswith line instruction_prefix)"
  by (induction ls) (auto simp: res_simps split: if_splits dest: instruction_record_Inr)

lemma some_values_iff: "x \<in> set (some_values ys) \<longleftrightarrow> Some x \<in> set ys"
  by (force simp: some_values_def List.map_filter_def)

text \<open>
  The manifest lists the record of every file that has one and nothing else, ordered by mnemonic
  and source, each under its own file; the duplicates are exactly the mnemonics listed twice.
\<close>

theorem manifest_exact:
  assumes "generate_manifest loads has_root files commit sha = Inr m"
  shows "\<exists>rs. rmap (\<lambda>(source, txt_of). parse_instruction loads source (splitlines txt_of)) files = Inr rs
      \<and> mset (mm_instructions m) = mset (some_values rs)"
    and "sorted (map (\<lambda>r. (mf_mnemonic r, mf_source r)) (mm_instructions m))"
    and "\<forall>r \<in> set (mm_instructions m). mf_source r \<in> set (map fst files) \<and> mf_mnemonic r \<noteq> []"
    and "set (mm_duplicate_mnemonics m) = {x. 2 \<le> length (filter (\<lambda>r. mf_mnemonic r = x) (mm_instructions m))}"
    and "mm_instruction_count m = length (mm_instructions m)"
proof -
  let ?f = "\<lambda>(source, txt_of). parse_instruction loads source (splitlines txt_of)"
  from assms obtain rs where rs: "rmap ?f files = Inr rs"
    and m: "mm_instructions m = sort_key (\<lambda>r. (mf_mnemonic r, mf_source r)) (some_values rs)"
      "mm_duplicate_mnemonics m = duplicate_mnemonics (mm_instructions m)" "mm_instruction_count m = length (mm_instructions m)"
    by (auto simp: generate_manifest_def Let_def res_simps split: if_splits)
  show "\<exists>rs. rmap ?f files = Inr rs \<and> mset (mm_instructions m) = mset (some_values rs)" using rs m(1) by simp
  show "sorted (map (\<lambda>r. (mf_mnemonic r, mf_source r)) (mm_instructions m))" using m(1) by simp
  show "mm_instruction_count m = length (mm_instructions m)" by (rule m(3))
  show "\<forall>r \<in> set (mm_instructions m). mf_source r \<in> set (map fst files) \<and> mf_mnemonic r \<noteq> []"
  proof
    fix r assume "r \<in> set (mm_instructions m)"
    then have "Some r \<in> set rs" using m(1) by (simp add: some_values_iff)
    then obtain i where i: "i < length rs" "rs ! i = Some r" by (auto simp: in_set_conv_nth)
    with rs have "i < length files" "?f (files ! i) = Inr (Some r)"
      by (auto simp: rmap_Inr_iff list_all2_conv_all_nth)
    then show "mf_source r \<in> set (map fst files) \<and> mf_mnemonic r \<noteq> []"
      using parse_instruction_Some [of loads "fst (files ! i)" _ r] by (auto simp: case_prod_beta)
  qed
  have "x \<in> set (duplicate_mnemonics ys) \<longleftrightarrow> 2 \<le> length (filter (\<lambda>r. mf_mnemonic r = x) ys)" for x ys
  proof -
    have "x \<in> mf_mnemonic ` set ys" if "1 < length (filter (\<lambda>r. mf_mnemonic r = x) ys)"
      using that by (cases "filter (\<lambda>r. mf_mnemonic r = x) ys") (auto simp: filter_eq_Cons_iff)
    then show ?thesis by (auto simp: duplicate_mnemonics_def)
  qed
  then show "set (mm_duplicate_mnemonics m) = {x. 2 \<le> length (filter (\<lambda>r. mf_mnemonic r = x) (mm_instructions m))}"
    using m(2) by auto
qed

end
