(* ===== verification/Spec2Isabelle.thy ===== *)
theory Spec2Isabelle
  imports Run_Equivalence Single_Runner Session_Worker Profile_Text Runner_Build Runtime_Adapter Closure_Run Demo_Tool Catalog_Tools
begin

text \<open>
  Verification of the host side of the PTO ASL functional model (\<open>src/src/asl_model\<close> and
  \<open>src/src/pto_asl_model\<close>).

  \<^bold>\<open>The program.\<close> The instruction semantics is written in ASL and executed by ASLRef, an external
  OCaml program. The Python code around it loads ELF files, lays out stacks, owns the guest
  memory, talks to ASLRef workers over a line protocol, schedules several processing elements
  (PEs) on them, replays sessions, runs hosted programs and closures of test cases, and reports the
  outcome. The development models this host side; ASLRef, the worker process, files, \<open>git\<close>,
  SHA-256 and \<open>json.loads\<close> are parameters.

  \<^bold>\<open>Shared theories.\<close> \<open>Prelude\<close>: exceptions as \<open>py_error\<close>, results \<open>'a res\<close>, stateful operations
  \<open>('s, 'a) act\<close>, bytes, slices, dictionaries. \<open>Py_Text\<close>: numbers as text, splitting, hex, lines, paths.

  \<^bold>\<open>The runtime\<close> (\<open>src/src/asl_model/runtime\<close>, \<open>embedded\<close>).

  \<^item> \<open>Guest_Memory\<close> (\<open>memory.py\<close>): regions, checked reads and writes, snapshots and transactions,
    with the invariant of every run of operations.
  \<^item> \<open>Program_Image\<close> (\<open>protocol.py\<close>), \<open>Runtime_Layout\<close> (\<open>config.py\<close>), \<open>Elf_Loader\<close> (\<open>elf.py\<close>): validated
    images, stack placement, ELF64 loading. A reference encoder states the round trip of the loader.
  \<^item> \<open>Host_Memory\<close> (\<open>host_memory.py\<close>): loading an image, zero pages, the byte and chunk callbacks.
    \<open>Memory_Clients\<close> describes a program that talks to memory only through callbacks (\<open>mprog\<close>), and
    the locales of memories that answer alike; \<open>Flat_Memory\<close> is the abstract memory, a function from
    addresses to bytes.
  \<^item> \<open>Parallel_Memory\<close> (\<open>parallel_memory.py\<close>): the per-PE views of a parallel round, conflict
    detection, commit and rollback. \<open>Memory_Agreement\<close> interprets the callback locales on the bridge,
    the views and the flat memory.
  \<^item> \<open>Worker_Protocol\<close> (\<open>embedded/worker.py\<close>): the request loop and the commands of the line protocol.
    The process is given by its write, read and liveness operations. The loop has fuel, since a
    process may ask for memory forever; \<open>None\<close> means that the fuel ran out.
  \<^item> \<open>Worker_Build\<close> (\<open>_ensure_built\<close> and \<open>_compile\<close> of \<open>embedded/worker.py\<close>): the checks of the ASLRef checkout, the
    cache key and the cache entry of the native worker, as a function of one caller and as a step
    relation of processes that share the entry under the file lock. \<open>Runner_Build\<close>
    (\<open>_host_memory_runner\<close> of \<open>pto_asl_model/runner.py\<close>): the second cache, which has no lock.
  \<^item> \<open>Model_Profile\<close> (\<open>profile.py\<close>, \<open>completion.py\<close>): profiles and completion masks. \<open>Profile_Text\<close>: the
    declarations of the ASL text, the projection of a profile on it and the cached file.
  \<^item> \<open>Multi_Executor\<close>, \<open>Multi_Runner\<close> (\<open>multi_elf.py\<close>): the worker executor and the scheduler with parallel
    rounds and serial fallback. \<open>Run_Invariants\<close> shows what every run guarantees; \<open>Round_Equivalence\<close> and
    \<open>Run_Equivalence\<close> relate a parallel run to the serial run, round by round. The loop has fuel; a
    run with a bound of \<open>n\<close> instructions gets enough of it, and every run returns.
  \<^item> \<open>Single_Runner\<close> (\<open>asl_elf.py\<close>): the single-PE fetch loop, both fetch paths, the report.
  \<^item> \<open>Runtime_Adapter\<close> (\<open>adapter.py\<close>, \<open>mock.py\<close>): loading, snapshots and transactional instruction steps,
    with state objects in an explicit store because the code shares and mutates them.

  \<^bold>\<open>States, sessions and backends\<close> (\<open>src/src/asl_model\<close>, \<open>src/src/pto_asl_model\<close>).

  \<^item> \<open>Arch_State\<close>, \<open>State_Envelopes\<close> (both \<open>state.py\<close>): architectural states, envelopes and execution
    results, their JSON form, canonical text and diffs.
  \<^item> \<open>Sessions\<close> (\<open>session.py\<close>): process and embedded sessions, behind one locale that states the
    contract of \<open>AslSession\<close> and is interpreted by both.
  \<^item> \<open>Backends\<close> (\<open>cases.py\<close>, \<open>artifact.py\<close>, \<open>backend.py\<close>, \<open>runner.py\<close>): the case registry, the ASL, native and
    differential backends, and the batch runner over the locale that all three interpret.

  \<^bold>\<open>Hosted runs and closures\<close> (\<open>src/src/pto_asl_model\<close>).

  \<^item> \<open>Hosted_Elf\<close> (\<open>elf_note.py\<close>, \<open>parse_elf\<close> of \<open>runner.py\<close>): the compatibility note and the strict ELF
    reader. \<open>Hosted_Run\<close> (\<open>runner.py\<close>): sidecar and lock validation, the harness with its memory writes,
    loop and markers, the output parser and the verdict.
  \<^item> \<open>Closure_Artifacts\<close> (\<open>closure_artifacts.py\<close>): the validators of requests, locks, payloads, envelopes
    and cases. \<open>Closure_Run\<close> (\<open>closure.py\<close>): corpus, impact report, case selection, the sidecar of a
    case, its execution and the payload of a whole closure.

  \<^bold>\<open>Tools\<close> (\<open>src/tools\<close>). \<open>Catalog_Tools\<close> (\<open>generate_smoke_elf.py\<close>, \<open>generate_asl_model_manifest.py\<close>, and
  \<open>AslMultiPeElfRunner.run\<close>): the smoke ELF and the instruction manifest, from the catalog. \<open>Demo_Tool\<close>
  (\<open>asl_backed_demo.py\<close>): the second reader of the case registry, compared with \<open>Backends\<close>.

  \<^bold>\<open>What is shown.\<close>

  \<^item> Parallel execution: for workers without a memory cache a parallel run reports what the serial run
    reports; a committed round equals the serial round, a failed one leaves no trace, conflicts are
    reported exactly, and thread interleavings do not matter. \<open>cached_read_changes_run\<close> shows that
    the worker's cache breaks this.
  \<^item> Runs: every multi-PE run returns; single, multi-PE and hosted verdicts fail closed.
  \<^item> Memory and loading: a loaded image has exactly its bytes, zeros and stacks; stacks never overlap
    the image or each other; the loader accepts what the encoder writes, raises only its own
    exceptions, relocates a program as a whole and loads every generated smoke ELF; the two ELF
    readers agree; a profile changes exactly the values it names in the ASL text; transactions equal
    direct writes and snapshots restore exactly.
  \<^item> Protocol and sessions: worker replies are validated; an embedded session's machine is always the
    one its history leads to, and resetting to a snapshot restores its history. A native worker that
    was found or built is the one its identity describes and is never replaced;
    \<open>host_runner_emptied_after_return\<close> shows that the cache of the native runner does not have this.
  \<^item> States: what a reader accepts satisfies the constructors' invariants, keeps the canonical text and
    survives writing and reading; an adapter step is atomic.
  \<^item> Closures and backends: an accepted selection is exact, the sidecars written are accepted by the
    runner, a payload or a differential comparison is accepted only when everything passed.

  \<^bold>\<open>Not modelled.\<close> Process handling, timeouts and threads (operating-system services); the command
  lines, path configuration and package exports; the performance evaluator; the text of the
  generated ASL harness other than what it does;
  wall-clock metrics; floating-point numbers in JSON; the memory cache inside the native worker
  (\<open>Worker.ml\<close>).
\<close>

end
